(* ===== verification/Prelude.thy ===== *)
theory Prelude
  imports Main "HOL-Library.AList"
begin

text \<open>
  Shared ground of the development: the machine integers of the Rust sources, the error values
  that stand for \<^verbatim>\<open>common::Error\<close>, and the collections of rewrite rules the
  component theories extend.

  An \<^verbatim>\<open>i64\<close> (and a Postgres \<^verbatim>\<open>BIGINT\<close>) is an \<open>int\<close> whose range is written out:
  \<open>in_i64\<close> says a value is representable, and every operation that can leave the range
  (\<^verbatim>\<open>checked_add\<close>, \<^verbatim>\<open>saturating_add\<close>, unary minus) has its own definition.
\<close>

named_theorems run_simps \<open>how the primitive database actions evaluate\<close>
named_theorems pres_intros \<open>invariant preservation, one rule per action\<close>
named_theorems wf_simps \<open>components of the database invariant after a table update\<close>

section \<open>Machine integers\<close>

type_synonym i64 = int
type_synonym i32 = int
type_synonym u32 = nat

definition i64_min :: int where
  "i64_min = - (2 ^ 63)"

definition i64_max :: int where
  "i64_max = 2 ^ 63 - 1"

definition in_i64 :: "int \<Rightarrow> bool" where
  "in_i64 v \<longleftrightarrow> i64_min \<le> v \<and> v \<le> i64_max"

definition i32_max :: int where
  "i32_max = 2 ^ 31 - 1"

definition checked_add_i64 :: "i64 \<Rightarrow> i64 \<Rightarrow> i64 option" where
  "checked_add_i64 a b = (if in_i64 (a + b) then Some (a + b) else None)"

definition saturating_add_i64 :: "i64 \<Rightarrow> i64 \<Rightarrow> i64" where
  "saturating_add_i64 a b = max i64_min (min i64_max (a + b))"

text \<open>Plain \<^verbatim>\<open>+\<close>, \<^verbatim>\<open>-\<close> and unary \<^verbatim>\<open>-\<close> on \<^verbatim>\<open>i64\<close> wrap in a release build.\<close>

definition wrap_i64 :: "int \<Rightarrow> i64" where
  "wrap_i64 v = (v + 2 ^ 63) mod 2 ^ 64 - 2 ^ 63"

definition neg_i64 :: "i64 \<Rightarrow> i64" where
  "neg_i64 a = wrap_i64 (- a)"

definition sub_i64 :: "i64 \<Rightarrow> i64 \<Rightarrow> i64" where
  "sub_i64 a b = wrap_i64 (a - b)"

lemma in_i64_iff: "in_i64 v \<longleftrightarrow> - 9223372036854775808 \<le> v \<and> v \<le> 9223372036854775807"
  by (simp add: in_i64_def i64_min_def i64_max_def)

lemma wrap_i64_id [simp]: "in_i64 v \<Longrightarrow> wrap_i64 v = v"
  by (simp add: in_i64_iff wrap_i64_def)

lemma in_i64_wrap [simp]: "in_i64 (wrap_i64 v)"
proof -
  have "0 \<le> (v + 2 ^ 63) mod 2 ^ 64" "(v + 2 ^ 63) mod 2 ^ 64 < 2 ^ 64"
    by simp_all
  then show ?thesis unfolding in_i64_iff wrap_i64_def by simp
qed

lemma sub_i64_in [simp]: "in_i64 (a - b) \<Longrightarrow> sub_i64 a b = a - b"
  by (simp add: sub_i64_def)

lemma neg_i64_in: "in_i64 a \<Longrightarrow> a \<noteq> i64_min \<Longrightarrow> neg_i64 a = - a"
  by (simp add: neg_i64_def in_i64_iff i64_min_def)

lemma in_i64_saturating [simp]: "in_i64 (saturating_add_i64 a b)"
  by (simp add: in_i64_iff saturating_add_i64_def i64_min_def i64_max_def)

lemma in_i64_0 [simp]: "in_i64 0"
  and in_i64_1 [simp]: "in_i64 1"
  by (simp_all add: in_i64_iff)

lemma in_i64_diff_nonneg:
  "in_i64 a \<Longrightarrow> 0 \<le> b \<Longrightarrow> b \<le> a \<Longrightarrow> in_i64 (a - b)"
  by (simp add: in_i64_iff)

lemma checked_add_i64_Some [simp]:
  "checked_add_i64 a b = Some c \<longleftrightarrow> in_i64 (a + b) \<and> c = a + b"
  by (auto simp: checked_add_i64_def)

lemma checked_add_i64_None [simp]: "checked_add_i64 a b = None \<longleftrightarrow> \<not> in_i64 (a + b)"
  by (simp add: checked_add_i64_def)

section \<open>Sums over association lists of amounts\<close>

text \<open>The total a list of \<open>(key, amount)\<close> pairs carries for one key.\<close>

fun total_of :: "('k \<times> int) list \<Rightarrow> 'k \<Rightarrow> int" where
  "total_of [] k = 0"
| "total_of ((k', n) # xs) k = (if k' = k then n else 0) + total_of xs k"

lemma total_of_append [simp]: "total_of (xs @ ys) k = total_of xs k + total_of ys k"
  by (induction xs k rule: total_of.induct) auto

lemma total_of_nonneg: "(\<And>k' n. (k', n) \<in> set xs \<Longrightarrow> 0 \<le> n) \<Longrightarrow> 0 \<le> total_of xs k"
  by (induction xs k rule: total_of.induct) (auto intro!: add_nonneg_nonneg)

lemma total_of_absent: "k \<notin> fst ` set xs \<Longrightarrow> total_of xs k = 0"
  by (induction xs k rule: total_of.induct) auto

lemma total_of_distinct:
  "distinct (map fst xs) \<Longrightarrow> total_of xs k = (case map_of xs k of None \<Rightarrow> 0 | Some n \<Rightarrow> n)"
  by (induction xs k rule: total_of.induct) (force simp: total_of_absent dest: map_of_SomeD split: option.splits)+

end
