(* ===== verification/Ids.thy ===== *)
theory Ids
  imports Prelude "HOL-Library.Word"
begin

text \<open>
  The strongly typed identifiers of \<^verbatim>\<open>crates/common/src/id.rs\<close>: a 128-bit UUID wrapped with a
  phantom marker type, so that a character id and a realm id are different HOL types exactly as
  they are different Rust types. Equality and the total order are those of the UUID.
\<close>

type_synonym uuid = "128 word"

datatype 'm id = Id (as_uuid: uuid)

text \<open>\<^verbatim>\<open>Id::from_uuid\<close> is the constructor; \<^verbatim>\<open>Ord\<close> compares the wrapped UUIDs.\<close>

definition from_uuid :: "uuid \<Rightarrow> 'm id" where
  "from_uuid u = Id u"

instantiation id :: (type) linorder
begin

definition less_eq_id :: "'a id \<Rightarrow> 'a id \<Rightarrow> bool" where
  "less_eq_id a b \<longleftrightarrow> as_uuid a \<le> as_uuid b"

definition less_id :: "'a id \<Rightarrow> 'a id \<Rightarrow> bool" where
  "less_id a b \<longleftrightarrow> as_uuid a < as_uuid b"

instance
  by standard (auto simp: less_eq_id_def less_id_def id.expand)

end

lemma as_uuid_from_uuid [simp]: "as_uuid (from_uuid u) = u"
  by (simp add: from_uuid_def)

lemma from_uuid_as_uuid [simp]: "from_uuid (as_uuid i) = i"
  by (simp add: from_uuid_def)

datatype character_marker = CharacterMarker
datatype realm_marker = RealmMarker
datatype account_marker = AccountMarker
datatype entity_marker = EntityMarker
datatype channel_marker = ChannelMarker
datatype party_marker = PartyMarker
datatype guild_marker = GuildMarker

type_synonym character_id = "character_marker id"
type_synonym realm_id = "realm_marker id"
type_synonym account_id = "account_marker id"
type_synonym entity_id = "entity_marker id"
type_synonym channel_id = "channel_marker id"
type_synonym party_id = "party_marker id"
type_synonym guild_id = "guild_marker id"

end
