(* ===== verification/Errors.thy ===== *)
theory Errors
  imports Ids
begin

text \<open>
  \<^verbatim>\<open>common::Error\<close> as a datatype: one constructor per kind of \<^verbatim>\<open>Error::new\<close> site of the
  modelled code, carrying the values its message interpolates, grouped by crate, and \<open>Sql\<close> for \<^verbatim>\<open>Error::wrap\<close> around a
  failing statement. A statement fails in the model for the reasons the statement itself can have
  against the schema in \<^verbatim>\<open>db/migrations\<close>: a unique key, a CHECK, a foreign key, a number out
  of a \<^verbatim>\<open>BIGINT\<close>'s range, or \<^verbatim>\<open>fetch_one\<close> finding no row. A lost connection is not modelled.

  Below it, the pure counterpart of \<^verbatim>\<open>?\<close> on \<^verbatim>\<open>Result\<close> for the loaders and validators that
  touch no database.
\<close>

datatype sql_error =
    UniqueViolation
  | CheckViolation
  | ForeignKeyViolation
  | NumericOutOfRange
  | RowNotFound

datatype schema_error =
    ParseFailed
  | EmptySchema
  | DuplicateKey string
  | UnknownStat string
  | StatBelowMin string i64 i64
  | StatAboveMax string i64 i64
  | UnknownRecipe string
  | NoInputs string
  | InputAmountNotPositive string i64 string
  | OutputAmountNotPositive string i64
  | ItemTypeNotInCatalog string
  | ItemTypeNotTagged string string
  | RequiresUnknownStat string string
  | GrantsUnknownStat string string
  | ChanceOutOfRange string string
  | NotEquippable string
  | SlotNotDeclared string string
  | DeltaForUnknownStat string string
  | UnknownArchetype string
  | ArchetypePresetInvalid string string
  | UnknownCurrency string
  | RatioNotPositive string string i64
  | RatiosNotAscending string string i64
  | UnknownPartyType string
  | UnknownGuildRank string

datatype store_error =
    InvalidNumber string
  | MustBePositive string
  | GrantNotPositive i64
  | RemoveNotPositive i64
  | InventoryFull i64 i64
  | NotEnoughItems i64 string i64
  | CurrencyOverflow
  | CurrencyNegative i64 i64
  | SlotOutOfRange i32 i32
  | NotOwned character_id string
  | StatDeltaOverflow string
  | NothingEquipped character_id string
  | CraftRequirementNotMet string string i64 i64
  | CraftInputMissing string i64 string i64
  | OfferNotPositive string i64
  | OfferNotHeld character_id i64 string i64
  | PartyWithItself
  | InviteeInParty
  | PartyFull string u32
  | NotInParty
  | LeaseNotHeld

datatype realm_error =
    NoSuchRealm realm_id
  | UnrecognizedPolicy string
  | BoundElsewhere character_id realm_id
  | AlreadyLoggedIn character_id

datatype transfer_error =
    NoSuchCharacter character_id
  | OwnRealmMissing realm_id
  | SourceRealmOpen character_id
  | NoDestinationRealm realm_id
  | DestinationRealmOpen realm_id
  | CharacterOnline character_id
  | TicketMissing string character_id
  | PurchaseNotVerified string character_id
  | UnrecognizedGate string
  | GateRowIncomplete string
  | UnrecognizedOutcome string

datatype guild_error =
    GuildNameEmpty
  | AlreadyInGuild
  | CannotInviteSelf
  | InviteeInGuild
  | InviterNotInGuild
  | ActorNotInGuild
  | TargetNotInGuild
  | TargetNotInActorsGuild
  | AccountNotInGuild
  | PermissionDenied
  | CannotKickFounder
  | FounderRankOnly
  | FounderMustTransfer
  | OnlyFounderDisbands

datatype error =
    Sql sql_error
  | Schema schema_error
  | Store store_error
  | Realm realm_error
  | Transfer transfer_error
  | Guild guild_error

section \<open>Early return on pure results\<close>

definition try_then :: "'e + 'a \<Rightarrow> ('a \<Rightarrow> 'e + 'b) \<Rightarrow> 'e + 'b" where
  "try_then r k = (case r of Inl e \<Rightarrow> Inl e | Inr x \<Rightarrow> k x)"

definition ensure :: "bool \<Rightarrow> 'e \<Rightarrow> 'e + unit" where
  "ensure c e = (if c then Inr () else Inl e)"

definition ok_or_else :: "'a option \<Rightarrow> 'e \<Rightarrow> 'e + 'a" where
  "ok_or_else x e = (case x of None \<Rightarrow> Inl e | Some y \<Rightarrow> Inr y)"

fun check_all :: "('a \<Rightarrow> 'e + unit) \<Rightarrow> 'a list \<Rightarrow> 'e + unit" where
  "check_all f [] = Inr ()"
| "check_all f (x # xs) = try_then (f x) (\<lambda>_. check_all f xs)"

text \<open>\<^verbatim>\<open>seen.insert(key)\<close> in a loop: a repeated key is an error, else the key joins \<open>seen\<close>.\<close>

fun check_unique ::
  "('a \<Rightarrow> string) \<Rightarrow> (string \<Rightarrow> 'e) \<Rightarrow> ('a \<Rightarrow> 'e + unit) \<Rightarrow> string set \<Rightarrow> 'a list \<Rightarrow> 'e + unit" where
  "check_unique key dup f seen [] = Inr ()"
| "check_unique key dup f seen (x # xs) =
     try_then (ensure (key x \<notin> seen) (dup (key x))) (\<lambda>_.
     try_then (f x) (\<lambda>_. check_unique key dup f (insert (key x) seen) xs))"

lemma try_then_Inr [simp]:
  "try_then r k = Inr y \<longleftrightarrow> (\<exists>x. r = Inr x \<and> k x = Inr y)"
  by (simp add: try_then_def split: sum.split)

lemma try_then_simps [simp]: "try_then (Inl e) k = Inl e" "try_then (Inr x) k = k x"
  by (simp_all add: try_then_def)

lemma ensure_Inr [simp]: "ensure c e = Inr u \<longleftrightarrow> c"
  by (simp add: ensure_def)

lemma ensure_Inl [simp]: "ensure c e = Inl e' \<longleftrightarrow> \<not> c \<and> e' = e"
  by (auto simp: ensure_def)

lemma ok_or_else_Inr [simp]: "ok_or_else x e = Inr y \<longleftrightarrow> x = Some y"
  by (simp add: ok_or_else_def split: option.split)

lemma ok_or_else_Inl [simp]: "ok_or_else x e = Inl e' \<longleftrightarrow> x = None \<and> e' = e"
  by (auto simp: ok_or_else_def split: option.split)

lemma check_all_ok: "check_all f xs = Inr u \<longleftrightarrow> (\<forall>x \<in> set xs. f x = Inr ())"
  by (induction xs) auto

lemma check_unique_ok:
  "check_unique key dup f seen xs = Inr u \<longleftrightarrow>
     distinct (map key xs) \<and> key ` set xs \<inter> seen = {} \<and> (\<forall>x \<in> set xs. f x = Inr ())"
  by (induction xs arbitrary: seen) auto

lemma check_unique_ok_empty:
  "check_unique key dup f {} xs = Inr u \<longleftrightarrow>
     distinct (map key xs) \<and> (\<forall>x \<in> set xs. f x = Inr ())"
  by (simp add: check_unique_ok)

section \<open>Lookup by declared key\<close>

text \<open>Every declared schema resolves a key as \<^verbatim>\<open>.iter().find(|d| d.key == key)\<close>.\<close>

definition find_by :: "('d \<Rightarrow> string) \<Rightarrow> 'd list \<Rightarrow> string \<Rightarrow> 'd option" where
  "find_by key ds k = List.find (\<lambda>d. key d = k) ds"

lemma find_by_Nil [simp]: "find_by key [] k = None"
  by (simp add: find_by_def)

lemma find_by_Cons [simp]:
  "find_by key (d # ds) k = (if key d = k then Some d else find_by key ds k)"
  by (simp add: find_by_def)

lemma find_by_Some: "find_by key ds k = Some d \<Longrightarrow> d \<in> set ds \<and> key d = k"
  by (auto simp: find_by_def find_Some_iff)

lemma find_by_None: "find_by key ds k = None \<longleftrightarrow> k \<notin> key ` set ds"
  by (auto simp: find_by_def find_None_iff)

lemma find_by_declared: "d \<in> set ds \<Longrightarrow> \<exists>d'. find_by key ds (key d) = Some d'"
  using find_by_None [of key ds "key d"] by (cases "find_by key ds (key d)") auto

lemma find_by_distinct:
  "distinct (map key ds) \<Longrightarrow> d \<in> set ds \<Longrightarrow> find_by key ds (key d) = Some d"
  by (induction ds) (auto simp: image_iff)

end
