(* ===== verification/AttributeSchema.thy ===== *)
theory AttributeSchema
  imports Errors
begin

text \<open>
  The declared attribute schema of \<^verbatim>\<open>crates/character/src/schema.rs\<close>: which stats exist, their
  defaults and bounds, and the rules every read and write of a character's \<^verbatim>\<open>stats\<close> object
  goes through. The \<^verbatim>\<open>stats\<close> column holds a JSON object, here the association list of its
  members.
\<close>

section \<open>JSON values\<close>

text \<open>
  \<^verbatim>\<open>serde_json::Value\<close>. A number that is not an integer keeps the bits of its \<^verbatim>\<open>f64\<close>.
\<close>

datatype json =
    JNull
  | JBool bool
  | JInt int
  | JFloat "64 word"
  | JString string
  | JArray "json list"
  | JObject "(string \<times> json) list"

type_synonym json_object = "(string \<times> json) list"

fun as_i64 :: "json \<Rightarrow> i64 option" where
  "as_i64 (JInt n) = (if in_i64 n then Some n else None)"
| "as_i64 _ = None"

section \<open>Schema\<close>

datatype stat_type = IntStat

record stat_declaration =
  stat_key :: string
  stat_value_type :: stat_type
  stat_default :: i64
  stat_min :: "i64 option"
  stat_max :: "i64 option"

record attribute_schema =
  attr_schema_version :: u32
  attr_stats :: "stat_declaration list"

definition decl_of :: "attribute_schema \<Rightarrow> string \<Rightarrow> error + stat_declaration" where
  "decl_of sch key = ok_or_else (find_by stat_key (attr_stats sch) key) (Schema (UnknownStat key))"

definition declares :: "attribute_schema \<Rightarrow> string \<Rightarrow> bool" where
  "declares sch key = (case decl_of sch key of Inl _ \<Rightarrow> False | Inr _ \<Rightarrow> True)"

definition validate_write :: "attribute_schema \<Rightarrow> string \<Rightarrow> i64 \<Rightarrow> error + unit" where
  "validate_write sch key v =
     try_then (decl_of sch key) (\<lambda>decl.
     try_then (case stat_min decl of
         Some mn \<Rightarrow> ensure (\<not> v < mn) (Schema (StatBelowMin key v mn)) | None \<Rightarrow> Inr ()) (\<lambda>_.
     case stat_max decl of
         Some mx \<Rightarrow> ensure (\<not> v > mx) (Schema (StatAboveMax key v mx)) | None \<Rightarrow> Inr ()))"

definition clamp_decl :: "stat_declaration \<Rightarrow> i64 \<Rightarrow> i64" where
  "clamp_decl decl v =
     (let v1 = (case stat_min decl of Some mn \<Rightarrow> max v mn | None \<Rightarrow> v)
      in case stat_max decl of Some mx \<Rightarrow> min v1 mx | None \<Rightarrow> v1)"

definition clamp :: "attribute_schema \<Rightarrow> string \<Rightarrow> i64 \<Rightarrow> error + i64" where
  "clamp sch key v = try_then (decl_of sch key) (\<lambda>decl. Inr (clamp_decl decl v))"

definition stored_value :: "json_object \<Rightarrow> string \<Rightarrow> i64 option" where
  "stored_value stored key = Option.bind (map_of stored key) as_i64"

definition resolve_read :: "attribute_schema \<Rightarrow> json_object \<Rightarrow> string \<Rightarrow> error + i64" where
  "resolve_read sch stored key =
     try_then (decl_of sch key) (\<lambda>decl.
       case stored_value stored key of Some v \<Rightarrow> Inr v | None \<Rightarrow> Inr (stat_default decl))"

text \<open>\<^verbatim>\<open>.collect()\<close> into a \<^verbatim>\<open>serde_json::Map\<close>: a later entry replaces an earlier one.\<close>

definition migrate_stats :: "attribute_schema \<Rightarrow> json_object \<Rightarrow> json_object" where
  "migrate_stats sch stored =
     fold (\<lambda>decl m. AList.update (stat_key decl)
             (JInt (case stored_value stored (stat_key decl) of
                      Some v \<Rightarrow> v | None \<Rightarrow> stat_default decl)) m)
       (attr_stats sch) []"

section \<open>Well-formed schemas\<close>

text \<open>
  What a sensible \<^verbatim>\<open>stats.schema.yaml\<close> declares and the loader does not itself enforce:
  unique keys, a non-empty range per stat, and numbers that are \<^verbatim>\<open>i64\<close>.
\<close>

definition decl_ok :: "stat_declaration \<Rightarrow> bool" where
  "decl_ok d \<longleftrightarrow> in_i64 (stat_default d)
     \<and> (case stat_min d of Some mn \<Rightarrow> in_i64 mn | None \<Rightarrow> True)
     \<and> (case stat_max d of Some mx \<Rightarrow> in_i64 mx | None \<Rightarrow> True)
     \<and> (case (stat_min d, stat_max d) of (Some mn, Some mx) \<Rightarrow> mn \<le> mx | _ \<Rightarrow> True)"

definition attr_schema_ok :: "attribute_schema \<Rightarrow> bool" where
  "attr_schema_ok sch \<longleftrightarrow>
     distinct (map stat_key (attr_stats sch)) \<and> (\<forall>d \<in> set (attr_stats sch). decl_ok d)"

definition within_bounds :: "stat_declaration \<Rightarrow> i64 \<Rightarrow> bool" where
  "within_bounds d v \<longleftrightarrow>
     (case stat_min d of Some mn \<Rightarrow> mn \<le> v | None \<Rightarrow> True)
     \<and> (case stat_max d of Some mx \<Rightarrow> v \<le> mx | None \<Rightarrow> True)"

lemma decl_of_Inr:
  "decl_of sch key = Inr d \<longleftrightarrow> find_by stat_key (attr_stats sch) key = Some d"
  by (simp add: decl_of_def)

lemma decl_of_key: "decl_of sch key = Inr d \<Longrightarrow> stat_key d = key \<and> d \<in> set (attr_stats sch)"
  by (auto simp: decl_of_Inr dest: find_by_Some)

lemma decl_of_cases:
  obtains d where "decl_of sch key = Inr d" "declares sch key"
  | "decl_of sch key = Inl (Schema (UnknownStat key))" "\<not> declares sch key"
  by (cases "find_by stat_key (attr_stats sch) key")
    (auto simp: declares_def decl_of_def ok_or_else_def)

lemma declares_iff: "declares sch key \<longleftrightarrow> key \<in> stat_key ` set (attr_stats sch)"
  using find_by_None [of stat_key "attr_stats sch" key]
  by (auto simp: declares_def decl_of_def ok_or_else_def split: option.splits)

lemma decl_of_ok: "attr_schema_ok sch \<Longrightarrow> decl_of sch key = Inr d \<Longrightarrow> decl_ok d"
  by (auto simp: attr_schema_ok_def dest: decl_of_key)

lemma validate_write_iff:
  "validate_write sch key v = Inr u \<longleftrightarrow>
     (\<exists>d. decl_of sch key = Inr d \<and> within_bounds d v)"
  by (auto simp: validate_write_def within_bounds_def not_less split: option.splits)

lemma clamp_Inr: "clamp sch key v = Inr w \<longleftrightarrow>
    (\<exists>d. decl_of sch key = Inr d \<and> w = clamp_decl d v)"
  by (auto simp: clamp_def)

lemma clamp_decl_in_i64: "decl_ok d \<Longrightarrow> in_i64 v \<Longrightarrow> in_i64 (clamp_decl d v)"
  by (auto simp: clamp_decl_def decl_ok_def Let_def min_def max_def split: option.splits)

lemma clamp_decl_within: "decl_ok d \<Longrightarrow> within_bounds d (clamp_decl d v)"
  by (auto simp: clamp_decl_def decl_ok_def within_bounds_def Let_def split: option.splits)

lemma clamp_decl_id: "within_bounds d v \<Longrightarrow> clamp_decl d v = v"
  by (auto simp: clamp_decl_def within_bounds_def Let_def split: option.splits)

lemma resolve_read_Inr:
  "resolve_read sch stored key = Inr v \<longleftrightarrow>
     (\<exists>d. decl_of sch key = Inr d \<and>
        v = (case stored_value stored key of Some w \<Rightarrow> w | None \<Rightarrow> stat_default d))"
  by (auto simp: resolve_read_def split: option.splits)

lemma stored_value_in_i64: "stored_value stored key = Some v \<Longrightarrow> in_i64 v"
  by (auto simp: stored_value_def bind_eq_Some_conv elim!: as_i64.elims split: if_splits)

lemma resolve_read_in_i64:
  "attr_schema_ok sch \<Longrightarrow> resolve_read sch stored key = Inr v \<Longrightarrow> in_i64 v"
  by (auto simp: resolve_read_Inr decl_ok_def stored_value_in_i64 dest: decl_of_ok
      split: option.splits)

lemma stored_value_update [simp]:
  "stored_value (AList.update k (JInt v) stored) k' =
     (if k' = k then (if in_i64 v then Some v else None) else stored_value stored k')"
  by (simp add: stored_value_def update_conv')

subsection \<open>Migration\<close>

text \<open>The value \<^verbatim>\<open>migrate_stats\<close> writes for one declaration.\<close>

definition migrated :: "json_object \<Rightarrow> stat_declaration \<Rightarrow> i64" where
  "migrated stored d =
     (case stored_value stored (stat_key d) of Some v \<Rightarrow> v | None \<Rightarrow> stat_default d)"

lemma map_of_fold_update:
  "distinct (map f ds) \<Longrightarrow>
   map_of (fold (\<lambda>d m. AList.update (f d) (g d) m) ds m) k =
     (case List.find (\<lambda>d. f d = k) ds of Some d \<Rightarrow> Some (g d) | None \<Rightarrow> map_of m k)"
proof (induction ds arbitrary: m)
  case (Cons d ds)
  have "List.find (\<lambda>d. f d = f d') ds = None" if "f d' \<notin> f ` set ds" for d'
    using that by (metis (mono_tags, lifting) find_None_iff image_eqI)
  with Cons show ?case by (auto simp: update_conv' split: option.split)
qed simp

lemma map_of_migrate_stats:
  assumes "attr_schema_ok sch"
  shows "map_of (migrate_stats sch stored) k =
    (case decl_of sch k of Inl _ \<Rightarrow> None | Inr d \<Rightarrow> Some (JInt (migrated stored d)))"
  using assms
  by (simp add: migrate_stats_def migrated_def [symmetric] map_of_fold_update attr_schema_ok_def
      decl_of_def ok_or_else_def find_by_def split: option.split)

lemma migrated_in_i64:
  "attr_schema_ok sch \<Longrightarrow> decl_of sch k = Inr d \<Longrightarrow> in_i64 (migrated stored d)"
  by (auto simp: migrated_def decl_ok_def stored_value_in_i64 dest: decl_of_ok
      split: option.split)

lemma stored_value_migrate:
  assumes "attr_schema_ok sch" "decl_of sch k = Inr d"
  shows "stored_value (migrate_stats sch stored) k = Some (migrated stored d)"
  using assms migrated_in_i64 [OF assms, of stored]
  by (simp add: stored_value_def map_of_migrate_stats)

lemma distinct_migrate_stats: "distinct (map fst (migrate_stats sch stored))"
proof -
  have "distinct (map fst (fold (\<lambda>d m. AList.update (f d) (g d) m) ds m))"
    if "distinct (map fst m)" for f :: "stat_declaration \<Rightarrow> string" and g :: "_ \<Rightarrow> json" and ds m
    using that by (induction ds arbitrary: m) (auto simp: distinct_update)
  from this [of "[]"] show ?thesis by (simp add: migrate_stats_def)
qed

end
