(* ===== verification/ArchetypeSchema.thy ===== *)
theory ArchetypeSchema
  imports AttributeSchema
begin

text \<open>
  \<^verbatim>\<open>archetype_schema.rs\<close>: declared character archetypes, each a preset of starting stats that is
  validated against the attribute schema when the file is loaded.
\<close>

record character_archetype =
  ar_key :: string
  ar_name :: string
  ar_description :: string
  ar_stats :: "(string \<times> i64) list"

record archetype_schema =
  ar_schema_version :: u32
  ar_archetypes :: "character_archetype list"

definition check_preset ::
  "attribute_schema \<Rightarrow> string \<Rightarrow> string \<times> i64 \<Rightarrow> error + unit" where
  "check_preset attrs key entry =
     (case validate_write attrs (fst entry) (snd entry) of
        Inl _ \<Rightarrow> Inl (Schema (ArchetypePresetInvalid key (fst entry)))
      | Inr _ \<Rightarrow> Inr ())"

definition check_archetype :: "attribute_schema \<Rightarrow> character_archetype \<Rightarrow> error + unit" where
  "check_archetype attrs a = check_all (check_preset attrs (ar_key a)) (ar_stats a)"

definition archetypes_from_yaml ::
  "(string \<Rightarrow> archetype_schema option) \<Rightarrow> string \<Rightarrow> attribute_schema \<Rightarrow> error + archetype_schema" where
  "archetypes_from_yaml parse input attrs =
     try_then (ok_or_else (parse input) (Schema ParseFailed)) (\<lambda>schema.
     try_then (ensure (\<not> ar_archetypes schema = []) (Schema EmptySchema)) (\<lambda>_.
     try_then (check_unique ar_key (\<lambda>k. Schema (DuplicateKey k)) (check_archetype attrs) {}
       (ar_archetypes schema)) (\<lambda>_.
     Inr schema)))"

text \<open>\<^verbatim>\<open>&self.archetypes[0]\<close> would panic on an empty schema, which the loader rules out.\<close>

definition default_archetype :: "archetype_schema \<Rightarrow> character_archetype option" where
  "default_archetype sch = (case ar_archetypes sch of [] \<Rightarrow> None | a # _ \<Rightarrow> Some a)"

definition resolve_archetype :: "archetype_schema \<Rightarrow> string \<Rightarrow> error + character_archetype" where
  "resolve_archetype sch key =
     ok_or_else (find_by ar_key (ar_archetypes sch) key) (Schema (UnknownArchetype key))"

definition archetype_ok :: "attribute_schema \<Rightarrow> character_archetype \<Rightarrow> bool" where
  "archetype_ok attrs a \<longleftrightarrow>
     (\<forall>(k, v) \<in> set (ar_stats a). \<exists>d. decl_of attrs k = Inr d \<and> within_bounds d v)"

definition archetype_schema_ok :: "attribute_schema \<Rightarrow> archetype_schema \<Rightarrow> bool" where
  "archetype_schema_ok attrs sch \<longleftrightarrow>
     ar_archetypes sch \<noteq> [] \<and> distinct (map ar_key (ar_archetypes sch))
     \<and> (\<forall>a \<in> set (ar_archetypes sch). archetype_ok attrs a)"

lemma check_preset_ok: "check_preset attrs key entry = Inr () \<longleftrightarrow>
    (\<exists>d. decl_of attrs (fst entry) = Inr d \<and> within_bounds d (snd entry))"
  using validate_write_iff [of attrs "fst entry" "snd entry"]
  by (auto simp: check_preset_def split: sum.split)

lemma check_archetype_ok: "check_archetype attrs a = Inr () \<longleftrightarrow> archetype_ok attrs a"
  by (auto simp: check_archetype_def check_all_ok check_preset_ok archetype_ok_def)

lemma archetypes_from_yaml_Inr:
  "archetypes_from_yaml parse input attrs = Inr sch \<longleftrightarrow>
     parse input = Some sch \<and> archetype_schema_ok attrs sch"
  by (auto simp: archetypes_from_yaml_def archetype_schema_ok_def check_unique_ok_empty
      check_archetype_ok)

text \<open>
  The archetype loader accepts exactly the sound schemas, so that no preset can be rejected
  later: a loaded schema has a default archetype, unique keys, and every preset entry of every
  archetype names a declared stat and passes the \<^verbatim>\<open>validate_write\<close> that \<^verbatim>\<open>set_stat\<close> applies.
\<close>

theorem archetype_loader_sound_complete:
  "(archetypes_from_yaml parse input attrs = Inr sch \<longleftrightarrow>
      parse input = Some sch \<and> archetype_schema_ok attrs sch)
   \<and> (archetype_schema_ok attrs sch \<longrightarrow>
      (\<exists>a. default_archetype sch = Some a)
      \<and> (\<forall>a \<in> set (ar_archetypes sch). resolve_archetype sch (ar_key a) = Inr a
          \<and> (\<forall>(k, v) \<in> set (ar_stats a). validate_write attrs k v = Inr ())))"
  by (auto simp: archetypes_from_yaml_Inr archetype_schema_ok_def archetype_ok_def
      default_archetype_def resolve_archetype_def find_by_distinct validate_write_iff
      split: list.split)

definition sample_archetypes :: archetype_schema where
  "sample_archetypes = \<lparr>ar_schema_version = 1, ar_archetypes =
     [\<lparr>ar_key = ''warrior'', ar_name = ''Warrior'', ar_description = '''', ar_stats = [(''hp'', 150)]\<rparr>]\<rparr>"

definition sample_hp_schema :: attribute_schema where
  "sample_hp_schema = \<lparr>attr_schema_version = 1, attr_stats =
     [\<lparr>stat_key = ''hp'', stat_value_type = IntStat, stat_default = 100, stat_min = Some 0,
       stat_max = Some 200\<rparr>]\<rparr>"

lemma archetype_loader_sound_complete_witness:
  "archetypes_from_yaml (\<lambda>_. Some sample_archetypes) ''archetypes'' sample_hp_schema
     = Inr sample_archetypes
   \<and> validate_write sample_hp_schema ''hp'' 150 = Inr ()"
proof -
  have ok: "archetype_schema_ok sample_hp_schema sample_archetypes"
    by (simp add: archetype_schema_ok_def archetype_ok_def sample_archetypes_def
        sample_hp_schema_def decl_of_Inr within_bounds_def)
  show ?thesis
    using archetype_loader_sound_complete [of "\<lambda>_. Some sample_archetypes" "''archetypes''"
        sample_hp_schema sample_archetypes] ok
    by (simp add: sample_archetypes_def)
qed

end
