(* ===== verification/CurrencySchema.thy ===== *)
theory CurrencySchema
  imports Errors "HOL-Library.Signed_Division"
begin

text \<open>
  \<^verbatim>\<open>currency_schema.rs\<close>: declared currencies with their denomination ladders, the loader's
  checks, and \<^verbatim>\<open>breakdown\<close>, which shows a flat balance in denominations. Rust's integer division
  truncates towards zero: \<open>sdiv\<close> and \<open>smod\<close>.
\<close>

record currency_denomination =
  dn_key :: string
  dn_ratio :: i64

record currency_decl =
  cu_key :: string
  cu_denominations :: "currency_denomination list"

record currency_schema =
  cu_schema_version :: u32
  cu_currencies :: "currency_decl list"

fun check_denominations ::
  "string \<Rightarrow> string set \<Rightarrow> i64 option \<Rightarrow> currency_denomination list \<Rightarrow> error + unit" where
  "check_denominations cur seen previous [] = Inr ()"
| "check_denominations cur seen previous (d # ds) =
     try_then (ensure (\<not> dn_ratio d \<le> 0)
       (Schema (RatioNotPositive cur (dn_key d) (dn_ratio d)))) (\<lambda>_.
     try_then (ensure (dn_key d \<notin> seen) (Schema (DuplicateKey (dn_key d)))) (\<lambda>_.
     try_then (case previous of
         None \<Rightarrow> Inr ()
       | Some p \<Rightarrow> ensure (\<not> dn_ratio d \<le> p)
           (Schema (RatiosNotAscending cur (dn_key d) (dn_ratio d)))) (\<lambda>_.
     check_denominations cur (insert (dn_key d) seen) (Some (dn_ratio d)) ds)))"

definition check_currency :: "currency_decl \<Rightarrow> error + unit" where
  "check_currency c = check_denominations (cu_key c) {} None (cu_denominations c)"

definition currency_from_yaml ::
  "(string \<Rightarrow> currency_schema option) \<Rightarrow> string \<Rightarrow> error + currency_schema" where
  "currency_from_yaml parse input =
     try_then (ok_or_else (parse input) (Schema ParseFailed)) (\<lambda>schema.
     try_then (ensure (\<not> cu_currencies schema = []) (Schema EmptySchema)) (\<lambda>_.
     try_then (check_unique cu_key (\<lambda>k. Schema (DuplicateKey k)) check_currency {}
       (cu_currencies schema)) (\<lambda>_.
     Inr schema)))"

definition resolve_currency :: "currency_schema \<Rightarrow> string \<Rightarrow> error + currency_decl" where
  "resolve_currency sch key =
     ok_or_else (find_by cu_key (cu_currencies sch) key) (Schema (UnknownCurrency key))"

definition is_declared :: "currency_schema \<Rightarrow> string \<Rightarrow> bool" where
  "is_declared sch key = list_ex (\<lambda>c. cu_key c = key) (cu_currencies sch)"

text \<open>The loop of \<^verbatim>\<open>breakdown\<close>, over the denominations from the largest down.\<close>

fun break_down :: "i64 \<Rightarrow> currency_denomination list \<Rightarrow> (string \<times> i64) list" where
  "break_down remaining [] = []"
| "break_down remaining (d # ds) =
     (dn_key d, remaining sdiv dn_ratio d) # break_down (remaining smod dn_ratio d) ds"

definition breakdown :: "currency_schema \<Rightarrow> string \<Rightarrow> i64 \<Rightarrow> error + (string \<times> i64) list" where
  "breakdown sch key raw_balance =
     try_then (resolve_currency sch key) (\<lambda>c.
       if cu_denominations c = [] then Inr [(key, raw_balance)]
       else Inr (break_down raw_balance (rev (cu_denominations c))))"

section \<open>What the loader accepts\<close>

definition currency_ok :: "currency_decl \<Rightarrow> bool" where
  "currency_ok c \<longleftrightarrow> distinct (map dn_key (cu_denominations c))
     \<and> (\<forall>d \<in> set (cu_denominations c). 0 < dn_ratio d)
     \<and> sorted_wrt (\<lambda>d d'. dn_ratio d < dn_ratio d') (cu_denominations c)"

definition currency_schema_ok :: "currency_schema \<Rightarrow> bool" where
  "currency_schema_ok sch \<longleftrightarrow> cu_currencies sch \<noteq> [] \<and> distinct (map cu_key (cu_currencies sch))
     \<and> (\<forall>c \<in> set (cu_currencies sch). currency_ok c)"

lemma check_denominations_ok:
  "check_denominations cur seen previous ds = Inr () \<longleftrightarrow>
     distinct (map dn_key ds) \<and> dn_key ` set ds \<inter> seen = {}
     \<and> (\<forall>d \<in> set ds. 0 < dn_ratio d \<and> (\<forall>p. previous = Some p \<longrightarrow> p < dn_ratio d))
     \<and> sorted_wrt (\<lambda>d d'. dn_ratio d < dn_ratio d') ds"
  by (induction ds arbitrary: seen previous) (fastforce simp: not_le split: option.split)+

lemma check_currency_ok: "check_currency c = Inr () \<longleftrightarrow> currency_ok c"
  by (auto simp: check_currency_def check_denominations_ok currency_ok_def)

lemma currency_from_yaml_Inr:
  "currency_from_yaml parse input = Inr sch \<longleftrightarrow>
     parse input = Some sch \<and> currency_schema_ok sch"
  by (auto simp: currency_from_yaml_def currency_schema_ok_def check_unique_ok_empty
      check_currency_ok)

section \<open>Breaking a balance down\<close>

text \<open>What a breakdown is worth in base units.\<close>

fun worth :: "currency_denomination list \<Rightarrow> (string \<times> i64) list \<Rightarrow> int" where
  "worth (d # ds) ((k, n) # rest) = n * dn_ratio d + worth ds rest"
| "worth _ _ = 0"

lemma sdiv_pos: "0 \<le> a \<Longrightarrow> 0 < b \<Longrightarrow> a sdiv b = a div (b :: int)"
  by (simp add: signed_divide_int_def sgn_if)

lemma smod_pos: "0 \<le> a \<Longrightarrow> 0 < b \<Longrightarrow> a smod b = a mod (b :: int)"
  by (cases "a = 0") (simp_all add: signed_modulo_int_def)

lemma break_down_worth:
  assumes "0 \<le> v" "\<forall>d \<in> set ds. 0 < dn_ratio d" "ds \<noteq> []"
  shows "worth ds (break_down v ds) \<le> v \<and> v - worth ds (break_down v ds) < dn_ratio (last ds)"
  using assms
proof (induction ds arbitrary: v)
  case (Cons d ds)
  then have r: "0 < dn_ratio d" by simp
  have step: "v sdiv dn_ratio d = v div dn_ratio d" "v smod dn_ratio d = v mod dn_ratio d"
    using Cons.prems(1) r by (simp_all add: sdiv_pos smod_pos)
  have split: "v div dn_ratio d * dn_ratio d + v mod dn_ratio d = v" by simp
  have m: "0 \<le> v mod dn_ratio d" "v mod dn_ratio d < dn_ratio d" using r by simp_all
  show ?case
  proof (cases "ds = []")
    case True
    then show ?thesis using split m by (simp only: step list.simps break_down.simps worth.simps last_ConsL) linarith
  next
    case False
    have IH: "worth ds (break_down (v mod dn_ratio d) ds) \<le> v mod dn_ratio d
        \<and> v mod dn_ratio d - worth ds (break_down (v mod dn_ratio d) ds) < dn_ratio (last ds)"
      using Cons.IH [OF m(1)] Cons.prems(2) False by simp
    show ?thesis
      unfolding step break_down.simps worth.simps last.simps if_not_P [OF False]
      using IH split by linarith
  qed
qed simp

lemma length_break_down [simp]: "length (break_down v ds) = length ds"
  by (induction ds arbitrary: v) auto

lemma break_down_keys: "map fst (break_down v ds) = map dn_key ds"
  by (induction ds arbitrary: v) auto

text \<open>No count is negative, and none but the first could be carried into the next larger
denomination.\<close>

lemma break_down_canonical:
  assumes "0 \<le> v" "\<forall>d \<in> set ds. 0 < dn_ratio d" "i < length ds"
  shows "0 \<le> snd (break_down v ds ! i)
    \<and> (0 < i \<longrightarrow> snd (break_down v ds ! i) * dn_ratio (ds ! i) < dn_ratio (ds ! (i - 1)))"
  using assms
proof (induction ds arbitrary: v i)
  case (Cons d ds)
  then have r: "0 < dn_ratio d" by simp
  have m: "0 \<le> v mod dn_ratio d" "v mod dn_ratio d < dn_ratio d" using r by simp_all
  have step: "break_down v (d # ds) = (dn_key d, v div dn_ratio d) # break_down (v mod dn_ratio d) ds"
    using Cons.prems(1) r by (simp add: sdiv_pos smod_pos)
  show ?case
  proof (cases i)
    case 0
    then show ?thesis using Cons.prems(1) r by (simp add: sdiv_pos pos_imp_zdiv_nonneg_iff)
  next
    case (Suc j)
    with Cons.IH [OF m(1), of j] Cons.prems have IH:
      "0 \<le> snd (break_down (v mod dn_ratio d) ds ! j)"
      "0 < j \<Longrightarrow> snd (break_down (v mod dn_ratio d) ds ! j) * dn_ratio (ds ! j) < dn_ratio (ds ! (j - 1))"
      and j: "j < length ds" by auto
    have "snd (break_down (v mod dn_ratio d) ds ! 0) * dn_ratio (ds ! 0) < dn_ratio d"
      if "j = 0"
    proof -
      obtain e es where ds: "ds = e # es" using j by (cases ds) auto
      then have "0 < dn_ratio e" using Cons.prems(2) by simp
      have "(v mod dn_ratio d) div dn_ratio e * dn_ratio e \<le> v mod dn_ratio d"
        using pos_mod_sign [OF \<open>0 < dn_ratio e\<close>, of "v mod dn_ratio d"]
        by (simp add: minus_mod_eq_div_mult [symmetric])
      then show ?thesis using m \<open>0 < dn_ratio e\<close> by (simp add: ds sdiv_pos)
    qed
    then show ?thesis using IH by (cases "j = 0") (simp_all add: step Suc del: break_down.simps)
  qed
qed simp

text \<open>
  The currency loader accepts exactly the sound schemas: at least one currency, no repeated
  currency key, and denomination ladders with unique keys and strictly ascending positive ratios.
  \<^verbatim>\<open>is_declared\<close> and \<^verbatim>\<open>resolve\<close> agree on which keys a schema declares.
\<close>

theorem currency_loader_sound_complete:
  "(currency_from_yaml parse input = Inr sch \<longleftrightarrow> parse input = Some sch \<and> currency_schema_ok sch)
   \<and> (is_declared sch key \<longleftrightarrow> (\<exists>c. resolve_currency sch key = Inr c))"
  using find_by_None [of cu_key "cu_currencies sch" key]
  by (cases "find_by cu_key (cu_currencies sch) key")
    (auto simp: currency_from_yaml_Inr is_declared_def resolve_currency_def list_ex_iff)

text \<open>
  Showing a balance in denominations neither loses nor invents money. For a currency with a
  ladder, in a schema the loader accepts, and a balance that is not negative, \<^verbatim>\<open>breakdown\<close> lists
  every denomination from the largest down; what the counts are worth falls short of the balance
  by less than the smallest ratio, so it is the balance itself when the ladder has a unit of
  ratio 1; no count is negative and none below the largest reaches the next denomination. A
  currency without a ladder shows the balance as it is.
\<close>

theorem breakdown_exact:
  assumes "currency_schema_ok sch" "resolve_currency sch key = Inr c" "0 \<le> v"
  shows "\<exists>shown. breakdown sch key v = Inr shown
      \<and> (cu_denominations c = [] \<longrightarrow> shown = [(key, v)])
      \<and> (cu_denominations c \<noteq> [] \<longrightarrow>
          (let ds = rev (cu_denominations c) in
             map fst shown = map dn_key ds
             \<and> worth ds shown \<le> v \<and> v - worth ds shown < dn_ratio (last ds)
             \<and> (dn_ratio (last ds) = 1 \<longrightarrow> worth ds shown = v)
             \<and> (\<forall>i < length ds. 0 \<le> snd (shown ! i)
                  \<and> (0 < i \<longrightarrow> snd (shown ! i) * dn_ratio (ds ! i) < dn_ratio (ds ! (i - 1))))))"
proof (cases "cu_denominations c = []")
  case True
  then show ?thesis using assms(2) by (simp add: breakdown_def)
next
  case False
  let ?ds = "rev (cu_denominations c)"
  have "currency_ok c"
    using assms(1,2) by (auto simp: currency_schema_ok_def resolve_currency_def dest: find_by_Some)
  then have pos: "\<forall>d \<in> set ?ds. 0 < dn_ratio d" by (simp add: currency_ok_def)
  have w: "worth ?ds (break_down v ?ds) \<le> v \<and> v - worth ?ds (break_down v ?ds) < dn_ratio (last ?ds)"
    by (rule break_down_worth) (use assms(3) pos False in auto)
  show ?thesis
    using assms(2) False w break_down_canonical [OF assms(3) pos]
    by (intro exI [of _ "break_down v ?ds"]) (simp add: breakdown_def break_down_keys Let_def)
qed

definition sample_coins :: currency_schema where
  "sample_coins = \<lparr>cu_schema_version = 1, cu_currencies = [\<lparr>cu_key = ''coin'', cu_denominations =
     [\<lparr>dn_key = ''copper'', dn_ratio = 1\<rparr>, \<lparr>dn_key = ''silver'', dn_ratio = 100\<rparr>,
      \<lparr>dn_key = ''gold'', dn_ratio = 10000\<rparr>]\<rparr>]\<rparr>"

lemma sample_coins_ok: "currency_schema_ok sample_coins"
  by (simp add: sample_coins_def currency_schema_ok_def currency_ok_def)

lemma sample_breakdown:
  "breakdown sample_coins ''coin'' 10847 = Inr [(''gold'', 1), (''silver'', 8), (''copper'', 47)]"
  by code_simp

lemma breakdown_exact_witness:
  "\<exists>shown. breakdown sample_coins ''coin'' 10847 = Inr shown
     \<and> worth (rev (cu_denominations (hd (cu_currencies sample_coins)))) shown = 10847"
proof -
  have r: "resolve_currency sample_coins ''coin'' = Inr (hd (cu_currencies sample_coins))"
    by (simp add: sample_coins_def resolve_currency_def)
  show ?thesis
    using breakdown_exact [OF sample_coins_ok r, of 10847] by (auto simp: sample_coins_def Let_def)
qed

end
