(* ===== verification/Effects.thy ===== *)
theory Effects
  imports Prelude
begin

text \<open>
  The shape of every store method: it runs against a state (the database), may change it, and
  ends with an error or a value. A method that is not wrapped in a transaction keeps the changes
  it made before it failed, so the final state is returned beside the error; \<open>transaction\<close> is
  \<^verbatim>\<open>pool.begin() ... tx.commit()\<close>, where an early \<^verbatim>\<open>return Err\<close> drops the transaction and
  so rolls every change back. Rust's \<^verbatim>\<open>?\<close> is \<open>andThen\<close>.

  The second half is a small program logic: \<open>triple P m Q E\<close> with one postcondition for values
  and one for errors, and \<open>preserves I m\<close> for invariants, with a rule per combinator.
\<close>

section \<open>Actions\<close>

type_synonym ('s, 'e, 'a) action = "'s \<Rightarrow> ('e + 'a) \<times> 's"

definition ok :: "'a \<Rightarrow> ('s, 'e, 'a) action" where
  "ok x = (\<lambda>s. (Inr x, s))"

definition fail :: "'e \<Rightarrow> ('s, 'e, 'a) action" where
  "fail e = (\<lambda>s. (Inl e, s))"

definition andThen ::
  "('s, 'e, 'a) action \<Rightarrow> ('a \<Rightarrow> ('s, 'e, 'b) action) \<Rightarrow> ('s, 'e, 'b) action" where
  "andThen m k = (\<lambda>s. case m s of (Inl e, s') \<Rightarrow> (Inl e, s') | (Inr x, s') \<Rightarrow> k x s')"

text \<open>A read: the value depends on the state, which stays.\<close>

definition query :: "('s \<Rightarrow> 'a) \<Rightarrow> ('s, 'e, 'a) action" where
  "query f = (\<lambda>s. (Inr (f s), s))"

definition execute :: "('s \<Rightarrow> 's) \<Rightarrow> ('s, 'e, unit) action" where
  "execute f = (\<lambda>s. (Inr (), f s))"

text \<open>\<^verbatim>\<open>if !c { return Err(e) }\<close>.\<close>

definition require :: "bool \<Rightarrow> 'e \<Rightarrow> ('s, 'e, unit) action" where
  "require c e = (if c then ok () else fail e)"

text \<open>\<^verbatim>\<open>Option::ok_or_else\<close> and a pure \<^verbatim>\<open>Result\<close>, followed by \<^verbatim>\<open>?\<close>.\<close>

definition ok_or :: "'a option \<Rightarrow> 'e \<Rightarrow> ('s, 'e, 'a) action" where
  "ok_or x e = (case x of None \<Rightarrow> fail e | Some y \<Rightarrow> ok y)"

definition lift :: "'e + 'a \<Rightarrow> ('s, 'e, 'a) action" where
  "lift r = (\<lambda>s. (r, s))"

definition transaction :: "('s, 'e, 'a) action \<Rightarrow> ('s, 'e, 'a) action" where
  "transaction m = (\<lambda>s. case m s of (Inl e, _) \<Rightarrow> (Inl e, s) | (Inr x, s') \<Rightarrow> (Inr x, s'))"

text \<open>A \<^verbatim>\<open>for\<close> loop threading an accumulator, left at the first error.\<close>

fun for_each :: "('a \<Rightarrow> 'acc \<Rightarrow> ('s, 'e, 'acc) action) \<Rightarrow> 'a list \<Rightarrow> 'acc \<Rightarrow> ('s, 'e, 'acc) action" where
  "for_each f [] acc = ok acc"
| "for_each f (x # xs) acc = andThen (f x acc) (\<lambda>acc'. for_each f xs acc')"

section \<open>Evaluation\<close>

lemma ok_apply [simp]: "ok x s = (Inr x, s)"
  by (simp add: ok_def)

lemma fail_apply [simp]: "fail e s = (Inl e, s)"
  by (simp add: fail_def)

lemma query_apply [simp]: "query f s = (Inr (f s), s)"
  by (simp add: query_def)

lemma execute_apply [simp]: "execute f s = (Inr (), f s)"
  by (simp add: execute_def)

lemma require_apply [simp]: "require c e s = (if c then Inr () else Inl e, s)"
  by (simp add: require_def)

lemma ok_or_apply [simp]:
  "ok_or x e s = (case x of None \<Rightarrow> Inl e | Some y \<Rightarrow> Inr y, s)"
  by (simp add: ok_or_def split: option.split)

lemma lift_apply [simp]: "lift r s = (r, s)"
  by (simp add: lift_def)

lemma andThen_apply:
  "andThen m k s = (case m s of (Inl e, s') \<Rightarrow> (Inl e, s') | (Inr x, s') \<Rightarrow> k x s')"
  by (simp add: andThen_def)

text \<open>The step that produced a value decides how the rest runs.\<close>

lemma andThen_step:
  "m s = (Inr x, s') \<Longrightarrow> andThen m k s = k x s'"
  "m s = (Inl e, s') \<Longrightarrow> andThen m k s = (Inl e, s')"
  by (simp_all add: andThen_apply)

lemma andThen_ok [simp]: "andThen (ok x) k = k x"
  by (simp add: fun_eq_iff andThen_apply)

lemma andThen_query [simp]: "andThen (query f) k s = k (f s) s"
  by (simp add: andThen_apply)

lemma andThen_execute [simp]: "andThen (execute f) k s = k () (f s)"
  by (simp add: andThen_apply)

lemma andThen_require [simp]:
  "andThen (require c e) k s = (if c then k () s else (Inl e, s))"
  by (simp add: andThen_apply)

lemma andThen_ok_or [simp]:
  "andThen (ok_or x e) k s = (case x of None \<Rightarrow> (Inl e, s) | Some y \<Rightarrow> k y s)"
  by (simp add: andThen_apply split: option.split)

lemma andThen_lift [simp]:
  "andThen (lift r) k s = (case r of Inl e \<Rightarrow> (Inl e, s) | Inr y \<Rightarrow> k y s)"
  by (simp add: andThen_apply split: sum.split)

lemma andThen_fail [simp]: "andThen (fail e) k = fail e"
  by (simp add: fun_eq_iff andThen_apply)

lemma andThen_assoc: "andThen (andThen m k) h = andThen m (\<lambda>x. andThen (k x) h)"
  by (auto simp: fun_eq_iff andThen_apply split: prod.split sum.split)

lemma andThen_Inr:
  "andThen m k s = (Inr y, t) \<longleftrightarrow> (\<exists>x s'. m s = (Inr x, s') \<and> k x s' = (Inr y, t))"
  by (auto simp: andThen_apply split: prod.split sum.split)

lemma andThen_Inl:
  "andThen m k s = (Inl e, t) \<longleftrightarrow>
     m s = (Inl e, t) \<or> (\<exists>x s'. m s = (Inr x, s') \<and> k x s' = (Inl e, t))"
  by (auto simp: andThen_apply split: prod.split sum.split)

lemma transaction_Inr [simp]:
  "transaction m s = (Inr x, t) \<longleftrightarrow> m s = (Inr x, t)"
  by (auto simp: transaction_def split: prod.split sum.split)

lemma transaction_Inl:
  "transaction m s = (Inl e, t) \<longleftrightarrow> t = s \<and> (\<exists>u. m s = (Inl e, u))"
  by (auto simp: transaction_def split: prod.split sum.split)

lemma transaction_rollback: "transaction m s = (Inl e, t) \<Longrightarrow> t = s"
  by (simp add: transaction_Inl)

text \<open>
  To follow a successful run step by step, a proof rewrites with \<open>andThen_Inr\<close> and switches the
  rules for the three guards off: they would split every guard into its branches.
\<close>

lemmas guard_steps = andThen_require andThen_ok_or andThen_lift

lemma ok_or_case_Inr [simp]:
  "(case x of None \<Rightarrow> Inl e | Some y \<Rightarrow> Inr y) = Inr z \<longleftrightarrow> x = Some z"
  by (simp split: option.split)

lemma guard_case_Inr [simp]: "(if c then Inr () else Inl e) = Inr u \<longleftrightarrow> c"
  by simp

text \<open>Reading the outcome of a run that was evaluated.\<close>

lemma run_Inr: "\<not> isl (fst x) \<Longrightarrow> x = (Inr (projr (fst x)), snd x)"
  by (cases x; cases "fst x") auto

lemma run_Inl: "isl (fst x) \<Longrightarrow> x = (Inl (projl (fst x)), snd x)"
  by (cases x; cases "fst x") auto

section \<open>Triples and invariants\<close>

definition triple ::
  "('s \<Rightarrow> bool) \<Rightarrow> ('s, 'e, 'a) action \<Rightarrow> ('a \<Rightarrow> 's \<Rightarrow> bool) \<Rightarrow> ('e \<Rightarrow> 's \<Rightarrow> bool) \<Rightarrow> bool" where
  "triple P m Q E \<longleftrightarrow>
     (\<forall>s. P s \<longrightarrow> (case m s of (Inl e, t) \<Rightarrow> E e t | (Inr x, t) \<Rightarrow> Q x t))"

definition preserves :: "('s \<Rightarrow> bool) \<Rightarrow> ('s, 'e, 'a) action \<Rightarrow> bool" where
  "preserves I m \<longleftrightarrow> (\<forall>s. I s \<longrightarrow> I (snd (m s)))"

definition reads_only :: "('s, 'e, 'a) action \<Rightarrow> bool" where
  "reads_only m \<longleftrightarrow> (\<forall>s. snd (m s) = s)"

lemma preserves_triple: "preserves I m \<longleftrightarrow> triple I m (\<lambda>_. I) (\<lambda>_. I)"
  by (fastforce simp: preserves_def triple_def split: prod.split sum.split)

lemma preservesI: "(\<And>s r t. I s \<Longrightarrow> m s = (r, t) \<Longrightarrow> I t) \<Longrightarrow> preserves I m"
  by (simp add: preserves_def) (metis prod.collapse)

lemma preservesD: "preserves I m \<Longrightarrow> I s \<Longrightarrow> m s = (r, t) \<Longrightarrow> I t"
  by (metis preserves_def snd_conv)

lemma preserves_sndD: "preserves I m \<Longrightarrow> I s \<Longrightarrow> I (snd (m s))"
  by (simp add: preserves_def)

lemma pres_ok [pres_intros]: "preserves I (ok x)"
  by (simp add: preserves_def)

lemma pres_fail [pres_intros]: "preserves I (fail e)"
  by (simp add: preserves_def)

lemma pres_query [pres_intros]: "preserves I (query f)"
  by (simp add: preserves_def)

lemma pres_require [pres_intros]: "preserves I (require c e)"
  by (simp add: preserves_def)

lemma pres_ok_or [pres_intros]: "preserves I (ok_or x e)"
  by (simp add: preserves_def)

lemma pres_lift [pres_intros]: "preserves I (lift r)"
  by (simp add: preserves_def)

lemma pres_execute: "(\<And>s. I s \<Longrightarrow> I (f s)) \<Longrightarrow> preserves I (execute f)"
  by (simp add: preserves_def)

lemma pres_andThen [pres_intros]:
  "preserves I m \<Longrightarrow> (\<And>x. preserves I (k x)) \<Longrightarrow> preserves I (andThen m k)"
  by (fastforce simp: preserves_def andThen_apply split: prod.split sum.split)

lemma pres_if [pres_intros]:
  "(c \<Longrightarrow> preserves I m) \<Longrightarrow> (\<not> c \<Longrightarrow> preserves I k) \<Longrightarrow> preserves I (if c then m else k)"
  by simp

lemma pres_case_option [pres_intros]:
  "(x = None \<Longrightarrow> preserves I m) \<Longrightarrow> (\<And>y. x = Some y \<Longrightarrow> preserves I (k y)) \<Longrightarrow>
     preserves I (case x of None \<Rightarrow> m | Some y \<Rightarrow> k y)"
  by (cases x) auto

lemma pres_case_prod [pres_intros]:
  "(\<And>a b. x = (a, b) \<Longrightarrow> preserves I (k a b)) \<Longrightarrow> preserves I (case x of (a, b) \<Rightarrow> k a b)"
  by (cases x) auto

lemma pres_transaction [pres_intros]: "preserves I m \<Longrightarrow> preserves I (transaction m)"
  by (fastforce simp: preserves_def transaction_def split: prod.split sum.split)

lemma pres_for_each [pres_intros]:
  "(\<And>x acc. x \<in> set xs \<Longrightarrow> preserves I (f x acc)) \<Longrightarrow> preserves I (for_each f xs acc)"
  by (induction xs arbitrary: acc) (auto intro!: pres_ok pres_andThen)

lemma reads_only_preserves: "reads_only m \<Longrightarrow> preserves I m"
  by (simp add: reads_only_def preserves_def)

lemma triple_andThen:
  assumes "triple P m R E" and "\<And>x. triple (R x) (k x) Q E"
  shows "triple P (andThen m k) Q E"
  using assms by (fastforce simp: triple_def andThen_apply split: prod.split sum.split)

text \<open>
  A transaction that reaches its commit keeps what its body established; one that does not
  leaves the state it started from, whatever its body had written.
\<close>

lemma triple_transaction:
  assumes "triple (\<lambda>s. P s \<and> s = s0) m Q (\<lambda>_ _. True)"
  shows "triple (\<lambda>s. P s \<and> s = s0) (transaction m) Q (\<lambda>_ t. t = s0)"
  using assms by (auto simp: triple_def transaction_def split: prod.split sum.split)

lemma for_each_append:
  "for_each f (xs @ ys) acc = andThen (for_each f xs acc) (\<lambda>acc'. for_each f ys acc')"
  by (induction xs arbitrary: acc) (auto simp: fun_eq_iff andThen_apply split: prod.split sum.split)

end
