(* ===== verification/Tables.thy ===== *)
theory Tables
  imports Prelude
begin

text \<open>
  A Postgres table is an association list from its primary (or unique) key to the remaining
  columns, in the order the rows were first inserted. \<open>map_of\<close> is the keyed
  \<^verbatim>\<open>SELECT\<close>; the definitions below are the other statements the stores issue. Their lemmas
  say how each statement changes a keyed lookup, a \<^verbatim>\<open>COUNT(*)\<close> and the uniqueness of keys.
\<close>

type_synonym ('k, 'v) table = "('k \<times> 'v) list"

definition has_row :: "('k, 'v) table \<Rightarrow> 'k \<Rightarrow> bool" where
  "has_row t k \<longleftrightarrow> map_of t k \<noteq> None"

text \<open>\<^verbatim>\<open>INSERT ... ON CONFLICT DO UPDATE\<close>: replaces the row in place or appends it.\<close>

definition put_row :: "'k \<Rightarrow> 'v \<Rightarrow> ('k, 'v) table \<Rightarrow> ('k, 'v) table" where
  "put_row k v t = AList.update k v t"

definition del_row :: "'k \<Rightarrow> ('k, 'v) table \<Rightarrow> ('k, 'v) table" where
  "del_row k t = AList.delete k t"

text \<open>\<^verbatim>\<open>UPDATE ... WHERE key = $1\<close>: no row, no effect.\<close>

definition upd_row :: "'k \<Rightarrow> ('v \<Rightarrow> 'v) \<Rightarrow> ('k, 'v) table \<Rightarrow> ('k, 'v) table" where
  "upd_row k f t = map (\<lambda>(k', v). (k', if k' = k then f v else v)) t"

text \<open>\<^verbatim>\<open>DELETE ... WHERE\<close> over the key or the columns, also a foreign key's cascade.\<close>

definition del_where :: "('k \<Rightarrow> 'v \<Rightarrow> bool) \<Rightarrow> ('k, 'v) table \<Rightarrow> ('k, 'v) table" where
  "del_where P t = filter (\<lambda>(k, v). \<not> P k v) t"

definition rows_where :: "('k \<Rightarrow> 'v \<Rightarrow> bool) \<Rightarrow> ('k, 'v) table \<Rightarrow> ('k, 'v) table" where
  "rows_where P t = filter (\<lambda>(k, v). P k v) t"

definition count_where :: "('k \<Rightarrow> 'v \<Rightarrow> bool) \<Rightarrow> ('k, 'v) table \<Rightarrow> int" where
  "count_where P t = int (length (rows_where P t))"

definition keys_unique :: "('k, 'v) table \<Rightarrow> bool" where
  "keys_unique t \<longleftrightarrow> distinct (map fst t)"

section \<open>Keyed lookups\<close>

lemma map_of_put_row [simp]: "map_of (put_row k v t) = (map_of t)(k \<mapsto> v)"
  by (simp add: put_row_def update_conv')

lemma map_of_del_row [simp]: "map_of (del_row k t) = (map_of t)(k := None)"
  by (simp add: del_row_def delete_conv')

lemma map_of_upd_row [simp]:
  "map_of (upd_row k f t) k' = (if k' = k then map_option f (map_of t k) else map_of t k')"
  by (induction t) (auto simp: upd_row_def)

lemma has_row_put_row [simp]: "has_row (put_row k v t) k' \<longleftrightarrow> k' = k \<or> has_row t k'"
  by (simp add: has_row_def)

lemma has_row_del_row [simp]: "has_row (del_row k t) k' \<longleftrightarrow> k' \<noteq> k \<and> has_row t k'"
  by (simp add: has_row_def)

lemma has_row_upd_row [simp]: "has_row (upd_row k f t) k' \<longleftrightarrow> has_row t k'"
  by (simp add: has_row_def)

lemma has_row_iff: "has_row t k \<longleftrightarrow> k \<in> fst ` set t"
  by (simp add: has_row_def map_of_eq_None_iff)

lemma has_row_Some: "map_of t k = Some v \<Longrightarrow> has_row t k"
  by (simp add: has_row_def)

lemma map_of_del_where_key:
  "map_of (del_where (\<lambda>k v. P k) t) k' = (if P k' then None else map_of t k')"
  by (induction t) (auto simp: del_where_def)

lemma map_of_del_where:
  "keys_unique t \<Longrightarrow> map_of (del_where P t) k =
     (case map_of t k of None \<Rightarrow> None | Some v \<Rightarrow> if P k v then None else Some v)"
proof (induction t)
  case (Cons kv t)
  obtain k' v where kv: "kv = (k', v)" by force
  from Cons.prems have u: "keys_unique t" and n: "map_of t k' = None"
    by (auto simp: kv keys_unique_def map_of_eq_None_iff)
  have step: "del_where P ((k', v) # t) = (if P k' v then [] else [(k', v)]) @ del_where P t"
    by (simp add: del_where_def)
  show ?case
    using Cons.IH [OF u] n unfolding kv step by (cases "k = k'") simp_all
qed (simp add: del_where_def)

lemma map_of_rows_where:
  "keys_unique t \<Longrightarrow> map_of (rows_where P t) k =
     (case map_of t k of None \<Rightarrow> None | Some v \<Rightarrow> if P k v then Some v else None)"
  using map_of_del_where [of t "\<lambda>k v. \<not> P k v" k]
  by (auto simp: rows_where_def del_where_def split: option.splits)

lemma has_row_del_where:
  "keys_unique t \<Longrightarrow> has_row (del_where P t) k \<longleftrightarrow> (\<exists>v. map_of t k = Some v \<and> \<not> P k v)"
  by (auto simp: has_row_def map_of_del_where split: option.splits)

lemma map_of_in_set: "map_of t k = Some v \<Longrightarrow> (k, v) \<in> set t"
  by (rule map_of_SomeD)

lemma in_set_map_of: "keys_unique t \<Longrightarrow> (k, v) \<in> set t \<Longrightarrow> map_of t k = Some v"
  by (simp add: keys_unique_def)

section \<open>Unique keys\<close>

lemma keys_unique_Nil [simp]: "keys_unique []"
  by (simp add: keys_unique_def)

lemma keys_unique_put_row [simp]: "keys_unique t \<Longrightarrow> keys_unique (put_row k v t)"
  by (simp add: keys_unique_def put_row_def distinct_update)

lemma keys_unique_del_row [simp]: "keys_unique t \<Longrightarrow> keys_unique (del_row k t)"
  by (simp add: keys_unique_def del_row_def distinct_delete)

lemma map_fst_upd_row [simp]: "map fst (upd_row k f t) = map fst t"
  by (auto simp: upd_row_def)

lemma keys_unique_upd_row [simp]: "keys_unique (upd_row k f t) \<longleftrightarrow> keys_unique t"
  by (simp add: keys_unique_def)

lemma keys_unique_del_where [simp]: "keys_unique t \<Longrightarrow> keys_unique (del_where P t)"
  by (simp add: keys_unique_def del_where_def distinct_map_filter)

lemma keys_unique_append:
  "keys_unique t \<Longrightarrow> \<not> has_row t k \<Longrightarrow> keys_unique (t @ [(k, v)])"
  by (simp add: keys_unique_def has_row_iff)

section \<open>Counting\<close>

lemma count_where_nonneg [simp]: "0 \<le> count_where P t"
  by (simp add: count_where_def)

lemma count_where_Nil [simp]: "count_where P [] = 0"
  by (simp add: count_where_def rows_where_def)

lemma count_where_Cons [simp]:
  "count_where P (kv # t) = (if P (fst kv) (snd kv) then 1 else 0) + count_where P t"
  by (cases kv) (simp add: count_where_def rows_where_def)

lemma count_where_pos: "(k, v) \<in> set t \<Longrightarrow> P k v \<Longrightarrow> 1 \<le> count_where P t"
  by (induction t) (auto intro: add_nonneg_pos simp: add_increasing2)

lemma count_where_put_row_key:
  "count_where (\<lambda>k v. P k) (put_row k v t) =
     count_where (\<lambda>k v. P k) t + (if P k \<and> \<not> has_row t k then 1 else 0)"
  by (induction t) (auto simp: put_row_def has_row_def)

lemma count_where_del_row_absent:
  "\<not> has_row t k \<Longrightarrow> del_row k t = t"
  by (simp add: del_row_def has_row_iff delete_id)

lemma count_where_del_row:
  "keys_unique t \<Longrightarrow> count_where P (del_row k t) =
     count_where P t - (case map_of t k of None \<Rightarrow> 0 | Some v \<Rightarrow> if P k v then 1 else 0)"
proof (induction t)
  case (Cons kv t)
  obtain k' v where kv: "kv = (k', v)" by force
  have u: "keys_unique t" and n: "\<not> has_row t k'"
    using Cons.prems by (auto simp: kv keys_unique_def has_row_iff)
  show ?case
  proof (cases "k' = k")
    case True
    then have "del_row k (kv # t) = t"
      using n by (simp add: kv del_row_def has_row_iff delete_id)
    then show ?thesis by (simp add: kv True)
  next
    case False
    then have "del_row k (kv # t) = kv # del_row k t" by (simp add: kv del_row_def)
    then show ?thesis using Cons.IH [OF u] False by (simp add: kv)
  qed
qed (simp add: del_row_def)

lemma count_where_upd_row_key [simp]:
  "count_where (\<lambda>k v. P k) (upd_row k f t) = count_where (\<lambda>k v. P k) t"
  by (induction t) (auto simp: upd_row_def)

lemma count_where_zero:
  "count_where P t = 0 \<longleftrightarrow> (\<forall>(k, v) \<in> set t. \<not> P k v)"
  by (auto simp: count_where_def rows_where_def filter_empty_conv)

lemma count_where_zero_map:
  "keys_unique t \<Longrightarrow> count_where P t = 0 \<longleftrightarrow> (\<forall>k v. map_of t k = Some v \<longrightarrow> \<not> P k v)"
  by (auto simp: count_where_zero dest: map_of_in_set in_set_map_of)

text \<open>With unique keys a count depends only on the keyed lookup.\<close>

lemma count_where_card:
  "keys_unique t \<Longrightarrow> count_where P t = int (card {(k, v). map_of t k = Some v \<and> P k v})"
proof -
  assume u: "keys_unique t"
  have "distinct (rows_where P t)"
    using u by (simp add: rows_where_def keys_unique_def distinct_map)
  moreover have "set (rows_where P t) = {(k, v). map_of t k = Some v \<and> P k v}"
    using u by (auto simp: rows_where_def dest: map_of_in_set in_set_map_of)
  ultimately show ?thesis by (simp add: count_where_def distinct_card [symmetric])
qed

lemma count_where_cong_map:
  "keys_unique t \<Longrightarrow> keys_unique t' \<Longrightarrow> map_of t = map_of t' \<Longrightarrow>
     count_where P t = count_where P t'"
  by (simp add: count_where_card)

end
