(* ===== verification/Database.thy ===== *)
theory Database
  imports Errors Effects Tables AttributeSchema
begin

text \<open>
  The Postgres database of \<^verbatim>\<open>db/migrations\<close>: one record field per table, each table keyed by
  its primary key (or by the unique key the statements use), and \<open>db_wf\<close>, what the migrations'
  PRIMARY KEY, UNIQUE, CHECK and REFERENCES clauses promise about every committed state.
  Columns no modelled statement reads (surrogate row ids, \<^verbatim>\<open>updated_at\<close>) are left out;
  timestamps are integers, an \<^verbatim>\<open>f64\<close> is the word holding its bits.
\<close>

section \<open>Rows\<close>

type_synonym f64 = "64 word"
type_synonym timestamp = int

record character_row =
  ch_account :: account_id
  ch_name :: string
  ch_realm :: realm_id
  ch_zone :: string
  ch_position :: "f64 \<times> f64 \<times> f64"
  ch_stats :: json_object
  ch_created_at :: timestamp

record item_row =
  quantity :: i64
  slot_index :: "i32 option"

record realm_row =
  rl_name :: string
  rl_policy :: string

record lease_row =
  lease_realm :: realm_id
  lease_zone_service :: string
  lease_leased_at :: timestamp
  lease_expires_at :: timestamp

record liveness_row =
  live_realm :: realm_id
  live_connected_at :: timestamp
  live_expires_at :: timestamp

record gate_row =
  gate_type :: string
  gate_ticket_item_type :: "string option"
  gate_purchase_product_id :: "string option"

record log_row =
  log_id :: uuid
  log_character :: character_id
  log_source :: "realm_id option"
  log_destination :: realm_id
  log_gate_type :: "string option"
  log_initiated_by :: account_id
  log_outcome :: string
  log_failure_reason :: "error option"
  log_created_at :: timestamp

record guild_row =
  gd_name :: string
  gd_motd :: "string option"
  gd_tag :: "string option"
  gd_realm :: realm_id
  gd_chat_channel :: "channel_id option"

text \<open>\<^verbatim>\<open>character_id\<close> is UNIQUE in \<^verbatim>\<open>party_members\<close> and \<^verbatim>\<open>account_id\<close> in
  \<^verbatim>\<open>guild_members\<close>, so both tables are keyed by the member.\<close>

record db =
  accounts :: "account_id list"
  realms :: "(realm_id, realm_row) table"
  realm_zones :: "(string, realm_id) table"
  characters :: "(character_id, character_row) table"
  items :: "(character_id \<times> string, item_row) table"
  currency :: "(character_id \<times> string, i64) table"
  equipped :: "(character_id \<times> string, string) table"
  plugin_character_state :: "(character_id \<times> string, 8 word list) table"
  character_sessions :: "(character_id, lease_row) table"
  bound_liveness :: "(character_id, liveness_row) table"
  parties :: "(party_id, string) table"
  party_members :: "(character_id, party_id) table"
  guilds :: "(guild_id, guild_row) table"
  guild_members :: "(account_id, guild_id \<times> string) table"
  transfer_gates :: "(realm_id \<times> realm_id, gate_row) table"
  transfer_log :: "log_row list"

type_synonym 'a sql = "(db, error, 'a) action"

definition empty_db :: db where
  "empty_db = \<lparr>accounts = [], realms = [], realm_zones = [], characters = [], items = [],
     currency = [], equipped = [], plugin_character_state = [], character_sessions = [],
     bound_liveness = [], parties = [], party_members = [], guilds = [], guild_members = [],
     transfer_gates = [], transfer_log = []\<rparr>"

section \<open>The constraints of the migrations\<close>

definition unique_keys_wf :: "db \<Rightarrow> bool" where
  "unique_keys_wf db \<longleftrightarrow>
     keys_unique (realms db) \<and> keys_unique (realm_zones db) \<and> keys_unique (characters db)
     \<and> keys_unique (items db) \<and> keys_unique (currency db) \<and> keys_unique (equipped db)
     \<and> keys_unique (plugin_character_state db) \<and> keys_unique (character_sessions db)
     \<and> keys_unique (bound_liveness db) \<and> keys_unique (parties db)
     \<and> keys_unique (party_members db) \<and> keys_unique (guilds db)
     \<and> keys_unique (guild_members db) \<and> keys_unique (transfer_gates db)"

definition item_row_ok :: "item_row \<Rightarrow> bool" where
  "item_row_ok r \<longleftrightarrow> 0 < quantity r \<and> in_i64 (quantity r)"

definition items_wf :: "db \<Rightarrow> bool" where
  "items_wf db \<longleftrightarrow>
     (\<forall>c t r. map_of (items db) (c, t) = Some r \<longrightarrow> item_row_ok r \<and> has_row (characters db) c)"

definition currency_wf :: "db \<Rightarrow> bool" where
  "currency_wf db \<longleftrightarrow>
     (\<forall>c k b. map_of (currency db) (c, k) = Some b \<longrightarrow> 0 \<le> b \<and> in_i64 b \<and> has_row (characters db) c)"

definition character_refs_wf :: "db \<Rightarrow> bool" where
  "character_refs_wf db \<longleftrightarrow>
     (\<forall>c s. has_row (equipped db) (c, s) \<longrightarrow> has_row (characters db) c)
     \<and> (\<forall>c k. has_row (plugin_character_state db) (c, k) \<longrightarrow> has_row (characters db) c)
     \<and> (\<forall>c. has_row (bound_liveness db) c \<longrightarrow> has_row (characters db) c)
     \<and> (\<forall>c. has_row (character_sessions db) c \<longrightarrow> has_row (characters db) c)
     \<and> (\<forall>c. has_row (party_members db) c \<longrightarrow> has_row (characters db) c)"

definition characters_wf :: "db \<Rightarrow> bool" where
  "characters_wf db \<longleftrightarrow>
     (\<forall>c r. map_of (characters db) c = Some r \<longrightarrow>
        ch_account r \<in> set (accounts db) \<and> has_row (realms db) (ch_realm r))"

definition realms_wf :: "db \<Rightarrow> bool" where
  "realms_wf db \<longleftrightarrow>
     (\<forall>i r. map_of (realms db) i = Some r \<longrightarrow> rl_policy r \<in> {''open'', ''bound''})
     \<and> (\<forall>z i. map_of (realm_zones db) z = Some i \<longrightarrow> has_row (realms db) i)
     \<and> (\<forall>c l. map_of (character_sessions db) c = Some l \<longrightarrow> has_row (realms db) (lease_realm l))
     \<and> (\<forall>c l. map_of (bound_liveness db) c = Some l \<longrightarrow> has_row (realms db) (live_realm l))
     \<and> (\<forall>a b g. map_of (transfer_gates db) (a, b) = Some g \<longrightarrow>
          has_row (realms db) a \<and> has_row (realms db) b
          \<and> gate_type g \<in> {''open'', ''ticket_item'', ''purchase''})"

definition parties_wf :: "db \<Rightarrow> bool" where
  "parties_wf db \<longleftrightarrow>
     (\<forall>c p. map_of (party_members db) c = Some p \<longrightarrow> has_row (parties db) p)"

definition guilds_wf :: "db \<Rightarrow> bool" where
  "guilds_wf db \<longleftrightarrow>
     (\<forall>g r. map_of (guilds db) g = Some r \<longrightarrow> has_row (realms db) (gd_realm r))
     \<and> (\<forall>a g k. map_of (guild_members db) a = Some (g, k) \<longrightarrow>
          has_row (guilds db) g \<and> a \<in> set (accounts db))"

definition db_wf :: "db \<Rightarrow> bool" where
  "db_wf db \<longleftrightarrow> unique_keys_wf db \<and> items_wf db \<and> currency_wf db \<and> character_refs_wf db
     \<and> characters_wf db \<and> realms_wf db \<and> parties_wf db \<and> guilds_wf db"

lemmas wf_defs = unique_keys_wf_def items_wf_def currency_wf_def character_refs_wf_def
  characters_wf_def realms_wf_def parties_wf_def guilds_wf_def

lemma db_wf_empty: "db_wf empty_db"
  by (simp add: db_wf_def wf_defs empty_db_def has_row_def)

lemma db_wf_unique:
  assumes "db_wf db"
  shows "keys_unique (realms db)" "keys_unique (characters db)" "keys_unique (items db)"
    "keys_unique (currency db)" "keys_unique (equipped db)" "keys_unique (character_sessions db)"
    "keys_unique (bound_liveness db)" "keys_unique (parties db)" "keys_unique (party_members db)"
    "keys_unique (guilds db)" "keys_unique (guild_members db)" "keys_unique (transfer_gates db)"
    "keys_unique (realm_zones db)" "keys_unique (plugin_character_state db)"
  using assms by (simp_all add: db_wf_def unique_keys_wf_def)

lemma db_wf_item:
  "db_wf db \<Longrightarrow> map_of (items db) (c, t) = Some r \<Longrightarrow>
     0 < quantity r \<and> in_i64 (quantity r) \<and> has_row (characters db) c"
  by (simp add: db_wf_def items_wf_def item_row_ok_def)

lemma db_wf_currency:
  "db_wf db \<Longrightarrow> map_of (currency db) (c, k) = Some b \<Longrightarrow>
     0 \<le> b \<and> in_i64 b \<and> has_row (characters db) c"
  by (simp add: db_wf_def currency_wf_def)

text \<open>
  A statement that replaces one table has only that table's clauses to re-establish. One rule per
  table, each used by the statements on it.
\<close>

lemma db_wf_items_update:
  assumes "db_wf db" "keys_unique t"
    and "\<And>c i r. map_of t (c, i) = Some r \<Longrightarrow> item_row_ok r \<and> has_row (characters db) c"
  shows "db_wf (db\<lparr>items := t\<rparr>)"
  using assms by (simp add: db_wf_def wf_defs)

lemma db_wf_currency_update:
  assumes "db_wf db" "keys_unique t"
    and "\<And>c k b. map_of t (c, k) = Some b \<Longrightarrow> 0 \<le> b \<and> in_i64 b \<and> has_row (characters db) c"
  shows "db_wf (db\<lparr>currency := t\<rparr>)"
  using assms by (simp add: db_wf_def wf_defs)

lemma db_wf_equipped_update:
  assumes "db_wf db" "keys_unique t"
    and "\<And>c s. has_row t (c, s) \<Longrightarrow> has_row (characters db) c"
  shows "db_wf (db\<lparr>equipped := t\<rparr>)"
  using assms by (simp add: db_wf_def wf_defs)

lemma db_wf_characters_update:
  assumes "db_wf db" "keys_unique t"
    and "\<And>c. has_row (characters db) c \<Longrightarrow> has_row t c"
    and "\<And>c r. map_of t c = Some r \<Longrightarrow> ch_account r \<in> set (accounts db) \<and> has_row (realms db) (ch_realm r)"
  shows "db_wf (db\<lparr>characters := t\<rparr>)"
  using assms by (simp add: db_wf_def wf_defs)

lemma db_wf_sessions_update:
  assumes "db_wf db" "keys_unique t"
    and "\<And>c l. map_of t c = Some l \<Longrightarrow> has_row (characters db) c \<and> has_row (realms db) (lease_realm l)"
  shows "db_wf (db\<lparr>character_sessions := t\<rparr>)"
  using assms by (auto simp add: db_wf_def wf_defs has_row_def)

lemma db_wf_liveness_update:
  assumes "db_wf db" "keys_unique t"
    and "\<And>c l. map_of t c = Some l \<Longrightarrow> has_row (characters db) c \<and> has_row (realms db) (live_realm l)"
  shows "db_wf (db\<lparr>bound_liveness := t\<rparr>)"
  using assms by (auto simp add: db_wf_def wf_defs has_row_def)

end
