(* ===== verification/ItemTables.thy ===== *)
theory ItemTables
  imports Database
begin

text \<open>
  The SQL statements on \<^verbatim>\<open>items\<close> and \<^verbatim>\<open>character_currency\<close> that inventory, slots, equipment,
  crafting, trade and transfer share, with the constraint failures Postgres raises for them, and
  the interface \<open>ledger\<close>: an amount per owner and key that can be taken from and given to. The
  client lemmas about whole loops of takes and gives are proved once in the locale; items and
  currency are its two providers.
\<close>

section \<open>Reading\<close>

definition qty :: "db \<Rightarrow> character_id \<Rightarrow> string \<Rightarrow> i64" where
  "qty db c t = (case map_of (items db) (c, t) of None \<Rightarrow> 0 | Some r \<Rightarrow> quantity r)"

definition balance_of :: "db \<Rightarrow> character_id \<Rightarrow> string \<Rightarrow> i64" where
  "balance_of db c k = (case map_of (currency db) (c, k) of None \<Rightarrow> 0 | Some b \<Rightarrow> b)"

definition stacks :: "db \<Rightarrow> character_id \<Rightarrow> int" where
  "stacks db c = count_where (\<lambda>k v. fst k = c) (items db)"

definition select_quantity :: "character_id \<Rightarrow> string \<Rightarrow> i64 option sql" where
  "select_quantity c t = query (\<lambda>db. map_option quantity (map_of (items db) (c, t)))"

definition count_stacks :: "character_id \<Rightarrow> i64 sql" where
  "count_stacks c = query (\<lambda>db. stacks db c)"

definition select_balance :: "character_id \<Rightarrow> string \<Rightarrow> i64 option sql" where
  "select_balance c k = query (\<lambda>db. map_of (currency db) (c, k))"

text \<open>\<^verbatim>\<open>fetch_one\<close> on a keyed select: no row is an error.\<close>

definition fetch_one :: "'a option sql \<Rightarrow> 'a sql" where
  "fetch_one m = andThen m (\<lambda>r. ok_or r (Sql RowNotFound))"

section \<open>Writing items\<close>

text \<open>
  \<^verbatim>\<open>INSERT ... ON CONFLICT (character_id, item_type) DO UPDATE SET quantity = items.quantity +
  EXCLUDED.quantity RETURNING quantity\<close>. The CHECK is applied to the proposed row first, then to
  the row that results.
\<close>

definition upsert_item_add :: "character_id \<Rightarrow> string \<Rightarrow> i64 \<Rightarrow> i64 sql" where
  "upsert_item_add c t n = (\<lambda>db.
     if n \<le> 0 then (Inl (Sql CheckViolation), db)
     else (case map_of (items db) (c, t) of
         None \<Rightarrow>
           if \<not> has_row (characters db) c then (Inl (Sql ForeignKeyViolation), db)
           else if \<not> in_i64 n then (Inl (Sql NumericOutOfRange), db)
           else (Inr n, db\<lparr>items := put_row (c, t) \<lparr>quantity = n, slot_index = None\<rparr> (items db)\<rparr>)
       | Some r \<Rightarrow>
           let q = quantity r + n in
           if \<not> in_i64 q then (Inl (Sql NumericOutOfRange), db)
           else (Inr q, db\<lparr>items := put_row (c, t) (r\<lparr>quantity := q\<rparr>) (items db)\<rparr>)))"

text \<open>\<^verbatim>\<open>UPDATE items SET quantity = $3 WHERE ...\<close>: the CHECK guards the new value.\<close>

definition update_item_quantity :: "character_id \<Rightarrow> string \<Rightarrow> i64 \<Rightarrow> unit sql" where
  "update_item_quantity c t n = (\<lambda>db.
     case map_of (items db) (c, t) of
       None \<Rightarrow> (Inr (), db)
     | Some r \<Rightarrow>
         if item_row_ok (r\<lparr>quantity := n\<rparr>)
         then (Inr (), db\<lparr>items := upd_row (c, t) (\<lambda>r. r\<lparr>quantity := n\<rparr>) (items db)\<rparr>)
         else (Inl (Sql CheckViolation), db))"

definition delete_item :: "character_id \<Rightarrow> string \<Rightarrow> unit sql" where
  "delete_item c t = execute (\<lambda>db. db\<lparr>items := del_row (c, t) (items db)\<rparr>)"

definition update_item_slot :: "character_id \<Rightarrow> string \<Rightarrow> i32 option \<Rightarrow> unit sql" where
  "update_item_slot c t s =
     execute (\<lambda>db. db\<lparr>items := upd_row (c, t) (\<lambda>r. r\<lparr>slot_index := s\<rparr>) (items db)\<rparr>)"

text \<open>The \<^verbatim>\<open>remaining == 0\<close> branch every consumer of a stack has.\<close>

definition set_remaining :: "character_id \<Rightarrow> string \<Rightarrow> i64 \<Rightarrow> unit sql" where
  "set_remaining c t remaining =
     (if remaining = 0 then delete_item c t else update_item_quantity c t remaining)"

section \<open>Writing currency\<close>

definition insert_balance :: "character_id \<Rightarrow> string \<Rightarrow> i64 \<Rightarrow> i64 \<Rightarrow> db \<Rightarrow> (error + i64) \<times> db" where
  "insert_balance c k proposed b db =
     (if proposed < 0 \<or> b < 0 then (Inl (Sql CheckViolation), db)
      else if \<not> in_i64 b then (Inl (Sql NumericOutOfRange), db)
      else if \<not> has_row (currency db) (c, k) \<and> \<not> has_row (characters db) c
        then (Inl (Sql ForeignKeyViolation), db)
      else (Inr b, db\<lparr>currency := put_row (c, k) b (currency db)\<rparr>))"

text \<open>\<^verbatim>\<open>... DO UPDATE SET balance = EXCLUDED.balance\<close>.\<close>

definition upsert_balance :: "character_id \<Rightarrow> string \<Rightarrow> i64 \<Rightarrow> i64 sql" where
  "upsert_balance c k b = (\<lambda>db. insert_balance c k b b db)"

text \<open>\<^verbatim>\<open>... DO UPDATE SET balance = character_currency.balance + EXCLUDED.balance\<close>.\<close>

definition upsert_balance_add :: "character_id \<Rightarrow> string \<Rightarrow> i64 \<Rightarrow> i64 sql" where
  "upsert_balance_add c k n = (\<lambda>db. insert_balance c k n (balance_of db c k + n) db)"

definition update_balance :: "character_id \<Rightarrow> string \<Rightarrow> i64 \<Rightarrow> unit sql" where
  "update_balance c k b = (\<lambda>db.
     if \<not> has_row (currency db) (c, k) then (Inr (), db)
     else if b < 0 \<or> \<not> in_i64 b then (Inl (Sql CheckViolation), db)
     else (Inr (), db\<lparr>currency := put_row (c, k) b (currency db)\<rparr>))"

section \<open>What the statements do\<close>

lemma select_quantity_apply [simp]:
  "select_quantity c t db = (Inr (map_option quantity (map_of (items db) (c, t))), db)"
  by (simp add: select_quantity_def)

lemma andThen_select_quantity [simp]:
  "andThen (select_quantity c t) f db = f (map_option quantity (map_of (items db) (c, t))) db"
  by (simp add: select_quantity_def)

lemma andThen_count_stacks [simp]: "andThen (count_stacks c) f db = f (stacks db c) db"
  by (simp add: count_stacks_def)

lemma select_balance_apply [simp]: "select_balance c k db = (Inr (map_of (currency db) (c, k)), db)"
  by (simp add: select_balance_def)

lemma andThen_select_balance [simp]:
  "andThen (select_balance c k) f db = f (map_of (currency db) (c, k)) db"
  by (simp add: select_balance_def)

lemma fetch_one_apply:
  "fetch_one m s = (case m s of (Inl e, s') \<Rightarrow> (Inl e, s')
      | (Inr None, s') \<Rightarrow> (Inl (Sql RowNotFound), s') | (Inr (Some x), s') \<Rightarrow> (Inr x, s'))"
  by (simp add: fetch_one_def andThen_apply split: prod.split sum.split option.split)

lemma andThen_delete_item [simp]:
  "andThen (delete_item c t) f db = f () (db\<lparr>items := del_row (c, t) (items db)\<rparr>)"
  by (simp add: delete_item_def)

lemma delete_item_apply [simp]:
  "delete_item c t db = (Inr (), db\<lparr>items := del_row (c, t) (items db)\<rparr>)"
  by (simp add: delete_item_def)

lemma update_item_slot_apply [simp]:
  "update_item_slot c t s db =
     (Inr (), db\<lparr>items := upd_row (c, t) (\<lambda>r. r\<lparr>slot_index := s\<rparr>) (items db)\<rparr>)"
  by (simp add: update_item_slot_def)

lemma andThen_update_item_slot [simp]:
  "andThen (update_item_slot c t s) f db =
     f () (db\<lparr>items := upd_row (c, t) (\<lambda>r. r\<lparr>slot_index := s\<rparr>) (items db)\<rparr>)"
  by (simp add: update_item_slot_def)

lemma qty_nonneg: "db_wf db \<Longrightarrow> 0 \<le> qty db c t"
  by (auto simp: qty_def dest: db_wf_item split: option.split)

lemma qty_in_i64: "db_wf db \<Longrightarrow> in_i64 (qty db c t)"
  by (auto simp: qty_def dest: db_wf_item split: option.split)

lemma qty_pos_iff: "db_wf db \<Longrightarrow> 0 < qty db c t \<longleftrightarrow> has_row (items db) (c, t)"
  by (auto simp: qty_def has_row_def dest: db_wf_item split: option.split)

lemma qty_zero_iff: "db_wf db \<Longrightarrow> qty db c t = 0 \<longleftrightarrow> \<not> has_row (items db) (c, t)"
  by (auto simp: qty_def has_row_def dest: db_wf_item split: option.split)

lemma balance_nonneg: "db_wf db \<Longrightarrow> 0 \<le> balance_of db c k"
  by (auto simp: balance_of_def dest: db_wf_currency split: option.split)

lemma balance_in_i64: "db_wf db \<Longrightarrow> in_i64 (balance_of db c k)"
  by (auto simp: balance_of_def dest: db_wf_currency split: option.split)

lemma stacks_nonneg [simp]: "0 \<le> stacks db c"
  by (simp add: stacks_def)

lemma qty_other_tables [simp]:
  "qty (db\<lparr>currency := x\<rparr>) = qty db"
  "qty (db\<lparr>characters := ch\<rparr>) = qty db"
  "qty (db\<lparr>equipped := eq\<rparr>) = qty db"
  "balance_of (db\<lparr>items := y\<rparr>) = balance_of db"
  "balance_of (db\<lparr>characters := ch\<rparr>) = balance_of db"
  "stacks (db\<lparr>currency := x\<rparr>) = stacks db"
  "stacks (db\<lparr>characters := ch\<rparr>) = stacks db"
  "stacks (db\<lparr>equipped := eq\<rparr>) = stacks db"
  by (simp_all add: fun_eq_iff qty_def balance_of_def stacks_def)

lemma qty_put_row:
  "qty (db\<lparr>items := put_row (c, t) r u\<rparr>) c' t' =
     (if c' = c \<and> t' = t then quantity r else qty (db\<lparr>items := u\<rparr>) c' t')"
  by (simp add: qty_def)

lemma qty_del_row:
  "qty (db\<lparr>items := del_row (c, t) u\<rparr>) c' t' =
     (if c' = c \<and> t' = t then 0 else qty (db\<lparr>items := u\<rparr>) c' t')"
  by (simp add: qty_def)

lemma qty_upd_slot [simp]:
  "qty (db\<lparr>items := upd_row k (\<lambda>r. r\<lparr>slot_index := s\<rparr>) u\<rparr>) c' t' = qty (db\<lparr>items := u\<rparr>) c' t'"
  by (auto simp: qty_def split: option.split)

lemma balance_put_row:
  "balance_of (db\<lparr>currency := put_row (c, k) b u\<rparr>) c' k' =
     (if c' = c \<and> k' = k then b else balance_of (db\<lparr>currency := u\<rparr>) c' k')"
  by (simp add: balance_of_def)

lemma upsert_item_add_ok:
  assumes "upsert_item_add c t n db = (Inr q, db')"
  shows "q = qty db c t + n" "0 < n" "in_i64 q"
    "qty db' = (\<lambda>c' t'. if c' = c \<and> t' = t then q else qty db c' t')"
    "\<exists>u. db' = db\<lparr>items := u\<rparr>"
    "stacks db' c = stacks db c + (if has_row (items db) (c, t) then 0 else 1)"
    "c' \<noteq> c \<Longrightarrow> stacks db' c' = stacks db c'"
  using assms
  by (auto simp: upsert_item_add_def qty_def stacks_def has_row_def fun_eq_iff
      count_where_put_row_key Let_def split: if_splits option.splits)

lemma upsert_item_add_err:
  "upsert_item_add c t n db = (Inl e, db') \<Longrightarrow> db' = db"
  by (auto simp: upsert_item_add_def Let_def split: if_splits option.splits)

lemma upsert_item_add_succeeds:
  assumes "db_wf db" "0 < n" "in_i64 (qty db c t + n)" "has_row (characters db) c"
  shows "\<exists>db'. upsert_item_add c t n db = (Inr (qty db c t + n), db')"
  using assms by (auto simp: upsert_item_add_def qty_def Let_def split: option.split)

lemma set_remaining_ok:
  assumes "set_remaining c t r db = (Inr u, db')" "has_row (items db) (c, t)" "db_wf db"
  shows "qty db' = (\<lambda>c' t'. if c' = c \<and> t' = t then r else qty db c' t')"
    "0 \<le> r" "\<exists>u. db' = db\<lparr>items := u\<rparr>"
    "stacks db' c = stacks db c - (if r = 0 then 1 else 0)"
    "c' \<noteq> c \<Longrightarrow> stacks db' c' = stacks db c'"
  using assms db_wf_unique(3) [OF assms(3)]
  by (auto simp: set_remaining_def update_item_quantity_def qty_def stacks_def fun_eq_iff
      item_row_ok_def has_row_def count_where_del_row split: if_splits option.splits)

lemma upsert_balance_add_ok:
  assumes "upsert_balance_add c k n db = (Inr b, db')"
  shows "b = balance_of db c k + n" "0 \<le> b" "in_i64 b"
    "balance_of db' = (\<lambda>c' k'. if c' = c \<and> k' = k then b else balance_of db c' k')"
    "\<exists>u. db' = db\<lparr>currency := u\<rparr>"
  using assms
  by (auto simp: upsert_balance_add_def insert_balance_def balance_of_def fun_eq_iff
      split: if_splits option.splits)

lemma upsert_balance_ok:
  assumes "upsert_balance c k v db = (Inr b, db')"
  shows "b = v" "0 \<le> b" "in_i64 b"
    "balance_of db' = (\<lambda>c' k'. if c' = c \<and> k' = k then b else balance_of db c' k')"
    "\<exists>u. db' = db\<lparr>currency := u\<rparr>"
  using assms
  by (auto simp: upsert_balance_def insert_balance_def balance_of_def fun_eq_iff
      split: if_splits option.splits)

subsection \<open>They keep the constraints\<close>

lemma pres_select_quantity [pres_intros]: "preserves I (select_quantity c t)"
  by (simp add: select_quantity_def pres_query)

lemma pres_count_stacks [pres_intros]: "preserves I (count_stacks c)"
  by (simp add: count_stacks_def pres_query)

lemma pres_select_balance [pres_intros]: "preserves I (select_balance c k)"
  by (simp add: select_balance_def pres_query)

lemma pres_fetch_one [pres_intros]: "preserves I m \<Longrightarrow> preserves I (fetch_one m)"
  by (simp add: fetch_one_def pres_andThen pres_ok_or)

lemma db_wf_item_row:
  "db_wf db \<Longrightarrow> map_of (items db) (c, t) = Some r \<Longrightarrow>
     item_row_ok r \<and> has_row (characters db) c"
  by (simp add: db_wf_def items_wf_def)

lemma db_wf_items_upd_row:
  assumes wf: "db_wf db"
    and f: "\<And>r. map_of (items db) (c, t) = Some r \<Longrightarrow> item_row_ok (f r)"
  shows "db_wf (db\<lparr>items := upd_row (c, t) f (items db)\<rparr>)"
proof (rule db_wf_items_update [OF wf])
  show "keys_unique (upd_row (c, t) f (items db))" using db_wf_unique(3) [OF wf] by simp
next
  fix c' i r assume "map_of (upd_row (c, t) f (items db)) (c', i) = Some r"
  then show "item_row_ok r \<and> has_row (characters db) c'"
    using f db_wf_item_row [OF wf] by (fastforce split: if_splits)
qed

lemma db_wf_items_put_row:
  assumes wf: "db_wf db" and ok: "item_row_ok r"
    and fk: "has_row (items db) (c, t) \<or> has_row (characters db) c"
  shows "db_wf (db\<lparr>items := put_row (c, t) r (items db)\<rparr>)"
proof (rule db_wf_items_update [OF wf])
  show "keys_unique (put_row (c, t) r (items db))" using db_wf_unique(3) [OF wf] by simp
next
  fix c' i r' assume "map_of (put_row (c, t) r (items db)) (c', i) = Some r'"
  then show "item_row_ok r' \<and> has_row (characters db) c'"
    using ok fk db_wf_item_row [OF wf] by (auto simp: has_row_def split: if_splits)
qed

lemma pres_upsert_item_add [pres_intros]: "preserves db_wf (upsert_item_add c t n)"
proof (rule preservesI)
  fix db r db' assume wf: "db_wf db" and run: "upsert_item_add c t n db = (r, db')"
  then show "db_wf db'"
    by (auto simp: upsert_item_add_def Let_def item_row_ok_def has_row_def
        intro!: db_wf_items_put_row dest: db_wf_item split: if_splits option.splits)
qed

lemma pres_update_item_quantity [pres_intros]: "preserves db_wf (update_item_quantity c t n)"
proof (rule preservesI)
  fix db r db' assume wf: "db_wf db" and run: "update_item_quantity c t n db = (r, db')"
  show "db_wf db'"
    using run wf
    by (auto simp: update_item_quantity_def item_row_ok_def
        intro!: db_wf_items_upd_row split: if_splits option.splits)
qed

lemma pres_delete_item [pres_intros]: "preserves db_wf (delete_item c t)"
  unfolding delete_item_def
proof (rule pres_execute)
  fix db :: db assume wf: "db_wf db"
  show "db_wf (db\<lparr>items := del_row (c, t) (items db)\<rparr>)"
    using db_wf_unique(3) [OF wf] db_wf_item_row [OF wf]
    by (intro db_wf_items_update [OF wf]) (auto split: if_splits)
qed

lemma pres_update_item_slot [pres_intros]: "preserves db_wf (update_item_slot c t s)"
  unfolding update_item_slot_def
  by (rule pres_execute, rule db_wf_items_upd_row)
    (auto simp: item_row_ok_def dest: db_wf_item)

lemma pres_set_remaining [pres_intros]: "preserves db_wf (set_remaining c t n)"
  by (simp add: set_remaining_def pres_delete_item pres_update_item_quantity)

lemma db_wf_currency_put_row:
  assumes wf: "db_wf db" and "0 \<le> b" "in_i64 b"
    and "has_row (currency db) (c, k) \<or> has_row (characters db) c"
  shows "db_wf (db\<lparr>currency := put_row (c, k) b (currency db)\<rparr>)"
proof (rule db_wf_currency_update [OF wf])
  show "keys_unique (put_row (c, k) b (currency db))" using db_wf_unique(4) [OF wf] by simp
next
  fix c' k' b' assume "map_of (put_row (c, k) b (currency db)) (c', k') = Some b'"
  then show "0 \<le> b' \<and> in_i64 b' \<and> has_row (characters db) c'"
    using assms db_wf_currency [OF wf] by (auto simp: has_row_def split: if_splits)
qed

lemma db_wf_insert_balance:
  "db_wf db \<Longrightarrow> insert_balance c k p b db = (r, db') \<Longrightarrow> db_wf db'"
  by (auto simp: insert_balance_def intro!: db_wf_currency_put_row split: if_splits)

lemma pres_upsert_balance [pres_intros]: "preserves db_wf (upsert_balance c k b)"
  by (rule preservesI) (simp add: upsert_balance_def db_wf_insert_balance)

lemma pres_upsert_balance_add [pres_intros]: "preserves db_wf (upsert_balance_add c k b)"
  by (rule preservesI) (simp add: upsert_balance_add_def db_wf_insert_balance)

lemma pres_update_balance [pres_intros]: "preserves db_wf (update_balance c k b)"
  by (rule preservesI)
    (auto simp: update_balance_def intro!: db_wf_currency_put_row split: if_splits)

end
