(* ===== verification/CharacterStore.thy ===== *)
theory CharacterStore
  imports ItemTables
begin

text \<open>
  \<^verbatim>\<open>crates/character/src/store.rs\<close>: character rows, their lookups by account and realm, deletion
  with its cascades, position updates, and the stat read and write paths that go through the
  declared schema. \<open>character_store\<close> is the Rust struct without its pool (the pool is the
  database the actions run against). Fresh ids and \<^verbatim>\<open>now()\<close> are arguments.
\<close>

record inventory_config =
  max_distinct_item_types :: u32
  slot_count :: u32

record character_store =
  st_schema :: attribute_schema
  st_inventory_config :: inventory_config

record character_summary =
  cs_id :: character_id
  cs_name :: string
  cs_realm_id :: realm_id
  cs_zone_id :: string
  cs_position :: "f64 \<times> f64 \<times> f64"

section \<open>Rows and lookups\<close>

definition row_to_character_summary :: "character_id \<times> character_row \<Rightarrow> character_summary" where
  "row_to_character_summary row =
     \<lparr>cs_id = fst row, cs_name = ch_name (snd row), cs_realm_id = ch_realm (snd row),
      cs_zone_id = ch_zone (snd row), cs_position = ch_position (snd row)\<rparr>"

text \<open>\<^verbatim>\<open>ORDER BY created_at DESC\<close>; rows created at the same instant keep their table order.\<close>

definition newest_first :: "(character_id \<times> character_row) list \<Rightarrow> (character_id \<times> character_row) list" where
  "newest_first rows = sort_key (\<lambda>r. - ch_created_at (snd r)) rows"

definition limit_1 :: "'a list \<Rightarrow> 'a option" where
  "limit_1 xs = (case xs of [] \<Rightarrow> None | x # _ \<Rightarrow> Some x)"

definition on_realm :: "account_id \<Rightarrow> realm_id \<Rightarrow> db \<Rightarrow> (character_id \<times> character_row) list" where
  "on_realm account realm db =
     newest_first (rows_where (\<lambda>c r. ch_account r = account \<and> ch_realm r = realm) (characters db))"

definition realm_is_open :: "db \<Rightarrow> realm_id \<Rightarrow> bool" where
  "realm_is_open db i \<longleftrightarrow>
     (case map_of (realms db) i of None \<Rightarrow> False | Some r \<Rightarrow> rl_policy r = ''open'')"

definition on_open_realms :: "account_id \<Rightarrow> db \<Rightarrow> (character_id \<times> character_row) list" where
  "on_open_realms account db =
     newest_first (rows_where (\<lambda>c r. ch_account r = account \<and> realm_is_open db (ch_realm r))
       (characters db))"

definition create_character ::
  "character_id \<Rightarrow> timestamp \<Rightarrow> account_id \<Rightarrow> string \<Rightarrow> realm_id \<Rightarrow> string \<Rightarrow> character_id sql" where
  "create_character fresh now account name realm zone = (\<lambda>db.
     if has_row (characters db) fresh then (Inl (Sql UniqueViolation), db)
     else if account \<notin> set (accounts db) \<or> \<not> has_row (realms db) realm
       then (Inl (Sql ForeignKeyViolation), db)
     else (Inr fresh, db\<lparr>characters := put_row fresh
        \<lparr>ch_account = account, ch_name = name, ch_realm = realm, ch_zone = zone,
         ch_position = (0, 0, 0), ch_stats = [], ch_created_at = now\<rparr> (characters db)\<rparr>))"

definition find_by_account :: "account_id \<Rightarrow> realm_id \<Rightarrow> character_summary option sql" where
  "find_by_account account realm =
     query (\<lambda>db. map_option row_to_character_summary (limit_1 (on_realm account realm db)))"

definition find_by_account_in_open_realms :: "account_id \<Rightarrow> character_summary option sql" where
  "find_by_account_in_open_realms account =
     query (\<lambda>db. map_option row_to_character_summary (limit_1 (on_open_realms account db)))"

definition list_by_account :: "account_id \<Rightarrow> realm_id \<Rightarrow> character_summary list sql" where
  "list_by_account account realm =
     query (\<lambda>db. map row_to_character_summary (on_realm account realm db))"

definition list_by_account_in_open_realms :: "account_id \<Rightarrow> character_summary list sql" where
  "list_by_account_in_open_realms account =
     query (\<lambda>db. map row_to_character_summary (on_open_realms account db))"

definition get_for_account :: "character_id \<Rightarrow> account_id \<Rightarrow> character_summary option sql" where
  "get_for_account c account = query (\<lambda>db.
     case map_of (characters db) c of
       None \<Rightarrow> None
     | Some r \<Rightarrow> if ch_account r = account then Some (row_to_character_summary (c, r)) else None)"

text \<open>\<^verbatim>\<open>DELETE FROM characters\<close> and every \<^verbatim>\<open>ON DELETE CASCADE\<close> on \<^verbatim>\<open>character_id\<close>.\<close>

definition delete_character :: "character_id \<Rightarrow> unit sql" where
  "delete_character c = execute (\<lambda>db. db\<lparr>
     characters := del_row c (characters db),
     items := del_where (\<lambda>k v. fst k = c) (items db),
     currency := del_where (\<lambda>k v. fst k = c) (currency db),
     equipped := del_where (\<lambda>k v. fst k = c) (equipped db),
     plugin_character_state := del_where (\<lambda>k v. fst k = c) (plugin_character_state db),
     character_sessions := del_row c (character_sessions db),
     bound_liveness := del_row c (bound_liveness db),
     party_members := del_row c (party_members db)\<rparr>)"

definition count_for_account :: "account_id \<Rightarrow> realm_id \<Rightarrow> i64 sql" where
  "count_for_account account realm =
     query (\<lambda>db. count_where (\<lambda>c r. ch_account r = account \<and> ch_realm r = realm) (characters db))"

definition count_for_realm :: "realm_id \<Rightarrow> i64 sql" where
  "count_for_realm realm = query (\<lambda>db. count_where (\<lambda>c r. ch_realm r = realm) (characters db))"

definition update_character :: "character_id \<Rightarrow> (character_row \<Rightarrow> character_row) \<Rightarrow> unit sql" where
  "update_character c f = execute (\<lambda>db. db\<lparr>characters := upd_row c f (characters db)\<rparr>)"

definition update_position :: "character_id \<Rightarrow> f64 \<times> f64 \<times> f64 \<Rightarrow> unit sql" where
  "update_position c position = update_character c (\<lambda>r. r\<lparr>ch_position := position\<rparr>)"

definition update_position_and_zone ::
  "character_id \<Rightarrow> f64 \<times> f64 \<times> f64 \<Rightarrow> string \<Rightarrow> unit sql" where
  "update_position_and_zone c position zone =
     update_character c (\<lambda>r. r\<lparr>ch_position := position, ch_zone := zone\<rparr>)"

section \<open>Stats\<close>

text \<open>\<^verbatim>\<open>jsonb_set(stats, ARRAY[key], to_jsonb(value), true)\<close> on an object.\<close>

definition jsonb_set :: "json_object \<Rightarrow> string \<Rightarrow> i64 \<Rightarrow> json_object" where
  "jsonb_set stats key v = AList.update key (JInt v) stats"

definition select_stats :: "character_id \<Rightarrow> json_object sql" where
  "select_stats c = fetch_one (query (\<lambda>db. map_option ch_stats (map_of (characters db) c)))"

definition write_stat :: "character_id \<Rightarrow> string \<Rightarrow> i64 \<Rightarrow> unit sql" where
  "write_stat c key v = update_character c (\<lambda>r. r\<lparr>ch_stats := jsonb_set (ch_stats r) key v\<rparr>)"

definition set_stat :: "character_store \<Rightarrow> character_id \<Rightarrow> string \<Rightarrow> i64 \<Rightarrow> unit sql" where
  "set_stat st c key v =
     andThen (lift (validate_write (st_schema st) key v)) (\<lambda>_. write_stat c key v)"

definition get_stat :: "character_store \<Rightarrow> character_id \<Rightarrow> string \<Rightarrow> i64 sql" where
  "get_stat st c key =
     andThen (select_stats c) (\<lambda>stored. lift (resolve_read (st_schema st) stored key))"

definition apply_stat_delta :: "character_store \<Rightarrow> character_id \<Rightarrow> string \<Rightarrow> i64 \<Rightarrow> i64 sql" where
  "apply_stat_delta st c key delta =
     andThen (get_stat st c key) (\<lambda>current.
     andThen (ok_or (checked_add_i64 current delta) (Store (StatDeltaOverflow key))) (\<lambda>new_value.
     andThen (set_stat st c key new_value) (\<lambda>_.
     ok new_value)))"

text \<open>Inside a transaction the row lock changes nothing here: the read is the same read.\<close>

definition get_stat_tx :: "character_store \<Rightarrow> character_id \<Rightarrow> string \<Rightarrow> i64 sql" where
  "get_stat_tx st c key =
     andThen (select_stats c) (\<lambda>stored. lift (resolve_read (st_schema st) stored key))"

definition apply_stat_delta_clamped_tx ::
  "character_store \<Rightarrow> character_id \<Rightarrow> string \<Rightarrow> i64 \<Rightarrow> i64 sql" where
  "apply_stat_delta_clamped_tx st c key delta =
     andThen (select_stats c) (\<lambda>stored.
     andThen (lift (resolve_read (st_schema st) stored key)) (\<lambda>current.
     andThen (lift (clamp (st_schema st) key (saturating_add_i64 current delta))) (\<lambda>new_value.
     andThen (write_stat c key new_value) (\<lambda>_.
     ok new_value))))"

section \<open>Stats: evaluation\<close>

text \<open>The value a read sees, when the character exists and the key is declared.\<close>

definition stat_of :: "character_store \<Rightarrow> db \<Rightarrow> character_id \<Rightarrow> string \<Rightarrow> error + i64" where
  "stat_of st db c key = (case map_of (characters db) c of
      None \<Rightarrow> Inl (Sql RowNotFound)
    | Some r \<Rightarrow> resolve_read (st_schema st) (ch_stats r) key)"

lemma select_stats_apply: "select_stats c db =
    (case map_of (characters db) c of None \<Rightarrow> Inl (Sql RowNotFound) | Some r \<Rightarrow> Inr (ch_stats r), db)"
  by (simp add: select_stats_def fetch_one_apply split: option.split)

lemma get_stat_apply [simp]: "get_stat st c key db = (stat_of st db c key, db)"
  by (simp add: get_stat_def andThen_apply select_stats_apply stat_of_def split: option.split)

lemma get_stat_tx_apply [simp]: "get_stat_tx st c key db = (stat_of st db c key, db)"
  by (simp add: get_stat_tx_def andThen_apply select_stats_apply stat_of_def split: option.split)

lemma andThen_get_stat [simp]:
  "andThen (get_stat st c key) f db =
     (case stat_of st db c key of Inl e \<Rightarrow> (Inl e, db) | Inr v \<Rightarrow> f v db)"
  by (simp add: andThen_apply split: sum.split)

lemma andThen_get_stat_tx [simp]:
  "andThen (get_stat_tx st c key) f db =
     (case stat_of st db c key of Inl e \<Rightarrow> (Inl e, db) | Inr v \<Rightarrow> f v db)"
  by (simp add: andThen_apply split: sum.split)

lemma update_character_apply [simp]:
  "update_character c f db = (Inr (), db\<lparr>characters := upd_row c f (characters db)\<rparr>)"
  by (simp add: update_character_def)

lemma set_stat_Inr:
  "set_stat st c key v db = (Inr u, db') \<longleftrightarrow>
     validate_write (st_schema st) key v = Inr () \<and> write_stat c key v db = (Inr u, db')"
  by (auto simp: set_stat_def split: sum.split)

lemma set_stat_Inl:
  "set_stat st c key v db = (Inl e, db') \<Longrightarrow>
     db' = db \<and> validate_write (st_schema st) key v = Inl e"
  by (auto simp: set_stat_def write_stat_def split: sum.splits)

text \<open>Writing a declared stat and reading any stat back.\<close>

lemma stat_of_write:
  assumes "write_stat c key v db = (Inr u, db')" "in_i64 v" "has_row (characters db) c"
    "decl_of (st_schema st) key = Inr d"
  shows "stat_of st db' c' key' = (if c' = c \<and> key' = key then Inr v else stat_of st db c' key')"
proof -
  obtain r where r: "map_of (characters db) c = Some r"
    using assms(3) by (auto simp: has_row_def)
  have db': "db' = db\<lparr>characters := upd_row c (\<lambda>r. r\<lparr>ch_stats := jsonb_set (ch_stats r) key v\<rparr>) (characters db)\<rparr>"
    using assms(1) by (simp add: write_stat_def)
  show ?thesis
    using assms(2,4) r
    by (auto simp: db' stat_of_def jsonb_set_def resolve_read_def try_then_def split: sum.split)
qed

lemma apply_stat_delta_Inr:
  "apply_stat_delta st c key delta db = (Inr v, db') \<longleftrightarrow>
     (\<exists>cur. stat_of st db c key = Inr cur \<and> v = cur + delta \<and> in_i64 v
        \<and> validate_write (st_schema st) key v = Inr () \<and> write_stat c key v db = (Inr (), db'))"
  by (auto simp: apply_stat_delta_def andThen_Inr set_stat_Inr checked_add_i64_def
      split: sum.splits option.splits if_splits)

lemma apply_stat_delta_Inl:
  "apply_stat_delta st c key delta db = (Inl e, db') \<Longrightarrow> db' = db"
  by (auto simp: apply_stat_delta_def andThen_Inl dest: set_stat_Inl
      split: sum.splits option.splits)

lemma apply_clamped_via_get_stat:
  "apply_stat_delta_clamped_tx st c key delta =
     andThen (get_stat st c key) (\<lambda>current.
     andThen (lift (clamp (st_schema st) key (saturating_add_i64 current delta))) (\<lambda>new_value.
     andThen (write_stat c key new_value) (\<lambda>_. ok new_value)))"
  by (simp add: apply_stat_delta_clamped_tx_def get_stat_def andThen_assoc)

lemma apply_clamped_Inr:
  "apply_stat_delta_clamped_tx st c key delta db = (Inr v, db') \<longleftrightarrow>
     (\<exists>cur d. stat_of st db c key = Inr cur \<and> decl_of (st_schema st) key = Inr d
        \<and> v = clamp_decl d (saturating_add_i64 cur delta) \<and> write_stat c key v db = (Inr (), db'))"
  by (auto simp: apply_clamped_via_get_stat andThen_Inr clamp_def split: sum.splits)

lemma stat_of_Inr_row: "stat_of st db c key = Inr v \<Longrightarrow> has_row (characters db) c"
  by (auto simp: stat_of_def has_row_def split: option.splits)

lemma stat_of_Inr_decl: "stat_of st db c key = Inr v \<Longrightarrow> \<exists>d. decl_of (st_schema st) key = Inr d"
  by (auto simp: stat_of_def resolve_read_Inr split: option.splits)

lemma stat_of_other_tables [simp]:
  "stat_of st (db\<lparr>items := x\<rparr>) c key = stat_of st db c key"
  "stat_of st (db\<lparr>currency := y\<rparr>) c key = stat_of st db c key"
  "stat_of st (db\<lparr>equipped := z\<rparr>) c key = stat_of st db c key"
  by (simp_all add: stat_of_def)

lemma write_stat_other [simp]:
  assumes "write_stat c key v db = (r, db')"
  shows "\<exists>t. db' = db\<lparr>characters := t\<rparr>"
  using assms by (auto simp: write_stat_def)

section \<open>Constraints\<close>

lemma pres_update_character:
  assumes "\<And>r. ch_account (f r) = ch_account r" "\<And>r. ch_realm (f r) = ch_realm r"
  shows "preserves db_wf (update_character c f)"
  unfolding update_character_def
proof (rule pres_execute)
  fix db :: db assume wf: "db_wf db"
  then have cw: "characters_wf db" by (simp add: db_wf_def)
  show "db_wf (db\<lparr>characters := upd_row c f (characters db)\<rparr>)"
    using db_wf_unique(2) [OF wf] cw assms
    by (intro db_wf_characters_update [OF wf]) (auto simp: characters_wf_def split: if_splits)
qed

lemma pres_update_position [pres_intros]: "preserves db_wf (update_position c p)"
  by (simp add: update_position_def pres_update_character)

lemma pres_update_position_and_zone [pres_intros]:
  "preserves db_wf (update_position_and_zone c p z)"
  by (simp add: update_position_and_zone_def pres_update_character)

lemma pres_write_stat [pres_intros]: "preserves db_wf (write_stat c key v)"
  by (simp add: write_stat_def pres_update_character)

lemma pres_select_stats [pres_intros]: "preserves I (select_stats c)"
  by (simp add: select_stats_def pres_fetch_one pres_query)

lemma pres_set_stat [pres_intros]: "preserves db_wf (set_stat st c key v)"
  unfolding set_stat_def by (intro pres_intros)

lemma pres_get_stat [pres_intros]: "preserves I (get_stat st c key)"
  unfolding get_stat_def by (intro pres_intros)

lemma pres_get_stat_tx [pres_intros]: "preserves I (get_stat_tx st c key)"
  unfolding get_stat_tx_def by (intro pres_intros)

lemma pres_apply_stat_delta [pres_intros]: "preserves db_wf (apply_stat_delta st c key d)"
  unfolding apply_stat_delta_def by (intro pres_intros)

lemma pres_apply_clamped [pres_intros]:
  "preserves db_wf (apply_stat_delta_clamped_tx st c key d)"
  unfolding apply_stat_delta_clamped_tx_def by (intro pres_intros)

lemma pres_create_character [pres_intros]:
  "preserves db_wf (create_character fresh now account name realm zone)"
proof (rule preservesI)
  fix db r db'
  assume wf: "db_wf db" and run: "create_character fresh now account name realm zone db = (r, db')"
  from wf have cw: "characters_wf db" by (simp add: db_wf_def)
  show "db_wf db'"
  proof (cases "db' = db")
    case False
    have "db_wf (db\<lparr>characters := put_row fresh
        \<lparr>ch_account = account, ch_name = name, ch_realm = realm, ch_zone = zone,
         ch_position = (0, 0, 0), ch_stats = [], ch_created_at = now\<rparr> (characters db)\<rparr>)"
      using run False cw db_wf_unique(2) [OF wf]
      by (intro db_wf_characters_update [OF wf])
        (auto simp: create_character_def characters_wf_def split: if_splits)
    with run False show ?thesis by (auto simp: create_character_def split: if_splits)
  qed (use wf in simp)
qed

lemma pres_delete_character [pres_intros]: "preserves db_wf (delete_character c)"
  unfolding delete_character_def
proof (rule pres_execute)
  fix db :: db assume wf: "db_wf db"
  note u = db_wf_unique [OF wf]
  show "db_wf (db\<lparr>
     characters := del_row c (characters db),
     items := del_where (\<lambda>k v. fst k = c) (items db),
     currency := del_where (\<lambda>k v. fst k = c) (currency db),
     equipped := del_where (\<lambda>k v. fst k = c) (equipped db),
     plugin_character_state := del_where (\<lambda>k v. fst k = c) (plugin_character_state db),
     character_sessions := del_row c (character_sessions db),
     bound_liveness := del_row c (bound_liveness db),
     party_members := del_row c (party_members db)\<rparr>)" (is "db_wf ?db'")
    using wf u unfolding db_wf_def
    by (intro conjI)
      (auto simp: wf_defs has_row_def map_of_del_where_key split: if_splits)
qed

lemma map_of_delete_character:
  assumes "delete_character c db = (r, db')"
  shows "map_of (characters db') c' = (if c' = c then None else map_of (characters db) c')"
    "map_of (items db') (c', t) = (if c' = c then None else map_of (items db) (c', t))"
    "map_of (currency db') (c', t) = (if c' = c then None else map_of (currency db) (c', t))"
    "map_of (equipped db') (c', t) = (if c' = c then None else map_of (equipped db) (c', t))"
    "map_of (plugin_character_state db') (c', t) =
       (if c' = c then None else map_of (plugin_character_state db) (c', t))"
    "map_of (character_sessions db') c' = (if c' = c then None else map_of (character_sessions db) c')"
    "map_of (bound_liveness db') c' = (if c' = c then None else map_of (bound_liveness db) c')"
    "map_of (party_members db') c' = (if c' = c then None else map_of (party_members db) c')"
    "transfer_log db' = transfer_log db"
  using assms by (auto simp: delete_character_def map_of_del_where_key)

end
