(* ===== verification/Inventory.thy ===== *)
theory Inventory
  imports CharacterStore
begin

text \<open>
  \<^verbatim>\<open>crates/character/src/inventory.rs\<close> and \<^verbatim>\<open>slots.rs\<close>: the capacity configuration read from
  the environment, granting and removing item stacks, the currency balances, and the
  drag-and-drop slot move. Grants and removals are not transactions: each is a read followed by
  one write, exactly as in the source.
\<close>

section \<open>Configuration\<close>

definition default_inventory_config :: inventory_config where
  "default_inventory_config = \<lparr>max_distinct_item_types = 40, slot_count = 40\<rparr>"

text \<open>\<^verbatim>\<open>str::parse::<u32>\<close>: an optional plus sign, then decimal digits, in range.\<close>

definition digit_value :: "char \<Rightarrow> nat option" where
  "digit_value ch = (let n = of_char ch :: nat in if 48 \<le> n \<and> n \<le> 57 then Some (n - 48) else None)"

fun parse_digits :: "nat \<Rightarrow> string \<Rightarrow> u32 option" where
  "parse_digits acc [] = Some acc"
| "parse_digits acc (ch # rest) =
     (case digit_value ch of
        None \<Rightarrow> None
      | Some d \<Rightarrow> (let acc' = 10 * acc + d in
          if acc' < 2 ^ 32 then parse_digits acc' rest else None))"

fun parse_u32 :: "string \<Rightarrow> u32 option" where
  "parse_u32 [] = None"
| "parse_u32 (ch # rest) =
     (if ch = CHR ''+'' then (if rest = [] then None else parse_digits 0 rest)
      else parse_digits 0 (ch # rest))"

text \<open>One variable of \<^verbatim>\<open>from_env\<close>: unset keeps the default, unparsable or zero is an error.\<close>

definition env_u32 :: "(string \<Rightarrow> string option) \<Rightarrow> string \<Rightarrow> u32 \<Rightarrow> error + u32" where
  "env_u32 env var dflt =
     try_then (case env var of
         None \<Rightarrow> Inr dflt
       | Some v \<Rightarrow> ok_or_else (parse_u32 v) (Store (InvalidNumber var))) (\<lambda>n.
     try_then (ensure (n \<noteq> 0) (Store (MustBePositive var))) (\<lambda>_. Inr n))"

definition inventory_config_from_env :: "(string \<Rightarrow> string option) \<Rightarrow> error + inventory_config" where
  "inventory_config_from_env env =
     try_then (env_u32 env ''WZ_INVENTORY_MAX_ITEM_TYPES''
         (max_distinct_item_types default_inventory_config)) (\<lambda>m.
     try_then (env_u32 env ''WZ_INVENTORY_SLOT_COUNT''
         (slot_count default_inventory_config)) (\<lambda>s.
     Inr \<lparr>max_distinct_item_types = m, slot_count = s\<rparr>))"

section \<open>Items\<close>

definition item_quantity :: "character_id \<Rightarrow> string \<Rightarrow> i64 sql" where
  "item_quantity c t =
     andThen (select_quantity c t) (\<lambda>q. ok (case q of None \<Rightarrow> 0 | Some n \<Rightarrow> n))"

definition grant_item :: "character_store \<Rightarrow> character_id \<Rightarrow> string \<Rightarrow> i64 \<Rightarrow> i64 sql" where
  "grant_item st c t n =
     andThen (require (\<not> n \<le> 0) (Store (GrantNotPositive n))) (\<lambda>_.
     andThen (item_quantity c t) (\<lambda>owned.
     andThen (if owned > 0 then ok ()
       else andThen (count_stacks c) (\<lambda>distinct_count.
         let mx = int (max_distinct_item_types (st_inventory_config st)) in
         require (\<not> distinct_count \<ge> mx) (Store (InventoryFull distinct_count mx)))) (\<lambda>_.
     upsert_item_add c t n)))"

definition remove_item :: "character_id \<Rightarrow> string \<Rightarrow> i64 \<Rightarrow> i64 sql" where
  "remove_item c t n =
     andThen (require (\<not> n \<le> 0) (Store (RemoveNotPositive n))) (\<lambda>_.
     andThen (item_quantity c t) (\<lambda>current.
     andThen (require (\<not> current < n) (Store (NotEnoughItems n t current))) (\<lambda>_.
     let remaining = sub_i64 current n in
     andThen (set_remaining c t remaining) (\<lambda>_.
     ok remaining))))"

definition list_items :: "character_id \<Rightarrow> (string \<times> i64) list sql" where
  "list_items c = query (\<lambda>db.
     map (\<lambda>(k, r). (snd k, quantity r)) (rows_where (\<lambda>k v. fst k = c) (items db)))"

section \<open>Currency\<close>

definition currency_balance :: "character_id \<Rightarrow> string \<Rightarrow> i64 sql" where
  "currency_balance c k =
     andThen (select_balance c k) (\<lambda>b. ok (case b of None \<Rightarrow> 0 | Some n \<Rightarrow> n))"

definition modify_currency :: "character_id \<Rightarrow> string \<Rightarrow> i64 \<Rightarrow> i64 sql" where
  "modify_currency c k delta =
     andThen (currency_balance c k) (\<lambda>current.
     andThen (ok_or (checked_add_i64 current delta) (Store CurrencyOverflow)) (\<lambda>new_balance.
     andThen (require (\<not> new_balance < 0) (Store (CurrencyNegative delta current))) (\<lambda>_.
     andThen (upsert_balance c k new_balance) (\<lambda>_.
     ok new_balance))))"

section \<open>Slots\<close>

record slot_move =
  moved_item_type :: string
  moved_slot_index :: i32
  displaced :: "(string \<times> i32 option) option"

text \<open>\<^verbatim>\<open>SELECT item_type ... WHERE slot_index = $2 AND item_type != $3\<close>, at most one row.\<close>

definition occupant_of :: "db \<Rightarrow> character_id \<Rightarrow> i32 \<Rightarrow> string \<Rightarrow> string option" where
  "occupant_of db c s t =
     map_option (\<lambda>row. snd (fst row))
       (limit_1 (rows_where (\<lambda>k r. fst k = c \<and> slot_index r = Some s \<and> snd k \<noteq> t) (items db)))"

text \<open>\<^verbatim>\<open>i32::try_from(slot_count).unwrap_or(i32::MAX)\<close>.\<close>

definition slot_limit :: "character_store \<Rightarrow> i32" where
  "slot_limit st = min (int (slot_count (st_inventory_config st))) i32_max"

definition move_item_to_slot ::
  "character_store \<Rightarrow> character_id \<Rightarrow> string \<Rightarrow> i32 \<Rightarrow> slot_move sql" where
  "move_item_to_slot st c t s =
     andThen (require (\<not> (s < 0 \<or> s \<ge> slot_limit st)) (Store (SlotOutOfRange s (slot_limit st)))) (\<lambda>_.
     transaction (
       andThen (query (\<lambda>db. map_option slot_index (map_of (items db) (c, t)))) (\<lambda>found.
       andThen (ok_or found (Store (NotOwned c t))) (\<lambda>previous_slot.
       andThen (query (\<lambda>db. occupant_of db c s t)) (\<lambda>occupant.
       andThen (update_item_slot c t (Some s)) (\<lambda>_.
       andThen (case occupant of
           None \<Rightarrow> ok ()
         | Some occupant_type \<Rightarrow> update_item_slot c occupant_type previous_slot) (\<lambda>_.
       ok \<lparr>moved_item_type = t, moved_slot_index = s,
           displaced = map_option (\<lambda>o'. (o', previous_slot)) occupant\<rparr>)))))))"

section \<open>Evaluation\<close>

lemma item_quantity_apply [simp]: "item_quantity c t db = (Inr (qty db c t), db)"
  by (simp add: item_quantity_def qty_def split: option.split)

lemma andThen_item_quantity [simp]: "andThen (item_quantity c t) f db = f (qty db c t) db"
  by (simp add: andThen_apply)

lemma currency_balance_apply [simp]: "currency_balance c k db = (Inr (balance_of db c k), db)"
  by (simp add: currency_balance_def balance_of_def split: option.split)

lemma andThen_currency_balance [simp]:
  "andThen (currency_balance c k) f db = f (balance_of db c k) db"
  by (simp add: andThen_apply)

text \<open>Whether a grant of \<open>t\<close> has room: an owned stack, or fewer stacks than the cap.\<close>

definition has_room :: "character_store \<Rightarrow> db \<Rightarrow> character_id \<Rightarrow> string \<Rightarrow> bool" where
  "has_room st db c t \<longleftrightarrow> 0 < qty db c t
     \<or> stacks db c < int (max_distinct_item_types (st_inventory_config st))"

lemma grant_item_apply:
  "grant_item st c t n db =
     (if n \<le> 0 then (Inl (Store (GrantNotPositive n)), db)
      else if has_room st db c t then upsert_item_add c t n db
      else (Inl (Store (InventoryFull (stacks db c)
              (int (max_distinct_item_types (st_inventory_config st))))), db))"
  by (auto simp: grant_item_def has_room_def andThen_apply count_stacks_def Let_def)

lemma grant_item_ok:
  assumes "grant_item st c t n db = (Inr q, db')"
  shows "0 < n" "has_room st db c t" "upsert_item_add c t n db = (Inr q, db')"
  using assms by (auto simp: grant_item_apply split: if_splits)

lemma grant_item_err: "grant_item st c t n db = (Inl e, db') \<Longrightarrow> db' = db"
  by (auto simp: grant_item_apply dest: upsert_item_add_err split: if_splits)

lemma remove_item_apply:
  assumes "db_wf db"
  shows "remove_item c t n db =
     (if n \<le> 0 then (Inl (Store (RemoveNotPositive n)), db)
      else if qty db c t < n then (Inl (Store (NotEnoughItems n t (qty db c t))), db)
      else (Inr (qty db c t - n), snd (set_remaining c t (qty db c t - n) db)))"
proof -
  have "in_i64 (qty db c t - n)" if "0 < n" "n \<le> qty db c t"
    using that qty_in_i64 [OF assms] by (intro in_i64_diff_nonneg) auto
  moreover have "set_remaining c t (qty db c t - n) db
      = (Inr (), snd (set_remaining c t (qty db c t - n) db))" if "0 < n" "n \<le> qty db c t"
    using that in_i64_diff_nonneg [OF qty_in_i64 [OF assms, of c t], of n]
    by (auto simp: set_remaining_def update_item_quantity_def item_row_ok_def
        split: option.split)
  ultimately show ?thesis
    by (cases "0 < n \<and> n \<le> qty db c t")
      (auto simp: remove_item_def Let_def andThen_apply split: prod.split sum.split)
qed

lemma remove_item_ok:
  assumes "remove_item c t n db = (Inr r, db')" "db_wf db"
  shows "0 < n" "n \<le> qty db c t" "r = qty db c t - n"
    "qty db' = (\<lambda>c' t'. if c' = c \<and> t' = t then r else qty db c' t')"
    "\<exists>u. db' = db\<lparr>items := u\<rparr>"
    "stacks db' c' = stacks db c' - (if c' = c \<and> r = 0 then 1 else 0)"
proof -
  have run: "0 < n" "n \<le> qty db c t" "r = qty db c t - n"
    "db' = snd (set_remaining c t r db)"
    using assms by (auto simp: remove_item_apply split: if_splits)
  then show "0 < n" "n \<le> qty db c t" "r = qty db c t - n" by simp_all
  have row: "has_row (items db) (c, t)"
    using run qty_pos_iff [OF assms(2), of c t] by simp
  have "\<exists>x. set_remaining c t r db = (Inr x, db')"
    using run in_i64_diff_nonneg [OF qty_in_i64 [OF assms(2), of c t], of n]
    by (auto simp: set_remaining_def update_item_quantity_def item_row_ok_def
        split: option.split)
  then obtain x where sr: "set_remaining c t r db = (Inr x, db')" ..
  show "qty db' = (\<lambda>c' t'. if c' = c \<and> t' = t then r else qty db c' t')"
    and "\<exists>u. db' = db\<lparr>items := u\<rparr>"
    and "stacks db' c' = stacks db c' - (if c' = c \<and> r = 0 then 1 else 0)"
    using set_remaining_ok [OF sr row assms(2)] by (cases "c' = c"; simp)+
qed

lemma modify_currency_apply:
  "modify_currency c k delta db =
     (let b = balance_of db c k + delta in
      if \<not> in_i64 b then (Inl (Store CurrencyOverflow), db)
      else if b < 0 then (Inl (Store (CurrencyNegative delta (balance_of db c k))), db)
      else if \<not> has_row (currency db) (c, k) \<and> \<not> has_row (characters db) c
        then (Inl (Sql ForeignKeyViolation), db)
      else (Inr b, db\<lparr>currency := put_row (c, k) b (currency db)\<rparr>))"
  by (simp add: modify_currency_def Let_def checked_add_i64_def andThen_apply
      upsert_balance_def insert_balance_def)

section \<open>Constraints\<close>

lemma pres_item_quantity [pres_intros]: "preserves I (item_quantity c t)"
  unfolding item_quantity_def by (intro pres_intros)

lemma pres_grant_item [pres_intros]: "preserves db_wf (grant_item st c t n)"
  unfolding grant_item_def Let_def by (intro pres_intros)

lemma pres_remove_item [pres_intros]: "preserves db_wf (remove_item c t n)"
  unfolding remove_item_def Let_def by (intro pres_intros)

lemma pres_currency_balance [pres_intros]: "preserves I (currency_balance c k)"
  unfolding currency_balance_def by (intro pres_intros)

lemma pres_modify_currency [pres_intros]: "preserves db_wf (modify_currency c k d)"
  unfolding modify_currency_def by (intro pres_intros)

lemma pres_move_item_to_slot [pres_intros]: "preserves db_wf (move_item_to_slot st c t s)"
  unfolding move_item_to_slot_def by (intro pres_intros)

section \<open>Slots stay exclusive\<close>

text \<open>
  Nothing in the schema makes \<^verbatim>\<open>slot_index\<close> unique; the swap is what keeps two stacks of one
  character from sharing a slot.
\<close>

definition slots_exclusive :: "db \<Rightarrow> bool" where
  "slots_exclusive db \<longleftrightarrow>
     (\<forall>c t t' r r' s. map_of (items db) (c, t) = Some r \<longrightarrow> map_of (items db) (c, t') = Some r' \<longrightarrow>
        slot_index r = Some s \<longrightarrow> slot_index r' = Some s \<longrightarrow> t = t')"

lemma limit_1_Some: "limit_1 xs = Some x \<Longrightarrow> x \<in> set xs"
  by (cases xs) (auto simp: limit_1_def)

lemma occupant_of_Some:
  assumes "keys_unique (items db)" "occupant_of db c s t = Some t'"
  shows "t' \<noteq> t \<and> (\<exists>r. map_of (items db) (c, t') = Some r \<and> slot_index r = Some s)"
proof -
  obtain k r where "limit_1 (rows_where (\<lambda>k r. fst k = c \<and> slot_index r = Some s \<and> snd k \<noteq> t)
      (items db)) = Some (k, r)" "snd k = t'"
    using assms(2) by (auto simp: occupant_of_def)
  then have "(k, r) \<in> set (items db)" "fst k = c" "slot_index r = Some s" "t' \<noteq> t" "k = (c, t')"
    by (auto simp: rows_where_def prod_eq_iff dest!: limit_1_Some)
  then show ?thesis using in_set_map_of [OF assms(1)] by auto
qed

lemma occupant_of_None:
  "occupant_of db c s t = None \<Longrightarrow> map_of (items db) (c, t') = Some r \<Longrightarrow>
     slot_index r = Some s \<Longrightarrow> t' = t"
  by (auto simp: occupant_of_def limit_1_def rows_where_def filter_empty_conv
      dest!: map_of_in_set split: list.splits)

lemma move_item_to_slot_ok:
  assumes "move_item_to_slot st c t s db = (Inr m, db')"
  obtains row where "0 \<le> s" "s < slot_limit st" "map_of (items db) (c, t) = Some row"
    "m = \<lparr>moved_item_type = t, moved_slot_index = s,
          displaced = map_option (\<lambda>o'. (o', slot_index row)) (occupant_of db c s t)\<rparr>"
    "db' = (let db1 = db\<lparr>items := upd_row (c, t) (\<lambda>r. r\<lparr>slot_index := Some s\<rparr>) (items db)\<rparr> in
       case occupant_of db c s t of None \<Rightarrow> db1
       | Some o' \<Rightarrow> db1\<lparr>items := upd_row (c, o') (\<lambda>r. r\<lparr>slot_index := slot_index row\<rparr>) (items db1)\<rparr>)"
  using assms
  by (auto simp: move_item_to_slot_def andThen_apply not_less Let_def
      split: if_splits option.splits prod.splits sum.splits)

lemma move_item_to_slot_exclusive:
  assumes "move_item_to_slot st c t s db = (Inr m, db')" "keys_unique (items db)"
    "slots_exclusive db"
  shows "slots_exclusive db'"
proof -
  obtain row where row: "map_of (items db) (c, t) = Some row"
    and db': "db' = (let db1 = db\<lparr>items := upd_row (c, t) (\<lambda>r. r\<lparr>slot_index := Some s\<rparr>) (items db)\<rparr> in
       case occupant_of db c s t of None \<Rightarrow> db1
       | Some o' \<Rightarrow> db1\<lparr>items := upd_row (c, o') (\<lambda>r. r\<lparr>slot_index := slot_index row\<rparr>) (items db1)\<rparr>)"
    using move_item_to_slot_ok [OF assms(1)] by metis
  have ex: "map_of (items db) (c', a) = Some r \<Longrightarrow> map_of (items db) (c', b) = Some r' \<Longrightarrow>
      slot_index r = Some x \<Longrightarrow> slot_index r' = Some x \<Longrightarrow> a = b" for c' a b r r' x
    using assms(3) by (auto simp: slots_exclusive_def)
  show ?thesis
  proof (cases "occupant_of db c s t")
    case None
    note free = occupant_of_None [OF None]
    show ?thesis
      unfolding slots_exclusive_def db' None Let_def
      by (auto split: if_splits dest: free ex)
  next
    case (Some o')
    obtain ro where o': "o' \<noteq> t" "map_of (items db) (c, o') = Some ro" "slot_index ro = Some s"
      using occupant_of_Some [OF assms(2) Some] by blast
    show ?thesis
      unfolding slots_exclusive_def db' Some Let_def
      using o' row by (auto split: if_splits dest: ex)
  qed
qed

end
