(* ===== verification/Samples.thy ===== *)
theory Samples
  imports CharacterStore
begin

text \<open>
  A small database the witnesses run on: two accounts with a character each on an open realm, a
  bound realm, a few stacks and balances. It satisfies every constraint of the migrations.
\<close>

definition sample_character :: "account_id \<Rightarrow> string \<Rightarrow> realm_id \<Rightarrow> json_object \<Rightarrow> timestamp \<Rightarrow> character_row" where
  "sample_character a n r stats t =
     \<lparr>ch_account = a, ch_name = n, ch_realm = r, ch_zone = ''zone-a'', ch_position = (0, 0, 0),
      ch_stats = stats, ch_created_at = t\<rparr>"

definition sample_db :: db where
  "sample_db = empty_db\<lparr>
     accounts := [Id 1, Id 2, Id 3],
     realms := [(Id 1, \<lparr>rl_name = ''open one'', rl_policy = ''open''\<rparr>),
                (Id 2, \<lparr>rl_name = ''bound one'', rl_policy = ''bound''\<rparr>)],
     realm_zones := [(''zone-a'', Id 1)],
     characters := [(Id 1, sample_character (Id 1) ''ann'' (Id 1) [(''hp'', JInt 40)] 10),
                    (Id 2, sample_character (Id 2) ''bob'' (Id 1) [] 20)],
     items := [((Id 1, ''wood''), \<lparr>quantity = 5, slot_index = Some 0\<rparr>),
               ((Id 1, ''sword''), \<lparr>quantity = 1, slot_index = Some 1\<rparr>),
               ((Id 2, ''ore''), \<lparr>quantity = 3, slot_index = Some 0\<rparr>)],
     currency := [((Id 1, ''gold''), 100), ((Id 2, ''gold''), 20)]\<rparr>"

definition sample_store :: character_store where
  "sample_store = \<lparr>st_schema = \<lparr>attr_schema_version = 1, attr_stats =
       [\<lparr>stat_key = ''hp'', stat_value_type = IntStat, stat_default = 100, stat_min = Some 0,
         stat_max = Some 200\<rparr>]\<rparr>,
     st_inventory_config = \<lparr>max_distinct_item_types = 40, slot_count = 40\<rparr>\<rparr>"

lemmas sample_defs = sample_db_def empty_db_def sample_character_def

lemma sample_tables [simp]:
  "accounts sample_db = [Id 1, Id 2, Id 3]"
  "realms sample_db = [(Id 1, \<lparr>rl_name = ''open one'', rl_policy = ''open''\<rparr>),
     (Id 2, \<lparr>rl_name = ''bound one'', rl_policy = ''bound''\<rparr>)]"
  "characters sample_db = [(Id 1, sample_character (Id 1) ''ann'' (Id 1) [(''hp'', JInt 40)] 10),
     (Id 2, sample_character (Id 2) ''bob'' (Id 1) [] 20)]"
  "items sample_db = [((Id 1, ''wood''), \<lparr>quantity = 5, slot_index = Some 0\<rparr>),
     ((Id 1, ''sword''), \<lparr>quantity = 1, slot_index = Some 1\<rparr>),
     ((Id 2, ''ore''), \<lparr>quantity = 3, slot_index = Some 0\<rparr>)]"
  "currency sample_db = [((Id 1, ''gold''), 100), ((Id 2, ''gold''), 20)]"
  "equipped sample_db = []" "character_sessions sample_db = []" "bound_liveness sample_db = []"
  "parties sample_db = []" "party_members sample_db = []" "guilds sample_db = []"
  "guild_members sample_db = []" "transfer_gates sample_db = []" "transfer_log sample_db = []"
  "realm_zones sample_db = [(''zone-a'', Id 1)]" "plugin_character_state sample_db = []"
  by (simp_all add: sample_defs)

lemma sample_character_simps [simp]:
  "ch_account (sample_character a n r stats t) = a"
  "ch_realm (sample_character a n r stats t) = r"
  "ch_stats (sample_character a n r stats t) = stats"
  "ch_created_at (sample_character a n r stats t) = t"
  by (simp_all add: sample_character_def)

lemma sample_unique: "unique_keys_wf sample_db"
  by (simp add: unique_keys_wf_def keys_unique_def)

lemma sample_db_wf [simp]: "db_wf sample_db"
  unfolding db_wf_def
  by (intro conjI sample_unique)
    (auto simp: wf_defs has_row_def item_row_ok_def in_i64_iff split: if_splits)

end
