(* ===== verification/Holdings.thy ===== *)
theory Holdings
  imports Inventory Samples
begin

text \<open>
  What the single-character operations of \<^verbatim>\<open>store.rs\<close>, \<^verbatim>\<open>inventory.rs\<close> and
  \<^verbatim>\<open>slots.rs\<close> promise: stat writes stay within the declared bounds and read back, item grants
  and removals are exact and keep the cap, balances never go negative, slots stay exclusive, and
  deleting a character leaves no row of it behind.
\<close>

section \<open>Stats\<close>

lemma clamp_saturating_nearest:
  assumes ok: "decl_ok d" and w: "in_i64 w" "within_bounds d w"
  shows "\<bar>clamp_decl d (saturating_add_i64 a b) - (a + b)\<bar> \<le> \<bar>w - (a + b)\<bar>"
proof -
  have "i64_min \<le> w" "w \<le> i64_max" using w(1) by (simp_all add: in_i64_def)
  moreover have "case stat_min d of Some mn \<Rightarrow> i64_min \<le> mn \<and> mn \<le> i64_max \<and> mn \<le> w | None \<Rightarrow> True"
    "case stat_max d of Some mx \<Rightarrow> i64_min \<le> mx \<and> mx \<le> i64_max \<and> w \<le> mx | None \<Rightarrow> True"
    using ok w(2) by (auto simp: decl_ok_def within_bounds_def in_i64_def split: option.splits)
  ultimately show ?thesis
    by (cases "stat_min d"; cases "stat_max d")
      (auto simp: clamp_decl_def saturating_add_i64_def Let_def min_def max_def)
qed

lemma stat_of_in_i64: "attr_schema_ok (st_schema st) \<Longrightarrow> stat_of st db c key = Inr v \<Longrightarrow> in_i64 v"
  by (auto simp: stat_of_def dest: resolve_read_in_i64 split: option.splits)

text \<open>
  A clamped stat change always ends within the stat's declared bounds, on the value closest
  to the exact sum (also where the sum does not fit an \<^verbatim>\<open>i64\<close>); it reads back as the value
  returned, and no other stat, of this or any other character, changes.
\<close>

theorem clamped_stat_change_exact:
  assumes "attr_schema_ok (st_schema st)"
    and "apply_stat_delta_clamped_tx st c key delta db = (Inr v, db')"
  shows "\<exists>cur d. stat_of st db c key = Inr cur \<and> decl_of (st_schema st) key = Inr d
     \<and> within_bounds d v
     \<and> (\<forall>w. in_i64 w \<longrightarrow> within_bounds d w \<longrightarrow> \<bar>v - (cur + delta)\<bar> \<le> \<bar>w - (cur + delta)\<bar>)
     \<and> (\<forall>c' key'. stat_of st db' c' key' =
          (if c' = c \<and> key' = key then Inr v else stat_of st db c' key'))"
proof -
  obtain cur d where cur: "stat_of st db c key = Inr cur" and d: "decl_of (st_schema st) key = Inr d"
    and v: "v = clamp_decl d (saturating_add_i64 cur delta)"
    and wr: "write_stat c key v db = (Inr (), db')"
    using assms(2) unfolding apply_clamped_Inr by blast
  have ok: "decl_ok d" by (rule decl_of_ok [OF assms(1) d])
  have "in_i64 v" by (simp add: v clamp_decl_in_i64 [OF ok])
  from stat_of_write [OF wr this stat_of_Inr_row [OF cur] d]
  show ?thesis
    using cur d clamp_decl_within [OF ok] clamp_saturating_nearest [OF ok] unfolding v by blast
qed

definition sample_heal :: "(error + i64) \<times> db" where
  "sample_heal = apply_stat_delta_clamped_tx sample_store (Id 1) ''hp'' 500 sample_db"

lemma sample_store_ok: "attr_schema_ok (st_schema sample_store)"
  by (simp add: attr_schema_ok_def decl_ok_def sample_store_def in_i64_iff)

lemma sample_heal_run:
  "apply_stat_delta_clamped_tx sample_store (Id 1) ''hp'' 500 sample_db = (Inr 200, snd sample_heal)"
proof -
  have "fst sample_heal = Inr 200"
    unfolding sample_heal_def sample_store_def sample_defs by code_simp
  then show ?thesis unfolding sample_heal_def by (metis prod.collapse)
qed

lemma clamped_stat_change_exact_witness:
  "stat_of sample_store (snd sample_heal) (Id 1) ''hp'' = Inr 200
   \<and> stat_of sample_store (snd sample_heal) (Id 2) ''hp'' = stat_of sample_store sample_db (Id 2) ''hp''"
  using clamped_stat_change_exact [OF sample_store_ok sample_heal_run] by force

text \<open>
  An unclamped stat change either adds exactly the delta, with the result within the bounds
  and readable back, or fails and changes nothing; it succeeds exactly when the stat can be read
  and the sum fits an \<^verbatim>\<open>i64\<close> and the declared bounds.
\<close>

theorem stat_change_exact:
  assumes "attr_schema_ok (st_schema st)"
  shows "case apply_stat_delta st c key delta db of
      (Inl e, db') \<Rightarrow> db' = db \<and> \<not> (\<exists>cur d. stat_of st db c key = Inr cur
         \<and> decl_of (st_schema st) key = Inr d \<and> in_i64 (cur + delta) \<and> within_bounds d (cur + delta))
    | (Inr v, db') \<Rightarrow> (\<exists>cur d. stat_of st db c key = Inr cur \<and> v = cur + delta \<and> in_i64 v
         \<and> decl_of (st_schema st) key = Inr d \<and> within_bounds d v)
         \<and> (\<forall>c' key'. stat_of st db' c' key' =
              (if c' = c \<and> key' = key then Inr v else stat_of st db c' key'))"
proof (cases "apply_stat_delta st c key delta db")
  case (Pair r db')
  show ?thesis
  proof (cases r)
    case (Inl e)
    have "db' = db" using apply_stat_delta_Inl Pair Inl by blast
    moreover have "\<exists>v. apply_stat_delta st c key delta db = (Inr v, snd (write_stat c key v db))"
      if "stat_of st db c key = Inr cur" "decl_of (st_schema st) key = Inr d" "in_i64 (cur + delta)"
        "within_bounds d (cur + delta)" for cur d
      using that by (auto simp: apply_stat_delta_Inr validate_write_iff write_stat_def)
    ultimately show ?thesis using Pair Inl by auto
  next
    case (Inr v)
    then have "apply_stat_delta st c key delta db = (Inr v, db')" using Pair by simp
    then obtain cur where cur: "stat_of st db c key = Inr cur" "v = cur + delta" "in_i64 v"
      "validate_write (st_schema st) key v = Inr ()" and wr: "write_stat c key v db = (Inr (), db')"
      unfolding apply_stat_delta_Inr by blast
    then obtain d where d: "decl_of (st_schema st) key = Inr d" "within_bounds d v"
      by (auto simp: validate_write_iff)
    show ?thesis
      using stat_of_write [OF wr cur(3) stat_of_Inr_row [OF cur(1)] d(1)] cur d
      by (simp add: Pair Inr)
  qed
qed

lemma stat_change_exact_witness:
  "snd (apply_stat_delta sample_store (Id 1) ''hp'' 500 sample_db) = sample_db"
proof -
  have "isl (fst (apply_stat_delta sample_store (Id 1) ''hp'' 500 sample_db))"
    unfolding sample_store_def sample_defs by code_simp
  then show ?thesis
    using stat_change_exact [OF sample_store_ok, where c = "Id 1" and key = "''hp''" and delta = 500
        and db = sample_db]
    by (auto split: prod.splits sum.splits)
qed


section \<open>Items and currency\<close>

text \<open>What one holding operation may touch.\<close>

definition only_item :: "character_id \<Rightarrow> string \<Rightarrow> db \<Rightarrow> db \<Rightarrow> bool" where
  "only_item c t db db' \<longleftrightarrow> (\<exists>u. db' = db\<lparr>items := u\<rparr>)
     \<and> (\<forall>c' t'. (c', t') \<noteq> (c, t) \<longrightarrow> qty db' c' t' = qty db c' t')"

text \<open>
  Granting items adds exactly the amount to that one stack and touches nothing else, or fails
  and changes nothing. It succeeds exactly when the amount is positive, the new total fits an
  \<^verbatim>\<open>i64\<close> and the stack is already owned or fewer than the configured number of stacks are;
  so an inventory within its cap stays within it.
\<close>

theorem item_grant_exact:
  assumes wf: "db_wf db" and row: "has_row (characters db) c"
  shows "case grant_item st c t n db of
      (Inr q, db') \<Rightarrow> 0 < n \<and> has_room st db c t \<and> in_i64 q \<and> q = qty db c t + n
         \<and> qty db' c t = q \<and> only_item c t db db'
         \<and> (let cap = int (max_distinct_item_types (st_inventory_config st)) in
              stacks db c \<le> cap \<longrightarrow> stacks db' c \<le> cap)
    | (Inl e, db') \<Rightarrow> db' = db \<and> \<not> (0 < n \<and> has_room st db c t \<and> in_i64 (qty db c t + n))"
proof (cases "grant_item st c t n db")
  case (Pair r db')
  show ?thesis
  proof (cases r)
    case (Inl e)
    have "\<not> (0 < n \<and> has_room st db c t \<and> in_i64 (qty db c t + n))"
      using upsert_item_add_succeeds [OF wf _ _ row, of n t] Pair Inl
      by (auto simp: grant_item_apply split: if_splits)
    then show ?thesis using grant_item_err [of st c t n db e db'] Pair Inl by simp
  next
    case (Inr q)
    then have run: "grant_item st c t n db = (Inr q, db')" using Pair by simp
    note g = grant_item_ok [OF run]
    note u = upsert_item_add_ok [OF g(3)]
    have "stacks db' c \<le> cap"
      if "stacks db c \<le> cap" "cap = int (max_distinct_item_types (st_inventory_config st))" for cap
      using that g(2) u(6) qty_pos_iff [OF wf, of c t] by (auto simp: has_room_def split: if_splits)
    then show ?thesis using g u by (auto simp: Pair Inr only_item_def Let_def)
  qed
qed

lemma item_grant_exact_witness:
  "case grant_item sample_store (Id 1) ''ore'' 4 sample_db of (Inr q, db') \<Rightarrow> q = 4 \<and> qty db' (Id 1) ''ore'' = 4
     \<and> qty db' (Id 1) ''wood'' = 5 | (Inl e, db') \<Rightarrow> False"
  using item_grant_exact [OF sample_db_wf, where c = "Id 1" and st = sample_store and t = "''ore''" and n = 4]
  by (auto simp: has_row_def has_room_def only_item_def qty_def in_i64_iff sample_store_def stacks_def
      split: prod.splits sum.splits)

text \<open>
  Removing items takes exactly the amount from that one stack, deleting the row when nothing
  remains, or fails and changes nothing; it succeeds exactly when the amount is positive and owned.
\<close>

theorem item_removal_exact:
  assumes wf: "db_wf db"
  shows "case remove_item c t n db of
      (Inr q, db') \<Rightarrow> 0 < n \<and> n \<le> qty db c t \<and> q = qty db c t - n \<and> qty db' c t = q
         \<and> only_item c t db db' \<and> (has_row (items db') (c, t) \<longleftrightarrow> 0 < q)
    | (Inl e, db') \<Rightarrow> db' = db \<and> \<not> (0 < n \<and> n \<le> qty db c t)"
proof (cases "remove_item c t n db")
  case (Pair r db')
  show ?thesis
  proof (cases r)
    case (Inl e)
    then show ?thesis using Pair by (auto simp: remove_item_apply [OF wf] split: if_splits)
  next
    case (Inr q)
    then have run: "remove_item c t n db = (Inr q, db')" using Pair by simp
    note g = remove_item_ok [OF run wf]
    have "db_wf db'" by (rule preservesD [OF pres_remove_item wf run])
    from qty_pos_iff [OF this, of c t] g show ?thesis
      by (auto simp: Pair Inr only_item_def)
  qed
qed

lemma item_removal_exact_witness:
  "case remove_item (Id 1) ''wood'' 5 sample_db of (Inr q, db') \<Rightarrow> q = 0 \<and> \<not> has_row (items db') (Id 1, ''wood'')
     | (Inl e, db') \<Rightarrow> False"
  using item_removal_exact [OF sample_db_wf, where c = "Id 1" and t = "''wood''" and n = 5]
  by (auto simp: qty_def split: prod.splits sum.splits)

text \<open>
  A currency change never takes a balance below zero or out of \<^verbatim>\<open>i64\<close>: it adds exactly the
  delta to that one balance, or fails and changes nothing, and it succeeds exactly when the new
  balance is in range.
\<close>

theorem currency_change_exact:
  assumes wf: "db_wf db" and row: "has_row (characters db) c"
  shows "case modify_currency c k delta db of
      (Inr b, db') \<Rightarrow> 0 \<le> b \<and> in_i64 b \<and> b = balance_of db c k + delta
         \<and> (\<exists>u. db' = db\<lparr>currency := u\<rparr>)
         \<and> (\<forall>c' k'. balance_of db' c' k' = (if c' = c \<and> k' = k then b else balance_of db c' k'))
    | (Inl e, db') \<Rightarrow> db' = db
         \<and> \<not> (0 \<le> balance_of db c k + delta \<and> in_i64 (balance_of db c k + delta))"
  using row
  by (auto simp: modify_currency_apply Let_def balance_of_def split: option.splits)

lemma currency_change_exact_witness:
  "snd (modify_currency (Id 1) ''gold'' (- 101) sample_db) = sample_db"
  using currency_change_exact [OF sample_db_wf, where c = "Id 1" and k = "''gold''" and delta = "- 101"]
  by (auto simp: has_row_def balance_of_def split: prod.splits sum.splits)


section \<open>Slots\<close>

text \<open>
  Moving an item to a slot swaps: the item ends in the wanted slot, whatever was there takes
  the slot the item came from (or none, if it had none) and is reported, no quantity, other stack
  or other character changes, and no two stacks of a character share a slot afterwards if none did
  before. It succeeds exactly for an owned item and a slot below the configured count.
\<close>

theorem slot_move_swaps:
  assumes wf: "db_wf db" and ex: "slots_exclusive db"
  shows "case move_item_to_slot st c t s db of
      (Inl e, db') \<Rightarrow> db' = db
         \<and> \<not> (0 \<le> s \<and> s < slot_limit st \<and> has_row (items db) (c, t))
    | (Inr m, db') \<Rightarrow> slots_exclusive db' \<and> qty db' = qty db
         \<and> (\<exists>row. map_of (items db) (c, t) = Some row
              \<and> displaced m = map_option (\<lambda>occupant. (occupant, slot_index row)) (occupant_of db c s t)
              \<and> (\<forall>c' t'. map_option slot_index (map_of (items db') (c', t')) =
                   (if (c', t') = (c, t) then Some (Some s)
                    else if c' = c \<and> occupant_of db c s t = Some t' then Some (slot_index row)
                    else map_option slot_index (map_of (items db) (c', t')))))"
proof (cases "move_item_to_slot st c t s db")
  case (Pair r db')
  show ?thesis
  proof (cases r)
    case (Inl e)
    then show ?thesis
      using Pair by (auto simp: move_item_to_slot_def has_row_def andThen_apply not_less
          transaction_def split: if_splits option.splits prod.splits sum.splits)
  next
    case (Inr m)
    then have run: "move_item_to_slot st c t s db = (Inr m, db')" using Pair by simp
    obtain row where row: "map_of (items db) (c, t) = Some row"
      and m: "m = \<lparr>moved_item_type = t, moved_slot_index = s,
          displaced = map_option (\<lambda>o'. (o', slot_index row)) (occupant_of db c s t)\<rparr>"
      and db': "db' = (let db1 = db\<lparr>items := upd_row (c, t) (\<lambda>r. r\<lparr>slot_index := Some s\<rparr>) (items db)\<rparr> in
         case occupant_of db c s t of None \<Rightarrow> db1
         | Some o' \<Rightarrow> db1\<lparr>items := upd_row (c, o') (\<lambda>r. r\<lparr>slot_index := slot_index row\<rparr>) (items db1)\<rparr>)"
      using move_item_to_slot_ok [OF run] by metis
    have excl: "slots_exclusive db'"
      by (rule move_item_to_slot_exclusive [OF run db_wf_unique(3) [OF wf] ex])
    have occ: "o' \<noteq> t \<and> has_row (items db) (c, o')" if "occupant_of db c s t = Some o'" for o'
      using occupant_of_Some [OF db_wf_unique(3) [OF wf] that] by (auto simp: has_row_def)
    have quantities: "qty db' = qty db"
      by (cases "occupant_of db c s t")
        (auto simp: db' Let_def qty_def fun_eq_iff split: option.split)
    have slots: "map_option slot_index (map_of (items db') (c', t')) =
       (if (c', t') = (c, t) then Some (Some s)
        else if c' = c \<and> occupant_of db c s t = Some t' then Some (slot_index row)
        else map_option slot_index (map_of (items db) (c', t')))" for c' t'
      using row occ
      by (cases "occupant_of db c s t") (auto simp: db' Let_def has_row_def)
    show ?thesis using row excl quantities slots by (simp add: Pair Inr m)
  qed
qed

lemma slot_move_swaps_witness:
  "case move_item_to_slot sample_store (Id 1) ''wood'' 1 sample_db of (Inl e, _) \<Rightarrow> False
   | (Inr m, db') \<Rightarrow> slots_exclusive db'
       \<and> map_option slot_index (map_of (items db') (Id 1, ''sword'')) = Some (Some 0)"
proof -
  have ex: "slots_exclusive sample_db" by (auto simp: slots_exclusive_def split: if_splits)
  have occ: "occupant_of sample_db (Id 1) 1 ''wood'' = Some ''sword''"
    by (simp add: occupant_of_def rows_where_def limit_1_def)
  show ?thesis
    using slot_move_swaps [OF sample_db_wf ex, where st = sample_store and c = "Id 1" and t = "''wood''" and s = 1] occ
    by (auto simp: slot_limit_def sample_store_def i32_max_def has_row_def
        simp del: map_option_eq_Some split: prod.splits sum.splits)
qed

section \<open>Deletion\<close>

text \<open>
  Deleting a character removes its row and every row that references it (items, balances,
  equipment, plugin state, session lease, liveness, party membership), keeps all rows of every
  other character, and keeps the transfer history; the database's constraints still hold.
\<close>

theorem character_deletion_cascades:
  assumes wf: "db_wf db" and run: "delete_character c db = (r, db')"
  shows "db_wf db' \<and> transfer_log db' = transfer_log db
     \<and> (\<forall>c'. map_of (characters db') c' = (if c' = c then None else map_of (characters db) c')
        \<and> qty db' c' = (if c' = c then (\<lambda>t. 0) else qty db c')
        \<and> balance_of db' c' = (if c' = c then (\<lambda>k. 0) else balance_of db c')
        \<and> (\<forall>s. map_of (equipped db') (c', s) = (if c' = c then None else map_of (equipped db) (c', s)))
        \<and> (\<forall>k. map_of (plugin_character_state db') (c', k) =
              (if c' = c then None else map_of (plugin_character_state db) (c', k)))
        \<and> map_of (character_sessions db') c' = (if c' = c then None else map_of (character_sessions db) c')
        \<and> map_of (bound_liveness db') c' = (if c' = c then None else map_of (bound_liveness db) c')
        \<and> map_of (party_members db') c' = (if c' = c then None else map_of (party_members db) c'))"
  using preservesD [OF pres_delete_character wf run]
  by (simp add: map_of_delete_character [OF run] qty_def balance_of_def fun_eq_iff)

lemma character_deletion_cascades_witness:
  "qty (snd (delete_character (Id 1) sample_db)) (Id 1) ''wood'' = 0
   \<and> qty (snd (delete_character (Id 1) sample_db)) (Id 2) ''ore'' = 3"
  using character_deletion_cascades [OF sample_db_wf prod.collapse [symmetric], of "Id 1"]
  by (simp add: qty_def)

end
