(* ===== verification/EquipmentSchema.thy ===== *)
theory EquipmentSchema
  imports AttributeSchema
begin

text \<open>
  \<^verbatim>\<open>item_catalog_ref.rs\<close> and \<^verbatim>\<open>equipment_schema.rs\<close>: the catalog the loaders check item types
  against, and the declared equipment slots and equippable items. The YAML parser is third-party
  code and an argument of the loader; what follows it is the loader's own validation.
  A \<^verbatim>\<open>HashMap<String, i64>\<close> is the list of its entries in the order it iterates.
\<close>

section \<open>The item catalog\<close>

type_synonym known_item_types = "(string \<times> string list) list"

definition in_catalog :: "known_item_types \<Rightarrow> string \<Rightarrow> bool" where
  "in_catalog known t \<longleftrightarrow> map_of known t \<noteq> None"

definition has_tag :: "known_item_types \<Rightarrow> string \<Rightarrow> string \<Rightarrow> bool" where
  "has_tag known t tag =
     (case map_of known t of None \<Rightarrow> False | Some tags \<Rightarrow> tag \<in> set tags)"

lemma has_tag_in_catalog: "has_tag known t tag \<Longrightarrow> in_catalog known t"
  by (auto simp: has_tag_def in_catalog_def split: option.splits)

definition check_known :: "known_item_types \<Rightarrow> string \<Rightarrow> error + unit" where
  "check_known known t = ensure (in_catalog known t) (Schema (ItemTypeNotInCatalog t))"

definition check_tagged :: "known_item_types \<Rightarrow> string \<Rightarrow> string \<Rightarrow> error + unit" where
  "check_tagged known t tag = ensure (has_tag known t tag) (Schema (ItemTypeNotTagged t tag))"

section \<open>Equipment\<close>

record equipment_item =
  eq_item_type :: string
  eq_slot :: string
  eq_stat_deltas :: "(string \<times> i64) list"

record equipment_schema =
  eq_schema_version :: u32
  eq_slots :: "string list"
  eq_items :: "equipment_item list"

definition tag_equippable :: string where
  "tag_equippable = ''equippable''"

definition check_stat_delta ::
  "attribute_schema \<Rightarrow> string \<Rightarrow> string \<times> i64 \<Rightarrow> error + unit" where
  "check_stat_delta attrs t entry =
     ensure (declares attrs (fst entry)) (Schema (DeltaForUnknownStat t (fst entry)))"

definition check_equipment_item ::
  "attribute_schema \<Rightarrow> known_item_types \<Rightarrow> string list \<Rightarrow> equipment_item \<Rightarrow> error + unit" where
  "check_equipment_item attrs known slots item =
     try_then (ensure (eq_slot item \<in> set slots)
       (Schema (SlotNotDeclared (eq_item_type item) (eq_slot item)))) (\<lambda>_.
     try_then (check_known known (eq_item_type item)) (\<lambda>_.
     try_then (check_tagged known (eq_item_type item) tag_equippable) (\<lambda>_.
     check_all (check_stat_delta attrs (eq_item_type item)) (eq_stat_deltas item))))"

definition equipment_from_yaml ::
  "(string \<Rightarrow> equipment_schema option) \<Rightarrow> string \<Rightarrow> attribute_schema \<Rightarrow> known_item_types
     \<Rightarrow> error + equipment_schema" where
  "equipment_from_yaml parse input attrs known =
     try_then (ok_or_else (parse input) (Schema ParseFailed)) (\<lambda>schema.
     try_then (ensure (\<not> eq_slots schema = []) (Schema EmptySchema)) (\<lambda>_.
     try_then (check_unique (\<lambda>s. s) (\<lambda>s. Schema (DuplicateKey s)) (\<lambda>_. Inr ()) {}
       (eq_slots schema)) (\<lambda>_.
     try_then (check_unique eq_item_type (\<lambda>t. Schema (DuplicateKey t))
       (check_equipment_item attrs known (eq_slots schema)) {} (eq_items schema)) (\<lambda>_.
     Inr schema))))"

definition resolve_equippable :: "equipment_schema \<Rightarrow> string \<Rightarrow> error + equipment_item" where
  "resolve_equippable sch t =
     ok_or_else (find_by eq_item_type (eq_items sch) t) (Schema (NotEquippable t))"

definition declares_slot :: "equipment_schema \<Rightarrow> string \<Rightarrow> bool" where
  "declares_slot sch slot = list_ex (\<lambda>s. s = slot) (eq_slots sch)"

section \<open>What the loader accepts\<close>

definition equipment_item_ok ::
  "attribute_schema \<Rightarrow> known_item_types \<Rightarrow> equipment_schema \<Rightarrow> equipment_item \<Rightarrow> bool" where
  "equipment_item_ok attrs known sch item \<longleftrightarrow>
     declares_slot sch (eq_slot item) \<and> has_tag known (eq_item_type item) tag_equippable
     \<and> (\<forall>(k, d) \<in> set (eq_stat_deltas item). declares attrs k)"

definition equipment_schema_ok ::
  "attribute_schema \<Rightarrow> known_item_types \<Rightarrow> equipment_schema \<Rightarrow> bool" where
  "equipment_schema_ok attrs known sch \<longleftrightarrow>
     eq_slots sch \<noteq> [] \<and> distinct (eq_slots sch) \<and> distinct (map eq_item_type (eq_items sch))
     \<and> (\<forall>item \<in> set (eq_items sch). equipment_item_ok attrs known sch item)"

lemma declares_slot_iff: "declares_slot sch slot \<longleftrightarrow> slot \<in> set (eq_slots sch)"
  by (auto simp: declares_slot_def list_ex_iff)

lemma check_equipment_item_ok:
  "check_equipment_item attrs known (eq_slots sch) item = Inr () \<longleftrightarrow>
     equipment_item_ok attrs known sch item"
  by (auto simp: check_equipment_item_def equipment_item_ok_def check_known_def check_tagged_def
      check_all_ok check_stat_delta_def declares_slot_iff has_tag_in_catalog)

lemma equipment_from_yaml_Inr:
  "equipment_from_yaml parse input attrs known = Inr sch \<longleftrightarrow>
     parse input = Some sch \<and> equipment_schema_ok attrs known sch"
  by (auto simp: equipment_from_yaml_def equipment_schema_ok_def check_unique_ok_empty
      check_equipment_item_ok)

lemma resolve_equippable_Inr:
  "resolve_equippable sch t = Inr item \<Longrightarrow> item \<in> set (eq_items sch) \<and> eq_item_type item = t"
  by (auto simp: resolve_equippable_def dest: find_by_Some)

text \<open>
  The equipment loader accepts exactly the sound schemas, and what it accepts can be used: a
  successful load returns the parsed schema, which has at least one slot, no repeated slot or
  item type, and items that name a declared slot, an item type the catalog tags as equippable and
  only declared stats; conversely every such schema loads. In a loaded schema \<open>resolve\<close> finds
  every declared item.
\<close>

theorem equipment_loader_sound_complete:
  "(equipment_from_yaml parse input attrs known = Inr sch \<longleftrightarrow>
      parse input = Some sch \<and> equipment_schema_ok attrs known sch)
   \<and> (equipment_schema_ok attrs known sch \<longrightarrow>
      (\<forall>item \<in> set (eq_items sch). resolve_equippable sch (eq_item_type item) = Inr item))"
  by (auto simp: equipment_from_yaml_Inr equipment_schema_ok_def resolve_equippable_def
      find_by_distinct)

definition sample_attrs :: attribute_schema where
  "sample_attrs = \<lparr>attr_schema_version = 1, attr_stats =
     [\<lparr>stat_key = ''hp'', stat_value_type = IntStat, stat_default = 100, stat_min = Some 0,
       stat_max = Some 200\<rparr>]\<rparr>"

definition sample_equipment :: equipment_schema where
  "sample_equipment = \<lparr>eq_schema_version = 1, eq_slots = [''hand''],
     eq_items = [\<lparr>eq_item_type = ''sword'', eq_slot = ''hand'', eq_stat_deltas = [(''hp'', 5)]\<rparr>]\<rparr>"

definition sample_catalog :: known_item_types where
  "sample_catalog = [(''sword'', [''equippable'']), (''wood'', []), (''plank'', [''craftable_output''])]"

lemma equipment_loader_sound_complete_witness:
  "equipment_from_yaml (\<lambda>_. Some sample_equipment) ''slots: [hand]'' sample_attrs sample_catalog
     = Inr sample_equipment
   \<and> resolve_equippable sample_equipment ''sword''
     = Inr \<lparr>eq_item_type = ''sword'', eq_slot = ''hand'', eq_stat_deltas = [(''hp'', 5)]\<rparr>"
proof -
  have ok: "equipment_schema_ok sample_attrs sample_catalog sample_equipment"
    by (simp add: equipment_schema_ok_def equipment_item_ok_def sample_equipment_def
        sample_catalog_def sample_attrs_def has_tag_def tag_equippable_def declares_iff
        declares_slot_iff)
  show ?thesis
    using equipment_loader_sound_complete [of "\<lambda>_. Some sample_equipment" "''slots: [hand]''"
        sample_attrs sample_catalog sample_equipment] ok
    by (simp add: sample_equipment_def)
qed

end
