(* ===== verification/Equipment.thy ===== *)
theory Equipment
  imports EquipmentSchema Inventory Samples
begin

text \<open>
  \<^verbatim>\<open>equipment.rs\<close>: wearing and taking off declared equipment. Neither operation is a
  transaction; a failing one keeps the writes it made before it failed, which is why the
  conservation theorem below is stated of every outcome.
\<close>

record equip_outcome =
  eo_slot :: string
  eo_item_type :: string
  eo_stat_changes :: "(string \<times> i64) list"
  eo_item_changes :: "(string \<times> i64) list"

definition equipped_in_slot :: "character_id \<Rightarrow> string \<Rightarrow> string option sql" where
  "equipped_in_slot c slot = query (\<lambda>db. map_of (equipped db) (c, slot))"

definition list_equipped :: "character_id \<Rightarrow> (string \<times> string) list sql" where
  "list_equipped c = query (\<lambda>db.
     map (\<lambda>(k, t). (snd k, t)) (rows_where (\<lambda>k t. fst k = c) (equipped db)))"

text \<open>\<^verbatim>\<open>for (stat_key, delta) in &stat_deltas { apply_stat_delta ...; stat_changes.push(...) }\<close>.\<close>

definition apply_stat_deltas ::
  "character_store \<Rightarrow> character_id \<Rightarrow> (string \<times> i64) list \<Rightarrow> (string \<times> i64) list
     \<Rightarrow> (string \<times> i64) list sql" where
  "apply_stat_deltas st c deltas changes =
     for_each (\<lambda>(k, d) acc. andThen (apply_stat_delta st c k d) (\<lambda>v. ok (acc @ [(k, v)])))
       deltas changes"

definition delete_equipped :: "character_id \<Rightarrow> string \<Rightarrow> unit sql" where
  "delete_equipped c slot = execute (\<lambda>db. db\<lparr>equipped := del_row (c, slot) (equipped db)\<rparr>)"

definition insert_equipped :: "character_id \<Rightarrow> string \<Rightarrow> string \<Rightarrow> unit sql" where
  "insert_equipped c slot t = (\<lambda>db.
     if \<not> has_row (characters db) c then (Inl (Sql ForeignKeyViolation), db)
     else (Inr (), db\<lparr>equipped := put_row (c, slot) t (equipped db)\<rparr>))"

definition worn_deltas :: "equipment_schema \<Rightarrow> string \<Rightarrow> (string \<times> i64) list" where
  "worn_deltas sch t =
     (case resolve_equippable sch t of Inl _ \<Rightarrow> [] | Inr declared \<Rightarrow> eq_stat_deltas declared)"

definition unequip_inner ::
  "character_store \<Rightarrow> character_id \<Rightarrow> string \<Rightarrow> string \<Rightarrow> equipment_schema \<Rightarrow> equip_outcome sql" where
  "unequip_inner st c slot t sch =
     andThen (apply_stat_deltas st c (map (\<lambda>(k, d). (k, neg_i64 d)) (worn_deltas sch t)) []) (\<lambda>stat_changes.
     andThen (grant_item st c t 1) (\<lambda>new_quantity.
     andThen (delete_equipped c slot) (\<lambda>_.
     ok \<lparr>eo_slot = slot, eo_item_type = t, eo_stat_changes = stat_changes,
         eo_item_changes = [(t, new_quantity)]\<rparr>)))"

definition unequip_item ::
  "character_store \<Rightarrow> character_id \<Rightarrow> string \<Rightarrow> equipment_schema \<Rightarrow> equip_outcome sql" where
  "unequip_item st c slot sch =
     andThen (equipped_in_slot c slot) (\<lambda>found.
     case found of
       None \<Rightarrow> fail (Store (NothingEquipped c slot))
     | Some t \<Rightarrow> unequip_inner st c slot t sch)"

definition displace ::
  "character_store \<Rightarrow> character_id \<Rightarrow> string \<Rightarrow> equipment_schema
     \<Rightarrow> ((string \<times> i64) list \<times> (string \<times> i64) list) sql" where
  "displace st c slot sch =
     andThen (equipped_in_slot c slot) (\<lambda>found.
     case found of
       None \<Rightarrow> ok ([], [])
     | Some occupant_type \<Rightarrow>
         andThen (unequip_inner st c slot occupant_type sch) (\<lambda>occupant.
         ok (eo_stat_changes occupant, eo_item_changes occupant)))"

definition equip_item ::
  "character_store \<Rightarrow> character_id \<Rightarrow> string \<Rightarrow> equipment_schema \<Rightarrow> equip_outcome sql" where
  "equip_item st c t sch =
     andThen (lift (resolve_equippable sch t)) (\<lambda>declared.
     let slot = eq_slot declared in
     andThen (item_quantity c t) (\<lambda>q.
     andThen (require (\<not> q < 1) (Store (NotOwned c t))) (\<lambda>_.
     andThen (displace st c slot sch) (\<lambda>(stat_changes, item_changes).
     andThen (apply_stat_deltas st c (eq_stat_deltas declared) stat_changes) (\<lambda>stat_changes'.
     andThen (remove_item c t 1) (\<lambda>remaining.
     andThen (insert_equipped c slot t) (\<lambda>_.
     ok \<lparr>eo_slot = slot, eo_item_type = t, eo_stat_changes = stat_changes',
         eo_item_changes = item_changes @ [(t, remaining)]\<rparr>)))))))"

section \<open>The stat loop\<close>

lemma apply_stat_deltas_Nil [simp]: "apply_stat_deltas st c [] ch = ok ch"
  by (simp add: apply_stat_deltas_def)

lemma apply_stat_deltas_Cons: "apply_stat_deltas st c ((k, d) # ds) ch =
    andThen (apply_stat_delta st c k d) (\<lambda>v. apply_stat_deltas st c ds (ch @ [(k, v)]))"
  by (simp add: apply_stat_deltas_def andThen_assoc)

lemma apply_stat_delta_frame:
  "apply_stat_delta st c k d db = (r, db') \<Longrightarrow> \<exists>u. db' = db\<lparr>characters := u\<rparr>"
  by (cases r)
    (auto simp: apply_stat_delta_Inr write_stat_def intro: exI [of _ "characters db"]
      dest!: apply_stat_delta_Inl)

text \<open>Whatever its outcome, the loop writes nothing but the character's stats.\<close>

lemma apply_stat_deltas_frame:
  "apply_stat_deltas st c ds ch db = (r, db') \<Longrightarrow> \<exists>u. db' = db\<lparr>characters := u\<rparr>"
proof (induction ds arbitrary: ch db)
  case Nil
  then show ?case by (auto intro: exI [of _ "characters db"])
next
  case (Cons x ds)
  obtain k d where x: "x = (k, d)" by force
  obtain r1 d1 where 1: "apply_stat_delta st c k d db = (r1, d1)" by force
  obtain u where u: "d1 = db\<lparr>characters := u\<rparr>" using apply_stat_delta_frame [OF 1] by blast
  show ?case
    using Cons.prems Cons.IH [of _ d1] 1 u
    by (cases r1) (auto simp: x apply_stat_deltas_Cons andThen_apply)
qed

definition raised :: "int \<Rightarrow> error + int \<Rightarrow> error + int" where
  "raised d r = (case r of Inl e \<Rightarrow> Inl e | Inr v \<Rightarrow> Inr (v + d))"

lemma raised_simps [simp]:
  "raised d (Inl e) = Inl e" "raised d (Inr v) = Inr (v + d)" "raised 0 r = r"
  "raised d (raised d' r) = raised (d + d') r"
  by (simp_all add: raised_def add.commute add.left_commute split: sum.split)

lemma apply_stat_delta_stats:
  assumes "apply_stat_delta st c k d db = (Inr v, db')"
  shows "stat_of st db' c' k' = raised (if c' = c \<and> k' = k then d else 0) (stat_of st db c' k')"
proof -
  obtain cur where cur: "stat_of st db c k = Inr cur" "v = cur + d" "in_i64 v"
    "write_stat c k v db = (Inr (), db')"
    using assms by (auto simp: apply_stat_delta_Inr)
  obtain decl where "decl_of (st_schema st) k = Inr decl" using stat_of_Inr_decl [OF cur(1)] by blast
  from stat_of_write [OF cur(4,3) stat_of_Inr_row [OF cur(1)] this, of c' k'] cur
  show ?thesis by auto
qed

lemma apply_stat_deltas_stats:
  "apply_stat_deltas st c ds ch db = (Inr ch', db') \<Longrightarrow>
     stat_of st db' c' k = raised (if c' = c then total_of ds k else 0) (stat_of st db c' k)"
proof (induction ds arbitrary: ch db)
  case (Cons x ds)
  obtain k1 d where x: "x = (k1, d)" by force
  obtain v d1 where 1: "apply_stat_delta st c k1 d db = (Inr v, d1)"
    and 2: "apply_stat_deltas st c ds (ch @ [(k1, v)]) d1 = (Inr ch', db')"
    using Cons.prems by (auto simp: x apply_stat_deltas_Cons andThen_Inr)
  show ?case
    using Cons.IH [OF 2] apply_stat_delta_stats [OF 1, of c' k]
    by (auto simp: x add.commute)
qed simp

lemma pres_apply_stat_deltas [pres_intros]: "preserves db_wf (apply_stat_deltas st c ds ch)"
  unfolding apply_stat_deltas_def
  by (rule pres_for_each) (auto intro!: pres_andThen pres_ok pres_apply_stat_delta)

section \<open>Constraints\<close>

lemma pres_equipped_in_slot [pres_intros]: "preserves I (equipped_in_slot c slot)"
  by (simp add: equipped_in_slot_def pres_query)

lemma pres_delete_equipped [pres_intros]: "preserves db_wf (delete_equipped c slot)"
  unfolding delete_equipped_def
proof (rule pres_execute)
  fix db :: db assume wf: "db_wf db"
  then show "db_wf (db\<lparr>equipped := del_row (c, slot) (equipped db)\<rparr>)"
    using db_wf_unique(5) [OF wf]
    by (intro db_wf_equipped_update) (auto simp: db_wf_def character_refs_wf_def)
qed

lemma pres_insert_equipped [pres_intros]: "preserves db_wf (insert_equipped c slot t)"
proof (rule preservesI)
  fix db r db' assume wf: "db_wf db" and run: "insert_equipped c slot t db = (r, db')"
  have "db_wf (db\<lparr>equipped := put_row (c, slot) t (equipped db)\<rparr>)" if "has_row (characters db) c"
    using db_wf_unique(5) [OF wf] wf that
    by (intro db_wf_equipped_update) (auto simp: db_wf_def character_refs_wf_def)
  with run wf show "db_wf db'" by (auto simp: insert_equipped_def split: if_splits)
qed

lemma pres_unequip_inner [pres_intros]: "preserves db_wf (unequip_inner st c slot t sch)"
  unfolding unequip_inner_def by (intro pres_intros)

lemma pres_unequip_item [pres_intros]: "preserves db_wf (unequip_item st c slot sch)"
  unfolding unequip_item_def by (intro pres_intros)

lemma pres_displace [pres_intros]: "preserves db_wf (displace st c slot sch)"
  unfolding displace_def by (intro pres_intros)

lemma pres_equip_item [pres_intros]: "preserves db_wf (equip_item st c t sch)"
  unfolding equip_item_def Let_def by (intro pres_intros)

section \<open>Items are neither lost nor duplicated\<close>

text \<open>What a character owns of an item type: carried plus worn.\<close>

definition owned :: "db \<Rightarrow> character_id \<Rightarrow> string \<Rightarrow> int" where
  "owned db c t = qty db c t + count_where (\<lambda>k v. fst k = c \<and> v = t) (equipped db)"

lemma owned_characters [simp]: "owned (db\<lparr>characters := u\<rparr>) = owned db"
  by (simp add: owned_def fun_eq_iff)

lemma owned_cong: "qty db' = qty db \<Longrightarrow> equipped db' = equipped db \<Longrightarrow> owned db' = owned db"
  by (simp add: owned_def fun_eq_iff)

lemma count_where_put_row_new:
  "\<not> has_row t k \<Longrightarrow> count_where P (put_row k v t) = count_where P t + (if P k v then 1 else 0)"
  by (induction t) (auto simp: put_row_def has_row_def split: if_splits)

lemma unequip_inner_outcome:
  assumes wf: "db_wf db" and row: "map_of (equipped db) (c, slot) = Some t"
    and run: "unequip_inner st c slot t sch db = (r, db')"
  shows "owned db' = owned db"
    and "\<And>x. r = Inr x \<Longrightarrow> map_of (equipped db') = (map_of (equipped db))((c, slot) := None)"
proof -
  obtain r1 d1 where 1: "apply_stat_deltas st c (map (\<lambda>(k, d). (k, neg_i64 d)) (worn_deltas sch t)) [] db
      = (r1, d1)" by force
  obtain u where u: "d1 = db\<lparr>characters := u\<rparr>" using apply_stat_deltas_frame [OF 1] by blast
  obtain r2 d2 where 2: "grant_item st c t 1 d1 = (r2, d2)" by force
  have "owned db' = owned db
    \<and> (\<forall>x. r = Inr x \<longrightarrow> map_of (equipped db') = (map_of (equipped db))((c, slot) := None))"
  proof (cases "\<exists>ch q. r1 = Inr ch \<and> r2 = Inr q")
    case False
    then show ?thesis
      using run 1 2 u by (cases r1; cases r2)
        (auto simp: unequip_inner_def andThen_apply dest: grant_item_err)
  next
    case True
    then obtain q where up: "upsert_item_add c t 1 d1 = (Inr q, d2)" using 2 by (auto dest: grant_item_ok)
    note g = upsert_item_add_ok [OF up]
    obtain v where v: "d2 = d1\<lparr>items := v\<rparr>" using g(5) by blast
    have db': "db' = d2\<lparr>equipped := del_row (c, slot) (equipped d2)\<rparr>" and "\<exists>x. r = Inr x"
      using run 1 2 True by (auto simp: unequip_inner_def andThen_apply delete_equipped_def
          execute_def ok_def)
    have eqs: "equipped d2 = equipped db" "qty db' = qty d2" by (simp_all add: v u db')
    have "owned db' c' t' = owned db c' t'" for c' t'
      using g(1,4) row count_where_del_row [OF db_wf_unique(5) [OF wf]]
      by (auto simp: owned_def eqs) (auto simp: db' eqs u)
    then show ?thesis by (simp add: fun_eq_iff db' eqs)
  qed
  then show "owned db' = owned db"
    and "\<And>x. r = Inr x \<Longrightarrow> map_of (equipped db') = (map_of (equipped db))((c, slot) := None)"
    by blast+
qed

lemma displace_outcome:
  assumes wf: "db_wf db" and run: "displace st c slot sch db = (r, db')"
  shows "owned db' = owned db"
    and "\<And>x. r = Inr x \<Longrightarrow> map_of (equipped db') = (map_of (equipped db))((c, slot) := None)"
proof -
  have "owned db' = owned db
    \<and> (\<forall>x. r = Inr x \<longrightarrow> map_of (equipped db') = (map_of (equipped db))((c, slot) := None))"
  proof (cases "map_of (equipped db) (c, slot)")
    case None
    then have "map_of (equipped db) = (map_of (equipped db))((c, slot) := None)"
      by (simp add: fun_eq_iff)
    with None run show ?thesis by (simp add: displace_def equipped_in_slot_def)
  next
    case (Some t)
    obtain r1 d1 where 1: "unequip_inner st c slot t sch db = (r1, d1)" by force
    show ?thesis
      using run Some 1 unequip_inner_outcome [OF wf Some 1]
      by (cases r1) (auto simp: displace_def equipped_in_slot_def andThen_apply)
  qed
  then show "owned db' = owned db"
    and "\<And>x. r = Inr x \<Longrightarrow> map_of (equipped db') = (map_of (equipped db))((c, slot) := None)"
    by blast+
qed

lemma remove_item_err: "db_wf db \<Longrightarrow> remove_item c t n db = (Inl e, db') \<Longrightarrow> db' = db"
  by (auto simp: remove_item_apply split: if_splits)

text \<open>Taking one item out of the inventory and recording it in a free slot.\<close>

lemma wear_outcome:
  assumes wf: "db_wf db" and free: "map_of (equipped db) (c, slot) = None"
    and run: "andThen (remove_item c t 1) (\<lambda>n. andThen (insert_equipped c slot t) (\<lambda>_. ok (f n))) db
      = (r, db')"
  shows "owned db' = owned db"
    and "\<And>x. r = Inr x \<Longrightarrow> map_of (equipped db') = (map_of (equipped db))((c, slot) \<mapsto> t)"
proof -
  have "owned db' = owned db
    \<and> (\<forall>x. r = Inr x \<longrightarrow> map_of (equipped db') = (map_of (equipped db))((c, slot) \<mapsto> t))"
  proof (cases "remove_item c t 1 db")
    case (Pair r1 d1)
    show ?thesis
    proof (cases r1)
      case (Inl e)
      then show ?thesis
        using run Pair remove_item_err [OF wf, of c t 1 e d1] by (auto simp: andThen_apply)
    next
      case (Inr n)
      with Pair have rm: "remove_item c t 1 db = (Inr n, d1)" by simp
      note g = remove_item_ok [OF rm wf]
      obtain v where v: "d1 = db\<lparr>items := v\<rparr>" using g(5) by blast
      have "has_row (items db) (c, t)" using g(2) qty_pos_iff [OF wf, of c t] by simp
      then have ch: "has_row (characters db) c"
        using db_wf_item_row [OF wf] by (auto simp: has_row_def)
      have db': "db' = d1\<lparr>equipped := put_row (c, slot) t (equipped d1)\<rparr>" and "\<exists>x. r = Inr x"
        using run rm ch by (auto simp: andThen_apply insert_equipped_def v ok_def)
      have nr: "\<not> has_row (equipped db) (c, slot)" using free by (simp add: has_row_def)
      have eqs: "equipped d1 = equipped db" "qty db' = qty d1" by (simp_all add: v db')
      have "owned db' c' t' = owned db c' t'" for c' t'
        using g(3,4) count_where_put_row_new [OF nr]
        by (auto simp: owned_def eqs) (auto simp: db' eqs)
      then show ?thesis by (simp add: fun_eq_iff db' eqs)
    qed
  qed
  then show "owned db' = owned db"
    and "\<And>x. r = Inr x \<Longrightarrow> map_of (equipped db') = (map_of (equipped db))((c, slot) \<mapsto> t)"
    by blast+
qed

lemma equip_item_outcome:
  assumes wf: "db_wf db" and run: "equip_item st c t sch db = (r, db')"
  shows "owned db' = owned db"
    and "\<And>x. r = Inr x \<Longrightarrow> \<exists>declared. resolve_equippable sch t = Inr declared
      \<and> map_of (equipped db') = (map_of (equipped db))((c, eq_slot declared) \<mapsto> t)"
proof -
  have "owned db' = owned db \<and> (\<forall>x. r = Inr x \<longrightarrow> (\<exists>declared. resolve_equippable sch t = Inr declared
      \<and> map_of (equipped db') = (map_of (equipped db))((c, eq_slot declared) \<mapsto> t)))"
  proof (cases "\<exists>declared. resolve_equippable sch t = Inr declared \<and> 1 \<le> qty db c t")
    case False
    then show ?thesis using run
      by (auto simp: equip_item_def Let_def split: sum.splits if_splits)
  next
    case True
    then obtain declared where d: "resolve_equippable sch t = Inr declared" and q: "1 \<le> qty db c t"
      by blast
    let ?slot = "eq_slot declared"
    obtain r1 d1 where 1: "displace st c ?slot sch db = (r1, d1)" by force
    note o1 = displace_outcome [OF wf 1]
    have w1: "db_wf d1" by (rule preservesD [OF pres_displace wf 1])
    show ?thesis
    proof (cases r1)
      case (Inl e)
      then show ?thesis
        using run d q 1 o1(1) by (auto simp: equip_item_def Let_def andThen_apply)
    next
      case (Inr chs)
      obtain scs ics where chs: "chs = (scs, ics)" by force
      obtain r2 d2 where 2: "apply_stat_deltas st c (eq_stat_deltas declared) scs d1 = (r2, d2)" by force
      obtain u where u: "d2 = d1\<lparr>characters := u\<rparr>" using apply_stat_deltas_frame [OF 2] by blast
      have w2: "db_wf d2" by (rule preservesD [OF pres_apply_stat_deltas w1 2])
      have free: "map_of (equipped d2) (c, ?slot) = None" using o1(2) [OF Inr] by (simp add: u)
      show ?thesis
      proof (cases r2)
        case (Inl e)
        then show ?thesis
          using run d q 1 Inr chs 2 o1(1) u
          by (auto simp: equip_item_def Let_def andThen_apply)
      next
        case r2: (Inr scs')
        have tail: "andThen (remove_item c t 1) (\<lambda>n. andThen (insert_equipped c ?slot t) (\<lambda>_.
            ok \<lparr>eo_slot = ?slot, eo_item_type = t, eo_stat_changes = scs',
                eo_item_changes = ics @ [(t, n)]\<rparr>)) d2 = (r, db')"
          using run d q 1 Inr chs 2 r2 by (simp add: equip_item_def Let_def andThen_apply)
        note o2 = wear_outcome [OF w2 free tail]
        show ?thesis using o1 [unfolded Inr] o2 d u by (auto simp: fun_eq_iff)
      qed
    qed
  qed
  then show "owned db' = owned db"
    and "\<And>x. r = Inr x \<Longrightarrow> \<exists>declared. resolve_equippable sch t = Inr declared
      \<and> map_of (equipped db') = (map_of (equipped db))((c, eq_slot declared) \<mapsto> t)"
    by blast+
qed

lemma unequip_item_outcome:
  assumes wf: "db_wf db" and run: "unequip_item st c slot sch db = (r, db')"
  shows "owned db' = owned db"
    and "\<And>x. r = Inr x \<Longrightarrow> map_of (equipped db') = (map_of (equipped db))((c, slot) := None)"
proof -
  have "owned db' = owned db
    \<and> (\<forall>x. r = Inr x \<longrightarrow> map_of (equipped db') = (map_of (equipped db))((c, slot) := None))"
  proof (cases "map_of (equipped db) (c, slot)")
    case None
    with run show ?thesis by (auto simp: unequip_item_def equipped_in_slot_def fail_def)
  next
    case (Some t)
    then have "unequip_inner st c slot t sch db = (r, db')"
      using run by (simp add: unequip_item_def equipped_in_slot_def)
    from unequip_inner_outcome [OF wf Some this] show ?thesis by blast
  qed
  then show "owned db' = owned db"
    and "\<And>x. r = Inr x \<Longrightarrow> map_of (equipped db') = (map_of (equipped db))((c, slot) := None)"
    by blast+
qed

section \<open>Taking off what was put on\<close>

lemma stat_of_equipped_frame: "characters db' = characters db \<Longrightarrow> stat_of st db' c k = stat_of st db c k"
  by (simp add: stat_of_def)

lemma unequip_inner_stats:
  assumes "unequip_inner st c slot t sch db = (Inr out, db')"
  shows "stat_of st db' c' k = raised
    (if c' = c then total_of (map (\<lambda>(k, d). (k, neg_i64 d)) (worn_deltas sch t)) k else 0)
    (stat_of st db c' k)"
proof -
  obtain ch q d1 d2 where
    1: "apply_stat_deltas st c (map (\<lambda>(k, d). (k, neg_i64 d)) (worn_deltas sch t)) [] db = (Inr ch, d1)"
    and 2: "grant_item st c t 1 d1 = (Inr q, d2)"
    and 3: "db' = d2\<lparr>equipped := del_row (c, slot) (equipped d2)\<rparr>"
    using assms by (auto simp: unequip_inner_def andThen_Inr delete_equipped_def)
  have eq: "characters db' = characters d1"
    using upsert_item_add_ok(5) [OF grant_item_ok(3) [OF 2]] by (auto simp: 3)
  then show ?thesis
    using apply_stat_deltas_stats [OF 1, of c' k] stat_of_equipped_frame [OF eq, of st c' k]
    by simp
qed

lemma equip_item_empty_stats:
  assumes wf: "db_wf db" and d: "resolve_equippable sch t = Inr declared"
    and free: "map_of (equipped db) (c, eq_slot declared) = None"
    and run: "equip_item st c t sch db = (Inr out, db')"
  shows "stat_of st db' c' k = raised
    (if c' = c then total_of (eq_stat_deltas declared) k else 0) (stat_of st db c' k)"
proof -
  obtain ch n d1 d2 where
    1: "apply_stat_deltas st c (eq_stat_deltas declared) [] db = (Inr ch, d1)"
    and 2: "remove_item c t 1 d1 = (Inr n, d2)"
    and 3: "insert_equipped c (eq_slot declared) t d2 = (Inr (), db')"
    using run free
    by (auto simp: equip_item_def d Let_def displace_def equipped_in_slot_def andThen_Inr
        split: if_splits)
  have "db_wf d1" by (rule preservesD [OF pres_apply_stat_deltas wf 1])
  from remove_item_ok(5) [OF 2 this] 3 have eq: "characters db' = characters d1"
    by (auto simp: insert_equipped_def split: if_splits)
  then show ?thesis
    using apply_stat_deltas_stats [OF 1, of c' k] stat_of_equipped_frame [OF eq, of st c' k]
    by simp
qed

lemma total_of_negated:
  "\<forall>(k, d) \<in> set ds. in_i64 d \<and> d \<noteq> i64_min \<Longrightarrow>
     total_of (map (\<lambda>(k, d). (k, neg_i64 d)) ds) k = - total_of ds k"
  by (induction ds k rule: total_of.induct) (auto simp: neg_i64_in)

text \<open>
  C36: Wearing and taking off never loses or duplicates an item. Whatever \<open>equip_item\<close> or
  \<open>unequip_item\<close> returns, the number of items of each type a character carries plus the number it
  wears is what it was, for every character and type, although neither operation is a transaction
  and an equip may fail after it displaced the slot's occupant. On success the slot holds the
  new item, or nothing, and no other slot changed.
\<close>

theorem equipment_conserves_items:
  assumes "db_wf db"
  shows "(\<forall>r db'. equip_item st c t sch db = (r, db') \<longrightarrow> db_wf db' \<and> owned db' = owned db
      \<and> (\<forall>out. r = Inr out \<longrightarrow> (\<exists>declared. resolve_equippable sch t = Inr declared
          \<and> map_of (equipped db') = (map_of (equipped db))((c, eq_slot declared) \<mapsto> t))))
    \<and> (\<forall>r db'. unequip_item st c slot sch db = (r, db') \<longrightarrow> db_wf db' \<and> owned db' = owned db
      \<and> (\<forall>out. r = Inr out \<longrightarrow>
          map_of (equipped db') = (map_of (equipped db))((c, slot) := None)))"
proof (intro conjI allI impI, goal_cases)
  case (1 r db')
  then show ?case by (rule preservesD [OF pres_equip_item assms])
next
  case (2 r db')
  then show ?case by (rule equip_item_outcome(1) [OF assms])
next
  case (3 r db' out)
  then show ?case by (rule equip_item_outcome(2) [OF assms])
next
  case (4 r db')
  then show ?case by (rule preservesD [OF pres_unequip_item assms])
next
  case (5 r db')
  then show ?case by (rule unequip_item_outcome(1) [OF assms])
next
  case (6 r db' out)
  then show ?case by (rule unequip_item_outcome(2) [OF assms])
qed

definition sample_equip :: "(error + equip_outcome) \<times> db" where
  "sample_equip = equip_item sample_store (Id 1) ''sword'' sample_equipment sample_db"

definition sample_unequip :: "(error + equip_outcome) \<times> db" where
  "sample_unequip = unequip_item sample_store (Id 1) ''hand'' sample_equipment (snd sample_equip)"

lemma sample_equip_ok:
  "equip_item sample_store (Id 1) ''sword'' sample_equipment sample_db
     = (Inr (projr (fst sample_equip)), snd sample_equip)"
proof -
  have "\<not> isl (fst (equip_item sample_store (Id 1) ''sword'' sample_equipment sample_db))"
    by code_simp
  from run_Inr [OF this] show ?thesis by (simp add: sample_equip_def)
qed

lemma sample_unequip_ok:
  "unequip_item sample_store (Id 1) ''hand'' sample_equipment (snd sample_equip)
     = (Inr (projr (fst sample_unequip)), snd sample_unequip)"
proof -
  have "\<not> isl (fst (unequip_item sample_store (Id 1) ''hand'' sample_equipment
      (snd (equip_item sample_store (Id 1) ''sword'' sample_equipment sample_db))))"
    by code_simp
  from run_Inr [OF this] show ?thesis by (simp add: sample_unequip_def sample_equip_def)
qed

lemma equipment_conserves_items_witness:
  "owned (snd sample_equip) (Id 1) ''sword'' = 1
   \<and> map_of (equipped (snd sample_equip)) (Id 1, ''hand'') = Some ''sword''"
proof -
  have "owned (snd sample_equip) = owned sample_db
    \<and> (\<exists>declared. resolve_equippable sample_equipment ''sword'' = Inr declared
        \<and> map_of (equipped (snd sample_equip))
          = (map_of (equipped sample_db))((Id 1, eq_slot declared) \<mapsto> ''sword''))"
    using equipment_conserves_items [OF sample_db_wf, of sample_store "Id 1" "''sword''"
        sample_equipment "''hand''"] sample_equip_ok by blast
  then show ?thesis
    by (auto simp: owned_def qty_def resolve_equippable_def sample_equipment_def)
qed

text \<open>
  Taking off an item undoes putting it on. If a character equips an item into a free slot and
  then unequips that slot, both successfully, every stat of every character reads as it did
  before, every quantity is what it was, and every slot is as it was; this needs only that no
  declared delta is \<^verbatim>\<open>i64::MIN\<close>, whose negation wraps.
\<close>

theorem equip_unequip_round_trip:
  assumes "db_wf db" "resolve_equippable sch t = Inr declared"
    "map_of (equipped db) (c, eq_slot declared) = None"
    "\<forall>(k, d) \<in> set (eq_stat_deltas declared). in_i64 d \<and> d \<noteq> i64_min"
    "equip_item st c t sch db = (Inr on, d1)"
    "unequip_item st c (eq_slot declared) sch d1 = (Inr off, d2)"
  shows "(\<forall>c' k. stat_of st d2 c' k = stat_of st db c' k) \<and> qty d2 = qty db
    \<and> map_of (equipped d2) = map_of (equipped db)"
proof -
  have w1: "db_wf d1" by (rule preservesD [OF pres_equip_item assms(1,5)])
  have w2: "db_wf d2" by (rule preservesD [OF pres_unequip_item w1 assms(6)])
  note o1 = equip_item_outcome [OF assms(1,5)] and o2 = unequip_item_outcome [OF w1 assms(6)]
  have m1: "map_of (equipped d1) = (map_of (equipped db))((c, eq_slot declared) \<mapsto> t)"
    using o1(2) assms(2) by auto
  then have "unequip_inner st c (eq_slot declared) t sch d1 = (Inr off, d2)"
    using assms(6) by (simp add: unequip_item_def equipped_in_slot_def)
  note s2 = unequip_inner_stats [OF this]
  have "stat_of st d2 c' k = stat_of st db c' k" for c' k
    using s2 [of c' k] equip_item_empty_stats [OF assms(1-3,5), of c' k] assms(2)
    by (simp add: worn_deltas_def total_of_negated [OF assms(4)])
  moreover have m2: "map_of (equipped d2) = map_of (equipped db)"
    using o2(2) m1 assms(3) by (auto simp: fun_eq_iff)
  moreover have "qty d2 = qty db"
  proof -
    have "count_where P (equipped d2) = count_where P (equipped db)" for P
      using count_where_cong_map [OF db_wf_unique(5) [OF w2] db_wf_unique(5) [OF assms(1)] m2] .
    then have "qty d2 c' t' = qty db c' t'" for c' t'
      using fun_cong [OF fun_cong [OF trans [OF o2(1) o1(1)], of c'], of t']
      by (simp add: owned_def)
    then show ?thesis by (simp add: fun_eq_iff)
  qed
  ultimately show ?thesis by blast
qed

lemma equip_unequip_round_trip_witness:
  "stat_of sample_store (snd sample_unequip) (Id 1) ''hp'' = Inr 40
   \<and> qty (snd sample_unequip) (Id 1) ''sword'' = 1"
proof -
  have d: "resolve_equippable sample_equipment ''sword'' = Inr (hd (eq_items sample_equipment))"
    by (simp add: resolve_equippable_def sample_equipment_def)
  have slot: "eq_slot (hd (eq_items sample_equipment)) = ''hand''"
    by (simp add: sample_equipment_def)
  have "(\<forall>c' k. stat_of sample_store (snd sample_unequip) c' k = stat_of sample_store sample_db c' k)
    \<and> qty (snd sample_unequip) = qty sample_db
    \<and> map_of (equipped (snd sample_unequip)) = map_of (equipped sample_db)"
    by (rule equip_unequip_round_trip [OF sample_db_wf d _ _ sample_equip_ok
          sample_unequip_ok [folded slot]])
      (simp_all add: sample_equipment_def in_i64_iff i64_min_def)
  moreover have "stat_of sample_store sample_db (Id 1) ''hp'' = Inr 40" by code_simp
  ultimately show ?thesis by (simp add: qty_def)
qed

end
