(* ===== verification/CraftingSchema.thy ===== *)
theory CraftingSchema
  imports EquipmentSchema Database
begin

text \<open>
  \<^verbatim>\<open>crafting_schema.rs\<close>: declared recipes with their inputs, output, stat requirements and stat
  grants, and the loader's validation against the item catalog and the attribute schema. A
  grant's \<^verbatim>\<open>chance\<close> is an \<^verbatim>\<open>f64\<close>, kept as the word of its bits.
\<close>

record crafting_input =
  in_item_type :: string
  in_amount :: i64

record crafting_output =
  out_item_type :: string
  out_amount :: i64

record stat_requirement =
  req_stat :: string
  req_min :: i64

record stat_grant =
  gr_stat :: string
  gr_amount :: i64
  gr_below :: "i64 option"
  gr_chance :: "f64 option"

record recipe =
  rc_key :: string
  rc_category :: string
  rc_inputs :: "crafting_input list"
  rc_output :: crafting_output
  rc_requires :: "stat_requirement list"
  rc_grants :: "stat_grant list"

record crafting_schema =
  cr_schema_version :: u32
  cr_recipes :: "recipe list"

definition tag_craftable_output :: string where
  "tag_craftable_output = ''craftable_output''"

text \<open>
  \<^verbatim>\<open>chance > 0.0 && chance <= 1.0\<close> on the bits of a double: positive doubles are ordered as their
  bit patterns are, \<^verbatim>\<open>1.0\<close> is \<^verbatim>\<open>0x3FF0000000000000\<close>, and a negative number (sign bit set), an
  infinity or a NaN lies above it.
\<close>

definition chance_in_range :: "f64 \<Rightarrow> bool" where
  "chance_in_range w \<longleftrightarrow> 0 < w \<and> w \<le> 0x3FF0000000000000"

definition check_input :: "known_item_types \<Rightarrow> string \<Rightarrow> crafting_input \<Rightarrow> error + unit" where
  "check_input known key inp =
     try_then (ensure (\<not> in_amount inp \<le> 0)
       (Schema (InputAmountNotPositive key (in_amount inp) (in_item_type inp)))) (\<lambda>_.
     check_known known (in_item_type inp))"

definition check_requirement :: "attribute_schema \<Rightarrow> string \<Rightarrow> stat_requirement \<Rightarrow> error + unit" where
  "check_requirement attrs key req =
     ensure (declares attrs (req_stat req)) (Schema (RequiresUnknownStat key (req_stat req)))"

definition check_grant :: "attribute_schema \<Rightarrow> string \<Rightarrow> stat_grant \<Rightarrow> error + unit" where
  "check_grant attrs key gr =
     try_then (ensure (declares attrs (gr_stat gr))
       (Schema (GrantsUnknownStat key (gr_stat gr)))) (\<lambda>_.
     case gr_chance gr of
       None \<Rightarrow> Inr ()
     | Some chance \<Rightarrow> ensure (chance_in_range chance)
         (Schema (ChanceOutOfRange key (gr_stat gr))))"

definition check_recipe ::
  "attribute_schema \<Rightarrow> known_item_types \<Rightarrow> recipe \<Rightarrow> error + unit" where
  "check_recipe attrs known r =
     try_then (ensure (\<not> rc_inputs r = []) (Schema (NoInputs (rc_key r)))) (\<lambda>_.
     try_then (check_all (check_input known (rc_key r)) (rc_inputs r)) (\<lambda>_.
     try_then (ensure (\<not> out_amount (rc_output r) \<le> 0)
       (Schema (OutputAmountNotPositive (rc_key r) (out_amount (rc_output r))))) (\<lambda>_.
     try_then (check_known known (out_item_type (rc_output r))) (\<lambda>_.
     try_then (check_tagged known (out_item_type (rc_output r)) tag_craftable_output) (\<lambda>_.
     try_then (check_all (check_requirement attrs (rc_key r)) (rc_requires r)) (\<lambda>_.
     check_all (check_grant attrs (rc_key r)) (rc_grants r)))))))"

definition crafting_from_yaml ::
  "(string \<Rightarrow> crafting_schema option) \<Rightarrow> string \<Rightarrow> attribute_schema \<Rightarrow> known_item_types
     \<Rightarrow> error + crafting_schema" where
  "crafting_from_yaml parse input attrs known =
     try_then (ok_or_else (parse input) (Schema ParseFailed)) (\<lambda>schema.
     try_then (ensure (\<not> cr_recipes schema = []) (Schema EmptySchema)) (\<lambda>_.
     try_then (check_unique rc_key (\<lambda>k. Schema (DuplicateKey k)) (check_recipe attrs known) {}
       (cr_recipes schema)) (\<lambda>_.
     Inr schema)))"

definition resolve_recipe :: "crafting_schema \<Rightarrow> string \<Rightarrow> error + recipe" where
  "resolve_recipe sch key =
     ok_or_else (find_by rc_key (cr_recipes sch) key) (Schema (UnknownRecipe key))"

section \<open>What the loader accepts\<close>

definition grant_ok :: "attribute_schema \<Rightarrow> stat_grant \<Rightarrow> bool" where
  "grant_ok attrs gr \<longleftrightarrow> declares attrs (gr_stat gr)
     \<and> (case gr_chance gr of None \<Rightarrow> True | Some chance \<Rightarrow> chance_in_range chance)"

definition recipe_ok :: "attribute_schema \<Rightarrow> known_item_types \<Rightarrow> recipe \<Rightarrow> bool" where
  "recipe_ok attrs known r \<longleftrightarrow>
     rc_inputs r \<noteq> []
     \<and> (\<forall>i \<in> set (rc_inputs r). 0 < in_amount i \<and> in_catalog known (in_item_type i))
     \<and> 0 < out_amount (rc_output r)
     \<and> has_tag known (out_item_type (rc_output r)) tag_craftable_output
     \<and> (\<forall>q \<in> set (rc_requires r). declares attrs (req_stat q))
     \<and> (\<forall>g \<in> set (rc_grants r). grant_ok attrs g)"

definition crafting_schema_ok ::
  "attribute_schema \<Rightarrow> known_item_types \<Rightarrow> crafting_schema \<Rightarrow> bool" where
  "crafting_schema_ok attrs known sch \<longleftrightarrow>
     cr_recipes sch \<noteq> [] \<and> distinct (map rc_key (cr_recipes sch))
     \<and> (\<forall>r \<in> set (cr_recipes sch). recipe_ok attrs known r)"

lemma check_grant_ok: "check_grant attrs key gr = Inr () \<longleftrightarrow> grant_ok attrs gr"
  by (auto simp: check_grant_def grant_ok_def split: option.split)

lemma check_recipe_ok: "check_recipe attrs known r = Inr () \<longleftrightarrow> recipe_ok attrs known r"
  by (auto simp: check_recipe_def recipe_ok_def check_all_ok check_grant_ok check_input_def
      check_requirement_def check_known_def check_tagged_def has_tag_in_catalog not_le)

lemma crafting_from_yaml_Inr:
  "crafting_from_yaml parse input attrs known = Inr sch \<longleftrightarrow>
     parse input = Some sch \<and> crafting_schema_ok attrs known sch"
  by (auto simp: crafting_from_yaml_def crafting_schema_ok_def check_unique_ok_empty check_recipe_ok)

text \<open>
  The recipe loader accepts exactly the sound schemas: at least one recipe, no repeated
  recipe key, and per recipe at least one input, positive amounts, catalogued inputs, an output
  the catalog tags as craftable, declared stats in every requirement and grant, and chances in
  \<open>(0, 1]\<close>. In a loaded schema \<open>resolve\<close> finds every declared recipe, and an undeclared key is
  an error.
\<close>

theorem crafting_loader_sound_complete:
  "(crafting_from_yaml parse input attrs known = Inr sch \<longleftrightarrow>
      parse input = Some sch \<and> crafting_schema_ok attrs known sch)
   \<and> (crafting_schema_ok attrs known sch \<longrightarrow>
      (\<forall>r \<in> set (cr_recipes sch). resolve_recipe sch (rc_key r) = Inr r))
   \<and> (key \<notin> rc_key ` set (cr_recipes sch) \<longrightarrow>
      resolve_recipe sch key = Inl (Schema (UnknownRecipe key)))"
  by (auto simp: crafting_from_yaml_Inr crafting_schema_ok_def resolve_recipe_def
      find_by_distinct ok_or_else_def find_by_None [THEN iffD2])

definition sample_recipe :: recipe where
  "sample_recipe = \<lparr>rc_key = ''plank'', rc_category = ''wood'',
     rc_inputs = [\<lparr>in_item_type = ''wood'', in_amount = 2\<rparr>],
     rc_output = \<lparr>out_item_type = ''plank'', out_amount = 4\<rparr>,
     rc_requires = [\<lparr>req_stat = ''hp'', req_min = 10\<rparr>],
     rc_grants = [\<lparr>gr_stat = ''hp'', gr_amount = 500, gr_below = None,
        gr_chance = Some 0x3FE0000000000000\<rparr>]\<rparr>"

definition sample_crafting :: crafting_schema where
  "sample_crafting = \<lparr>cr_schema_version = 1, cr_recipes = [sample_recipe]\<rparr>"

lemma sample_recipe_ok: "recipe_ok sample_attrs sample_catalog sample_recipe"
  by (simp add: recipe_ok_def grant_ok_def sample_recipe_def sample_catalog_def sample_attrs_def
      has_tag_def in_catalog_def tag_craftable_output_def declares_iff chance_in_range_def)

lemma crafting_loader_sound_complete_witness:
  "crafting_from_yaml (\<lambda>_. Some sample_crafting) ''recipes'' sample_attrs sample_catalog
     = Inr sample_crafting
   \<and> resolve_recipe sample_crafting ''nails'' = Inl (Schema (UnknownRecipe ''nails''))"
  using crafting_loader_sound_complete [of "\<lambda>_. Some sample_crafting" "''recipes''"
      sample_attrs sample_catalog sample_crafting "''nails''"] sample_recipe_ok
  by (simp add: sample_crafting_def crafting_schema_ok_def sample_recipe_def)

end
