(* ===== verification/Crafting.thy ===== *)
theory Crafting
  imports CraftingSchema Inventory Samples
begin

text \<open>
  \<^verbatim>\<open>crafting.rs\<close>: one craft as one transaction. \<^verbatim>\<open>random_bool\<close> is third-party code: its answer
  for the \<open>i\<close>-th grant's chance is the argument \<open>roll i chance\<close>, and the theorems hold for every
  \<open>roll\<close>.
\<close>

record craft_outcome =
  co_item_changes :: "(string \<times> i64) list"
  co_stat_changes :: "(string \<times> i64) list"

definition check_requires :: "character_store \<Rightarrow> character_id \<Rightarrow> recipe \<Rightarrow> unit sql" where
  "check_requires st c r = for_each (\<lambda>req _.
     andThen (get_stat st c (req_stat req)) (\<lambda>current.
     require (\<not> current < req_min req)
       (Store (CraftRequirementNotMet (rc_key r) (req_stat req) (req_min req) current))))
     (rc_requires r) ()"

definition read_inputs :: "character_id \<Rightarrow> string \<Rightarrow> crafting_input list \<Rightarrow> i64 list \<Rightarrow> i64 list sql" where
  "read_inputs c key inputs currents = for_each (\<lambda>inp acc.
     andThen (select_quantity c (in_item_type inp)) (\<lambda>found.
     let current = (case found of None \<Rightarrow> 0 | Some q \<Rightarrow> q) in
     andThen (require (\<not> current < in_amount inp)
       (Store (CraftInputMissing key (in_amount inp) (in_item_type inp) current))) (\<lambda>_.
     ok (acc @ [current]))))
     inputs currents"

definition check_output_room :: "character_store \<Rightarrow> character_id \<Rightarrow> string \<Rightarrow> unit sql" where
  "check_output_room st c t =
     andThen (query (\<lambda>db. has_row (items db) (c, t))) (\<lambda>output_already_owned.
     if \<not> output_already_owned then
       andThen (count_stacks c) (\<lambda>distinct_count.
         let mx = int (max_distinct_item_types (st_inventory_config st)) in
         require (\<not> distinct_count \<ge> mx) (Store (InventoryFull distinct_count mx)))
     else ok ())"

definition consume_inputs ::
  "character_id \<Rightarrow> (crafting_input \<times> i64) list \<Rightarrow> (string \<times> i64) list \<Rightarrow> (string \<times> i64) list sql" where
  "consume_inputs c pairs results = for_each (\<lambda>(inp, current) acc.
     let remaining = sub_i64 current (in_amount inp) in
     andThen (set_remaining c (in_item_type inp) remaining) (\<lambda>_.
     ok (acc @ [(in_item_type inp, remaining)])))
     pairs results"

definition apply_grant ::
  "character_store \<Rightarrow> (nat \<Rightarrow> f64 \<Rightarrow> bool) \<Rightarrow> character_id \<Rightarrow> nat \<times> stat_grant
     \<Rightarrow> (string \<times> i64) list \<Rightarrow> (string \<times> i64) list sql" where
  "apply_grant st roll c = (\<lambda>(i, gr) acc.
     andThen (case gr_below gr of
         None \<Rightarrow> ok False
       | Some below \<Rightarrow> andThen (get_stat_tx st c (gr_stat gr)) (\<lambda>current. ok (current \<ge> below)))
     (\<lambda>reached.
     if reached then ok acc
     else if (case gr_chance gr of None \<Rightarrow> False | Some chance \<Rightarrow> \<not> roll i chance) then ok acc
     else andThen (apply_stat_delta_clamped_tx st c (gr_stat gr) (gr_amount gr)) (\<lambda>new_value.
       ok (acc @ [(gr_stat gr, new_value)]))))"

definition apply_grants ::
  "character_store \<Rightarrow> (nat \<Rightarrow> f64 \<Rightarrow> bool) \<Rightarrow> character_id \<Rightarrow> (nat \<times> stat_grant) list
     \<Rightarrow> (string \<times> i64) list \<Rightarrow> (string \<times> i64) list sql" where
  "apply_grants st roll c grants changes = for_each (apply_grant st roll c) grants changes"

definition craft_tx ::
  "character_store \<Rightarrow> (nat \<Rightarrow> f64 \<Rightarrow> bool) \<Rightarrow> character_id \<Rightarrow> recipe \<Rightarrow> craft_outcome sql" where
  "craft_tx st roll c r =
     andThen (read_inputs c (rc_key r) (rc_inputs r) []) (\<lambda>current_quantities.
     andThen (check_output_room st c (out_item_type (rc_output r))) (\<lambda>_.
     andThen (consume_inputs c (zip (rc_inputs r) current_quantities) []) (\<lambda>results.
     andThen (upsert_item_add c (out_item_type (rc_output r)) (out_amount (rc_output r))) (\<lambda>q.
     andThen (apply_grants st roll c (enumerate 0 (rc_grants r)) []) (\<lambda>stat_changes.
     ok \<lparr>co_item_changes = results @ [(out_item_type (rc_output r), q)],
         co_stat_changes = stat_changes\<rparr>)))))"

definition craft_item ::
  "character_store \<Rightarrow> (nat \<Rightarrow> f64 \<Rightarrow> bool) \<Rightarrow> character_id \<Rightarrow> recipe \<Rightarrow> craft_outcome sql" where
  "craft_item st roll c r =
     andThen (check_requires st c r) (\<lambda>_. transaction (craft_tx st roll c r))"

section \<open>The reading half\<close>

lemma check_requires_Inr:
  "check_requires st c r db = (Inr u, db') \<longleftrightarrow> db' = db
     \<and> (\<forall>q \<in> set (rc_requires r). \<exists>v. stat_of st db c (req_stat q) = Inr v \<and> req_min q \<le> v)"
proof -
  have "for_each (\<lambda>req _. andThen (get_stat st c (req_stat req)) (\<lambda>current.
       require (\<not> current < req_min req) (f req current))) qs u' db = (Inr u, db') \<longleftrightarrow> db' = db
     \<and> (\<forall>q \<in> set qs. \<exists>v. stat_of st db c (req_stat q) = Inr v \<and> req_min q \<le> v)"
    for qs u' and f :: "stat_requirement \<Rightarrow> i64 \<Rightarrow> error"
    by (induction qs arbitrary: u')
      (auto simp: andThen_Inr require_def ok_def fail_def not_less split: if_splits sum.splits)
  then show ?thesis by (simp add: check_requires_def)
qed

lemma check_requires_Inl: "check_requires st c r db = (Inl e, db') \<Longrightarrow> db' = db"
proof -
  have "for_each (\<lambda>req _. andThen (get_stat st c (req_stat req)) (\<lambda>current.
       require (\<not> current < req_min req) (f req current))) qs u' db = (Inl e, db') \<Longrightarrow> db' = db"
    for qs u' and f :: "stat_requirement \<Rightarrow> i64 \<Rightarrow> error"
    by (induction qs arbitrary: u')
      (auto simp: andThen_Inl require_def ok_def fail_def split: if_splits sum.splits)
  then show "check_requires st c r db = (Inl e, db') \<Longrightarrow> db' = db"
    by (simp add: check_requires_def)
qed

lemma read_inputs_Inr:
  "read_inputs c key inputs acc db = (Inr currents, db') \<longleftrightarrow> db' = db
     \<and> currents = acc @ map (\<lambda>i. qty db c (in_item_type i)) inputs
     \<and> (\<forall>i \<in> set inputs. in_amount i \<le> qty db c (in_item_type i))"
proof (induction inputs arbitrary: acc)
  case (Cons i inputs)
  have "read_inputs c key (i # inputs) acc db =
      (if qty db c (in_item_type i) < in_amount i
       then (Inl (Store (CraftInputMissing key (in_amount i) (in_item_type i) (qty db c (in_item_type i)))), db)
       else read_inputs c key inputs (acc @ [qty db c (in_item_type i)]) db)"
    by (auto simp: read_inputs_def qty_def andThen_apply Let_def require_def ok_def fail_def
        split: option.split)
  then show ?case using Cons.IH by (auto simp: not_less)
qed (auto simp: read_inputs_def)

lemma check_output_room_Inr:
  "check_output_room st c t db = (Inr u, db') \<longleftrightarrow> db' = db
     \<and> (has_row (items db) (c, t) \<or> stacks db c < int (max_distinct_item_types (st_inventory_config st)))"
  by (auto simp: check_output_room_def Let_def require_def ok_def fail_def not_le)

section \<open>The consuming half\<close>

definition input_list :: "crafting_input list \<Rightarrow> (string \<times> i64) list" where
  "input_list inputs = map (\<lambda>i. (in_item_type i, in_amount i)) inputs"

lemma input_list_simps [simp]:
  "input_list [] = []"
  "input_list (i # inputs) = (in_item_type i, in_amount i) # input_list inputs"
  "fst ` set (input_list inputs) = in_item_type ` set inputs"
  by (auto simp: input_list_def image_image)

lemma set_remaining_succeeds:
  "db_wf db \<Longrightarrow> 0 \<le> r \<Longrightarrow> in_i64 r \<Longrightarrow> \<exists>db'. set_remaining c t r db = (Inr (), db')"
  by (auto simp: set_remaining_def update_item_quantity_def item_row_ok_def split: option.split)

definition inputs_held :: "character_id \<Rightarrow> crafting_input list \<Rightarrow> db \<Rightarrow> bool" where
  "inputs_held c inputs db \<longleftrightarrow>
     (\<forall>i \<in> set inputs. 0 < in_amount i \<and> in_amount i \<le> qty db c (in_item_type i))"

text \<open>With different item types, every input is consumed in full.\<close>

lemma consume_inputs_ok:
  assumes "distinct (map in_item_type inputs)" "db_wf db" "inputs_held c inputs db"
  shows "\<exists>res db'. consume_inputs c (zip inputs (map (\<lambda>i. qty db c (in_item_type i)) inputs)) acc db
      = (Inr res, db')
    \<and> qty db' = (\<lambda>c' t. qty db c' t - (if c' = c then total_of (input_list inputs) t else 0))
    \<and> (\<exists>u. db' = db\<lparr>items := u\<rparr>) \<and> db_wf db'"
  using assms
proof (induction inputs arbitrary: acc db)
  case Nil
  then show ?case by (auto simp: consume_inputs_def fun_eq_iff intro: exI [of _ "items db"])
next
  case (Cons i inputs)
  let ?t = "in_item_type i" and ?r = "qty db c (in_item_type i) - in_amount i"
  have amt: "0 < in_amount i" "in_amount i \<le> qty db c ?t"
    using Cons.prems(3) by (simp_all add: inputs_held_def)
  have r: "0 \<le> ?r" "in_i64 ?r"
    using amt qty_in_i64 [OF Cons.prems(2), of c ?t] by (simp_all add: in_i64_iff)
  obtain d1 where sr: "set_remaining c ?t ?r db = (Inr (), d1)"
    using set_remaining_succeeds [OF Cons.prems(2) r] by blast
  have row: "has_row (items db) (c, ?t)" using amt qty_pos_iff [OF Cons.prems(2), of c ?t] by simp
  note one = set_remaining_ok [OF sr row Cons.prems(2)]
  have w1: "db_wf d1" by (rule preservesD [OF pres_set_remaining Cons.prems(2) sr])
  have other: "qty d1 c (in_item_type j) = qty db c (in_item_type j)" if "j \<in> set inputs" for j
    using Cons.prems(1) that one(1) by (auto simp: image_iff)
  then have held: "inputs_held c inputs d1"
    using Cons.prems(3) by (simp add: inputs_held_def)
  obtain res db' where IH: "consume_inputs c (zip inputs (map (\<lambda>j. qty d1 c (in_item_type j)) inputs))
      (acc @ [(?t, ?r)]) d1 = (Inr res, db')"
    "qty db' = (\<lambda>c' t. qty d1 c' t - (if c' = c then total_of (input_list inputs) t else 0))"
    "\<exists>u. db' = d1\<lparr>items := u\<rparr>" "db_wf db'"
    using Cons.IH [OF _ w1 held, of "acc @ [(?t, ?r)]"] Cons.prems(1) by auto
  have "total_of (input_list inputs) ?t = 0"
    by (rule total_of_absent) (use Cons.prems(1) in simp)
  moreover have "consume_inputs c (zip (i # inputs) (map (\<lambda>i. qty db c (in_item_type i)) (i # inputs)))
      acc db = (Inr res, db')"
    using IH(1) sr r
    by (simp add: consume_inputs_def andThen_apply Let_def other cong: map_cong)
  ultimately show ?case
    using IH(2-4) one(1,3) by (auto simp: fun_eq_iff)
qed

section \<open>Grants\<close>

definition stats_moved :: "character_store \<Rightarrow> character_id \<Rightarrow> string set \<Rightarrow> db \<Rightarrow> db \<Rightarrow> bool" where
  "stats_moved st c ks db db' \<longleftrightarrow> (\<forall>c' k v. stat_of st db c' k = Inr v \<longrightarrow>
     (\<exists>v'. stat_of st db' c' k = Inr v'
       \<and> (v' = v \<or> c' = c \<and> k \<in> ks
           \<and> (\<exists>decl. decl_of (st_schema st) k = Inr decl \<and> within_bounds decl v'))))"

lemma stats_moved_refl: "stats_moved st c ks db db"
  by (auto simp: stats_moved_def)

lemma stats_moved_trans:
  "stats_moved st c ks d1 d2 \<Longrightarrow> stats_moved st c ks' d2 d3 \<Longrightarrow> stats_moved st c (ks \<union> ks') d1 d3"
  unfolding stats_moved_def by (metis UnCI)

text \<open>One grant always goes through on a declared stat, skipped or clamped.\<close>

lemma apply_grant_ok:
  assumes sch: "attr_schema_ok (st_schema st)" and ch: "has_row (characters db) c"
    and decl: "declares (st_schema st) (gr_stat gr)"
  shows "\<exists>acc' db'. apply_grant st roll c (i, gr) acc db = (Inr acc', db')
    \<and> (\<exists>u. db' = db\<lparr>characters := u\<rparr>) \<and> has_row (characters db') c
    \<and> stats_moved st c {gr_stat gr} db db'"
proof -
  let ?k = "gr_stat gr"
  obtain d where d: "decl_of (st_schema st) ?k = Inr d"
    using decl by (auto simp: declares_def split: sum.splits)
  obtain row where row: "map_of (characters db) c = Some row" using ch by (auto simp: has_row_def)
  obtain cur where cur: "stat_of st db c ?k = Inr cur"
    using row d by (cases "stored_value (ch_stats row) ?k") (auto simp: stat_of_def resolve_read_def)
  let ?v = "clamp_decl d (saturating_add_i64 cur (gr_amount gr))"
  have ok: "decl_ok d" by (rule decl_of_ok [OF sch d])
  have v: "in_i64 ?v" by (rule clamp_decl_in_i64 [OF ok]) simp
  obtain db' where wr: "write_stat c ?k ?v db = (Inr (), db')" by (simp add: write_stat_def)
  then have run: "apply_stat_delta_clamped_tx st c ?k (gr_amount gr) db = (Inr ?v, db')"
    using cur d by (auto simp: apply_clamped_Inr)
  have "\<exists>u. db' = db\<lparr>characters := u\<rparr>" "has_row (characters db') c"
    using wr ch by (auto simp: write_stat_def)
  moreover have "stats_moved st c {?k} db db'"
    using stat_of_write [OF wr v ch d] clamp_decl_within [OF ok] d by (auto simp: stats_moved_def)
  moreover have "\<exists>u. db = db\<lparr>characters := u\<rparr>" by (rule exI [of _ "characters db"]) simp
  ultimately show ?thesis
    using run cur ch stats_moved_refl [of st c "{?k}" db]
    by (cases "gr_below gr"; cases "gr_chance gr")
      (auto simp: apply_grant_def andThen_apply ok_def)
qed

lemma apply_grants_ok:
  assumes "attr_schema_ok (st_schema st)" "has_row (characters db) c"
    "\<forall>g \<in> snd ` set grants. declares (st_schema st) (gr_stat g)"
  shows "\<exists>ch db'. apply_grants st roll c grants acc db = (Inr ch, db')
    \<and> (\<exists>u. db' = db\<lparr>characters := u\<rparr>)
    \<and> stats_moved st c (gr_stat ` snd ` set grants) db db'"
  using assms(2,3)
proof (induction grants arbitrary: acc db)
  case Nil
  then show ?case
    by (auto simp: apply_grants_def stats_moved_refl intro: exI [of _ "characters db"])
next
  case (Cons g grants)
  obtain i gr where g: "g = (i, gr)" by force
  obtain acc' d1 where 1: "apply_grant st roll c (i, gr) acc db = (Inr acc', d1)"
    "\<exists>u. d1 = db\<lparr>characters := u\<rparr>" "has_row (characters d1) c"
    "stats_moved st c {gr_stat gr} db d1"
    using apply_grant_ok [OF assms(1) Cons.prems(1), of gr roll i acc] Cons.prems(2)
    by (auto simp: g)
  obtain ch db' where 2: "apply_grants st roll c grants acc' d1 = (Inr ch, db')"
    "\<exists>u. db' = d1\<lparr>characters := u\<rparr>" "stats_moved st c (gr_stat ` snd ` set grants) d1 db'"
    using Cons.IH [OF 1(3), of acc'] Cons.prems(2) by auto
  show ?case
    using 1 2 stats_moved_trans [OF 1(4) 2(3)]
    by (auto simp: g apply_grants_def andThen_apply)
qed

section \<open>A whole craft\<close>

lemma pres_check_requires [pres_intros]: "preserves I (check_requires st c r)"
  unfolding check_requires_def
  by (rule pres_for_each) (auto intro!: pres_andThen pres_get_stat pres_require)

lemma pres_craft_tx [pres_intros]: "preserves db_wf (craft_tx st roll c r)"
proof -
  have r: "preserves db_wf (read_inputs c key inputs acc)" for key inputs acc
    unfolding read_inputs_def Let_def
    by (rule pres_for_each) (auto intro!: pres_intros)
  have o: "preserves db_wf (check_output_room st c t)" for t
    unfolding check_output_room_def Let_def by (intro pres_intros)
  have i: "preserves db_wf (consume_inputs c pairs acc)" for pairs acc
    unfolding consume_inputs_def Let_def
    by (rule pres_for_each) (auto intro!: pres_intros)
  have a: "preserves db_wf (apply_grant st roll c g acc)" for g acc
    unfolding apply_grant_def by (cases g) (auto intro!: pres_intros)
  have g: "preserves db_wf (apply_grants st roll c grants acc)" for grants acc
    unfolding apply_grants_def by (rule pres_for_each) (rule a)
  show ?thesis unfolding craft_tx_def by (intro pres_intros r o i g)
qed

lemma pres_craft_item [pres_intros]: "preserves db_wf (craft_item st roll c r)"
  unfolding craft_item_def by (intro pres_intros)

lemma craft_item_Inr:
  "craft_item st roll c r db = (Inr out, db') \<longleftrightarrow>
     check_requires st c r db = (Inr (), db) \<and> craft_tx st roll c r db = (Inr out, db')"
  by (auto simp: craft_item_def andThen_Inr check_requires_Inr)

text \<open>What must hold for a craft, and what the loader and the catalog promise of a recipe.\<close>

definition craft_ready :: "character_store \<Rightarrow> db \<Rightarrow> character_id \<Rightarrow> recipe \<Rightarrow> bool" where
  "craft_ready st db c r \<longleftrightarrow>
     (\<forall>q \<in> set (rc_requires r). \<exists>v. stat_of st db c (req_stat q) = Inr v \<and> req_min q \<le> v)
     \<and> (\<forall>i \<in> set (rc_inputs r). in_amount i \<le> qty db c (in_item_type i))
     \<and> (has_row (items db) (c, out_item_type (rc_output r))
         \<or> stacks db c < int (max_distinct_item_types (st_inventory_config st)))"

lemma craft_item_ready: "craft_item st roll c r db = (Inr out, db') \<Longrightarrow> craft_ready st db c r"
  by (auto simp: craft_item_Inr craft_ready_def check_requires_Inr craft_tx_def andThen_Inr
      read_inputs_Inr check_output_room_Inr)

text \<open>What one craft changes in the quantities.\<close>

definition craft_delta :: "recipe \<Rightarrow> string \<Rightarrow> int" where
  "craft_delta r t = (if t = out_item_type (rc_output r) then out_amount (rc_output r) else 0)
     - total_of (input_list (rc_inputs r)) t"

definition craft_fits :: "db \<Rightarrow> character_id \<Rightarrow> recipe \<Rightarrow> bool" where
  "craft_fits db c r \<longleftrightarrow>
     in_i64 (qty db c (out_item_type (rc_output r)) + craft_delta r (out_item_type (rc_output r)))"

lemma craft_item_fits:
  assumes wf: "db_wf db" and rec: "recipe_ok (st_schema st) known r"
    and dist: "distinct (map in_item_type (rc_inputs r))"
    and run: "craft_item st roll c r db = (Inr out, db')"
  shows "craft_fits db c r"
proof -
  have held: "inputs_held c (rc_inputs r) db"
    using craft_item_ready [OF run] rec by (simp add: craft_ready_def inputs_held_def recipe_ok_def)
  obtain res d1 where 1: "consume_inputs c (zip (rc_inputs r)
      (map (\<lambda>i. qty db c (in_item_type i)) (rc_inputs r))) [] db = (Inr res, d1)"
    and q1: "qty d1 = (\<lambda>c' t. qty db c' t - (if c' = c then total_of (input_list (rc_inputs r)) t else 0))"
    using consume_inputs_ok [OF dist wf held, of "[]"] by blast
  obtain q d2 where "upsert_item_add c (out_item_type (rc_output r)) (out_amount (rc_output r)) d1
      = (Inr q, d2)"
    using run 1 by (auto simp: craft_item_Inr craft_tx_def andThen_Inr read_inputs_Inr
        check_output_room_Inr)
  note up = upsert_item_add_ok(1,3) [OF this]
  have "q = qty db c (out_item_type (rc_output r)) + craft_delta r (out_item_type (rc_output r))"
    using up(1) q1 by (simp add: craft_delta_def)
  with up(2) show ?thesis by (simp add: craft_fits_def)
qed

lemma craft_runs:
  assumes wf: "db_wf db" and sch: "attr_schema_ok (st_schema st)"
    and rec: "recipe_ok (st_schema st) known r" and dist: "distinct (map in_item_type (rc_inputs r))"
    and ready: "craft_ready st db c r"
    and fits: "craft_fits db c r"
  shows "\<exists>out db'. craft_item st roll c r db = (Inr out, db')
    \<and> qty db' = (\<lambda>c' t. qty db c' t + (if c' = c then craft_delta r t else 0))
    \<and> stats_moved st c (gr_stat ` set (rc_grants r)) db db'
    \<and> (\<exists>u v. db' = db\<lparr>items := u, characters := v\<rparr>)"
proof -
  let ?o = "out_item_type (rc_output r)" and ?n = "out_amount (rc_output r)"
  have pos: "0 < ?n" and ne: "rc_inputs r \<noteq> []"
    and amounts: "\<forall>i \<in> set (rc_inputs r). 0 < in_amount i"
    and decls: "\<forall>g \<in> set (rc_grants r). declares (st_schema st) (gr_stat g)"
    using rec by (auto simp: recipe_ok_def grant_ok_def)
  have held: "inputs_held c (rc_inputs r) db"
    using ready amounts by (simp add: craft_ready_def inputs_held_def)
  obtain res d1 where 1: "consume_inputs c (zip (rc_inputs r)
      (map (\<lambda>i. qty db c (in_item_type i)) (rc_inputs r))) [] db = (Inr res, d1)"
    and q1: "qty d1 = (\<lambda>c' t. qty db c' t - (if c' = c then total_of (input_list (rc_inputs r)) t else 0))"
    and f1: "\<exists>u. d1 = db\<lparr>items := u\<rparr>" and w1: "db_wf d1"
    using consume_inputs_ok [OF dist wf held, of "[]"] by blast
  obtain i0 where i0: "i0 \<in> set (rc_inputs r)" using ne by (cases "rc_inputs r") auto
  have "has_row (items db) (c, in_item_type i0)"
    using held i0 qty_pos_iff [OF wf, of c "in_item_type i0"] by (force simp: inputs_held_def)
  then have ch: "has_row (characters db) c"
    using db_wf_item_row [OF wf] by (auto simp: has_row_def)
  have "in_i64 (qty d1 c ?o + ?n)"
    using fits q1 by (simp add: craft_fits_def craft_delta_def algebra_simps)
  moreover have ch1: "has_row (characters d1) c" using f1 ch by auto
  ultimately obtain d2 where 2: "upsert_item_add c ?o ?n d1 = (Inr (qty d1 c ?o + ?n), d2)"
    using upsert_item_add_succeeds [OF w1 pos, of c ?o] ch1 by blast
  note g2 = upsert_item_add_ok [OF 2]
  have ch2: "has_row (characters d2) c" using f1 g2(5) ch by auto
  have "snd ` set (enumerate 0 (rc_grants r)) = set (rc_grants r)"
    by (metis list.set_map map_snd_enumerate)
  then obtain chs d3 where 3: "apply_grants st roll c (enumerate 0 (rc_grants r)) [] d2 = (Inr chs, d3)"
    and f3: "\<exists>u. d3 = d2\<lparr>characters := u\<rparr>" and s3: "stats_moved st c (gr_stat ` set (rc_grants r)) d2 d3"
    using apply_grants_ok [OF sch ch2, of "enumerate 0 (rc_grants r)" roll "[]"] decls by auto
  have "characters d2 = characters db" using f1 g2(5) by auto
  then have "stat_of st d2 = stat_of st db" by (simp add: stat_of_def fun_eq_iff)
  then have moved: "stats_moved st c (gr_stat ` set (rc_grants r)) db d3"
    using s3 by (simp add: stats_moved_def)
  have run: "craft_item st roll c r db = (Inr \<lparr>co_item_changes = res @ [(?o, qty d1 c ?o + ?n)],
      co_stat_changes = chs\<rparr>, d3)"
    using ready 1 2 3
    by (auto simp: craft_item_Inr craft_tx_def andThen_Inr craft_ready_def check_requires_Inr
        read_inputs_Inr check_output_room_Inr)
  have "qty d3 = (\<lambda>c' t. qty db c' t + (if c' = c then craft_delta r t else 0))"
    using f3 g2(4) q1 by (auto simp: craft_delta_def fun_eq_iff)
  moreover have "\<exists>u v. d3 = db\<lparr>items := u, characters := v\<rparr>"
    using f1 g2(5) f3 by (elim exE) (simp, blast)
  ultimately show ?thesis using run moved by blast
qed

text \<open>
  C33: A craft happens exactly when it should. For a recipe the loader accepts whose inputs name
  different item types, on a sound attribute schema, \<open>craft_item\<close> succeeds if and only if every
  required stat is at its minimum or above, every input is held in its amount, the output has a
  stack or a free one, and the resulting output quantity fits an \<^verbatim>\<open>i64\<close>. In particular neither a
  grant's chance nor a grant on a stat already at its maximum can make a craft fail.
\<close>

theorem craft_succeeds_iff:
  assumes "db_wf db" "attr_schema_ok (st_schema st)" "recipe_ok (st_schema st) known r"
    "distinct (map in_item_type (rc_inputs r))"
  shows "(\<exists>out db'. craft_item st roll c r db = (Inr out, db'))
    \<longleftrightarrow> craft_ready st db c r \<and> craft_fits db c r"
  using craft_runs [OF assms, of c roll] craft_item_ready craft_item_fits [OF assms(1,3,4)] by blast

lemma sample_store_schema [simp]: "st_schema sample_store = sample_attrs"
  by (simp add: sample_store_def sample_attrs_def)

lemma sample_attrs_ok [simp]: "attr_schema_ok sample_attrs"
  by (simp add: attr_schema_ok_def sample_attrs_def decl_ok_def in_i64_iff)

lemma sample_recipe_distinct: "distinct (map in_item_type (rc_inputs sample_recipe))"
  by (simp add: sample_recipe_def)

lemma sample_recipe_loaded: "recipe_ok (st_schema sample_store) sample_catalog sample_recipe"
  using sample_recipe_ok by simp

lemma sample_craft_ready: "craft_ready sample_store sample_db (Id 1) sample_recipe"
  by (auto simp: craft_ready_def sample_recipe_def stat_of_def resolve_read_def stored_value_def
      in_i64_iff qty_def sample_attrs_def decl_of_def stacks_def)
    (simp add: sample_store_def)

lemma sample_craft_fits: "craft_fits sample_db (Id 1) sample_recipe"
  by (simp add: craft_fits_def craft_delta_def sample_recipe_def qty_def in_i64_iff)

lemma craft_succeeds_iff_witness:
  "\<exists>out db'. craft_item sample_store (\<lambda>_ _. True) (Id 1) sample_recipe sample_db = (Inr out, db')"
  using craft_succeeds_iff [OF sample_db_wf _ sample_recipe_loaded sample_recipe_distinct]
    sample_craft_ready sample_craft_fits by simp

text \<open>
  C35: A craft exchanges exactly the recipe's inputs for its output. When a loader-accepted recipe
  with different input item types is crafted, each input's amount is gone, the output's amount is
  added, no other quantity of any character changes, and only stats the recipe grants may change,
  each ending within its declared bounds, whatever the random rolls were.
\<close>

theorem craft_exchanges_exactly:
  assumes "db_wf db" "attr_schema_ok (st_schema st)" "recipe_ok (st_schema st) known r"
    "distinct (map in_item_type (rc_inputs r))" "craft_item st roll c r db = (Inr out, db')"
  shows "db_wf db' \<and> qty db' = (\<lambda>c' t. qty db c' t + (if c' = c then craft_delta r t else 0))
    \<and> stats_moved st c (gr_stat ` set (rc_grants r)) db db'
    \<and> (\<exists>u v. db' = db\<lparr>items := u, characters := v\<rparr>)"
  using craft_runs [OF assms(1-4) craft_item_ready [OF assms(5)]
      craft_item_fits [OF assms(1,3,4,5)], of roll]
    assms(5) preservesD [OF pres_craft_item assms(1,5)] by auto

definition sample_craft :: "(error + craft_outcome) \<times> db" where
  "sample_craft = craft_item sample_store (\<lambda>_ _. True) (Id 1) sample_recipe sample_db"

lemma sample_craft_ok: "craft_item sample_store (\<lambda>_ _. True) (Id 1) sample_recipe sample_db
    = (Inr (projr (fst sample_craft)), snd sample_craft)"
proof -
  have "\<not> isl (fst (craft_item sample_store (\<lambda>_ _. True) (Id 1) sample_recipe sample_db))"
    by code_simp
  from run_Inr [OF this] show ?thesis by (simp add: sample_craft_def)
qed

lemma craft_exchanges_exactly_witness:
  "qty (snd sample_craft) (Id 1) ''wood'' = 3 \<and> qty (snd sample_craft) (Id 1) ''plank'' = 4"
  using craft_exchanges_exactly [OF sample_db_wf _ sample_recipe_loaded sample_recipe_distinct
      sample_craft_ok]
  by (simp add: craft_delta_def sample_recipe_def qty_def)

text \<open>
  A craft is all or nothing: when \<open>craft_item\<close> returns an error, at a requirement, an input,
  the capacity check or any write, the database is the one it started from; and whatever it
  returns, the constraints of the database are kept.
\<close>

theorem craft_atomic:
  "(\<forall>e db'. craft_item st roll c r db = (Inl e, db') \<longrightarrow> db' = db)
   \<and> preserves db_wf (craft_item st roll c r)"
  by (auto simp: craft_item_def andThen_Inl check_requires_Inr pres_craft_item [unfolded craft_item_def]
      dest: check_requires_Inl transaction_rollback)

definition sample_greedy_recipe :: recipe where
  "sample_greedy_recipe = sample_recipe\<lparr>rc_inputs :=
     [\<lparr>in_item_type = ''wood'', in_amount = 2\<rparr>, \<lparr>in_item_type = ''nail'', in_amount = 1\<rparr>]\<rparr>"

lemma craft_atomic_witness:
  "snd (craft_item sample_store (\<lambda>_ _. True) (Id 1) sample_greedy_recipe sample_db) = sample_db"
proof -
  have "isl (fst (craft_item sample_store (\<lambda>_ _. True) (Id 1) sample_greedy_recipe sample_db))"
    by code_simp
  from run_Inl [OF this] show ?thesis
    using craft_atomic [of sample_store "\<lambda>_ _. True" "Id 1" sample_greedy_recipe sample_db] by blast
qed

definition sample_double_recipe :: recipe where
  "sample_double_recipe = sample_recipe\<lparr>rc_inputs :=
     [\<lparr>in_item_type = ''wood'', in_amount = 2\<rparr>, \<lparr>in_item_type = ''wood'', in_amount = 3\<rparr>]\<rparr>"

text \<open>
  A recipe that lists one item type in two inputs is not consumed in full. The loader accepts
  such a recipe (here 2 wood and 3 wood), but because every quantity is read before any is
  written, a character with exactly 5 wood crafts it and keeps 2: only the last entry's amount is
  taken, although 5 units are listed and 5 were held.
\<close>

theorem craft_duplicate_inputs_underconsumed:
  "crafting_from_yaml (\<lambda>_. Some \<lparr>cr_schema_version = 1, cr_recipes = [sample_double_recipe]\<rparr>)
       ''recipes'' sample_attrs sample_catalog
     = Inr \<lparr>cr_schema_version = 1, cr_recipes = [sample_double_recipe]\<rparr>
   \<and> total_of (input_list (rc_inputs sample_double_recipe)) ''wood'' = 5
   \<and> qty sample_db (Id 1) ''wood'' = 5
   \<and> (case craft_item sample_store (\<lambda>_ _. True) (Id 1) sample_double_recipe sample_db of
        (Inl _, _) \<Rightarrow> False
      | (Inr _, db') \<Rightarrow> qty db' (Id 1) ''wood'' = 2 \<and> qty db' (Id 1) ''plank'' = 4)"
proof (intro conjI)
  show "case craft_item sample_store (\<lambda>_ _. True) (Id 1) sample_double_recipe sample_db of
        (Inl _, _) \<Rightarrow> False
      | (Inr _, db') \<Rightarrow> qty db' (Id 1) ''wood'' = 2 \<and> qty db' (Id 1) ''plank'' = 4"
    by code_simp
  show "crafting_from_yaml (\<lambda>_. Some \<lparr>cr_schema_version = 1, cr_recipes = [sample_double_recipe]\<rparr>)
       ''recipes'' sample_attrs sample_catalog
     = Inr \<lparr>cr_schema_version = 1, cr_recipes = [sample_double_recipe]\<rparr>"
    by code_simp
qed (simp_all add: sample_double_recipe_def qty_def)

end
