(* ===== verification/Party.thy ===== *)
theory Party
  imports Samples
begin

text \<open>
  \<^verbatim>\<open>party_schema.rs\<close> and \<^verbatim>\<open>party.rs\<close>: declared party types and the party roster. The fresh
  \<^verbatim>\<open>PartyId::new()\<close> is an argument. \<open>party_members\<close> is keyed by the character, as its UNIQUE
  constraint demands, and a deleted party takes its member rows with it.
\<close>

section \<open>Declared party types\<close>

record party_type =
  pt_key :: string
  pt_max_members :: "u32 option"

record party_schema =
  pt_schema_version :: u32
  pt_types :: "party_type list"

definition party_from_yaml :: "(string \<Rightarrow> party_schema option) \<Rightarrow> string \<Rightarrow> error + party_schema" where
  "party_from_yaml parse input =
     try_then (ok_or_else (parse input) (Schema ParseFailed)) (\<lambda>schema.
     try_then (ensure (\<not> pt_types schema = []) (Schema EmptySchema)) (\<lambda>_.
     Inr schema))"

text \<open>\<^verbatim>\<open>&self.party_types[0]\<close>; an empty list would panic, and the loader rejects it.\<close>

definition default_type :: "party_schema \<Rightarrow> party_type" where
  "default_type sch = hd (pt_types sch)"

definition resolve_party_type :: "party_schema \<Rightarrow> string \<Rightarrow> error + party_type" where
  "resolve_party_type sch key =
     ok_or_else (find_by pt_key (pt_types sch) key) (Schema (UnknownPartyType key))"

section \<open>The store\<close>

definition members_of :: "character_id \<Rightarrow> character_id list sql" where
  "members_of c = query (\<lambda>db.
     case map_of (party_members db) c of
       None \<Rightarrow> []
     | Some p \<Rightarrow> map fst (rows_where (\<lambda>k v. v = p \<and> k \<noteq> c) (party_members db)))"

definition party_size :: "db \<Rightarrow> party_id \<Rightarrow> int" where
  "party_size db p = count_where (\<lambda>k v. v = p) (party_members db)"

definition party_of :: "character_id \<Rightarrow> party_id option sql" where
  "party_of c = query (\<lambda>db. map_of (party_members db) c)"

definition insert_party :: "party_id \<Rightarrow> string \<Rightarrow> unit sql" where
  "insert_party p type_key = (\<lambda>db.
     if has_row (parties db) p then (Inl (Sql UniqueViolation), db)
     else (Inr (), db\<lparr>parties := put_row p type_key (parties db)\<rparr>))"

definition insert_party_member :: "party_id \<Rightarrow> character_id \<Rightarrow> unit sql" where
  "insert_party_member p c = (\<lambda>db.
     if has_row (party_members db) c then (Inl (Sql UniqueViolation), db)
     else if \<not> has_row (parties db) p \<or> \<not> has_row (characters db) c
       then (Inl (Sql ForeignKeyViolation), db)
     else (Inr (), db\<lparr>party_members := put_row c p (party_members db)\<rparr>))"

definition delete_party :: "party_id \<Rightarrow> unit sql" where
  "delete_party p = execute (\<lambda>db. db\<lparr>parties := del_row p (parties db),
     party_members := del_where (\<lambda>k v. v = p) (party_members db)\<rparr>)"

definition delete_party_member :: "party_id \<Rightarrow> character_id \<Rightarrow> unit sql" where
  "delete_party_member p c = execute (\<lambda>db.
     db\<lparr>party_members := del_where (\<lambda>k v. k = c \<and> v = p) (party_members db)\<rparr>)"

text \<open>The inviter's party with its type and size, or a newly founded one.\<close>

definition found_or_find_party ::
  "party_schema \<Rightarrow> party_id \<Rightarrow> character_id \<Rightarrow> string \<Rightarrow> (party_id \<times> string \<times> i64) sql" where
  "found_or_find_party sch fresh inviter requested =
     andThen (query (\<lambda>db. case map_of (party_members db) inviter of
         None \<Rightarrow> None
       | Some p \<Rightarrow> map_option (\<lambda>type_key. (p, type_key)) (map_of (parties db) p))) (\<lambda>inviter_party.
     case inviter_party of
       Some (p, type_key) \<Rightarrow>
         andThen (query (\<lambda>db. party_size db p)) (\<lambda>sz. ok (p, type_key, sz))
     | None \<Rightarrow>
         andThen (if requested = '''' then ok (default_type sch)
           else lift (resolve_party_type sch requested)) (\<lambda>pt.
         andThen (insert_party fresh (pt_key pt)) (\<lambda>_.
         andThen (insert_party_member fresh inviter) (\<lambda>_.
         ok (fresh, pt_key pt, 1)))))"

definition accept_party_invite ::
  "party_schema \<Rightarrow> party_id \<Rightarrow> character_id \<Rightarrow> character_id \<Rightarrow> string \<Rightarrow> party_id sql" where
  "accept_party_invite sch fresh inviter invitee requested =
     andThen (require (\<not> inviter = invitee) (Store PartyWithItself)) (\<lambda>_.
     transaction (
       andThen (party_of invitee) (\<lambda>invitee_party.
       andThen (require (invitee_party = None) (Store InviteeInParty)) (\<lambda>_.
       andThen (found_or_find_party sch fresh inviter requested) (\<lambda>(p, type_key, current_size).
       andThen (lift (resolve_party_type sch type_key)) (\<lambda>pt.
       andThen (case pt_max_members pt of
           None \<Rightarrow> ok ()
         | Some max_members \<Rightarrow>
             require (\<not> current_size \<ge> int max_members) (Store (PartyFull type_key max_members))) (\<lambda>_.
       andThen (insert_party_member p invitee) (\<lambda>_.
       ok p))))))))"

definition leave_party :: "character_id \<Rightarrow> unit sql" where
  "leave_party c = transaction (
     andThen (party_of c) (\<lambda>party.
     andThen (ok_or party (Store NotInParty)) (\<lambda>p.
     andThen (delete_party_member p c) (\<lambda>_.
     andThen (query (\<lambda>db. party_size db p)) (\<lambda>remaining.
     if remaining < 2 then delete_party p else ok ())))))"

section \<open>Constraints\<close>

lemma db_wf_party_update:
  assumes "db_wf db" "keys_unique ps" "keys_unique ms"
    and "\<And>c p. map_of ms c = Some p \<Longrightarrow> has_row ps p \<and> has_row (characters db) c"
  shows "db_wf (db\<lparr>parties := ps, party_members := ms\<rparr>)"
  using assms by (auto simp: db_wf_def wf_defs has_row_def)

lemma db_wf_member: "db_wf db \<Longrightarrow> map_of (party_members db) c = Some p \<Longrightarrow>
    has_row (parties db) p \<and> has_row (characters db) c"
  by (auto simp: db_wf_def parties_wf_def character_refs_wf_def has_row_def)

lemma pres_insert_party [pres_intros]: "preserves db_wf (insert_party p k)"
proof (rule preservesI)
  fix db r db' assume wf: "db_wf db" and run: "insert_party p k db = (r, db')"
  have "db_wf (db\<lparr>parties := put_row p k (parties db), party_members := party_members db\<rparr>)"
    using db_wf_unique(8,9) [OF wf] db_wf_member [OF wf]
    by (intro db_wf_party_update [OF wf]) auto
  then show "db_wf db'" using run wf by (auto simp: insert_party_def split: if_splits)
qed

lemma pres_insert_party_member [pres_intros]: "preserves db_wf (insert_party_member p c)"
proof (rule preservesI)
  fix db r db' assume wf: "db_wf db" and run: "insert_party_member p c db = (r, db')"
  have "db_wf (db\<lparr>parties := parties db, party_members := put_row c p (party_members db)\<rparr>)"
    if "has_row (parties db) p" "has_row (characters db) c"
    using that db_wf_unique(8,9) [OF wf] db_wf_member [OF wf]
    by (intro db_wf_party_update [OF wf]) (auto split: if_splits)
  then show "db_wf db'" using run wf by (auto simp: insert_party_member_def split: if_splits)
qed

lemma pres_delete_party [pres_intros]: "preserves db_wf (delete_party p)"
  unfolding delete_party_def
proof (rule pres_execute)
  fix db :: db assume wf: "db_wf db"
  show "db_wf (db\<lparr>parties := del_row p (parties db),
      party_members := del_where (\<lambda>k v. v = p) (party_members db)\<rparr>)"
    using db_wf_unique(8,9) [OF wf] db_wf_member [OF wf]
    by (intro db_wf_party_update [OF wf]) (auto simp: map_of_del_where split: option.splits if_splits)
qed

lemma pres_delete_party_member [pres_intros]: "preserves db_wf (delete_party_member p c)"
  unfolding delete_party_member_def
proof (rule pres_execute)
  fix db :: db assume wf: "db_wf db"
  have "db_wf (db\<lparr>parties := parties db,
      party_members := del_where (\<lambda>k v. k = c \<and> v = p) (party_members db)\<rparr>)"
    using db_wf_unique(8,9) [OF wf] db_wf_member [OF wf]
    by (intro db_wf_party_update [OF wf]) (auto simp: map_of_del_where split: option.splits if_splits)
  then show "db_wf (db\<lparr>party_members := del_where (\<lambda>k v. k = c \<and> v = p) (party_members db)\<rparr>)"
    by simp
qed

lemma pres_party_of [pres_intros]: "preserves I (party_of c)"
  by (simp add: party_of_def pres_query)

lemma pres_found_or_find_party [pres_intros]:
  "preserves db_wf (found_or_find_party sch fresh inviter requested)"
  unfolding found_or_find_party_def by (intro pres_intros)

lemma pres_accept_party_invite [pres_intros]:
  "preserves db_wf (accept_party_invite sch fresh inviter invitee requested)"
  unfolding accept_party_invite_def by (intro pres_intros)

lemma pres_leave_party [pres_intros]: "preserves db_wf (leave_party c)"
  unfolding leave_party_def by (intro pres_intros)

section \<open>Party sizes\<close>

text \<open>What the store promises of every roster: no party of one, and the type's cap.\<close>

definition cap_respected :: "party_schema \<Rightarrow> db \<Rightarrow> party_id \<Rightarrow> bool" where
  "cap_respected sch db p \<longleftrightarrow> (\<forall>type_key pt m. map_of (parties db) p = Some type_key \<longrightarrow>
     resolve_party_type sch type_key = Inr pt \<longrightarrow> pt_max_members pt = Some m \<longrightarrow>
     party_size db p \<le> int m)"

definition rosters_ok :: "party_schema \<Rightarrow> db \<Rightarrow> bool" where
  "rosters_ok sch db \<longleftrightarrow>
     (\<forall>p. has_row (parties db) p \<longrightarrow> 2 \<le> party_size db p \<and> cap_respected sch db p)"

lemma count_where_del_where:
  "count_where P (del_where Q t) = count_where (\<lambda>k v. P k v \<and> \<not> Q k v) t"
  by (induction t) (auto simp: del_where_def)

lemma count_where_remove_one:
  "keys_unique t \<Longrightarrow> map_of t c = Some p \<Longrightarrow>
     count_where (\<lambda>k v. v = q \<and> \<not> (k = c \<and> v = p)) t
       = count_where (\<lambda>k v. v = q) t - (if q = p then 1 else 0)"
proof (induction t)
  case (Cons kv t)
  obtain k v where kv: "kv = (k, v)" by force
  show ?case
  proof (cases "k = c")
    case True
    have "c \<notin> fst ` set t" using Cons.prems(1) by (auto simp: kv True keys_unique_def)
    then have "count_where (\<lambda>k v. v = q \<and> \<not> (k = c \<and> v = p)) t = count_where (\<lambda>k v. v = q) t"
      by (induction t) auto
    then show ?thesis using Cons.prems(2) by (auto simp: kv True)
  next
    case False
    then show ?thesis using Cons by (auto simp: kv keys_unique_def)
  qed
qed simp

lemma new_party_empty:
  assumes "db_wf db" "\<not> has_row (parties db) p"
  shows "party_size db p = 0"
  using assms db_wf_member [OF assms(1)] db_wf_unique(9) [OF assms(1)]
  by (auto simp: party_size_def count_where_zero_map)

lemma party_size_insert:
  assumes "insert_party_member p c db = (Inr (), db')"
  shows "party_size db' q = party_size db q + (if q = p then 1 else 0)"
    "parties db' = parties db"
proof -
  have "\<not> has_row (party_members db) c" "db' = db\<lparr>party_members := put_row c p (party_members db)\<rparr>"
    using assms by (auto simp: insert_party_member_def split: if_splits)
  moreover have "\<not> has_row t k \<Longrightarrow> count_where P (put_row k v t) = count_where P t + (if P k v then 1 else 0)"
    for t :: "(character_id, party_id) table" and k v P
    by (induction t) (auto simp: put_row_def has_row_def split: if_splits)
  ultimately show "party_size db' q = party_size db q + (if q = p then 1 else 0)"
    "parties db' = parties db"
    by (auto simp: party_size_def)
qed

lemma found_or_find_party_ok:
  assumes wf: "db_wf db" and rosters: "rosters_ok sch db"
    and run: "found_or_find_party sch fresh inviter requested db = (Inr (p, type_key, sz), db')"
  shows "map_of (parties db') p = Some type_key" "party_size db' p = sz" "1 \<le> sz"
    "\<And>q. q \<noteq> p \<Longrightarrow> map_of (parties db') q = map_of (parties db) q \<and> party_size db' q = party_size db q"
proof -
  have "map_of (parties db') p = Some type_key \<and> party_size db' p = sz \<and> 1 \<le> sz
    \<and> (\<forall>q. q \<noteq> p \<longrightarrow> map_of (parties db') q = map_of (parties db) q \<and> party_size db' q = party_size db q)"
  proof (cases "case map_of (party_members db) inviter of None \<Rightarrow> None
      | Some p \<Rightarrow> map_option (\<lambda>type_key. (p, type_key)) (map_of (parties db) p)")
    case None
    then obtain d1 where 1: "insert_party fresh type_key db = (Inr (), d1)"
      and 2: "insert_party_member fresh inviter d1 = (Inr (), db')"
      and eqs: "p = fresh" "sz = 1"
      using run by (auto simp: found_or_find_party_def andThen_Inr split: if_splits sum.splits)
    have new: "\<not> has_row (parties db) fresh"
      and d1: "d1 = db\<lparr>parties := put_row fresh type_key (parties db)\<rparr>"
      using 1 by (auto simp: insert_party_def split: if_splits)
    then show ?thesis
      using party_size_insert [OF 2] new_party_empty [OF wf new]
      by (auto simp: eqs d1 party_size_def)
  next
    case (Some pk)
    obtain p1 k1 where pk: "pk = (p1, k1)" by force
    have "found_or_find_party sch fresh inviter requested db = (Inr (p1, k1, party_size db p1), db)"
      using Some by (simp add: found_or_find_party_def pk)
    with run have "pk = (p, type_key) \<and> db' = db \<and> party_size db p = sz" by (auto simp: pk)
    with Some rosters show ?thesis
      by (force simp: rosters_ok_def has_row_def split: option.splits)
  qed
  then show "map_of (parties db') p = Some type_key" "party_size db' p = sz" "1 \<le> sz"
    "\<And>q. q \<noteq> p \<Longrightarrow> map_of (parties db') q = map_of (parties db) q \<and> party_size db' q = party_size db q"
    by auto
qed

lemma accept_party_invite_rosters:
  assumes wf: "db_wf db" and rosters: "rosters_ok sch db"
    and run: "accept_party_invite sch fresh inviter invitee requested db = (r, db')"
  shows "rosters_ok sch db'"
proof (cases r)
  case (Inl e)
  then have "db' = db"
    using run by (auto simp: accept_party_invite_def dest: transaction_rollback split: if_splits)
  then show ?thesis using rosters by simp
next
  case (Inr p)
  then obtain type_key sz d1 pt where
    1: "found_or_find_party sch fresh inviter requested db = (Inr (p, type_key, sz), d1)"
    and pt: "resolve_party_type sch type_key = Inr pt"
    and cap: "\<forall>m. pt_max_members pt = Some m \<longrightarrow> sz < int m"
    and 2: "insert_party_member p invitee d1 = (Inr (), db')"
    using run
    by (auto simp: accept_party_invite_def andThen_Inr party_of_def not_le simp del: guard_steps
        split: option.splits if_splits)
  note f = found_or_find_party_ok [OF wf rosters 1] and s = party_size_insert [OF 2]
  have "2 \<le> party_size db' q \<and> cap_respected sch db' q" if "has_row (parties db') q" for q
  proof (cases "q = p")
    case True
    then show ?thesis using f(1-3) s pt cap by (auto simp: cap_respected_def split: option.splits)
  next
    case False
    then have "has_row (parties db) q" "party_size db' q = party_size db q"
      "map_of (parties db') q = map_of (parties db) q"
      using that f(4) [of q] s by (auto simp: has_row_def)
    then show ?thesis using rosters by (auto simp: rosters_ok_def cap_respected_def)
  qed
  then show ?thesis by (simp add: rosters_ok_def)
qed

lemma leave_party_rosters:
  assumes wf: "db_wf db" and rosters: "rosters_ok sch db" and run: "leave_party c db = (r, db')"
  shows "rosters_ok sch db'"
proof (cases r)
  case (Inl e)
  then have "db' = db" using run by (auto simp: leave_party_def dest: transaction_rollback)
  then show ?thesis using rosters by simp
next
  case (Inr u)
  let ?ms = "\<lambda>p. del_where (\<lambda>k v. k = c \<and> v = p) (party_members db)"
  obtain p where p: "map_of (party_members db) c = Some p"
    and run': "(if party_size (db\<lparr>party_members := ?ms p\<rparr>) p < 2 then delete_party p else ok ())
      (db\<lparr>party_members := ?ms p\<rparr>) = (Inr u, db')"
    using run Inr
    by (auto simp: leave_party_def party_of_def delete_party_member_def andThen_Inr ok_or_def
        fail_def split: option.splits)
  have sz: "party_size (db\<lparr>party_members := ?ms p\<rparr>) q = party_size db q - (if q = p then 1 else 0)" for q
    using count_where_remove_one [OF db_wf_unique(9) [OF wf] p, of q]
    by (simp add: party_size_def count_where_del_where)
  have old: "2 \<le> party_size db q \<and> cap_respected sch db q" if "has_row (parties db) q" for q
    using rosters that by (simp add: rosters_ok_def)
  show ?thesis
  proof (cases "party_size db p < 3")
    case True
    then have db': "db' = db\<lparr>parties := del_row p (parties db),
        party_members := del_where (\<lambda>k v. v = p) (?ms p)\<rparr>"
      using run' sz [of p] by (simp add: delete_party_def execute_def)
    have "party_size db' q = party_size db q" if "q \<noteq> p" for q
    proof -
      have "party_size db' q = count_where (\<lambda>k v. v = q) (?ms p)"
        using that by (simp add: db' party_size_def count_where_del_where)
          (metis (no_types, lifting))
      then show ?thesis using sz [of q] that by (simp add: party_size_def)
    qed
    then show ?thesis using old by (auto simp: rosters_ok_def db' cap_respected_def)
  next
    case False
    then have db': "db' = db\<lparr>party_members := ?ms p\<rparr>" using run' sz [of p] by (simp add: ok_def)
    have "party_size db' q = party_size db q - (if q = p then 1 else 0)" for q
      unfolding db' by (rule sz)
    then show ?thesis using old False by (auto simp: rosters_ok_def db' cap_respected_def) force+
  qed
qed

section \<open>Properties\<close>

text \<open>The store's two operations, by any character, with any outcome.\<close>

inductive party_step :: "party_schema \<Rightarrow> db \<Rightarrow> db \<Rightarrow> bool" for sch where
  step_accept: "accept_party_invite sch fresh inviter invitee requested db = (r, db') \<Longrightarrow>
     party_step sch db db'"
| step_leave: "leave_party c db = (r, db') \<Longrightarrow> party_step sch db db'"

lemma party_step_keeps:
  "party_step sch db db' \<Longrightarrow> db_wf db \<and> rosters_ok sch db \<Longrightarrow> db_wf db' \<and> rosters_ok sch db'"
  by (erule party_step.cases)
    (auto intro: accept_party_invite_rosters leave_party_rosters
      preservesD [OF pres_accept_party_invite] preservesD [OF pres_leave_party])

text \<open>
  No roster ever breaks the party rules. Starting from a database without parties, after any
  sequence of accepted, refused or failing invites and departures, every party has at least two
  members and no more than its declared type allows, and every constraint of the database holds.
\<close>

theorem party_sizes_invariant:
  assumes "db_wf db0" "parties db0 = []" "rtranclp (party_step sch) db0 db"
  shows "rosters_ok sch db \<and> db_wf db"
  using assms(3)
proof (induction rule: rtranclp_induct)
  case base
  then show ?case using assms(1,2) by (simp add: rosters_ok_def has_row_def)
next
  case (step d d')
  then show ?case using party_step_keeps by blast
qed

definition sample_parties :: party_schema where
  "sample_parties = \<lparr>pt_schema_version = 1, pt_types =
     [\<lparr>pt_key = ''duo'', pt_max_members = Some 2\<rparr>, \<lparr>pt_key = ''raid'', pt_max_members = None\<rparr>]\<rparr>"

definition sample_party_db :: db where
  "sample_party_db =
     snd (accept_party_invite sample_parties (Id 7) (Id 1) (Id 2) '''' sample_db)"

lemma sample_party_run:
  "accept_party_invite sample_parties (Id 7) (Id 1) (Id 2) '''' sample_db
     = (Inr (Id 7), sample_party_db)"
proof -
  have "fst (accept_party_invite sample_parties (Id 7) (Id 1) (Id 2) '''' sample_db) = Inr (Id 7)"
    by code_simp
  then show ?thesis by (metis prod.collapse sample_party_db_def)
qed

lemma party_sizes_invariant_witness: "rosters_ok sample_parties sample_party_db"
  using party_sizes_invariant [OF sample_db_wf _ r_into_rtranclp, of sample_parties sample_party_db]
    step_accept [OF sample_party_run] by simp

text \<open>The lookups of a roster after a join and after a departure.\<close>

lemma found_or_find_party_members:
  assumes wf: "db_wf db"
    and run: "found_or_find_party sch fresh inviter requested db = (Inr (p, type_key, sz), db')"
  shows "map_of (party_members db') = (map_of (party_members db))(inviter \<mapsto> p)"
proof (cases "map_of (party_members db) inviter")
  case None
  then obtain d1 where "insert_party fresh type_key db = (Inr (), d1)"
    "insert_party_member fresh inviter d1 = (Inr (), db')" "p = fresh"
    using run by (auto simp: found_or_find_party_def andThen_Inr split: if_splits sum.splits)
  then show ?thesis by (auto simp: insert_party_def insert_party_member_def split: if_splits)
next
  case (Some q)
  obtain k where k: "map_of (parties db) q = Some k"
    using db_wf_member [OF wf Some] by (auto simp: has_row_def)
  have "found_or_find_party sch fresh inviter requested db = (Inr (q, k, party_size db q), db)"
    using Some k by (simp add: found_or_find_party_def)
  with run show ?thesis using Some by (auto simp: fun_eq_iff)
qed

text \<open>
  Joining and leaving do what the roster shows. An accepted invite puts both characters into
  one party, an unaffiliated invitee and the inviter, and moves nobody else; a departure removes
  the leaver, and the rest of its party either stays as it is or, when a single member would
  remain, is dissolved with it; a refused operation changes nothing.
\<close>

theorem party_roster_effect:
  assumes "db_wf db"
  shows "(\<forall>r db'. accept_party_invite sch fresh inviter invitee requested db = (r, db') \<longrightarrow>
      (case r of Inl _ \<Rightarrow> db' = db
       | Inr p \<Rightarrow> inviter \<noteq> invitee \<and> map_of (party_members db) invitee = None
          \<and> map_of (party_members db') = (map_of (party_members db))(inviter \<mapsto> p, invitee \<mapsto> p)))
    \<and> (\<forall>r db'. leave_party c db = (r, db') \<longrightarrow>
      (case r of Inl _ \<Rightarrow> db' = db
       | Inr _ \<Rightarrow> (\<exists>p. map_of (party_members db) c = Some p
          \<and> map_of (party_members db') = (\<lambda>m. if m = c \<or> (party_size db p < 3
              \<and> map_of (party_members db) m = Some p) then None else map_of (party_members db) m))))"
proof (intro conjI allI impI)
  fix r db' assume run: "accept_party_invite sch fresh inviter invitee requested db = (r, db')"
  show "case r of Inl _ \<Rightarrow> db' = db
       | Inr p \<Rightarrow> inviter \<noteq> invitee \<and> map_of (party_members db) invitee = None
          \<and> map_of (party_members db') = (map_of (party_members db))(inviter \<mapsto> p, invitee \<mapsto> p)"
  proof (cases r)
    case (Inl e)
    then show ?thesis
      using run by (auto simp: accept_party_invite_def dest: transaction_rollback split: if_splits)
  next
    case (Inr p)
    then obtain type_key sz d1 where
      1: "found_or_find_party sch fresh inviter requested db = (Inr (p, type_key, sz), d1)"
      and 2: "insert_party_member p invitee d1 = (Inr (), db')"
      and "inviter \<noteq> invitee" "map_of (party_members db) invitee = None"
      using run
      by (auto simp: accept_party_invite_def andThen_Inr party_of_def simp del: guard_steps
          split: option.splits if_splits)
    then show ?thesis
      using found_or_find_party_members [OF assms 1]
      by (auto simp: Inr insert_party_member_def split: if_splits)
  qed
next
  fix r db' assume run: "leave_party c db = (r, db')"
  show "case r of Inl _ \<Rightarrow> db' = db
       | Inr _ \<Rightarrow> (\<exists>p. map_of (party_members db) c = Some p
          \<and> map_of (party_members db') = (\<lambda>m. if m = c \<or> (party_size db p < 3
              \<and> map_of (party_members db) m = Some p) then None else map_of (party_members db) m))"
  proof (cases r)
    case (Inl e)
    then show ?thesis using run by (auto simp: leave_party_def dest: transaction_rollback)
  next
    case (Inr u)
    let ?ms = "\<lambda>p. del_where (\<lambda>k v. k = c \<and> v = p) (party_members db)"
    obtain p where p: "map_of (party_members db) c = Some p"
      and run': "(if party_size (db\<lparr>party_members := ?ms p\<rparr>) p < 2 then delete_party p else ok ())
        (db\<lparr>party_members := ?ms p\<rparr>) = (Inr u, db')"
      using run Inr by (auto simp: leave_party_def party_of_def delete_party_member_def andThen_Inr
          simp del: guard_steps)
    have sz: "party_size (db\<lparr>party_members := ?ms p\<rparr>) p = party_size db p - 1"
      using count_where_remove_one [OF db_wf_unique(9) [OF assms] p, of p]
      by (simp add: party_size_def count_where_del_where)
    have u: "keys_unique (party_members db)" "keys_unique (?ms p)"
      using db_wf_unique(9) [OF assms] by simp_all
    have "map_of (party_members db') m = (if m = c \<or> (party_size db p < 3
        \<and> map_of (party_members db) m = Some p) then None else map_of (party_members db) m)" for m
    proof (cases "party_size db p < 3")
      case True
      then have "party_members db' = del_where (\<lambda>k v. v = p) (?ms p)"
        using run' sz by (auto simp: delete_party_def)
      then show ?thesis
        using True p map_of_del_where [OF u(2)] map_of_del_where [OF u(1)]
        by (auto split: option.split)
    next
      case False
      then have "party_members db' = ?ms p" using run' sz by auto
      then show ?thesis
        using False p map_of_del_where [OF u(1)] by (auto split: option.split)
    qed
    then show ?thesis using p by (auto simp: Inr fun_eq_iff)
  qed
qed

lemma party_roster_effect_witness:
  "map_of (party_members sample_party_db) (Id 1) = Some (Id 7)
   \<and> map_of (party_members sample_party_db) (Id 2) = Some (Id 7)"
proof -
  have "map_of (party_members sample_party_db)
      = (map_of (party_members sample_db))(Id 1 \<mapsto> Id 7, Id 2 \<mapsto> Id 7)"
    using party_roster_effect [OF sample_db_wf, of sample_parties "Id 7" "Id 1" "Id 2" "''''" "Id 1"]
      sample_party_run by force
  then show ?thesis by simp
qed

text \<open>
  Deleting a character can leave a party of one, which the store's own departure never does:
  the row of the deleted character goes by the foreign key's cascade, past the dissolution rule.
\<close>

theorem party_of_one_after_deletion:
  "rosters_ok sample_parties sample_party_db
   \<and> (case delete_character (Id 2) sample_party_db of
        (Inl _, _) \<Rightarrow> False
      | (Inr _, db') \<Rightarrow> has_row (parties db') (Id 7) \<and> party_size db' (Id 7) = 1
          \<and> \<not> rosters_ok sample_parties db')"
proof
  show "rosters_ok sample_parties sample_party_db"
    by (rule accept_party_invite_rosters [OF sample_db_wf _ sample_party_run])
      (simp add: rosters_ok_def has_row_def)
  have "case delete_character (Id 2) sample_party_db of
        (Inl _, _) \<Rightarrow> False
      | (Inr _, db') \<Rightarrow> has_row (parties db') (Id 7) \<and> party_size db' (Id 7) = 1"
    by code_simp
  then show "case delete_character (Id 2) sample_party_db of
        (Inl _, _) \<Rightarrow> False
      | (Inr _, db') \<Rightarrow> has_row (parties db') (Id 7) \<and> party_size db' (Id 7) = 1
          \<and> \<not> rosters_ok sample_parties db'"
    by (auto simp: rosters_ok_def split: prod.splits sum.splits)
qed

end
