(* ===== verification/RustText.thy ===== *)
theory RustText
  imports Prelude
begin

text \<open>
  The string functions of Rust's standard library the sources call, on strings of the code points
  a \<open>char\<close> has.
\<close>

text \<open>\<^verbatim>\<open>char::is_whitespace\<close>, and \<^verbatim>\<open>trim().is_empty()\<close>.\<close>

definition is_whitespace :: "char \<Rightarrow> bool" where
  "is_whitespace ch = (let n = of_char ch :: nat in
     (9 \<le> n \<and> n \<le> 13) \<or> n = 32 \<or> n = 133 \<or> n = 160)"

definition blank :: "string \<Rightarrow> bool" where
  "blank name = list_all is_whitespace name"

text \<open>\<^verbatim>\<open>str::strip_prefix\<close>.\<close>

fun strip_prefix :: "string \<Rightarrow> string \<Rightarrow> string option" where
  "strip_prefix [] s = Some s"
| "strip_prefix (p # ps) [] = None"
| "strip_prefix (p # ps) (c # cs) = (if p = c then strip_prefix ps cs else None)"

lemma strip_prefix_Some: "strip_prefix p s = Some r \<longleftrightarrow> s = p @ r"
  by (induction p s rule: strip_prefix.induct) auto

text \<open>\<^verbatim>\<open>is_ascii_hexdigit\<close>, \<^verbatim>\<open>is_ascii_uppercase\<close>, \<^verbatim>\<open>is_ascii_digit\<close>.\<close>

definition is_ascii_digit :: "char \<Rightarrow> bool" where
  "is_ascii_digit c = (let n = of_char c :: nat in 48 \<le> n \<and> n \<le> 57)"

definition is_ascii_uppercase :: "char \<Rightarrow> bool" where
  "is_ascii_uppercase c = (let n = of_char c :: nat in 65 \<le> n \<and> n \<le> 90)"

definition is_ascii_hexdigit :: "char \<Rightarrow> bool" where
  "is_ascii_hexdigit c = (let n = of_char c :: nat in
     (48 \<le> n \<and> n \<le> 57) \<or> (65 \<le> n \<and> n \<le> 70) \<or> (97 \<le> n \<and> n \<le> 102))"

text \<open>The value of a string of digits, and \<^verbatim>\<open>u32::from_str\<close>: an optional \<^verbatim>\<open>+\<close>, digits, no overflow.\<close>

definition digit_value :: "char \<Rightarrow> int" where
  "digit_value c = int (of_char c) - 48"

definition digits_value :: "string \<Rightarrow> int" where
  "digits_value s = fold (\<lambda>c n. 10 * n + digit_value c) s 0"

definition parse_u32 :: "string \<Rightarrow> u32 option" where
  "parse_u32 s = (let ds = (case s of c # cs \<Rightarrow> if c = CHR ''+'' then cs else s | [] \<Rightarrow> []) in
     if ds \<noteq> [] \<and> list_all is_ascii_digit ds \<and> digits_value ds < 2 ^ 32
     then Some (nat (digits_value ds)) else None)"

definition to_ascii_lowercase :: "char \<Rightarrow> char" where
  "to_ascii_lowercase c = (if is_ascii_uppercase c then char_of ((of_char c :: nat) + 32) else c)"

end
