(* ===== verification/Guild.thy ===== *)
theory Guild
  imports Samples RustText
begin

text \<open>
  \<^verbatim>\<open>crates/guild\<close>: the declared rank schema and the guild store. \<open>guild_members\<close> is keyed by the
  account, as the migration's unique index demands; a deleted guild takes its member rows with
  it. Names are compared after \<^verbatim>\<open>trim\<close>, whose white space is written out for the code points a
  \<open>char\<close> has.
\<close>

section \<open>Declared ranks\<close>

datatype guild_permission = Invite | Kick | Promote | Demote | EditMotd | EditTag | Rename

record guild_rank =
  gr_key :: string
  gr_name :: string
  gr_permissions :: "guild_permission list"

record guild_schema =
  gs_schema_version :: u32
  gs_ranks :: "guild_rank list"

definition rank_has :: "guild_rank \<Rightarrow> guild_permission \<Rightarrow> bool" where
  "rank_has rank permission = list_ex (\<lambda>p. p = permission) (gr_permissions rank)"

definition guild_from_yaml :: "(string \<Rightarrow> guild_schema option) \<Rightarrow> string \<Rightarrow> error + guild_schema" where
  "guild_from_yaml parse input =
     try_then (ok_or_else (parse input) (Schema ParseFailed)) (\<lambda>schema.
     try_then (ensure (\<not> gs_ranks schema = []) (Schema EmptySchema)) (\<lambda>_.
     try_then (check_unique gr_key (\<lambda>k. Schema (DuplicateKey k)) (\<lambda>_. Inr ()) {}
       (gs_ranks schema)) (\<lambda>_.
     Inr schema)))"

text \<open>\<^verbatim>\<open>self.ranks[0]\<close> and \<^verbatim>\<open>self.ranks[self.ranks.len() - 1]\<close>; the loader rejects an empty list.\<close>

definition founder_rank :: "guild_schema \<Rightarrow> guild_rank" where
  "founder_rank sch = hd (gs_ranks sch)"

definition default_member_rank :: "guild_schema \<Rightarrow> guild_rank" where
  "default_member_rank sch = last (gs_ranks sch)"

definition resolve_rank :: "guild_schema \<Rightarrow> string \<Rightarrow> error + guild_rank" where
  "resolve_rank sch key =
     ok_or_else (find_by gr_key (gs_ranks sch) key) (Schema (UnknownGuildRank key))"

definition is_founder_rank :: "guild_schema \<Rightarrow> string \<Rightarrow> bool" where
  "is_founder_rank sch key \<longleftrightarrow> gr_key (founder_rank sch) = key"

section \<open>The store\<close>

definition membership :: "account_id \<Rightarrow> (guild_id \<times> string) option sql" where
  "membership a = query (\<lambda>db. map_of (guild_members db) a)"

definition guild_of :: "account_id \<Rightarrow> guild_id option sql" where
  "guild_of a = andThen (membership a) (\<lambda>m. ok (map_option fst m))"

definition insert_guild ::
  "guild_id \<Rightarrow> string \<Rightarrow> realm_id \<Rightarrow> channel_id option \<Rightarrow> unit sql" where
  "insert_guild g name realm channel = (\<lambda>db.
     if has_row (guilds db) g then (Inl (Sql UniqueViolation), db)
     else if \<not> has_row (realms db) realm then (Inl (Sql ForeignKeyViolation), db)
     else (Inr (), db\<lparr>guilds := put_row g \<lparr>gd_name = name, gd_motd = None, gd_tag = None,
       gd_realm = realm, gd_chat_channel = channel\<rparr> (guilds db)\<rparr>))"

definition insert_guild_member :: "guild_id \<Rightarrow> account_id \<Rightarrow> string \<Rightarrow> unit sql" where
  "insert_guild_member g a rank_key = (\<lambda>db.
     if has_row (guild_members db) a then (Inl (Sql UniqueViolation), db)
     else if \<not> has_row (guilds db) g \<or> a \<notin> set (accounts db)
       then (Inl (Sql ForeignKeyViolation), db)
     else (Inr (), db\<lparr>guild_members := put_row a (g, rank_key) (guild_members db)\<rparr>))"

definition delete_guild :: "guild_id \<Rightarrow> unit sql" where
  "delete_guild g = execute (\<lambda>db. db\<lparr>guilds := del_row g (guilds db),
     guild_members := del_where (\<lambda>a m. fst m = g) (guild_members db)\<rparr>)"

definition delete_guild_member :: "guild_id \<Rightarrow> account_id \<Rightarrow> unit sql" where
  "delete_guild_member g a = execute (\<lambda>db.
     db\<lparr>guild_members := del_where (\<lambda>a' m. a' = a \<and> fst m = g) (guild_members db)\<rparr>)"

definition update_rank :: "string \<Rightarrow> guild_id \<Rightarrow> account_id \<Rightarrow> unit sql" where
  "update_rank rank_key g a = execute (\<lambda>db.
     db\<lparr>guild_members := upd_row a (\<lambda>m. if fst m = g then (g, rank_key) else m) (guild_members db)\<rparr>)"

definition update_guild :: "guild_id \<Rightarrow> (guild_row \<Rightarrow> guild_row) \<Rightarrow> unit sql" where
  "update_guild g f = execute (\<lambda>db. db\<lparr>guilds := upd_row g f (guilds db)\<rparr>)"

definition guild_create ::
  "guild_schema \<Rightarrow> guild_id \<Rightarrow> account_id \<Rightarrow> string \<Rightarrow> realm_id \<Rightarrow> channel_id option \<Rightarrow> guild_id sql" where
  "guild_create sch fresh founder name realm channel =
     andThen (require (\<not> blank name) (Guild GuildNameEmpty)) (\<lambda>_.
     transaction (
       andThen (guild_of founder) (\<lambda>existing.
       andThen (require (existing = None) (Guild AlreadyInGuild)) (\<lambda>_.
       andThen (insert_guild fresh name realm channel) (\<lambda>_.
       andThen (insert_guild_member fresh founder (gr_key (founder_rank sch))) (\<lambda>_.
       ok fresh))))))"

definition accept_guild_invite ::
  "guild_schema \<Rightarrow> account_id \<Rightarrow> account_id \<Rightarrow> guild_id sql" where
  "accept_guild_invite sch inviter invitee =
     andThen (require (\<not> inviter = invitee) (Guild CannotInviteSelf)) (\<lambda>_.
     transaction (
       andThen (guild_of invitee) (\<lambda>existing.
       andThen (require (existing = None) (Guild InviteeInGuild)) (\<lambda>_.
       andThen (membership inviter) (\<lambda>found.
       andThen (ok_or found (Guild InviterNotInGuild)) (\<lambda>(g, inviter_rank_key).
       andThen (lift (resolve_rank sch inviter_rank_key)) (\<lambda>inviter_rank.
       andThen (require (rank_has inviter_rank Invite) (Guild PermissionDenied)) (\<lambda>_.
       andThen (insert_guild_member g invitee (gr_key (default_member_rank sch))) (\<lambda>_.
       ok g)))))))))"

definition kick :: "guild_schema \<Rightarrow> account_id \<Rightarrow> account_id \<Rightarrow> unit sql" where
  "kick sch actor target = transaction (
     andThen (membership actor) (\<lambda>found.
     andThen (ok_or found (Guild ActorNotInGuild)) (\<lambda>(g, actor_rank_key).
     andThen (lift (resolve_rank sch actor_rank_key)) (\<lambda>actor_rank.
     andThen (require (rank_has actor_rank Kick) (Guild PermissionDenied)) (\<lambda>_.
     andThen (membership target) (\<lambda>target_found.
     andThen (ok_or target_found (Guild TargetNotInGuild)) (\<lambda>(target_guild, target_rank_key).
     andThen (require (\<not> target_guild \<noteq> g) (Guild TargetNotInActorsGuild)) (\<lambda>_.
     andThen (require (\<not> is_founder_rank sch target_rank_key) (Guild CannotKickFounder)) (\<lambda>_.
     delete_guild_member g target)))))))))"

definition change_rank ::
  "guild_schema \<Rightarrow> account_id \<Rightarrow> account_id \<Rightarrow> string \<Rightarrow> guild_permission \<Rightarrow> unit sql" where
  "change_rank sch actor target new_rank_key required_permission =
     andThen (lift (resolve_rank sch new_rank_key)) (\<lambda>new_rank.
     transaction (
       andThen (membership actor) (\<lambda>found.
       andThen (ok_or found (Guild ActorNotInGuild)) (\<lambda>(g, actor_rank_key).
       andThen (lift (resolve_rank sch actor_rank_key)) (\<lambda>actor_rank.
       andThen (require (rank_has actor_rank required_permission) (Guild PermissionDenied)) (\<lambda>_.
       andThen (membership target) (\<lambda>target_found.
       andThen (ok_or target_found (Guild TargetNotInGuild)) (\<lambda>(target_guild, target_rank_key).
       andThen (require (\<not> target_guild \<noteq> g) (Guild TargetNotInActorsGuild)) (\<lambda>_.
       let moves_founder_rank =
         is_founder_rank sch new_rank_key \<or> is_founder_rank sch target_rank_key in
       andThen (require (\<not> (moves_founder_rank \<and> \<not> is_founder_rank sch actor_rank_key))
         (Guild FounderRankOnly)) (\<lambda>_.
       update_rank (gr_key new_rank) g target))))))))))"

definition promote :: "guild_schema \<Rightarrow> account_id \<Rightarrow> account_id \<Rightarrow> string \<Rightarrow> unit sql" where
  "promote sch actor target new_rank_key = change_rank sch actor target new_rank_key Promote"

definition demote :: "guild_schema \<Rightarrow> account_id \<Rightarrow> account_id \<Rightarrow> string \<Rightarrow> unit sql" where
  "demote sch actor target new_rank_key = change_rank sch actor target new_rank_key Demote"

definition count_others :: "guild_id \<Rightarrow> account_id \<Rightarrow> i64 sql" where
  "count_others g a = query (\<lambda>db. count_where (\<lambda>a' m. fst m = g \<and> a' \<noteq> a) (guild_members db))"

definition leave_guild :: "guild_schema \<Rightarrow> account_id \<Rightarrow> unit sql" where
  "leave_guild sch a = transaction (
     andThen (membership a) (\<lambda>found.
     andThen (ok_or found (Guild AccountNotInGuild)) (\<lambda>(g, rank_key).
     if is_founder_rank sch rank_key then
       andThen (count_others g a) (\<lambda>others.
       andThen (require (\<not> others > 0) (Guild FounderMustTransfer)) (\<lambda>_.
       delete_guild g))
     else delete_guild_member g a)))"

definition disband :: "guild_schema \<Rightarrow> account_id \<Rightarrow> unit sql" where
  "disband sch requested_by =
     andThen (membership requested_by) (\<lambda>found.
     andThen (ok_or found (Guild AccountNotInGuild)) (\<lambda>(g, rank_key).
     andThen (require (is_founder_rank sch rank_key) (Guild OnlyFounderDisbands)) (\<lambda>_.
     delete_guild g)))"

definition require_permission ::
  "guild_schema \<Rightarrow> account_id \<Rightarrow> guild_permission \<Rightarrow> guild_id sql" where
  "require_permission sch actor required_permission =
     andThen (membership actor) (\<lambda>found.
     andThen (ok_or found (Guild ActorNotInGuild)) (\<lambda>(g, rank_key).
     andThen (lift (resolve_rank sch rank_key)) (\<lambda>rank.
     andThen (require (rank_has rank required_permission) (Guild PermissionDenied)) (\<lambda>_.
     ok g))))"

definition set_motd :: "guild_schema \<Rightarrow> account_id \<Rightarrow> string option \<Rightarrow> unit sql" where
  "set_motd sch actor motd =
     andThen (require_permission sch actor EditMotd) (\<lambda>g. update_guild g (\<lambda>r. r\<lparr>gd_motd := motd\<rparr>))"

definition set_tag :: "guild_schema \<Rightarrow> account_id \<Rightarrow> string option \<Rightarrow> unit sql" where
  "set_tag sch actor tag =
     andThen (require_permission sch actor EditTag) (\<lambda>g. update_guild g (\<lambda>r. r\<lparr>gd_tag := tag\<rparr>))"

definition guild_rename :: "guild_schema \<Rightarrow> account_id \<Rightarrow> string \<Rightarrow> unit sql" where
  "guild_rename sch actor name =
     andThen (require (\<not> blank name) (Guild GuildNameEmpty)) (\<lambda>_.
     andThen (require_permission sch actor Rename) (\<lambda>g. update_guild g (\<lambda>r. r\<lparr>gd_name := name\<rparr>)))"

definition guild_members_of :: "guild_id \<Rightarrow> (account_id \<times> string) list sql" where
  "guild_members_of g = query (\<lambda>db.
     map (\<lambda>(a, m). (a, snd m)) (rows_where (\<lambda>a m. fst m = g) (guild_members db)))"

definition guild_info :: "guild_id \<Rightarrow> (guild_id \<times> guild_row) option sql" where
  "guild_info g = query (\<lambda>db. map_option (\<lambda>r. (g, r)) (map_of (guilds db) g))"

section \<open>Constraints\<close>

lemma db_wf_guild_update:
  assumes "db_wf db" "keys_unique gs" "keys_unique ms"
    and "\<And>g r. map_of gs g = Some r \<Longrightarrow> has_row (realms db) (gd_realm r)"
    and "\<And>a g k. map_of ms a = Some (g, k) \<Longrightarrow> has_row gs g \<and> a \<in> set (accounts db)"
  shows "db_wf (db\<lparr>guilds := gs, guild_members := ms\<rparr>)"
  using assms by (simp add: db_wf_def wf_defs)

lemma db_wf_guild_row: "db_wf db \<Longrightarrow> map_of (guilds db) g = Some r \<Longrightarrow> has_row (realms db) (gd_realm r)"
  by (simp add: db_wf_def guilds_wf_def)

lemma db_wf_guild_member: "db_wf db \<Longrightarrow> map_of (guild_members db) a = Some (g, k) \<Longrightarrow>
    has_row (guilds db) g \<and> a \<in> set (accounts db)"
  unfolding db_wf_def guilds_wf_def by blast

lemma db_wf_guilds_update:
  assumes "db_wf db" "keys_unique gs"
    and "\<And>g r. map_of gs g = Some r \<Longrightarrow> has_row (realms db) (gd_realm r)"
    and "\<And>g. has_row (guilds db) g \<Longrightarrow> has_row gs g"
  shows "db_wf (db\<lparr>guilds := gs\<rparr>)"
  using db_wf_guild_update [OF assms(1,2) db_wf_unique(11) [OF assms(1)] assms(3)]
    db_wf_guild_member [OF assms(1)] assms(4) by simp

lemma db_wf_members_update:
  assumes "db_wf db" "keys_unique ms"
    and "\<And>a g k. map_of ms a = Some (g, k) \<Longrightarrow> has_row (guilds db) g \<and> a \<in> set (accounts db)"
  shows "db_wf (db\<lparr>guild_members := ms\<rparr>)"
  using db_wf_guild_update [OF assms(1) db_wf_unique(10) [OF assms(1)] assms(2)
      db_wf_guild_row [OF assms(1)]] assms(3) by simp

lemma pres_insert_guild [pres_intros]: "preserves db_wf (insert_guild g name realm channel)"
proof (rule preservesI)
  fix db r db' assume wf: "db_wf db" and run: "insert_guild g name realm channel db = (r, db')"
  have "db_wf (db\<lparr>guilds := put_row g row (guilds db)\<rparr>)" if "has_row (realms db) (gd_realm row)" for row
    using that db_wf_unique(10) [OF wf] db_wf_guild_row [OF wf]
    by (intro db_wf_guilds_update [OF wf]) (auto split: if_splits)
  then show "db_wf db'" using run wf by (auto simp: insert_guild_def split: if_splits)
qed

lemma pres_insert_guild_member [pres_intros]: "preserves db_wf (insert_guild_member g a k)"
proof (rule preservesI)
  fix db r db' assume wf: "db_wf db" and run: "insert_guild_member g a k db = (r, db')"
  have "db_wf (db\<lparr>guild_members := put_row a (g, k) (guild_members db)\<rparr>)"
    if "has_row (guilds db) g" "a \<in> set (accounts db)"
    using that db_wf_unique(11) [OF wf] db_wf_guild_member [OF wf]
    by (intro db_wf_members_update [OF wf]) (auto split: if_splits)
  then show "db_wf db'" using run wf by (auto simp: insert_guild_member_def split: if_splits)
qed

lemma pres_delete_guild [pres_intros]: "preserves db_wf (delete_guild g)"
  unfolding delete_guild_def
proof (rule pres_execute)
  fix db :: db assume wf: "db_wf db"
  show "db_wf (db\<lparr>guilds := del_row g (guilds db),
      guild_members := del_where (\<lambda>a m. fst m = g) (guild_members db)\<rparr>)"
    using db_wf_unique(10,11) [OF wf] db_wf_guild_row [OF wf] db_wf_guild_member [OF wf]
    by (intro db_wf_guild_update [OF wf]) (auto simp: map_of_del_where split: option.splits if_splits)
qed

lemma pres_delete_guild_member [pres_intros]: "preserves db_wf (delete_guild_member g a)"
  unfolding delete_guild_member_def
proof (rule pres_execute)
  fix db :: db assume wf: "db_wf db"
  show "db_wf (db\<lparr>guild_members := del_where (\<lambda>a' m. a' = a \<and> fst m = g) (guild_members db)\<rparr>)"
    using db_wf_unique(11) [OF wf] db_wf_guild_member [OF wf]
    by (intro db_wf_members_update [OF wf]) (auto simp: map_of_del_where split: option.splits if_splits)
qed

lemma pres_update_rank [pres_intros]: "preserves db_wf (update_rank k g a)"
  unfolding update_rank_def
proof (rule pres_execute)
  fix db :: db assume wf: "db_wf db"
  show "db_wf (db\<lparr>guild_members :=
      upd_row a (\<lambda>m. if fst m = g then (g, k) else m) (guild_members db)\<rparr>)"
    using db_wf_unique(11) [OF wf] db_wf_guild_member [OF wf]
    by (intro db_wf_members_update [OF wf]) (auto split: if_splits)
qed

lemma pres_update_guild: "(\<And>r. gd_realm (f r) = gd_realm r) \<Longrightarrow> preserves db_wf (update_guild g f)"
  unfolding update_guild_def
proof (rule pres_execute)
  fix db :: db assume wf: "db_wf db" and f: "\<And>r. gd_realm (f r) = gd_realm r"
  show "db_wf (db\<lparr>guilds := upd_row g f (guilds db)\<rparr>)"
    using f db_wf_unique(10) [OF wf] db_wf_guild_row [OF wf]
    by (intro db_wf_guilds_update [OF wf]) (auto split: if_splits)
qed

lemma pres_membership [pres_intros]: "preserves I (membership a)"
  by (simp add: membership_def pres_query)

lemma pres_guild_of [pres_intros]: "preserves I (guild_of a)"
  unfolding guild_of_def by (intro pres_intros)

lemma pres_require_permission [pres_intros]: "preserves I (require_permission sch a p)"
  unfolding require_permission_def by (intro pres_intros)

lemma pres_guild_ops [pres_intros]:
  "preserves db_wf (guild_create sch fresh founder name realm channel)"
  "preserves db_wf (accept_guild_invite sch inviter invitee)"
  "preserves db_wf (kick sch actor target)"
  "preserves db_wf (change_rank sch actor target key p)"
  "preserves db_wf (leave_guild sch a)"
  "preserves db_wf (disband sch a)"
  "preserves db_wf (set_motd sch a motd)"
  "preserves db_wf (set_tag sch a tag)"
  "preserves db_wf (guild_rename sch a name)"
  unfolding guild_create_def accept_guild_invite_def kick_def change_rank_def leave_guild_def
    disband_def set_motd_def set_tag_def guild_rename_def Let_def count_others_def
  by (intro pres_intros pres_update_guild; simp)+

section \<open>What each success means\<close>

abbreviation member :: "db \<Rightarrow> account_id \<Rightarrow> (guild_id \<times> string) option" where
  "member db \<equiv> map_of (guild_members db)"

definition permitted :: "guild_schema \<Rightarrow> string \<Rightarrow> guild_permission \<Rightarrow> bool" where
  "permitted sch key p \<longleftrightarrow> (\<exists>rank. resolve_rank sch key = Inr rank \<and> rank_has rank p)"

lemma member_delete_guild_member:
  "keys_unique (guild_members db) \<Longrightarrow> delete_guild_member g t db = (r, db') \<Longrightarrow>
     r = Inr () \<and> guilds db' = guilds db
     \<and> (\<forall>x. member db' x = (if x = t \<and> (\<exists>k. member db t = Some (g, k)) then None else member db x))"
  by (auto simp: delete_guild_member_def map_of_del_where split: option.split)

lemma member_delete_guild:
  "keys_unique (guild_members db) \<Longrightarrow> delete_guild g db = (r, db') \<Longrightarrow>
     r = Inr () \<and> map_of (guilds db') = (map_of (guilds db))(g := None)
     \<and> (\<forall>x. member db' x = (if \<exists>k. member db x = Some (g, k) then None else member db x))"
  by (auto simp: delete_guild_def map_of_del_where split: option.split)

lemma member_update_rank:
  "update_rank k g t db = (r, db') \<Longrightarrow> r = Inr () \<and> guilds db' = guilds db
     \<and> (\<forall>x. member db' x
          = (if x = t \<and> (\<exists>k. member db t = Some (g, k)) then Some (g, k) else member db x))"
  by (cases "member db t") (auto simp: update_rank_def)

lemma accept_guild_invite_Inr:
  "accept_guild_invite sch inviter invitee db = (Inr g, db') \<Longrightarrow>
     inviter \<noteq> invitee \<and> member db invitee = None
     \<and> (\<exists>k. member db inviter = Some (g, k) \<and> permitted sch k Invite)
     \<and> member db' = (member db)(invitee \<mapsto> (g, gr_key (default_member_rank sch)))"
  by (auto simp: accept_guild_invite_def andThen_Inr guild_of_def membership_def permitted_def
      insert_guild_member_def simp del: guard_steps split: if_splits)

lemma kick_Inr:
  "keys_unique (guild_members db) \<Longrightarrow> kick sch actor target db = (Inr u, db') \<Longrightarrow>
     \<exists>g ka kt. member db actor = Some (g, ka) \<and> permitted sch ka Kick
       \<and> member db target = Some (g, kt) \<and> \<not> is_founder_rank sch kt
       \<and> member db' = (member db)(target := None)"
  by (auto simp: kick_def andThen_Inr membership_def permitted_def fun_eq_iff simp del: guard_steps
      dest!: member_delete_guild_member split: if_splits)

lemma change_rank_Inr:
  "change_rank sch actor target key p db = (Inr u, db') \<Longrightarrow>
     \<exists>g ka kt. member db actor = Some (g, ka) \<and> permitted sch ka p
       \<and> member db target = Some (g, kt) \<and> (\<exists>rank. resolve_rank sch key = Inr rank)
       \<and> (is_founder_rank sch key \<or> is_founder_rank sch kt \<longrightarrow> is_founder_rank sch ka)
       \<and> member db' = (member db)(target \<mapsto> (g, key))"
proof -
  assume run: "change_rank sch actor target key p db = (Inr u, db')"
  then obtain rank g ka kt where *: "resolve_rank sch key = Inr rank" "member db actor = Some (g, ka)"
    "permitted sch ka p" "member db target = Some (g, kt)"
    "is_founder_rank sch key \<or> is_founder_rank sch kt \<longrightarrow> is_founder_rank sch ka"
    and up: "update_rank (gr_key rank) g target db = (Inr u, db')"
    by (auto simp: change_rank_def andThen_Inr membership_def permitted_def Let_def
        simp del: guard_steps)
  have "gr_key rank = key" using *(1) by (auto simp: resolve_rank_def dest: find_by_Some)
  then have "member db' = (member db)(target \<mapsto> (g, key))"
    using member_update_rank [OF up] *(4) by (auto simp: fun_eq_iff)
  with * show ?thesis by blast
qed

lemma count_others_zero:
  "keys_unique (guild_members db) \<Longrightarrow> \<not> 0 < count_where (\<lambda>a' m. fst m = g \<and> a' \<noteq> a) (guild_members db)
     \<longleftrightarrow> (\<forall>x k. member db x = Some (g, k) \<longrightarrow> x = a)"
proof -
  assume u: "keys_unique (guild_members db)"
  have iff: "\<not> 0 < count_where (\<lambda>a' m. fst m = g \<and> a' \<noteq> a) (guild_members db)
      \<longleftrightarrow> count_where (\<lambda>a' m. fst m = g \<and> a' \<noteq> a) (guild_members db) = 0"
    using count_where_nonneg [of "\<lambda>a' m. fst m = g \<and> a' \<noteq> a" "guild_members db"] by linarith
  show ?thesis unfolding iff count_where_zero_map [OF u] by auto
qed

lemma leave_guild_Inr:
  assumes u: "keys_unique (guild_members db)" and run: "leave_guild sch a db = (Inr u', db')"
  shows "\<exists>g k. member db a = Some (g, k) \<and> member db' = (member db)(a := None)
    \<and> (if is_founder_rank sch k
       then (\<forall>x k. member db x = Some (g, k) \<longrightarrow> x = a)
          \<and> map_of (guilds db') = (map_of (guilds db))(g := None)
       else guilds db' = guilds db)"
proof -
  obtain g k where m: "member db a = Some (g, k)"
    and rest: "(if is_founder_rank sch k then
       andThen (count_others g a) (\<lambda>others.
       andThen (require (\<not> others > 0) (Guild FounderMustTransfer)) (\<lambda>_. delete_guild g))
     else delete_guild_member g a) db = (Inr u', db')"
    using run by (auto simp: leave_guild_def andThen_Inr membership_def simp del: guard_steps)
  show ?thesis
  proof (cases "is_founder_rank sch k")
    case True
    then have only: "\<forall>x k. member db x = Some (g, k) \<longrightarrow> x = a" and del: "delete_guild g db = (Inr u', db')"
      using rest count_others_zero [OF u, of g a]
      by (auto simp: count_others_def split: if_splits)
    show ?thesis
      using member_delete_guild [OF u del] m only True by (auto simp: fun_eq_iff)
  next
    case False
    then have del: "delete_guild_member g a db = (Inr u', db')" using rest by simp
    show ?thesis using member_delete_guild_member [OF u del] m False by (auto simp: fun_eq_iff)
  qed
qed

lemma disband_Inr:
  assumes "keys_unique (guild_members db)" "disband sch a db = (Inr u, db')"
  shows "\<exists>g k. member db a = Some (g, k) \<and> is_founder_rank sch k
    \<and> map_of (guilds db') = (map_of (guilds db))(g := None)
    \<and> (\<forall>x. member db' x = (if \<exists>k. member db x = Some (g, k) then None else member db x))"
  using assms(2) member_delete_guild [OF assms(1)]
  by (fastforce simp: disband_def andThen_Inr membership_def simp del: guard_steps)

lemma guild_create_Inr:
  "guild_create sch fresh founder name realm channel db = (Inr g, db') \<Longrightarrow>
     g = fresh \<and> \<not> blank name \<and> member db founder = None \<and> \<not> has_row (guilds db) fresh
     \<and> member db' = (member db)(founder \<mapsto> (fresh, gr_key (founder_rank sch)))"
  by (auto simp: guild_create_def andThen_Inr guild_of_def membership_def insert_guild_def
      insert_guild_member_def simp del: guard_steps split: if_splits)

text \<open>A refused operation changes nothing; the metadata edits never touch the roster.\<close>

lemma guild_refused:
  "guild_create sch fresh founder name realm channel db = (Inl e, db') \<Longrightarrow> db' = db"
  "accept_guild_invite sch inviter invitee db = (Inl e, db') \<Longrightarrow> db' = db"
  "kick sch actor target db = (Inl e, db') \<Longrightarrow> db' = db"
  "change_rank sch actor target key p db = (Inl e, db') \<Longrightarrow> db' = db"
  "leave_guild sch a db = (Inl e, db') \<Longrightarrow> db' = db"
  by (auto simp: guild_create_def accept_guild_invite_def kick_def change_rank_def leave_guild_def
      dest: transaction_rollback split: if_splits sum.splits)

lemma disband_refused: "disband sch a db = (Inl e, db') \<Longrightarrow> db' = db"
  by (auto simp: disband_def membership_def delete_guild_def split: if_splits option.splits prod.splits)

lemma require_permission_apply:
  "require_permission sch a p db = (case member db a of
      None \<Rightarrow> Inl (Guild ActorNotInGuild)
    | Some (g, k) \<Rightarrow> (case resolve_rank sch k of Inl e \<Rightarrow> Inl e
        | Inr rank \<Rightarrow> if rank_has rank p then Inr g else Inl (Guild PermissionDenied)), db)"
  by (simp add: require_permission_def membership_def split: option.split sum.split prod.split)

lemma metadata_roster:
  "set_motd sch a motd db = (r, db') \<Longrightarrow> guild_members db' = guild_members db"
  "set_tag sch a tag db = (r, db') \<Longrightarrow> guild_members db' = guild_members db"
  "guild_rename sch a name db = (r, db') \<Longrightarrow> guild_members db' = guild_members db"
  by (auto simp: set_motd_def set_tag_def guild_rename_def andThen_apply require_permission_apply
      update_guild_def split: if_splits option.splits sum.splits prod.splits)

section \<open>Properties\<close>

text \<open>Everything one account can do to the guilds, with any outcome.\<close>

inductive guild_act :: "guild_schema \<Rightarrow> account_id \<Rightarrow> db \<Rightarrow> db \<Rightarrow> bool" for sch actor where
  act_create: "guild_create sch fresh actor name realm channel db = (r, db') \<Longrightarrow> guild_act sch actor db db'"
| act_invite: "accept_guild_invite sch actor invitee db = (r', db') \<Longrightarrow> guild_act sch actor db db'"
| act_kick: "kick sch actor target db = (u, db') \<Longrightarrow> guild_act sch actor db db'"
| act_promote: "promote sch actor target key db = (u, db') \<Longrightarrow> guild_act sch actor db db'"
| act_demote: "demote sch actor target key db = (u, db') \<Longrightarrow> guild_act sch actor db db'"
| act_leave: "leave_guild sch actor db = (u, db') \<Longrightarrow> guild_act sch actor db db'"
| act_disband: "disband sch actor db = (u, db') \<Longrightarrow> guild_act sch actor db db'"
| act_motd: "set_motd sch actor motd db = (u, db') \<Longrightarrow> guild_act sch actor db db'"
| act_tag: "set_tag sch actor tag db = (u, db') \<Longrightarrow> guild_act sch actor db db'"
| act_rename: "guild_rename sch actor name db = (u, db') \<Longrightarrow> guild_act sch actor db db'"

text \<open>What an actor must be for the membership of another account to change from \<open>m\<close> to \<open>m'\<close>.\<close>

definition authorized_change ::
  "guild_schema \<Rightarrow> (guild_id \<times> string) option \<Rightarrow> (guild_id \<times> string) option
     \<Rightarrow> (guild_id \<times> string) option \<Rightarrow> bool" where
  "authorized_change sch actor m m' \<longleftrightarrow> (\<exists>g ka. actor = Some (g, ka)
     \<and> (case (m, m') of
          (None, Some (g', k')) \<Rightarrow>
            g' = g \<and> k' = gr_key (default_member_rank sch) \<and> permitted sch ka Invite
        | (Some (g', k), None) \<Rightarrow>
            g' = g \<and> (is_founder_rank sch ka \<or> permitted sch ka Kick \<and> \<not> is_founder_rank sch k)
        | (Some (g1, k), Some (g2, k')) \<Rightarrow>
            g1 = g \<and> g2 = g \<and> (permitted sch ka Promote \<or> permitted sch ka Demote)
            \<and> (is_founder_rank sch k \<or> is_founder_rank sch k' \<longrightarrow> is_founder_rank sch ka)
        | (None, None) \<Rightarrow> False))"

lemma guild_act_authorized:
  assumes u: "keys_unique (guild_members db)" and act: "guild_act sch actor db db'"
    and x: "x \<noteq> actor" and changed: "member db' x \<noteq> member db x"
  shows "authorized_change sch (member db actor) (member db x) (member db' x)"
  using act
proof cases
  case (act_create fresh name realm channel r)
  then show ?thesis using x changed guild_create_Inr guild_refused(1) by (cases r) (fastforce)+
next
  case (act_invite invitee r)
  then show ?thesis using x changed
    by (cases r) (auto simp: authorized_change_def dest!: accept_guild_invite_Inr guild_refused(2)
        split: if_splits)
next
  case (act_kick target r)
  then show ?thesis using x changed
    by (cases r) (auto simp: authorized_change_def dest!: kick_Inr [OF u] guild_refused(3)
        split: if_splits)
next
  case (act_promote target key r)
  then show ?thesis using x changed
    by (cases r) (auto simp: authorized_change_def promote_def dest!: change_rank_Inr guild_refused(4)
        split: if_splits)
next
  case (act_demote target key r)
  then show ?thesis using x changed
    by (cases r) (auto simp: authorized_change_def demote_def dest!: change_rank_Inr guild_refused(4)
        split: if_splits)
next
  case (act_leave r)
  then show ?thesis using x changed
    by (cases r) (auto dest!: leave_guild_Inr [OF u] guild_refused(5))
next
  case (act_disband r)
  then show ?thesis using x changed
    by (cases r) (auto simp: authorized_change_def dest!: disband_Inr [OF u] disband_refused
        split: if_splits)
qed (use changed in \<open>auto dest!: metadata_roster\<close>)

text \<open>
  C25: Nobody's guild membership changes without authority. Whatever one account does, with any
  outcome, if another account's membership changes then the actor was a member of the guild
  concerned and: an addition is at the default rank by an actor permitted to invite; a removal
  is by a founder-rank member, or by one permitted to kick and not of a founder-rank member; a
  rank change is by an actor permitted to promote or demote, and moves nobody into or out of the
  founder rank unless the actor holds it.
\<close>

theorem guild_changes_authorized:
  assumes "db_wf db" "guild_act sch actor db db'" "x \<noteq> actor" "member db' x \<noteq> member db x"
  shows "authorized_change sch (member db actor) (member db x) (member db' x)"
  using guild_act_authorized [OF db_wf_unique(11) [OF assms(1)] assms(2-4)] .

definition sample_guilds :: guild_schema where
  "sample_guilds = \<lparr>gs_schema_version = 1, gs_ranks =
     [\<lparr>gr_key = ''leader'', gr_name = ''Leader'', gr_permissions = [Invite, Kick, Promote, Demote]\<rparr>,
      \<lparr>gr_key = ''member'', gr_name = ''Member'', gr_permissions = []\<rparr>]\<rparr>"

definition sample_guild_db :: db where
  "sample_guild_db = snd (guild_create sample_guilds (Id 5) (Id 1) ''wolves'' (Id 1) None sample_db)"

definition sample_guild_db2 :: db where
  "sample_guild_db2 = snd (accept_guild_invite sample_guilds (Id 1) (Id 2) sample_guild_db)"

lemma sample_guild_members:
  "guild_members sample_guild_db = [(Id 1, (Id 5, ''leader''))]"
  "guild_members sample_guild_db2 = [(Id 1, (Id 5, ''leader'')), (Id 2, (Id 5, ''member''))]"
  unfolding sample_guild_db2_def sample_guild_db_def by code_simp+

lemma sample_guild_db_wf: "db_wf sample_guild_db" "db_wf sample_guild_db2"
proof -
  show wf: "db_wf sample_guild_db"
    unfolding sample_guild_db_def by (rule preserves_sndD [OF pres_guild_ops(1) sample_db_wf])
  show "db_wf sample_guild_db2"
    unfolding sample_guild_db2_def by (rule preserves_sndD [OF pres_guild_ops(2) wf])
qed

lemma guild_changes_authorized_witness:
  "authorized_change sample_guilds (member sample_guild_db (Id 1)) None (Some (Id 5, ''member''))"
proof -
  have "guild_act sample_guilds (Id 1) sample_guild_db sample_guild_db2"
    by (rule act_invite [of _ _ "Id 2" _ "fst (accept_guild_invite sample_guilds (Id 1) (Id 2) sample_guild_db)"])
      (simp add: sample_guild_db2_def)
  from guild_changes_authorized [OF sample_guild_db_wf(1) this, of "Id 2"] show ?thesis
    by (simp add: sample_guild_members)
qed

text \<open>
  Founders of other accounts cannot be removed, demoted or added by somebody who is not one.
  When the lowest declared rank is not the founder rank, an act of an account that holds no
  founder rank leaves the founder-rank memberships of every other account exactly as they were,
  and makes the actor itself a founder only of a guild it has just created.
\<close>

theorem guild_founders_protected:
  assumes "db_wf db" "guild_act sch actor db db'"
    "\<not> is_founder_rank sch (gr_key (default_member_rank sch))"
    "\<forall>g k. member db actor = Some (g, k) \<longrightarrow> \<not> is_founder_rank sch k"
  shows "(\<forall>x g k. x \<noteq> actor \<and> is_founder_rank sch k \<longrightarrow>
        (member db' x = Some (g, k) \<longleftrightarrow> member db x = Some (g, k)))
    \<and> (\<forall>g k. member db' actor = Some (g, k) \<and> is_founder_rank sch k \<longrightarrow> \<not> has_row (guilds db) g)"
proof (intro conjI allI impI)
  fix x g k assume "x \<noteq> actor \<and> is_founder_rank sch k"
  then show "member db' x = Some (g, k) \<longleftrightarrow> member db x = Some (g, k)"
    using guild_act_authorized [OF db_wf_unique(11) [OF assms(1)] assms(2), of x] assms(3,4)
    by (fastforce simp: authorized_change_def split: option.splits)
next
  fix g k assume now: "member db' actor = Some (g, k) \<and> is_founder_rank sch k"
  note u = db_wf_unique(11) [OF assms(1)]
  have same: "member db' actor \<noteq> member db actor" using now assms(4) by metis
  show "\<not> has_row (guilds db) g"
    using assms(2)
  proof cases
    case (act_create fresh name realm channel r)
    then show ?thesis using now same by (cases r) (auto dest!: guild_create_Inr guild_refused(1))
  next
    case (act_invite invitee r)
    then show ?thesis using same
      by (cases r) (auto dest!: accept_guild_invite_Inr guild_refused(2) split: if_splits)
  next
    case (act_kick target r)
    then show ?thesis using now same by (cases r) (auto dest!: kick_Inr [OF u] guild_refused(3) split: if_splits)
  next
    case (act_promote target key r)
    then show ?thesis using now same assms(4)
      by (cases r) (auto simp: promote_def dest!: change_rank_Inr guild_refused(4) split: if_splits)
  next
    case (act_demote target key r)
    then show ?thesis using now same assms(4)
      by (cases r) (auto simp: demote_def dest!: change_rank_Inr guild_refused(4) split: if_splits)
  next
    case (act_leave r)
    then show ?thesis using now same
      by (cases r) (auto dest!: leave_guild_Inr [OF u] guild_refused(5))
  next
    case (act_disband r)
    then show ?thesis using now same
      by (cases r) (auto dest!: disband_Inr [OF u] disband_refused split: if_splits)
  qed (use same in \<open>auto dest!: metadata_roster\<close>)
qed

lemma guild_founders_protected_witness:
  "member (snd (kick sample_guilds (Id 2) (Id 1) sample_guild_db2)) (Id 1) = Some (Id 5, ''leader'')"
proof -
  have "guild_act sample_guilds (Id 2) sample_guild_db2 (snd (kick sample_guilds (Id 2) (Id 1) sample_guild_db2))"
    by (rule act_kick [of _ _ "Id 1" _ "fst (kick sample_guilds (Id 2) (Id 1) sample_guild_db2)"]) simp
  from guild_founders_protected [OF sample_guild_db_wf(2) this] show ?thesis
    by (auto simp: sample_guild_members sample_guilds_def is_founder_rank_def founder_rank_def
        default_member_rank_def)
qed

text \<open>
  A founder leaves only an otherwise empty guild, and the guild goes with it. A successful
  departure removes exactly the leaver; if it held the founder rank it was the last member and
  the guild is gone, otherwise the guild stays. A successful disband was asked by a founder-rank
  member and removes the guild with its whole roster and no other.
\<close>

theorem guild_departures:
  assumes "db_wf db"
  shows "(\<forall>u db'. leave_guild sch a db = (Inr u, db') \<longrightarrow> db_wf db'
      \<and> (\<exists>g k. member db a = Some (g, k) \<and> member db' = (member db)(a := None)
        \<and> (if is_founder_rank sch k
           then (\<forall>x k. member db x = Some (g, k) \<longrightarrow> x = a)
              \<and> map_of (guilds db') = (map_of (guilds db))(g := None)
           else guilds db' = guilds db)))
    \<and> (\<forall>u db'. disband sch a db = (Inr u, db') \<longrightarrow> db_wf db'
      \<and> (\<exists>g k. member db a = Some (g, k) \<and> is_founder_rank sch k
        \<and> map_of (guilds db') = (map_of (guilds db))(g := None)
        \<and> (\<forall>x. member db' x = (if \<exists>k. member db x = Some (g, k) then None else member db x))))"
proof (intro conjI allI impI)
  note u = db_wf_unique(11) [OF assms]
  fix v db' assume run: "leave_guild sch a db = (Inr v, db')"
  show "db_wf db'" by (rule preservesD [OF pres_guild_ops(5) assms run])
  show "\<exists>g k. member db a = Some (g, k) \<and> member db' = (member db)(a := None)
        \<and> (if is_founder_rank sch k
           then (\<forall>x k. member db x = Some (g, k) \<longrightarrow> x = a)
              \<and> map_of (guilds db') = (map_of (guilds db))(g := None)
           else guilds db' = guilds db)"
    by (rule leave_guild_Inr [OF u run])
next
  note u = db_wf_unique(11) [OF assms]
  fix v db' assume run: "disband sch a db = (Inr v, db')"
  show "db_wf db'" by (rule preservesD [OF pres_guild_ops(6) assms run])
  show "\<exists>g k. member db a = Some (g, k) \<and> is_founder_rank sch k
        \<and> map_of (guilds db') = (map_of (guilds db))(g := None)
        \<and> (\<forall>x. member db' x = (if \<exists>k. member db x = Some (g, k) then None else member db x))"
    by (rule disband_Inr [OF u run])
qed

lemma sample_departures:
  "fst (leave_guild sample_guilds (Id 1) sample_guild_db) = Inr ()"
  "fst (disband sample_guilds (Id 1) sample_guild_db2) = Inr ()"
  unfolding sample_guild_db2_def sample_guild_db_def by code_simp+

lemma sample_leader: "is_founder_rank sample_guilds ''leader''"
  by (simp add: is_founder_rank_def founder_rank_def sample_guilds_def)

lemma guild_departures_witness:
  "map_of (guilds (snd (leave_guild sample_guilds (Id 1) sample_guild_db))) (Id 5) = None
   \<and> member (snd (disband sample_guilds (Id 1) sample_guild_db2)) (Id 2) = None"
proof
  have "leave_guild sample_guilds (Id 1) sample_guild_db
      = (Inr (), snd (leave_guild sample_guilds (Id 1) sample_guild_db))"
    using sample_departures(1) by (metis prod.collapse)
  from conjunct1 [OF guild_departures [OF sample_guild_db_wf(1)], rule_format, OF this]
  show "map_of (guilds (snd (leave_guild sample_guilds (Id 1) sample_guild_db))) (Id 5) = None"
    by (simp add: sample_guild_members sample_leader)
  have "disband sample_guilds (Id 1) sample_guild_db2
      = (Inr (), snd (disband sample_guilds (Id 1) sample_guild_db2))"
    using sample_departures(2) by (metis prod.collapse)
  from conjunct2 [OF guild_departures [OF sample_guild_db_wf(2)], rule_format, OF this]
  show "member (snd (disband sample_guilds (Id 1) sample_guild_db2)) (Id 2) = None"
    by (simp add: sample_guild_members sample_leader)
qed

text \<open>
  A guild can lose its last founder. The only founder-rank member may demote itself, since
  \<open>change_rank\<close> checks only the rank it still holds; after that the guild has members but nobody
  who can disband it or change a rank, where the module says every guild always has someone able
  to manage and dissolve it.
\<close>

theorem guild_can_lose_its_founder:
  "(let db' = snd (demote sample_guilds (Id 1) (Id 1) ''member'' sample_guild_db2) in
     fst (demote sample_guilds (Id 1) (Id 1) ''member'' sample_guild_db2) = Inr ()
     \<and> member db' (Id 1) = Some (Id 5, ''member'') \<and> member db' (Id 2) = Some (Id 5, ''member'')
     \<and> fst (disband sample_guilds (Id 1) db') = Inl (Guild OnlyFounderDisbands)
     \<and> fst (disband sample_guilds (Id 2) db') = Inl (Guild OnlyFounderDisbands)
     \<and> fst (promote sample_guilds (Id 1) (Id 2) ''leader'' db') = Inl (Guild PermissionDenied)
     \<and> fst (promote sample_guilds (Id 2) (Id 1) ''leader'' db') = Inl (Guild PermissionDenied))"
  unfolding sample_guild_db2_def sample_guild_db_def by code_simp

end
