(* ===== verification/SessionLease.thy ===== *)
theory SessionLease
  imports Samples
begin

text \<open>
  \<^verbatim>\<open>session_lease.rs\<close> and \<^verbatim>\<open>bound_liveness.rs\<close>: the lease that keeps two zone-service instances
  from simulating one open-realm character, and the liveness rows of bound-realm characters. The
  database's \<^verbatim>\<open>now()\<close> and the \<^verbatim>\<open>ttl\<close> in whole seconds are arguments of every operation.

  The interface \<open>expiring_lock\<close> is what a lease promises its holder: attempts by others that come
  before the hold expires leave it alone. Its client lemma says so of any sequence of attempts;
  the lease table is its provider.
\<close>

section \<open>Expiring locks\<close>

locale expiring_lock =
  fixes hold :: "'s \<Rightarrow> 'k \<Rightarrow> ('o \<times> int) option"
    and attempt :: "'op \<Rightarrow> 's \<Rightarrow> 's"
    and op_key :: "'op \<Rightarrow> 'k"
    and op_owner :: "'op \<Rightarrow> 'o"
    and op_time :: "'op \<Rightarrow> int"
  assumes other_key: "op_key op \<noteq> k \<Longrightarrow> hold (attempt op s) k = hold s k"
    and held: "hold s k = Some (ow, e) \<Longrightarrow> op_key op = k \<Longrightarrow> op_owner op \<noteq> ow \<Longrightarrow> op_time op \<le> e \<Longrightarrow>
      hold (attempt op s) k = Some (ow, e)"
begin

lemma hold_stable:
  assumes "hold s k = Some (ow, e)"
    "\<forall>op \<in> set ops. op_key op = k \<longrightarrow> op_owner op \<noteq> ow \<and> op_time op \<le> e"
  shows "hold (fold attempt ops s) k = Some (ow, e)"
  using assms
proof (induction ops arbitrary: s)
  case (Cons op ops)
  then have "hold (attempt op s) k = Some (ow, e)"
    using held [OF Cons.prems(1), of op] other_key [of op k s] by (cases "op_key op = k") auto
  then show ?case using Cons by simp
qed simp

end

section \<open>The lease table\<close>

datatype lease_outcome = Acquired | AlreadyActive

text \<open>
  \<^verbatim>\<open>INSERT ... ON CONFLICT (character_id) DO UPDATE ... WHERE expired OR same instance RETURNING\<close>:
  a row comes back exactly if one was written.
\<close>

definition acquire ::
  "character_id \<Rightarrow> realm_id \<Rightarrow> string \<Rightarrow> nat \<Rightarrow> timestamp \<Rightarrow> lease_outcome sql" where
  "acquire c realm zone_service ttl now = (\<lambda>db.
     let row = \<lparr>lease_realm = realm, lease_zone_service = zone_service, lease_leased_at = now,
                lease_expires_at = now + int ttl\<rparr>;
         db' = db\<lparr>character_sessions := put_row c row (character_sessions db)\<rparr>
     in case map_of (character_sessions db) c of
          None \<Rightarrow>
            if \<not> has_row (characters db) c \<or> \<not> has_row (realms db) realm
            then (Inl (Sql ForeignKeyViolation), db)
            else (Inr Acquired, db')
        | Some l \<Rightarrow>
            if lease_expires_at l < now \<or> lease_zone_service l = zone_service then
              (if \<not> has_row (realms db) realm then (Inl (Sql ForeignKeyViolation), db)
               else (Inr Acquired, db'))
            else (Inr AlreadyActive, db))"

definition renew :: "character_id \<Rightarrow> string \<Rightarrow> nat \<Rightarrow> timestamp \<Rightarrow> unit sql" where
  "renew c zone_service ttl now = (\<lambda>db.
     case map_of (character_sessions db) c of
       None \<Rightarrow> (Inl (Store LeaseNotHeld), db)
     | Some l \<Rightarrow>
         if lease_zone_service l = zone_service
         then (Inr (), db\<lparr>character_sessions :=
                 put_row c (l\<lparr>lease_expires_at := now + int ttl\<rparr>) (character_sessions db)\<rparr>)
         else (Inl (Store LeaseNotHeld), db))"

definition is_active :: "character_id \<Rightarrow> timestamp \<Rightarrow> bool sql" where
  "is_active c now = query (\<lambda>db. case map_of (character_sessions db) c of
     None \<Rightarrow> False | Some l \<Rightarrow> lease_expires_at l > now)"

definition release :: "character_id \<Rightarrow> unit sql" where
  "release c = execute (\<lambda>db. db\<lparr>character_sessions := del_row c (character_sessions db)\<rparr>)"

section \<open>Bound-realm liveness\<close>

definition live_join :: "character_id \<Rightarrow> realm_id \<Rightarrow> nat \<Rightarrow> timestamp \<Rightarrow> unit sql" where
  "live_join c realm ttl now = (\<lambda>db.
     if \<not> has_row (characters db) c \<or> \<not> has_row (realms db) realm
     then (Inl (Sql ForeignKeyViolation), db)
     else (Inr (), db\<lparr>bound_liveness := put_row c
        \<lparr>live_realm = realm, live_connected_at = now, live_expires_at = now + int ttl\<rparr>
        (bound_liveness db)\<rparr>))"

definition live_leave :: "character_id \<Rightarrow> unit sql" where
  "live_leave c = execute (\<lambda>db. db\<lparr>bound_liveness := del_row c (bound_liveness db)\<rparr>)"

definition is_live :: "character_id \<Rightarrow> timestamp \<Rightarrow> bool sql" where
  "is_live c now = query (\<lambda>db. case map_of (bound_liveness db) c of
     None \<Rightarrow> False | Some l \<Rightarrow> live_expires_at l > now)"

definition is_live_now :: "character_id \<Rightarrow> timestamp \<Rightarrow> bool sql" where
  "is_live_now c now = is_live c now"

section \<open>Constraints\<close>

lemma db_wf_lease: "db_wf db \<Longrightarrow> map_of (character_sessions db) c = Some l \<Longrightarrow>
    has_row (characters db) c \<and> has_row (realms db) (lease_realm l)"
  by (auto simp: db_wf_def realms_wf_def character_refs_wf_def has_row_def)

lemma db_wf_live: "db_wf db \<Longrightarrow> map_of (bound_liveness db) c = Some l \<Longrightarrow>
    has_row (characters db) c \<and> has_row (realms db) (live_realm l)"
  by (auto simp: db_wf_def realms_wf_def character_refs_wf_def has_row_def)

lemma db_wf_put_lease:
  assumes "db_wf db" "has_row (characters db) c" "has_row (realms db) (lease_realm l)"
  shows "db_wf (db\<lparr>character_sessions := put_row c l (character_sessions db)\<rparr>)"
  using assms db_wf_unique(6) [OF assms(1)] db_wf_lease [OF assms(1)]
  by (intro db_wf_sessions_update) (auto split: if_splits)

lemma pres_acquire [pres_intros]: "preserves db_wf (acquire c realm zs ttl now)"
  by (rule preservesI)
    (auto simp: acquire_def Let_def dest: db_wf_lease intro!: db_wf_put_lease
      split: option.splits if_splits)

lemma pres_renew [pres_intros]: "preserves db_wf (renew c zs ttl now)"
  by (rule preservesI)
    (auto simp: renew_def dest: db_wf_lease intro!: db_wf_put_lease split: option.splits if_splits)

lemma pres_release [pres_intros]: "preserves db_wf (release c)"
  unfolding release_def
  using db_wf_unique(6) db_wf_lease
  by (intro pres_execute db_wf_sessions_update) (auto split: if_splits)

lemma pres_is_active [pres_intros]: "preserves I (is_active c now)"
  by (simp add: is_active_def pres_query)

lemma pres_live_join [pres_intros]: "preserves db_wf (live_join c realm ttl now)"
  by (rule preservesI)
    (auto simp: live_join_def dest: db_wf_live db_wf_unique(7) intro!: db_wf_liveness_update
      split: if_splits)

lemma pres_live_leave [pres_intros]: "preserves db_wf (live_leave c)"
  unfolding live_leave_def
  using db_wf_unique(7) db_wf_live
  by (intro pres_execute db_wf_liveness_update) (auto split: if_splits)

lemma pres_is_live [pres_intros]: "preserves I (is_live c now)"
  by (simp add: is_live_def pres_query)

section \<open>The lease table is an expiring lock\<close>

datatype lease_op =
    Acquire character_id realm_id string nat timestamp
  | Renew character_id string nat timestamp

fun lease_attempt :: "lease_op \<Rightarrow> db \<Rightarrow> db" where
  "lease_attempt (Acquire c realm zs ttl now) db = snd (acquire c realm zs ttl now db)"
| "lease_attempt (Renew c zs ttl now) db = snd (renew c zs ttl now db)"

fun lease_op_key :: "lease_op \<Rightarrow> character_id" where
  "lease_op_key (Acquire c realm zs ttl now) = c"
| "lease_op_key (Renew c zs ttl now) = c"

fun lease_op_owner :: "lease_op \<Rightarrow> string" where
  "lease_op_owner (Acquire c realm zs ttl now) = zs"
| "lease_op_owner (Renew c zs ttl now) = zs"

fun lease_op_time :: "lease_op \<Rightarrow> timestamp" where
  "lease_op_time (Acquire c realm zs ttl now) = now"
| "lease_op_time (Renew c zs ttl now) = now"

definition lease_hold :: "db \<Rightarrow> character_id \<Rightarrow> (string \<times> timestamp) option" where
  "lease_hold db c =
     map_option (\<lambda>l. (lease_zone_service l, lease_expires_at l)) (map_of (character_sessions db) c)"

lemma lease_hold_Some: "lease_hold db c = Some (zs, e) \<longleftrightarrow>
    (\<exists>l. map_of (character_sessions db) c = Some l \<and> lease_zone_service l = zs \<and> lease_expires_at l = e)"
  by (auto simp: lease_hold_def)

interpretation session_lease: expiring_lock lease_hold lease_attempt lease_op_key lease_op_owner
  lease_op_time
proof unfold_locales
  fix op :: lease_op and k s
  assume "lease_op_key op \<noteq> k"
  then show "lease_hold (lease_attempt op s) k = lease_hold s k"
    by (cases op) (auto simp: lease_hold_def acquire_def renew_def Let_def split: option.split)
next
  fix s k ow e and op :: lease_op
  assume "lease_hold s k = Some (ow, e)" "lease_op_key op = k" "lease_op_owner op \<noteq> ow"
    "lease_op_time op \<le> e"
  then show "lease_hold (lease_attempt op s) k = Some (ow, e)"
    by (cases op) (auto simp: lease_hold_Some acquire_def renew_def Let_def)
qed

section \<open>Properties\<close>

text \<open>
  C20: No other instance can take over a character while its lease runs. If an instance holds the
  lease of a character until \<open>e\<close>, then after any sequence of acquire and renew attempts by other
  instances at times up to \<open>e\<close> (on that character; on other characters by anyone at any time) it
  holds the same lease, and a further attempt by another instance up to \<open>e\<close> is refused with
  \<^verbatim>\<open>AlreadyActive\<close> and changes nothing.
\<close>

theorem lease_mutual_exclusion:
  assumes "lease_hold db c = Some (zs, e)"
    "\<forall>op \<in> set ops. lease_op_key op = c \<longrightarrow> lease_op_owner op \<noteq> zs \<and> lease_op_time op \<le> e"
    "zs' \<noteq> zs" "now \<le> e"
  shows "lease_hold (fold lease_attempt ops db) c = Some (zs, e)
    \<and> acquire c realm zs' ttl now (fold lease_attempt ops db)
        = (Inr AlreadyActive, fold lease_attempt ops db)"
proof -
  have h: "lease_hold (fold lease_attempt ops db) c = Some (zs, e)"
    by (rule session_lease.hold_stable [OF assms(1,2)])
  then show ?thesis using assms(3,4) by (auto simp: lease_hold_Some acquire_def Let_def)
qed

definition sample_leased :: db where
  "sample_leased = snd (acquire (Id 1) (Id 1) ''zs-a'' 30 100 sample_db)"

lemma sample_leased_hold: "lease_hold sample_leased (Id 1) = Some (''zs-a'', 130)"
  by (simp add: sample_leased_def acquire_def lease_hold_def has_row_def Let_def)

lemma lease_mutual_exclusion_witness:
  "acquire (Id 1) (Id 1) ''zs-c'' 30 130 (fold lease_attempt
     [Acquire (Id 1) (Id 1) ''zs-b'' 30 110, Renew (Id 1) ''zs-b'' 30 120] sample_leased)
   = (Inr AlreadyActive, fold lease_attempt
     [Acquire (Id 1) (Id 1) ''zs-b'' 30 110, Renew (Id 1) ''zs-b'' 30 120] sample_leased)"
  using lease_mutual_exclusion [OF sample_leased_hold, of
      "[Acquire (Id 1) (Id 1) ''zs-b'' 30 110, Renew (Id 1) ''zs-b'' 30 120]" "''zs-c''" 130] by simp

text \<open>
  What acquiring decides. For a character and a realm that exist, \<open>acquire\<close> grants the lease
  exactly if the character has none, its lease has expired, or the caller's instance already
  holds it; a grant makes the caller the holder until the given time to live has passed and makes
  the character active for that long, and a refusal changes nothing. It errs only on a missing
  character or realm.
\<close>

theorem lease_acquire_decides:
  assumes "has_row (characters db) c" "has_row (realms db) realm"
    "acquire c realm zs ttl now db = (r, db')"
  shows "(r = Inr Acquired \<or> r = Inr AlreadyActive)
    \<and> (r = Inr Acquired \<longleftrightarrow> (case lease_hold db c of None \<Rightarrow> True | Some (h, e) \<Rightarrow> e < now \<or> h = zs))
    \<and> (r = Inr Acquired \<longrightarrow> lease_hold db' c = Some (zs, now + int ttl)
        \<and> (\<forall>t. fst (is_active c t db') = Inr (t < now + int ttl)))
    \<and> (r = Inr AlreadyActive \<longrightarrow> db' = db)"
  using assms
  by (auto simp: acquire_def Let_def lease_hold_def is_active_def split: option.splits if_splits)

lemma lease_acquire_decides_witness:
  "fst (is_active (Id 1) 129 sample_leased) = Inr True
   \<and> fst (is_active (Id 1) 130 sample_leased) = Inr False"
proof -
  have run: "acquire (Id 1) (Id 1) ''zs-a'' 30 100 sample_db = (Inr Acquired, sample_leased)"
    by (simp add: sample_leased_def acquire_def has_row_def Let_def)
  show ?thesis using lease_acquire_decides [OF _ _ run] by (simp add: has_row_def)
qed

text \<open>
  Renewing revives a lapsed lease. Ten minutes after its lease expired, an instance that was
  never replaced renews it with success and the character is active again, where the comment on
  \<^verbatim>\<open>renew\<close> says it errs rather than silently reviving a lapsed lease.
\<close>

theorem renew_revives_lapsed_lease:
  "fst (is_active (Id 1) 730 sample_leased) = Inr False
   \<and> fst (renew (Id 1) ''zs-a'' 30 730 sample_leased) = Inr ()
   \<and> fst (is_active (Id 1) 740 (snd (renew (Id 1) ''zs-a'' 30 730 sample_leased))) = Inr True"
  by (simp add: sample_leased_def acquire_def renew_def is_active_def has_row_def Let_def)


end
