(* ===== verification/RealmDirectory.thy ===== *)
theory RealmDirectory
  imports SessionLease
begin

text \<open>
  \<^verbatim>\<open>crates/realm-directory\<close>: the realm registry of \<^verbatim>\<open>store.rs\<close>, the open-or-bound policy
  enforced at login (\<^verbatim>\<open>login_policy.rs\<close>), and the live-connection count of \<^verbatim>\<open>population.rs\<close>.
  \<^verbatim>\<open>ORDER BY name\<close> depends on the database's collation, which is an argument. A Redis sorted set
  is the list of its members with their scores, and scores may be any linear order.
\<close>

section \<open>Realms\<close>

datatype open_or_bound = Open | Bound

fun as_db_str :: "open_or_bound \<Rightarrow> string" where
  "as_db_str Open = ''open''"
| "as_db_str Bound = ''bound''"

definition from_db_str :: "string \<Rightarrow> error + open_or_bound" where
  "from_db_str v =
     (if v = ''open'' then Inr Open else if v = ''bound'' then Inr Bound
      else Inl (Realm (UnrecognizedPolicy v)))"

record realm =
  realm_key :: realm_id
  realm_name :: string
  realm_policy :: open_or_bound

definition row_to_realm :: "realm_id \<times> realm_row \<Rightarrow> error + realm" where
  "row_to_realm row =
     try_then (from_db_str (rl_policy (snd row))) (\<lambda>policy.
     Inr \<lparr>realm_key = fst row, realm_name = rl_name (snd row), realm_policy = policy\<rparr>)"

text \<open>\<^verbatim>\<open>.map(f).collect::<Result<Vec<_>>>()\<close>.\<close>

fun collect_results :: "('a \<Rightarrow> 'e + 'b) \<Rightarrow> 'a list \<Rightarrow> 'e + 'b list" where
  "collect_results f [] = Inr []"
| "collect_results f (x # xs) =
     try_then (f x) (\<lambda>y. try_then (collect_results f xs) (\<lambda>ys. Inr (y # ys)))"

definition realm_create :: "realm_id \<Rightarrow> string \<Rightarrow> open_or_bound \<Rightarrow> realm_id sql" where
  "realm_create fresh name policy = (\<lambda>db.
     if has_row (realms db) fresh then (Inl (Sql UniqueViolation), db)
     else (Inr fresh, db\<lparr>realms :=
       put_row fresh \<lparr>rl_name = name, rl_policy = as_db_str policy\<rparr> (realms db)\<rparr>))"

definition realm_get :: "realm_id \<Rightarrow> realm option sql" where
  "realm_get i =
     andThen (query (\<lambda>db. map_of (realms db) i)) (\<lambda>row.
     case row of
       None \<Rightarrow> ok None
     | Some r \<Rightarrow> andThen (lift (row_to_realm (i, r))) (\<lambda>realm. ok (Some realm)))"

definition realm_list :: "(string \<Rightarrow> 'k :: linorder) \<Rightarrow> realm list sql" where
  "realm_list collation =
     andThen (query (\<lambda>db. sort_key (\<lambda>row. collation (rl_name (snd row))) (realms db))) (\<lambda>rows.
     lift (collect_results row_to_realm rows))"

definition realm_update :: "realm_id \<Rightarrow> string \<Rightarrow> open_or_bound \<Rightarrow> unit sql" where
  "realm_update i name policy = (\<lambda>db.
     if has_row (realms db) i
     then (Inr (), db\<lparr>realms :=
       upd_row i (\<lambda>_. \<lparr>rl_name = name, rl_policy = as_db_str policy\<rparr>) (realms db)\<rparr>)
     else (Inl (Realm (NoSuchRealm i)), db))"

text \<open>
  \<^verbatim>\<open>DELETE FROM realms\<close>: \<^verbatim>\<open>characters.realm_id\<close> and \<^verbatim>\<open>guilds.realm_id\<close> have no cascade and so
  refuse it, the other references cascade.
\<close>

definition realm_referenced :: "db \<Rightarrow> realm_id \<Rightarrow> bool" where
  "realm_referenced db i \<longleftrightarrow>
     list_ex (\<lambda>(c, r). ch_realm r = i) (characters db) \<or> list_ex (\<lambda>(g, r). gd_realm r = i) (guilds db)"

definition realm_delete :: "realm_id \<Rightarrow> unit sql" where
  "realm_delete i = (\<lambda>db.
     if has_row (realms db) i \<and> realm_referenced db i then (Inl (Sql ForeignKeyViolation), db)
     else (Inr (), db\<lparr>
       realms := del_row i (realms db),
       realm_zones := del_where (\<lambda>z r. r = i) (realm_zones db),
       character_sessions := del_where (\<lambda>c l. lease_realm l = i) (character_sessions db),
       bound_liveness := del_where (\<lambda>c l. live_realm l = i) (bound_liveness db),
       transfer_gates := del_where (\<lambda>k g. fst k = i \<or> snd k = i) (transfer_gates db)\<rparr>))"

definition assign_zone :: "realm_id \<Rightarrow> string \<Rightarrow> unit sql" where
  "assign_zone i z = (\<lambda>db.
     if \<not> has_row (realms db) i then (Inl (Sql ForeignKeyViolation), db)
     else (Inr (), db\<lparr>realm_zones := put_row z i (realm_zones db)\<rparr>))"

definition unassign_zone :: "string \<Rightarrow> unit sql" where
  "unassign_zone z = execute (\<lambda>db. db\<lparr>realm_zones := del_row z (realm_zones db)\<rparr>)"

definition zones_for_realm :: "realm_id \<Rightarrow> string list sql" where
  "zones_for_realm i = query (\<lambda>db. map fst (rows_where (\<lambda>z r. r = i) (realm_zones db)))"

definition realm_for_zone :: "string \<Rightarrow> realm_id option sql" where
  "realm_for_zone z = query (\<lambda>db. map_of (realm_zones db) z)"

section \<open>Login policy\<close>

definition require_realm :: "realm_id \<Rightarrow> realm sql" where
  "require_realm target =
     andThen (realm_get target) (\<lambda>found. ok_or found (Realm (NoSuchRealm target)))"

definition authorize_login ::
  "nat \<Rightarrow> timestamp \<Rightarrow> character_id \<Rightarrow> realm_id \<Rightarrow> realm_id \<Rightarrow> string \<Rightarrow> unit sql" where
  "authorize_login lease_ttl now c character_realm target zone_service =
     andThen (require_realm target) (\<lambda>realm.
     case realm_policy realm of
       Bound \<Rightarrow>
         andThen (require (\<not> character_realm \<noteq> target) (Realm (BoundElsewhere c target))) (\<lambda>_. ok ())
     | Open \<Rightarrow>
         andThen (acquire c target zone_service lease_ttl now) (\<lambda>outcome.
         case outcome of
           Acquired \<Rightarrow> ok ()
         | AlreadyActive \<Rightarrow> fail (Realm (AlreadyLoggedIn c))))"

definition resolve_character :: "account_id \<Rightarrow> realm_id \<Rightarrow> character_summary option sql" where
  "resolve_character account target =
     andThen (require_realm target) (\<lambda>realm.
     case realm_policy realm of
       Bound \<Rightarrow> find_by_account account target
     | Open \<Rightarrow> find_by_account_in_open_realms account)"

definition list_characters :: "account_id \<Rightarrow> realm_id \<Rightarrow> character_summary list sql" where
  "list_characters account target =
     andThen (require_realm target) (\<lambda>realm.
     case realm_policy realm of
       Bound \<Rightarrow> list_by_account account target
     | Open \<Rightarrow> list_by_account_in_open_realms account)"

section \<open>Live connections\<close>

type_synonym 't presence = "realm_id \<Rightarrow> (uuid \<times> 't) list"

definition presence_connect :: "'t \<Rightarrow> realm_id \<Rightarrow> uuid \<Rightarrow> 't presence \<Rightarrow> 't presence" where
  "presence_connect expires_at i connection p = p(i := AList.update connection expires_at (p i))"

definition presence_disconnect :: "realm_id \<Rightarrow> uuid \<Rightarrow> 't presence \<Rightarrow> 't presence" where
  "presence_disconnect i connection p = p(i := AList.delete connection (p i))"

text \<open>\<^verbatim>\<open>ZREMRANGEBYSCORE -inf now\<close>, then \<^verbatim>\<open>ZCARD\<close>.\<close>

definition presence_count :: "'t :: linorder \<Rightarrow> realm_id \<Rightarrow> 't presence \<Rightarrow> nat \<times> 't presence" where
  "presence_count now i p =
     (let live = filter (\<lambda>(connection, score). \<not> score \<le> now) (p i)
      in (length live, p(i := live)))"

record realm_population =
  character_count :: i64
  live_connections :: nat

definition population ::
  "'t :: linorder \<Rightarrow> realm_id \<Rightarrow> 't presence \<Rightarrow> db \<Rightarrow> (error + realm_population) \<times> db \<times> 't presence" where
  "population now i p db =
     (case count_for_realm i db of
        (Inl e, db') \<Rightarrow> (Inl e, db', p)
      | (Inr n, db') \<Rightarrow> (let (live, p') = presence_count now i p in
          (Inr \<lparr>character_count = n, live_connections = live\<rparr>, db', p')))"

section \<open>Evaluation\<close>

lemma from_as_db_str [simp]: "from_db_str (as_db_str policy) = Inr policy"
  by (cases policy) (simp_all add: from_db_str_def)

lemma from_db_str_stored: "v \<in> {''open'', ''bound''} \<Longrightarrow> \<exists>policy. from_db_str v = Inr policy \<and> as_db_str policy = v"
  by (auto simp: from_db_str_def)

text \<open>What a stored realm row means.\<close>

definition policy_of :: "db \<Rightarrow> realm_id \<Rightarrow> open_or_bound option" where
  "policy_of db i = (case map_of (realms db) i of
     None \<Rightarrow> None | Some r \<Rightarrow> if rl_policy r = ''open'' then Some Open else Some Bound)"

lemma row_to_realm_wf:
  assumes "db_wf db" "map_of (realms db) i = Some r"
  shows "row_to_realm (i, r) = Inr \<lparr>realm_key = i, realm_name = rl_name r,
    realm_policy = (if rl_policy r = ''open'' then Open else Bound)\<rparr>"
  using assms by (auto simp: db_wf_def realms_wf_def row_to_realm_def from_db_str_def)

lemma require_realm_apply:
  assumes "db_wf db"
  shows "require_realm i db =
    (case map_of (realms db) i of
       None \<Rightarrow> Inl (Realm (NoSuchRealm i))
     | Some r \<Rightarrow> Inr \<lparr>realm_key = i, realm_name = rl_name r,
         realm_policy = (if rl_policy r = ''open'' then Open else Bound)\<rparr>, db)"
  using row_to_realm_wf [OF assms]
  by (cases "map_of (realms db) i")
    (auto simp: require_realm_def realm_get_def andThen_apply)

lemma authorize_login_apply:
  assumes "db_wf db"
  shows "authorize_login ttl now c home target zs db =
    (case policy_of db target of
       None \<Rightarrow> (Inl (Realm (NoSuchRealm target)), db)
     | Some Bound \<Rightarrow> (if home = target then Inr () else Inl (Realm (BoundElsewhere c target)), db)
     | Some Open \<Rightarrow> (case acquire c target zs ttl now db of
           (Inl e, db') \<Rightarrow> (Inl e, db')
         | (Inr Acquired, db') \<Rightarrow> (Inr (), db')
         | (Inr AlreadyActive, db') \<Rightarrow> (Inl (Realm (AlreadyLoggedIn c)), db')))"
  using assms
  by (auto simp: authorize_login_def andThen_apply require_realm_apply policy_of_def
      split: option.split sum.split prod.split lease_outcome.split)

section \<open>Constraints\<close>

lemma pres_realm_get [pres_intros]: "preserves I (realm_get i)"
  unfolding realm_get_def by (intro pres_intros)

lemma pres_require_realm [pres_intros]: "preserves I (require_realm i)"
  unfolding require_realm_def by (intro pres_intros)

lemma pres_case_lease_outcome [pres_intros]:
  "preserves I m \<Longrightarrow> preserves I k \<Longrightarrow>
     preserves I (case outcome of Acquired \<Rightarrow> m | AlreadyActive \<Rightarrow> k)"
  by (cases outcome) auto

lemma pres_case_open_or_bound [pres_intros]:
  "preserves I m \<Longrightarrow> preserves I k \<Longrightarrow> preserves I (case policy of Open \<Rightarrow> m | Bound \<Rightarrow> k)"
  by (cases policy) auto

lemma pres_authorize_login [pres_intros]:
  "preserves db_wf (authorize_login ttl now c home target zs)"
  unfolding authorize_login_def by (intro pres_intros)

lemma db_wf_realms_update:
  assumes "db_wf db" "keys_unique t"
    and "\<And>i. has_row (realms db) i \<Longrightarrow> has_row t i"
    and "\<And>i r. map_of t i = Some r \<Longrightarrow> rl_policy r \<in> {''open'', ''bound''}"
  shows "db_wf (db\<lparr>realms := t\<rparr>)"
  using assms by (auto simp: db_wf_def wf_defs)

lemma as_db_str_ok: "as_db_str policy \<in> {''open'', ''bound''}"
  by (cases policy) simp_all

lemma db_wf_policy: "db_wf db \<Longrightarrow> map_of (realms db) i = Some r \<Longrightarrow> rl_policy r \<in> {''open'', ''bound''}"
  by (auto simp: db_wf_def realms_wf_def)

lemma pres_realm_create [pres_intros]: "preserves db_wf (realm_create fresh name policy)"
  by (rule preservesI)
    (use as_db_str_ok [of policy] in \<open>auto simp: realm_create_def dest: db_wf_unique(1) db_wf_policy
      intro!: db_wf_realms_update split: if_splits\<close>)

lemma pres_realm_update [pres_intros]: "preserves db_wf (realm_update i name policy)"
  by (rule preservesI)
    (use as_db_str_ok [of policy] in \<open>auto simp: realm_update_def dest: db_wf_unique(1) db_wf_policy
      intro!: db_wf_realms_update split: if_splits\<close>)

lemma map_of_realm_delete:
  assumes "db_wf db" "realm_delete i db = (Inr u, db')"
  shows "map_of (realms db') j = (if j = i then None else map_of (realms db) j)"
    "map_of (realm_zones db') z =
       (if map_of (realm_zones db) z = Some i then None else map_of (realm_zones db) z)"
    "map_of (transfer_gates db') (a, b) =
       (if a = i \<or> b = i then None else map_of (transfer_gates db) (a, b))"
    "map_of (character_sessions db') c = (case map_of (character_sessions db) c of
       None \<Rightarrow> None | Some l \<Rightarrow> if lease_realm l = i then None else Some l)"
    "map_of (bound_liveness db') c = (case map_of (bound_liveness db) c of
       None \<Rightarrow> None | Some l \<Rightarrow> if live_realm l = i then None else Some l)"
    "characters db' = characters db" "guilds db' = guilds db" "items db' = items db"
  using assms(2) db_wf_unique [OF assms(1)]
  by (auto simp: realm_delete_def map_of_del_where map_of_del_where_key
      split: if_splits option.splits)

lemma realm_referenced_iff:
  assumes "db_wf db"
  shows "realm_referenced db i \<longleftrightarrow> (\<exists>c r. map_of (characters db) c = Some r \<and> ch_realm r = i)
    \<or> (\<exists>g r. map_of (guilds db) g = Some r \<and> gd_realm r = i)"
  using db_wf_unique(2,10) [OF assms]
  by (fastforce simp: realm_referenced_def list_ex_iff dest: map_of_in_set in_set_map_of)

lemma pres_realm_delete [pres_intros]: "preserves db_wf (realm_delete i)"
proof (rule preservesI)
  fix db r db' assume wf: "db_wf db" and run: "realm_delete i db = (r, db')"
  show "db_wf db'"
  proof (cases "has_row (realms db) i \<and> realm_referenced db i")
    case True
    then show ?thesis using run wf by (simp add: realm_delete_def)
  next
    case False
    then have r: "r = Inr ()" and run': "realm_delete i db = (Inr (), db')"
      using run by (auto simp: realm_delete_def split: if_splits)
    have free: "ch_realm row \<noteq> i" if "map_of (characters db) c = Some row" for c row
      using that False wf realm_referenced_iff [OF wf, of i] by (auto simp: db_wf_def characters_wf_def)
    have free': "gd_realm row \<noteq> i" if "map_of (guilds db) g = Some row" for g row
      using that False wf realm_referenced_iff [OF wf, of i] by (auto simp: db_wf_def guilds_wf_def)
    have db': "db' = db\<lparr>realms := del_row i (realms db),
       realm_zones := del_where (\<lambda>z r. r = i) (realm_zones db),
       character_sessions := del_where (\<lambda>c l. lease_realm l = i) (character_sessions db),
       bound_liveness := del_where (\<lambda>c l. live_realm l = i) (bound_liveness db),
       transfer_gates := del_where (\<lambda>k g. fst k = i \<or> snd k = i) (transfer_gates db)\<rparr>"
      using run False by (simp add: realm_delete_def)
    have "unique_keys_wf db'" using wf by (simp add: db_wf_def unique_keys_wf_def db')
    moreover have "items_wf db'" "currency_wf db'" "parties_wf db'"
      using wf by (simp_all add: db_wf_def items_wf_def currency_wf_def parties_wf_def db')
    moreover have "character_refs_wf db'"
      using wf db_wf_unique(6,7) [OF wf]
      by (auto simp: db_wf_def character_refs_wf_def db' has_row_del_where) (auto simp: has_row_def)
    moreover have "characters_wf db'"
      using wf free by (auto simp: db_wf_def characters_wf_def db')
    moreover have "guilds_wf db'"
      using wf free' by (auto simp: db_wf_def guilds_wf_def db')
    moreover have "realms_wf db'"
      using wf db_wf_unique [OF wf]
      by (auto simp: db_wf_def realms_wf_def db' map_of_del_where split: option.splits if_splits)
    ultimately show ?thesis by (simp add: db_wf_def)
  qed
qed

lemma db_wf_zones_update:
  assumes "db_wf db" "keys_unique t" "\<And>z i. map_of t z = Some i \<Longrightarrow> has_row (realms db) i"
  shows "db_wf (db\<lparr>realm_zones := t\<rparr>)"
  using assms by (simp add: db_wf_def wf_defs)

lemma db_wf_zone: "db_wf db \<Longrightarrow> map_of (realm_zones db) z = Some i \<Longrightarrow> has_row (realms db) i"
  by (simp add: db_wf_def realms_wf_def)

lemma pres_assign_zone [pres_intros]: "preserves db_wf (assign_zone i z)"
  by (rule preservesI)
    (auto simp: assign_zone_def dest: db_wf_unique(13) db_wf_zone intro!: db_wf_zones_update
      split: if_splits)

lemma pres_unassign_zone [pres_intros]: "preserves db_wf (unassign_zone z)"
  unfolding unassign_zone_def
  by (intro pres_execute db_wf_zones_update)
    (auto dest: db_wf_unique(13) db_wf_zone split: if_splits)

section \<open>Properties\<close>

text \<open>
  C24: The one place that enforces the realm policy lets the right logins through. On a
  well-formed database \<open>authorize_login\<close> succeeds exactly if the target realm exists and is bound
  and the character's own, or is open and the session lease for it was granted to the calling
  instance; so a success on an open realm leaves that instance holding the lease, and a failure
  changes nothing.
\<close>

theorem login_policy_enforced:
  assumes "db_wf db" "has_row (characters db) c"
    "authorize_login ttl now c home target zs db = (r, db')"
  shows "(r = Inr () \<longleftrightarrow> (policy_of db target = Some Bound \<and> home = target)
      \<or> (policy_of db target = Some Open
          \<and> (case lease_hold db c of None \<Rightarrow> True | Some (h, e) \<Rightarrow> e < now \<or> h = zs)))
    \<and> (r = Inr () \<and> policy_of db target = Some Open \<longrightarrow>
        lease_hold db' c = Some (zs, now + int ttl))
    \<and> (\<forall>e. r = Inl e \<longrightarrow> db' = db) \<and> db_wf db'"
proof -
  have wf': "db_wf db'" by (rule preservesD [OF pres_authorize_login assms(1,3)])
  have "has_row (realms db) target" if "policy_of db target = Some p" for p
    using that by (auto simp: policy_of_def has_row_def split: option.splits)
  then show ?thesis
    using assms(2,3) wf'
    by (auto simp: authorize_login_apply [OF assms(1)] acquire_def Let_def lease_hold_def
        split: option.splits if_splits open_or_bound.splits)
qed

definition sample_login :: "(error + unit) \<times> db" where
  "sample_login = authorize_login 30 100 (Id 1) (Id 1) (Id 1) ''zs-a'' sample_db"

lemma sample_login_run:
  "authorize_login 30 100 (Id 1) (Id 1) (Id 1) ''zs-a'' sample_db = (fst sample_login, snd sample_login)"
  by (simp add: sample_login_def)

lemma login_policy_enforced_witness:
  "fst sample_login = Inr () \<and> lease_hold (snd sample_login) (Id 1) = Some (''zs-a'', 130)
   \<and> db_wf (snd sample_login)"
proof -
  have p: "policy_of sample_db (Id 1) = Some Open" by (simp add: policy_of_def)
  have "lease_hold sample_db (Id 1) = None" by (simp add: lease_hold_def)
  then show ?thesis
    using login_policy_enforced [OF sample_db_wf _ sample_login_run] p by (simp add: has_row_def)
qed

text \<open>What the two lookups select.\<close>

definition selectable :: "db \<Rightarrow> account_id \<Rightarrow> realm_id \<Rightarrow> character_id \<Rightarrow> character_row \<Rightarrow> bool" where
  "selectable db account target c r \<longleftrightarrow> map_of (characters db) c = Some r \<and> ch_account r = account
     \<and> (case policy_of db target of
          None \<Rightarrow> False
        | Some Bound \<Rightarrow> ch_realm r = target
        | Some Open \<Rightarrow> policy_of db (ch_realm r) = Some Open)"

lemma newest_first_set [simp]: "set (newest_first rows) = set rows"
  by (simp add: newest_first_def)

lemma newest_first_hd:
  "newest_first rows = r # rest \<Longrightarrow> r' \<in> set rows \<Longrightarrow> ch_created_at (snd r') \<le> ch_created_at (snd r)"
proof -
  assume eq: "newest_first rows = r # rest" and r': "r' \<in> set rows"
  have "sorted (map (\<lambda>r. - ch_created_at (snd r)) (newest_first rows))"
    by (simp add: newest_first_def)
  moreover have "r' \<in> set (r # rest)" using r' eq newest_first_set [of rows] by simp
  ultimately show ?thesis by (auto simp: eq)
qed

lemma realm_is_open_policy: "realm_is_open db i \<longleftrightarrow> policy_of db i = Some Open"
  by (auto simp: realm_is_open_def policy_of_def split: option.split)

definition candidates :: "db \<Rightarrow> account_id \<Rightarrow> realm_id \<Rightarrow> (character_id \<times> character_row) list" where
  "candidates db account target = (case policy_of db target of
     None \<Rightarrow> [] | Some Bound \<Rightarrow> on_realm account target db | Some Open \<Rightarrow> on_open_realms account db)"

lemma candidates_selectable:
  assumes "db_wf db"
  shows "(c, r) \<in> set (candidates db account target) \<longleftrightarrow> selectable db account target c r"
  using db_wf_unique(2) [OF assms]
  by (auto simp: candidates_def selectable_def on_realm_def on_open_realms_def rows_where_def
      realm_is_open_policy keys_unique_def split: option.split open_or_bound.split)

lemma resolve_character_apply:
  assumes "db_wf db" "policy_of db target = Some p"
  shows "resolve_character account target db
      = (Inr (map_option row_to_character_summary (limit_1 (candidates db account target))), db)"
    "list_characters account target db
      = (Inr (map row_to_character_summary (candidates db account target)), db)"
  using assms(2)
  by (auto simp: resolve_character_def list_characters_def andThen_apply require_realm_apply [OF assms(1)]
      candidates_def policy_of_def find_by_account_def find_by_account_in_open_realms_def
      list_by_account_def list_by_account_in_open_realms_def split: option.splits if_splits)

text \<open>
  The login lookup follows the realm's policy. For a target realm that exists,
  \<open>resolve_character\<close> returns a character exactly if the account has one it may select there (on
  the target itself if that is bound, on any open realm if it is open), and then the most
  recently created of those; \<open>list_characters\<close> lists precisely those. A bound character never
  shows up on another realm, and an open one is found through every open realm.
\<close>

theorem login_lookup_follows_policy:
  assumes "db_wf db" "policy_of db target = Some p"
  shows "(\<exists>found. resolve_character account target db = (Inr found, db)
      \<and> (found = None \<longleftrightarrow> (\<forall>c r. \<not> selectable db account target c r))
      \<and> (\<forall>s. found = Some s \<longrightarrow> (\<exists>r. selectable db account target (cs_id s) r
            \<and> s = row_to_character_summary (cs_id s, r)
            \<and> (\<forall>c r'. selectable db account target c r' \<longrightarrow> ch_created_at r' \<le> ch_created_at r))))
    \<and> (\<exists>listed. list_characters account target db = (Inr listed, db)
      \<and> set listed = {s. \<exists>c r. selectable db account target c r \<and> s = row_to_character_summary (c, r)})"
proof
  note cand = candidates_selectable [OF assms(1), of _ _ account target]
  let ?cs = "candidates db account target"
  have newest: "ch_created_at (snd x') \<le> ch_created_at (snd x)"
    if "?cs = x # rest" "x' \<in> set ?cs" for x x' rest
  proof -
    obtain rows where rows: "?cs = newest_first rows"
      using assms(2)
      by (cases p) (simp_all add: candidates_def on_realm_def on_open_realms_def)
    then have "newest_first rows = x # rest" "x' \<in> set rows" using that by simp_all
    then show ?thesis by (rule newest_first_hd)
  qed
  let ?found = "map_option row_to_character_summary (limit_1 ?cs)"
  have none: "?found = None \<longleftrightarrow> (\<forall>c r. \<not> selectable db account target c r)"
    using cand by (cases ?cs) (auto simp: limit_1_def)
  have some: "\<exists>r. selectable db account target (cs_id s) r \<and> s = row_to_character_summary (cs_id s, r)
      \<and> (\<forall>c r'. selectable db account target c r' \<longrightarrow> ch_created_at r' \<le> ch_created_at r)"
    if "?found = Some s" for s
  proof -
    obtain c r rest where cs: "?cs = (c, r) # rest" and s: "s = row_to_character_summary (c, r)"
      using \<open>?found = Some s\<close> by (cases ?cs) (auto simp: limit_1_def)
    have "ch_created_at r' \<le> ch_created_at r" if "selectable db account target c' r'" for c' r'
      using newest [OF cs, of "(c', r')"] that cand by simp
    moreover have "selectable db account target c r" using cand cs by force
    ultimately show ?thesis by (auto simp: s row_to_character_summary_def)
  qed
  show "\<exists>found. resolve_character account target db = (Inr found, db)
      \<and> (found = None \<longleftrightarrow> (\<forall>c r. \<not> selectable db account target c r))
      \<and> (\<forall>s. found = Some s \<longrightarrow> (\<exists>r. selectable db account target (cs_id s) r
            \<and> s = row_to_character_summary (cs_id s, r)
            \<and> (\<forall>c r'. selectable db account target c r' \<longrightarrow> ch_created_at r' \<le> ch_created_at r)))"
    by (rule exI [of _ ?found], intro conjI allI impI)
      (rule resolve_character_apply(1) [OF assms], rule none, erule some)
  have "set (map row_to_character_summary ?cs)
      = {s. \<exists>c r. selectable db account target c r \<and> s = row_to_character_summary (c, r)}"
    using cand by force
  then show "\<exists>listed. list_characters account target db = (Inr listed, db)
      \<and> set listed = {s. \<exists>c r. selectable db account target c r \<and> s = row_to_character_summary (c, r)}"
    using resolve_character_apply(2) [OF assms, of account] by blast
qed

lemma login_lookup_follows_policy_witness:
  "\<exists>s. resolve_character (Id 1) (Id 1) sample_db = (Inr (Some s), sample_db) \<and> cs_id s = Id 1"
proof -
  have p: "policy_of sample_db (Id 1) = Some Open" by (simp add: policy_of_def)
  have sel: "selectable sample_db (Id 1) (Id 1) c r \<longleftrightarrow>
      c = Id 1 \<and> r = sample_character (Id 1) ''ann'' (Id 1) [(''hp'', JInt 40)] 10" for c r
    using p by (auto simp: selectable_def)
  obtain found where f: "resolve_character (Id 1) (Id 1) sample_db = (Inr found, sample_db)"
    "found \<noteq> None" "\<forall>s. found = Some s \<longrightarrow> (\<exists>r. selectable sample_db (Id 1) (Id 1) (cs_id s) r)"
    using login_lookup_follows_policy [OF sample_db_wf p, of "Id 1"] sel by blast
  then show ?thesis using sel by (cases found) auto
qed

text \<open>
  Deleting a realm either takes everything that hangs on it or nothing. On a well-formed
  database, \<open>realm_delete\<close> fails with a foreign-key violation and changes nothing exactly if the
  realm exists and a character or a guild still belongs to it; otherwise no realm row, zone, gate,
  lease or liveness row of that realm is left, every other realm's rows are untouched, and the
  constraints hold.
\<close>

theorem realm_delete_complete:
  assumes "db_wf db" "realm_delete i db = (r, db')"
  shows "db_wf db'
    \<and> (r = Inl (Sql ForeignKeyViolation) \<longleftrightarrow> (\<exists>c row. map_of (characters db) c = Some row \<and> ch_realm row = i)
        \<or> (\<exists>g row. map_of (guilds db) g = Some row \<and> gd_realm row = i))
    \<and> (\<forall>e. r = Inl e \<longrightarrow> db' = db)
    \<and> (r = Inr () \<longrightarrow> (\<forall>j. map_of (realms db') j = (if j = i then None else map_of (realms db) j))
        \<and> (\<forall>z. map_of (realm_zones db') z
              = (if map_of (realm_zones db) z = Some i then None else map_of (realm_zones db) z))
        \<and> (\<forall>a b. map_of (transfer_gates db') (a, b)
              = (if a = i \<or> b = i then None else map_of (transfer_gates db) (a, b)))
        \<and> (\<forall>c l. map_of (character_sessions db') c = Some l
              \<longleftrightarrow> map_of (character_sessions db) c = Some l \<and> lease_realm l \<noteq> i)
        \<and> (\<forall>c l. map_of (bound_liveness db') c = Some l
              \<longleftrightarrow> map_of (bound_liveness db) c = Some l \<and> live_realm l \<noteq> i))"
proof -
  have wf': "db_wf db'" by (rule preservesD [OF pres_realm_delete assms])
  have ref: "realm_referenced db i \<Longrightarrow> has_row (realms db) i"
    using assms(1) realm_referenced_iff [OF assms(1)]
    by (auto simp: db_wf_def characters_wf_def guilds_wf_def)
  have err: "r = Inl (Sql ForeignKeyViolation) \<longleftrightarrow> realm_referenced db i" "\<forall>e. r = Inl e \<longrightarrow> db' = db"
    using assms(2) ref by (auto simp: realm_delete_def split: if_splits)
  have "(\<forall>j. map_of (realms db') j = (if j = i then None else map_of (realms db) j))
        \<and> (\<forall>z. map_of (realm_zones db') z
              = (if map_of (realm_zones db) z = Some i then None else map_of (realm_zones db) z))
        \<and> (\<forall>a b. map_of (transfer_gates db') (a, b)
              = (if a = i \<or> b = i then None else map_of (transfer_gates db) (a, b)))
        \<and> (\<forall>c l. map_of (character_sessions db') c = Some l
              \<longleftrightarrow> map_of (character_sessions db) c = Some l \<and> lease_realm l \<noteq> i)
        \<and> (\<forall>c l. map_of (bound_liveness db') c = Some l
              \<longleftrightarrow> map_of (bound_liveness db) c = Some l \<and> live_realm l \<noteq> i)" if "r = Inr ()"
    using map_of_realm_delete [OF assms(1) assms(2) [unfolded that]]
    by (auto split: option.splits)
  then show ?thesis
    using wf' err unfolding realm_referenced_iff [OF assms(1), of i] by (intro conjI) simp_all
qed

lemma realm_delete_complete_witness:
  "fst (realm_delete (Id 1) sample_db) = Inl (Sql ForeignKeyViolation)
   \<and> map_of (realms (snd (realm_delete (Id 2) sample_db))) (Id 2) = None"
proof -
  have "realm_delete (Id 1) sample_db = (fst (realm_delete (Id 1) sample_db), snd (realm_delete (Id 1) sample_db))"
    "realm_delete (Id 2) sample_db = (Inr (), snd (realm_delete (Id 2) sample_db))"
    by (simp_all add: realm_delete_def realm_referenced_def)
  from realm_delete_complete [OF sample_db_wf this(1)] realm_delete_complete [OF sample_db_wf this(2)]
  show ?thesis by (auto split: if_splits)
qed

text \<open>
  The live count counts the connections that have not expired. After any connect, a count at
  a time before its expiry includes that connection once however often it was refreshed, a count
  at or after it does not, counting twice at the same time gives the same number, and neither
  other connections nor other realms are affected.
\<close>

theorem presence_counts_unexpired:
  fixes now e :: "'t :: linorder"
  assumes "distinct (map fst (p i))"
  shows "fst (presence_count now i (presence_connect e i connection p))
      = card {c. c \<noteq> connection \<and> (\<exists>s. map_of (p i) c = Some s \<and> now < s)}
        + (if now < e then 1 else 0)
    \<and> fst (presence_count now i (snd (presence_count now i p))) = fst (presence_count now i p)
    \<and> (j \<noteq> i \<longrightarrow> snd (presence_count now i (presence_connect e i connection p)) j = p j)"
proof -
  let ?t = "AList.update connection e (p i)"
  have d: "distinct (map fst ?t)" using assms by (simp add: distinct_update)
  then have "distinct (map fst (filter (\<lambda>(c, s). \<not> s \<le> now) ?t))" by (rule distinct_map_filter)
  from distinct_card [OF this]
  have "length (filter (\<lambda>(c, s). \<not> s \<le> now) ?t)
      = card (fst ` set (filter (\<lambda>(c, s). \<not> s \<le> now) ?t))" by simp
  also have "fst ` set (filter (\<lambda>(c, s). \<not> s \<le> now) ?t) = {c. \<exists>s. map_of ?t c = Some s \<and> now < s}"
    using d by (force simp: not_le)
  also have "\<dots> = {c. c \<noteq> connection \<and> (\<exists>s. map_of (p i) c = Some s \<and> now < s)}
      \<union> (if now < e then {connection} else {})"
    by (auto simp: update_conv')
  also have "card \<dots> = card {c. c \<noteq> connection \<and> (\<exists>s. map_of (p i) c = Some s \<and> now < s)}
      + (if now < e then 1 else 0)"
  proof -
    have "finite {c. c \<noteq> connection \<and> (\<exists>s. map_of (p i) c = Some s \<and> now < s)}"
      by (rule finite_subset [OF _ finite_dom_map_of [of "p i"]]) auto
    then show ?thesis by (auto simp: card_insert_if)
  qed
  finally show ?thesis
    by (simp add: presence_count_def presence_connect_def Let_def)
qed

lemma presence_counts_unexpired_witness:
  "fst (presence_count (100 :: int) (Id 1) (presence_connect 130 (Id 1) 7 (\<lambda>_. [(8, 90), (9, 120)]))) = 2"
proof -
  have "{c. c \<noteq> (7 :: uuid) \<and> (\<exists>s. map_of [(8, 90), (9, 120)] c = Some s \<and> (100 :: int) < s)} = {9}"
    by (auto split: if_splits)
  then show ?thesis
    using presence_counts_unexpired [of "\<lambda>_. [(8 :: uuid, 90 :: int), (9, 120)]" "Id 1" 100 130 7 "Id 1"]
    by simp
qed

end
