(* ===== verification/RealmTransfer.thy ===== *)
theory RealmTransfer
  imports RealmDirectory "HOL-Library.Multiset"
begin

text \<open>
  \<^verbatim>\<open>crates/transfer\<close>: gates per realm pair (\<^verbatim>\<open>gate.rs\<close>), the audit log (\<^verbatim>\<open>audit.rs\<close>) and the
  executor that moves a bound-realm character (\<^verbatim>\<open>execute.rs\<close>). The purchase verifier is the
  deployment's code: an argument \<open>verify\<close>, of which nothing is assumed. What an attempt learned
  before it failed, the \<^verbatim>\<open>AuditContext\<close>, is threaded beside the database and, unlike the
  database, survives the rollback.
\<close>

section \<open>Gates\<close>

datatype transfer_gate = OpenGate | TicketItem string | Purchase string

fun as_db_type :: "transfer_gate \<Rightarrow> string" where
  "as_db_type OpenGate = ''open''"
| "as_db_type (TicketItem t) = ''ticket_item''"
| "as_db_type (Purchase p) = ''purchase''"

definition deny_all :: "character_id \<Rightarrow> string \<Rightarrow> error + bool" where
  "deny_all c product_id = Inr False"

definition row_to_gate :: "gate_row \<Rightarrow> error + transfer_gate" where
  "row_to_gate row =
     (if gate_type row = ''open'' then Inr OpenGate
      else if gate_type row = ''ticket_item'' then
        try_then (ok_or_else (gate_ticket_item_type row) (Transfer (GateRowIncomplete ''ticket_item'')))
          (\<lambda>t. Inr (TicketItem t))
      else if gate_type row = ''purchase'' then
        try_then (ok_or_else (gate_purchase_product_id row) (Transfer (GateRowIncomplete ''purchase'')))
          (\<lambda>p. Inr (Purchase p))
      else Inl (Transfer (UnrecognizedGate (gate_type row))))"

definition gate_get :: "realm_id \<Rightarrow> realm_id \<Rightarrow> transfer_gate sql" where
  "gate_get source destination =
     andThen (query (\<lambda>db. map_of (transfer_gates db) (source, destination))) (\<lambda>row.
     case row of None \<Rightarrow> ok OpenGate | Some r \<Rightarrow> lift (row_to_gate r))"

definition gate_clear :: "realm_id \<Rightarrow> realm_id \<Rightarrow> unit sql" where
  "gate_clear source destination =
     execute (\<lambda>db. db\<lparr>transfer_gates := del_row (source, destination) (transfer_gates db)\<rparr>)"

definition gate_columns :: "transfer_gate \<Rightarrow> string option \<times> string option" where
  "gate_columns gate = (case gate of
     OpenGate \<Rightarrow> (None, None) | TicketItem t \<Rightarrow> (Some t, None) | Purchase p \<Rightarrow> (None, Some p))"

definition gate_set :: "realm_id \<Rightarrow> realm_id \<Rightarrow> transfer_gate \<Rightarrow> unit sql" where
  "gate_set source destination gate =
     (if gate = OpenGate then gate_clear source destination
      else (\<lambda>db.
        if \<not> has_row (realms db) source \<or> \<not> has_row (realms db) destination
        then (Inl (Sql ForeignKeyViolation), db)
        else (Inr (), db\<lparr>transfer_gates := put_row (source, destination)
           \<lparr>gate_type = as_db_type gate, gate_ticket_item_type = fst (gate_columns gate),
            gate_purchase_product_id = snd (gate_columns gate)\<rparr> (transfer_gates db)\<rparr>)))"

section \<open>Audit log\<close>

text \<open>\<open>Failed None\<close> is the empty reason a missing column reads as.\<close>

datatype transfer_outcome = Success | Failed "error option"

record transfer_log_record =
  rec_id :: uuid
  rec_character :: character_id
  rec_source :: "realm_id option"
  rec_destination :: realm_id
  rec_gate_type :: "string option"
  rec_initiated_by :: account_id
  rec_outcome :: transfer_outcome

definition record_entry :: "timestamp \<Rightarrow> transfer_log_record \<Rightarrow> unit sql" where
  "record_entry now entry = (\<lambda>db.
     let (outcome, failure_reason) = (case rec_outcome entry of
           Success \<Rightarrow> (''success'', None) | Failed reason \<Rightarrow> (''failed'', reason));
         row = \<lparr>log_id = rec_id entry, log_character = rec_character entry,
                log_source = rec_source entry, log_destination = rec_destination entry,
                log_gate_type = rec_gate_type entry, log_initiated_by = rec_initiated_by entry,
                log_outcome = outcome, log_failure_reason = failure_reason, log_created_at = now\<rparr>
     in if list_ex (\<lambda>r. log_id r = rec_id entry) (transfer_log db)
        then (Inl (Sql UniqueViolation), db)
        else (Inr (), db\<lparr>transfer_log := transfer_log db @ [row]\<rparr>))"

definition row_to_record :: "log_row \<Rightarrow> error + transfer_log_record" where
  "row_to_record row =
     try_then (if log_outcome row = ''success'' then Inr Success
       else if log_outcome row = ''failed'' then Inr (Failed (log_failure_reason row))
       else Inl (Transfer (UnrecognizedOutcome (log_outcome row)))) (\<lambda>outcome.
     Inr \<lparr>rec_id = log_id row, rec_character = log_character row, rec_source = log_source row,
          rec_destination = log_destination row, rec_gate_type = log_gate_type row,
          rec_initiated_by = log_initiated_by row, rec_outcome = outcome\<rparr>)"

definition history_for_character :: "character_id \<Rightarrow> transfer_log_record list sql" where
  "history_for_character c =
     andThen (query (\<lambda>db. sort_key (\<lambda>r. - log_created_at r)
       (filter (\<lambda>r. log_character r = c) (transfer_log db)))) (\<lambda>rows.
     lift (collect_results row_to_record rows))"

section \<open>Execution\<close>

record transfer_request =
  rq_character :: character_id
  rq_destination :: realm_id
  rq_schema :: attribute_schema
  rq_initiated_by :: account_id

record audit_context =
  ctx_source :: "realm_id option"
  ctx_gate_type :: "string option"

type_synonym 'a attempt = "(db \<times> audit_context, error, 'a) action"

definition in_db :: "'a sql \<Rightarrow> 'a attempt" where
  "in_db m = (\<lambda>(db, ctx). case m db of (r, db') \<Rightarrow> (r, (db', ctx)))"

definition learn :: "(audit_context \<Rightarrow> audit_context) \<Rightarrow> unit attempt" where
  "learn f = execute (\<lambda>(db, ctx). (db, f ctx))"

text \<open>\<^verbatim>\<open>UPDATE items SET quantity = quantity - 1\<close>.\<close>

definition decrement_item :: "character_id \<Rightarrow> string \<Rightarrow> unit sql" where
  "decrement_item c t = (\<lambda>db. update_item_quantity c t (qty db c t - 1) db)"

definition consume_ticket :: "character_id \<Rightarrow> string \<Rightarrow> unit sql" where
  "consume_ticket c t =
     andThen (select_quantity c t) (\<lambda>current.
     andThen (require (\<not> (case current of None \<Rightarrow> 0 | Some q \<Rightarrow> q) < 1)
       (Transfer (TicketMissing t c))) (\<lambda>_.
     if current = Some 1 then delete_item c t else decrement_item c t))"

definition pass_gate ::
  "(character_id \<Rightarrow> string \<Rightarrow> error + bool) \<Rightarrow> character_id \<Rightarrow> transfer_gate \<Rightarrow> unit sql" where
  "pass_gate verify c gate = (case gate of
     OpenGate \<Rightarrow> ok ()
   | TicketItem t \<Rightarrow> consume_ticket c t
   | Purchase p \<Rightarrow>
       andThen (lift (verify c p)) (\<lambda>verified.
       require verified (Transfer (PurchaseNotVerified p c))))"

definition move_character :: "character_id \<Rightarrow> realm_id \<Rightarrow> json_object \<Rightarrow> unit sql" where
  "move_character c destination stats = (\<lambda>db.
     if has_row (characters db) c \<and> \<not> has_row (realms db) destination
     then (Inl (Sql ForeignKeyViolation), db)
     else update_character c (\<lambda>r. r\<lparr>ch_realm := destination, ch_stats := stats\<rparr>) db)"

definition bound_realm :: "realm_id \<Rightarrow> error \<Rightarrow> error \<Rightarrow> unit sql" where
  "bound_realm i missing is_open =
     andThen (realm_get i) (\<lambda>found.
     andThen (ok_or found missing) (\<lambda>realm.
     require (\<not> realm_policy realm = Open) is_open))"

definition transfer_body ::
  "(character_id \<Rightarrow> string \<Rightarrow> error + bool) \<Rightarrow> timestamp \<Rightarrow> uuid \<Rightarrow> transfer_request \<Rightarrow> unit attempt" where
  "transfer_body verify now entry_id rq =
     andThen (in_db (query (\<lambda>db. map_of (characters db) (rq_character rq)))) (\<lambda>row.
     andThen (ok_or row (Transfer (NoSuchCharacter (rq_character rq)))) (\<lambda>ch.
     andThen (learn (\<lambda>ctx. ctx\<lparr>ctx_source := Some (ch_realm ch)\<rparr>)) (\<lambda>_.
     andThen (in_db (bound_realm (ch_realm ch) (Transfer (OwnRealmMissing (ch_realm ch)))
       (Transfer (SourceRealmOpen (rq_character rq))))) (\<lambda>_.
     andThen (in_db (bound_realm (rq_destination rq) (Transfer (NoDestinationRealm (rq_destination rq)))
       (Transfer (DestinationRealmOpen (rq_destination rq))))) (\<lambda>_.
     andThen (in_db (is_live (rq_character rq) now)) (\<lambda>live.
     andThen (require (\<not> live) (Transfer (CharacterOnline (rq_character rq)))) (\<lambda>_.
     andThen (in_db (gate_get (ch_realm ch) (rq_destination rq))) (\<lambda>gate.
     andThen (learn (\<lambda>ctx. ctx\<lparr>ctx_gate_type := Some (as_db_type gate)\<rparr>)) (\<lambda>_.
     andThen (in_db (pass_gate verify (rq_character rq) gate)) (\<lambda>_.
     andThen (in_db (move_character (rq_character rq) (rq_destination rq)
       (migrate_stats (rq_schema rq) (ch_stats ch)))) (\<lambda>_.
     in_db (record_entry now
       \<lparr>rec_id = entry_id, rec_character = rq_character rq, rec_source = Some (ch_realm ch),
        rec_destination = rq_destination rq, rec_gate_type = Some (as_db_type gate),
        rec_initiated_by = rq_initiated_by rq, rec_outcome = Success\<rparr>))))))))))))"

text \<open>The transaction: on an error the database rolls back, the context does not.\<close>

definition transfer_inner ::
  "(character_id \<Rightarrow> string \<Rightarrow> error + bool) \<Rightarrow> timestamp \<Rightarrow> uuid \<Rightarrow> transfer_request \<Rightarrow> unit attempt" where
  "transfer_inner verify now entry_id rq = (\<lambda>(db, ctx).
     case transfer_body verify now entry_id rq (db, ctx) of
       (Inl e, (_, ctx')) \<Rightarrow> (Inl e, (db, ctx'))
     | (Inr u, s) \<Rightarrow> (Inr u, s))"

text \<open>
  A failed attempt is logged by a standalone insert whose own failure is only traced; \<open>entry_ids\<close>
  are the fresh ids of the success entry and of the failure entry.
\<close>

definition transfer ::
  "(character_id \<Rightarrow> string \<Rightarrow> error + bool) \<Rightarrow> timestamp \<Rightarrow> uuid \<times> uuid \<Rightarrow> transfer_request \<Rightarrow> unit sql" where
  "transfer verify now entry_ids rq = (\<lambda>db.
     case transfer_inner verify now (fst entry_ids) rq (db, \<lparr>ctx_source = None, ctx_gate_type = None\<rparr>) of
       (Inr u, (db', ctx)) \<Rightarrow> (Inr u, db')
     | (Inl e, (db', ctx)) \<Rightarrow> (Inl e, snd (record_entry now
         \<lparr>rec_id = snd entry_ids, rec_character = rq_character rq, rec_source = ctx_source ctx,
          rec_destination = rq_destination rq, rec_gate_type = ctx_gate_type ctx,
          rec_initiated_by = rq_initiated_by rq, rec_outcome = Failed (Some e)\<rparr> db')))"

section \<open>Evaluation\<close>

lemma in_db_apply [simp]: "in_db m (db, ctx) = (case m db of (r, db') \<Rightarrow> (r, (db', ctx)))"
  by (simp add: in_db_def)

lemma andThen_in_db [simp]:
  "andThen (in_db m) k (db, ctx) = (case m db of
      (Inl e, db') \<Rightarrow> (Inl e, (db', ctx)) | (Inr x, db') \<Rightarrow> k x (db', ctx))"
  by (simp add: andThen_apply split: prod.split sum.split)

lemma andThen_learn [simp]: "andThen (learn f) k (db, ctx) = k () (db, f ctx)"
  by (simp add: learn_def)

lemma bound_realm_apply:
  assumes "db_wf db"
  shows "bound_realm i missing is_open db = (case policy_of db i of
      None \<Rightarrow> Inl missing | Some Open \<Rightarrow> Inl is_open | Some Bound \<Rightarrow> Inr (), db)"
  using row_to_realm_wf [OF assms]
  by (cases "map_of (realms db) i")
    (auto simp: bound_realm_def realm_get_def andThen_apply policy_of_def)

definition live_at :: "db \<Rightarrow> character_id \<Rightarrow> timestamp \<Rightarrow> bool" where
  "live_at db c now \<longleftrightarrow> (case map_of (bound_liveness db) c of
     None \<Rightarrow> False | Some l \<Rightarrow> live_expires_at l > now)"

lemma is_live_apply [simp]: "is_live c now db = (Inr (live_at db c now), db)"
  by (simp add: is_live_def live_at_def)

definition gate_of :: "db \<Rightarrow> realm_id \<Rightarrow> realm_id \<Rightarrow> error + transfer_gate" where
  "gate_of db source destination = (case map_of (transfer_gates db) (source, destination) of
     None \<Rightarrow> Inr OpenGate | Some r \<Rightarrow> row_to_gate r)"

lemma gate_get_apply [simp]: "gate_get source destination db = (gate_of db source destination, db)"
  by (simp add: gate_get_def gate_of_def split: option.split)

text \<open>What the gate asks, and what it takes.\<close>

definition gate_passed ::
  "(character_id \<Rightarrow> string \<Rightarrow> error + bool) \<Rightarrow> db \<Rightarrow> character_id \<Rightarrow> transfer_gate \<Rightarrow> bool" where
  "gate_passed verify db c gate = (case gate of
     OpenGate \<Rightarrow> True | TicketItem t \<Rightarrow> 1 \<le> qty db c t | Purchase p \<Rightarrow> verify c p = Inr True)"

definition ticket_taken :: "transfer_gate \<Rightarrow> string \<Rightarrow> int" where
  "ticket_taken gate t = (if gate = TicketItem t then 1 else 0)"

lemma consume_ticket_ok:
  assumes wf: "db_wf db"
  shows "(\<exists>u db'. consume_ticket c t db = (Inr u, db')) \<longleftrightarrow> 1 \<le> qty db c t"
    and "consume_ticket c t db = (Inr u, db') \<Longrightarrow>
      qty db' = (\<lambda>c' t'. qty db c' t' - (if c' = c \<and> t' = t then 1 else 0))
      \<and> (\<exists>v. db' = db\<lparr>items := v\<rparr>)"
proof -
  have same: "consume_ticket c t db = set_remaining c t (qty db c t - 1) db" if "1 \<le> qty db c t"
    using that by (auto simp: consume_ticket_def qty_def set_remaining_def decrement_item_def
        require_def split: option.splits)
  have fails: "\<exists>e. consume_ticket c t db = (Inl e, db)" if "\<not> 1 \<le> qty db c t"
    using that by (auto simp: consume_ticket_def qty_def split: option.splits)
  have ok: "in_i64 (qty db c t - 1)" if "1 \<le> qty db c t"
    using that qty_in_i64 [OF wf, of c t] by (simp add: in_i64_iff)
  have run: "\<exists>db'. set_remaining c t (qty db c t - 1) db = (Inr (), db')" if "1 \<le> qty db c t"
    using that ok wf by (auto simp: set_remaining_def update_item_quantity_def item_row_ok_def
        split: option.split)
  show "(\<exists>u db'. consume_ticket c t db = (Inr u, db')) \<longleftrightarrow> 1 \<le> qty db c t"
    using same run fails by (metis Inr_not_Inl prod.inject)
  assume r: "consume_ticket c t db = (Inr u, db')"
  then have q: "1 \<le> qty db c t" using fails by (metis Inr_not_Inl prod.inject)
  then have sr: "set_remaining c t (qty db c t - 1) db = (Inr u, db')" using same r by simp
  have "has_row (items db) (c, t)" using q qty_pos_iff [OF wf, of c t] by simp
  from set_remaining_ok(1,3) [OF sr this wf]
  show "qty db' = (\<lambda>c' t'. qty db c' t' - (if c' = c \<and> t' = t then 1 else 0))
      \<and> (\<exists>v. db' = db\<lparr>items := v\<rparr>)"
    by (auto simp: fun_eq_iff)
qed

lemma pass_gate_ok:
  assumes wf: "db_wf db"
  shows "(\<exists>u db'. pass_gate verify c gate db = (Inr u, db')) \<longleftrightarrow> gate_passed verify db c gate"
    and "pass_gate verify c gate db = (Inr u, db') \<Longrightarrow>
      qty db' = (\<lambda>c' t. qty db c' t - (if c' = c then ticket_taken gate t else 0))
      \<and> (\<exists>v. db' = db\<lparr>items := v\<rparr>)"
proof -
  have self: "\<exists>v. db = db\<lparr>items := v\<rparr>" by (rule exI [of _ "items db"]) simp
  show "(\<exists>u db'. pass_gate verify c gate db = (Inr u, db')) \<longleftrightarrow> gate_passed verify db c gate"
    using consume_ticket_ok(1) [OF wf]
    by (cases gate) (auto simp: pass_gate_def gate_passed_def split: sum.split)
  assume r: "pass_gate verify c gate db = (Inr u, db')"
  show "qty db' = (\<lambda>c' t. qty db c' t - (if c' = c then ticket_taken gate t else 0))
      \<and> (\<exists>v. db' = db\<lparr>items := v\<rparr>)"
  proof (cases gate)
    case (TicketItem t)
    then have "consume_ticket c t db = (Inr u, db')" using r by (simp add: pass_gate_def)
    from consume_ticket_ok(2) [OF wf this] show ?thesis
      by (auto simp: TicketItem ticket_taken_def fun_eq_iff)
  qed (use r self in \<open>auto simp: pass_gate_def ticket_taken_def fun_eq_iff split: sum.splits\<close>)
qed


section \<open>What a transfer needs and does\<close>

definition transfer_allowed ::
  "(character_id \<Rightarrow> string \<Rightarrow> error + bool) \<Rightarrow> timestamp \<Rightarrow> transfer_request \<Rightarrow> db \<Rightarrow> character_row \<Rightarrow> transfer_gate \<Rightarrow> bool" where
  "transfer_allowed verify now rq db ch gate \<longleftrightarrow>
     map_of (characters db) (rq_character rq) = Some ch
     \<and> policy_of db (ch_realm ch) = Some Bound \<and> policy_of db (rq_destination rq) = Some Bound
     \<and> \<not> live_at db (rq_character rq) now
     \<and> gate_of db (ch_realm ch) (rq_destination rq) = Inr gate
     \<and> gate_passed verify db (rq_character rq) gate"

definition log_entry ::
  "timestamp \<Rightarrow> uuid \<Rightarrow> transfer_request \<Rightarrow> realm_id option \<Rightarrow> string option \<Rightarrow> error option \<Rightarrow> log_row" where
  "log_entry now i rq source gate reason =
     \<lparr>log_id = i, log_character = rq_character rq, log_source = source,
      log_destination = rq_destination rq, log_gate_type = gate,
      log_initiated_by = rq_initiated_by rq,
      log_outcome = (case reason of None \<Rightarrow> ''success'' | Some _ \<Rightarrow> ''failed''),
      log_failure_reason = reason, log_created_at = now\<rparr>"

definition fresh_entry :: "db \<Rightarrow> uuid \<Rightarrow> bool" where
  "fresh_entry db i \<longleftrightarrow> i \<notin> log_id ` set (transfer_log db)"

definition arrived :: "transfer_request \<Rightarrow> character_row \<Rightarrow> character_row" where
  "arrived rq ch = ch\<lparr>ch_realm := rq_destination rq,
     ch_stats := migrate_stats (rq_schema rq) (ch_stats ch)\<rparr>"

lemma policy_of_has_row: "policy_of db i = Some p \<Longrightarrow> has_row (realms db) i"
  by (auto simp: policy_of_def has_row_def split: option.splits)

lemma move_character_apply:
  "has_row (realms db) destination \<Longrightarrow> move_character c destination stats db =
     (Inr (), db\<lparr>characters := upd_row c (\<lambda>r. r\<lparr>ch_realm := destination, ch_stats := stats\<rparr>) (characters db)\<rparr>)"
  by (simp add: move_character_def)

lemma record_entry_apply:
  "record_entry now \<lparr>rec_id = i, rec_character = rq_character rq, rec_source = src,
      rec_destination = rq_destination rq, rec_gate_type = g, rec_initiated_by = rq_initiated_by rq,
      rec_outcome = (case reason of None \<Rightarrow> Success | Some e \<Rightarrow> Failed (Some e))\<rparr> db =
     (if fresh_entry db i
      then (Inr (), db\<lparr>transfer_log := transfer_log db @ [log_entry now i rq src g reason]\<rparr>)
      else (Inl (Sql UniqueViolation), db))"
  by (auto simp: record_entry_def fresh_entry_def log_entry_def list_ex_iff split: option.split)

lemmas record_success = record_entry_apply [where reason = None, simplified]
lemmas record_failure = record_entry_apply [where reason = "Some e" for e, simplified]

lemma upd_row_cong_at:
  "keys_unique t \<Longrightarrow> map_of t k = Some v \<Longrightarrow> f v = g v \<Longrightarrow> upd_row k f t = upd_row k g t"
  by (auto simp: upd_row_def) (metis in_set_map_of option.inject)

text \<open>The whole attempt, branch by branch: the result, the rolled-back database, the context.\<close>

lemma transfer_inner_apply:
  assumes wf: "db_wf db" and fresh: "fresh_entry db i"
  shows "transfer_inner verify now i rq (db, ctx) =
    (case map_of (characters db) (rq_character rq) of
       None \<Rightarrow> (Inl (Transfer (NoSuchCharacter (rq_character rq))), (db, ctx))
     | Some ch \<Rightarrow>
        let ctx1 = ctx\<lparr>ctx_source := Some (ch_realm ch)\<rparr> in
        case policy_of db (ch_realm ch) of
          None \<Rightarrow> (Inl (Transfer (OwnRealmMissing (ch_realm ch))), (db, ctx1))
        | Some Open \<Rightarrow> (Inl (Transfer (SourceRealmOpen (rq_character rq))), (db, ctx1))
        | Some Bound \<Rightarrow>
          (case policy_of db (rq_destination rq) of
             None \<Rightarrow> (Inl (Transfer (NoDestinationRealm (rq_destination rq))), (db, ctx1))
           | Some Open \<Rightarrow> (Inl (Transfer (DestinationRealmOpen (rq_destination rq))), (db, ctx1))
           | Some Bound \<Rightarrow>
             if live_at db (rq_character rq) now
             then (Inl (Transfer (CharacterOnline (rq_character rq))), (db, ctx1))
             else (case gate_of db (ch_realm ch) (rq_destination rq) of
                 Inl e \<Rightarrow> (Inl e, (db, ctx1))
               | Inr gate \<Rightarrow>
                 let ctx2 = ctx1\<lparr>ctx_gate_type := Some (as_db_type gate)\<rparr> in
                 case pass_gate verify (rq_character rq) gate db of
                   (Inl e, _) \<Rightarrow> (Inl e, (db, ctx2))
                 | (Inr _, db1) \<Rightarrow> (Inr (),
                     (db1\<lparr>characters := upd_row (rq_character rq) (arrived rq) (characters db1),
                         transfer_log := transfer_log db1 @ [log_entry now i rq
                           (Some (ch_realm ch)) (Some (as_db_type gate)) None]\<rparr>, ctx2)))))"
proof -
  have step: "move_character (rq_character rq) (rq_destination rq)
        (migrate_stats (rq_schema rq) (ch_stats ch)) db1 =
      (Inr (), db1\<lparr>characters := upd_row (rq_character rq) (arrived rq) (characters db1)\<rparr>)"
    "fresh_entry (db1\<lparr>characters := cs\<rparr>) i"
    if pass: "pass_gate verify (rq_character rq) gate db = (Inr (), db1)"
      and ch: "map_of (characters db) (rq_character rq) = Some ch"
      and dest: "policy_of db (rq_destination rq) = Some Bound" for db1 ch gate cs
  proof -
    have "\<exists>v. db1 = db\<lparr>items := v\<rparr>" using pass_gate_ok(2) [OF wf pass] by blast
    then obtain v where v: "db1 = db\<lparr>items := v\<rparr>" ..
    show "fresh_entry (db1\<lparr>characters := cs\<rparr>) i" using fresh by (simp add: v fresh_entry_def)
    have "upd_row (rq_character rq) (\<lambda>r. r\<lparr>ch_realm := rq_destination rq,
          ch_stats := migrate_stats (rq_schema rq) (ch_stats ch)\<rparr>) (characters db1)
        = upd_row (rq_character rq) (arrived rq) (characters db1)"
      using ch db_wf_unique(2) [OF wf] by (intro upd_row_cong_at [of _ _ ch]) (auto simp: v arrived_def)
    then show "move_character (rq_character rq) (rq_destination rq)
        (migrate_stats (rq_schema rq) (ch_stats ch)) db1 =
      (Inr (), db1\<lparr>characters := upd_row (rq_character rq) (arrived rq) (characters db1)\<rparr>)"
      using policy_of_has_row [OF dest] by (simp add: move_character_apply v)
  qed
  show ?thesis
    unfolding transfer_inner_def transfer_body_def
    by (auto simp: bound_realm_apply [OF wf] Let_def step record_success simp del: fun_upd_apply
        split: option.split open_or_bound.split sum.split prod.split)
qed


lemma transfer_Inr:
  assumes wf: "db_wf db" and fresh: "fresh_entry db (fst ids)"
  shows "transfer verify now ids rq db = (Inr u, db') \<longleftrightarrow>
    (\<exists>ch gate db1. transfer_allowed verify now rq db ch gate
       \<and> pass_gate verify (rq_character rq) gate db = (Inr (), db1)
       \<and> db' = db1\<lparr>characters := upd_row (rq_character rq) (arrived rq) (characters db1),
             transfer_log := transfer_log db1 @ [log_entry now (fst ids) rq
               (Some (ch_realm ch)) (Some (as_db_type gate)) None]\<rparr>)"
proof -
  have g: "pass_gate verify c gate db = (Inr w, db1) \<Longrightarrow> gate_passed verify db c gate" for c gate w db1
    using pass_gate_ok(1) [OF wf] by blast
  show ?thesis
    unfolding transfer_def transfer_inner_apply [OF wf fresh] transfer_allowed_def
    by (auto simp: Let_def dest: g simp del: fun_upd_apply
        split: option.splits open_or_bound.splits sum.splits prod.splits)
qed

text \<open>What a failed attempt leaves in the log: as much as the attempt had learned.\<close>

definition gate_reached :: "timestamp \<Rightarrow> transfer_request \<Rightarrow> db \<Rightarrow> string option" where
  "gate_reached now rq db = (case map_of (characters db) (rq_character rq) of
      None \<Rightarrow> None
    | Some ch \<Rightarrow>
        if policy_of db (ch_realm ch) = Some Bound \<and> policy_of db (rq_destination rq) = Some Bound
           \<and> \<not> live_at db (rq_character rq) now
        then (case gate_of db (ch_realm ch) (rq_destination rq) of
                Inl _ \<Rightarrow> None | Inr gate \<Rightarrow> Some (as_db_type gate))
        else None)"

lemma transfer_Inl:
  assumes wf: "db_wf db" and fresh: "fresh_entry db (fst ids)" "fresh_entry db (snd ids)"
    and run: "transfer verify now ids rq db = (Inl e, db')"
  shows "db' = db\<lparr>transfer_log := transfer_log db @ [log_entry now (snd ids) rq
     (map_option ch_realm (map_of (characters db) (rq_character rq))) (gate_reached now rq db) (Some e)]\<rparr>"
proof (cases "map_of (characters db) (rq_character rq)")
  case None
  then show ?thesis
    using run by (auto simp: transfer_def transfer_inner_apply [OF wf fresh(1)] record_failure
        fresh(2) gate_reached_def)
next
  case (Some ch)
  note run' = run [unfolded transfer_def transfer_inner_apply [OF wf fresh(1)] Some Let_def, simplified]
  show ?thesis
  proof (cases "policy_of db (ch_realm ch) = Some Bound \<and> policy_of db (rq_destination rq) = Some Bound
      \<and> \<not> live_at db (rq_character rq) now")
    case True
    then show ?thesis
      using run' fresh(2) unfolding gate_reached_def Some
      by (cases "gate_of db (ch_realm ch) (rq_destination rq)")
        (auto simp: record_failure split: sum.splits prod.splits)
  next
    case False
    then have "gate_reached now rq db = None" by (auto simp: gate_reached_def Some)
    then show ?thesis
      using run' fresh(2) False unfolding Some
      by (cases "policy_of db (ch_realm ch)"; cases "policy_of db (rq_destination rq)")
        (auto simp: record_failure split: open_or_bound.splits)
  qed
qed

section \<open>Properties of transfers\<close>

text \<open>
  C21: a transfer succeeds exactly when the character exists, its own realm and the destination
  are both bound realms, it is not logged in, and the gate configured for that pair of realms is
  passed: nothing for an open gate, at least one ticket item, or a purchase the deployment's
  verifier confirms.
\<close>

theorem transfer_succeeds_iff:
  assumes "db_wf db" "fresh_entry db (fst ids)"
  shows "(\<exists>u db'. transfer verify now ids rq db = (Inr u, db')) \<longleftrightarrow>
     (\<exists>ch gate. transfer_allowed verify now rq db ch gate)"
proof -
  have "\<exists>db1. pass_gate verify (rq_character rq) gate db = (Inr (), db1)"
    if "transfer_allowed verify now rq db ch gate" for ch gate
    using that pass_gate_ok(1) [OF assms(1), of verify "rq_character rq" gate]
    by (auto simp: transfer_allowed_def)
  then show ?thesis by (simp add: transfer_Inr [OF assms]) metis
qed

definition sample_bound_db :: db where
  "sample_bound_db = sample_db\<lparr>
     realms := realms sample_db @ [(Id 3, \<lparr>rl_name = ''bound two'', rl_policy = ''bound''\<rparr>)],
     characters := [(Id 1, sample_character (Id 1) ''ann'' (Id 2) [(''hp'', JInt 40), (''mana'', JInt 7)] 10),
                    (Id 2, sample_character (Id 2) ''bob'' (Id 1) [] 20)],
     transfer_gates := [((Id 2, Id 3), \<lparr>gate_type = ''ticket_item'',
        gate_ticket_item_type = Some ''wood'', gate_purchase_product_id = None\<rparr>)]\<rparr>"

definition sample_request :: transfer_request where
  "sample_request = \<lparr>rq_character = Id 1, rq_destination = Id 3, rq_schema = st_schema sample_store,
     rq_initiated_by = Id 1\<rparr>"

lemmas sample_transfer_defs = sample_bound_db_def sample_request_def sample_store_def

lemma sample_bound_tables [simp]:
  "accounts sample_bound_db = accounts sample_db"
  "realms sample_bound_db = [(Id 1, \<lparr>rl_name = ''open one'', rl_policy = ''open''\<rparr>),
     (Id 2, \<lparr>rl_name = ''bound one'', rl_policy = ''bound''\<rparr>),
     (Id 3, \<lparr>rl_name = ''bound two'', rl_policy = ''bound''\<rparr>)]"
  "characters sample_bound_db =
     [(Id 1, sample_character (Id 1) ''ann'' (Id 2) [(''hp'', JInt 40), (''mana'', JInt 7)] 10),
      (Id 2, sample_character (Id 2) ''bob'' (Id 1) [] 20)]"
  "items sample_bound_db = items sample_db" "currency sample_bound_db = currency sample_db"
  "equipped sample_bound_db = []" "character_sessions sample_bound_db = []"
  "bound_liveness sample_bound_db = []" "parties sample_bound_db = []"
  "party_members sample_bound_db = []" "guilds sample_bound_db = []"
  "guild_members sample_bound_db = []" "transfer_log sample_bound_db = []"
  "transfer_gates sample_bound_db = [((Id 2, Id 3), \<lparr>gate_type = ''ticket_item'',
        gate_ticket_item_type = Some ''wood'', gate_purchase_product_id = None\<rparr>)]"
  "realm_zones sample_bound_db = realm_zones sample_db"
  "plugin_character_state sample_bound_db = []"
  by (simp_all add: sample_bound_db_def)

lemma sample_bound_wf: "db_wf sample_bound_db"
  unfolding db_wf_def
  by (intro conjI)
    (auto simp: unique_keys_wf_def keys_unique_def wf_defs has_row_def item_row_ok_def in_i64_iff
      split: if_splits)

lemma sample_bound_fresh: "fresh_entry sample_bound_db i"
  by (simp add: fresh_entry_def)

lemma sample_transfer_allowed:
  "transfer_allowed deny_all 100 sample_request sample_bound_db
     (sample_character (Id 1) ''ann'' (Id 2) [(''hp'', JInt 40), (''mana'', JInt 7)] 10) (TicketItem ''wood'')"
  by (simp add: transfer_allowed_def sample_request_def policy_of_def live_at_def gate_of_def
      row_to_gate_def gate_passed_def qty_def from_db_str_def row_to_realm_def)

lemma transfer_succeeds_iff_witness:
  "\<exists>u db'. transfer deny_all 100 (50, 51) sample_request sample_bound_db = (Inr u, db')"
  using transfer_succeeds_iff [of sample_bound_db "(50, 51)" deny_all 100 sample_request]
    sample_bound_wf sample_bound_fresh sample_transfer_allowed by blast



definition sample_transfer :: "(error + unit) \<times> db" where
  "sample_transfer = transfer deny_all 100 (50, 51) sample_request sample_bound_db"

lemma sample_transfer_run: "transfer deny_all 100 (50, 51) sample_request sample_bound_db = (Inr (), snd sample_transfer)"
proof -
  have "\<exists>u db'. transfer deny_all 100 (50, 51) sample_request sample_bound_db = (Inr u, db')"
    using transfer_Inr [OF sample_bound_wf, of "(50, 51)" deny_all 100 sample_request "()"]
      sample_bound_fresh sample_transfer_allowed
      pass_gate_ok(1) [OF sample_bound_wf, of deny_all "Id 1" "TicketItem ''wood''"]
    by (auto simp: gate_passed_def qty_def sample_request_def)
  then show ?thesis by (auto simp: sample_transfer_def)
qed


text \<open>
  C22: a transfer that fails, for whatever reason and at whatever step, changes nothing but the
  audit log: the character, its items (the ticket included) and every other table are as they
  were, and the log gains exactly one failed entry naming the error, the realm the character was
  on if it exists, and the gate if the attempt got as far as reading it.
\<close>

theorem transfer_failure_changes_nothing:
  assumes "db_wf db" "fresh_entry db (fst ids)" "fresh_entry db (snd ids)"
    and "transfer verify now ids rq db = (Inl e, db')"
  shows "db' = db\<lparr>transfer_log := transfer_log db @ [log_entry now (snd ids) rq
     (map_option ch_realm (map_of (characters db) (rq_character rq))) (gate_reached now rq db) (Some e)]\<rparr>"
  using assms by (rule transfer_Inl)

definition sample_open_transfer :: "(error + unit) \<times> db" where
  "sample_open_transfer = transfer deny_all 100 (50, 51) (sample_request\<lparr>rq_character := Id 2\<rparr>) sample_bound_db"

lemma sample_open_transfer_run:
  "transfer deny_all 100 (50, 51) (sample_request\<lparr>rq_character := Id 2\<rparr>) sample_bound_db =
     (Inl (Transfer (SourceRealmOpen (Id 2))), snd sample_open_transfer)"
proof -
  have "fst sample_open_transfer = Inl (Transfer (SourceRealmOpen (Id 2)))"
    by (simp add: sample_open_transfer_def transfer_def transfer_inner_apply [OF sample_bound_wf sample_bound_fresh]
        sample_request_def policy_of_def Let_def)
  then show ?thesis unfolding sample_open_transfer_def by (metis prod.collapse)
qed

lemma transfer_failure_changes_nothing_witness:
  "snd sample_open_transfer = sample_bound_db\<lparr>transfer_log :=
     [log_entry 100 51 (sample_request\<lparr>rq_character := Id 2\<rparr>) (Some (Id 1)) None
        (Some (Transfer (SourceRealmOpen (Id 2))))]\<rparr>"
  using transfer_failure_changes_nothing [OF sample_bound_wf sample_bound_fresh sample_bound_fresh
      sample_open_transfer_run]
  by (simp add: sample_request_def gate_reached_def policy_of_def)


section \<open>Gates and history\<close>

lemma db_wf_gates_update:
  assumes "db_wf db" "keys_unique t"
    and "\<And>a b g. map_of t (a, b) = Some g \<Longrightarrow> has_row (realms db) a \<and> has_row (realms db) b
          \<and> gate_type g \<in> {''open'', ''ticket_item'', ''purchase''}"
  shows "db_wf (db\<lparr>transfer_gates := t\<rparr>)"
  using assms by (simp add: db_wf_def wf_defs)

lemma db_wf_gate: "db_wf db \<Longrightarrow> map_of (transfer_gates db) (a, b) = Some g \<Longrightarrow>
    has_row (realms db) a \<and> has_row (realms db) b \<and> gate_type g \<in> {''open'', ''ticket_item'', ''purchase''}"
  by (simp add: db_wf_def realms_wf_def)

lemma as_db_type_ok: "as_db_type g \<in> {''open'', ''ticket_item'', ''purchase''}"
  by (cases g) simp_all

lemma pres_gate_clear [pres_intros]: "preserves db_wf (gate_clear a b)"
  unfolding gate_clear_def
  by (intro pres_execute db_wf_gates_update)
    (auto simp: db_wf_unique dest: db_wf_gate split: if_splits)

lemma pres_gate_set [pres_intros]: "preserves db_wf (gate_set a b g)"
proof (cases "g = OpenGate")
  case False
  show ?thesis
  proof (rule preservesI)
    fix db r db'
    assume wf: "db_wf db" and run: "gate_set a b g db = (r, db')"
    let ?t = "put_row (a, b) \<lparr>gate_type = as_db_type g, gate_ticket_item_type = fst (gate_columns g),
       gate_purchase_product_id = snd (gate_columns g)\<rparr> (transfer_gates db)"
    show "db_wf db'"
    proof (cases "has_row (realms db) a \<and> has_row (realms db) b")
      case True
      have "db_wf (db\<lparr>transfer_gates := ?t\<rparr>)"
        by (rule db_wf_gates_update [OF wf])
          (use wf True as_db_type_ok [of g] in \<open>auto simp: db_wf_unique dest: db_wf_gate split: if_splits\<close>)
      then show ?thesis using run False True by (simp add: gate_set_def)
    qed (use wf run False in \<open>auto simp: gate_set_def split: if_splits\<close>)
  qed
qed (simp add: gate_set_def pres_gate_clear)

lemma row_to_gate_columns:
  "row_to_gate \<lparr>gate_type = as_db_type g, gate_ticket_item_type = fst (gate_columns g),
     gate_purchase_product_id = snd (gate_columns g)\<rparr> = Inr g"
  by (cases g) (simp_all add: row_to_gate_def gate_columns_def)

lemma pres_decrement_item [pres_intros]: "preserves db_wf (decrement_item c t)"
proof (rule preservesI)
  fix db r db'
  assume wf: "db_wf db" and run: "decrement_item c t db = (r, db')"
  have "preserves db_wf (update_item_quantity c t (qty db c t - 1))" by (intro pres_intros)
  then show "db_wf db'" using wf run by (simp add: decrement_item_def preserves_def) (metis snd_conv)
qed

lemma pres_pass_gate [pres_intros]: "preserves db_wf (pass_gate verify c gate)"
  unfolding pass_gate_def consume_ticket_def by (cases gate) (auto intro!: pres_intros)

lemma db_wf_log_update [simp]: "db_wf (db\<lparr>transfer_log := l\<rparr>) = db_wf db"
  by (simp add: db_wf_def wf_defs)

text \<open>
  Every transfer attempt, successful or not, keeps the database's constraints: unique keys,
  positive stacks, existing references, and in particular a moved character's new realm exists.
\<close>

theorem transfer_keeps_constraints:
  assumes "fresh_entry db (fst ids)" "fresh_entry db (snd ids)" "db_wf db"
    "transfer verify now ids rq db = (r, db')"
  shows "db_wf db'"
proof (cases r)
  case (Inl e)
  then have "transfer verify now ids rq db = (Inl e, db')" using assms(4) by simp
  from transfer_Inl [OF assms(3,1,2) this] assms(3) show ?thesis by simp
next
  case (Inr u)
  then obtain ch gate db1 where allowed: "transfer_allowed verify now rq db ch gate"
    and pass: "pass_gate verify (rq_character rq) gate db = (Inr (), db1)"
    and db': "db' = db1\<lparr>characters := upd_row (rq_character rq) (arrived rq) (characters db1),
             transfer_log := transfer_log db1 @ [log_entry now (fst ids) rq
               (Some (ch_realm ch)) (Some (as_db_type gate)) None]\<rparr>"
    using transfer_Inr [OF assms(3,1)] assms(4) by blast
  obtain v where v: "db1 = db\<lparr>items := v\<rparr>" using pass_gate_ok(2) [OF assms(3) pass] by blast
  have wf1: "db_wf db1" by (rule preservesD [OF pres_pass_gate assms(3) pass])
  have dest: "has_row (realms db1) (rq_destination rq)"
    using allowed by (simp add: v transfer_allowed_def policy_of_has_row)
  have "db_wf (db1\<lparr>characters := upd_row (rq_character rq) (arrived rq) (characters db1)\<rparr>)"
    using db_wf_unique(2) [OF wf1] wf1 dest
    by (intro db_wf_characters_update [OF wf1])
      (auto simp: arrived_def db_wf_def characters_wf_def split: if_splits)
  then show ?thesis by (simp add: db')
qed

lemma transfer_keeps_constraints_witness: "db_wf (snd sample_transfer)"
  using transfer_keeps_constraints [OF sample_bound_fresh sample_bound_fresh sample_bound_wf
      sample_transfer_run] .

text \<open>
  A gate that was set between two existing realms reads back as set, whichever kind it is and
  whatever was configured before; every other ordered pair of realms, the reverse direction
  included, keeps its gate; and a pair nothing was configured for is open.
\<close>

theorem gate_round_trip:
  assumes "has_row (realms db) a" "has_row (realms db) b"
  shows "fst (gate_set a b g db) = Inr ()
     \<and> gate_get a b (snd (gate_set a b g db)) = (Inr g, snd (gate_set a b g db))
     \<and> (\<forall>a' b'. (a', b') \<noteq> (a, b) \<longrightarrow>
          fst (gate_get a' b' (snd (gate_set a b g db))) = fst (gate_get a' b' db))
     \<and> fst (gate_get a b (snd (gate_clear a b db))) = Inr OpenGate"
  using assms row_to_gate_columns [of g]
  by (auto simp: gate_set_def gate_of_def gate_clear_def)

lemma gate_round_trip_witness:
  "fst (gate_get (Id 1) (Id 2) (snd (gate_set (Id 1) (Id 2) (Purchase ''pass'') sample_db))) = Inr (Purchase ''pass'')
   \<and> fst (gate_get (Id 2) (Id 1) (snd (gate_set (Id 1) (Id 2) (Purchase ''pass'') sample_db))) = fst (gate_get (Id 2) (Id 1) sample_db)"
  using gate_round_trip [of sample_db "Id 1" "Id 2" "Purchase ''pass''"]
  by (auto simp: has_row_def)


text \<open>The rows this code writes: an outcome that reads back, a reason exactly on failures.\<close>

definition log_wf :: "db \<Rightarrow> bool" where
  "log_wf db \<longleftrightarrow> (\<forall>r \<in> set (transfer_log db). log_outcome r \<in> {''success'', ''failed''})"

definition read_log_row :: "log_row \<Rightarrow> transfer_log_record" where
  "read_log_row r = \<lparr>rec_id = log_id r, rec_character = log_character r, rec_source = log_source r,
     rec_destination = log_destination r, rec_gate_type = log_gate_type r,
     rec_initiated_by = log_initiated_by r,
     rec_outcome = (if log_outcome r = ''success'' then Success else Failed (log_failure_reason r))\<rparr>"

lemma row_to_record_ok:
  "log_outcome r \<in> {''success'', ''failed''} \<Longrightarrow> row_to_record r = Inr (read_log_row r)"
  by (auto simp: row_to_record_def read_log_row_def)

lemma collect_results_map:
  "(\<And>x. x \<in> set xs \<Longrightarrow> f x = Inr (g x)) \<Longrightarrow> collect_results f xs = Inr (map g xs)"
  by (induction xs) auto

definition history_rows :: "character_id \<Rightarrow> db \<Rightarrow> log_row list" where
  "history_rows c db = sort_key (\<lambda>r. - log_created_at r) (filter (\<lambda>r. log_character r = c) (transfer_log db))"

lemma history_apply:
  assumes "log_wf db"
  shows "history_for_character c db = (Inr (map read_log_row (history_rows c db)), db)"
proof -
  have "collect_results row_to_record (history_rows c db) = Inr (map read_log_row (history_rows c db))"
    using assms by (intro collect_results_map row_to_record_ok) (auto simp: log_wf_def history_rows_def)
  then show ?thesis by (simp add: history_for_character_def history_rows_def)
qed

lemma sort_key_snoc_least:
  "\<forall>y \<in> set xs. f x < f y \<Longrightarrow> sort_key f (xs @ [x]) = x # sort_key f xs"
  by (induction xs) auto

lemma transfer_log_grows:
  assumes "db_wf db" "fresh_entry db (fst ids)" "fresh_entry db (snd ids)"
    "transfer verify now ids rq db = (r, db')"
  shows "\<exists>i src g. transfer_log db' = transfer_log db @ [log_entry now i rq src g
     (case r of Inl e \<Rightarrow> Some e | Inr _ \<Rightarrow> None)]"
proof (cases r)
  case (Inl e)
  then have "transfer verify now ids rq db = (Inl e, db')" using assms(4) by simp
  from transfer_Inl [OF assms(1-3) this] show ?thesis by (auto simp: Inl)
next
  case (Inr u)
  then have "transfer verify now ids rq db = (Inr u, db')" using assms(4) by simp
  then obtain ch :: character_row and gate db1 where pass: "pass_gate verify (rq_character rq) gate db = (Inr (), db1)"
    and db': "db' = db1\<lparr>characters := upd_row (rq_character rq) (arrived rq) (characters db1),
             transfer_log := transfer_log db1 @ [log_entry now (fst ids) rq
               (Some (ch_realm ch)) (Some (as_db_type gate)) None]\<rparr>"
    unfolding transfer_Inr [OF assms(1,2)] by blast
  obtain v where "db1 = db\<lparr>items := v\<rparr>" using pass_gate_ok(2) [OF assms(1) pass] by blast
  then show ?thesis by (auto simp: db' Inr)
qed

text \<open>
  The history of a character is complete and newest first: after any attempt the history
  read back is the one from before with that attempt's outcome (the error itself on a failure)
  added once, at the head when every older entry has an earlier time stamp, and the histories of
  other characters are unchanged.
\<close>

theorem transfer_history_complete:
  assumes "db_wf db" "fresh_entry db (fst ids)" "fresh_entry db (snd ids)" "log_wf db"
    and "transfer verify now ids rq db = (r, db')"
  shows "\<exists>old new entry. history_for_character (rq_character rq) db = (Inr old, db)
     \<and> history_for_character (rq_character rq) db' = (Inr new, db')
     \<and> mset new = add_mset entry (mset old)
     \<and> ((\<forall>l \<in> set (transfer_log db). log_created_at l < now) \<longrightarrow> new = entry # old)
     \<and> rec_character entry = rq_character rq
     \<and> rec_destination entry = rq_destination rq
     \<and> rec_outcome entry = (case r of Inl e \<Rightarrow> Failed (Some e) | Inr _ \<Rightarrow> Success)
     \<and> (\<forall>c. c \<noteq> rq_character rq \<longrightarrow>
          fst (history_for_character c db') = fst (history_for_character c db))"
proof -
  obtain i src g where grow: "transfer_log db' = transfer_log db @ [log_entry now i rq src g
     (case r of Inl e \<Rightarrow> Some e | Inr _ \<Rightarrow> None)]" (is "_ = _ @ [?row]")
    using transfer_log_grows [OF assms(1-3,5)] by blast
  have wf': "log_wf db'"
    using assms(4) by (auto simp: log_wf_def grow log_entry_def split: sum.split)
  have row: "log_character ?row = rq_character rq" by (simp add: log_entry_def)
  have out: "rec_outcome (read_log_row ?row) = (case r of Inl e \<Rightarrow> Failed (Some e) | Inr _ \<Rightarrow> Success)"
    "rec_character (read_log_row ?row) = rq_character rq"
    "rec_destination (read_log_row ?row) = rq_destination rq"
    by (cases r; simp add: log_entry_def read_log_row_def)+
  have ms: "mset (map read_log_row (history_rows (rq_character rq) db')) =
      add_mset (read_log_row ?row) (mset (map read_log_row (history_rows (rq_character rq) db)))"
    by (simp add: history_rows_def grow row)
  have hd: "history_rows (rq_character rq) db' = ?row # history_rows (rq_character rq) db"
    if "\<forall>l \<in> set (transfer_log db). log_created_at l < now"
  proof -
    have "log_created_at ?row = now" by (simp add: log_entry_def)
    then show ?thesis
      using that row by (simp add: history_rows_def grow sort_key_snoc_least)
  qed
  have other: "history_rows c db' = history_rows c db" if "c \<noteq> rq_character rq" for c
    using that row by (simp add: history_rows_def grow)
  show ?thesis
    unfolding history_apply [OF assms(4)] history_apply [OF wf']
    by (intro exI [of _ "map read_log_row (history_rows (rq_character rq) db)"]
        exI [of _ "map read_log_row (history_rows (rq_character rq) db')"]
        exI [of _ "read_log_row ?row"] conjI refl out)
      (simp_all add: ms [simplified] other hd)
qed

lemma transfer_history_complete_witness:
  "\<exists>old new entry. mset new = add_mset entry (mset old) \<and> rec_outcome entry = Success
     \<and> history_for_character (Id 1) (snd sample_transfer) = (Inr new, snd sample_transfer)"
  using transfer_history_complete [OF sample_bound_wf sample_bound_fresh sample_bound_fresh _
      sample_transfer_run]
  by (simp add: log_wf_def sample_request_def) blast

end
