(* ===== verification/Ledger.thy ===== *)
theory Ledger
  imports Errors Effects "HOL-Library.AList"
begin

text \<open>
  The interface both kinds of holdings offer to a trade: an amount per owner and key that a
  \<open>take\<close> lowers and a \<open>give\<close> raises, each returning the amount that results. A provider promises
  what one successful step does; the locale proves what a whole loop of steps does, and that the
  \<^verbatim>\<open>changes\<close> map the loop fills reports the amounts the state really holds.
\<close>

text \<open>
  \<^verbatim>\<open>for (key, n) in list { ...; changes.insert(key, resulting) }\<close>, the loop of
  \<^verbatim>\<open>consume_items\<close>, \<^verbatim>\<open>grant_items\<close>, \<^verbatim>\<open>consume_currency\<close> and \<^verbatim>\<open>grant_currency\<close>.
\<close>

definition record_all ::
  "('o \<Rightarrow> 'k \<Rightarrow> int \<Rightarrow> ('s, 'e, int) action) \<Rightarrow> 'o \<Rightarrow> ('k \<times> int) list \<Rightarrow> ('k \<times> int) list
     \<Rightarrow> ('s, 'e, ('k \<times> int) list) action" where
  "record_all step ow xs changes =
     for_each (\<lambda>(k, n) ch. andThen (step ow k n) (\<lambda>r. ok (AList.update k r ch))) xs changes"

lemma record_all_Nil: "record_all step ow [] ch s = (Inr ch', s') \<longleftrightarrow> ch' = ch \<and> s' = s"
  by (auto simp: record_all_def)

lemma record_all_Cons:
  "record_all step ow ((k, n) # xs) ch s = (Inr ch', s') \<longleftrightarrow>
     (\<exists>r s1. step ow k n s = (Inr r, s1)
        \<and> record_all step ow xs (AList.update k r ch) s1 = (Inr ch', s'))"
  by (auto simp: record_all_def andThen_Inr)

lemma pres_record_all [pres_intros]:
  "(\<And>k n. preserves I (step ow k n)) \<Longrightarrow> preserves I (record_all step ow xs ch)"
  unfolding record_all_def by (rule pres_for_each) (auto intro!: pres_andThen pres_ok)

definition amounts_positive :: "('k \<times> int) list \<Rightarrow> bool" where
  "amounts_positive xs \<longleftrightarrow> (\<forall>(k, n) \<in> set xs. 0 < n \<and> in_i64 n)"

lemma amounts_positive_Cons [simp]:
  "amounts_positive ((k, n) # xs) \<longleftrightarrow> 0 < n \<and> in_i64 n \<and> amounts_positive xs"
  by (simp add: amounts_positive_def)

lemma record_all_invariant:
  assumes "\<And>k n s r s'. I s \<Longrightarrow> 0 < n \<Longrightarrow> in_i64 n \<Longrightarrow> step ow k n s = (Inr r, s') \<Longrightarrow> I s'"
    and "record_all step ow xs ch s = (Inr ch', s')" "amounts_positive xs" "I s"
  shows "I s'"
  using assms(2-4)
proof (induction xs arbitrary: ch s)
  case Nil
  then show ?case by (simp add: record_all_Nil)
next
  case (Cons x xs)
  obtain k n where x: "x = (k, n)" by force
  with Cons show ?case by (auto simp: record_all_Cons dest: assms(1))
qed

lemma total_of_positive: "amounts_positive xs \<Longrightarrow> 0 \<le> total_of xs k"
  by (rule total_of_nonneg) (auto simp: amounts_positive_def)

text \<open>What the loop's map says of the owner it ran for.\<close>

definition reports :: "('k \<Rightarrow> int) \<Rightarrow> ('k \<times> int) list \<Rightarrow> bool" where
  "reports amt ch \<longleftrightarrow> (\<forall>k v. map_of ch k = Some v \<longrightarrow> v = amt k)"

lemma reports_Nil [simp]: "reports amt []"
  by (simp add: reports_def)

lemma dom_update [simp]: "dom (map_of (AList.update k v ch)) = insert k (dom (map_of ch))"
  by (simp add: update_conv')

locale ledger =
  fixes inv :: "'s \<Rightarrow> bool"
    and amount :: "'s \<Rightarrow> 'o \<Rightarrow> 'k \<Rightarrow> int"
    and rest :: "'s \<Rightarrow> 'f"
    and take_step :: "'o \<Rightarrow> 'k \<Rightarrow> int \<Rightarrow> ('s, 'e, int) action"
    and give_step :: "'o \<Rightarrow> 'k \<Rightarrow> int \<Rightarrow> ('s, 'e, int) action"
  assumes take_ok: "inv s \<Longrightarrow> 0 < n \<Longrightarrow> in_i64 n \<Longrightarrow> take_step ow k n s = (Inr r, s') \<Longrightarrow>
      inv s' \<and> rest s' = rest s \<and> r = amount s ow k - n
      \<and> amount s' = (\<lambda>o' k'. if o' = ow \<and> k' = k then r else amount s o' k')"
    and give_ok: "inv s \<Longrightarrow> 0 < n \<Longrightarrow> in_i64 n \<Longrightarrow> give_step ow k n s = (Inr r, s') \<Longrightarrow>
      inv s' \<and> rest s' = rest s \<and> r = amount s ow k + n
      \<and> amount s' = (\<lambda>o' k'. if o' = ow \<and> k' = k then r else amount s o' k')"
    and take_enough: "inv s \<Longrightarrow> 0 < n \<Longrightarrow> in_i64 n \<Longrightarrow> n \<le> amount s ow k \<Longrightarrow>
      \<exists>r s'. take_step ow k n s = (Inr r, s')"
    and amount_nonneg: "inv s \<Longrightarrow> 0 \<le> amount s ow k"
begin

lemma take_all:
  assumes "record_all take_step ow xs ch s = (Inr ch', s')" "inv s" "amounts_positive xs"
  shows "inv s' \<and> rest s' = rest s
    \<and> (\<forall>o' k. amount s' o' k = amount s o' k - (if o' = ow then total_of xs k else 0))"
  using assms
proof (induction xs arbitrary: ch s)
  case Nil
  then show ?case by (simp add: record_all_Nil)
next
  case (Cons x xs)
  obtain k n where x: "x = (k, n)" by force
  obtain r s1 where step: "take_step ow k n s = (Inr r, s1)"
    and run: "record_all take_step ow xs (AList.update k r ch) s1 = (Inr ch', s')"
    using Cons.prems(1) by (auto simp: x record_all_Cons)
  have n: "0 < n" "in_i64 n" "amounts_positive xs" using Cons.prems(3) by (simp_all add: x)
  note one = take_ok [OF Cons.prems(2) n(1,2) step]
  then have "inv s1" by simp
  from Cons.IH [OF run this n(3)] one show ?case by (auto simp: x)
qed

lemma give_all:
  assumes "record_all give_step ow xs ch s = (Inr ch', s')" "inv s" "amounts_positive xs"
  shows "inv s' \<and> rest s' = rest s
    \<and> (\<forall>o' k. amount s' o' k = amount s o' k + (if o' = ow then total_of xs k else 0))"
  using assms
proof (induction xs arbitrary: ch s)
  case Nil
  then show ?case by (simp add: record_all_Nil)
next
  case (Cons x xs)
  obtain k n where x: "x = (k, n)" by force
  obtain r s1 where step: "give_step ow k n s = (Inr r, s1)"
    and run: "record_all give_step ow xs (AList.update k r ch) s1 = (Inr ch', s')"
    using Cons.prems(1) by (auto simp: x record_all_Cons)
  have n: "0 < n" "in_i64 n" "amounts_positive xs" using Cons.prems(3) by (simp_all add: x)
  note one = give_ok [OF Cons.prems(2) n(1,2) step]
  then have "inv s1" by simp
  from Cons.IH [OF run this n(3)] one show ?case by (auto simp: x)
qed

text \<open>A loop that asks for no more than is held, key by key, runs to its end.\<close>

lemma take_all_enough:
  assumes "inv s" "amounts_positive xs" "\<And>k. total_of xs k \<le> amount s ow k"
  shows "\<exists>ch' s'. record_all take_step ow xs ch s = (Inr ch', s')"
  using assms
proof (induction xs arbitrary: ch s)
  case Nil
  then show ?case by (simp add: record_all_Nil)
next
  case (Cons x xs)
  obtain k n where x: "x = (k, n)" by force
  have n: "0 < n" "in_i64 n" "amounts_positive xs" using Cons.prems(2) by (simp_all add: x)
  have "n \<le> amount s ow k"
    using Cons.prems(3) [of k] total_of_positive [OF n(3), of k] by (simp add: x)
  then obtain r s1 where step: "take_step ow k n s = (Inr r, s1)"
    using take_enough [OF Cons.prems(1) n(1,2)] by blast
  note one = take_ok [OF Cons.prems(1) n(1,2) step]
  have "total_of xs k' \<le> amount s1 ow k'" for k'
    using one Cons.prems(3) [of k'] by (auto simp: x split: if_splits)
  then obtain ch' s' where "record_all take_step ow xs (AList.update k r ch) s1 = (Inr ch', s')"
    using Cons.IH [of s1] one n(3) by blast
  then show ?case using step by (auto simp: x record_all_Cons)
qed

text \<open>Both sides of a trade pay.\<close>

lemma take_both_enough:
  assumes "inv s" "amounts_positive xs" "amounts_positive ys" "a \<noteq> b"
    "\<And>k. total_of xs k \<le> amount s a k" "\<And>k. total_of ys k \<le> amount s b k"
  shows "\<exists>ca cb s1 s2. record_all take_step a xs ch s = (Inr ca, s1)
    \<and> record_all take_step b ys ch' s1 = (Inr cb, s2) \<and> inv s2 \<and> rest s2 = rest s
    \<and> (\<forall>k. amount s2 a k = amount s a k - total_of xs k)
    \<and> (\<forall>k. amount s2 b k = amount s b k - total_of ys k)"
proof -
  obtain ca s1 where 1: "record_all take_step a xs ch s = (Inr ca, s1)"
    using take_all_enough [OF assms(1,2,5)] by blast
  note e1 = take_all [OF 1 assms(1,2)]
  have "total_of ys k \<le> amount s1 b k" for k using e1 assms(4,6) by auto
  then obtain cb s2 where 2: "record_all take_step b ys ch' s1 = (Inr cb, s2)"
    using take_all_enough [OF conjunct1 [OF e1] assms(3)] by blast
  note e2 = take_all [OF 2 conjunct1 [OF e1] assms(3)]
  show ?thesis
    using 1 2 e1 e2 assms(4) by (intro exI [of _ ca] exI [of _ cb] exI [of _ s1] exI [of _ s2]) simp
qed

lemma take_all_reports:
  assumes "record_all take_step ow xs ch s = (Inr ch', s')" "inv s" "amounts_positive xs"
    "reports (amount s ow) ch"
  shows "reports (amount s' ow) ch' \<and> dom (map_of ch') = dom (map_of ch) \<union> fst ` set xs"
  using assms
proof (induction xs arbitrary: ch s)
  case Nil
  then show ?case by (simp add: record_all_Nil)
next
  case (Cons x xs)
  obtain k n where x: "x = (k, n)" by force
  obtain r s1 where step: "take_step ow k n s = (Inr r, s1)"
    and run: "record_all take_step ow xs (AList.update k r ch) s1 = (Inr ch', s')"
    using Cons.prems(1) by (auto simp: x record_all_Cons)
  have n: "0 < n" "in_i64 n" "amounts_positive xs" using Cons.prems(3) by (simp_all add: x)
  note one = take_ok [OF Cons.prems(2) n(1,2) step]
  have "reports (amount s1 ow) (AList.update k r ch)"
    using one Cons.prems(4) by (auto simp: reports_def update_conv')
  from Cons.IH [OF run _ n(3) this] one show ?case by (auto simp: x)
qed

lemma give_all_reports:
  assumes "record_all give_step ow xs ch s = (Inr ch', s')" "inv s" "amounts_positive xs"
    "reports (amount s ow) ch"
  shows "reports (amount s' ow) ch' \<and> dom (map_of ch') = dom (map_of ch) \<union> fst ` set xs"
  using assms
proof (induction xs arbitrary: ch s)
  case Nil
  then show ?case by (simp add: record_all_Nil)
next
  case (Cons x xs)
  obtain k n where x: "x = (k, n)" by force
  obtain r s1 where step: "give_step ow k n s = (Inr r, s1)"
    and run: "record_all give_step ow xs (AList.update k r ch) s1 = (Inr ch', s')"
    using Cons.prems(1) by (auto simp: x record_all_Cons)
  have n: "0 < n" "in_i64 n" "amounts_positive xs" using Cons.prems(3) by (simp_all add: x)
  note one = give_ok [OF Cons.prems(2) n(1,2) step]
  have "reports (amount s1 ow) (AList.update k r ch)"
    using one Cons.prems(4) by (auto simp: reports_def update_conv')
  from Cons.IH [OF run _ n(3) this] one show ?case by (auto simp: x)
qed

end

end
