(* ===== verification/Trade.thy ===== *)
theory Trade
  imports Inventory Ledger Samples
begin

text \<open>
  \<^verbatim>\<open>crates/character/src/trade.rs\<close>: the atomic exchange of two already negotiated offers. An
  offer is the list of \<open>(key, amount)\<close> pairs the Rust vector holds, repeated keys included. The
  \<^verbatim>\<open>HashMap\<close>s of resulting values are association lists.
\<close>

record trade_offer_input =
  offer_items :: "(string \<times> i64) list"
  offer_currency :: "(string \<times> i64) list"

record trade_side_result =
  item_changes :: "(string \<times> i64) list"
  currency_changes :: "(string \<times> i64) list"

record trade_result =
  side_a :: trade_side_result
  side_b :: trade_side_result

section \<open>Validation\<close>

definition check_positive :: "(string \<times> i64) list \<Rightarrow> error + unit" where
  "check_positive xs =
     check_all (\<lambda>(key, n). ensure (\<not> n \<le> 0) (Store (OfferNotPositive key n))) xs"

definition validate_offer :: "trade_offer_input \<Rightarrow> error + unit" where
  "validate_offer offer =
     try_then (check_positive (offer_items offer)) (\<lambda>_. check_positive (offer_currency offer))"

definition check_item_offer :: "character_id \<Rightarrow> string \<times> i64 \<Rightarrow> unit \<Rightarrow> unit sql" where
  "check_item_offer c = (\<lambda>(t, n) _.
     andThen (select_quantity c t) (\<lambda>found.
     let current = (case found of None \<Rightarrow> 0 | Some q \<Rightarrow> q) in
     require (\<not> current < n) (Store (OfferNotHeld c n t current))))"

definition check_currency_offer :: "character_id \<Rightarrow> string \<times> i64 \<Rightarrow> unit \<Rightarrow> unit sql" where
  "check_currency_offer c = (\<lambda>(k, n) _.
     andThen (select_balance c k) (\<lambda>found.
     let current = (case found of None \<Rightarrow> 0 | Some b \<Rightarrow> b) in
     require (\<not> current < n) (Store (OfferNotHeld c n k current))))"

definition check_offer_held :: "character_id \<Rightarrow> trade_offer_input \<Rightarrow> unit sql" where
  "check_offer_held c offer =
     andThen (for_each (check_item_offer c) (offer_items offer) ()) (\<lambda>_.
     for_each (check_currency_offer c) (offer_currency offer) ())"

section \<open>Moving holdings\<close>

definition consume_item :: "character_id \<Rightarrow> string \<Rightarrow> i64 \<Rightarrow> i64 sql" where
  "consume_item c t n =
     andThen (fetch_one (select_quantity c t)) (\<lambda>current.
     let remaining = sub_i64 current n in
     andThen (set_remaining c t remaining) (\<lambda>_. ok remaining))"

definition consume_items ::
  "character_id \<Rightarrow> (string \<times> i64) list \<Rightarrow> (string \<times> i64) list \<Rightarrow> (string \<times> i64) list sql" where
  "consume_items c xs changes = record_all consume_item c xs changes"

definition grant_traded_item :: "character_store \<Rightarrow> character_id \<Rightarrow> string \<Rightarrow> i64 \<Rightarrow> i64 sql" where
  "grant_traded_item st c t n =
     andThen (query (\<lambda>db. has_row (items db) (c, t))) (\<lambda>already_owned.
     andThen (if already_owned then ok ()
       else andThen (count_stacks c) (\<lambda>distinct_count.
         let mx = int (max_distinct_item_types (st_inventory_config st)) in
         require (\<not> distinct_count \<ge> mx) (Store (InventoryFull distinct_count mx)))) (\<lambda>_.
     upsert_item_add c t n))"

definition grant_items ::
  "character_store \<Rightarrow> character_id \<Rightarrow> (string \<times> i64) list \<Rightarrow> (string \<times> i64) list
     \<Rightarrow> (string \<times> i64) list sql" where
  "grant_items st c xs changes = record_all (grant_traded_item st) c xs changes"

definition consume_currency_row :: "character_id \<Rightarrow> string \<Rightarrow> i64 \<Rightarrow> i64 sql" where
  "consume_currency_row c k n =
     andThen (fetch_one (select_balance c k)) (\<lambda>current.
     let new_balance = sub_i64 current n in
     andThen (update_balance c k new_balance) (\<lambda>_. ok new_balance))"

definition consume_currency ::
  "character_id \<Rightarrow> (string \<times> i64) list \<Rightarrow> (string \<times> i64) list \<Rightarrow> (string \<times> i64) list sql" where
  "consume_currency c xs changes = record_all consume_currency_row c xs changes"

definition grant_currency ::
  "character_id \<Rightarrow> (string \<times> i64) list \<Rightarrow> (string \<times> i64) list \<Rightarrow> (string \<times> i64) list sql" where
  "grant_currency c xs changes = record_all upsert_balance_add c xs changes"

section \<open>The exchange\<close>

definition exchange ::
  "character_store \<Rightarrow> character_id \<Rightarrow> trade_offer_input \<Rightarrow> character_id \<Rightarrow> trade_offer_input
     \<Rightarrow> trade_result sql" where
  "exchange st a offer_a b offer_b =
     andThen (check_offer_held a offer_a) (\<lambda>_.
     andThen (check_offer_held b offer_b) (\<lambda>_.
     andThen (consume_items a (offer_items offer_a) []) (\<lambda>a_changes.
     andThen (consume_items b (offer_items offer_b) []) (\<lambda>b_changes.
     andThen (consume_currency a (offer_currency offer_a) []) (\<lambda>a_currency.
     andThen (consume_currency b (offer_currency offer_b) []) (\<lambda>b_currency.
     andThen (grant_items st b (offer_items offer_a) b_changes) (\<lambda>b_changes'.
     andThen (grant_items st a (offer_items offer_b) a_changes) (\<lambda>a_changes'.
     andThen (grant_currency b (offer_currency offer_a) b_currency) (\<lambda>b_currency'.
     andThen (grant_currency a (offer_currency offer_b) a_currency) (\<lambda>a_currency'.
     ok \<lparr>side_a = \<lparr>item_changes = a_changes', currency_changes = a_currency'\<rparr>,
         side_b = \<lparr>item_changes = b_changes', currency_changes = b_currency'\<rparr>\<rparr>))))))))))"

definition execute_trade ::
  "character_store \<Rightarrow> character_id \<Rightarrow> trade_offer_input \<Rightarrow> character_id \<Rightarrow> trade_offer_input
     \<Rightarrow> trade_result sql" where
  "execute_trade st a offer_a b offer_b =
     andThen (lift (validate_offer offer_a)) (\<lambda>_.
     andThen (lift (validate_offer offer_b)) (\<lambda>_.
     transaction (exchange st a offer_a b offer_b)))"

section \<open>Items and currency are ledgers\<close>

lemma consume_item_ok:
  assumes wf: "db_wf db" and n: "0 < n" "in_i64 n"
    and run: "consume_item c t n db = (Inr r, db')"
  shows "r = qty db c t - n" "0 \<le> r"
    "qty db' = (\<lambda>c' t'. if c' = c \<and> t' = t then r else qty db c' t')"
    "\<exists>u. db' = db\<lparr>items := u\<rparr>" "stacks db' c' \<le> stacks db c'"
proof -
  obtain row where row: "map_of (items db) (c, t) = Some row"
    and r: "r = sub_i64 (quantity row) n" and sr: "set_remaining c t r db = (Inr (), db')"
    using run by (auto simp: consume_item_def andThen_Inr fetch_one_apply Let_def
        split: option.splits)
  have q: "quantity row = qty db c t" by (simp add: qty_def row)
  have "in_i64 (quantity row - n)" using db_wf_item [OF wf row] n by (auto simp: in_i64_iff)
  then show "r = qty db c t - n" by (simp add: r q)
  have hr: "has_row (items db) (c, t)" by (simp add: has_row_def row)
  note * = set_remaining_ok [OF sr hr wf]
  show "0 \<le> r" "qty db' = (\<lambda>c' t'. if c' = c \<and> t' = t then r else qty db c' t')"
    "\<exists>u. db' = db\<lparr>items := u\<rparr>" using * by simp_all
  show "stacks db' c' \<le> stacks db c'" using *(4) *(5) [of c'] by (cases "c' = c") simp_all
qed

lemma grant_traded_item_run:
  "grant_traded_item st c t n db = (Inr q, db') \<longleftrightarrow>
     (has_row (items db) (c, t) \<or> stacks db c < int (max_distinct_item_types (st_inventory_config st)))
     \<and> upsert_item_add c t n db = (Inr q, db')"
  by (auto simp: grant_traded_item_def andThen_apply count_stacks_def Let_def not_le)

lemma consume_currency_ok:
  assumes wf: "db_wf db" and n: "0 < n" "in_i64 n"
    and run: "consume_currency_row c k n db = (Inr r, db')"
  shows "r = balance_of db c k - n" "0 \<le> r"
    "balance_of db' = (\<lambda>c' k'. if c' = c \<and> k' = k then r else balance_of db c' k')"
    "\<exists>u. db' = db\<lparr>currency := u\<rparr>"
proof -
  obtain b where row: "map_of (currency db) (c, k) = Some b"
    and r: "r = sub_i64 b n" and up: "update_balance c k r db = (Inr (), db')"
    using run by (auto simp: consume_currency_row_def andThen_Inr fetch_one_apply Let_def
        split: option.splits)
  have q: "b = balance_of db c k" by (simp add: balance_of_def row)
  have "in_i64 (b - n)" using db_wf_currency [OF wf row] n by (auto simp: in_i64_iff)
  then show "r = balance_of db c k - n" by (simp add: r q)
  show "0 \<le> r" "balance_of db' = (\<lambda>c' k'. if c' = c \<and> k' = k then r else balance_of db c' k')"
    "\<exists>u. db' = db\<lparr>currency := u\<rparr>"
    using up by (auto simp: update_balance_def has_row_def row balance_of_def fun_eq_iff
        split: if_splits)
qed

lemma consume_item_enough:
  assumes wf: "db_wf db" and n: "0 < n" "in_i64 n" "n \<le> qty db c t"
  shows "\<exists>r db'. consume_item c t n db = (Inr r, db')"
proof -
  obtain row where row: "map_of (items db) (c, t) = Some row"
    using n by (auto simp: qty_def split: option.splits)
  have "in_i64 (quantity row - n)" "n \<le> quantity row"
    using db_wf_item [OF wf row] n row by (auto simp: in_i64_iff qty_def)
  then show ?thesis
    using row by (auto simp: consume_item_def andThen_apply fetch_one_apply Let_def
        set_remaining_def update_item_quantity_def item_row_ok_def)
qed

lemma consume_currency_enough:
  assumes wf: "db_wf db" and n: "0 < n" "in_i64 n" "n \<le> balance_of db c k"
  shows "\<exists>r db'. consume_currency_row c k n db = (Inr r, db')"
proof -
  obtain b where row: "map_of (currency db) (c, k) = Some b"
    using n by (auto simp: balance_of_def split: option.splits)
  have "in_i64 (b - n)" "n \<le> b"
    using db_wf_currency [OF wf row] n row by (auto simp: in_i64_iff balance_of_def)
  then show ?thesis
    using row by (auto simp: consume_currency_row_def andThen_apply fetch_one_apply Let_def
        update_balance_def)
qed

lemma pres_consume_item [pres_intros]: "preserves db_wf (consume_item c t n)"
  unfolding consume_item_def Let_def by (intro pres_intros)

lemma pres_grant_traded_item [pres_intros]: "preserves db_wf (grant_traded_item st c t n)"
  unfolding grant_traded_item_def Let_def by (intro pres_intros)

lemma pres_consume_currency_row [pres_intros]: "preserves db_wf (consume_currency_row c k n)"
  unfolding consume_currency_row_def Let_def by (intro pres_intros)

interpretation item_ledger: ledger db_wf qty "\<lambda>db. db\<lparr>items := []\<rparr>" consume_item
  "grant_traded_item st" for st
proof unfold_locales
  fix s s' :: db and n r :: int and ow k
  assume wf: "db_wf s" and n: "0 < n" "in_i64 n" and run: "consume_item ow k n s = (Inr r, s')"
  show "db_wf s' \<and> s'\<lparr>items := []\<rparr> = s\<lparr>items := []\<rparr> \<and> r = qty s ow k - n
      \<and> qty s' = (\<lambda>o' k'. if o' = ow \<and> k' = k then r else qty s o' k')"
    using preservesD [OF pres_consume_item wf run] consume_item_ok [OF wf n run] by auto
next
  fix s :: db and n :: int and ow k
  assume "db_wf s" "0 < n" "in_i64 n" "n \<le> qty s ow k"
  then show "\<exists>r s'. consume_item ow k n s = (Inr r, s')" by (rule consume_item_enough)
next
  fix s s' :: db and n r :: int and ow k
  assume wf: "db_wf s" and n: "0 < n" "in_i64 n"
    and run: "grant_traded_item st ow k n s = (Inr r, s')"
  then have up: "upsert_item_add ow k n s = (Inr r, s')" by (simp add: grant_traded_item_run)
  show "db_wf s' \<and> s'\<lparr>items := []\<rparr> = s\<lparr>items := []\<rparr> \<and> r = qty s ow k + n
      \<and> qty s' = (\<lambda>o' k'. if o' = ow \<and> k' = k then r else qty s o' k')"
    using preservesD [OF pres_grant_traded_item wf run] upsert_item_add_ok [OF up] by auto
qed (rule qty_nonneg)

interpretation currency_ledger: ledger db_wf balance_of "\<lambda>db. db\<lparr>currency := []\<rparr>"
  consume_currency_row upsert_balance_add
proof unfold_locales
  fix s s' :: db and n r :: int and ow k
  assume wf: "db_wf s" and n: "0 < n" "in_i64 n"
    and run: "consume_currency_row ow k n s = (Inr r, s')"
  show "db_wf s' \<and> s'\<lparr>currency := []\<rparr> = s\<lparr>currency := []\<rparr> \<and> r = balance_of s ow k - n
      \<and> balance_of s' = (\<lambda>o' k'. if o' = ow \<and> k' = k then r else balance_of s o' k')"
    using preservesD [OF pres_consume_currency_row wf run] consume_currency_ok [OF wf n run] by auto
next
  fix s :: db and n :: int and ow k
  assume "db_wf s" "0 < n" "in_i64 n" "n \<le> balance_of s ow k"
  then show "\<exists>r s'. consume_currency_row ow k n s = (Inr r, s')" by (rule consume_currency_enough)
next
  fix s s' :: db and n r :: int and ow k
  assume wf: "db_wf s" and n: "0 < n" "in_i64 n"
    and run: "upsert_balance_add ow k n s = (Inr r, s')"
  show "db_wf s' \<and> s'\<lparr>currency := []\<rparr> = s\<lparr>currency := []\<rparr> \<and> r = balance_of s ow k + n
      \<and> balance_of s' = (\<lambda>o' k'. if o' = ow \<and> k' = k then r else balance_of s o' k')"
    using preservesD [OF pres_upsert_balance_add wf run] upsert_balance_add_ok [OF run] by auto
qed (rule balance_nonneg)

section \<open>The whole exchange\<close>

lemma check_item_offer_apply: "check_item_offer c (t, n) u db =
    (if qty db c t < n then (Inl (Store (OfferNotHeld c n t (qty db c t))), db) else (Inr (), db))"
  by (auto simp: check_item_offer_def qty_def Let_def require_def fail_def ok_def split: option.split)

lemma check_currency_offer_apply: "check_currency_offer c (k, n) u db =
    (if balance_of db c k < n then (Inl (Store (OfferNotHeld c n k (balance_of db c k))), db)
     else (Inr (), db))"
  by (auto simp: check_currency_offer_def balance_of_def Let_def require_def fail_def ok_def
      split: option.split)

lemma check_items_loop: "for_each (check_item_offer c) xs u db = (Inr v, db') \<longleftrightarrow>
    db' = db \<and> (\<forall>(t, n) \<in> set xs. n \<le> qty db c t)"
  by (induction xs arbitrary: u)
    (auto simp: andThen_Inr check_item_offer_apply not_less split: if_splits)

lemma check_currency_loop: "for_each (check_currency_offer c) xs u db = (Inr v, db') \<longleftrightarrow>
    db' = db \<and> (\<forall>(k, n) \<in> set xs. n \<le> balance_of db c k)"
  by (induction xs arbitrary: u)
    (auto simp: andThen_Inr check_currency_offer_apply not_less split: if_splits)

lemma check_offer_held_ok: "check_offer_held c offer db = (Inr v, db') \<longleftrightarrow>
    db' = db \<and> (\<forall>(t, n) \<in> set (offer_items offer). n \<le> qty db c t)
    \<and> (\<forall>(k, n) \<in> set (offer_currency offer). n \<le> balance_of db c k)"
  by (auto simp: check_offer_held_def andThen_Inr check_items_loop check_currency_loop)

lemma check_positive_ok: "check_positive xs = Inr u \<longleftrightarrow> (\<forall>(k, n) \<in> set xs. 0 < n)"
  by (auto simp: check_positive_def check_all_ok not_le)

lemma validate_offer_ok: "validate_offer offer = Inr u \<longleftrightarrow>
    (\<forall>(k, n) \<in> set (offer_items offer). 0 < n) \<and> (\<forall>(k, n) \<in> set (offer_currency offer). 0 < n)"
  by (auto simp: validate_offer_def check_positive_ok)

text \<open>An offer that passed both checks carries only positive \<^verbatim>\<open>i64\<close> amounts.\<close>

lemma checked_offer_positive:
  assumes "db_wf db" "validate_offer offer = Inr u" "check_offer_held c offer db = (Inr v, db')"
  shows "amounts_positive (offer_items offer)" "amounts_positive (offer_currency offer)"
proof -
  have i: "in_i64 n" if "0 < n" "n \<le> qty db c t" for n t
    using that qty_in_i64 [OF assms(1), of c t] by (simp add: in_i64_iff)
  have c: "in_i64 n" if "0 < n" "n \<le> balance_of db c t" for n t
    using that balance_in_i64 [OF assms(1), of c t] by (simp add: in_i64_iff)
  show "amounts_positive (offer_items offer)" "amounts_positive (offer_currency offer)"
    using assms(2,3) i c
    by (fastforce simp: amounts_positive_def validate_offer_ok check_offer_held_ok)+
qed

lemma exchange_steps:
  assumes "exchange st a oa b ob db = (Inr res, db')"
  obtains d1 d2 d3 d4 d5 d6 d7 ai bi ac bc u v where
    "check_offer_held a oa db = (Inr u, db)" "check_offer_held b ob db = (Inr v, db)"
    "record_all consume_item a (offer_items oa) [] db = (Inr ai, d1)"
    "record_all consume_item b (offer_items ob) [] d1 = (Inr bi, d2)"
    "record_all consume_currency_row a (offer_currency oa) [] d2 = (Inr ac, d3)"
    "record_all consume_currency_row b (offer_currency ob) [] d3 = (Inr bc, d4)"
    "record_all (grant_traded_item st) b (offer_items oa) bi d4 = (Inr (item_changes (side_b res)), d5)"
    "record_all (grant_traded_item st) a (offer_items ob) ai d5 = (Inr (item_changes (side_a res)), d6)"
    "record_all upsert_balance_add b (offer_currency oa) bc d6
       = (Inr (currency_changes (side_b res)), d7)"
    "record_all upsert_balance_add a (offer_currency ob) ac d7
       = (Inr (currency_changes (side_a res)), db')"
  using assms
  by (auto simp: exchange_def andThen_Inr consume_items_def consume_currency_def grant_items_def
      grant_currency_def check_offer_held_ok)

text \<open>What side \<open>c\<close> gains of a key when \<open>a\<close> gives \<open>xs\<close> and \<open>b\<close> gives \<open>ys\<close>; a character trading
  with itself gains nothing.\<close>

definition net_gain ::
  "character_id \<Rightarrow> (string \<times> i64) list \<Rightarrow> character_id \<Rightarrow> (string \<times> i64) list
     \<Rightarrow> character_id \<Rightarrow> string \<Rightarrow> int" where
  "net_gain a xs b ys c k =
     (if c = a then total_of ys k - total_of xs k else 0)
     + (if c = b then total_of xs k - total_of ys k else 0)"

lemma rest_items: "d'\<lparr>items := []\<rparr> = d\<lparr>items := []\<rparr> \<Longrightarrow> \<exists>u. d' = d\<lparr>items := u\<rparr>"
  by (rule exI [of _ "items d'"]) (cases d; cases d'; simp)

lemma rest_currency: "d'\<lparr>currency := []\<rparr> = d\<lparr>currency := []\<rparr> \<Longrightarrow> \<exists>u. d' = d\<lparr>currency := u\<rparr>"
  by (rule exI [of _ "currency d'"]) (cases d; cases d'; simp)

lemma exchange_effect:
  assumes wf: "db_wf db" and va: "validate_offer oa = Inr ua" and vb: "validate_offer ob = Inr ub"
    and run: "exchange st a oa b ob db = (Inr res, db')"
  shows "db_wf db'"
    and "qty db' c t = qty db c t + net_gain a (offer_items oa) b (offer_items ob) c t"
    and "balance_of db' c t
      = balance_of db c t + net_gain a (offer_currency oa) b (offer_currency ob) c t"
    and "\<exists>u v. db' = db\<lparr>items := u, currency := v\<rparr>"
  using run
proof (atomize (full), elim exchange_steps, goal_cases)
  case (1 d1 d2 d3 d4 d5 d6 d7 ai bi ac bc u v)
  note pa = checked_offer_positive [OF wf va 1(1)] and pb = checked_offer_positive [OF wf vb 1(2)]
  note e1 = item_ledger.take_all [OF 1(3) wf pa(1)]
  note e2 = item_ledger.take_all [OF 1(4) conjunct1 [OF e1] pb(1)]
  note e3 = currency_ledger.take_all [OF 1(5) conjunct1 [OF e2] pa(2)]
  note e4 = currency_ledger.take_all [OF 1(6) conjunct1 [OF e3] pb(2)]
  note e5 = item_ledger.give_all [OF 1(7) conjunct1 [OF e4] pa(1)]
  note e6 = item_ledger.give_all [OF 1(8) conjunct1 [OF e5] pb(1)]
  note e7 = currency_ledger.give_all [OF 1(9) conjunct1 [OF e6] pa(2)]
  note e8 = currency_ledger.give_all [OF 1(10) conjunct1 [OF e7] pb(2)]
  have r: "\<exists>u. d1 = db\<lparr>items := u\<rparr>" "\<exists>u. d2 = d1\<lparr>items := u\<rparr>" "\<exists>u. d3 = d2\<lparr>currency := u\<rparr>"
    "\<exists>u. d4 = d3\<lparr>currency := u\<rparr>" "\<exists>u. d5 = d4\<lparr>items := u\<rparr>" "\<exists>u. d6 = d5\<lparr>items := u\<rparr>"
    "\<exists>u. d7 = d6\<lparr>currency := u\<rparr>" "\<exists>u. db' = d7\<lparr>currency := u\<rparr>"
    using e1 e2 e3 e4 e5 e6 e7 e8 by (blast intro: rest_items rest_currency)+
  then have "\<exists>u v. db' = db\<lparr>items := u, currency := v\<rparr>"
    by (elim exE) (cases db; simp)
  moreover have "qty db' c t = qty db c t + net_gain a (offer_items oa) b (offer_items ob) c t"
    using e1 e2 e5 e6 r(3,4,7,8) by (auto simp: net_gain_def)
  moreover have "balance_of db' c t
      = balance_of db c t + net_gain a (offer_currency oa) b (offer_currency ob) c t"
    using e3 e4 e7 e8 r(1,2,5,6) by (auto simp: net_gain_def)
  ultimately show ?case using e8 by simp
qed

lemma exchange_no_overdraft:
  assumes wf: "db_wf db" and ab: "a \<noteq> b"
    and va: "validate_offer oa = Inr ua" and vb: "validate_offer ob = Inr ub"
    and run: "exchange st a oa b ob db = (Inr res, db')"
  shows "total_of (offer_items oa) t \<le> qty db a t \<and> total_of (offer_items ob) t \<le> qty db b t"
    and "total_of (offer_currency oa) t \<le> balance_of db a t
      \<and> total_of (offer_currency ob) t \<le> balance_of db b t"
  using run
proof (atomize (full), elim exchange_steps, goal_cases)
  case (1 d1 d2 d3 d4 d5 d6 d7 ai bi ac bc u v)
  note pa = checked_offer_positive [OF wf va 1(1)] and pb = checked_offer_positive [OF wf vb 1(2)]
  note e1 = item_ledger.take_all [OF 1(3) wf pa(1)]
  note e2 = item_ledger.take_all [OF 1(4) conjunct1 [OF e1] pb(1)]
  note e3 = currency_ledger.take_all [OF 1(5) conjunct1 [OF e2] pa(2)]
  note e4 = currency_ledger.take_all [OF 1(6) conjunct1 [OF e3] pb(2)]
  have "\<exists>u. d2 = db\<lparr>items := u\<rparr>" using e1 e2 by (auto dest!: rest_items)
  then have "balance_of d2 = balance_of db" by auto
  then show ?case
    using qty_nonneg [OF conjunct1 [OF e2], of a t] qty_nonneg [OF conjunct1 [OF e2], of b t]
      balance_nonneg [OF conjunct1 [OF e4], of a t] balance_nonneg [OF conjunct1 [OF e4], of b t]
      e1 e2 e3 e4 ab by auto
qed

section \<open>Capacity\<close>

text \<open>No trade leaves a side with more stacks than the cap, unless it already held more.\<close>

definition stack_bound :: "character_store \<Rightarrow> db \<Rightarrow> character_id \<Rightarrow> int" where
  "stack_bound st db c =
     max (stacks db c) (int (max_distinct_item_types (st_inventory_config st)))"

lemma consume_item_stacks:
  "db_wf d \<Longrightarrow> 0 < n \<Longrightarrow> in_i64 n \<Longrightarrow> consume_item c' t n d = (Inr r, d') \<Longrightarrow>
     stacks d c \<le> m \<Longrightarrow> stacks d' c \<le> m"
  using consume_item_ok(5) [of d n c' t r d' c] by simp

lemma grant_traded_item_stacks:
  assumes "grant_traded_item st c' t n d = (Inr r, d')" "stacks d c \<le> m"
    "int (max_distinct_item_types (st_inventory_config st)) \<le> m"
  shows "stacks d' c \<le> m"
proof -
  have room: "has_row (items d) (c', t)
      \<or> stacks d c' < int (max_distinct_item_types (st_inventory_config st))"
    and up: "upsert_item_add c' t n d = (Inr r, d')"
    using assms(1) by (simp_all add: grant_traded_item_run)
  show ?thesis
    using upsert_item_add_ok(6) [OF up] upsert_item_add_ok(7) [OF up, of c] room assms(2,3)
    by (cases "c = c'") (auto split: if_splits)
qed

lemma stacks_run:
  assumes "db_wf d" "amounts_positive xs" "stacks d c \<le> m"
  shows "record_all consume_item ow xs ch d = (Inr ch', d') \<Longrightarrow> stacks d' c \<le> m"
    and "record_all (grant_traded_item st) ow xs ch d = (Inr ch', d') \<Longrightarrow>
      int (max_distinct_item_types (st_inventory_config st)) \<le> m \<Longrightarrow> stacks d' c \<le> m"
    and "record_all consume_currency_row ow xs ch d = (Inr ch', d') \<Longrightarrow> stacks d' c \<le> m"
    and "record_all upsert_balance_add ow xs ch d = (Inr ch', d') \<Longrightarrow> stacks d' c \<le> m"
proof -
  let ?I = "\<lambda>d. db_wf d \<and> stacks d c \<le> m"
  have I: "?I d" using assms by simp
  show "stacks d' c \<le> m" if "record_all consume_item ow xs ch d = (Inr ch', d')"
  proof -
    have "?I d'"
    proof (rule record_all_invariant [where I = ?I, OF _ that assms(2) I])
      fix k n s r s' assume "?I s" "0 < n" "in_i64 n" "consume_item ow k n s = (Inr r, s')"
      then show "?I s'"
        using consume_item_stacks [of s n ow k r s' c m] preservesD [OF pres_consume_item] by blast
    qed
    then show ?thesis by simp
  qed
  show "stacks d' c \<le> m" if "record_all (grant_traded_item st) ow xs ch d = (Inr ch', d')"
    and mx: "int (max_distinct_item_types (st_inventory_config st)) \<le> m"
  proof -
    have "?I d'"
    proof (rule record_all_invariant [where I = ?I, OF _ that(1) assms(2) I])
      fix k n s r s'
      assume *: "?I s" "0 < n" "in_i64 n" "grant_traded_item st ow k n s = (Inr r, s')"
      show "?I s'"
        using grant_traded_item_stacks [OF *(4) _ mx, of c] *(1)
          preservesD [OF pres_grant_traded_item _ *(4)] by blast
    qed
    then show ?thesis by simp
  qed
  show "record_all consume_currency_row ow xs ch d = (Inr ch', d') \<Longrightarrow> stacks d' c \<le> m"
    using currency_ledger.take_all [OF _ assms(1,2), of ow ch ch' d'] assms(3)
    by (auto dest!: rest_currency)
  show "record_all upsert_balance_add ow xs ch d = (Inr ch', d') \<Longrightarrow> stacks d' c \<le> m"
    using currency_ledger.give_all [OF _ assms(1,2), of ow ch ch' d'] assms(3)
    by (auto dest!: rest_currency)
qed

lemma exchange_stacks:
  assumes wf: "db_wf db" and va: "validate_offer oa = Inr ua" and vb: "validate_offer ob = Inr ub"
    and run: "exchange st a oa b ob db = (Inr res, db')"
  shows "stacks db' c \<le> stack_bound st db c"
  using run
proof (elim exchange_steps, goal_cases)
  case (1 d1 d2 d3 d4 d5 d6 d7 ai bi ac bc u v)
  note pa = checked_offer_positive [OF wf va 1(1)] and pb = checked_offer_positive [OF wf vb 1(2)]
  note w1 = conjunct1 [OF item_ledger.take_all [OF 1(3) wf pa(1)]]
  note w2 = conjunct1 [OF item_ledger.take_all [OF 1(4) w1 pb(1)]]
  note w3 = conjunct1 [OF currency_ledger.take_all [OF 1(5) w2 pa(2)]]
  note w4 = conjunct1 [OF currency_ledger.take_all [OF 1(6) w3 pb(2)]]
  note w5 = conjunct1 [OF item_ledger.give_all [OF 1(7) w4 pa(1)]]
  note w6 = conjunct1 [OF item_ledger.give_all [OF 1(8) w5 pb(1)]]
  note w7 = conjunct1 [OF currency_ledger.give_all [OF 1(9) w6 pa(2)]]
  have m: "int (max_distinct_item_types (st_inventory_config st)) \<le> stack_bound st db c"
    and s0: "stacks db c \<le> stack_bound st db c" by (simp_all add: stack_bound_def)
  note s1 = stacks_run(1) [OF wf pa(1) s0 1(3)]
  note s2 = stacks_run(1) [OF w1 pb(1) s1 1(4)]
  note s3 = stacks_run(3) [OF w2 pa(2) s2 1(5)]
  note s4 = stacks_run(3) [OF w3 pb(2) s3 1(6)]
  note s5 = stacks_run(2) [OF w4 pa(1) s4 1(7) m]
  note s6 = stacks_run(2) [OF w5 pb(1) s5 1(8) m]
  note s7 = stacks_run(4) [OF w6 pa(2) s6 1(9)]
  show ?case by (rule stacks_run(4) [OF w7 pb(2) s7 1(10)])
qed

section \<open>The reported amounts\<close>

lemma qty_cong: "items d = items d' \<Longrightarrow> qty d = qty d'"
  by (simp add: qty_def fun_eq_iff)

lemma balance_cong: "currency d = currency d' \<Longrightarrow> balance_of d = balance_of d'"
  by (simp add: balance_of_def fun_eq_iff)

lemma exchange_reports:
  assumes wf: "db_wf db" and va: "validate_offer oa = Inr ua" and vb: "validate_offer ob = Inr ub"
    and run: "exchange st a oa b ob db = (Inr res, db')" and ab: "a \<noteq> b"
  shows "reports (qty db' a) (item_changes (side_a res))"
    and "reports (qty db' b) (item_changes (side_b res))"
    and "reports (balance_of db' a) (currency_changes (side_a res))"
    and "reports (balance_of db' b) (currency_changes (side_b res))"
    and "dom (map_of (item_changes (side_a res))) = fst ` set (offer_items oa @ offer_items ob)"
    and "dom (map_of (item_changes (side_b res))) = fst ` set (offer_items oa @ offer_items ob)"
  using run
proof (atomize (full), elim exchange_steps, goal_cases)
  case (1 d1 d2 d3 d4 d5 d6 d7 ai bi ac bc u v)
  note pa = checked_offer_positive [OF wf va 1(1)] and pb = checked_offer_positive [OF wf vb 1(2)]
  note e1 = item_ledger.take_all [OF 1(3) wf pa(1)]
  note e2 = item_ledger.take_all [OF 1(4) conjunct1 [OF e1] pb(1)]
  note e3 = currency_ledger.take_all [OF 1(5) conjunct1 [OF e2] pa(2)]
  note e4 = currency_ledger.take_all [OF 1(6) conjunct1 [OF e3] pb(2)]
  note e5 = item_ledger.give_all [OF 1(7) conjunct1 [OF e4] pa(1)]
  note e6 = item_ledger.give_all [OF 1(8) conjunct1 [OF e5] pb(1)]
  note e7 = currency_ledger.give_all [OF 1(9) conjunct1 [OF e6] pa(2)]
  note e8 = currency_ledger.give_all [OF 1(10) conjunct1 [OF e7] pb(2)]
  have r: "\<exists>u. d2 = d1\<lparr>items := u\<rparr>" "\<exists>u. d3 = d2\<lparr>currency := u\<rparr>"
    "\<exists>u. d4 = d3\<lparr>currency := u\<rparr>" "\<exists>u. d5 = d4\<lparr>items := u\<rparr>" "\<exists>u. d6 = d5\<lparr>items := u\<rparr>"
    "\<exists>u. d7 = d6\<lparr>currency := u\<rparr>" "\<exists>u. db' = d7\<lparr>currency := u\<rparr>"
    using e2 e3 e4 e5 e6 e7 e8 by (blast intro: rest_items rest_currency)+
  have q: "qty d2 = qty d3" "qty d3 = qty d4" "qty db' = qty d6"
    and c: "balance_of d6 = balance_of d4"
    using r by (auto intro!: qty_cong balance_cong)
  note r1 = item_ledger.take_all_reports [OF 1(3) wf pa(1) reports_Nil]
  note r2 = item_ledger.take_all_reports [OF 1(4) conjunct1 [OF e1] pb(1) reports_Nil]
  note r3 = currency_ledger.take_all_reports [OF 1(5) conjunct1 [OF e2] pa(2) reports_Nil]
  note r4 = currency_ledger.take_all_reports [OF 1(6) conjunct1 [OF e3] pb(2) reports_Nil]
  have "qty d4 b = qty d2 b" "qty d5 a = qty d1 a" "qty d6 b = qty d5 b"
    using e2 e5 e6 ab q by (auto simp: fun_eq_iff)
  then have r5: "reports (qty d6 b) (item_changes (side_b res))
      \<and> dom (map_of (item_changes (side_b res))) = dom (map_of bi) \<union> fst ` set (offer_items oa)"
    and r6: "reports (qty d6 a) (item_changes (side_a res))
      \<and> dom (map_of (item_changes (side_a res))) = dom (map_of ai) \<union> fst ` set (offer_items ob)"
    using item_ledger.give_all_reports [OF 1(7) conjunct1 [OF e4] pa(1)]
      item_ledger.give_all_reports [OF 1(8) conjunct1 [OF e5] pb(1)] r1 r2 by auto
  have "balance_of d6 b = balance_of d4 b" "balance_of d7 a = balance_of d3 a"
    "balance_of db' b = balance_of d7 b"
    using e4 e7 e8 ab c by (auto simp: fun_eq_iff)
  then have "reports (balance_of db' b) (currency_changes (side_b res))"
    and "reports (balance_of db' a) (currency_changes (side_a res))"
    using currency_ledger.give_all_reports [OF 1(9) conjunct1 [OF e6] pa(2)]
      currency_ledger.give_all_reports [OF 1(10) conjunct1 [OF e7] pb(2)] r3 r4 by auto
  then show ?case using r1 r2 r5 r6 q by auto
qed

section \<open>A trade both sides can honour goes through\<close>

lemma in_i64_between: "in_i64 b \<Longrightarrow> 0 \<le> a \<Longrightarrow> a \<le> b \<Longrightarrow> in_i64 a"
  by (simp add: in_i64_iff)

lemma grant_items_enough:
  assumes "db_wf d" "amounts_positive xs" "has_row (characters d) c"
    "\<And>k. in_i64 (qty d c k + total_of xs k)"
    "stacks d c + int (length xs) \<le> int (max_distinct_item_types (st_inventory_config st))"
  shows "\<exists>ch' d'. record_all (grant_traded_item st) c xs ch d = (Inr ch', d')"
  using assms
proof (induction xs arbitrary: ch d)
  case Nil
  then show ?case by (simp add: record_all_Nil)
next
  case (Cons x xs)
  obtain k n where x: "x = (k, n)" by force
  have n: "0 < n" "in_i64 n" "amounts_positive xs" using Cons.prems(2) by (simp_all add: x)
  have "in_i64 (qty d c k + n)"
    using Cons.prems(4) [of k] total_of_positive [OF n(3), of k] qty_nonneg [OF Cons.prems(1)] n
    by (intro in_i64_between [OF Cons.prems(4) [of k]]) (simp_all add: x)
  then obtain d1 where up: "upsert_item_add c k n d = (Inr (qty d c k + n), d1)"
    using upsert_item_add_succeeds [OF Cons.prems(1) n(1)] Cons.prems(3) by blast
  then have step: "grant_traded_item st c k n d = (Inr (qty d c k + n), d1)"
    using Cons.prems(5) by (simp add: grant_traded_item_run x)
  note one = upsert_item_add_ok [OF up]
  have "db_wf d1" by (rule preservesD [OF pres_upsert_item_add Cons.prems(1) up])
  moreover have "has_row (characters d1) c" using one(5) Cons.prems(3) by auto
  moreover have "in_i64 (qty d1 c k' + total_of xs k')" for k'
    using Cons.prems(4) [of k'] one(4) by (auto simp: x add.assoc split: if_splits)
  moreover have "stacks d1 c + int (length xs)
      \<le> int (max_distinct_item_types (st_inventory_config st))"
    using Cons.prems(5) one(6) by (simp add: x)
  ultimately obtain ch' d' where "record_all (grant_traded_item st) c xs
      (AList.update k (qty d c k + n) ch) d1 = (Inr ch', d')"
    using Cons.IH n(3) by blast
  then show ?case using step by (auto simp: x record_all_Cons)
qed

lemma grant_currency_enough:
  assumes "db_wf d" "amounts_positive xs" "has_row (characters d) c"
    "\<And>k. in_i64 (balance_of d c k + total_of xs k)"
  shows "\<exists>ch' d'. record_all upsert_balance_add c xs ch d = (Inr ch', d')"
  using assms
proof (induction xs arbitrary: ch d)
  case Nil
  then show ?case by (simp add: record_all_Nil)
next
  case (Cons x xs)
  obtain k n where x: "x = (k, n)" by force
  have n: "0 < n" "in_i64 n" "amounts_positive xs" using Cons.prems(2) by (simp_all add: x)
  have b: "0 \<le> balance_of d c k" by (rule balance_nonneg [OF Cons.prems(1)])
  have "in_i64 (balance_of d c k + n)"
    using total_of_positive [OF n(3), of k] b n
    by (intro in_i64_between [OF Cons.prems(4) [of k]]) (simp_all add: x)
  then obtain d1 where up: "upsert_balance_add c k n d = (Inr (balance_of d c k + n), d1)"
    using b n Cons.prems(3) by (auto simp: upsert_balance_add_def insert_balance_def)
  note one = upsert_balance_add_ok [OF up]
  have "db_wf d1" by (rule preservesD [OF pres_upsert_balance_add Cons.prems(1) up])
  moreover have "has_row (characters d1) c" using one(5) Cons.prems(3) by auto
  moreover have "in_i64 (balance_of d1 c k' + total_of xs k')" for k'
    using Cons.prems(4) [of k'] one(4) by (auto simp: x add.assoc split: if_splits)
  ultimately obtain ch' d' where "record_all upsert_balance_add c xs
      (AList.update k (balance_of d c k + n) ch) d1 = (Inr ch', d')"
    using Cons.IH n(3) by blast
  then show ?case using up by (auto simp: x record_all_Cons)
qed

text \<open>
  A side that can honour its half: it holds the totals it gives, the totals it gets fit an
  \<^verbatim>\<open>i64\<close>, and it has room for as many new stacks as the other side lists items.
\<close>

definition side_ready ::
  "character_store \<Rightarrow> db \<Rightarrow> character_id \<Rightarrow> trade_offer_input \<Rightarrow> trade_offer_input \<Rightarrow> bool" where
  "side_ready st db c gives gets \<longleftrightarrow>
     has_row (characters db) c
     \<and> validate_offer gives = Inr ()
     \<and> (\<forall>k. total_of (offer_items gives) k \<le> qty db c k)
     \<and> (\<forall>k. total_of (offer_currency gives) k \<le> balance_of db c k)
     \<and> (\<forall>k. in_i64 (qty db c k + total_of (offer_items gets) k))
     \<and> (\<forall>k. in_i64 (balance_of db c k + total_of (offer_currency gets) k))
     \<and> stacks db c + int (length (offer_items gets))
         \<le> int (max_distinct_item_types (st_inventory_config st))"

lemma total_of_member:
  "(\<forall>(k, n) \<in> set xs. 0 < n) \<Longrightarrow> (k, n) \<in> set xs \<Longrightarrow> n \<le> total_of xs k"
proof (induction xs)
  case (Cons x xs)
  obtain k' m where x: "x = (k', m)" by force
  have "0 \<le> total_of xs k"
    by (rule total_of_nonneg) (use Cons.prems(1) in \<open>auto simp: x intro: less_imp_le\<close>)
  with Cons show ?case by (fastforce simp: x)
qed simp

lemma side_readyD:
  assumes "side_ready st db c gives gets"
  shows "has_row (characters db) c" "validate_offer gives = Inr ()"
    "\<And>k. total_of (offer_items gives) k \<le> qty db c k"
    "\<And>k. total_of (offer_currency gives) k \<le> balance_of db c k"
    "\<And>k. in_i64 (qty db c k + total_of (offer_items gets) k)"
    "\<And>k. in_i64 (balance_of db c k + total_of (offer_currency gets) k)"
    "stacks db c + int (length (offer_items gets))
       \<le> int (max_distinct_item_types (st_inventory_config st))"
  using assms by (simp_all add: side_ready_def)

lemma side_ready_checks:
  assumes "side_ready st db c gives gets"
  shows "check_offer_held c gives db = (Inr (), db)"
proof -
  note r = side_readyD [OF assms]
  have pos: "\<forall>(k, n) \<in> set (offer_items gives). 0 < n" "\<forall>(k, n) \<in> set (offer_currency gives). 0 < n"
    using r(2) by (simp_all add: validate_offer_ok)
  have "n \<le> qty db c k" if "(k, n) \<in> set (offer_items gives)" for k n
    using total_of_member [OF pos(1) that] r(3) [of k] by linarith
  moreover have "n \<le> balance_of db c k" if "(k, n) \<in> set (offer_currency gives)" for k n
    using total_of_member [OF pos(2) that] r(4) [of k] by linarith
  ultimately show ?thesis by (auto simp: check_offer_held_ok)
qed

lemma in_i64_reduced:
  "in_i64 (q + t) \<Longrightarrow> 0 \<le> q - g \<Longrightarrow> 0 \<le> g \<Longrightarrow> 0 \<le> t \<Longrightarrow> in_i64 (q - g + t)"
  by (simp add: in_i64_iff)

lemma grant_stacks_other:
  assumes "record_all (grant_traded_item st) ow xs ch d = (Inr ch', d')" "amounts_positive xs"
    "ow \<noteq> c"
  shows "stacks d' c \<le> stacks d c"
proof (rule record_all_invariant [where I = "\<lambda>d'. stacks d' c \<le> stacks d c", OF _ assms(1,2)])
  fix k n s r s'
  assume "stacks s c \<le> stacks d c" "grant_traded_item st ow k n s = (Inr r, s')"
  then show "stacks s' c \<le> stacks d c"
    using upsert_item_add_ok(7) [of ow k n s r s' c] assms(3) by (simp add: grant_traded_item_run)
qed simp

text \<open>The consuming half of the exchange.\<close>

lemma consume_phase:
  assumes wf: "db_wf db" and ab: "a \<noteq> b"
    and pa: "amounts_positive (offer_items oa)" "amounts_positive (offer_currency oa)"
    and pb: "amounts_positive (offer_items ob)" "amounts_positive (offer_currency ob)"
    and ra: "side_ready st db a oa ob" and rb: "side_ready st db b ob oa"
  obtains ai bi ac bc d1 d2 d3 d4 where
    "record_all consume_item a (offer_items oa) [] db = (Inr ai, d1)"
    "record_all consume_item b (offer_items ob) [] d1 = (Inr bi, d2)"
    "record_all consume_currency_row a (offer_currency oa) [] d2 = (Inr ac, d3)"
    "record_all consume_currency_row b (offer_currency ob) [] d3 = (Inr bc, d4)"
    "db_wf d4" "characters d4 = characters db"
    "\<And>c. stacks d4 c \<le> stacks db c"
    "\<And>k. qty d4 a k = qty db a k - total_of (offer_items oa) k"
    "\<And>k. qty d4 b k = qty db b k - total_of (offer_items ob) k"
    "\<And>k. balance_of d4 a k = balance_of db a k - total_of (offer_currency oa) k"
    "\<And>k. balance_of d4 b k = balance_of db b k - total_of (offer_currency ob) k"
proof -
  obtain ai bi d1 d2 where r1: "record_all consume_item a (offer_items oa) [] db = (Inr ai, d1)"
    and r2: "record_all consume_item b (offer_items ob) [] d1 = (Inr bi, d2)"
    and w2: "db_wf d2" and f2: "d2\<lparr>items := []\<rparr> = db\<lparr>items := []\<rparr>"
    and q2: "\<forall>k. qty d2 a k = qty db a k - total_of (offer_items oa) k"
    "\<forall>k. qty d2 b k = qty db b k - total_of (offer_items ob) k"
    using item_ledger.take_both_enough [OF wf pa(1) pb(1) ab side_readyD(3) [OF ra]
        side_readyD(3) [OF rb]] by blast
  obtain u where u: "d2 = db\<lparr>items := u\<rparr>" using f2 by (auto dest!: rest_items)
  have "total_of (offer_currency oa) k \<le> balance_of d2 a k"
    "total_of (offer_currency ob) k \<le> balance_of d2 b k" for k
    using side_readyD(4) [OF ra] side_readyD(4) [OF rb] by (simp_all add: u)
  then obtain ac bc d3 d4 where
      r3: "record_all consume_currency_row a (offer_currency oa) [] d2 = (Inr ac, d3)"
    and r4: "record_all consume_currency_row b (offer_currency ob) [] d3 = (Inr bc, d4)"
    and w4: "db_wf d4" and f4: "d4\<lparr>currency := []\<rparr> = d2\<lparr>currency := []\<rparr>"
    and b4: "\<forall>k. balance_of d4 a k = balance_of d2 a k - total_of (offer_currency oa) k"
    "\<forall>k. balance_of d4 b k = balance_of d2 b k - total_of (offer_currency ob) k"
    using currency_ledger.take_both_enough [OF w2 pa(2) pb(2) ab] by blast
  obtain v where v: "d4 = d2\<lparr>currency := v\<rparr>" using f4 by (auto dest!: rest_currency)
  have w1: "db_wf d1" using item_ledger.take_all [OF r1 wf pa(1)] by simp
  have "stacks d2 c \<le> stacks db c" for c
    by (rule stacks_run(1) [OF w1 pb(1) stacks_run(1) [OF wf pa(1) order_refl r1] r2])
  then have st4: "stacks d4 c \<le> stacks db c" for c by (simp add: v)
  show thesis
    by (rule that [OF r1 r2 r3 r4 w4]) (use q2 b4 st4 in \<open>simp_all add: u v\<close>)
qed

text \<open>The granting half, on a state with room for it.\<close>

lemma grant_phase:
  assumes wf: "db_wf d4" and ab: "a \<noteq> b"
    and pa: "amounts_positive (offer_items oa)" "amounts_positive (offer_currency oa)"
    and pb: "amounts_positive (offer_items ob)" "amounts_positive (offer_currency ob)"
    and ch: "has_row (characters d4) a" "has_row (characters d4) b"
    and ia: "\<And>k. in_i64 (qty d4 a k + total_of (offer_items ob) k)"
      "\<And>k. in_i64 (balance_of d4 a k + total_of (offer_currency ob) k)"
      "stacks d4 a + int (length (offer_items ob))
         \<le> int (max_distinct_item_types (st_inventory_config st))"
    and ib: "\<And>k. in_i64 (qty d4 b k + total_of (offer_items oa) k)"
      "\<And>k. in_i64 (balance_of d4 b k + total_of (offer_currency oa) k)"
      "stacks d4 b + int (length (offer_items oa))
         \<le> int (max_distinct_item_types (st_inventory_config st))"
  shows "\<exists>bi' ai' bc' ac' d5 d6 d7 d8.
    record_all (grant_traded_item st) b (offer_items oa) bi d4 = (Inr bi', d5)
    \<and> record_all (grant_traded_item st) a (offer_items ob) ai d5 = (Inr ai', d6)
    \<and> record_all upsert_balance_add b (offer_currency oa) bc d6 = (Inr bc', d7)
    \<and> record_all upsert_balance_add a (offer_currency ob) ac d7 = (Inr ac', d8)"
proof -
  obtain bi' d5 where r5: "record_all (grant_traded_item st) b (offer_items oa) bi d4 = (Inr bi', d5)"
    using grant_items_enough [OF wf pa(1) ch(2) ib(1,3)] by blast
  note e5 = item_ledger.give_all [OF r5 wf pa(1)]
  obtain u where u: "d5 = d4\<lparr>items := u\<rparr>" using e5 by (auto dest!: rest_items)
  have "in_i64 (qty d5 a k + total_of (offer_items ob) k)" for k using ia(1) e5 ab by simp
  moreover have "stacks d5 a + int (length (offer_items ob))
      \<le> int (max_distinct_item_types (st_inventory_config st))"
    using ia(3) grant_stacks_other [OF r5 pa(1), of a] ab by simp
  ultimately obtain ai' d6 where
    r6: "record_all (grant_traded_item st) a (offer_items ob) ai d5 = (Inr ai', d6)"
    using grant_items_enough [OF conjunct1 [OF e5] pb(1), of a st ai] ch(1) u by auto
  note e6 = item_ledger.give_all [OF r6 conjunct1 [OF e5] pb(1)]
  obtain v where v: "d6 = d4\<lparr>items := v\<rparr>" using e6 u by (auto dest!: rest_items)
  have "in_i64 (balance_of d6 b k + total_of (offer_currency oa) k)" for k
    using ib(2) by (simp add: v)
  then obtain bc' d7 where
    r7: "record_all upsert_balance_add b (offer_currency oa) bc d6 = (Inr bc', d7)"
    using grant_currency_enough [OF conjunct1 [OF e6] pa(2), of b bc] ch(2) v by auto
  note e7 = currency_ledger.give_all [OF r7 conjunct1 [OF e6] pa(2)]
  obtain w where w: "d7 = d6\<lparr>currency := w\<rparr>" using e7 by (auto dest!: rest_currency)
  have "in_i64 (balance_of d7 a k + total_of (offer_currency ob) k)" for k
    using ia(2) e7 ab by (simp add: v)
  then obtain ac' d8 where
    "record_all upsert_balance_add a (offer_currency ob) ac d7 = (Inr ac', d8)"
    using grant_currency_enough [OF conjunct1 [OF e7] pb(2), of a ac] ch(1) v w by auto
  with r5 r6 r7 show ?thesis by blast
qed

lemma exchange_enough:
  assumes wf: "db_wf db" and ra: "side_ready st db a oa ob" and rb: "side_ready st db b ob oa"
    and ab: "a \<noteq> b"
  shows "\<exists>res db'. exchange st a oa b ob db = (Inr res, db')"
proof -
  note ca = side_ready_checks [OF ra] and cb = side_ready_checks [OF rb]
  note pa = checked_offer_positive [OF wf side_readyD(2) [OF ra] ca]
    and pb = checked_offer_positive [OF wf side_readyD(2) [OF rb] cb]
  obtain ai bi ac bc d1 d2 d3 d4 where r:
    "record_all consume_item a (offer_items oa) [] db = (Inr ai, d1)"
    "record_all consume_item b (offer_items ob) [] d1 = (Inr bi, d2)"
    "record_all consume_currency_row a (offer_currency oa) [] d2 = (Inr ac, d3)"
    "record_all consume_currency_row b (offer_currency ob) [] d3 = (Inr bc, d4)"
    and w: "db_wf d4" and c4: "characters d4 = characters db"
    and s4: "\<And>c. stacks d4 c \<le> stacks db c"
    and q: "\<And>k. qty d4 a k = qty db a k - total_of (offer_items oa) k"
      "\<And>k. qty d4 b k = qty db b k - total_of (offer_items ob) k"
      "\<And>k. balance_of d4 a k = balance_of db a k - total_of (offer_currency oa) k"
      "\<And>k. balance_of d4 b k = balance_of db b k - total_of (offer_currency ob) k"
    using consume_phase [OF wf ab pa pb ra rb] by metis
  note red = in_i64_reduced [OF _ _ total_of_positive total_of_positive]
  have "\<exists>bi' ai' bc' ac' d5 d6 d7 d8.
    record_all (grant_traded_item st) b (offer_items oa) bi d4 = (Inr bi', d5)
    \<and> record_all (grant_traded_item st) a (offer_items ob) ai d5 = (Inr ai', d6)
    \<and> record_all upsert_balance_add b (offer_currency oa) bc d6 = (Inr bc', d7)
    \<and> record_all upsert_balance_add a (offer_currency ob) ac d7 = (Inr ac', d8)"
  proof (rule grant_phase [OF w ab pa pb])
    show "has_row (characters d4) a" "has_row (characters d4) b"
      using side_readyD(1) [OF ra] side_readyD(1) [OF rb] by (simp_all add: c4)
    show "stacks d4 a + int (length (offer_items ob))
        \<le> int (max_distinct_item_types (st_inventory_config st))"
      using side_readyD(7) [OF ra] s4 [of a] by linarith
    show "stacks d4 b + int (length (offer_items oa))
        \<le> int (max_distinct_item_types (st_inventory_config st))"
      using side_readyD(7) [OF rb] s4 [of b] by linarith
    fix k
    show "in_i64 (qty d4 a k + total_of (offer_items ob) k)"
      unfolding q by (rule red) (use side_readyD [OF ra] pa pb in auto)
    show "in_i64 (qty d4 b k + total_of (offer_items oa) k)"
      unfolding q by (rule red) (use side_readyD [OF rb] pa pb in auto)
    show "in_i64 (balance_of d4 a k + total_of (offer_currency ob) k)"
      unfolding q by (rule red) (use side_readyD [OF ra] pa pb in auto)
    show "in_i64 (balance_of d4 b k + total_of (offer_currency oa) k)"
      unfolding q by (rule red) (use side_readyD [OF rb] pa pb in auto)
  qed
  with ca cb r show ?thesis
    by (auto simp: exchange_def andThen_Inr consume_items_def consume_currency_def
        grant_items_def grant_currency_def)
qed

section \<open>What a trade does\<close>

lemma execute_trade_Inr:
  "execute_trade st a oa b ob db = (Inr res, db') \<longleftrightarrow>
     validate_offer oa = Inr () \<and> validate_offer ob = Inr ()
     \<and> exchange st a oa b ob db = (Inr res, db')"
  by (auto simp: execute_trade_def split: sum.splits)

definition sample_offer_a :: trade_offer_input where
  "sample_offer_a = \<lparr>offer_items = [(''wood'', 2)], offer_currency = [(''gold'', 10)]\<rparr>"

definition sample_offer_b :: trade_offer_input where
  "sample_offer_b = \<lparr>offer_items = [(''ore'', 3)], offer_currency = []\<rparr>"

definition sample_trade :: "(error + trade_result) \<times> db" where
  "sample_trade = execute_trade sample_store (Id 1) sample_offer_a (Id 2) sample_offer_b sample_db"

lemma sample_trade_ok:
  "execute_trade sample_store (Id 1) sample_offer_a (Id 2) sample_offer_b sample_db
     = (Inr (projr (fst sample_trade)), snd sample_trade)"
proof -
  have "\<not> isl (fst (execute_trade sample_store (Id 1) sample_offer_a (Id 2) sample_offer_b sample_db))"
    by code_simp
  from run_Inr [OF this] show ?thesis by (simp add: sample_trade_def)
qed

text \<open>
  C1: A trade that succeeds moves exactly what the two offers list: every quantity and every
  balance of every character changes by what that character receives minus what it gives (nothing
  for a character outside the trade or trading with itself), no other table changes, and every
  constraint of the database still holds.
\<close>

theorem trade_moves_exactly:
  assumes "db_wf db" "execute_trade st a oa b ob db = (Inr res, db')"
  shows "db_wf db'
    \<and> (\<forall>c t. qty db' c t = qty db c t + net_gain a (offer_items oa) b (offer_items ob) c t)
    \<and> (\<forall>c k. balance_of db' c k
         = balance_of db c k + net_gain a (offer_currency oa) b (offer_currency ob) c k)
    \<and> (\<exists>u v. db' = db\<lparr>items := u, currency := v\<rparr>)"
proof -
  have "validate_offer oa = Inr ()" "validate_offer ob = Inr ()" "exchange st a oa b ob db = (Inr res, db')"
    using assms(2) by (simp_all add: execute_trade_Inr)
  note effect = exchange_effect [OF assms(1) this]
  show ?thesis using effect by blast
qed

lemma trade_moves_exactly_witness:
  "qty (snd sample_trade) (Id 2) ''wood'' = 2 \<and> balance_of (snd sample_trade) (Id 1) ''gold'' = 90"
  using trade_moves_exactly [OF sample_db_wf sample_trade_ok]
  by (simp add: net_gain_def sample_offer_a_def sample_offer_b_def qty_def balance_of_def)

text \<open>
  A trade either happens as a whole or not at all: when \<open>execute_trade\<close> returns an error, at
  any of its checks or any of its writes, the database is the one it started from; and whatever
  it returns, the constraints of the database are kept.
\<close>

theorem trade_atomic:
  "(\<forall>e db'. execute_trade st a oa b ob db = (Inl e, db') \<longrightarrow> db' = db)
   \<and> preserves db_wf (execute_trade st a oa b ob)"
proof
  show "\<forall>e db'. execute_trade st a oa b ob db = (Inl e, db') \<longrightarrow> db' = db"
    by (auto simp: execute_trade_def dest: transaction_rollback split: sum.splits)
  have "db_wf d'" if "db_wf d" "execute_trade st a oa b ob d = (r, d')" for d r d'
    using that exchange_effect(1) [OF that(1)]
    by (cases r) (auto simp: execute_trade_Inr execute_trade_def dest: transaction_rollback
        split: sum.splits)
  then show "preserves db_wf (execute_trade st a oa b ob)" by (rule preservesI)
qed

lemma trade_atomic_witness:
  "snd (execute_trade sample_store (Id 1) \<lparr>offer_items = [(''wood'', 4), (''wood'', 4)], offer_currency = []\<rparr>
     (Id 2) sample_offer_b sample_db) = sample_db"
proof -
  let ?m = "execute_trade sample_store (Id 1)
    \<lparr>offer_items = [(''wood'', 4), (''wood'', 4)], offer_currency = []\<rparr> (Id 2) sample_offer_b"
  have "isl (fst (?m sample_db))" by code_simp
  from run_Inl [OF this] show ?thesis using trade_atomic by blast
qed

text \<open>
  C37: No trade takes more than is held or stores more than is allowed. When a trade between two
  characters succeeds, the total each side listed of each item and currency (repeated entries
  added up) was covered by what it held, and no character ends above the larger of its stack
  count before and the configured maximum of distinct item types.
\<close>

theorem trade_within_limits:
  assumes "db_wf db" "a \<noteq> b" "execute_trade st a oa b ob db = (Inr res, db')"
  shows "(\<forall>t. total_of (offer_items oa) t \<le> qty db a t \<and> total_of (offer_items ob) t \<le> qty db b t)
    \<and> (\<forall>k. total_of (offer_currency oa) k \<le> balance_of db a k
         \<and> total_of (offer_currency ob) k \<le> balance_of db b k)
    \<and> (\<forall>c. stacks db' c \<le> stack_bound st db c)"
proof -
  have run: "validate_offer oa = Inr ()" "validate_offer ob = Inr ()"
    "exchange st a oa b ob db = (Inr res, db')"
    using assms(3) by (simp_all add: execute_trade_Inr)
  show ?thesis
    using exchange_no_overdraft [OF assms(1,2) run] exchange_stacks [OF assms(1) run] by blast
qed

lemma trade_within_limits_witness:
  "total_of (offer_items sample_offer_b) ''ore'' \<le> qty sample_db (Id 2) ''ore''
   \<and> stacks (snd sample_trade) (Id 2) \<le> 40"
  using trade_within_limits [OF sample_db_wf _ sample_trade_ok]
  by (simp add: stack_bound_def stacks_def sample_store_def)

text \<open>
  A trade both sides can honour is carried out. If the two characters are different, each
  holds the totals it gives, what each receives fits an \<^verbatim>\<open>i64\<close>, and each has room for as many
  new stacks as it is offered items, then \<open>execute_trade\<close> returns a result.
\<close>

theorem trade_goes_through:
  assumes "db_wf db" "a \<noteq> b" "side_ready st db a oa ob" "side_ready st db b ob oa"
  shows "\<exists>res db'. execute_trade st a oa b ob db = (Inr res, db')"
  using exchange_enough [OF assms(1,3,4,2)] side_readyD(2) [OF assms(3)] side_readyD(2) [OF assms(4)]
  by (simp add: execute_trade_Inr)

lemma sample_sides_ready:
  "side_ready sample_store sample_db (Id 1) sample_offer_a sample_offer_b"
  "side_ready sample_store sample_db (Id 2) sample_offer_b sample_offer_a"
  by (auto simp: side_ready_def sample_store_def sample_offer_a_def sample_offer_b_def
      validate_offer_ok has_row_def qty_def balance_of_def stacks_def in_i64_iff)

lemma trade_goes_through_witness:
  "\<exists>res db'. execute_trade sample_store (Id 1) sample_offer_a (Id 2) sample_offer_b sample_db
     = (Inr res, db')"
  by (rule trade_goes_through [OF sample_db_wf _ sample_sides_ready]) simp

text \<open>
  The result a trade reports is what the database holds. For two different characters, every
  entry of either side's \<^verbatim>\<open>item_changes\<close> and \<^verbatim>\<open>currency_changes\<close> is that side's amount after the
  trade, and both item maps list exactly the item types either offer names.
\<close>

theorem trade_reports_final_amounts:
  assumes "db_wf db" "a \<noteq> b" "execute_trade st a oa b ob db = (Inr res, db')"
  shows "reports (qty db' a) (item_changes (side_a res))
    \<and> reports (qty db' b) (item_changes (side_b res))
    \<and> reports (balance_of db' a) (currency_changes (side_a res))
    \<and> reports (balance_of db' b) (currency_changes (side_b res))
    \<and> dom (map_of (item_changes (side_a res))) = fst ` set (offer_items oa @ offer_items ob)
    \<and> dom (map_of (item_changes (side_b res))) = fst ` set (offer_items oa @ offer_items ob)"
proof -
  have run: "validate_offer oa = Inr ()" "validate_offer ob = Inr ()"
    "exchange st a oa b ob db = (Inr res, db')"
    using assms(3) by (simp_all add: execute_trade_Inr)
  show ?thesis using exchange_reports [OF assms(1) run assms(2)] by blast
qed

lemma trade_reports_final_amounts_witness:
  "''wood'' \<in> dom (map_of (item_changes (side_b (projr (fst sample_trade)))))
   \<and> reports (qty (snd sample_trade) (Id 2)) (item_changes (side_b (projr (fst sample_trade))))"
  using trade_reports_final_amounts [OF sample_db_wf _ sample_trade_ok]
  by (simp add: sample_offer_a_def sample_offer_b_def)

end
