(* ===== verification/TradeSession.thy ===== *)
theory TradeSession
  imports Trade
begin

text \<open>
  The trade negotiation of \<^verbatim>\<open>crates/server/src/session.rs\<close>: pending requests, the shared
  \<^verbatim>\<open>Arc<Mutex<TradeSession>>\<close> both participants' entries of \<^verbatim>\<open>ActiveTrades\<close> point at (a heap of
  sessions, the pointer is its index), one handler per client message, and the cleanup of a
  disconnect. Messages sent to a client are appended to \<open>tw_sent\<close>. \<open>TradeConfirm\<close> is split at its
  lock and await points, so that the handlers of different connections interleave as the
  multi-threaded server interleaves them.
\<close>

section \<open>Sessions\<close>

record trade_offer =
  of_items :: "(string, i64) table"
  of_currency :: "(string, i64) table"
  of_confirmed :: bool

definition empty_offer :: trade_offer where
  "empty_offer = \<lparr>of_items = [], of_currency = [], of_confirmed = False\<rparr>"

record trade_session =
  ts_entity_a :: entity_id
  ts_entity_b :: entity_id
  ts_offer_a :: trade_offer
  ts_offer_b :: trade_offer

definition ts_other :: "trade_session \<Rightarrow> entity_id \<Rightarrow> entity_id option" where
  "ts_other s e = (if e = ts_entity_a s then Some (ts_entity_b s)
     else if e = ts_entity_b s then Some (ts_entity_a s) else None)"

definition ts_offer :: "trade_session \<Rightarrow> entity_id \<Rightarrow> trade_offer option" where
  "ts_offer s e = (if e = ts_entity_a s then Some (ts_offer_a s)
     else if e = ts_entity_b s then Some (ts_offer_b s) else None)"

text \<open>\<^verbatim>\<open>if let Some(offer) = session.offer_mut(e) { ... }\<close>.\<close>

definition with_offer_mut :: "entity_id \<Rightarrow> (trade_offer \<Rightarrow> trade_offer) \<Rightarrow> trade_session \<Rightarrow> trade_session" where
  "with_offer_mut e f s = (if e = ts_entity_a s then s\<lparr>ts_offer_a := f (ts_offer_a s)\<rparr>
     else if e = ts_entity_b s then s\<lparr>ts_offer_b := f (ts_offer_b s)\<rparr> else s)"

definition unconfirm :: "trade_session \<Rightarrow> trade_session" where
  "unconfirm s = s\<lparr>ts_offer_a := (ts_offer_a s)\<lparr>of_confirmed := False\<rparr>,
     ts_offer_b := (ts_offer_b s)\<lparr>of_confirmed := False\<rparr>\<rparr>"

definition to_offer_input :: "trade_offer \<Rightarrow> trade_offer_input" where
  "to_offer_input offer = \<lparr>offer_items = of_items offer, offer_currency = of_currency offer\<rparr>"

section \<open>Messages\<close>

datatype client_message =
    TradeRequest string
  | TradeRequestResponse bool
  | TradeOfferItem string i64
  | TradeOfferCurrency string i64
  | TradeConfirm
  | TradeCancel

datatype trade_refusal = NotAnEntityId string | SelfTrade | NotAPlayer | NoPendingRequest
  | NegativeQuantity string | NegativeAmount string | NoActiveTrade | OtherDisconnected
  | ExecutionFailed error

record trade_view =
  view_other :: entity_id
  your_items :: "(string, i64) table"
  your_currency :: "(string, i64) table"
  your_confirmed :: bool
  their_items :: "(string, i64) table"
  their_currency :: "(string, i64) table"
  their_confirmed :: bool

datatype server_message =
    ErrorMessage trade_refusal
  | TradeRequestReceived entity_id
  | TradeRequestDeclined entity_id
  | TradeStateChanged trade_view
  | TradeCompleted
  | TradeCancelled entity_id
  | ItemChanged string i64
  | CurrencyChanged string i64

section \<open>State\<close>

type_synonym session_ref = nat

record trade_world =
  tw_entity_characters :: "(entity_id, character_id) table"
  tw_pending :: "(entity_id, entity_id) table"
  tw_active :: "(entity_id, session_ref) table"
  tw_heap :: "trade_session list"
  tw_db :: db
  tw_sent :: "(entity_id \<times> server_message) list"

definition send :: "entity_id \<Rightarrow> server_message \<Rightarrow> trade_world \<Rightarrow> trade_world" where
  "send e m w = w\<lparr>tw_sent := tw_sent w @ [(e, m)]\<rparr>"

definition refuse :: "entity_id \<Rightarrow> trade_refusal \<Rightarrow> trade_world \<Rightarrow> trade_world" where
  "refuse e why w = send e (ErrorMessage why) w"

definition build_trade_state :: "trade_session \<Rightarrow> entity_id \<Rightarrow> server_message option" where
  "build_trade_state s viewer =
     Option.bind (ts_other s viewer) (\<lambda>other.
     Option.bind (ts_offer s viewer) (\<lambda>yours.
     Option.bind (ts_offer s other) (\<lambda>theirs.
     Some (TradeStateChanged \<lparr>view_other = other, your_items = of_items yours,
       your_currency = of_currency yours, your_confirmed = of_confirmed yours,
       their_items = of_items theirs, their_currency = of_currency theirs,
       their_confirmed = of_confirmed theirs\<rparr>))))"

definition send_state :: "trade_session \<Rightarrow> entity_id \<Rightarrow> trade_world \<Rightarrow> trade_world" where
  "send_state s viewer w = (case build_trade_state s viewer of None \<Rightarrow> w | Some m \<Rightarrow> send viewer m w)"

definition push_trade_state_both :: "trade_session \<Rightarrow> trade_world \<Rightarrow> trade_world" where
  "push_trade_state_both s w = send_state s (ts_entity_b s) (send_state s (ts_entity_a s) w)"

text \<open>A change made under the session's lock, seen through both participants' pointers.\<close>

definition update_session :: "session_ref \<Rightarrow> (trade_session \<Rightarrow> trade_session) \<Rightarrow> trade_world \<Rightarrow> trade_world" where
  "update_session i f w = w\<lparr>tw_heap := (tw_heap w)[i := f (tw_heap w ! i)]\<rparr>"


section \<open>Handlers\<close>

definition on_trade_request ::
  "(string \<Rightarrow> entity_id option) \<Rightarrow> entity_id \<Rightarrow> string \<Rightarrow> trade_world \<Rightarrow> trade_world" where
  "on_trade_request parse_id e target w = (case parse_id target of
     None \<Rightarrow> refuse e (NotAnEntityId target) w
   | Some t \<Rightarrow>
       if t = e then refuse e SelfTrade w
       else if \<not> has_row (tw_entity_characters w) t then refuse e NotAPlayer w
       else send t (TradeRequestReceived e) (w\<lparr>tw_pending := put_row t e (tw_pending w)\<rparr>))"

definition on_trade_response :: "entity_id \<Rightarrow> bool \<Rightarrow> trade_world \<Rightarrow> trade_world" where
  "on_trade_response e accept w = (case map_of (tw_pending w) e of
     None \<Rightarrow> refuse e NoPendingRequest w
   | Some requester \<Rightarrow>
       let w1 = w\<lparr>tw_pending := del_row e (tw_pending w)\<rparr> in
       if \<not> accept then send requester (TradeRequestDeclined e) w1
       else
         let session = \<lparr>ts_entity_a = requester, ts_entity_b = e,
               ts_offer_a = empty_offer, ts_offer_b = empty_offer\<rparr>;
             i = length (tw_heap w1);
             w2 = w1\<lparr>tw_heap := tw_heap w1 @ [session],
                     tw_active := put_row e i (put_row requester i (tw_active w1))\<rparr>
         in push_trade_state_both session w2)"

text \<open>Both offer handlers overwrite or remove one entry and withdraw both confirmations.\<close>

definition set_entry :: "string \<Rightarrow> i64 \<Rightarrow> (string, i64) table \<Rightarrow> (string, i64) table" where
  "set_entry key n t = (if n = 0 then del_row key t else put_row key n t)"

definition change_offer ::
  "(trade_offer \<Rightarrow> trade_offer) \<Rightarrow> entity_id \<Rightarrow> trade_world \<Rightarrow> trade_world" where
  "change_offer f e w = (case map_of (tw_active w) e of
     None \<Rightarrow> refuse e NoActiveTrade w
   | Some i \<Rightarrow>
       let w1 = update_session i (\<lambda>s. unconfirm (with_offer_mut e f s)) w
       in push_trade_state_both (tw_heap w1 ! i) w1)"

definition on_offer_item :: "entity_id \<Rightarrow> string \<Rightarrow> i64 \<Rightarrow> trade_world \<Rightarrow> trade_world" where
  "on_offer_item e t n w =
     (if n < 0 then refuse e (NegativeQuantity t) w
      else change_offer (\<lambda>offer. offer\<lparr>of_items := set_entry t n (of_items offer)\<rparr>) e w)"

definition on_offer_currency :: "entity_id \<Rightarrow> string \<Rightarrow> i64 \<Rightarrow> trade_world \<Rightarrow> trade_world" where
  "on_offer_currency e k n w =
     (if n < 0 then refuse e (NegativeAmount k) w
      else change_offer (\<lambda>offer. offer\<lparr>of_currency := set_entry k n (of_currency offer)\<rparr>) e w)"

text \<open>The removal under both keys that a cancel and a disconnect share.\<close>

definition drop_trade :: "entity_id \<Rightarrow> trade_world \<Rightarrow> (entity_id option \<times> trade_world) option" where
  "drop_trade e w = (case map_of (tw_active w) e of
     None \<Rightarrow> None
   | Some i \<Rightarrow>
       let w1 = w\<lparr>tw_active := del_row e (tw_active w)\<rparr> in
       (case ts_other (tw_heap w ! i) e of
          None \<Rightarrow> Some (None, w1)
        | Some other \<Rightarrow> Some (Some other,
            send other (TradeCancelled e) (w1\<lparr>tw_active := del_row other (tw_active w1)\<rparr>))))"

definition on_cancel :: "entity_id \<Rightarrow> trade_world \<Rightarrow> trade_world" where
  "on_cancel e w = (case drop_trade e w of
     None \<Rightarrow> w | Some (_, w1) \<Rightarrow> send e (TradeCancelled e) w1)"

text \<open>The trade part of the cleanup after the message loop.\<close>

definition on_disconnect :: "entity_id \<Rightarrow> trade_world \<Rightarrow> trade_world" where
  "on_disconnect e w =
     (let w1 = w\<lparr>tw_entity_characters := del_row e (tw_entity_characters w),
                tw_pending := del_row e (tw_pending w)\<rparr>
      in case drop_trade e w1 of None \<Rightarrow> w1 | Some (_, w2) \<Rightarrow> w2)"

section \<open>Confirming\<close>

text \<open>
  Where a connection's \<open>TradeConfirm\<close> handler stands between two locks: after setting its flag and
  seeing both set, after reading the offers, after the database transaction.
\<close>

datatype confirm_phase =
    Marked session_ref
  | Ready session_ref entity_id entity_id character_id character_id trade_offer_input trade_offer_input
  | Executed session_ref entity_id entity_id "error + trade_result"

definition confirm_mark :: "entity_id \<Rightarrow> trade_world \<Rightarrow> confirm_phase option \<times> trade_world" where
  "confirm_mark e w = (case map_of (tw_active w) e of
     None \<Rightarrow> (None, refuse e NoActiveTrade w)
   | Some i \<Rightarrow>
       let w1 = update_session i (with_offer_mut e (\<lambda>offer. offer\<lparr>of_confirmed := True\<rparr>)) w;
           s = tw_heap w1 ! i
       in if of_confirmed (ts_offer_a s) \<and> of_confirmed (ts_offer_b s) then (Some (Marked i), w1)
          else (None, push_trade_state_both s w1))"

text \<open>Withdrawing both confirmations and telling the confirming side why.\<close>

definition confirm_failed :: "entity_id \<Rightarrow> session_ref \<Rightarrow> trade_refusal \<Rightarrow> trade_world \<Rightarrow> trade_world" where
  "confirm_failed e i why w =
     (let w1 = update_session i unconfirm w
      in push_trade_state_both (tw_heap w1 ! i) (refuse e why w1))"

definition confirm_read :: "entity_id \<Rightarrow> session_ref \<Rightarrow> trade_world \<Rightarrow> confirm_phase option \<times> trade_world" where
  "confirm_read e i w =
     (let s = tw_heap w ! i in
      case (map_of (tw_entity_characters w) (ts_entity_a s), map_of (tw_entity_characters w) (ts_entity_b s)) of
        (Some a, Some b) \<Rightarrow> (Some (Ready i (ts_entity_a s) (ts_entity_b s) a b
            (to_offer_input (ts_offer_a s)) (to_offer_input (ts_offer_b s))), w)
      | _ \<Rightarrow> (None, confirm_failed e i OtherDisconnected w))"

definition send_changes :: "entity_id \<Rightarrow> trade_side_result \<Rightarrow> trade_world \<Rightarrow> trade_world" where
  "send_changes e side w = w\<lparr>tw_sent := tw_sent w
     @ map (\<lambda>(t, n). (e, ItemChanged t n)) (item_changes side)
     @ map (\<lambda>(k, b). (e, CurrencyChanged k b)) (currency_changes side)
     @ [(e, TradeCompleted)]\<rparr>"

definition confirm_settle ::
  "entity_id \<Rightarrow> session_ref \<Rightarrow> entity_id \<Rightarrow> entity_id \<Rightarrow> error + trade_result \<Rightarrow> trade_world \<Rightarrow> trade_world" where
  "confirm_settle e i ea eb outcome w = (case outcome of
     Inr result \<Rightarrow>
       send_changes eb (side_b result) (send_changes ea (side_a result)
         (w\<lparr>tw_active := del_row eb (del_row ea (tw_active w))\<rparr>))
   | Inl err \<Rightarrow> confirm_failed e i (ExecutionFailed err) w)"

text \<open>One phase: the next one, or \<open>None\<close> when the handler is done.\<close>

fun confirm_advance ::
  "character_store \<Rightarrow> entity_id \<Rightarrow> confirm_phase \<Rightarrow> trade_world \<Rightarrow> confirm_phase option \<times> trade_world" where
  "confirm_advance st e (Marked i) w = confirm_read e i w"
| "confirm_advance st e (Ready i ea eb a b oa ob) w =
     (case execute_trade st a oa b ob (tw_db w) of
        (outcome, db') \<Rightarrow> (Some (Executed i ea eb outcome), w\<lparr>tw_db := db'\<rparr>))"
| "confirm_advance st e (Executed i ea eb outcome) w = (None, confirm_settle e i ea eb outcome w)"

text \<open>The handler run without interruption: its phases one after the other.\<close>

definition advance_opt ::
  "character_store \<Rightarrow> entity_id \<Rightarrow> confirm_phase option \<times> trade_world \<Rightarrow> confirm_phase option \<times> trade_world" where
  "advance_opt st e = (\<lambda>(p, w). case p of None \<Rightarrow> (None, w) | Some ph \<Rightarrow> confirm_advance st e ph w)"

definition on_confirm :: "character_store \<Rightarrow> entity_id \<Rightarrow> trade_world \<Rightarrow> trade_world" where
  "on_confirm st e w = snd (advance_opt st e (advance_opt st e (advance_opt st e (confirm_mark e w))))"

fun handle ::
  "character_store \<Rightarrow> (string \<Rightarrow> entity_id option) \<Rightarrow> entity_id \<Rightarrow> client_message \<Rightarrow> trade_world \<Rightarrow> trade_world" where
  "handle st parse_id e (TradeRequest target) w = on_trade_request parse_id e target w"
| "handle st parse_id e (TradeRequestResponse accept) w = on_trade_response e accept w"
| "handle st parse_id e (TradeOfferItem t n) w = on_offer_item e t n w"
| "handle st parse_id e (TradeOfferCurrency k n) w = on_offer_currency e k n w"
| "handle st parse_id e TradeConfirm w = on_confirm st e w"
| "handle st parse_id e TradeCancel w = on_cancel e w"

section \<open>Interleaved handlers\<close>

text \<open>
  The server state with the confirm handlers in flight. A connection reads its next message only
  when its handler is done.
\<close>

record trade_server =
  srv_world :: trade_world
  srv_running :: "(entity_id, confirm_phase) table"

definition set_running :: "entity_id \<Rightarrow> confirm_phase option \<times> trade_world \<Rightarrow> trade_server \<Rightarrow> trade_server" where
  "set_running e = (\<lambda>(p, w) srv. srv\<lparr>srv_world := w,
     srv_running := (case p of None \<Rightarrow> del_row e (srv_running srv)
                             | Some ph \<Rightarrow> put_row e ph (srv_running srv))\<rparr>)"

inductive trade_step ::
  "character_store \<Rightarrow> (string \<Rightarrow> entity_id option) \<Rightarrow> trade_server \<Rightarrow> trade_server \<Rightarrow> bool"
  for st :: character_store and parse_id :: "string \<Rightarrow> entity_id option" where
  step_connect: "\<not> has_row (tw_entity_characters (srv_world srv)) e \<Longrightarrow>
     has_row (characters (tw_db (srv_world srv))) c \<Longrightarrow>
     trade_step st parse_id srv (srv\<lparr>srv_world := (srv_world srv)\<lparr>tw_entity_characters :=
        put_row e c (tw_entity_characters (srv_world srv))\<rparr>\<rparr>)"
| step_message: "has_row (tw_entity_characters (srv_world srv)) e \<Longrightarrow> \<not> has_row (srv_running srv) e \<Longrightarrow>
     m \<noteq> TradeConfirm \<Longrightarrow>
     trade_step st parse_id srv (srv\<lparr>srv_world := handle st parse_id e m (srv_world srv)\<rparr>)"
| step_confirm: "has_row (tw_entity_characters (srv_world srv)) e \<Longrightarrow> \<not> has_row (srv_running srv) e \<Longrightarrow>
     trade_step st parse_id srv (set_running e (confirm_mark e (srv_world srv)) srv)"
| step_advance: "map_of (srv_running srv) e = Some ph \<Longrightarrow>
     trade_step st parse_id srv (set_running e (confirm_advance st e ph (srv_world srv)) srv)"
| step_disconnect: "\<not> has_row (srv_running srv) e \<Longrightarrow>
     trade_step st parse_id srv (srv\<lparr>srv_world := on_disconnect e (srv_world srv)\<rparr>)"

inductive_cases trade_stepE: "trade_step st parse_id srv srv'"

definition initial_server :: "db \<Rightarrow> trade_server" where
  "initial_server db = \<lparr>srv_world = \<lparr>tw_entity_characters = [], tw_pending = [], tw_active = [],
     tw_heap = [], tw_db = db, tw_sent = []\<rparr>, srv_running = []\<rparr>"

definition trade_reachable ::
  "character_store \<Rightarrow> (string \<Rightarrow> entity_id option) \<Rightarrow> db \<Rightarrow> trade_server \<Rightarrow> bool" where
  "trade_reachable st parse_id db srv \<longleftrightarrow> (trade_step st parse_id)\<^sup>*\<^sup>* (initial_server db) srv"


section \<open>What a step can change\<close>

lemma send_frame [simp]:
  "tw_entity_characters (send e m w) = tw_entity_characters w" "tw_pending (send e m w) = tw_pending w"
  "tw_active (send e m w) = tw_active w" "tw_heap (send e m w) = tw_heap w" "tw_db (send e m w) = tw_db w"
  by (simp_all add: send_def)

lemma refuse_frame [simp]:
  "tw_entity_characters (refuse e y w) = tw_entity_characters w" "tw_pending (refuse e y w) = tw_pending w"
  "tw_active (refuse e y w) = tw_active w" "tw_heap (refuse e y w) = tw_heap w" "tw_db (refuse e y w) = tw_db w"
  by (simp_all add: refuse_def)

lemma push_frame [simp]:
  "tw_entity_characters (push_trade_state_both s w) = tw_entity_characters w"
  "tw_pending (push_trade_state_both s w) = tw_pending w"
  "tw_active (push_trade_state_both s w) = tw_active w"
  "tw_heap (push_trade_state_both s w) = tw_heap w" "tw_db (push_trade_state_both s w) = tw_db w"
  by (simp_all add: push_trade_state_both_def send_state_def split: option.split)

lemma update_session_frame [simp]:
  "tw_entity_characters (update_session i f w) = tw_entity_characters w"
  "tw_pending (update_session i f w) = tw_pending w" "tw_active (update_session i f w) = tw_active w"
  "tw_db (update_session i f w) = tw_db w" "length (tw_heap (update_session i f w)) = length (tw_heap w)"
  by (simp_all add: update_session_def)

lemma confirm_failed_frame [simp]:
  "tw_entity_characters (confirm_failed e i y w) = tw_entity_characters w"
  "tw_pending (confirm_failed e i y w) = tw_pending w" "tw_active (confirm_failed e i y w) = tw_active w"
  "tw_db (confirm_failed e i y w) = tw_db w"
  "tw_heap (confirm_failed e i y w) = (tw_heap w)[i := unconfirm (tw_heap w ! i)]"
  by (simp_all add: confirm_failed_def Let_def update_session_def)

lemma send_changes_frame [simp]:
  "tw_entity_characters (send_changes e s w) = tw_entity_characters w"
  "tw_pending (send_changes e s w) = tw_pending w" "tw_active (send_changes e s w) = tw_active w"
  "tw_heap (send_changes e s w) = tw_heap w" "tw_db (send_changes e s w) = tw_db w"
  by (simp_all add: send_changes_def)

section \<open>Well-formed servers\<close>

definition offer_wf :: "trade_offer \<Rightarrow> bool" where
  "offer_wf offer \<longleftrightarrow> keys_unique (of_items offer) \<and> keys_unique (of_currency offer)
     \<and> (\<forall>(k, n) \<in> set (of_items offer). 0 < n) \<and> (\<forall>(k, n) \<in> set (of_currency offer). 0 < n)"

definition session_wf :: "trade_session \<Rightarrow> bool" where
  "session_wf s \<longleftrightarrow> ts_entity_a s \<noteq> ts_entity_b s \<and> offer_wf (ts_offer_a s) \<and> offer_wf (ts_offer_b s)"

definition world_wf :: "trade_world \<Rightarrow> bool" where
  "world_wf w \<longleftrightarrow> (\<forall>e. map_of (tw_pending w) e \<noteq> Some e)
     \<and> (\<forall>e i. map_of (tw_active w) e = Some i \<longrightarrow> i < length (tw_heap w))
     \<and> (\<forall>s \<in> set (tw_heap w). session_wf s)"

lemma keys_unique_set: "keys_unique t \<Longrightarrow> (k, v) \<in> set t \<longleftrightarrow> map_of t k = Some v"
  using map_of_in_set in_set_map_of by metis

lemma set_entry_wf:
  assumes "keys_unique t" "\<forall>(k, n) \<in> set t. 0 < n" "0 \<le> n"
  shows "keys_unique (set_entry key n t)" "\<forall>(k, m) \<in> set (set_entry key n t). 0 < m"
proof -
  show u: "keys_unique (set_entry key n t)" using assms(1) by (simp add: set_entry_def)
  show "\<forall>(k, m) \<in> set (set_entry key n t). 0 < m"
    using assms by (auto simp: keys_unique_set [OF u] keys_unique_set set_entry_def split: if_splits)
qed

lemma session_wf_unconfirm [simp]: "session_wf (unconfirm s) = session_wf s"
  by (simp add: session_wf_def unconfirm_def offer_wf_def)

lemma session_wf_offer:
  "session_wf s \<Longrightarrow> (\<And>offer. offer_wf offer \<Longrightarrow> offer_wf (f offer)) \<Longrightarrow> session_wf (with_offer_mut e f s)"
  by (simp add: session_wf_def with_offer_mut_def)

lemma world_wf_update_session:
  assumes "world_wf w" "session_wf (tw_heap w ! i) \<Longrightarrow> session_wf (f (tw_heap w ! i))"
  shows "world_wf (update_session i f w)"
proof -
  have "\<forall>s \<in> set ((tw_heap w)[i := f (tw_heap w ! i)]). session_wf s"
  proof (cases "i < length (tw_heap w)")
    case True
    with assms show ?thesis by (auto simp: world_wf_def dest!: subsetD [OF set_update_subset_insert])
  next
    case False
    then have "(tw_heap w)[i := f (tw_heap w ! i)] = tw_heap w" by (simp add: list_update_beyond)
    with assms(1) show ?thesis by (simp add: world_wf_def)
  qed
  with assms(1) show ?thesis by (simp add: world_wf_def update_session_def)
qed

lemma world_wf_less:
  assumes "world_wf w" "map_of (tw_pending w') \<subseteq>\<^sub>m map_of (tw_pending w)"
    "map_of (tw_active w') \<subseteq>\<^sub>m map_of (tw_active w)" "tw_heap w' = tw_heap w"
  shows "world_wf w'"
  unfolding world_wf_def
proof (intro conjI allI impI)
  have p: "map_of (tw_pending w') e = Some r \<Longrightarrow> map_of (tw_pending w) e = Some r" for e r
    using assms(2) by (metis domI map_le_def)
  have q: "map_of (tw_active w') e = Some i \<Longrightarrow> map_of (tw_active w) e = Some i" for e i
    using assms(3) by (metis domI map_le_def)
  show "map_of (tw_pending w') e \<noteq> Some e" for e
    using p [of e e] assms(1) by (auto simp: world_wf_def)
  show "i < length (tw_heap w')" if "map_of (tw_active w') e = Some i" for e i
    using q [OF that] assms(1,4) by (simp add: world_wf_def)
  show "\<forall>s \<in> set (tw_heap w'). session_wf s" using assms(1,4) by (simp add: world_wf_def)
qed

lemma world_wf_frame:
  assumes "world_wf w" "tw_pending w' = tw_pending w" "tw_active w' = tw_active w" "tw_heap w' = tw_heap w"
  shows "world_wf w'"
  by (rule world_wf_less [OF assms(1)]) (simp_all add: assms)

lemma world_wf_messages [simp]:
  "world_wf (send e m w) = world_wf w" "world_wf (refuse e y w) = world_wf w"
  "world_wf (push_trade_state_both s w) = world_wf w" "world_wf (send_changes e r w) = world_wf w"
  by (simp_all add: world_wf_def)

lemma world_wf_drop:
  assumes "world_wf w" "drop_trade e w = Some (other, w')"
  shows "world_wf w'"
  using assms(2)
  by (intro world_wf_less [OF assms(1)])
    (auto simp: drop_trade_def Let_def map_le_def fun_upd_def split: option.splits if_splits)

lemma drop_trade_frame:
  "drop_trade e w = Some (other, w') \<Longrightarrow>
     tw_entity_characters w' = tw_entity_characters w \<and> tw_db w' = tw_db w"
  by (auto simp: drop_trade_def Let_def split: option.splits)

lemma world_wf_change_offer:
  assumes "world_wf w" "\<And>offer. offer_wf offer \<Longrightarrow> offer_wf (f offer)"
  shows "world_wf (change_offer f e w)"
proof (cases "map_of (tw_active w) e")
  case None
  then show ?thesis by (intro world_wf_frame [OF assms(1)]) (simp_all add: change_offer_def)
next
  case (Some i)
  have "world_wf (update_session i (\<lambda>s. unconfirm (with_offer_mut e f s)) w)"
    using assms by (intro world_wf_update_session) (simp_all add: session_wf_offer)
  then show ?thesis by (rule world_wf_frame) (simp_all add: change_offer_def Some Let_def)
qed


lemma offer_wf_empty [simp]: "offer_wf empty_offer"
  by (simp add: offer_wf_def empty_offer_def)

lemma world_wf_response: "world_wf w \<Longrightarrow> world_wf (on_trade_response e accept w)"
proof (cases "map_of (tw_pending w) e")
  case (Some r)
  assume wf: "world_wf w"
  have "r \<noteq> e" using wf Some by (auto simp: world_wf_def)
  then have "world_wf (w\<lparr>tw_pending := del_row e (tw_pending w),
      tw_heap := tw_heap w @ [\<lparr>ts_entity_a = r, ts_entity_b = e,
               ts_offer_a = empty_offer, ts_offer_b = empty_offer\<rparr>],
      tw_active := put_row e (length (tw_heap w)) (put_row r (length (tw_heap w)) (tw_active w))\<rparr>)"
    using wf by (auto simp: world_wf_def session_wf_def less_Suc_eq)
  moreover have "world_wf (w\<lparr>tw_pending := del_row e (tw_pending w)\<rparr>)"
    using wf by (auto simp: world_wf_def)
  ultimately show ?thesis
    by (cases accept) (auto simp: on_trade_response_def Some Let_def intro: world_wf_frame)
next
  case None
  assume wf: "world_wf w"
  then show ?thesis by (intro world_wf_frame [OF wf]) (simp_all add: on_trade_response_def None)
qed

lemma world_wf_handle:
  assumes wf: "world_wf w" and m: "m \<noteq> TradeConfirm"
  shows "world_wf (handle st parse_id e m w)"
proof (cases m)
  case (TradeRequest target)
  have "world_wf (w\<lparr>tw_pending := put_row t e (tw_pending w)\<rparr>)" if "t \<noteq> e" for t
    using wf that by (auto simp: world_wf_def)
  then show ?thesis
    using wf by (auto simp: TradeRequest on_trade_request_def split: option.split)
next
  case (TradeOfferItem t n)
  have "offer_wf (offer\<lparr>of_items := set_entry t n (of_items offer)\<rparr>)" if "offer_wf offer" "0 \<le> n" for offer
    using that set_entry_wf [of "of_items offer" n t] by (simp add: offer_wf_def)
  then show ?thesis
    using wf by (auto simp: TradeOfferItem on_offer_item_def intro: world_wf_frame world_wf_change_offer)
next
  case (TradeOfferCurrency k n)
  have "offer_wf (offer\<lparr>of_currency := set_entry k n (of_currency offer)\<rparr>)" if "offer_wf offer" "0 \<le> n" for offer
    using that set_entry_wf [of "of_currency offer" n k] by (simp add: offer_wf_def)
  then show ?thesis
    using wf by (auto simp: TradeOfferCurrency on_offer_currency_def intro: world_wf_frame world_wf_change_offer)
next
  case TradeCancel
  then show ?thesis
    using wf world_wf_drop [OF wf] by (auto simp: on_cancel_def intro: world_wf_frame split: option.split)
qed (use wf m world_wf_response in auto)

lemma handle_frame:
  assumes "m \<noteq> TradeConfirm"
  shows "tw_db (handle st parse_id e m w) = tw_db w"
    "tw_entity_characters (handle st parse_id e m w) = tw_entity_characters w"
  using assms
  by (cases m; auto simp: on_trade_request_def on_trade_response_def on_offer_item_def
      on_offer_currency_def change_offer_def on_cancel_def Let_def dest: drop_trade_frame
      split: option.split)+

lemma world_wf_mark: "world_wf w \<Longrightarrow> world_wf (snd (confirm_mark e w))"
proof (cases "map_of (tw_active w) e")
  case None
  assume wf: "world_wf w"
  then show ?thesis by (intro world_wf_frame [OF wf]) (simp_all add: confirm_mark_def None)
next
  case (Some i)
  assume wf: "world_wf w"
  have "world_wf (update_session i (with_offer_mut e (\<lambda>offer. offer\<lparr>of_confirmed := True\<rparr>)) w)"
    using wf by (intro world_wf_update_session session_wf_offer) (auto simp: offer_wf_def)
  then show ?thesis by (rule world_wf_frame) (simp_all add: confirm_mark_def Some Let_def)
qed

lemma mark_frame:
  "tw_db (snd (confirm_mark e w)) = tw_db w"
  "tw_entity_characters (snd (confirm_mark e w)) = tw_entity_characters w"
  by (simp_all add: confirm_mark_def Let_def split: option.split)

lemma world_wf_failed: "world_wf w \<Longrightarrow> world_wf (confirm_failed e i y w)"
  using world_wf_update_session [of w i unconfirm]
  by (auto simp: confirm_failed_def Let_def intro: world_wf_frame)

lemma world_wf_settle: "world_wf w \<Longrightarrow> world_wf (confirm_settle e i ea eb outcome w)"
  by (cases outcome)
    (auto simp: confirm_settle_def world_wf_failed map_le_def fun_upd_def split: if_splits
      intro!: world_wf_less [of w])

lemma world_wf_advance:
  assumes "world_wf w"
  shows "world_wf (snd (confirm_advance st e ph w))"
proof (cases ph)
  case (Marked i)
  then show ?thesis
    using assms world_wf_failed [OF assms] by (simp add: confirm_read_def Let_def split: option.split)
next
  case (Ready i ea eb a b oa ob)
  then show ?thesis using assms by (auto split: prod.split intro: world_wf_frame)
next
  case (Executed i ea eb outcome)
  then show ?thesis using assms by (simp add: world_wf_settle)
qed


section \<open>Supply\<close>

text \<open>How much of an item, or of a currency, all characters hold together.\<close>

definition item_supply :: "db \<Rightarrow> string \<Rightarrow> int" where
  "item_supply db t = (\<Sum>c \<in> fst ` set (characters db). qty db c t)"

definition currency_supply :: "db \<Rightarrow> string \<Rightarrow> int" where
  "currency_supply db k = (\<Sum>c \<in> fst ` set (characters db). balance_of db c k)"

lemma sum_net_gain:
  assumes "finite C" "a \<in> C" "b \<in> C"
  shows "(\<Sum>c \<in> C. net_gain a xs b ys c k) = 0"
  using assms by (simp add: net_gain_def sum.distrib)

lemma execute_trade_supply:
  assumes wf: "db_wf db" and ab: "has_row (characters db) a" "has_row (characters db) b"
    and run: "execute_trade st a oa b ob db = (r, db')"
  shows "db_wf db' \<and> item_supply db' t = item_supply db t \<and> currency_supply db' t = currency_supply db t
    \<and> (\<exists>u v. db' = db\<lparr>items := u, currency := v\<rparr>)"
proof (cases r)
  case (Inl e)
  then have "db' = db"
    using run by (auto simp: execute_trade_def dest: transaction_rollback split: sum.splits)
  then show ?thesis
    using wf by (metis (no_types) db.surjective db.update_convs(5,6) surjective_pairing)
next
  case (Inr res)
  then have ex: "validate_offer oa = Inr ()" "validate_offer ob = Inr ()"
    "exchange st a oa b ob db = (Inr res, db')"
    using run by (simp_all add: execute_trade_Inr)
  note effect = exchange_effect [OF wf ex]
  then have ch: "characters db' = characters db" by auto
  have C: "finite (fst ` set (characters db))" "a \<in> fst ` set (characters db)" "b \<in> fst ` set (characters db)"
    using ab by (simp_all add: has_row_iff)
  have "item_supply db' t = item_supply db t" "currency_supply db' t = currency_supply db t"
    by (simp_all add: item_supply_def currency_supply_def ch effect(2,3) sum.distrib sum_net_gain [OF C])
  then show ?thesis using effect(1,4) by blast
qed

section \<open>The invariant of the server\<close>

definition phase_ok :: "db \<Rightarrow> confirm_phase \<Rightarrow> bool" where
  "phase_ok db ph = (case ph of
     Ready i ea eb a b oa ob \<Rightarrow> has_row (characters db) a \<and> has_row (characters db) b | _ \<Rightarrow> True)"

definition server_inv :: "db \<Rightarrow> trade_server \<Rightarrow> bool" where
  "server_inv db0 srv \<longleftrightarrow>
     (let w = srv_world srv in
      world_wf w \<and> db_wf (tw_db w) \<and> (\<exists>u v. tw_db w = db0\<lparr>items := u, currency := v\<rparr>)
      \<and> item_supply (tw_db w) = item_supply db0 \<and> currency_supply (tw_db w) = currency_supply db0
      \<and> (\<forall>e c. map_of (tw_entity_characters w) e = Some c \<longrightarrow> has_row (characters db0) c)
      \<and> (\<forall>e ph. map_of (srv_running srv) e = Some ph \<longrightarrow> phase_ok db0 ph))"

text \<open>Steps that leave the database and change the rest within bounds.\<close>

lemma server_inv_frame:
  assumes "server_inv db0 srv" "world_wf w'" "tw_db w' = tw_db (srv_world srv)"
    "\<And>e c. map_of (tw_entity_characters w') e = Some c \<Longrightarrow> has_row (characters db0) c"
    "\<And>e ph. map_of (srv_running srv') e = Some ph \<Longrightarrow> phase_ok db0 ph"
    "srv_world srv' = w'"
  shows "server_inv db0 srv'"
  using assms by (simp add: server_inv_def Let_def)

lemma server_invD:
  assumes "server_inv db0 srv"
  shows "world_wf (srv_world srv)" "db_wf (tw_db (srv_world srv))"
    "characters (tw_db (srv_world srv)) = characters db0"
    "\<And>e c. map_of (tw_entity_characters (srv_world srv)) e = Some c \<Longrightarrow> has_row (characters db0) c"
    "\<And>e ph. map_of (srv_running srv) e = Some ph \<Longrightarrow> phase_ok db0 ph"
  using assms by (auto simp: server_inv_def Let_def)

lemma disconnect_frame:
  assumes "world_wf w"
  shows "world_wf (on_disconnect e w)" "tw_db (on_disconnect e w) = tw_db w"
    "map_of (tw_entity_characters (on_disconnect e w)) \<subseteq>\<^sub>m map_of (tw_entity_characters w)"
proof -
  let ?w1 = "w\<lparr>tw_entity_characters := del_row e (tw_entity_characters w),
      tw_pending := del_row e (tw_pending w)\<rparr>"
  have wf1: "world_wf ?w1"
    by (rule world_wf_less [OF assms]) (auto simp: map_le_def)
  show "world_wf (on_disconnect e w)" "tw_db (on_disconnect e w) = tw_db w"
    "map_of (tw_entity_characters (on_disconnect e w)) \<subseteq>\<^sub>m map_of (tw_entity_characters w)"
    using wf1 world_wf_drop [OF wf1]
    by (auto simp: on_disconnect_def Let_def map_le_def fun_upd_def dest!: drop_trade_frame
        split: option.splits if_splits)
qed

lemma mark_phase: "fst (confirm_mark e w) = Some ph \<Longrightarrow> \<exists>i. ph = Marked i"
  by (auto simp: confirm_mark_def Let_def split: option.splits if_splits)

lemma server_inv_running:
  assumes inv: "server_inv db0 srv" and p: "\<And>ph. p = Some ph \<Longrightarrow> phase_ok db0 ph"
    and "map_of (srv_running (set_running e (p, w) srv)) e' = Some ph"
  shows "phase_ok db0 ph"
  using assms(3) server_invD(5) [OF inv] p
  by (auto simp: set_running_def split: option.splits if_splits)

lemma server_inv_advance:
  assumes inv: "server_inv db0 srv" and ph: "map_of (srv_running srv) e = Some ph"
  shows "server_inv db0 (set_running e (confirm_advance st e ph (srv_world srv)) srv)"
proof (cases ph)
  case (Marked i)
  let ?r = "confirm_read e i (srv_world srv)"
  have "phase_ok db0 ph'" if "fst ?r = Some ph'" for ph'
    using that server_invD(4) [OF inv]
    by (auto simp: confirm_read_def Let_def phase_ok_def split: option.splits)
  then have running: "map_of (srv_running (set_running e (fst ?r, snd ?r) srv)) e' = Some ph' \<Longrightarrow> phase_ok db0 ph'"
    for e' ph'
    using server_inv_running [OF inv] by blast
  have frame: "tw_db (snd ?r) = tw_db (srv_world srv)"
    "tw_entity_characters (snd ?r) = tw_entity_characters (srv_world srv)"
    by (simp_all add: confirm_read_def Let_def split: option.split)
  show ?thesis
  proof (rule server_inv_frame [OF inv, of "snd ?r"])
    show "world_wf (snd ?r)"
      using world_wf_advance [OF server_invD(1) [OF inv], of st e ph] by (simp add: Marked)
    show "phase_ok db0 ph'"
      if "map_of (srv_running (set_running e (confirm_advance st e ph (srv_world srv)) srv)) e' = Some ph'" for e' ph'
      using that running [of e' ph'] by (simp add: Marked)
  qed (use frame server_invD(4) [OF inv] in \<open>auto simp: Marked set_running_def split: prod.split\<close>)
next
  case (Ready i ea eb a b oa ob)
  obtain outcome db' where run: "execute_trade st a oa b ob (tw_db (srv_world srv)) = (outcome, db')"
    by force
  have ab: "has_row (characters (tw_db (srv_world srv))) a" "has_row (characters (tw_db (srv_world srv))) b"
    using server_invD(3,5) [OF inv] ph Ready by (force simp: phase_ok_def)+
  note sup = execute_trade_supply [OF server_invD(2) [OF inv] ab run]
  have wf: "world_wf ((srv_world srv)\<lparr>tw_db := db'\<rparr>)"
    by (rule world_wf_frame [OF server_invD(1) [OF inv]]) simp_all
  show ?thesis
    using inv sup wf
    by (auto simp: server_inv_def Let_def set_running_def Ready run phase_ok_def fun_eq_iff split: if_splits)
next
  case (Executed i ea eb outcome)
  then show ?thesis
    using server_invD(1,4,5) [OF inv]
    by (intro server_inv_frame [OF inv world_wf_advance [OF server_invD(1) [OF inv], of st e ph]])
      (auto simp: set_running_def confirm_settle_def split: sum.splits if_splits)
qed


lemma server_inv_step:
  assumes inv: "server_inv db0 srv" and step: "trade_step st parse_id srv srv'"
  shows "server_inv db0 srv'"
  using step
proof (cases rule: trade_step.cases)
  case (step_connect e c)
  let ?w = "(srv_world srv)\<lparr>tw_entity_characters := put_row e c (tw_entity_characters (srv_world srv))\<rparr>"
  have "world_wf ?w" by (rule world_wf_frame [OF server_invD(1) [OF inv]]) simp_all
  then show ?thesis
    using step_connect server_invD(3-5) [OF inv]
    by (intro server_inv_frame [OF inv, of ?w]) (auto split: if_splits)
next
  case (step_message e m)
  let ?w = "handle st parse_id e m (srv_world srv)"
  note f = handle_frame [OF step_message(4), of st parse_id e "srv_world srv"]
  show ?thesis
    using step_message f server_invD [OF inv]
    by (intro server_inv_frame [OF inv world_wf_handle [OF server_invD(1) [OF inv] step_message(4), of st parse_id e]])
      auto
next
  case (step_confirm e)
  let ?r = "confirm_mark e (srv_world srv)"
  have marked: "phase_ok db0 ph" if "fst ?r = Some ph" for ph
    using mark_phase [OF that] by (auto simp: phase_ok_def)
  have running: "phase_ok db0 ph'"
    if "map_of (srv_running (set_running e (fst ?r, snd ?r) srv)) e' = Some ph'" for e' ph'
    by (rule server_inv_running [OF inv marked that])
  show ?thesis
  proof (rule server_inv_frame [OF inv world_wf_mark [OF server_invD(1) [OF inv], of e]])
    show "phase_ok db0 ph'" if "map_of (srv_running srv') e' = Some ph'" for e' ph'
      using that running [of e' ph'] by (simp add: step_confirm)
  qed (use mark_frame server_invD(4) [OF inv] in \<open>auto simp: step_confirm set_running_def split: prod.split\<close>)
next
  case (step_advance e ph)
  then show ?thesis using server_inv_advance [OF inv] by simp
next
  case (step_disconnect e)
  note f = disconnect_frame [OF server_invD(1) [OF inv], of e]
  have "map_of (tw_entity_characters (on_disconnect e (srv_world srv))) e' = Some c \<Longrightarrow>
      map_of (tw_entity_characters (srv_world srv)) e' = Some c" for e' c
    using f(3) by (metis domI map_le_def)
  then show ?thesis
    using step_disconnect f server_invD [OF inv]
    by (intro server_inv_frame [OF inv f(1)]) auto
qed

lemma server_inv_initial: "db_wf db \<Longrightarrow> server_inv db (initial_server db)"
  by (auto simp: server_inv_def initial_server_def world_wf_def fun_eq_iff
      intro!: exI [of _ "items db"] exI [of _ "currency db"])

lemma server_inv_reachable:
  assumes "db_wf db" "trade_reachable st parse_id db srv"
  shows "server_inv db srv"
  using assms(2) unfolding trade_reachable_def
  by (induction rule: rtranclp_induct) (auto intro: server_inv_initial [OF assms(1)] server_inv_step)

text \<open>
  C4: however the handlers of all connections interleave, through requests, offers, confirmations
  at any of their lock points, cancellations, connects and disconnects, trading never creates or
  destroys anything: the total of every item and of every currency over all characters is what it
  was at the start, only the item and currency tables ever change, and the database keeps its
  constraints.
\<close>

theorem trading_conserves_supply:
  assumes "db_wf db" "trade_reachable st parse_id db srv"
  shows "db_wf (tw_db (srv_world srv))
     \<and> (\<exists>u v. tw_db (srv_world srv) = db\<lparr>items := u, currency := v\<rparr>)
     \<and> (\<forall>t. item_supply (tw_db (srv_world srv)) t = item_supply db t)
     \<and> (\<forall>k. currency_supply (tw_db (srv_world srv)) k = currency_supply db k)"
  using server_inv_reachable [OF assms] by (simp add: server_inv_def Let_def fun_eq_iff)

text \<open>
  The negotiation state stays well formed under every interleaving: nobody has a pending
  request from itself, every entry of the active trades points at a session, a session is between
  two different entities, and its offers list each key once with a positive amount, so that the
  validation of \<open>execute_trade\<close> never rejects what a session hands it.
\<close>

theorem trade_sessions_well_formed:
  assumes "db_wf db" "trade_reachable st parse_id db srv" "s \<in> set (tw_heap (srv_world srv))"
  shows "ts_entity_a s \<noteq> ts_entity_b s
     \<and> validate_offer (to_offer_input (ts_offer_a s)) = Inr ()
     \<and> validate_offer (to_offer_input (ts_offer_b s)) = Inr ()
     \<and> distinct (map fst (of_items (ts_offer_a s))) \<and> distinct (map fst (of_currency (ts_offer_a s)))
     \<and> distinct (map fst (of_items (ts_offer_b s))) \<and> distinct (map fst (of_currency (ts_offer_b s)))"
proof -
  have "session_wf s"
    using server_invD(1) [OF server_inv_reachable [OF assms(1,2)]] assms(3) by (simp add: world_wf_def)
  then show ?thesis
    by (simp add: session_wf_def offer_wf_def validate_offer_ok to_offer_input_def keys_unique_def)
qed


section \<open>Running a schedule\<close>

text \<open>The step relation as a function of a schedule, for concrete runs.\<close>

datatype trade_event =
    Connect entity_id character_id
  | Message entity_id client_message
  | Advance entity_id
  | Disconnect entity_id

fun trade_exec ::
  "character_store \<Rightarrow> (string \<Rightarrow> entity_id option) \<Rightarrow> trade_event \<Rightarrow> trade_server \<Rightarrow> trade_server option" where
  "trade_exec st parse_id (Connect e c) srv =
     (if \<not> has_row (tw_entity_characters (srv_world srv)) e \<and> has_row (characters (tw_db (srv_world srv))) c
      then Some (srv\<lparr>srv_world := (srv_world srv)\<lparr>tw_entity_characters :=
             put_row e c (tw_entity_characters (srv_world srv))\<rparr>\<rparr>) else None)"
| "trade_exec st parse_id (Message e m) srv =
     (if has_row (tw_entity_characters (srv_world srv)) e \<and> \<not> has_row (srv_running srv) e
      then Some (if m = TradeConfirm then set_running e (confirm_mark e (srv_world srv)) srv
                 else srv\<lparr>srv_world := handle st parse_id e m (srv_world srv)\<rparr>) else None)"
| "trade_exec st parse_id (Advance e) srv =
     (case map_of (srv_running srv) e of
        None \<Rightarrow> None
      | Some ph \<Rightarrow> Some (set_running e (confirm_advance st e ph (srv_world srv)) srv))"
| "trade_exec st parse_id (Disconnect e) srv =
     (if \<not> has_row (srv_running srv) e
      then Some (srv\<lparr>srv_world := on_disconnect e (srv_world srv)\<rparr>) else None)"

fun run_schedule ::
  "character_store \<Rightarrow> (string \<Rightarrow> entity_id option) \<Rightarrow> trade_event list \<Rightarrow> trade_server \<Rightarrow> trade_server option" where
  "run_schedule st parse_id [] srv = Some srv"
| "run_schedule st parse_id (ev # evs) srv =
     (case trade_exec st parse_id ev srv of None \<Rightarrow> None | Some srv' \<Rightarrow> run_schedule st parse_id evs srv')"

lemma trade_exec_step: "trade_exec st parse_id ev srv = Some srv' \<Longrightarrow> trade_step st parse_id srv srv'"
  by (cases ev) (auto intro: trade_step.intros split: if_splits option.splits)

lemma run_schedule_steps:
  "run_schedule st parse_id evs srv = Some srv' \<Longrightarrow> (trade_step st parse_id)\<^sup>*\<^sup>* srv srv'"
  by (induction evs arbitrary: srv)
    (auto intro: converse_rtranclp_into_rtranclp trade_exec_step split: option.splits)

lemma run_schedule_reachable:
  "run_schedule st parse_id evs (initial_server db) = Some srv \<Longrightarrow> trade_reachable st parse_id db srv"
  by (simp add: trade_reachable_def run_schedule_steps)

definition sample_parse :: "string \<Rightarrow> entity_id option" where
  "sample_parse s = (if s = ''a'' then Some (Id 101) else if s = ''b'' then Some (Id 102) else None)"

text \<open>Ann opens a trade with Bob and offers ten gold; Bob offers three ore.\<close>

definition sample_opening :: "trade_event list" where
  "sample_opening = [Connect (Id 101) (Id 1), Connect (Id 102) (Id 2),
     Message (Id 101) (TradeRequest ''b''), Message (Id 102) (TradeRequestResponse True),
     Message (Id 101) (TradeOfferCurrency ''gold'' 10), Message (Id 102) (TradeOfferItem ''ore'' 3)]"

definition sample_confirming :: "trade_event list" where
  "sample_confirming = sample_opening @ [Message (Id 101) TradeConfirm, Message (Id 102) TradeConfirm,
     Advance (Id 102), Advance (Id 102), Advance (Id 102)]"

definition sample_server :: trade_server where
  "sample_server = the (run_schedule sample_store sample_parse sample_confirming (initial_server sample_db))"

lemma sample_confirming_run:
  "run_schedule sample_store sample_parse sample_confirming (initial_server sample_db) = Some sample_server"
proof -
  have "\<not> Option.is_none (run_schedule sample_store sample_parse sample_confirming (initial_server sample_db))"
    by code_simp
  then show ?thesis by (simp add: sample_server_def Option.is_none_def)
qed

lemmas sample_server_reachable = run_schedule_reachable [OF sample_confirming_run]

lemma trading_conserves_supply_witness:
  "item_supply (tw_db (srv_world sample_server)) ''ore'' = 3
   \<and> currency_supply (tw_db (srv_world sample_server)) ''gold'' = 120"
  using trading_conserves_supply [OF sample_db_wf sample_server_reachable]
  by (simp add: item_supply_def currency_supply_def qty_def balance_of_def)

lemma sample_server_session: "\<exists>s. tw_heap (srv_world sample_server) = [s]"
proof -
  have "length (tw_heap (srv_world sample_server)) = 1"
    unfolding sample_server_def by code_simp
  then show ?thesis by (simp add: length_Suc_conv)
qed

lemma trade_sessions_well_formed_witness:
  "ts_entity_a (tw_heap (srv_world sample_server) ! 0) \<noteq> ts_entity_b (tw_heap (srv_world sample_server) ! 0)"
  using trade_sessions_well_formed [OF sample_db_wf sample_server_reachable,
      of "tw_heap (srv_world sample_server) ! 0"] sample_server_session by auto


section \<open>Consent\<close>

text \<open>
  What a side agreed to: the contents of both offers at its last confirmation, recorded beside the
  server by an auxiliary map the code does not have.
\<close>

type_synonym offer_contents =
  "((string, i64) table \<times> (string, i64) table) \<times> (string, i64) table \<times> (string, i64) table"

type_synonym agreements = "session_ref \<times> entity_id \<Rightarrow> offer_contents option"

definition contents :: "trade_session \<Rightarrow> offer_contents" where
  "contents s = ((of_items (ts_offer_a s), of_currency (ts_offer_a s)),
     of_items (ts_offer_b s), of_currency (ts_offer_b s))"

definition agree :: "entity_id \<Rightarrow> trade_world \<Rightarrow> agreements \<Rightarrow> agreements" where
  "agree e w g = (case map_of (tw_active w) e of
     None \<Rightarrow> g | Some i \<Rightarrow> g((i, e) \<mapsto> contents (tw_heap w ! i)))"

text \<open>Runs in which every handler finishes before the next one starts.\<close>

inductive atomic_run ::
  "character_store \<Rightarrow> (string \<Rightarrow> entity_id option) \<Rightarrow> db \<Rightarrow> trade_world \<Rightarrow> agreements \<Rightarrow> bool"
  for st :: character_store and parse_id :: "string \<Rightarrow> entity_id option" and db :: db where
  atomic_start: "atomic_run st parse_id db (srv_world (initial_server db)) (\<lambda>_. None)"
| atomic_connect: "atomic_run st parse_id db w g \<Longrightarrow>
     atomic_run st parse_id db (w\<lparr>tw_entity_characters := put_row e c (tw_entity_characters w)\<rparr>) g"
| atomic_message: "atomic_run st parse_id db w g \<Longrightarrow> m \<noteq> TradeConfirm \<Longrightarrow>
     atomic_run st parse_id db (handle st parse_id e m w) g"
| atomic_confirm: "atomic_run st parse_id db w g \<Longrightarrow>
     atomic_run st parse_id db (handle st parse_id e TradeConfirm w) (agree e w g)"
| atomic_disconnect: "atomic_run st parse_id db w g \<Longrightarrow>
     atomic_run st parse_id db (on_disconnect e w) g"

definition participant :: "trade_session \<Rightarrow> entity_id \<Rightarrow> bool" where
  "participant s e \<longleftrightarrow> e = ts_entity_a s \<or> e = ts_entity_b s"

definition flag_of :: "trade_session \<Rightarrow> entity_id \<Rightarrow> bool" where
  "flag_of s e = (case ts_offer s e of None \<Rightarrow> False | Some offer \<Rightarrow> of_confirmed offer)"

definition consent_inv :: "trade_world \<Rightarrow> agreements \<Rightarrow> bool" where
  "consent_inv w g \<longleftrightarrow> world_wf w
     \<and> (\<forall>e i. map_of (tw_active w) e = Some i \<longrightarrow> participant (tw_heap w ! i) e)
     \<and> (\<forall>i e. i < length (tw_heap w) \<longrightarrow> flag_of (tw_heap w ! i) e \<longrightarrow>
          g (i, e) = Some (contents (tw_heap w ! i)))"

lemma session_simps [simp]:
  "flag_of (unconfirm s) e = False"
  "participant (unconfirm s) e = participant s e" "contents (unconfirm s) = contents s"
  "participant (with_offer_mut e' f s) e = participant s e"
  "participant \<lparr>ts_entity_a = a, ts_entity_b = b, ts_offer_a = oa, ts_offer_b = ob\<rparr> e \<longleftrightarrow> e = a \<or> e = b"
  "flag_of \<lparr>ts_entity_a = a, ts_entity_b = b, ts_offer_a = empty_offer, ts_offer_b = empty_offer\<rparr> e = False"
  by (auto simp: flag_of_def unconfirm_def ts_offer_def participant_def contents_def
      with_offer_mut_def empty_offer_def)

definition set_flag :: "trade_offer \<Rightarrow> trade_offer" where
  "set_flag offer = offer\<lparr>of_confirmed := True\<rparr>"

lemma set_flag_simps [simp]:
  "contents (with_offer_mut e set_flag s) = contents s"
  "flag_of (with_offer_mut e set_flag s) e' \<longleftrightarrow> flag_of s e' \<or> (e' = e \<and> participant s e)"
  by (auto simp: contents_def with_offer_mut_def set_flag_def flag_of_def ts_offer_def participant_def)

lemma consent_invD:
  assumes "consent_inv w g"
  shows "world_wf w" "map_of (tw_active w) e = Some i \<Longrightarrow> participant (tw_heap w ! i) e"
    "i < length (tw_heap w) \<Longrightarrow> flag_of (tw_heap w ! i) e \<Longrightarrow> g (i, e) = Some (contents (tw_heap w ! i))"
    "map_of (tw_active w) e = Some i \<Longrightarrow> i < length (tw_heap w)"
  using assms by (auto simp: consent_inv_def world_wf_def)

text \<open>A change of one session that keeps its participants.\<close>

lemma consent_inv_update:
  assumes inv: "consent_inv w g" and wf: "world_wf w'"
    and heap: "tw_heap w' = (tw_heap w)[i := s']"
    and part: "\<And>e. participant (tw_heap w ! i) e \<Longrightarrow> participant s' e"
    and active: "map_of (tw_active w') \<subseteq>\<^sub>m map_of (tw_active w)"
    and g: "\<And>j e. j \<noteq> i \<Longrightarrow> g' (j, e) = g (j, e)"
    and flags: "\<And>e. i < length (tw_heap w) \<Longrightarrow> flag_of s' e \<Longrightarrow> g' (i, e) = Some (contents s')"
  shows "consent_inv w' g'"
  unfolding consent_inv_def
proof (intro conjI allI impI)
  show "participant (tw_heap w' ! j) e" if "map_of (tw_active w') e = Some j" for e j
  proof -
    have *: "map_of (tw_active w) e = Some j" using that active by (metis domI map_le_def)
    show ?thesis
      using consent_invD(2,4) [OF inv *] part by (cases "j = i") (simp_all add: heap)
  qed
  show "g' (j, e) = Some (contents (tw_heap w' ! j))"
    if "j < length (tw_heap w')" "flag_of (tw_heap w' ! j) e" for j e
    using that consent_invD(3) [OF inv, of j e] g flags by (cases "j = i") (simp_all add: heap)
qed (rule wf)

lemma consent_inv_same:
  assumes "consent_inv w g" "world_wf w'" "tw_heap w' = tw_heap w"
    "map_of (tw_active w') \<subseteq>\<^sub>m map_of (tw_active w)"
  shows "consent_inv w' g"
  unfolding consent_inv_def
proof (intro conjI allI impI)
  show "participant (tw_heap w' ! j) e" if "map_of (tw_active w') e = Some j" for e j
  proof -
    have "map_of (tw_active w) e = Some j" using that assms(4) by (metis domI map_le_def)
    from consent_invD(2) [OF assms(1) this] show ?thesis by (simp add: assms(3))
  qed
  show "g (j, e) = Some (contents (tw_heap w' ! j))"
    if "j < length (tw_heap w')" "flag_of (tw_heap w' ! j) e" for j e
    using that consent_invD(3) [OF assms(1), of j e] by (simp add: assms(3))
qed (rule assms(2))


lemma drop_trade_less:
  "drop_trade e w = Some (other, w') \<Longrightarrow> tw_heap w' = tw_heap w
     \<and> map_of (tw_active w') \<subseteq>\<^sub>m map_of (tw_active w)"
  by (auto simp: drop_trade_def Let_def map_le_def fun_upd_def split: option.splits if_splits)

lemma consent_cancel:
  assumes inv: "consent_inv w g"
  shows "consent_inv (on_cancel e w) g"
proof (cases "drop_trade e w")
  case None
  then show ?thesis using inv by (simp add: on_cancel_def)
next
  case (Some r)
  obtain other w' where r: "r = (other, w')" by force
  show ?thesis
    using drop_trade_less [OF Some [unfolded r]] world_wf_drop [OF consent_invD(1) [OF inv] Some [unfolded r]]
    by (intro consent_inv_same [OF inv]) (simp_all add: on_cancel_def Some r)
qed

lemma disconnect_less:
  "tw_heap (on_disconnect e w) = tw_heap w \<and> map_of (tw_active (on_disconnect e w)) \<subseteq>\<^sub>m map_of (tw_active w)"
  by (auto simp: on_disconnect_def Let_def dest: drop_trade_less split: option.split)

lemma consent_disconnect: "consent_inv w g \<Longrightarrow> consent_inv (on_disconnect e w) g"
  using disconnect_less disconnect_frame(1) [OF consent_invD(1)] by (blast intro: consent_inv_same)

lemma consent_response: 
  assumes inv: "consent_inv w g"
  shows "consent_inv (on_trade_response e accept w) g"
proof (cases "\<exists>r. map_of (tw_pending w) e = Some r \<and> accept")
  case True
  then obtain r where r: "map_of (tw_pending w) e = Some r" "accept" by blast
  let ?w = "on_trade_response e accept w"
  let ?s = "\<lparr>ts_entity_a = r, ts_entity_b = e, ts_offer_a = empty_offer, ts_offer_b = empty_offer\<rparr>"
  have heap: "tw_heap ?w = tw_heap w @ [?s]"
    and act: "map_of (tw_active ?w) = (map_of (tw_active w))(r \<mapsto> length (tw_heap w), e \<mapsto> length (tw_heap w))"
    using r by (simp_all add: on_trade_response_def Let_def)
  show ?thesis
    unfolding consent_inv_def
  proof (intro conjI allI impI)
    show "world_wf ?w" by (rule world_wf_response [OF consent_invD(1) [OF inv]])
    show "participant (tw_heap ?w ! j) e'" if "map_of (tw_active ?w) e' = Some j" for e' j
      using that consent_invD(2,4) [OF inv, of e' j]
      by (auto simp: heap act nth_append split: if_splits)
    show "g (j, e') = Some (contents (tw_heap ?w ! j))"
      if "j < length (tw_heap ?w)" "flag_of (tw_heap ?w ! j) e'" for j e'
      using that consent_invD(3) [OF inv, of j e'] by (auto simp: heap nth_append split: if_splits)
  qed
next
  case False
  then show ?thesis
    using inv world_wf_response [OF consent_invD(1) [OF inv], of e accept]
    by (intro consent_inv_same [OF inv]) (auto simp: on_trade_response_def Let_def split: option.splits)
qed

lemma consent_change_offer:
  assumes inv: "consent_inv w g" and wf: "world_wf (change_offer f e w)"
  shows "consent_inv (change_offer f e w) g"
proof (cases "map_of (tw_active w) e")
  case None
  then show ?thesis by (intro consent_inv_same [OF inv wf]) (simp_all add: change_offer_def)
next
  case (Some i)
  show ?thesis
    by (rule consent_inv_update [OF inv wf, where i = i and s' = "unconfirm (with_offer_mut e f (tw_heap w ! i))"])
      (simp_all add: change_offer_def Some Let_def update_session_def)
qed

lemma consent_message:
  assumes inv: "consent_inv w g" and m: "m \<noteq> TradeConfirm"
  shows "consent_inv (handle st parse_id e m w) g"
proof -
  note wf = world_wf_handle [OF consent_invD(1) [OF inv] m, of st parse_id e]
  show ?thesis
  proof (cases m)
    case (TradeRequest target)
    then show ?thesis
      using wf by (intro consent_inv_same [OF inv]) (auto simp: on_trade_request_def split: option.splits)
  next
    case (TradeOfferItem t n)
    then show ?thesis
      using wf inv consent_change_offer [OF inv] consent_inv_same [OF inv, of "refuse e (NegativeQuantity t) w"]
      by (auto simp: on_offer_item_def)
  next
    case (TradeOfferCurrency k n)
    then show ?thesis
      using wf inv consent_change_offer [OF inv] consent_inv_same [OF inv, of "refuse e (NegativeAmount k) w"]
      by (auto simp: on_offer_currency_def)
  qed (use inv m consent_cancel consent_response in auto)
qed

text \<open>What a confirmation run to its end does to the sessions.\<close>

lemma on_confirm_effect:
  assumes "map_of (tw_active w) e = Some i"
  shows "tw_heap (on_confirm st e w) = (tw_heap w)[i := with_offer_mut e set_flag (tw_heap w ! i)]
     \<or> tw_heap (on_confirm st e w) = (tw_heap w)[i := unconfirm (with_offer_mut e set_flag (tw_heap w ! i))]"
    and "map_of (tw_active (on_confirm st e w)) \<subseteq>\<^sub>m map_of (tw_active w)"
proof -
  let ?w1 = "update_session i (with_offer_mut e set_flag) w"
  have fl: "(\<lambda>offer. offer\<lparr>of_confirmed := True\<rparr>) = set_flag" by (simp add: fun_eq_iff set_flag_def)
  have heap1: "tw_heap ?w1 = (tw_heap w)[i := with_offer_mut e set_flag (tw_heap w ! i)]"
    by (simp add: update_session_def)
  have heap2: "(tw_heap ?w1)[i := unconfirm (tw_heap ?w1 ! i)] =
      (tw_heap w)[i := unconfirm (with_offer_mut e set_flag (tw_heap w ! i))]"
    by (cases "i < length (tw_heap w)") (simp_all add: heap1 list_update_beyond)
  have mark: "confirm_mark e w = (Some (Marked i), ?w1) \<or> (\<exists>s. confirm_mark e w = (None, push_trade_state_both s ?w1))"
    using assms by (auto simp: confirm_mark_def fl Let_def)
  then have cases: "tw_heap (on_confirm st e w) \<in> {tw_heap ?w1, (tw_heap ?w1)[i := unconfirm (tw_heap ?w1 ! i)]}
      \<and> map_of (tw_active (on_confirm st e w)) \<subseteq>\<^sub>m map_of (tw_active w)"
    by (auto simp: on_confirm_def advance_opt_def confirm_read_def confirm_settle_def Let_def map_le_def
        fun_upd_def split: option.splits prod.splits sum.splits if_splits)
  then show "tw_heap (on_confirm st e w) = (tw_heap w)[i := with_offer_mut e set_flag (tw_heap w ! i)]
     \<or> tw_heap (on_confirm st e w) = (tw_heap w)[i := unconfirm (with_offer_mut e set_flag (tw_heap w ! i))]"
    and "map_of (tw_active (on_confirm st e w)) \<subseteq>\<^sub>m map_of (tw_active w)"
    unfolding heap1 [symmetric] heap2 [symmetric] by blast+
qed


lemma consent_confirm:
  assumes inv: "consent_inv w g" and wf: "world_wf (on_confirm st e w)"
  shows "consent_inv (on_confirm st e w) (agree e w g)"
proof (cases "map_of (tw_active w) e")
  case None
  then have "on_confirm st e w = refuse e NoActiveTrade w"
    by (simp add: on_confirm_def advance_opt_def confirm_mark_def)
  then show ?thesis
    using None wf by (simp add: agree_def) (rule consent_inv_same [OF inv], simp_all)
next
  case (Some i)
  have part: "participant (tw_heap w ! i) e" by (rule consent_invD(2) [OF inv Some])
  have g: "agree e w g = g((i, e) \<mapsto> contents (tw_heap w ! i))" by (simp add: agree_def Some)
  note eff = on_confirm_effect [OF Some, of st]
  from eff(1) show ?thesis
  proof
    assume heap: "tw_heap (on_confirm st e w) = (tw_heap w)[i := with_offer_mut e set_flag (tw_heap w ! i)]"
    show ?thesis
      by (rule consent_inv_update [OF inv wf heap _ eff(2)])
        (use part consent_invD(3) [OF inv] in \<open>auto simp: g\<close>)
  next
    assume heap: "tw_heap (on_confirm st e w) = (tw_heap w)[i := unconfirm (with_offer_mut e set_flag (tw_heap w ! i))]"
    show ?thesis
      by (rule consent_inv_update [OF inv wf heap _ eff(2)]) (auto simp: g)
  qed
qed

lemma world_wf_on_confirm: "world_wf w \<Longrightarrow> world_wf (on_confirm st e w)"
proof -
  assume wf: "world_wf w"
  have adv: "world_wf (snd (advance_opt st e r))" if "world_wf (snd r)" for r
    using that world_wf_advance by (cases r) (auto simp: advance_opt_def split: option.split)
  show ?thesis unfolding on_confirm_def by (intro adv world_wf_mark wf)
qed

lemma consent_atomic_run: "atomic_run st parse_id db w g \<Longrightarrow> consent_inv w g"
proof (induction rule: atomic_run.induct)
  case atomic_start
  then show ?case by (simp add: consent_inv_def initial_server_def world_wf_def)
next
  case (atomic_connect w g e c)
  then show ?case
    by (intro consent_inv_same [OF atomic_connect.IH])
      (auto intro: world_wf_frame dest: consent_invD(1))
next
  case (atomic_message w g m e)
  then show ?case by (simp add: consent_message)
next
  case (atomic_confirm w g e)
  then show ?case by (simp add: consent_confirm world_wf_on_confirm consent_invD(1))
next
  case (atomic_disconnect w g e)
  then show ?case by (simp add: consent_disconnect)
qed

text \<open>
  C2: when handlers run one at a time, a trade is executed only with both sides' consent to
  exactly what is executed: whenever a confirmation finds both flags set, the last thing each of
  the two sides confirmed in this session was the very pair of offers that is about to be
  exchanged, and those are the offers handed to \<open>execute_trade\<close>.
\<close>

theorem executed_trade_was_agreed:
  assumes "atomic_run st parse_id db w g" and "confirm_mark e w = (Some (Marked i), w')"
  shows "let s = tw_heap w' ! i in
     agree e w g (i, ts_entity_a s) = Some (contents s)
     \<and> agree e w g (i, ts_entity_b s) = Some (contents s)
     \<and> (\<forall>j ea eb a b oa ob. fst (confirm_read e i w') = Some (Ready j ea eb a b oa ob) \<longrightarrow>
          contents s = ((offer_items oa, offer_currency oa), offer_items ob, offer_currency ob))"
proof -
  have inv: "consent_inv w g" by (rule consent_atomic_run [OF assms(1)])
  have i: "map_of (tw_active w) e = Some i"
    using assms(2) by (auto simp: confirm_mark_def Let_def split: option.splits if_splits)
  have fl: "(\<lambda>offer. offer\<lparr>of_confirmed := True\<rparr>) = set_flag" by (simp add: fun_eq_iff set_flag_def)
  have bound: "i < length (tw_heap w)" by (rule consent_invD(4) [OF inv i])
  let ?s = "with_offer_mut e set_flag (tw_heap w ! i)"
  have w': "w' = update_session i (with_offer_mut e set_flag) w"
    and both: "of_confirmed (ts_offer_a ?s) \<and> of_confirmed (ts_offer_b ?s)"
    using assms(2) bound
    by (auto simp: confirm_mark_def fl i Let_def update_session_def split: if_splits)
  have s: "tw_heap w' ! i = ?s" using bound by (simp add: w' update_session_def)
  have "session_wf (tw_heap w ! i)" using consent_invD(1) [OF inv] bound by (simp add: world_wf_def)
  then have "flag_of ?s (ts_entity_a ?s)" "flag_of ?s (ts_entity_b ?s)"
    using both by (auto simp: flag_of_def ts_offer_def session_wf_def with_offer_mut_def)
  then have "agree e w g (i, x) = Some (contents (tw_heap w ! i))"
    if "x = ts_entity_a ?s \<or> x = ts_entity_b ?s" for x
    using that consent_invD(3) [OF inv bound, of x] by (auto simp: agree_def i)
  moreover have "contents (tw_heap w ! i) = ((of_items (ts_offer_a ?s), of_currency (ts_offer_a ?s)),
      of_items (ts_offer_b ?s), of_currency (ts_offer_b ?s))"
    using contents_def [of ?s] by simp
  ultimately show ?thesis
    unfolding s Let_def
    by (auto simp: confirm_read_def Let_def s to_offer_input_def split: option.splits)
qed

text \<open>The sample negotiation run handler by handler, up to the second confirmation.\<close>

definition sample_offered :: trade_world where
  "sample_offered =
     handle sample_store sample_parse (Id 102) (TradeOfferItem ''ore'' 3)
     (handle sample_store sample_parse (Id 101) (TradeOfferCurrency ''gold'' 10)
     (handle sample_store sample_parse (Id 102) (TradeRequestResponse True)
     (handle sample_store sample_parse (Id 101) (TradeRequest ''b'')
     ((srv_world (initial_server sample_db))\<lparr>tw_entity_characters := put_row (Id 102) (Id 2)
        (put_row (Id 101) (Id 1) [])\<rparr>))))"

definition sample_half_confirmed :: trade_world where
  "sample_half_confirmed = handle sample_store sample_parse (Id 101) TradeConfirm sample_offered"

lemma sample_offered_run: "atomic_run sample_store sample_parse sample_db sample_offered (\<lambda>_. None)"
proof -
  let ?w0 = "srv_world (initial_server sample_db)"
  let ?w1 = "?w0\<lparr>tw_entity_characters := put_row (Id 101) (Id 1) (tw_entity_characters ?w0)\<rparr>"
  have "atomic_run sample_store sample_parse sample_db
      (?w1\<lparr>tw_entity_characters := put_row (Id 102) (Id 2) (tw_entity_characters ?w1)\<rparr>) (\<lambda>_. None)"
    by (intro atomic_connect atomic_start)
  then have "atomic_run sample_store sample_parse sample_db
      (?w0\<lparr>tw_entity_characters := put_row (Id 102) (Id 2) (put_row (Id 101) (Id 1) [])\<rparr>) (\<lambda>_. None)"
    by (simp add: initial_server_def)
  then show ?thesis unfolding sample_offered_def by (intro atomic_message) simp_all
qed

lemma sample_mark:
  "confirm_mark (Id 102) sample_half_confirmed =
     (Some (Marked 0), snd (confirm_mark (Id 102) sample_half_confirmed))"
proof -
  have "fst (confirm_mark (Id 102) sample_half_confirmed) = Some (Marked 0)" by code_simp
  then show ?thesis by (metis prod.collapse)
qed

lemma executed_trade_was_agreed_witness:
  "let s = tw_heap (snd (confirm_mark (Id 102) sample_half_confirmed)) ! 0 in
     agree (Id 102) sample_half_confirmed (agree (Id 101) sample_offered (\<lambda>_. None)) (0, ts_entity_a s) = Some (contents s)"
  using executed_trade_was_agreed [OF atomic_confirm [OF sample_offered_run, of "Id 101",
        folded sample_half_confirmed_def] sample_mark]
  by (simp add: Let_def)


section \<open>The outcome of a confirmation\<close>

text \<open>
  The confirmation that finds both sides agreed and connected settles the trade. If the
  exchange succeeds, the database is the exchange's, both sides' active trades are gone and
  nobody else's, and both are told it completed; if it fails, the database and the active trades
  are as they were, the offers stand with both confirmations withdrawn, and the confirming side is
  told why.
\<close>

theorem confirm_settles_trade:
  assumes "map_of (tw_active w) e = Some i"
    and "tw_heap (update_session i (with_offer_mut e (\<lambda>offer. offer\<lparr>of_confirmed := True\<rparr>)) w) ! i = s"
    and "of_confirmed (ts_offer_a s)" "of_confirmed (ts_offer_b s)"
    and "map_of (tw_entity_characters w) (ts_entity_a s) = Some a"
    and "map_of (tw_entity_characters w) (ts_entity_b s) = Some b"
  shows "case execute_trade st a (to_offer_input (ts_offer_a s)) b (to_offer_input (ts_offer_b s)) (tw_db w) of
      (Inr result, db') \<Rightarrow>
         tw_db (on_confirm st e w) = db'
         \<and> (\<forall>x. map_of (tw_active (on_confirm st e w)) x =
              (if x = ts_entity_a s \<or> x = ts_entity_b s then None else map_of (tw_active w) x))
         \<and> (ts_entity_a s, TradeCompleted) \<in> set (tw_sent (on_confirm st e w))
         \<and> (ts_entity_b s, TradeCompleted) \<in> set (tw_sent (on_confirm st e w))
    | (Inl err, db') \<Rightarrow>
         tw_db (on_confirm st e w) = tw_db w
         \<and> tw_active (on_confirm st e w) = tw_active w
         \<and> tw_heap (on_confirm st e w) = (tw_heap w)[i := unconfirm s]
         \<and> (e, ErrorMessage (ExecutionFailed err)) \<in> set (tw_sent (on_confirm st e w))"
proof -
  let ?w1 = "update_session i (with_offer_mut e (\<lambda>offer. offer\<lparr>of_confirmed := True\<rparr>)) w"
  have s: "tw_heap ?w1 ! i = s" by (rule assms(2))
  have heap: "(tw_heap ?w1)[i := x] = (tw_heap w)[i := x]" for x by (simp add: update_session_def)
  have mark: "confirm_mark e w = (Some (Marked i), ?w1)"
    using assms(1,3,4) s by (simp add: confirm_mark_def Let_def)
  have read: "confirm_read e i ?w1 = (Some (Ready i (ts_entity_a s) (ts_entity_b s) a b
      (to_offer_input (ts_offer_a s)) (to_offer_input (ts_offer_b s))), ?w1)"
    using assms(5,6) by (simp add: confirm_read_def Let_def s)
  have sent: "set (tw_sent w') \<subseteq> set (tw_sent (push_trade_state_both x w'))" for x w'
    by (auto simp: push_trade_state_both_def send_state_def send_def split: option.split)
  obtain outcome db' where run: "execute_trade st a (to_offer_input (ts_offer_a s)) b
      (to_offer_input (ts_offer_b s)) (tw_db w) = (outcome, db')" by force
  have on: "on_confirm st e w = confirm_settle e i (ts_entity_a s) (ts_entity_b s) outcome (?w1\<lparr>tw_db := db'\<rparr>)"
    by (simp add: on_confirm_def advance_opt_def mark read run)
  show ?thesis
  proof (cases outcome)
    case (Inr result)
    then show ?thesis by (auto simp: run on confirm_settle_def send_changes_def)
  next
    case (Inl err)
    have "db' = tw_db w"
      using run Inl by (auto simp: execute_trade_def dest: transaction_rollback split: sum.splits)
    moreover have "(e, ErrorMessage (ExecutionFailed err)) \<in> set (tw_sent (on_confirm st e w))"
      unfolding on Inl confirm_settle_def sum.case confirm_failed_def Let_def
      by (rule subsetD [OF sent]) (simp add: refuse_def send_def)
    ultimately show ?thesis
      by (simp add: run Inl on confirm_settle_def s heap)
  qed
qed

lemma confirm_settles_trade_witness:
  "case execute_trade sample_store (Id 1) \<lparr>offer_items = [], offer_currency = [(''gold'', 10)]\<rparr>
      (Id 2) \<lparr>offer_items = [(''ore'', 3)], offer_currency = []\<rparr> sample_db of
     (Inr result, db') \<Rightarrow> tw_db (on_confirm sample_store (Id 102) sample_half_confirmed) = db'
   | (Inl err, db') \<Rightarrow> tw_db (on_confirm sample_store (Id 102) sample_half_confirmed) = sample_db"
proof -
  let ?s = "tw_heap (update_session 0 (with_offer_mut (Id 102) (\<lambda>offer. offer\<lparr>of_confirmed := True\<rparr>))
     sample_half_confirmed) ! 0"
  have "map_of (tw_active sample_half_confirmed) (Id 102) = Some 0"
    "of_confirmed (ts_offer_a ?s)" "of_confirmed (ts_offer_b ?s)"
    "map_of (tw_entity_characters sample_half_confirmed) (ts_entity_a ?s) = Some (Id 1)"
    "map_of (tw_entity_characters sample_half_confirmed) (ts_entity_b ?s) = Some (Id 2)"
    "to_offer_input (ts_offer_a ?s) = \<lparr>offer_items = [], offer_currency = [(''gold'', 10)]\<rparr>"
    "to_offer_input (ts_offer_b ?s) = \<lparr>offer_items = [(''ore'', 3)], offer_currency = []\<rparr>"
    by code_simp+
  moreover have "tw_db sample_half_confirmed = sample_db"
    by (simp add: sample_half_confirmed_def sample_offered_def handle_frame initial_server_def on_confirm_def)
      code_simp
  ultimately show ?thesis
    using confirm_settles_trade [where w = sample_half_confirmed and e = "Id 102" and i = 0 and s = ?s
        and a = "Id 1" and b = "Id 2" and st = sample_store]
    by (simp split: prod.splits sum.splits)
qed


section \<open>Two races\<close>

text \<open>
  Between the moment a confirmation has seen both flags and the moment it reads the offers, the
  session is unlocked. Ann confirmed ten gold against three ore, Bob confirms the same, and before
  his handler reads the offers Ann withdraws her gold.
\<close>

definition race_schedule :: "trade_event list" where
  "race_schedule = sample_opening @ [Message (Id 101) TradeConfirm, Message (Id 102) TradeConfirm,
     Message (Id 101) (TradeOfferCurrency ''gold'' 0), Advance (Id 102), Advance (Id 102), Advance (Id 102)]"

definition race_server :: trade_server where
  "race_server = the (run_schedule sample_store sample_parse race_schedule (initial_server sample_db))"

lemma race_run:
  "run_schedule sample_store sample_parse race_schedule (initial_server sample_db) = Some race_server"
proof -
  have "\<not> Option.is_none (run_schedule sample_store sample_parse race_schedule (initial_server sample_db))"
    by code_simp
  then show ?thesis by (simp add: race_server_def Option.is_none_def)
qed

text \<open>
  C38: consent does not survive concurrency. There is a schedule of the handlers of two connections
  in which a trade executes that one side never agreed to: both confirm ten gold against three
  ore, the first withdraws its gold while the second's confirmation is between its two locks, and
  the second's ore is handed over for nothing.
\<close>

theorem confirm_race_takes_without_giving:
  "trade_reachable sample_store sample_parse sample_db race_server
   \<and> qty (tw_db (srv_world race_server)) (Id 1) ''ore'' = 3
   \<and> qty (tw_db (srv_world race_server)) (Id 2) ''ore'' = 0
   \<and> balance_of (tw_db (srv_world race_server)) (Id 1) ''gold'' = 100
   \<and> balance_of (tw_db (srv_world race_server)) (Id 2) ''gold'' = 20"
proof (intro conjI)
  show "trade_reachable sample_store sample_parse sample_db race_server"
    by (rule run_schedule_reachable [OF race_run])
  show "qty (tw_db (srv_world race_server)) (Id 1) ''ore'' = 3"
    "qty (tw_db (srv_world race_server)) (Id 2) ''ore'' = 0"
    "balance_of (tw_db (srv_world race_server)) (Id 1) ''gold'' = 100"
    "balance_of (tw_db (srv_world race_server)) (Id 2) ''gold'' = 20"
    unfolding race_server_def by code_simp+
qed

text \<open>
  The session stays among the active trades until the transaction has returned, so the side that
  confirmed first can confirm again meanwhile and start a second execution of the same trade.
\<close>

definition twice_schedule :: "trade_event list" where
  "twice_schedule = sample_opening @ [Message (Id 102) (TradeOfferItem ''ore'' 1),
     Message (Id 101) TradeConfirm, Message (Id 102) TradeConfirm, Message (Id 101) TradeConfirm,
     Advance (Id 102), Advance (Id 101), Advance (Id 102), Advance (Id 102),
     Advance (Id 101), Advance (Id 101)]"

definition twice_server :: trade_server where
  "twice_server = the (run_schedule sample_store sample_parse twice_schedule (initial_server sample_db))"

lemma twice_run:
  "run_schedule sample_store sample_parse twice_schedule (initial_server sample_db) = Some twice_server"
proof -
  have "\<not> Option.is_none (run_schedule sample_store sample_parse twice_schedule (initial_server sample_db))"
    by code_simp
  then show ?thesis by (simp add: twice_server_def Option.is_none_def)
qed

text \<open>
  One agreed trade can be executed twice. In a reachable state after a single negotiation of
  ten gold against one ore, twenty gold and two ore have changed hands.
\<close>

theorem confirmed_trade_can_execute_twice:
  "trade_reachable sample_store sample_parse sample_db twice_server
   \<and> length (tw_heap (srv_world twice_server)) = 1
   \<and> qty (tw_db (srv_world twice_server)) (Id 1) ''ore'' = 2
   \<and> qty (tw_db (srv_world twice_server)) (Id 2) ''ore'' = 1
   \<and> balance_of (tw_db (srv_world twice_server)) (Id 1) ''gold'' = 80
   \<and> balance_of (tw_db (srv_world twice_server)) (Id 2) ''gold'' = 40"
proof (intro conjI)
  show "trade_reachable sample_store sample_parse sample_db twice_server"
    by (rule run_schedule_reachable [OF twice_run])
  show "length (tw_heap (srv_world twice_server)) = 1"
    "qty (tw_db (srv_world twice_server)) (Id 1) ''ore'' = 2"
    "qty (tw_db (srv_world twice_server)) (Id 2) ''ore'' = 1"
    "balance_of (tw_db (srv_world twice_server)) (Id 1) ''gold'' = 80"
    "balance_of (tw_db (srv_world twice_server)) (Id 2) ''gold'' = 40"
    unfolding twice_server_def by code_simp+
qed

end
