(* ===== verification/F64.thy ===== *)
theory F64
  imports Prelude RustText
begin

text \<open>
  Rust's \<^verbatim>\<open>f64\<close>: IEEE 754 binary64 with round-to-nearest, ties to even, written out over the
  integers so that every computation of the world simulation evaluates. A finite value is a sign, a
  significand and a binary exponent; zeros are signed; \<^verbatim>\<open>NaN\<close> is unordered, unequal to itself
  and contagious. \<open>round_to\<close> is the one rounding of the standard: every operation computes the
  exact result as a fraction and rounds it once.

  What the clients use of it is below the definitions: which operations can produce a \<^verbatim>\<open>NaN\<close>, and
  that the comparisons are total on everything else.
\<close>

section \<open>Values and rounding\<close>

datatype f64 = NaN | Inf bool | Fin (negative: bool) (significand: int) (exponent: int)

definition pow2 :: "int \<Rightarrow> int" where
  "pow2 k = 2 ^ nat k"

text \<open>The number of binary digits of a natural number given as an \<open>int\<close>.\<close>

function bit_count :: "int \<Rightarrow> int" where
  "bit_count n = (if n \<le> 0 then 0 else bit_count (n div 2) + 1)"
  by auto
termination by (relation "measure nat") auto

declare bit_count.simps [simp del]

text \<open>The nearest integer to \<open>n / d\<close>, ties to the even one.\<close>

definition round_half_even :: "int \<Rightarrow> int \<Rightarrow> int" where
  "round_half_even n d = (let q = n div d; r = n mod d in
     if d < 2 * r \<or> (2 * r = d \<and> q mod 2 = 1) then q + 1 else q)"

text \<open>\<open>num / den * 2 ^ x\<close> in units of \<open>2 ^ e\<close>, as a fraction.\<close>

definition scaled :: "int \<Rightarrow> int \<Rightarrow> int \<Rightarrow> int \<Rightarrow> int \<times> int" where
  "scaled num den x e = (if e \<le> x then (num * pow2 (x - e), den) else (num, den * pow2 (e - x)))"

text \<open>The exponent that leaves 53 significant digits, or the least one, and overflow to infinity.\<close>

definition round_exponent :: "int \<Rightarrow> int \<Rightarrow> int \<Rightarrow> int" where
  "round_exponent num den x =
     (let e = max (- 1074) (bit_count num - bit_count den + x - 53); t = scaled num den x e
      in if pow2 53 \<le> fst t div snd t then e + 1 else e)"

definition pack :: "bool \<Rightarrow> int \<Rightarrow> int \<Rightarrow> f64" where
  "pack s m e = (if 971 < e then Inf s else Fin s m e)"

text \<open>
  The binary64 nearest to \<open>num / den * 2 ^ x\<close> for \<open>0 \<le> num\<close> and \<open>0 < den\<close>, with the given sign. An
  integer below \<open>2 ^ 53\<close> at an exponent in range is a binary64 as it is; a value may so have more
  than one representation, and the code's comparisons are \<open>f_lt\<close> and \<open>f_le\<close>, never equality.
\<close>

definition round_to :: "bool \<Rightarrow> int \<Rightarrow> int \<Rightarrow> int \<Rightarrow> f64" where
  "round_to s num den x = (if num = 0 then Fin s 0 0
     else if den = 1 \<and> - 1074 \<le> x \<and> x \<le> 971 \<and> num < 9007199254740992 then Fin s num x
     else
       (let e = round_exponent num den x; u = scaled num den x e; m = round_half_even (fst u) (snd u)
        in if m = pow2 53 then pack s (pow2 52) (e + 1) else pack s m e))"

text \<open>A literal \<open>n / d\<close> of the source, and \<^verbatim>\<open>as f64\<close> of an integer.\<close>

definition f64_lit :: "int \<Rightarrow> int \<Rightarrow> f64" where
  "f64_lit n d = round_to (n < 0) \<bar>n\<bar> d 0"

definition f64_of_int :: "int \<Rightarrow> f64" where
  "f64_of_int n = f64_lit n 1"

definition is_nan :: "f64 \<Rightarrow> bool" where
  "is_nan x \<longleftrightarrow> x = NaN"

definition finite_f64 :: "f64 \<Rightarrow> bool" where
  "finite_f64 x \<longleftrightarrow> (case x of Fin _ _ _ \<Rightarrow> True | _ \<Rightarrow> False)"

section \<open>Arithmetic\<close>

fun sign_of :: "f64 \<Rightarrow> bool" where
  "sign_of NaN = False"
| "sign_of (Inf s) = s"
| "sign_of (Fin s m e) = s"

fun f_neg :: "f64 \<Rightarrow> f64" where
  "f_neg NaN = NaN"
| "f_neg (Inf s) = Inf (\<not> s)"
| "f_neg (Fin s m e) = Fin (\<not> s) m e"

fun f_abs :: "f64 \<Rightarrow> f64" where
  "f_abs NaN = NaN"
| "f_abs (Inf s) = Inf False"
| "f_abs (Fin s m e) = Fin False m e"

definition signed :: "bool \<Rightarrow> int \<Rightarrow> int" where
  "signed s m = (if s then - m else m)"

fun f_add :: "f64 \<Rightarrow> f64 \<Rightarrow> f64" where
  "f_add NaN y = NaN"
| "f_add (Inf s) NaN = NaN"
| "f_add (Inf s) (Inf t) = (if s = t then Inf s else NaN)"
| "f_add (Inf s) (Fin t n f) = Inf s"
| "f_add (Fin s m e) NaN = NaN"
| "f_add (Fin s m e) (Inf t) = Inf t"
| "f_add (Fin s m e) (Fin t n f) =
     (let x = min e f;
          v = signed s m * pow2 (e - x) + signed t n * pow2 (f - x)
      in if v = 0 then Fin (s \<and> t) 0 0 else round_to (v < 0) \<bar>v\<bar> 1 x)"

definition f_sub :: "f64 \<Rightarrow> f64 \<Rightarrow> f64" where
  "f_sub x y = f_add x (f_neg y)"

fun f_mul :: "f64 \<Rightarrow> f64 \<Rightarrow> f64" where
  "f_mul NaN y = NaN"
| "f_mul (Inf s) NaN = NaN"
| "f_mul (Inf s) (Inf t) = Inf (s \<noteq> t)"
| "f_mul (Inf s) (Fin t n f) = (if n = 0 then NaN else Inf (s \<noteq> t))"
| "f_mul (Fin s m e) NaN = NaN"
| "f_mul (Fin s m e) (Inf t) = (if m = 0 then NaN else Inf (s \<noteq> t))"
| "f_mul (Fin s m e) (Fin t n f) = round_to (s \<noteq> t) (m * n) 1 (e + f)"

fun f_div :: "f64 \<Rightarrow> f64 \<Rightarrow> f64" where
  "f_div NaN y = NaN"
| "f_div (Inf s) NaN = NaN"
| "f_div (Inf s) (Inf t) = NaN"
| "f_div (Inf s) (Fin t n f) = Inf (s \<noteq> t)"
| "f_div (Fin s m e) NaN = NaN"
| "f_div (Fin s m e) (Inf t) = Fin (s \<noteq> t) 0 0"
| "f_div (Fin s m e) (Fin t n f) =
     (if n = 0 then (if m = 0 then NaN else Inf (s \<noteq> t)) else round_to (s \<noteq> t) m n (e - f))"

text \<open>
  The integer square root, one binary digit at a time: \<open>r\<close> is the root of the digits read so far
  and \<open>k\<close> the number of digit pairs left.
\<close>

fun isqrt_digits :: "nat \<Rightarrow> int \<Rightarrow> int" where
  "isqrt_digits 0 n = 0"
| "isqrt_digits (Suc k) n =
     (let r = 2 * isqrt_digits k (n div 4) in if (r + 1) * (r + 1) \<le> n then r + 1 else r)"

definition isqrt :: "int \<Rightarrow> int" where
  "isqrt n = isqrt_digits (nat ((bit_count n + 1) div 2)) n"

text \<open>
  The significand is scaled to at least 110 bits with an even exponent, so that the integer root
  has a digit beyond the rounding position; a final odd digit records that the root was inexact.
\<close>

fun f_sqrt :: "f64 \<Rightarrow> f64" where
  "f_sqrt NaN = NaN"
| "f_sqrt (Inf s) = (if s then NaN else Inf False)"
| "f_sqrt (Fin s m e) =
     (if m = 0 then Fin s 0 e else if s then NaN else
       (let k = 110 + (e mod 2); n = m * pow2 k; r = isqrt n
        in round_to False (2 * r + (if r * r = n then 0 else 1)) 1 ((e - k) div 2 - 1)))"

section \<open>Comparisons and conversions\<close>

text \<open>The exact order of two finite values, in units of the smaller exponent.\<close>

definition fin_lt :: "bool \<Rightarrow> int \<Rightarrow> int \<Rightarrow> bool \<Rightarrow> int \<Rightarrow> int \<Rightarrow> bool" where
  "fin_lt s m e t n f = (let x = min e f in
     signed s m * pow2 (e - x) < signed t n * pow2 (f - x))"

fun f_lt :: "f64 \<Rightarrow> f64 \<Rightarrow> bool" where
  "f_lt NaN y = False"
| "f_lt (Inf s) NaN = False"
| "f_lt (Inf s) (Inf t) = (s \<and> \<not> t)"
| "f_lt (Inf s) (Fin t n f) = s"
| "f_lt (Fin s m e) NaN = False"
| "f_lt (Fin s m e) (Inf t) = (\<not> t)"
| "f_lt (Fin s m e) (Fin t n f) = fin_lt s m e t n f"

definition f_le :: "f64 \<Rightarrow> f64 \<Rightarrow> bool" where
  "f_le x y \<longleftrightarrow> \<not> is_nan x \<and> \<not> is_nan y \<and> \<not> f_lt y x"

definition f_gt :: "f64 \<Rightarrow> f64 \<Rightarrow> bool" where
  "f_gt x y \<longleftrightarrow> f_lt y x"

definition f_ge :: "f64 \<Rightarrow> f64 \<Rightarrow> bool" where
  "f_ge x y \<longleftrightarrow> f_le y x"

text \<open>\<^verbatim>\<open>f64::floor\<close>, and \<^verbatim>\<open>as i64\<close>, which truncates, saturates and sends \<^verbatim>\<open>NaN\<close> to \<open>0\<close>.\<close>

fun f_floor :: "f64 \<Rightarrow> f64" where
  "f_floor NaN = NaN"
| "f_floor (Inf s) = Inf s"
| "f_floor (Fin s m e) =
     (if 0 \<le> e then Fin s m e
      else (let v = signed s m div pow2 (- e) in
        if v = 0 then Fin s 0 0 else round_to (v < 0) \<bar>v\<bar> 1 0))"

definition clamp_i64 :: "int \<Rightarrow> i64" where
  "clamp_i64 v = max i64_min (min i64_max v)"

fun f_as_i64 :: "f64 \<Rightarrow> i64" where
  "f_as_i64 NaN = 0"
| "f_as_i64 (Inf s) = (if s then i64_min else i64_max)"
| "f_as_i64 (Fin s m e) =
     clamp_i64 (signed s (if 0 \<le> e then m * pow2 e else m div pow2 (- e)))"

text \<open>\<^verbatim>\<open>f64::min\<close> ignores a \<^verbatim>\<open>NaN\<close> operand; \<^verbatim>\<open>f64::clamp\<close> keeps one.\<close>

definition f_min :: "f64 \<Rightarrow> f64 \<Rightarrow> f64" where
  "f_min x y = (if is_nan x then y else if is_nan y then x else if f_lt y x then y else x)"

definition f_clamp :: "f64 \<Rightarrow> f64 \<Rightarrow> f64 \<Rightarrow> f64" where
  "f_clamp x lo hi = (if f_lt x lo then lo else if f_lt hi x then hi else x)"

definition f_zero :: f64 where
  "f_zero = Fin False 0 0"

definition f_one :: f64 where
  "f_one = Fin False 1 0"

section \<open>Reading a number\<close>

text \<open>
  \<^verbatim>\<open>f64::from_str\<close>: an optional sign, then \<^verbatim>\<open>inf\<close>, \<^verbatim>\<open>infinity\<close> or \<^verbatim>\<open>nan\<close> in any case, or decimal
  digits with an optional point and exponent, at least one digit before or after the point.
\<close>

definition take_sign :: "string \<Rightarrow> bool \<times> string" where
  "take_sign s = (case s of
     [] \<Rightarrow> (False, [])
   | c # cs \<Rightarrow> if c = CHR ''-'' then (True, cs) else if c = CHR ''+'' then (False, cs) else (False, s))"

definition parse_exponent :: "string \<Rightarrow> int option" where
  "parse_exponent s = (case s of
     [] \<Rightarrow> Some 0
   | c # cs \<Rightarrow>
       if c \<noteq> CHR ''e'' \<and> c \<noteq> CHR ''E'' then None
       else (let (neg, ds) = take_sign cs in
         if ds \<noteq> [] \<and> list_all is_ascii_digit ds then Some (signed neg (digits_value ds)) else None))"

definition decimal :: "bool \<Rightarrow> int \<Rightarrow> int \<Rightarrow> f64" where
  "decimal neg n x = (if 0 \<le> x then round_to neg (n * 10 ^ nat x) 1 0 else round_to neg n (10 ^ nat (- x)) 0)"

definition parse_f64 :: "string \<Rightarrow> f64 option" where
  "parse_f64 s = (let (neg, r) = take_sign s; l = map to_ascii_lowercase r in
     if l = ''nan'' then Some NaN
     else if l = ''inf'' \<or> l = ''infinity'' then Some (Inf neg)
     else (let whole = takeWhile is_ascii_digit r; r1 = dropWhile is_ascii_digit r;
               t = (case r1 of c # cs \<Rightarrow> if c = CHR ''.'' then Some cs else None | [] \<Rightarrow> None);
               frac = (case t of Some cs \<Rightarrow> takeWhile is_ascii_digit cs | None \<Rightarrow> []);
               r2 = (case t of Some cs \<Rightarrow> dropWhile is_ascii_digit cs | None \<Rightarrow> r1)
           in if whole = [] \<and> frac = [] then None
              else map_option (\<lambda>x. decimal neg (digits_value (whole @ frac)) (x - int (length frac)))
                     (parse_exponent r2)))"

section \<open>What rounding does\<close>

lemma bit_count_pos: "0 < n \<Longrightarrow> bit_count n = bit_count (n div 2) + 1"
  by (subst bit_count.simps) simp

lemma bit_count_nonpos [simp]: "n \<le> 0 \<Longrightarrow> bit_count n = 0"
  by (subst bit_count.simps) simp

lemma bit_count_nonneg [simp]: "0 \<le> bit_count n"
proof (induction n rule: bit_count.induct)
  case (1 n)
  then show ?case by (cases "n \<le> 0") (simp_all add: bit_count_pos)
qed

lemma bit_count_bound: "0 \<le> n \<Longrightarrow> n < 2 ^ nat (bit_count n)"
proof (induction n rule: bit_count.induct)
  case (1 n)
  show ?case
  proof (cases "n = 0")
    case False
    then have "0 < n" using 1 by simp
    then have "n div 2 < 2 ^ nat (bit_count (n div 2))" using 1 by simp
    then have "n < 2 * 2 ^ nat (bit_count (n div 2))" by linarith
    also have "\<dots> = 2 ^ nat (bit_count n)"
      using \<open>0 < n\<close> by (simp add: bit_count_pos nat_add_distrib)
    finally show ?thesis .
  qed simp
qed

text \<open>\<open>round_half_even\<close> is within half a unit of the fraction it rounds.\<close>

lemma round_half_even_nearest:
  assumes "0 < d"
  shows "2 * \<bar>round_half_even n d * d - n\<bar> \<le> d"
proof -
  have n: "n = n div d * d + n mod d" by simp
  have r: "0 \<le> n mod d" "n mod d < d" using assms by simp_all
  define q r where "q = n div d" and "r = n mod d"
  have "n = q * d + r" "0 \<le> r" "r < d" using n r by (simp_all add: q_def r_def)
  moreover have "round_half_even n d = (if d < 2 * r \<or> (2 * r = d \<and> q mod 2 = 1) then q + 1 else q)"
    by (simp add: round_half_even_def q_def r_def Let_def)
  ultimately show ?thesis by (simp add: algebra_simps abs_if)
qed

lemma round_half_even_exact: "0 < d \<Longrightarrow> round_half_even (q * d) d = q"
  by (simp add: round_half_even_def Let_def)

lemma isqrt_digits_correct:
  "0 \<le> n \<Longrightarrow> n < 4 ^ k \<Longrightarrow>
     0 \<le> isqrt_digits k n \<and> isqrt_digits k n * isqrt_digits k n \<le> n
     \<and> n < (isqrt_digits k n + 1) * (isqrt_digits k n + 1)"
proof (induction k n rule: isqrt_digits.induct)
  case (2 k n)
  define r where "r = isqrt_digits k (n div 4)"
  have "n div 4 < 4 ^ k" using 2 by simp
  then have r: "0 \<le> r" "r * r \<le> n div 4" "n div 4 < (r + 1) * (r + 1)"
    using 2 by (simp_all add: r_def)
  define q where "q = n div 4"
  have n: "n = 4 * q + n mod 4" "0 \<le> n mod 4" "n mod 4 < 4" by (simp_all add: q_def)
  have "(2 * r) * (2 * r) = 4 * (r * r)" "(2 * r + 2) * (2 * r + 2) = 4 * ((r + 1) * (r + 1))"
    by (simp_all add: algebra_simps)
  then have lo: "(2 * r) * (2 * r) \<le> n" and hi: "n < (2 * r + 2) * (2 * r + 2)"
    using r(2,3) n unfolding q_def [symmetric] by linarith+
  show ?case
    using r(1) lo hi by (simp add: r_def [symmetric] Let_def algebra_simps)
qed simp

text \<open>The integer square root is the largest integer whose square is not above its argument.\<close>

lemma isqrt_correct:
  assumes "0 \<le> n"
  shows "0 \<le> isqrt n \<and> isqrt n * isqrt n \<le> n \<and> n < (isqrt n + 1) * (isqrt n + 1)"
proof -
  define k where "k = nat ((bit_count n + 1) div 2)"
  have "nat (bit_count n) \<le> 2 * k" by (simp add: k_def)
  then have "(2::int) ^ nat (bit_count n) \<le> 2 ^ (2 * k)" by (rule power_increasing) simp
  also have "\<dots> = 4 ^ k" by (simp add: power_mult)
  finally have "n < 4 ^ k" using bit_count_bound [OF assms] by linarith
  then show ?thesis unfolding isqrt_def k_def [symmetric] by (rule isqrt_digits_correct [OF assms])
qed

section \<open>Not-a-number\<close>

text \<open>Rounding a fraction never gives a \<^verbatim>\<open>NaN\<close>, and it keeps the sign it is given.\<close>

lemma round_to_not_nan [simp]: "round_to s n d x \<noteq> NaN" "is_nan (round_to s n d x) = False"
  by (simp_all add: round_to_def pack_def is_nan_def Let_def)

lemma round_to_sign [simp]: "sign_of (round_to s n d x) = s"
  by (simp add: round_to_def pack_def Let_def)

lemma is_nan_simps [simp]: "is_nan NaN" "\<not> is_nan (Inf s)" "\<not> is_nan (Fin s m e)"
  by (simp_all add: is_nan_def)

lemma finite_simps [simp]: "\<not> finite_f64 NaN" "\<not> finite_f64 (Inf s)" "finite_f64 (Fin s m e)"
  by (simp_all add: finite_f64_def)

lemma finite_not_nan: "finite_f64 x \<Longrightarrow> \<not> is_nan x"
  by (cases x) simp_all

lemma nan_contagious [simp]:
  "f_add x NaN = NaN" "f_sub NaN x = NaN" "f_sub x NaN = NaN" "f_mul x NaN = NaN" "f_div x NaN = NaN"
  by (cases x; simp add: f_sub_def)+

lemma nan_unordered [simp]: "\<not> f_lt x NaN" "\<not> f_gt NaN x" "\<not> f_gt x NaN" "\<not> f_le NaN x" "\<not> f_le x NaN"
  by (cases x; simp add: f_gt_def f_le_def)+

text \<open>A difference, a square, a sum of non-negative values and a square root of one are numbers.\<close>

lemma f_neg_nan [simp]: "is_nan (f_neg x) = is_nan x"
  by (cases x) simp_all

lemma f_sub_number: "finite_f64 x \<Longrightarrow> \<not> is_nan y \<Longrightarrow> \<not> is_nan (f_sub x y)"
  by (cases x; cases y) (simp_all add: f_sub_def Let_def)

lemma f_square_number: "\<not> is_nan x \<Longrightarrow> \<not> is_nan (f_mul x x) \<and> \<not> sign_of (f_mul x x)"
  by (cases x) simp_all

lemma signed_nonneg: "\<not> s \<Longrightarrow> 0 \<le> m \<Longrightarrow> 0 \<le> signed s m * pow2 k"
  by (simp add: signed_def pow2_def)

text \<open>A significand is a natural number.\<close>

definition significand_ok :: "f64 \<Rightarrow> bool" where
  "significand_ok x \<longleftrightarrow> (case x of Fin _ m _ \<Rightarrow> 0 \<le> m | _ \<Rightarrow> True)"

lemma significand_ok_simps [simp]:
  "significand_ok NaN" "significand_ok (Inf s)" "significand_ok (Fin s m e) \<longleftrightarrow> 0 \<le> m"
  by (simp_all add: significand_ok_def)

lemma round_half_even_nonneg: "0 \<le> n \<Longrightarrow> 0 < d \<Longrightarrow> 0 \<le> round_half_even n d"
  by (auto simp: round_half_even_def Let_def pos_imp_zdiv_nonneg_iff)

lemma pow2_pos [simp]: "0 < pow2 k"
  by (simp add: pow2_def)

lemma scaled_nonneg: "0 \<le> num \<Longrightarrow> 0 < den \<Longrightarrow> 0 \<le> fst (scaled num den x e) \<and> 0 < snd (scaled num den x e)"
  by (simp add: scaled_def less_imp_le [OF pow2_pos])

lemma significand_ok_round:
  assumes "0 \<le> n" "0 < d"
  shows "significand_ok (round_to s n d x)"
proof -
  have "0 \<le> round_half_even (fst u) (snd u)" if "u = scaled n d x e" for u e
    using scaled_nonneg [OF assms] that by (simp add: round_half_even_nonneg)
  then show ?thesis using assms(1) by (simp add: round_to_def pack_def Let_def less_imp_le [OF pow2_pos])
qed

lemma f_add_nonneg:
  assumes "\<not> is_nan x" "\<not> sign_of x" "significand_ok x" "\<not> is_nan y" "\<not> sign_of y" "significand_ok y"
  shows "\<not> is_nan (f_add x y) \<and> \<not> sign_of (f_add x y) \<and> significand_ok (f_add x y)"
proof -
  consider (fin) s m e t n f where "x = Fin s m e" "y = Fin t n f" | (inf) "x = Inf False \<or> y = Inf False"
    using assms by (cases x; cases y) auto
  then show ?thesis
  proof cases
    case fin
    define k where "k = min e f"
    define v where "v = signed s m * pow2 (e - k) + signed t n * pow2 (f - k)"
    have "0 \<le> v" unfolding v_def using assms fin by (intro add_nonneg_nonneg signed_nonneg) simp_all
    have sum: "f_add x y = (if v = 0 then Fin (s \<and> t) 0 0 else round_to (v < 0) \<bar>v\<bar> 1 k)"
      by (simp add: fin v_def k_def Let_def)
    show ?thesis unfolding sum using assms fin \<open>0 \<le> v\<close> by (simp add: significand_ok_round)
  next
    case inf
    then show ?thesis using assms by (cases x; cases y) auto
  qed
qed

lemma f_square_significand: "significand_ok (f_mul x x)"
  by (cases x) (simp_all add: significand_ok_round)

lemma f_sqrt_number: "\<not> is_nan x \<Longrightarrow> \<not> sign_of x \<Longrightarrow> \<not> is_nan (f_sqrt x)"
  by (cases x) (simp_all add: Let_def)

text \<open>On numbers the order is total: what is not greater is at most.\<close>

lemma not_gt_le: "\<not> is_nan x \<Longrightarrow> \<not> is_nan y \<Longrightarrow> \<not> f_gt x y \<longleftrightarrow> f_le x y"
  by (simp add: f_gt_def f_le_def)

lemma f_le_refl: "\<not> is_nan x \<Longrightarrow> f_le x x"
  by (cases x) (simp_all add: f_le_def fin_lt_def Let_def)

end
