(* ===== verification/ContentManifest.thy ===== *)
theory ContentManifest
  imports F64 RustText Errors
begin

text \<open>
  \<^verbatim>\<open>crates/content/src/manifest.rs\<close>: the zone manifest and its validation, which collects every
  problem it finds. A problem is a constructor with the values its message shows. The YAML parser
  is an argument; a parsed number may be any \<^verbatim>\<open>f64\<close>, since YAML writes \<^verbatim>\<open>.nan\<close> and \<^verbatim>\<open>.inf\<close>.
\<close>

section \<open>The manifest\<close>

type_synonym point2 = "f64 \<times> f64"

record coordinate_system =
  cs_units :: string
  cs_origin :: point2

record bounds =
  bd_shape :: string
  bd_coordinate_system :: coordinate_system
  bd_points :: "point2 list"

record collision =
  co_asset_ref :: string
  co_format :: string

record link =
  ln_target_zone :: string
  ln_edge :: "point2 list"
  ln_bidirectional :: bool

record spawn_table =
  st_id :: string
  st_entity_type :: string
  st_points :: "point2 list"
  st_max_population :: u32
  st_respawn_seconds :: u32
  st_route_id :: "string option"

record route =
  rt_id :: string
  rt_waypoints :: "point2 list"
  rt_is_loop :: bool
  rt_speed :: f64

record trigger_shape =
  ts_shape_type :: string
  ts_center :: point2
  ts_radius :: f64

record trigger =
  tr_id :: string
  tr_shape :: trigger_shape
  tr_event :: string
  tr_one_shot :: bool

record zone_manifest =
  zm_schema_version :: u32
  zm_id :: string
  zm_display_name :: string
  zm_bounds :: bounds
  zm_collision :: collision
  zm_links :: "link list"
  zm_spawn_tables :: "spawn_table list"
  zm_routes :: "route list"
  zm_triggers :: "trigger list"

section \<open>Geometry\<close>

definition polygon_signed_area :: "point2 list \<Rightarrow> f64" where
  "polygon_signed_area points = (let n = length points in
     f_div (fold (\<lambda>i area.
       (let (x1, y1) = points ! i; (x2, y2) = points ! ((i + 1) mod n)
        in f_add area (f_sub (f_mul x1 y2) (f_mul x2 y1)))) [0..<n] f_zero) (f64_lit 2 1))"

text \<open>
  The ray casting test: an edge whose ends lie on different sides of the horizontal line through
  the point toggles \<open>inside\<close> when the point is left of the crossing. \<^verbatim>\<open>manifest.rs\<close> and
  \<^verbatim>\<open>movement.rs\<close> have the same text.
\<close>

fun edge_toggles :: "point2 \<Rightarrow> point2 \<Rightarrow> point2 \<Rightarrow> bool" where
  "edge_toggles (px, py) (xi, yi) (xj, yj) =
     (let crosses = (f_gt yi py \<noteq> f_gt yj py) in
      if crosses then
        (let x_intersect = f_add xj (f_mul (f_div (f_sub py yj) (f_sub yi yj)) (f_sub xi xj))
         in f_lt px x_intersect)
      else False)"

definition point_in_polygon :: "point2 \<Rightarrow> point2 list \<Rightarrow> bool" where
  "point_in_polygon p polygon = (let n = length polygon in
     fold (\<lambda>i inside. if edge_toggles p (polygon ! i) (polygon ! ((i + n - 1) mod n))
       then \<not> inside else inside) [0..<n] False)"

fun distance_point_to_segment :: "point2 \<Rightarrow> point2 \<Rightarrow> point2 \<Rightarrow> f64" where
  "distance_point_to_segment (px, py) (ax, ay) (bx, by1) =
     (let dx = f_sub bx ax; dy = f_sub by1 ay;
          len_sq = f_add (f_mul dx dx) (f_mul dy dy);
          t = (if f_gt len_sq f_zero
               then f_clamp (f_div (f_add (f_mul (f_sub px ax) dx) (f_mul (f_sub py ay) dy)) len_sq)
                 f_zero f_one
               else f_zero);
          cx = f_add ax (f_mul t dx); cy = f_add ay (f_mul t dy);
          ex = f_sub px cx; ey = f_sub py cy
      in f_sqrt (f_add (f_mul ex ex) (f_mul ey ey)))"

definition distance_to_polygon_boundary :: "point2 \<Rightarrow> point2 list \<Rightarrow> f64" where
  "distance_to_polygon_boundary point polygon = (let n = length polygon in
     fold (\<lambda>i d. f_min d (distance_point_to_segment point (polygon ! i) (polygon ! ((i + 1) mod n))))
       [0..<n] (Inf False))"

section \<open>Validation\<close>

datatype manifest_problem =
    UnsupportedVersion u32
  | IdEmpty
  | DisplayNameEmpty
  | UnsupportedShape string
  | UnsupportedUnits string
  | BoundsTooFewPoints nat
  | BoundsDegenerate
  | AssetRefInvalid string
  | UnsupportedCollisionFormat string
  | LinkEdgeSize nat nat
  | LinkEdgeOffBoundary nat nat point2 f64
  | RouteIdsNotUnique
  | RouteTooShort nat nat
  | RouteSpeedNotPositive nat f64
  | SpawnTableIdsNotUnique
  | SpawnTableEmpty nat
  | SpawnPointOutside nat nat point2
  | SpawnRouteUnknown nat string
  | TriggerIdsNotUnique
  | TriggerShapeUnsupported nat string
  | TriggerRadiusNotPositive nat f64
  | TriggerCenterOutside nat point2

definition supported_schema_version :: u32 where
  "supported_schema_version = 1"

definition link_edge_boundary_tolerance_meters :: f64 where
  "link_edge_boundary_tolerance_meters = f64_lit 1 1"

definition degenerate_polygon_area_epsilon :: f64 where
  "degenerate_polygon_area_epsilon = f64_lit 1 1000000"

definition is_valid_asset_ref :: "string \<Rightarrow> bool" where
  "is_valid_asset_ref value = (case strip_prefix ''sha256:'' value of
     Some hex \<Rightarrow> length hex = 64 \<and> list_all (\<lambda>c. is_ascii_hexdigit c \<and> \<not> is_ascii_uppercase c) hex
   | None \<Rightarrow> False)"

definition report_if :: "bool \<Rightarrow> 'p \<Rightarrow> 'p list" where
  "report_if c p = (if c then [p] else [])"

text \<open>\<^verbatim>\<open>for (i, x) in xs.iter().enumerate()\<close>, collecting what each round pushes.\<close>

fun each_from :: "nat \<Rightarrow> (nat \<Rightarrow> 'a \<Rightarrow> 'p list) \<Rightarrow> 'a list \<Rightarrow> 'p list" where
  "each_from i f [] = []"
| "each_from i f (x # xs) = f i x @ each_from (Suc i) f xs"

definition each :: "(nat \<Rightarrow> 'a \<Rightarrow> 'p list) \<Rightarrow> 'a list \<Rightarrow> 'p list" where
  "each f xs = each_from 0 f xs"

definition bounds_are_usable :: "bounds \<Rightarrow> bool" where
  "bounds_are_usable b \<longleftrightarrow> 3 \<le> length (bd_points b)
     \<and> f_ge (f_abs (polygon_signed_area (bd_points b))) degenerate_polygon_area_epsilon"

definition bounds_problems :: "bounds \<Rightarrow> manifest_problem list" where
  "bounds_problems b =
     report_if (bd_shape b \<noteq> ''polygon'') (UnsupportedShape (bd_shape b))
     @ report_if (cs_units (bd_coordinate_system b) \<noteq> ''meters'')
         (UnsupportedUnits (cs_units (bd_coordinate_system b)))
     @ (if length (bd_points b) < 3 then [BoundsTooFewPoints (length (bd_points b))]
        else report_if (f_lt (f_abs (polygon_signed_area (bd_points b))) degenerate_polygon_area_epsilon)
          BoundsDegenerate)"

definition link_problems :: "bounds \<Rightarrow> nat \<Rightarrow> link \<Rightarrow> manifest_problem list" where
  "link_problems b i l =
     (if length (ln_edge l) \<noteq> 2 then [LinkEdgeSize i (length (ln_edge l))]
      else if bounds_are_usable b then
        each (\<lambda>j p. (let d = distance_to_polygon_boundary p (bd_points b) in
          report_if (f_gt d link_edge_boundary_tolerance_meters) (LinkEdgeOffBoundary i j p d))) (ln_edge l)
      else [])"

definition route_problems :: "nat \<Rightarrow> route \<Rightarrow> manifest_problem list" where
  "route_problems i r =
     report_if (length (rt_waypoints r) < 2) (RouteTooShort i (length (rt_waypoints r)))
     @ report_if (f_le (rt_speed r) f_zero) (RouteSpeedNotPositive i (rt_speed r))"

definition spawn_table_problems ::
  "bounds \<Rightarrow> string list \<Rightarrow> nat \<Rightarrow> spawn_table \<Rightarrow> manifest_problem list" where
  "spawn_table_problems b route_ids i s =
     (if st_points s = [] then [SpawnTableEmpty i]
      else if bounds_are_usable b then
        each (\<lambda>j p. report_if (\<not> point_in_polygon p (bd_points b)) (SpawnPointOutside i j p)) (st_points s)
      else [])
     @ (case st_route_id s of None \<Rightarrow> []
        | Some r \<Rightarrow> report_if (r \<notin> set route_ids) (SpawnRouteUnknown i r))"

definition trigger_problems :: "bounds \<Rightarrow> nat \<Rightarrow> trigger \<Rightarrow> manifest_problem list" where
  "trigger_problems b i t = (let s = tr_shape t in
     report_if (ts_shape_type s \<noteq> ''circle'') (TriggerShapeUnsupported i (ts_shape_type s))
     @ report_if (f_le (ts_radius s) f_zero) (TriggerRadiusNotPositive i (ts_radius s))
     @ report_if (bounds_are_usable b \<and> \<not> point_in_polygon (ts_center s) (bd_points b))
         (TriggerCenterOutside i (ts_center s)))"

definition validate_manifest :: "zone_manifest \<Rightarrow> manifest_problem list" where
  "validate_manifest m =
     (if zm_schema_version m \<noteq> supported_schema_version
      then [UnsupportedVersion (zm_schema_version m)]
      else report_if (blank (zm_id m)) IdEmpty
        @ report_if (blank (zm_display_name m)) DisplayNameEmpty
        @ bounds_problems (zm_bounds m)
        @ report_if (\<not> is_valid_asset_ref (co_asset_ref (zm_collision m)))
            (AssetRefInvalid (co_asset_ref (zm_collision m)))
        @ report_if (co_format (zm_collision m) \<noteq> ''navmesh_v1'')
            (UnsupportedCollisionFormat (co_format (zm_collision m)))
        @ each (link_problems (zm_bounds m)) (zm_links m)
        @ report_if (\<not> distinct (List.map rt_id (zm_routes m))) RouteIdsNotUnique
        @ each route_problems (zm_routes m)
        @ report_if (\<not> distinct (List.map st_id (zm_spawn_tables m))) SpawnTableIdsNotUnique
        @ each (spawn_table_problems (zm_bounds m) (List.map rt_id (zm_routes m))) (zm_spawn_tables m)
        @ report_if (\<not> distinct (List.map tr_id (zm_triggers m))) TriggerIdsNotUnique
        @ each (trigger_problems (zm_bounds m)) (zm_triggers m))"

datatype content_error =
    ContentParse
  | ContentRead string
  | ManifestProblems "manifest_problem list"
  | NavmeshFormat string
  | NavmeshNoPolygons
  | NavmeshTooFewVertices nat nat
  | PackVersion u32
  | PackProblems "pack_problem list"
  | AssetRefMalformed string
  | AssetNotFound string
  | AssetDigestMismatch string string
  | AssetNotUtf8 string
and pack_problem =
    EntryIdMismatch string string string
  | EntryFailed string content_error
  | TargetZoneUnknown string string

definition manifest_from_yaml ::
  "(string \<Rightarrow> zone_manifest option) \<Rightarrow> string \<Rightarrow> content_error + zone_manifest" where
  "manifest_from_yaml parse input =
     try_then (ok_or_else (parse input) ContentParse) (\<lambda>m.
     (let problems = validate_manifest m in
      if problems \<noteq> [] then Inl (ManifestProblems problems) else Inr m))"

section \<open>What a valid manifest satisfies\<close>

lemma report_if_Nil [simp]: "report_if c p = [] \<longleftrightarrow> \<not> c"
  by (simp add: report_if_def)

definition on_boundary :: "bounds \<Rightarrow> point2 \<Rightarrow> bool" where
  "on_boundary b p \<longleftrightarrow>
     \<not> f_gt (distance_to_polygon_boundary p (bd_points b)) link_edge_boundary_tolerance_meters"

text \<open>The specification of a sound manifest.\<close>

definition manifest_ok :: "zone_manifest \<Rightarrow> bool" where
  "manifest_ok m \<longleftrightarrow> (let b = zm_bounds m in
     zm_schema_version m = 1 \<and> \<not> blank (zm_id m) \<and> \<not> blank (zm_display_name m)
     \<and> bd_shape b = ''polygon'' \<and> cs_units (bd_coordinate_system b) = ''meters''
     \<and> 3 \<le> length (bd_points b)
     \<and> \<not> f_lt (f_abs (polygon_signed_area (bd_points b))) degenerate_polygon_area_epsilon
     \<and> is_valid_asset_ref (co_asset_ref (zm_collision m)) \<and> co_format (zm_collision m) = ''navmesh_v1''
     \<and> (\<forall>l \<in> set (zm_links m). length (ln_edge l) = 2
          \<and> (bounds_are_usable b \<longrightarrow> (\<forall>p \<in> set (ln_edge l). on_boundary b p)))
     \<and> distinct (List.map rt_id (zm_routes m))
     \<and> (\<forall>r \<in> set (zm_routes m). 2 \<le> length (rt_waypoints r) \<and> \<not> f_le (rt_speed r) f_zero)
     \<and> distinct (List.map st_id (zm_spawn_tables m))
     \<and> (\<forall>s \<in> set (zm_spawn_tables m). st_points s \<noteq> []
          \<and> (bounds_are_usable b \<longrightarrow> (\<forall>p \<in> set (st_points s). point_in_polygon p (bd_points b)))
          \<and> (\<forall>r. st_route_id s = Some r \<longrightarrow> r \<in> rt_id ` set (zm_routes m)))
     \<and> distinct (List.map tr_id (zm_triggers m))
     \<and> (\<forall>t \<in> set (zm_triggers m). ts_shape_type (tr_shape t) = ''circle''
          \<and> \<not> f_le (ts_radius (tr_shape t)) f_zero
          \<and> (bounds_are_usable b \<longrightarrow> point_in_polygon (ts_center (tr_shape t)) (bd_points b))))"

lemma each_from_Nil_set:
  "(\<And>i x. f i x = [] \<longleftrightarrow> P x) \<Longrightarrow> each_from i f xs = [] \<longleftrightarrow> (\<forall>x \<in> set xs. P x)"
  by (induction i f xs rule: each_from.induct) auto

lemma each_Nil_set: "(\<And>i x. f i x = [] \<longleftrightarrow> P x) \<Longrightarrow> each f xs = [] \<longleftrightarrow> (\<forall>x \<in> set xs. P x)"
  by (simp add: each_def each_from_Nil_set)

lemma link_problems_Nil:
  "link_problems b i l = [] \<longleftrightarrow> length (ln_edge l) = 2
     \<and> (bounds_are_usable b \<longrightarrow> (\<forall>p \<in> set (ln_edge l). on_boundary b p))"
  by (auto simp: link_problems_def on_boundary_def Let_def each_Nil_set [where P = "on_boundary b"])

lemma route_problems_Nil:
  "route_problems i r = [] \<longleftrightarrow> 2 \<le> length (rt_waypoints r) \<and> \<not> f_le (rt_speed r) f_zero"
  by (auto simp: route_problems_def)

lemma spawn_table_problems_Nil:
  "spawn_table_problems b ids i s = [] \<longleftrightarrow> st_points s \<noteq> []
     \<and> (bounds_are_usable b \<longrightarrow> (\<forall>p \<in> set (st_points s). point_in_polygon p (bd_points b)))
     \<and> (\<forall>r. st_route_id s = Some r \<longrightarrow> r \<in> set ids)"
  by (auto simp: spawn_table_problems_def each_Nil_set [where P = "\<lambda>p. point_in_polygon p (bd_points b)"]
      split: option.splits)

lemma trigger_problems_Nil:
  "trigger_problems b i t = [] \<longleftrightarrow> ts_shape_type (tr_shape t) = ''circle''
     \<and> \<not> f_le (ts_radius (tr_shape t)) f_zero
     \<and> (bounds_are_usable b \<longrightarrow> point_in_polygon (ts_center (tr_shape t)) (bd_points b))"
  by (auto simp: trigger_problems_def Let_def)

lemma validate_manifest_Nil: "validate_manifest m = [] \<longleftrightarrow> manifest_ok m"
  unfolding validate_manifest_def manifest_ok_def Let_def bounds_problems_def supported_schema_version_def
  by (auto simp: each_Nil_set [OF link_problems_Nil] each_Nil_set [OF route_problems_Nil]
      each_Nil_set [OF spawn_table_problems_Nil] each_Nil_set [OF trigger_problems_Nil])

section \<open>A small manifest\<close>

abbreviation fnum :: "int \<Rightarrow> f64" where
  "fnum n \<equiv> f64_lit n 1"

definition sample_square :: "point2 list" where
  "sample_square = [(fnum 0, fnum 0), (fnum 100, fnum 0), (fnum 100, fnum 100), (fnum 0, fnum 100)]"

definition sample_manifest :: zone_manifest where
  "sample_manifest = \<lparr>zm_schema_version = 1, zm_id = ''forest'', zm_display_name = ''Forest'',
     zm_bounds = \<lparr>bd_shape = ''polygon'',
       bd_coordinate_system = \<lparr>cs_units = ''meters'', cs_origin = (fnum 0, fnum 0)\<rparr>,
       bd_points = sample_square\<rparr>,
     zm_collision = \<lparr>co_asset_ref = ''sha256:'' @ replicate 64 (CHR ''0''), co_format = ''navmesh_v1''\<rparr>,
     zm_links = [\<lparr>ln_target_zone = ''village'', ln_edge = [(fnum 100, fnum 40), (fnum 100, fnum 60)],
       ln_bidirectional = True\<rparr>],
     zm_spawn_tables = [], zm_routes = [], zm_triggers = []\<rparr>"

lemma sample_manifest_ok: "manifest_ok sample_manifest"
proof -
  have "list_all (\<lambda>_. False) (validate_manifest sample_manifest)" by code_simp
  then show ?thesis unfolding validate_manifest_Nil [symmetric] by (cases "validate_manifest sample_manifest") auto
qed

end
