(* ===== verification/Navmesh.thy ===== *)
theory Navmesh
  imports ContentManifest "HOL-Library.Word"
begin

text \<open>
  \<^verbatim>\<open>crates/content/src/assets.rs\<close> and \<^verbatim>\<open>navmesh.rs\<close>: the content-addressed asset store and the
  walkable polygons it serves. The directory is a function from file names to bytes, the SHA-256
  digest (package \<^verbatim>\<open>sha2\<close>) and the JSON parser are arguments; a text is its UTF-8 bytes.
\<close>

section \<open>The asset store\<close>

type_synonym byte = "8 word"
type_synonym asset_dir = "string \<Rightarrow> byte list option"

definition hex_digit :: "nat \<Rightarrow> char" where
  "hex_digit n = char_of (if n < 10 then 48 + n else 87 + n)"

text \<open>\<^verbatim>\<open>to_hex\<close>: two lowercase digits per byte.\<close>

definition to_hex :: "byte list \<Rightarrow> string" where
  "to_hex bytes = concat (List.map (\<lambda>b. [hex_digit (unat b div 16), hex_digit (unat b mod 16)]) bytes)"

definition resolve_asset ::
  "(byte list \<Rightarrow> byte list) \<Rightarrow> asset_dir \<Rightarrow> string \<Rightarrow> content_error + byte list" where
  "resolve_asset sha256 dir asset_ref =
     try_then (ensure (is_valid_asset_ref asset_ref) (AssetRefMalformed asset_ref)) (\<lambda>_.
     (let hash = the (strip_prefix ''sha256:'' asset_ref) in
      try_then (ok_or_else (dir hash) (AssetNotFound asset_ref)) (\<lambda>bytes.
      (let actual = to_hex (sha256 bytes) in
       try_then (ensure (actual = hash) (AssetDigestMismatch asset_ref actual)) (\<lambda>_.
       Inr bytes)))))"

text \<open>\<^verbatim>\<open>path_for\<close>: the file name below the store's directory; the reference is not validated.\<close>

definition asset_path_for :: "string \<Rightarrow> string option" where
  "asset_path_for asset_ref = strip_prefix ''sha256:'' asset_ref"

section \<open>UTF-8\<close>

definition utf8_tail :: "byte \<Rightarrow> bool" where
  "utf8_tail b \<longleftrightarrow> 0x80 \<le> b \<and> b \<le> 0xBF"

text \<open>\<^verbatim>\<open>String::from_utf8\<close>: the well-formed byte sequences of the Unicode standard (table 3-7).\<close>

fun utf8_valid :: "byte list \<Rightarrow> bool" where
  "utf8_valid [] = True"
| "utf8_valid (a # bs) =
     (if a \<le> 0x7F then utf8_valid bs
      else if 0xC2 \<le> a \<and> a \<le> 0xDF then
        (case bs of b # cs \<Rightarrow> utf8_tail b \<and> utf8_valid cs | _ \<Rightarrow> False)
      else if 0xE0 \<le> a \<and> a \<le> 0xEF then
        (case bs of b # c # cs \<Rightarrow>
           (if a = 0xE0 then 0xA0 else 0x80) \<le> b \<and> b \<le> (if a = 0xED then 0x9F else 0xBF)
           \<and> utf8_tail c \<and> utf8_valid cs
         | _ \<Rightarrow> False)
      else if 0xF0 \<le> a \<and> a \<le> 0xF4 then
        (case bs of b # c # d # cs \<Rightarrow>
           (if a = 0xF0 then 0x90 else 0x80) \<le> b \<and> b \<le> (if a = 0xF4 then 0x8F else 0xBF)
           \<and> utf8_tail c \<and> utf8_tail d \<and> utf8_valid cs
         | _ \<Rightarrow> False)
      else False)"

section \<open>Polygons\<close>

type_synonym point3 = "f64 \<times> f64 \<times> f64"

record raw_polygon =
  rp_vertices :: "point3 list"

record raw_navmesh =
  rn_format :: string
  rn_polygons :: "raw_polygon list"

record polygon =
  pg_vertices :: "point3 list"

record navmesh =
  nm_polygons :: "polygon list"

definition supported_format :: string where
  "supported_format = ''navmesh_v1''"

definition height_tolerance_meters :: f64 where
  "height_tolerance_meters = f64_lit 1 2"

definition vertical_normal_epsilon :: f64 where
  "vertical_normal_epsilon = f64_lit 1 1000000000"

definition footprint :: "point3 \<Rightarrow> point2" where
  "footprint p = (case p of (x, y, z) \<Rightarrow> (x, y))"

definition point_in_polygon_2d :: "point2 \<Rightarrow> point3 list \<Rightarrow> bool" where
  "point_in_polygon_2d p vertices = (let (px, py) = p; n = length vertices in
     fold (\<lambda>i inside.
       (let (xi, yi, _) = vertices ! i; (xj, yj, _) = vertices ! ((i + n - 1) mod n);
            crosses = (f_gt yi py \<noteq> f_gt yj py)
        in if crosses then
             (let x_intersect = f_add xj (f_mul (f_div (f_sub py yj) (f_sub yi yj)) (f_sub xi xj))
              in if f_lt px x_intersect then \<not> inside else inside)
           else inside)) [0..<n] False)"

text \<open>Newell's method: the unnormalised normal of a polygon that may not be quite planar.\<close>

definition polygon_normal :: "polygon \<Rightarrow> point3" where
  "polygon_normal pg = (let vs = pg_vertices pg; count = length vs in
     fold (\<lambda>i n.
       (let (x0, y0, z0) = vs ! i; (x1, y1, z1) = vs ! ((i + 1) mod count); (nx, ny, nz) = n
        in (f_add nx (f_mul (f_sub y0 y1) (f_add z0 z1)),
            f_add ny (f_mul (f_sub z0 z1) (f_add x0 x1)),
            f_add nz (f_mul (f_sub x0 x1) (f_add y0 y1)))))
       [0..<count] (f_zero, f_zero, f_zero))"

definition polygon_contains :: "polygon \<Rightarrow> point3 \<Rightarrow> bool" where
  "polygon_contains pg point = (let (px, py, pz) = point in
     if \<not> point_in_polygon_2d (px, py) (pg_vertices pg) then False
     else (let (nx, ny, nz) = polygon_normal pg in
       if f_lt (f_abs nz) vertical_normal_epsilon then False
       else (let (x0, y0, z0) = pg_vertices pg ! 0;
                 expected_z = f_sub z0
                   (f_div (f_add (f_mul nx (f_sub px x0)) (f_mul ny (f_sub py y0))) nz)
             in f_le (f_abs (f_sub pz expected_z)) height_tolerance_meters)))"

definition containing_polygon :: "navmesh \<Rightarrow> point3 \<Rightarrow> polygon option" where
  "containing_polygon nm point = List.find (\<lambda>p. polygon_contains p point) (nm_polygons nm)"

definition navmesh_contains :: "navmesh \<Rightarrow> point3 \<Rightarrow> bool" where
  "navmesh_contains nm point = (containing_polygon nm point \<noteq> None)"

section \<open>Loading\<close>

text \<open>The loop over the polygons leaves at the first one with fewer than three vertices.\<close>

fun check_vertices :: "nat \<Rightarrow> raw_polygon list \<Rightarrow> content_error + unit" where
  "check_vertices i [] = Inr ()"
| "check_vertices i (p # ps) =
     try_then (ensure (3 \<le> length (rp_vertices p)) (NavmeshTooFewVertices i (length (rp_vertices p))))
       (\<lambda>_. check_vertices (Suc i) ps)"

definition navmesh_from_json ::
  "(byte list \<Rightarrow> raw_navmesh option) \<Rightarrow> byte list \<Rightarrow> content_error + navmesh" where
  "navmesh_from_json parse input =
     try_then (ok_or_else (parse input) ContentParse) (\<lambda>raw.
     try_then (ensure (rn_format raw = supported_format) (NavmeshFormat (rn_format raw))) (\<lambda>_.
     try_then (ensure (rn_polygons raw \<noteq> []) NavmeshNoPolygons) (\<lambda>_.
     try_then (check_vertices 0 (rn_polygons raw)) (\<lambda>_.
     Inr \<lparr>nm_polygons = List.map (\<lambda>p. \<lparr>pg_vertices = rp_vertices p\<rparr>) (rn_polygons raw)\<rparr>))))"

definition navmesh_from_asset_store ::
  "(byte list \<Rightarrow> raw_navmesh option) \<Rightarrow> (byte list \<Rightarrow> byte list) \<Rightarrow> asset_dir \<Rightarrow> string
     \<Rightarrow> content_error + navmesh" where
  "navmesh_from_asset_store parse sha256 dir asset_ref =
     try_then (resolve_asset sha256 dir asset_ref) (\<lambda>bytes.
     try_then (ensure (utf8_valid bytes) (AssetNotUtf8 asset_ref)) (\<lambda>_.
     navmesh_from_json parse bytes))"

section \<open>Properties\<close>

text \<open>The third copy of the ray casting test is the manifest's one on the projected vertices.\<close>

lemma point_in_polygon_2d_footprint:
  "point_in_polygon_2d p vs = point_in_polygon p (List.map footprint vs)"
proof -
  obtain px py where p: "p = (px, py)" by (cases p)
  define n where "n = length vs"
  have step: "(let (xi, yi, _) = v; (xj, yj, _) = w; crosses = (f_gt yi py \<noteq> f_gt yj py)
        in if crosses then
             (let x_intersect = f_add xj (f_mul (f_div (f_sub py yj) (f_sub yi yj)) (f_sub xi xj))
              in if f_lt px x_intersect then \<not> inside else inside)
           else inside) = (if edge_toggles p (footprint v) (footprint w) then \<not> inside else inside)"
    for v w :: point3 and inside
    by (cases v; cases w) (simp add: footprint_def p)
  have at: "List.map footprint vs ! i = footprint (vs ! i)"
    "List.map footprint vs ! ((i + n - 1) mod n) = footprint (vs ! ((i + n - 1) mod n))" if "i < n" for i
  proof -
    have "(i + n - 1) mod n < n" using that by (intro mod_less_divisor) linarith
    then show "List.map footprint vs ! i = footprint (vs ! i)"
      "List.map footprint vs ! ((i + n - 1) mod n) = footprint (vs ! ((i + n - 1) mod n))"
      using that by (simp_all add: n_def)
  qed
  have "point_in_polygon_2d p vs =
      fold (\<lambda>i inside. if edge_toggles p (footprint (vs ! i)) (footprint (vs ! ((i + n - 1) mod n)))
        then \<not> inside else inside) [0..<n] False"
    unfolding point_in_polygon_2d_def p Let_def [of n] prod.case n_def [symmetric]
    by (simp only: Let_def [of "length vs"] Let_def [of "(px, py)"] prod.case n_def [symmetric] step [unfolded p])
  also have "\<dots> = fold (\<lambda>i inside. if edge_toggles p (List.map footprint vs ! i)
        (List.map footprint vs ! ((i + n - 1) mod n)) then \<not> inside else inside) [0..<n] False"
    by (rule List.fold_cong) (auto simp: at)
  finally show ?thesis by (simp add: point_in_polygon_def Let_def n_def)
qed

lemma navmesh_contains_iff:
  "navmesh_contains nm p \<longleftrightarrow> (\<exists>pg \<in> set (nm_polygons nm). polygon_contains pg p)"
  by (auto simp: navmesh_contains_def containing_polygon_def find_None_iff)

lemma check_vertices_ok:
  "check_vertices i ps = Inr u \<longleftrightarrow> (\<forall>p \<in> set ps. 3 \<le> length (rp_vertices p))"
  by (induction i ps rule: check_vertices.induct) auto

text \<open>A digest that does not match, a missing file and a malformed reference are never served.\<close>

lemma resolve_asset_Inr:
  "resolve_asset sha256 dir r = Inr bytes \<longleftrightarrow>
     is_valid_asset_ref r \<and> (\<exists>hash. r = ''sha256:'' @ hash \<and> dir hash = Some bytes \<and> to_hex (sha256 bytes) = hash)"
  by (auto simp: resolve_asset_def is_valid_asset_ref_def Let_def strip_prefix_Some split: option.splits)

lemma navmesh_from_json_Inr:
  "navmesh_from_json parse input = Inr nm \<longleftrightarrow>
     (\<exists>raw. parse input = Some raw \<and> rn_format raw = ''navmesh_v1'' \<and> rn_polygons raw \<noteq> []
        \<and> (\<forall>p \<in> set (rn_polygons raw). 3 \<le> length (rp_vertices p))
        \<and> nm = \<lparr>nm_polygons = List.map (\<lambda>p. \<lparr>pg_vertices = rp_vertices p\<rparr>) (rn_polygons raw)\<rparr>)"
  by (auto simp: navmesh_from_json_def supported_format_def check_vertices_ok)

text \<open>A walkable point is one whose coordinates are all numbers.\<close>

lemma edge_toggles_nan [simp]: "\<not> edge_toggles (x, NaN) a b" "\<not> edge_toggles (NaN, y) a b"
  by (cases a; cases b; simp)+

lemma fold_keep: "fold (\<lambda>i b. b) xs b = b"
  by (induction xs) simp_all

lemma polygon_test_nan [simp]: "\<not> point_in_polygon (x, NaN) vs" "\<not> point_in_polygon (NaN, y) vs"
  by (simp_all add: point_in_polygon_def Let_def fold_keep)

definition number3 :: "point3 \<Rightarrow> bool" where
  "number3 p = (case p of (x, y, z) \<Rightarrow> \<not> is_nan x \<and> \<not> is_nan y \<and> \<not> is_nan z)"

lemma walkable_number:
  assumes "navmesh_contains nm p"
  shows "number3 p"
proof (rule ccontr)
  obtain x y z where p: "p = (x, y, z)" by (cases p)
  assume "\<not> number3 p"
  then consider "x = NaN" | "y = NaN" | "z = NaN" by (auto simp: number3_def p is_nan_def)
  then have "\<not> polygon_contains pg p" for pg
    by cases (simp_all add: polygon_contains_def p point_in_polygon_2d_footprint split: prod.split)
  then show False using assms by (auto simp: navmesh_contains_iff)
qed

end
