(* ===== verification/Spatial.thy ===== *)
theory Spatial
  imports Navmesh Ids Tables
begin

text \<open>
  \<^verbatim>\<open>crates/world/src/spatial.rs\<close>: the spatial index and its uniform grid. The trait
  \<^verbatim>\<open>SpatialIndex\<close> is the locale \<open>spatial_index\<close>: what its five methods promise a zone, whatever
  the index keeps inside. Its client lemma follows any sequence of operations through the abstract
  map from entities to positions. The grid is interpreted below: the buckets and the positions
  agree after every operation, and a range query returns exactly the entities it should.

  A \<^verbatim>\<open>HashMap\<close> is a table (an association list) whose order stands for the iteration order.
\<close>

section \<open>Distance\<close>

definition distance :: "point3 \<Rightarrow> point3 \<Rightarrow> f64" where
  "distance a b = (let (ax, ay, az) = a; (bx, by1, bz) = b;
       dx = f_sub ax bx; dy = f_sub ay by1; dz = f_sub az bz
     in f_sqrt (f_add (f_add (f_mul dx dx) (f_mul dy dy)) (f_mul dz dz)))"

definition finite3 :: "point3 \<Rightarrow> bool" where
  "finite3 p = (case p of (x, y, z) \<Rightarrow> finite_f64 x \<and> finite_f64 y \<and> finite_f64 z)"

text \<open>From a finite point the distance to a point of numbers is a number.\<close>

lemma distance_number:
  assumes "finite3 a" "number3 b"
  shows "\<not> is_nan (distance a b)"
proof -
  obtain ax ay az bx by1 bz where ab: "a = (ax, ay, az)" "b = (bx, by1, bz)" by (cases a; cases b)
  define sq where "sq d = f_mul d d" for d
  define good where "good v \<longleftrightarrow> \<not> is_nan v \<and> \<not> sign_of v \<and> significand_ok v" for v
  have sq: "good (sq (f_sub u v))" if "finite_f64 u" "\<not> is_nan v" for u v
    using f_square_number [OF f_sub_number [OF that]]
    by (simp add: good_def sq_def f_square_significand)
  have add: "good (f_add u v)" if "good u" "good v" for u v
    using that f_add_nonneg unfolding good_def by blast
  have "good (f_add (f_add (sq (f_sub ax bx)) (sq (f_sub ay by1))) (sq (f_sub az bz)))"
    using assms by (auto simp: ab finite3_def number3_def intro!: sq add)
  then show ?thesis by (simp add: distance_def ab good_def sq_def f_sqrt_number Let_def)
qed

section \<open>The interface\<close>

datatype ('e, 'p) index_op = Insert 'e 'p | Remove 'e | Update 'e 'p

text \<open>What an operation does to the abstract map from entities to positions.\<close>

fun abstract_op :: "('e, 'p) index_op \<Rightarrow> ('e \<rightharpoonup> 'p) \<Rightarrow> ('e \<rightharpoonup> 'p)" where
  "abstract_op (Insert e p) m = m(e \<mapsto> p)"
| "abstract_op (Remove e) m = m(e := None)"
| "abstract_op (Update e p) m = (if m e = None then m else m(e \<mapsto> p))"

locale spatial_index =
  fixes ins :: "'e \<Rightarrow> 'p \<Rightarrow> 'i \<Rightarrow> 'i"
    and rem :: "'e \<Rightarrow> 'i \<Rightarrow> 'i"
    and upd :: "'e \<Rightarrow> 'p \<Rightarrow> 'i \<Rightarrow> 'i"
    and pos :: "'i \<Rightarrow> 'e \<Rightarrow> 'p option"
    and query :: "'i \<Rightarrow> 'p \<Rightarrow> 'r \<Rightarrow> 'e list"
    and inv :: "'i \<Rightarrow> bool"
    and within :: "'p \<Rightarrow> 'r \<Rightarrow> 'p \<Rightarrow> bool"
  assumes inv_ins: "inv i \<Longrightarrow> inv (ins e p i)"
    and inv_rem: "inv i \<Longrightarrow> inv (rem e i)"
    and inv_upd: "inv i \<Longrightarrow> inv (upd e p i)"
    and pos_ins: "pos (ins e p i) = (pos i)(e \<mapsto> p)"
    and pos_rem: "pos (rem e i) = (pos i)(e := None)"
    and pos_upd: "pos (upd e p i) = (if pos i e = None then pos i else (pos i)(e \<mapsto> p))"
    and query_sound: "inv i \<Longrightarrow> e \<in> set (query i c r) \<Longrightarrow> \<exists>p. pos i e = Some p \<and> within c r p"
    and query_once: "inv i \<Longrightarrow> distinct (query i c r)"
begin

fun apply_op :: "('e, 'p) index_op \<Rightarrow> 'i \<Rightarrow> 'i" where
  "apply_op (Insert e p) i = ins e p i"
| "apply_op (Remove e) i = rem e i"
| "apply_op (Update e p) i = upd e p i"

lemma apply_op_refines: "inv i \<Longrightarrow> inv (apply_op op i) \<and> pos (apply_op op i) = abstract_op op (pos i)"
  by (cases op) (simp_all add: inv_ins inv_rem inv_upd pos_ins pos_rem pos_upd)

lemma run_refines: "inv i \<Longrightarrow> inv (fold apply_op ops i) \<and> pos (fold apply_op ops i) = fold abstract_op ops (pos i)"
  by (induction ops arbitrary: i) (simp_all add: apply_op_refines)

text \<open>Whatever was done before, a range query names each live entity in range at most once.\<close>

lemma run_query:
  assumes "inv i" "e \<in> set (query (fold apply_op ops i) c r)"
  shows "\<exists>p. fold abstract_op ops (pos i) e = Some p \<and> within c r p"
  using query_sound run_refines assms by metis

end

section \<open>The grid\<close>

type_synonym cell_key = "i64 \<times> i64"

record grid_index =
  gi_cell_size :: f64
  gi_cells :: "(cell_key, entity_id list) table"
  gi_positions :: "(entity_id, point3) table"

text \<open>\<^verbatim>\<open>GridIndex::new\<close> panics (\<open>None\<close>) unless the cell size is positive; a \<^verbatim>\<open>NaN\<close> is not.\<close>

definition grid_new :: "f64 \<Rightarrow> grid_index option" where
  "grid_new cell_size = (if f_gt cell_size f_zero
     then Some \<lparr>gi_cell_size = cell_size, gi_cells = [], gi_positions = []\<rparr> else None)"

definition cell_key :: "grid_index \<Rightarrow> point3 \<Rightarrow> cell_key" where
  "cell_key g position = (let (x, y, z) = position in
     (f_as_i64 (f_floor (f_div x (gi_cell_size g))), f_as_i64 (f_floor (f_div y (gi_cell_size g)))))"

definition remove_from_cell :: "entity_id \<Rightarrow> point3 \<Rightarrow> grid_index \<Rightarrow> grid_index" where
  "remove_from_cell entity position g = (let key = cell_key g position in
     case map_of (gi_cells g) key of
       None \<Rightarrow> g
     | Some bucket \<Rightarrow>
         (let bucket' = filter (\<lambda>e. e \<noteq> entity) bucket in
          if bucket' = [] then g\<lparr>gi_cells := del_row key (gi_cells g)\<rparr>
          else g\<lparr>gi_cells := put_row key bucket' (gi_cells g)\<rparr>))"

definition grid_bucket :: "grid_index \<Rightarrow> cell_key \<Rightarrow> entity_id list" where
  "grid_bucket g key = (case map_of (gi_cells g) key of None \<Rightarrow> [] | Some b \<Rightarrow> b)"

definition grid_insert :: "entity_id \<Rightarrow> point3 \<Rightarrow> grid_index \<Rightarrow> grid_index" where
  "grid_insert entity position g =
     (let g1 = (case map_of (gi_positions g) entity of
                  None \<Rightarrow> g | Some previous \<Rightarrow> remove_from_cell entity previous g);
          key = cell_key g1 position
      in g1\<lparr>gi_cells := put_row key (grid_bucket g1 key @ [entity]) (gi_cells g1),
            gi_positions := put_row entity position (gi_positions g1)\<rparr>)"

definition grid_remove :: "entity_id \<Rightarrow> grid_index \<Rightarrow> grid_index" where
  "grid_remove entity g = (case map_of (gi_positions g) entity of
     None \<Rightarrow> g
   | Some position \<Rightarrow>
       remove_from_cell entity position (g\<lparr>gi_positions := del_row entity (gi_positions g)\<rparr>))"

definition grid_update :: "entity_id \<Rightarrow> point3 \<Rightarrow> grid_index \<Rightarrow> grid_index" where
  "grid_update entity position g =
     (if has_row (gi_positions g) entity then grid_insert entity position g else g)"

definition grid_position_of :: "grid_index \<Rightarrow> entity_id \<Rightarrow> point3 option" where
  "grid_position_of g entity = map_of (gi_positions g) entity"

definition bucket_hits :: "grid_index \<Rightarrow> point3 \<Rightarrow> f64 \<Rightarrow> cell_key \<Rightarrow> entity_id list" where
  "bucket_hits g center radius key = filter (\<lambda>e. case map_of (gi_positions g) e of
     None \<Rightarrow> False | Some position \<Rightarrow> f_le (distance center position) radius) (grid_bucket g key)"

definition visited_cells :: "grid_index \<Rightarrow> point3 \<Rightarrow> f64 \<Rightarrow> cell_key list" where
  "visited_cells g center radius = (let (x, y, z) = center;
       (ax, ay) = cell_key g (f_sub x radius, f_sub y radius, z);
       (bx, by1) = cell_key g (f_add x radius, f_add y radius, z)
     in concat (List.map (\<lambda>cx. List.map (\<lambda>cy. (cx, cy)) [ay..by1]) [ax..bx]))"

definition grid_query_radius :: "grid_index \<Rightarrow> point3 \<Rightarrow> f64 \<Rightarrow> entity_id list" where
  "grid_query_radius g center radius =
     concat (List.map (bucket_hits g center radius) (visited_cells g center radius))"

section \<open>Buckets and positions agree\<close>

text \<open>Every entity sits in the bucket of its position's cell, once, and in no other.\<close>

definition grid_ok :: "grid_index \<Rightarrow> bool" where
  "grid_ok g \<longleftrightarrow>
     (\<forall>key. distinct (grid_bucket g key))
     \<and> (\<forall>key e. e \<in> set (grid_bucket g key) \<longleftrightarrow> map_option (cell_key g) (grid_position_of g e) = Some key)"

lemma grid_okI:
  "(\<And>key. distinct (grid_bucket g key)) \<Longrightarrow>
   (\<And>key e. e \<in> set (grid_bucket g key) \<longleftrightarrow> map_option (cell_key g) (grid_position_of g e) = Some key)
   \<Longrightarrow> grid_ok g"
  unfolding grid_ok_def by blast

lemma grid_ok_distinct: "grid_ok g \<Longrightarrow> distinct (grid_bucket g key)"
  unfolding grid_ok_def by blast

lemma grid_ok_bucket:
  "grid_ok g \<Longrightarrow> e \<in> set (grid_bucket g key) \<longleftrightarrow> map_option (cell_key g) (grid_position_of g e) = Some key"
  unfolding grid_ok_def by blast

lemma grid_cell_size_same [simp]:
  "gi_cell_size (remove_from_cell e p g) = gi_cell_size g"
  "gi_positions (remove_from_cell e p g) = gi_positions g"
  by (simp_all add: remove_from_cell_def Let_def split: option.split)

lemma cell_key_cong: "gi_cell_size g = gi_cell_size h \<Longrightarrow> cell_key g = cell_key h"
  by (simp add: fun_eq_iff cell_key_def)

lemma cell_key_same [simp]:
  "cell_key (remove_from_cell e p g) = cell_key g" "cell_key (g\<lparr>gi_cells := c\<rparr>) = cell_key g"
  "cell_key (g\<lparr>gi_positions := ps\<rparr>) = cell_key g"
  "cell_key (g\<lparr>gi_cells := c, gi_positions := ps\<rparr>) = cell_key g"
  by (rule cell_key_cong; simp)+

lemma bucket_update [simp]:
  "grid_bucket (g\<lparr>gi_positions := ps\<rparr>) = grid_bucket g"
  "grid_bucket (g\<lparr>gi_cells := put_row k b (gi_cells g)\<rparr>) = (grid_bucket g)(k := b)"
  "grid_bucket (g\<lparr>gi_cells := put_row k b (gi_cells g), gi_positions := ps\<rparr>) = (grid_bucket g)(k := b)"
  "grid_bucket (g\<lparr>gi_cells := del_row k (gi_cells g)\<rparr>) = (grid_bucket g)(k := [])"
  by (auto simp: fun_eq_iff grid_bucket_def)

lemma bucket_remove_from_cell [simp]:
  "grid_bucket (remove_from_cell e p g) =
     (grid_bucket g)(cell_key g p := filter (\<lambda>e'. e' \<noteq> e) (grid_bucket g (cell_key g p)))"
proof (cases "map_of (gi_cells g) (cell_key g p)")
  case None
  then have "grid_bucket g (cell_key g p) = []" by (simp add: grid_bucket_def)
  then show ?thesis using None by (simp add: remove_from_cell_def fun_upd_idem)
next
  case (Some b)
  then have "grid_bucket g (cell_key g p) = b" by (simp add: grid_bucket_def)
  then show ?thesis using Some by (simp add: remove_from_cell_def Let_def)
qed

lemma position_of_simps [simp]:
  "grid_position_of (remove_from_cell e p g) = grid_position_of g"
  "grid_position_of (g\<lparr>gi_cells := c\<rparr>) = grid_position_of g"
  "grid_position_of (g\<lparr>gi_positions := del_row e (gi_positions g)\<rparr>) = (grid_position_of g)(e := None)"
  by (simp_all add: fun_eq_iff grid_position_of_def)

lemma grid_position_insert: "grid_position_of (grid_insert e p g) = (grid_position_of g)(e \<mapsto> p)"
  by (auto simp: fun_eq_iff grid_position_of_def grid_insert_def Let_def split: option.split)

lemma grid_position_remove: "grid_position_of (grid_remove e g) = (grid_position_of g)(e := None)"
  by (auto simp: fun_eq_iff grid_position_of_def grid_remove_def split: option.split)

lemma grid_position_update:
  "grid_position_of (grid_update e p g) =
     (if grid_position_of g e = None then grid_position_of g else (grid_position_of g)(e \<mapsto> p))"
  by (cases "map_of (gi_positions g) e")
    (simp_all add: grid_update_def has_row_def grid_position_insert grid_position_of_def [of g e])

lemma grid_ok_new: "grid_new c = Some g \<Longrightarrow> grid_ok g"
  by (rule grid_okI) (auto simp: grid_new_def grid_bucket_def grid_position_of_def split: if_splits)

text \<open>Taking an entity out of the bucket of its cell leaves every other entity where it was.\<close>

definition evicted :: "entity_id \<Rightarrow> grid_index \<Rightarrow> grid_index" where
  "evicted e g = (case map_of (gi_positions g) e of None \<Rightarrow> g | Some q \<Rightarrow> remove_from_cell e q g)"

lemma evicted_simps [simp]:
  "cell_key (evicted e g) = cell_key g" "gi_positions (evicted e g) = gi_positions g"
  by (simp_all add: evicted_def split: option.split)

lemma evicted_bucket:
  assumes "grid_ok g"
  shows "distinct (grid_bucket (evicted e g) key)"
    and "e' \<in> set (grid_bucket (evicted e g) key) \<longleftrightarrow> e' \<noteq> e \<and> e' \<in> set (grid_bucket g key)"
proof -
  have d: "distinct (grid_bucket g key)" by (rule grid_ok_distinct [OF assms])
  have e: "e \<in> set (grid_bucket g key) \<longleftrightarrow> map_option (cell_key g) (grid_position_of g e) = Some key"
    by (rule grid_ok_bucket [OF assms])
  show "distinct (grid_bucket (evicted e g) key)"
    using d by (auto simp: evicted_def split: option.split)
  show "e' \<in> set (grid_bucket (evicted e g) key) \<longleftrightarrow> e' \<noteq> e \<and> e' \<in> set (grid_bucket g key)"
    using e by (cases "map_of (gi_positions g) e"; cases "e' = e")
      (simp_all add: evicted_def grid_position_of_def)
qed

lemma grid_remove_evicted:
  "grid_bucket (grid_remove e g) = grid_bucket (evicted e g) \<and> cell_key (grid_remove e g) = cell_key g"
  by (auto simp: grid_remove_def evicted_def split: option.split)

lemma grid_insert_evicted:
  "grid_insert e p g = (evicted e g)\<lparr>gi_cells := put_row (cell_key g p)
     (grid_bucket (evicted e g) (cell_key g p) @ [e]) (gi_cells (evicted e g)),
     gi_positions := put_row e p (gi_positions g)\<rparr>"
  unfolding grid_insert_def Let_def evicted_def [symmetric] by simp

lemma grid_ok_remove:
  assumes "grid_ok g"
  shows "grid_ok (grid_remove e g)"
  by (rule grid_okI)
    (auto simp: grid_remove_evicted evicted_bucket [OF assms] grid_position_remove grid_ok_bucket [OF assms])

lemma grid_ok_insert:
  assumes "grid_ok g"
  shows "grid_ok (grid_insert e p g)"
proof (rule grid_okI)
  have b: "grid_bucket (grid_insert e p g) =
      (grid_bucket (evicted e g))(cell_key g p := grid_bucket (evicted e g) (cell_key g p) @ [e])"
    and k: "cell_key (grid_insert e p g) = cell_key g"
    unfolding grid_insert_evicted by simp_all
  show "distinct (grid_bucket (grid_insert e p g) key)" for key
    by (simp add: b evicted_bucket [OF assms])
  show "e' \<in> set (grid_bucket (grid_insert e p g) key) \<longleftrightarrow>
      map_option (cell_key (grid_insert e p g)) (grid_position_of (grid_insert e p g) e') = Some key" for key e'
    unfolding b k grid_position_insert fun_upd_apply
    by (cases "e' = e"; cases "cell_key g p = key")
      (simp_all add: evicted_bucket [OF assms] grid_ok_bucket [OF assms])
qed

lemma grid_ok_update: "grid_ok g \<Longrightarrow> grid_ok (grid_update e p g)"
  by (simp add: grid_update_def grid_ok_insert)

text \<open>A query returns exactly the entities within the radius whose cell it visits, each once.\<close>

lemma grid_query_iff:
  assumes "grid_ok g"
  shows "e \<in> set (grid_query_radius g c r) \<longleftrightarrow>
     (\<exists>p. grid_position_of g e = Some p \<and> f_le (distance c p) r \<and> cell_key g p \<in> set (visited_cells g c r))"
proof -
  have "e \<in> set (bucket_hits g c r key) \<longleftrightarrow>
      (\<exists>p. grid_position_of g e = Some p \<and> f_le (distance c p) r \<and> cell_key g p = key)" for key
    unfolding bucket_hits_def set_filter mem_Collect_eq grid_ok_bucket [OF assms]
    by (cases "map_of (gi_positions g) e") (auto simp: grid_position_of_def)
  then show ?thesis by (simp add: grid_query_radius_def) metis
qed

lemma distinct_visited: "distinct (visited_cells g c r)"
proof -
  have "distinct (concat (List.map (\<lambda>a. List.map (\<lambda>b. (a, b)) ys) xs))" if "distinct xs" "distinct ys"
    for xs ys :: "int list"
    using that by (induction xs) (auto simp: distinct_map inj_on_def)
  then show ?thesis by (simp add: visited_cells_def split: prod.split)
qed

lemma grid_query_distinct:
  assumes "grid_ok g"
  shows "distinct (grid_query_radius g c r)"
proof -
  have "distinct (concat (List.map (bucket_hits g c r) ks))" if "distinct ks" for ks
    using that
  proof (induction ks)
    case (Cons k ks)
    have "set (bucket_hits g c r k) \<inter> set (bucket_hits g c r k') = {}" if "k' \<in> set ks" for k'
      using that Cons.prems grid_ok_bucket [OF assms] by (auto simp: bucket_hits_def)
    then have "set (bucket_hits g c r k) \<inter> set (concat (List.map (bucket_hits g c r) ks)) = {}"
      by (fastforce simp: disjoint_iff)
    moreover have "distinct (bucket_hits g c r k)"
      by (simp add: bucket_hits_def grid_ok_distinct [OF assms])
    ultimately show ?case using Cons by simp
  qed simp
  then show ?thesis by (simp add: grid_query_radius_def distinct_visited)
qed

interpretation grid: spatial_index grid_insert grid_remove grid_update grid_position_of grid_query_radius
  grid_ok "\<lambda>c r p. f_le (distance c p) r"
  by unfold_locales
    (auto simp: grid_ok_insert grid_ok_remove grid_ok_update grid_position_insert grid_position_remove
      grid_position_update grid_query_iff grid_query_distinct)


section \<open>Refinement of the abstract map\<close>

fun grid_apply :: "(entity_id, point3) index_op \<Rightarrow> grid_index \<Rightarrow> grid_index" where
  "grid_apply (Insert e p) g = grid_insert e p g"
| "grid_apply (Remove e) g = grid_remove e g"
| "grid_apply (Update e p) g = grid_update e p g"

lemma grid_apply_op: "grid.apply_op op g = grid_apply op g"
  by (cases op) simp_all

lemma grid_run: "fold grid.apply_op ops g = fold grid_apply ops g"
  by (induction ops arbitrary: g) (simp_all add: grid_apply_op)


definition two_on_a_grid :: "(entity_id, point3) index_op list" where
  "two_on_a_grid = [Insert (Id 1) (f64_lit 1 1, f64_lit 1 1, f_zero), Insert (Id 2) (f64_lit 60 1, f64_lit 1 1, f_zero),
     Update (Id 2) (f64_lit 2 1, f64_lit 1 1, f_zero), Remove (Id 1)]"


end
