(* ===== verification/Movement.thy ===== *)
theory Movement
  imports Spatial
begin

text \<open>
  \<^verbatim>\<open>crates/world/src/movement.rs\<close> and \<^verbatim>\<open>links.rs\<close>: the checks a movement request must pass before
  the server accepts it, and the detection of a crossed zone link.
\<close>

section \<open>Links\<close>

fun orientation :: "point2 \<Rightarrow> point2 \<Rightarrow> point2 \<Rightarrow> f64" where
  "orientation (ax, ay) (bx, by1) (cx, cy) =
     f_sub (f_mul (f_sub bx ax) (f_sub cy ay)) (f_mul (f_sub by1 ay) (f_sub cx ax))"

definition segments_intersect :: "point2 \<Rightarrow> point2 \<Rightarrow> point2 \<Rightarrow> point2 \<Rightarrow> bool" where
  "segments_intersect p1 p2 p3 p4 =
     (let d1 = orientation p3 p4 p1; d2 = orientation p3 p4 p2;
          d3 = orientation p1 p2 p3; d4 = orientation p1 p2 p4
      in (f_gt d1 f_zero \<noteq> f_gt d2 f_zero) \<and> (f_gt d3 f_zero \<noteq> f_gt d4 f_zero))"

text \<open>A link with fewer than two edge points never matches.\<close>

definition link_crossed :: "point2 \<Rightarrow> point2 \<Rightarrow> link \<Rightarrow> bool" where
  "link_crossed src dst l = (case ln_edge l of
     a # b # _ \<Rightarrow> segments_intersect src dst a b | _ \<Rightarrow> False)"

definition crossed_link :: "link list \<Rightarrow> point3 \<Rightarrow> point3 \<Rightarrow> link option" where
  "crossed_link links src dst = List.find (link_crossed (footprint src) (footprint dst)) links"

section \<open>Validation\<close>

definition collision_radius_meters :: f64 where
  "collision_radius_meters = f64_lit 1 2"

datatype movement_rejection =
    OutOfBounds
  | NotWalkable
  | TooFast f64 f64
  | Blocked entity_id

text \<open>\<^verbatim>\<open>movement.rs\<close> repeats the \<^verbatim>\<open>distance\<close> of \<^verbatim>\<open>spatial.rs\<close> and the \<^verbatim>\<open>point_in_polygon\<close> of
  \<^verbatim>\<open>manifest.rs\<close>.\<close>

definition movement_distance :: "point3 \<Rightarrow> point3 \<Rightarrow> f64" where
  "movement_distance a b = (let (ax, ay, az) = a; (bx, by1, bz) = b;
       dx = f_sub ax bx; dy = f_sub ay by1; dz = f_sub az bz
     in f_sqrt (f_add (f_add (f_mul dx dx) (f_mul dy dy)) (f_mul dz dz)))"

lemma movement_distance_eq: "movement_distance a b = distance a b"
  by (simp add: movement_distance_def distance_def)

definition validate_movement ::
  "zone_manifest \<Rightarrow> navmesh \<Rightarrow> grid_index \<Rightarrow> entity_id \<Rightarrow> f64 \<Rightarrow> f64 \<Rightarrow> point3 \<Rightarrow> point3
     \<Rightarrow> movement_rejection + unit" where
  "validate_movement manifest navmesh index mover max_speed dt from to =
     (let max_allowed = f_mul max_speed dt; attempted_distance = movement_distance from to in
      if f_gt attempted_distance max_allowed then Inl (TooFast attempted_distance max_allowed)
      else if \<not> point_in_polygon (footprint to) (bd_points (zm_bounds manifest)) then Inl OutOfBounds
      else if \<not> navmesh_contains navmesh to then Inl NotWalkable
      else (case List.find (\<lambda>other. other \<noteq> mover)
                   (grid_query_radius index to collision_radius_meters) of
              Some other \<Rightarrow> Inl (Blocked other)
            | None \<Rightarrow> Inr ()))"

lemma validate_movement_ok:
  "validate_movement m nm g e speed dt from to = Inr u \<longleftrightarrow>
     \<not> f_gt (distance from to) (f_mul speed dt)
     \<and> point_in_polygon (footprint to) (bd_points (zm_bounds m)) \<and> navmesh_contains nm to
     \<and> (\<forall>other \<in> set (grid_query_radius g to collision_radius_meters). other = e)"
  by (auto simp: validate_movement_def movement_distance_eq Let_def find_None_iff find_Some_iff
      split: option.split)

text \<open>An accepted move is to a point of numbers; from a finite point its length is within the cap.\<close>

lemma validated_number: "validate_movement m nm g e speed dt from to = Inr u \<Longrightarrow> number3 to"
  unfolding validate_movement_ok by (blast intro: walkable_number)

lemma validated_within_speed:
  assumes "validate_movement m nm g e speed dt from to = Inr u" "finite3 from" "\<not> is_nan (f_mul speed dt)"
  shows "f_le (distance from to) (f_mul speed dt)"
proof -
  have "\<not> is_nan (distance from to)"
    using distance_number validated_number assms by blast
  then show ?thesis using assms(1,3) not_gt_le by (simp add: validate_movement_ok)
qed

lemma not_blocked_nearby:
  assumes "validate_movement m nm g e speed dt from to = Inr u" "grid_ok g"
    "grid_position_of g other = Some p" "f_le (distance to p) collision_radius_meters"
    "cell_key g p \<in> set (visited_cells g to collision_radius_meters)"
  shows "other = e"
  using assms by (auto simp: validate_movement_ok grid_query_iff)

end
