(* ===== verification/WorldConfig.thy ===== *)
theory WorldConfig
  imports F64
begin

text \<open>
  \<^verbatim>\<open>crates/world/src/config.rs\<close>: the tick rate, the grid's cell size and the speed cap, with their
  defaults and the environment variables that override them. A \<^verbatim>\<open>Duration\<close> is its nanoseconds.
\<close>

record world_config =
  wc_tick_rate_hz :: u32
  wc_grid_cell_size_meters :: f64
  wc_max_speed_meters_per_second :: f64

definition world_config_default :: world_config where
  "world_config_default = \<lparr>wc_tick_rate_hz = 20, wc_grid_cell_size_meters = f64_lit 25 1,
     wc_max_speed_meters_per_second = f64_lit 10 1\<rparr>"

section \<open>The tick interval\<close>

text \<open>
  \<^verbatim>\<open>Duration::from_secs_f64\<close> rounds to whole nanoseconds, ties to even, and panics (\<open>None\<close>) on a
  negative, infinite or too large number of seconds; \<^verbatim>\<open>as_secs_f64\<close> adds the whole seconds and
  the fraction.
\<close>

fun duration_from_secs_f64 :: "f64 \<Rightarrow> int option" where
  "duration_from_secs_f64 (Fin s m e) =
     (if s \<and> m \<noteq> 0 then None
      else (let n = (if 0 \<le> e then m * pow2 e * 10 ^ 9 else round_half_even (m * 10 ^ 9) (pow2 (- e)))
            in if n < 2 ^ 64 * 10 ^ 9 then Some n else None))"
| "duration_from_secs_f64 _ = None"

definition as_secs_f64 :: "int \<Rightarrow> f64" where
  "as_secs_f64 nanos =
     f_add (f64_of_int (nanos div 10 ^ 9)) (f_div (f64_of_int (nanos mod 10 ^ 9)) (f64_of_int (10 ^ 9)))"

definition tick_interval :: "world_config \<Rightarrow> int option" where
  "tick_interval cfg = duration_from_secs_f64 (f_div f_one (f64_of_int (int (wc_tick_rate_hz cfg))))"

section \<open>The environment\<close>

datatype env_value = NotPresent | NotUnicode | Value string

datatype config_error =
    EnvNotUnicode string
  | EnvNotANumber string string
  | MustBeGreaterThanZero string

definition optional_env :: "(string \<Rightarrow> env_value) \<Rightarrow> string \<Rightarrow> config_error + string option" where
  "optional_env env var = (case env var of
     Value v \<Rightarrow> Inr (Some v) | NotPresent \<Rightarrow> Inr None | NotUnicode \<Rightarrow> Inl (EnvNotUnicode var))"

text \<open>One \<^verbatim>\<open>if let Some(value) = optional_env(var)?\<close> of \<^verbatim>\<open>from_env\<close>.\<close>

definition env_override ::
  "(string \<Rightarrow> env_value) \<Rightarrow> string \<Rightarrow> (string \<Rightarrow> 'a option) \<Rightarrow> 'a \<Rightarrow> config_error + 'a" where
  "env_override env var parse dflt = (case optional_env env var of
     Inl e \<Rightarrow> Inl e
   | Inr None \<Rightarrow> Inr dflt
   | Inr (Some v) \<Rightarrow> (case parse v of None \<Rightarrow> Inl (EnvNotANumber var v) | Some x \<Rightarrow> Inr x))"

definition tick_rate_var :: string where "tick_rate_var = ''WZ_WORLD_TICK_RATE_HZ''"
definition cell_size_var :: string where "cell_size_var = ''WZ_WORLD_GRID_CELL_SIZE_METERS''"
definition max_speed_var :: string where "max_speed_var = ''WZ_WORLD_MAX_SPEED_MPS''"

definition world_config_from_env :: "(string \<Rightarrow> env_value) \<Rightarrow> config_error + world_config" where
  "world_config_from_env env =
     (case env_override env tick_rate_var parse_u32 (wc_tick_rate_hz world_config_default) of
        Inl e \<Rightarrow> Inl e
      | Inr hz \<Rightarrow>
     (case env_override env cell_size_var parse_f64 (wc_grid_cell_size_meters world_config_default) of
        Inl e \<Rightarrow> Inl e
      | Inr cell \<Rightarrow>
     (case env_override env max_speed_var parse_f64 (wc_max_speed_meters_per_second world_config_default) of
        Inl e \<Rightarrow> Inl e
      | Inr speed \<Rightarrow>
          if hz = 0 then Inl (MustBeGreaterThanZero tick_rate_var)
          else if f_le cell f_zero then Inl (MustBeGreaterThanZero cell_size_var)
          else if f_le speed f_zero then Inl (MustBeGreaterThanZero max_speed_var)
          else Inr \<lparr>wc_tick_rate_hz = hz, wc_grid_cell_size_meters = cell,
                 wc_max_speed_meters_per_second = speed\<rparr>)))"

section \<open>What a loaded configuration satisfies\<close>

lemma world_config_from_env_Inr:
  assumes "world_config_from_env env = Inr cfg"
  shows "0 < wc_tick_rate_hz cfg \<and> \<not> f_le (wc_grid_cell_size_meters cfg) f_zero
     \<and> \<not> f_le (wc_max_speed_meters_per_second cfg) f_zero"
  using assms by (auto simp: world_config_from_env_def split: sum.splits if_splits)

lemma default_tick: "tick_interval world_config_default = Some 50000000"
  by code_simp

lemma default_environment: "world_config_from_env (\<lambda>_. NotPresent) = Inr world_config_default"
  by code_simp

end
