(* ===== verification/Zone.thy ===== *)
theory Zone
  imports Movement WorldConfig
begin

text \<open>
  \<^verbatim>\<open>crates/world/src/zone.rs\<close>: one simulated zone, its queues of requests and the tick that drains
  them. Movement requests are validated one after the other against the positions their
  predecessors left; a player's request that crosses a link takes the player out of the zone;
  teleports follow and are not validated. The outcomes a tick returns are what the server
  broadcasts. The pacing of the ticks in real time (\<^verbatim>\<open>Zone::run\<close>) is not modelled: it calls
  \<open>zone_tick\<close> once per interval and changes nothing of the zone itself.
\<close>

section \<open>State\<close>

datatype entity_kind = Player | Npc

datatype movement_outcome =
    Applied u32 point3
  | Rejected u32 movement_rejection
  | ZoneTransition string

record zone =
  zn_manifest :: zone_manifest
  zn_navmesh :: navmesh
  zn_config :: world_config
  zn_index :: grid_index
  zn_entities :: "(entity_id, entity_kind) table"
  zn_npc_routes :: "(entity_id, string) table"
  zn_entity_types :: "(entity_id, string) table"
  zn_pending_moves :: "(entity_id \<times> point3 \<times> u32) list"
  zn_pending_teleports :: "(entity_id \<times> point3) list"
  zn_tick_count :: "64 word"

definition outcome_seq :: "movement_outcome \<Rightarrow> u32 option" where
  "outcome_seq out = (case out of Applied seq _ \<Rightarrow> Some seq | Rejected seq _ \<Rightarrow> Some seq
     | ZoneTransition _ \<Rightarrow> None)"

definition zone_new :: "zone_manifest \<Rightarrow> world_config \<Rightarrow> navmesh \<Rightarrow> zone option" where
  "zone_new manifest cfg navmesh = map_option (\<lambda>index.
     \<lparr>zn_manifest = manifest, zn_navmesh = navmesh, zn_config = cfg, zn_index = index,
      zn_entities = [], zn_npc_routes = [], zn_entity_types = [], zn_pending_moves = [],
      zn_pending_teleports = [], zn_tick_count = 0\<rparr>) (grid_new (wc_grid_cell_size_meters cfg))"

section \<open>Operations between ticks\<close>

definition zone_spawn :: "entity_id \<Rightarrow> entity_kind \<Rightarrow> point3 \<Rightarrow> zone \<Rightarrow> zone" where
  "zone_spawn e kind p z =
     z\<lparr>zn_entities := put_row e kind (zn_entities z), zn_index := grid_insert e p (zn_index z)\<rparr>"

definition spawn_npc_with_route :: "entity_id \<Rightarrow> point3 \<Rightarrow> string \<Rightarrow> zone \<Rightarrow> zone" where
  "spawn_npc_with_route e p route_id z = (let z1 = zone_spawn e Npc p z in
     if list_ex (\<lambda>r. rt_id r = route_id) (zm_routes (zn_manifest z1))
     then z1\<lparr>zn_npc_routes := put_row e route_id (zn_npc_routes z1)\<rparr> else z1)"

definition zone_despawn :: "entity_id \<Rightarrow> zone \<Rightarrow> zone" where
  "zone_despawn e z =
     z\<lparr>zn_entities := del_row e (zn_entities z), zn_npc_routes := del_row e (zn_npc_routes z),
       zn_entity_types := del_row e (zn_entity_types z), zn_index := grid_remove e (zn_index z)\<rparr>"

definition record_entity_type :: "entity_id \<Rightarrow> string \<Rightarrow> zone \<Rightarrow> zone" where
  "record_entity_type e t z = z\<lparr>zn_entity_types := put_row e t (zn_entity_types z)\<rparr>"

definition zone_position_of :: "zone \<Rightarrow> entity_id \<Rightarrow> point3 option" where
  "zone_position_of z e = grid_position_of (zn_index z) e"

definition kind_of :: "zone \<Rightarrow> entity_id \<Rightarrow> entity_kind option" where
  "kind_of z e = map_of (zn_entities z) e"

definition npcs_with_routes :: "zone \<Rightarrow> (entity_id \<times> point3 \<times> route) list" where
  "npcs_with_routes z = List.map_filter (\<lambda>(e, route_id).
     case zone_position_of z e of None \<Rightarrow> None
     | Some p \<Rightarrow> map_option (\<lambda>r. (e, p, r))
         (List.find (\<lambda>r. rt_id r = route_id) (zm_routes (zn_manifest z)))) (zn_npc_routes z)"

definition zone_entities :: "zone \<Rightarrow> (entity_id \<times> entity_kind \<times> point3 \<times> string) list" where
  "zone_entities z = List.map_filter (\<lambda>(e, kind).
     map_option (\<lambda>p. (e, kind, p, case map_of (zn_entity_types z) e of None \<Rightarrow> [] | Some t \<Rightarrow> t))
       (zone_position_of z e)) (zn_entities z)"

definition request_move :: "entity_id \<Rightarrow> point3 \<Rightarrow> u32 \<Rightarrow> zone \<Rightarrow> zone" where
  "request_move e to seq z = z\<lparr>zn_pending_moves := zn_pending_moves z @ [(e, to, seq)]\<rparr>"

definition request_teleport :: "entity_id \<Rightarrow> point3 \<Rightarrow> zone \<Rightarrow> zone" where
  "request_teleport e to z = z\<lparr>zn_pending_teleports := zn_pending_teleports z @ [(e, to)]\<rparr>"

section \<open>The tick\<close>

type_synonym outcomes = "(entity_id \<times> movement_outcome) list"

definition crossing :: "zone \<Rightarrow> entity_id \<Rightarrow> point3 \<Rightarrow> point3 \<Rightarrow> link option" where
  "crossing z e from to =
     (if kind_of z e = Some Player then crossed_link (zm_links (zn_manifest z)) from to else None)"

text \<open>One round of the loop over the drained moves, and one of the loop over the teleports.\<close>

definition move_step :: "f64 \<Rightarrow> entity_id \<times> point3 \<times> u32 \<Rightarrow> zone \<Rightarrow> zone \<times> outcomes" where
  "move_step dt req z = (case req of (e, to, seq) \<Rightarrow>
     (case zone_position_of z e of
        None \<Rightarrow> (z, [])
      | Some from \<Rightarrow>
          (case crossing z e from to of
             Some link \<Rightarrow>
               (let max_allowed = f_mul (wc_max_speed_meters_per_second (zn_config z)) dt;
                    attempted_distance = movement_distance from to
                in if f_gt attempted_distance max_allowed
                   then (z, [(e, Rejected seq (TooFast attempted_distance max_allowed))])
                   else (zone_despawn e z, [(e, ZoneTransition (ln_target_zone link))]))
           | None \<Rightarrow>
               (case validate_movement (zn_manifest z) (zn_navmesh z) (zn_index z) e
                       (wc_max_speed_meters_per_second (zn_config z)) dt from to of
                  Inr _ \<Rightarrow> (z\<lparr>zn_index := grid_update e to (zn_index z)\<rparr>, [(e, Applied seq to)])
                | Inl rejection \<Rightarrow> (z, [(e, Rejected seq rejection)])))))"

definition teleport_step :: "entity_id \<times> point3 \<Rightarrow> zone \<Rightarrow> zone \<times> outcomes" where
  "teleport_step req z = (case req of (e, to) \<Rightarrow>
     (if zone_position_of z e = None then (z, [])
      else (z\<lparr>zn_index := grid_update e to (zn_index z)\<rparr>, [(e, Applied 0 to)])))"

fun run_steps :: "('r \<Rightarrow> zone \<Rightarrow> zone \<times> outcomes) \<Rightarrow> 'r list \<Rightarrow> zone \<Rightarrow> zone \<times> outcomes" where
  "run_steps f [] z = (z, [])"
| "run_steps f (r # rs) z = (case f r z of (z1, out1) \<Rightarrow>
     (case run_steps f rs z1 of (z2, out2) \<Rightarrow> (z2, out1 @ out2)))"

text \<open>The tick counts itself and drains the moves before it looks at any of them.\<close>

definition begin_tick :: "zone \<Rightarrow> zone" where
  "begin_tick z = z\<lparr>zn_tick_count := zn_tick_count z + 1, zn_pending_moves := []\<rparr>"

definition drain_teleports :: "zone \<Rightarrow> zone" where
  "drain_teleports z = z\<lparr>zn_pending_teleports := []\<rparr>"

text \<open>\<^verbatim>\<open>Zone::tick\<close>; \<open>None\<close> is the panic of a tick rate that is no duration, as \<open>0\<close> Hz.\<close>

definition zone_tick :: "zone \<Rightarrow> (zone \<times> outcomes) option" where
  "zone_tick z = map_option (\<lambda>nanos.
     (let dt = as_secs_f64 nanos;
          (z1, out1) = run_steps (move_step dt) (zn_pending_moves z) (begin_tick z);
          (z2, out2) = run_steps teleport_step (zn_pending_teleports z1) (drain_teleports z1)
      in (z2, out1 @ out2))) (tick_interval (zn_config z))"

section \<open>The outcomes of one move\<close>

lemma move_step_cases:
  assumes "move_step dt (e, to, seq) z = (z1, out)"
  obtains (absent) "zone_position_of z e = None" "z1 = z" "out = []"
    | (rejected) src rejection where "zone_position_of z e = Some src" "z1 = z"
        "out = [(e, Rejected seq rejection)]"
    | (left) src l where "zone_position_of z e = Some src" "kind_of z e = Some Player"
        "crossed_link (zm_links (zn_manifest z)) src to = Some l"
        "\<not> f_gt (distance src to) (f_mul (wc_max_speed_meters_per_second (zn_config z)) dt)"
        "z1 = zone_despawn e z" "out = [(e, ZoneTransition (ln_target_zone l))]"
    | (moved) src where "zone_position_of z e = Some src" "crossing z e src to = None"
        "validate_movement (zn_manifest z) (zn_navmesh z) (zn_index z) e
           (wc_max_speed_meters_per_second (zn_config z)) dt src to = Inr ()"
        "z1 = z\<lparr>zn_index := grid_update e to (zn_index z)\<rparr>" "out = [(e, Applied seq to)]"
proof (cases "zone_position_of z e")
  case None
  then show thesis using assms by (intro absent) (simp_all add: move_step_def)
next
  case (Some src)
  note pos = Some
  show thesis
  proof (cases "crossing z e src to")
    case None
    show thesis
    proof (cases "validate_movement (zn_manifest z) (zn_navmesh z) (zn_index z) e
           (wc_max_speed_meters_per_second (zn_config z)) dt src to")
      case (Inl rejection)
      then have "z1 = z" "out = [(e, Rejected seq rejection)]"
        using assms by (auto simp: move_step_def pos None)
      then show thesis by (rule rejected [OF pos])
    next
      case (Inr u)
      then have "z1 = z\<lparr>zn_index := grid_update e to (zn_index z)\<rparr>" "out = [(e, Applied seq to)]"
        using assms by (auto simp: move_step_def pos None)
      then show thesis using moved [OF pos None] Inr by simp
    qed
  next
    case (Some l)
    then have l: "kind_of z e = Some Player" "crossed_link (zm_links (zn_manifest z)) src to = Some l"
      by (simp_all add: crossing_def split: if_splits)
    show thesis
    proof (cases "f_gt (distance src to) (f_mul (wc_max_speed_meters_per_second (zn_config z)) dt)")
      case True
      then have "z1 = z" "out = [(e, Rejected seq (TooFast (distance src to)
          (f_mul (wc_max_speed_meters_per_second (zn_config z)) dt)))]"
        using assms by (auto simp: move_step_def pos Some movement_distance_eq)
      then show thesis by (rule rejected [OF pos])
    next
      case False
      then have "z1 = zone_despawn e z" "out = [(e, ZoneTransition (ln_target_zone l))]"
        using assms by (auto simp: move_step_def pos Some movement_distance_eq)
      then show thesis by (rule left [OF pos l False])
    qed
  qed
qed

lemma teleport_step_cases:
  assumes "teleport_step (e, to) z = (z1, out)"
  obtains (absent) "zone_position_of z e = None" "z1 = z" "out = []"
    | (moved) src where "zone_position_of z e = Some src"
        "z1 = z\<lparr>zn_index := grid_update e to (zn_index z)\<rparr>" "out = [(e, Applied 0 to)]"
proof (cases "zone_position_of z e")
  case None
  then show thesis using assms by (intro absent) (simp_all add: teleport_step_def)
next
  case (Some src)
  then show thesis using assms by (intro moved [OF Some]) (simp_all add: teleport_step_def)
qed

end
