(* ===== verification/ZoneMotion.thy ===== *)
theory ZoneMotion
  imports Zone
begin

text \<open>
  What a zone's tick guarantees. The interface \<open>reporting_step\<close> is what the two loops of the tick
  have in common: each round changes the positions exactly as the outcome it reports says, and
  answers its request if the entity is there. Its client lemmas follow a whole loop; it is
  interpreted on the loop over the moves and on the loop over the teleports.
\<close>

text \<open>Points are triples; the proofs below never take one apart.\<close>

declare split_paired_Ex [simp del] split_paired_All [simp del]

section \<open>Outcomes explain the positions\<close>

text \<open>What an outcome, read by a client that tracks positions, does to the tracked positions.\<close>

definition outcome_effect ::
  "entity_id \<times> movement_outcome \<Rightarrow> (entity_id \<rightharpoonup> point3) \<Rightarrow> (entity_id \<rightharpoonup> point3)" where
  "outcome_effect eo m = (case eo of (e, out) \<Rightarrow>
     (case out of Applied _ to \<Rightarrow> m(e \<mapsto> to) | Rejected _ _ \<Rightarrow> m | ZoneTransition _ \<Rightarrow> m(e := None)))"

text \<open>The parts of a zone no request touches.\<close>

definition same_setting :: "zone \<Rightarrow> zone \<Rightarrow> bool" where
  "same_setting z z' \<longleftrightarrow> zn_manifest z' = zn_manifest z \<and> zn_navmesh z' = zn_navmesh z
     \<and> zn_config z' = zn_config z \<and> zn_tick_count z' = zn_tick_count z
     \<and> zn_pending_moves z' = zn_pending_moves z \<and> zn_pending_teleports z' = zn_pending_teleports z"

lemma same_setting_refl [simp]: "same_setting z z"
  by (simp add: same_setting_def)

lemma same_setting_trans: "same_setting x y \<Longrightarrow> same_setting y z \<Longrightarrow> same_setting x z"
  by (simp add: same_setting_def)

definition answer :: "entity_id \<Rightarrow> u32 \<Rightarrow> outcomes \<Rightarrow> bool" where
  "answer e seq out \<longleftrightarrow> (\<exists>res. out = [(e, res)] \<and> (outcome_seq res = Some seq \<or> (\<exists>t. res = ZoneTransition t)))"

definition seqs_of :: "entity_id \<Rightarrow> outcomes \<Rightarrow> u32 option list" where
  "seqs_of e out = map (\<lambda>(_, res). outcome_seq res) (filter (\<lambda>(e', _). e' = e) out)"

definition left_zone :: "entity_id \<Rightarrow> outcomes \<Rightarrow> bool" where
  "left_zone e out \<longleftrightarrow> (\<exists>t. (e, ZoneTransition t) \<in> set out)"

lemma seqs_of_append [simp]: "seqs_of e (xs @ ys) = seqs_of e xs @ seqs_of e ys"
  by (simp add: seqs_of_def)

lemma seqs_of_Nil [simp]: "seqs_of e [] = []"
  by (simp add: seqs_of_def)

lemma left_zone_append [simp]: "left_zone e (xs @ ys) \<longleftrightarrow> left_zone e xs \<or> left_zone e ys"
  by (auto simp: left_zone_def)

lemma effect_keeps: "\<not> left_zone e out \<Longrightarrow> m e \<noteq> None \<Longrightarrow> fold outcome_effect out m e \<noteq> None"
proof (induction out arbitrary: m)
  case (Cons eo out)
  obtain e' res where eo: "eo = (e', res)" by (cases eo)
  from Cons.prems have "\<not> left_zone e out" by (auto simp: left_zone_def)
  moreover have "outcome_effect eo m e \<noteq> None"
    using Cons.prems unfolding outcome_effect_def eo by (cases res) (auto simp: left_zone_def)
  ultimately show ?case using Cons.IH by simp
qed simp

lemma effect_absent:
  "(\<And>seq to. (e, Applied seq to) \<notin> set out) \<Longrightarrow> m e = None \<Longrightarrow> fold outcome_effect out m e = None"
proof (induction out arbitrary: m)
  case (Cons eo out)
  obtain e' res where eo: "eo = (e', res)" by (cases eo)
  from Cons.prems have "outcome_effect eo m e = None"
    unfolding outcome_effect_def eo by (cases res) auto
  moreover have "(e, Applied seq to) \<notin> set out" for seq to using Cons.prems(1) [of seq to] by simp
  ultimately show ?case using Cons.IH by simp
qed simp

locale reporting_step =
  fixes step :: "'r \<Rightarrow> zone \<Rightarrow> zone \<times> outcomes"
    and who :: "'r \<Rightarrow> entity_id"
    and seq :: "'r \<Rightarrow> u32"
  assumes effect: "step r z = (z1, out) \<Longrightarrow> zone_position_of z1 = fold outcome_effect out (zone_position_of z)"
    and silent: "step r z = (z1, out) \<Longrightarrow> zone_position_of z (who r) = None \<Longrightarrow> out = []"
    and replies: "step r z = (z1, out) \<Longrightarrow> zone_position_of z (who r) \<noteq> None \<Longrightarrow> answer (who r) (seq r) out"
    and setting: "step r z = (z1, out) \<Longrightarrow> same_setting z z1"
begin

lemma run_effect:
  "run_steps step rs z = (z', out) \<Longrightarrow> zone_position_of z' = fold outcome_effect out (zone_position_of z)"
proof (induction rs arbitrary: z z' out)
  case (Cons r rs)
  obtain z1 out1 where s: "step r z = (z1, out1)" by (cases "step r z")
  obtain z2 out2 where t: "run_steps step rs z1 = (z2, out2)" by (cases "run_steps step rs z1")
  show ?case using Cons.prems Cons.IH [OF t] effect [OF s] by (auto simp: s t)
qed simp

lemma run_setting: "run_steps step rs z = (z', out) \<Longrightarrow> same_setting z z'"
proof (induction rs arbitrary: z z' out)
  case (Cons r rs)
  obtain z1 out1 where s: "step r z = (z1, out1)" by (cases "step r z")
  obtain z2 out2 where t: "run_steps step rs z1 = (z2, out2)" by (cases "run_steps step rs z1")
  show ?case
    using Cons.prems same_setting_trans [OF setting [OF s] Cons.IH [OF t]] by (simp add: s t)
qed simp

lemma step_out:
  assumes "step r z = (z1, out)"
  obtains "zone_position_of z (who r) = None" "out = []"
    | res where "zone_position_of z (who r) \<noteq> None" "out = [(who r, res)]"
        "outcome_seq res = Some (seq r) \<or> left_zone (who r) out"
  using silent [OF assms] replies [OF assms]
  by (cases "zone_position_of z (who r) = None") (auto simp: answer_def left_zone_def)

lemma step_seqs:
  assumes "step r z = (z1, out)" "\<not> left_zone e out" "zone_position_of z e \<noteq> None"
  shows "seqs_of e out = (if who r = e then [Some (seq r)] else [])"
proof (rule step_out [OF assms(1)])
  assume "zone_position_of z (who r) = None" "out = []"
  then show ?thesis using assms(3) by auto
next
  fix res assume "out = [(who r, res)]" "outcome_seq res = Some (seq r) \<or> left_zone (who r) out"
  then show ?thesis using assms(2) by (auto simp: seqs_of_def)
qed

text \<open>An entity that is there and does not leave gets one answer per request, in order.\<close>

lemma run_answers:
  assumes "run_steps step rs z = (z', out)" "\<not> left_zone e out" "zone_position_of z e \<noteq> None"
  shows "seqs_of e out = map (\<lambda>r. Some (seq r)) (filter (\<lambda>r. who r = e) rs)"
  using assms
proof (induction rs arbitrary: z z' out)
  case (Cons r rs)
  obtain z1 out1 where s: "step r z = (z1, out1)" by (cases "step r z")
  obtain z2 out2 where t: "run_steps step rs z1 = (z2, out2)" by (cases "run_steps step rs z1")
  have out: "out = out1 @ out2" using Cons.prems by (simp add: s t)
  have "zone_position_of z1 e \<noteq> None"
    using effect_keeps [of e out1] effect [OF s] Cons.prems by (simp add: out)
  then show ?case
    using step_seqs [OF s] Cons.IH [OF t] Cons.prems by (simp add: out)
qed simp

text \<open>Where an outcome of a run came from: the zone in which its request was decided.\<close>

lemma run_source:
  assumes "run_steps step rs z = (z', out)" "eo \<in> set out"
  shows "\<exists>pre r post zi out0 zj out1. rs = pre @ r # post \<and> run_steps step pre z = (zi, out0)
     \<and> step r zi = (zj, out1) \<and> eo \<in> set out1 \<and> same_setting z zi
     \<and> (\<exists>outr. run_steps step post zj = (z', outr))"
  using assms
proof (induction rs arbitrary: z z' out)
  case (Cons r rs)
  obtain z1 out1 where s: "step r z = (z1, out1)" by (cases "step r z")
  obtain z2 out2 where t: "run_steps step rs z1 = (z2, out2)" by (cases "run_steps step rs z1")
  have "eo \<in> set out1 \<or> eo \<in> set out2" using Cons.prems by (auto simp: s t)
  then show ?case
  proof
    assume "eo \<in> set out1"
    then have "r # rs = [] @ r # rs \<and> run_steps step [] z = (z, []) \<and> step r z = (z1, out1)
      \<and> eo \<in> set out1 \<and> same_setting z z \<and> (\<exists>outr. run_steps step rs z1 = (z', outr))"
      using s t Cons.prems by auto
    then show ?thesis by blast
  next
    assume "eo \<in> set out2"
    from Cons.IH [OF t this] obtain pre r' post zi out0 zj out3 outr where
      i: "rs = pre @ r' # post" "run_steps step pre z1 = (zi, out0)" "step r' zi = (zj, out3)"
        "eo \<in> set out3" "same_setting z1 zi" "run_steps step post zj = (z2, outr)" by blast
    have "z2 = z'" using Cons.prems by (simp add: s t)
    have "run_steps step (r # pre) z = (zi, out1 @ out0)" by (simp add: s i(2))
    moreover have "same_setting z zi" using same_setting_trans [OF setting [OF s] i(5)] .
    moreover have "r # rs = (r # pre) @ r' # post" using i(1) by simp
    ultimately show ?thesis using i(3,4,6) \<open>z2 = z'\<close> by blast
  qed
qed simp

end

section \<open>The two loops\<close>

lemma position_updates [simp]:
  "zone_position_of (z\<lparr>zn_index := g\<rparr>) = grid_position_of g"
  "zone_position_of (zone_despawn e z) = (zone_position_of z)(e := None)"
  "zone_position_of (zone_spawn e k p z) = (zone_position_of z)(e \<mapsto> p)"
  "zone_position_of (z\<lparr>zn_pending_moves := ms\<rparr>) = zone_position_of z"
  "zone_position_of (z\<lparr>zn_pending_teleports := ts\<rparr>) = zone_position_of z"
  "zone_position_of (z\<lparr>zn_tick_count := n, zn_pending_moves := ms\<rparr>) = zone_position_of z"
  "zone_position_of (z\<lparr>zn_npc_routes := rs\<rparr>) = zone_position_of z"
  by (simp_all add: fun_eq_iff zone_position_of_def zone_despawn_def zone_spawn_def
      grid.pos_rem grid.pos_ins)

lemma move_to: "zone_position_of z e \<noteq> None \<Longrightarrow>
    grid_position_of (grid_update e to (zn_index z)) = (zone_position_of z)(e \<mapsto> to)"
  by (simp add: grid.pos_upd zone_position_of_def fun_eq_iff)

lemma setting_updates [simp]:
  "same_setting z (z\<lparr>zn_index := g\<rparr>)" "same_setting z (zone_despawn e z)"
  by (simp_all add: same_setting_def zone_despawn_def)

interpretation moves: reporting_step "move_step dt" fst "\<lambda>r. snd (snd r)"
proof
  fix r z z1 out assume step: "move_step dt r z = (z1, out)"
  obtain e to seq where r: "r = (e, to, seq)" by (cases r)
  note cases = move_step_cases [OF step [unfolded r]]
  show "zone_position_of z1 = fold outcome_effect out (zone_position_of z)"
    by (rule cases) (simp_all add: outcome_effect_def move_to)
  show "same_setting z z1" by (rule cases) simp_all
  show "zone_position_of z (fst r) = None \<Longrightarrow> out = []" by (rule cases) (simp_all add: r)
  show "zone_position_of z (fst r) \<noteq> None \<Longrightarrow> answer (fst r) (snd (snd r)) out"
    by (rule cases) (simp_all add: r answer_def outcome_seq_def)
qed

interpretation teleports: reporting_step teleport_step fst "\<lambda>_. 0"
proof
  fix r z z1 out assume step: "teleport_step r z = (z1, out)"
  obtain e to where r: "r = (e, to)" by (cases r)
  note cases = teleport_step_cases [OF step [unfolded r]]
  show "zone_position_of z1 = fold outcome_effect out (zone_position_of z)"
    by (rule cases) (simp_all add: outcome_effect_def move_to)
  show "same_setting z z1" by (rule cases) simp_all
  show "zone_position_of z (fst r) = None \<Longrightarrow> out = []" by (rule cases) (simp_all add: r)
  show "zone_position_of z (fst r) \<noteq> None \<Longrightarrow> answer (fst r) 0 out"
    by (rule cases) (simp_all add: r answer_def outcome_seq_def)
qed

text \<open>A tick is the loop over the moves, then the loop over the teleports.\<close>

lemma zone_tick_split:
  assumes "zone_tick z = Some (z', out)"
  obtains nanos z1 out1 out2 where "tick_interval (zn_config z) = Some nanos"
    "run_steps (move_step (as_secs_f64 nanos)) (zn_pending_moves z) (begin_tick z) = (z1, out1)"
    "run_steps teleport_step (zn_pending_teleports z) (drain_teleports z1) = (z', out2)"
    "out = out1 @ out2"
proof -
  obtain nanos where n: "tick_interval (zn_config z) = Some nanos"
    using assms by (auto simp: zone_tick_def)
  obtain z1 out1 where m: "run_steps (move_step (as_secs_f64 nanos)) (zn_pending_moves z)
      (begin_tick z) = (z1, out1)"
    by fastforce
  obtain z2 out2 where t: "run_steps teleport_step (zn_pending_teleports z1) (drain_teleports z1) = (z2, out2)"
    by fastforce
  have "zn_pending_teleports z1 = zn_pending_teleports z"
    using moves.run_setting [OF m] by (simp add: same_setting_def begin_tick_def)
  moreover have "z2 = z'" "out = out1 @ out2" using assms by (simp_all add: zone_tick_def n m t)
  ultimately show thesis using that [OF n m] t by simp
qed


section \<open>Invariants of a zone\<close>

lemma run_steps_invariant:
  assumes "\<And>r z z1 out. r \<in> set rs \<Longrightarrow> I z \<Longrightarrow> f r z = (z1, out) \<Longrightarrow> I z1"
  shows "run_steps f rs z = (z', out) \<Longrightarrow> I z \<Longrightarrow> I z'"
  using assms
proof (induction rs arbitrary: z z' out)
  case (Cons r rs)
  obtain z1 out1 where s: "f r z = (z1, out1)" by (cases "f r z")
  obtain z2 out2 where t: "run_steps f rs z1 = (z2, out2)" by (cases "run_steps f rs z1")
  have "I z1" by (rule Cons.prems(3) [OF _ Cons.prems(2) s]) simp
  then have "I z2" by (rule Cons.IH [OF t]) (rule Cons.prems(3), simp_all)
  then show ?case using Cons.prems(1) by (simp add: s t)
qed simp

text \<open>
  The index is consistent, it tracks exactly the entities of the zone, and every recorded route
  belongs to an entity of the zone and is declared in the manifest.
\<close>

definition present :: "zone \<Rightarrow> entity_id \<Rightarrow> bool" where
  "present z e \<longleftrightarrow> zone_position_of z e \<noteq> None"

definition zone_ok :: "zone \<Rightarrow> bool" where
  "zone_ok z \<longleftrightarrow> grid_ok (zn_index z) \<and> keys_unique (zn_entities z)
     \<and> (\<forall>e. has_row (zn_entities z) e \<longleftrightarrow> present z e)
     \<and> (\<forall>e r. map_of (zn_npc_routes z) e = Some r \<longrightarrow>
          present z e \<and> r \<in> rt_id ` set (zm_routes (zn_manifest z)))"

lemma present_updates [simp]:
  "present (zone_despawn e z) = (\<lambda>e'. e' \<noteq> e \<and> present z e')"
  "present (zone_spawn e k p z) = (\<lambda>e'. e' = e \<or> present z e')"
  "present (z\<lparr>zn_npc_routes := rs\<rparr>) = present z"
  "present (begin_tick z) = present z" "present (drain_teleports z) = present z"
  "present (request_move e p n z) = present z" "present (request_teleport e p z) = present z"
  "present (record_entity_type e t z) = present z"
  by (auto simp: fun_eq_iff present_def zone_position_of_def zone_spawn_def zone_despawn_def grid.pos_ins
      grid.pos_rem begin_tick_def drain_teleports_def request_move_def request_teleport_def
      record_entity_type_def)

lemma kind_of_updates [simp]:
  "kind_of (z\<lparr>zn_index := g\<rparr>) = kind_of z"
  "kind_of (zone_despawn e z) = (kind_of z)(e := None)"
  "kind_of (zone_spawn e k p z) = (kind_of z)(e \<mapsto> k)"
  "kind_of (z\<lparr>zn_npc_routes := rs\<rparr>) = kind_of z"
  "kind_of (begin_tick z) = kind_of z" "kind_of (drain_teleports z) = kind_of z"
  by (simp_all add: fun_eq_iff kind_of_def zone_despawn_def zone_spawn_def begin_tick_def
      drain_teleports_def)

lemma position_requests [simp]:
  "zone_position_of (begin_tick z) = zone_position_of z"
  "zone_position_of (drain_teleports z) = zone_position_of z"
  "zone_position_of (request_move e p n z) = zone_position_of z"
  "zone_position_of (request_teleport e p z) = zone_position_of z"
  "zone_position_of (record_entity_type e t z) = zone_position_of z"
  by (simp_all add: fun_eq_iff zone_position_of_def begin_tick_def drain_teleports_def
      request_move_def request_teleport_def record_entity_type_def)

lemma zone_ok_requests [simp]:
  "zone_ok (begin_tick z) = zone_ok z" "zone_ok (drain_teleports z) = zone_ok z"
  "zone_ok (request_move e p n z) = zone_ok z" "zone_ok (request_teleport e p z) = zone_ok z"
  "zone_ok (record_entity_type e t z) = zone_ok z"
  unfolding zone_ok_def present_updates
  by (simp_all add: begin_tick_def drain_teleports_def request_move_def request_teleport_def
      record_entity_type_def)

lemma zone_ok_spawn: "zone_ok z \<Longrightarrow> zone_ok (zone_spawn e k p z)"
  unfolding zone_ok_def present_updates by (auto simp: zone_spawn_def grid_ok_insert)

lemma zone_ok_despawn: "zone_ok z \<Longrightarrow> zone_ok (zone_despawn e z)"
  unfolding zone_ok_def present_updates by (auto simp: zone_despawn_def grid_ok_remove)

lemma zone_ok_route:
  assumes "zone_ok z"
  shows "zone_ok (spawn_npc_with_route e p r z)"
proof -
  define z1 where "z1 = zone_spawn e Npc p z"
  have z1: "zone_ok z1" "present z1 e" using zone_ok_spawn [OF assms] by (simp_all add: z1_def)
  show ?thesis
  proof (cases "list_ex (\<lambda>rt. rt_id rt = r) (zm_routes (zn_manifest z1))")
    case True
    then have "r \<in> rt_id ` set (zm_routes (zn_manifest z1))" by (auto simp: list_ex_iff)
    then have "zone_ok (z1\<lparr>zn_npc_routes := put_row e r (zn_npc_routes z1)\<rparr>)"
      using z1 unfolding zone_ok_def present_updates by auto
    then show ?thesis using True by (simp add: spawn_npc_with_route_def z1_def [symmetric])
  qed (use z1 in \<open>simp add: spawn_npc_with_route_def z1_def [symmetric]\<close>)
qed

lemma zone_ok_moved:
  assumes "zone_ok z" "zone_position_of z e = Some p"
  shows "zone_ok (z\<lparr>zn_index := grid_update e to (zn_index z)\<rparr>)"
proof -
  have "present (z\<lparr>zn_index := grid_update e to (zn_index z)\<rparr>) = present z"
    using assms(2) by (auto simp: fun_eq_iff present_def move_to)
  then show ?thesis using assms(1) unfolding zone_ok_def by (simp add: grid_ok_update)
qed

lemma zone_ok_move_step:
  assumes "zone_ok z" "move_step dt r z = (z1, out)"
  shows "zone_ok z1"
proof -
  obtain e to seq where r: "r = (e, to, seq)" by (cases r)
  show ?thesis
    by (rule move_step_cases [OF assms(2) [unfolded r]])
      (simp_all add: assms(1) zone_ok_despawn zone_ok_moved)
qed

lemma zone_ok_teleport_step:
  assumes "zone_ok z" "teleport_step r z = (z1, out)"
  shows "zone_ok z1"
proof -
  obtain e to where r: "r = (e, to)" by (cases r)
  show ?thesis
    by (rule teleport_step_cases [OF assms(2) [unfolded r]]) (simp_all add: assms(1) zone_ok_moved)
qed

lemma zone_ok_tick:
  assumes "zone_ok z" "zone_tick z = Some (z', out)"
  shows "zone_ok z'"
proof -
  obtain nanos z1 out1 out2 where
    m: "run_steps (move_step (as_secs_f64 nanos)) (zn_pending_moves z) (begin_tick z) = (z1, out1)"
    and t: "run_steps teleport_step (zn_pending_teleports z) (drain_teleports z1) = (z', out2)"
    by (rule zone_tick_split [OF assms(2)])
  have "zone_ok z1"
    by (rule run_steps_invariant [where I = zone_ok, OF _ m]) (simp_all add: assms(1) zone_ok_move_step)
  then show ?thesis
    by (intro run_steps_invariant [where I = zone_ok, OF _ t]) (simp_all add: zone_ok_teleport_step)
qed

text \<open>
  The zones a server can reach: any sequence of the operations, where \<open>placed\<close> restricts the
  points at which entities are spawned and to which they are teleported.
\<close>

inductive zone_reach :: "(zone \<Rightarrow> point3 \<Rightarrow> bool) \<Rightarrow> zone \<Rightarrow> bool" for placed where
  created: "zone_new m cfg nm = Some z \<Longrightarrow> zone_reach placed z"
| spawned: "zone_reach placed z \<Longrightarrow> placed z p \<Longrightarrow> zone_reach placed (zone_spawn e k p z)"
| routed: "zone_reach placed z \<Longrightarrow> placed z p \<Longrightarrow> zone_reach placed (spawn_npc_with_route e p r z)"
| despawned: "zone_reach placed z \<Longrightarrow> zone_reach placed (zone_despawn e z)"
| typed: "zone_reach placed z \<Longrightarrow> zone_reach placed (record_entity_type e t z)"
| asked: "zone_reach placed z \<Longrightarrow> zone_reach placed (request_move e p n z)"
| teleported: "zone_reach placed z \<Longrightarrow> placed z p \<Longrightarrow> zone_reach placed (request_teleport e p z)"
| ticked: "zone_reach placed z \<Longrightarrow> zone_tick z = Some (z', out) \<Longrightarrow> zone_reach placed z'"

lemma zone_ok_new: "zone_new m cfg nm = Some z \<Longrightarrow> zone_ok z"
proof -
  assume "zone_new m cfg nm = Some z"
  then obtain g where g: "grid_new (wc_grid_cell_size_meters cfg) = Some g" "zn_index z = g"
      "zn_entities z = []" "zn_npc_routes z = []"
    by (auto simp: zone_new_def)
  moreover have "\<not> present z e" for e
  proof -
    have "gi_positions g = []" using g(1) by (auto simp: grid_new_def split: if_splits)
    then show ?thesis by (simp add: present_def zone_position_of_def grid_position_of_def g(2))
  qed
  ultimately show ?thesis by (simp add: zone_ok_def grid_ok_new has_row_def)
qed

lemma zone_reach_ok: "zone_reach placed z \<Longrightarrow> zone_ok z"
  by (induction rule: zone_reach.induct)
    (auto simp: zone_ok_new zone_ok_spawn zone_ok_route zone_ok_despawn elim: zone_ok_tick)


section \<open>A small zone\<close>

definition sample_navmesh :: navmesh where
  "sample_navmesh = \<lparr>nm_polygons = [\<lparr>pg_vertices = [(fnum 0, fnum 0, fnum 0), (fnum 100, fnum 0, fnum 0),
     (fnum 100, fnum 100, fnum 0), (fnum 0, fnum 100, fnum 0)]\<rparr>]\<rparr>"

definition empty_zone :: zone where
  "empty_zone = the (zone_new sample_manifest world_config_default sample_navmesh)"

definition hero :: entity_id where "hero = Id 1"
definition wolf :: entity_id where "wolf = Id 2"

lemma empty_zone_new: "zone_new sample_manifest world_config_default sample_navmesh = Some empty_zone"
  by (simp add: empty_zone_def zone_new_def grid_new_def) code_simp

text \<open>The hero asks for two half-meter steps and for one that is too long.\<close>

definition walking_zone :: zone where
  "walking_zone = request_move hero (f64_lit 90 1, fnum 50, fnum 0) 3
     (request_move hero (f64_lit 51 1, fnum 50, fnum 0) 2
     (request_move hero (f64_lit 101 2, fnum 50, fnum 0) 1
     (zone_spawn hero Player (fnum 50, fnum 50, fnum 0) empty_zone)))"


definition outcome_shape :: "movement_outcome \<Rightarrow> nat" where
  "outcome_shape out = (case out of Applied _ _ \<Rightarrow> 0 | Rejected _ rej \<Rightarrow>
     (case rej of OutOfBounds \<Rightarrow> 1 | NotWalkable \<Rightarrow> 2 | TooFast _ _ \<Rightarrow> 3 | Blocked _ \<Rightarrow> 4) | ZoneTransition _ \<Rightarrow> 5)"

definition walking_result :: "zone \<times> outcomes" where
  "walking_result = the (zone_tick walking_zone)"

lemma walking_tick: "zone_tick walking_zone = Some walking_result"
proof -
  have "\<not> Option.is_none (zone_tick walking_zone)" by code_simp
  then show ?thesis by (simp add: walking_result_def Option.is_none_def)
qed

lemma walking_outcomes: "map (\<lambda>(e, res). (e, outcome_seq res, outcome_shape res)) (snd walking_result) =
  [(hero, Some 1, 0), (hero, Some 2, 0), (hero, Some 3, 3)]"
  by code_simp


section \<open>What a tick guarantees\<close>

text \<open>
  C6: The outcomes a tick returns account for every change of position: a client that starts from
  the positions before the tick and replays them (an applied move or teleport sets the position, a
  transition removes the entity, a rejection changes nothing) arrives at the zone's positions
  after the tick.
\<close>

theorem tick_outcomes_explain_positions:
  assumes "zone_tick z = Some (z', out)"
  shows "zone_position_of z' = fold outcome_effect out (zone_position_of z)"
proof -
  obtain nanos z1 out1 out2 where
    m: "run_steps (move_step (as_secs_f64 nanos)) (zn_pending_moves z) (begin_tick z) = (z1, out1)"
    and t: "run_steps teleport_step (zn_pending_teleports z) (drain_teleports z1) = (z', out2)"
    and out: "out = out1 @ out2"
    by (rule zone_tick_split [OF assms])
  show ?thesis using moves.run_effect [OF m] teleports.run_effect [OF t] by (simp add: out)
qed

lemma tick_outcomes_explain_positions_witness:
  "zone_position_of (fst walking_result) hero
     = fold outcome_effect (snd walking_result) (zone_position_of walking_zone) hero
   \<and> map_option footprint (zone_position_of (fst walking_result) hero) = Some (fnum 51, fnum 50)"
proof -
  have "map_option footprint (zone_position_of (fst walking_result) hero) = Some (fnum 51, fnum 50)"
    by code_simp
  then show ?thesis
    using tick_outcomes_explain_positions [of walking_zone "fst walking_result" "snd walking_result"]
      walking_tick by simp
qed

text \<open>
  C19: No request is lost or answered twice: an entity that is in the zone and does not leave it
  gets, in one tick, exactly one outcome per queued move, in the order of the requests and with
  their sequence numbers, followed by one outcome numbered 0 per queued teleport.
\<close>

theorem tick_answers_requests:
  assumes "zone_tick z = Some (z', out)" "zone_position_of z e \<noteq> None" "\<not> left_zone e out"
  shows "seqs_of e out =
      map (\<lambda>(_, _, seq). Some seq) (filter (\<lambda>(e', _). e' = e) (zn_pending_moves z))
      @ map (\<lambda>_. Some 0) (filter (\<lambda>(e', _). e' = e) (zn_pending_teleports z))"
proof -
  obtain nanos z1 out1 out2 where
    m: "run_steps (move_step (as_secs_f64 nanos)) (zn_pending_moves z) (begin_tick z) = (z1, out1)"
    and t: "run_steps teleport_step (zn_pending_teleports z) (drain_teleports z1) = (z', out2)"
    and out: "out = out1 @ out2"
    by (rule zone_tick_split [OF assms(1)])
  have "zone_position_of z1 e \<noteq> None"
    using moves.run_effect [OF m] effect_keeps [of e out1] assms(2,3) by (simp add: out)
  then show ?thesis
    using moves.run_answers [OF m, of e] teleports.run_answers [OF t, of e] assms(2,3)
    by (simp add: out case_prod_unfold)
qed

lemma tick_answers_requests_witness:
  "seqs_of hero (snd walking_result) = [Some 1, Some 2, Some 3]"
proof -
  have "\<not> left_zone hero (snd walking_result)"
  proof
    assume "left_zone hero (snd walking_result)"
    then have "(hero, None, 5) \<in> set (map (\<lambda>(e, res). (e, outcome_seq res, outcome_shape res)) (snd walking_result))"
      unfolding left_zone_def by (force simp: outcome_seq_def outcome_shape_def)
    then show False unfolding walking_outcomes by simp
  qed
  moreover have "\<not> Option.is_none (zone_position_of walking_zone hero)" by code_simp
  moreover have "map (\<lambda>(_, _, seq). Some seq) (filter (\<lambda>(e', _). e' = hero) (zn_pending_moves walking_zone))
      = [Some 1, Some 2, Some 3]"
    "zn_pending_teleports walking_zone = []" by code_simp+
  ultimately show ?thesis
    using tick_answers_requests [of walking_zone "fst walking_result" "snd walking_result" hero] walking_tick
    by (simp add: Option.is_none_def)
qed

text \<open>
  C5: A position is applied in a tick only for a queued teleport or for a queued move that was
  validated in the zone its predecessors in the queue had left: from where the entity then was the
  distance did not exceed what the speed cap allows in one tick (it was within the cap unless a
  coordinate was already infinite or not a number), and the destination is in bounds, walkable, of
  numbers, and blocked by no other entity.
\<close>

theorem applied_moves_validated:
  assumes "zone_tick z = Some (z', out)" "(e, Applied seq to) \<in> set out"
  shows "seq = 0 \<and> (e, to) \<in> set (zn_pending_teleports z) \<or>
    (\<exists>nanos pre post zi outs src cap. tick_interval (zn_config z) = Some nanos
       \<and> zn_pending_moves z = pre @ (e, to, seq) # post
       \<and> run_steps (move_step (as_secs_f64 nanos)) pre (begin_tick z) = (zi, outs)
       \<and> zone_position_of zi e = Some src
       \<and> cap = f_mul (wc_max_speed_meters_per_second (zn_config z)) (as_secs_f64 nanos)
       \<and> \<not> f_gt (distance src to) cap \<and> (finite3 src \<and> \<not> is_nan cap \<longrightarrow> f_le (distance src to) cap)
       \<and> point_in_polygon (footprint to) (bd_points (zm_bounds (zn_manifest z)))
       \<and> navmesh_contains (zn_navmesh z) to \<and> number3 to
       \<and> set (grid_query_radius (zn_index zi) to collision_radius_meters) \<subseteq> {e})"
proof -
  obtain nanos z1 out1 out2 where n: "tick_interval (zn_config z) = Some nanos"
    and m: "run_steps (move_step (as_secs_f64 nanos)) (zn_pending_moves z) (begin_tick z) = (z1, out1)"
    and t: "run_steps teleport_step (zn_pending_teleports z) (drain_teleports z1) = (z', out2)"
    and out: "out = out1 @ out2"
    by (rule zone_tick_split [OF assms(1)])
  consider "(e, Applied seq to) \<in> set out1" | "(e, Applied seq to) \<in> set out2"
    using assms(2) by (auto simp: out)
  then show ?thesis
  proof cases
    case 1
    from moves.run_source [OF m this] obtain pre r post zi outs zj outj where
      q: "zn_pending_moves z = pre @ r # post" "run_steps (move_step (as_secs_f64 nanos)) pre (begin_tick z) = (zi, outs)"
        "move_step (as_secs_f64 nanos) r zi = (zj, outj)" "(e, Applied seq to) \<in> set outj"
        "same_setting (begin_tick z) zi" by blast
    obtain e' to' seq' where r: "r = (e', to', seq')" by (cases r)
    have same: "zn_manifest zi = zn_manifest z" "zn_navmesh zi = zn_navmesh z" "zn_config zi = zn_config z"
      using q(5) by (simp_all add: same_setting_def begin_tick_def)
    show ?thesis
    proof (rule move_step_cases [OF q(3) [unfolded r]])
      fix src assume pos: "zone_position_of zi e' = Some src" and outj: "outj = [(e', Applied seq' to')]"
        and v: "validate_movement (zn_manifest zi) (zn_navmesh zi) (zn_index zi) e'
           (wc_max_speed_meters_per_second (zn_config zi)) (as_secs_f64 nanos) src to' = Inr ()"
      have eq: "e' = e" "seq' = seq" "to' = to" using q(4) outj by auto
      show ?thesis
        using n q(1,2) pos v validated_number [OF v] validated_within_speed [OF v]
        unfolding r eq same validate_movement_ok by (intro disjI2) blast
    qed (use q(4) in auto)
  next
    case 2
    from teleports.run_source [OF t this] obtain pre r post zi outs zj outj where
      q: "zn_pending_teleports z = pre @ r # post" "teleport_step r zi = (zj, outj)"
        "(e, Applied seq to) \<in> set outj" by blast
    obtain e' to' where r: "r = (e', to')" by (cases r)
    show ?thesis
      by (rule teleport_step_cases [OF q(2) [unfolded r]]) (use q(1,3) in \<open>auto simp: r\<close>)
  qed
qed


definition first_step :: point3 where
  "first_step = (f64_lit 101 2, fnum 50, fnum 0)"

lemma applied_moves_validated_witness:
  "(hero, Applied 1 first_step) \<in> set (snd walking_result)
   \<and> navmesh_contains sample_navmesh first_step \<and> number3 first_step"
proof -
  have a: "(hero, Applied 1 first_step) \<in> set (snd walking_result)" by code_simp
  have "zn_navmesh walking_zone = sample_navmesh"
    by (simp add: walking_zone_def request_move_def zone_spawn_def empty_zone_def zone_new_def grid_new_def) code_simp
  then show ?thesis
    using applied_moves_validated [of walking_zone "fst walking_result" "snd walking_result" hero 1 first_step]
      walking_tick a by auto
qed

lemma zone_ok_kind: "zone_ok z \<Longrightarrow> kind_of z e = None \<longleftrightarrow> \<not> present z e"
  unfolding zone_ok_def kind_of_def has_row_def by blast

lemma map_filter_member: "y \<in> set (List.map_filter f xs) \<longleftrightarrow> (\<exists>x \<in> set xs. f x = Some y)"
  by (force simp: List.map_filter_def)

lemma distinct_map_filter_fst:
  assumes "distinct (map fst xs)" "\<And>x y. f x = Some y \<Longrightarrow> fst y = fst x"
  shows "distinct (map fst (List.map_filter f xs))"
  using assms(1)
proof (induction xs)
  case (Cons x xs)
  have "fst ` set (List.map_filter f xs) \<subseteq> fst ` set xs"
    using assms(2) by (force simp: map_filter_member)
  then show ?case using Cons assms(2) [of x] by (cases "f x") (auto simp: map_filter_simps)
qed (simp add: map_filter_simps)

lemma move_keeps_away:
  assumes "\<not> present z e" "move_step dt r z = (z1, out)"
  shows "\<not> present z1 e"
proof -
  obtain e' to seq where r: "r = (e', to, seq)" by (cases r)
  show ?thesis
    by (rule move_step_cases [OF assms(2) [unfolded r]])
      (use assms(1) in \<open>auto simp: present_def move_to\<close>)
qed

lemma teleport_keeps_away:
  assumes "\<not> present z e" "teleport_step r z = (z1, out)"
  shows "\<not> present z1 e"
proof -
  obtain e' to where r: "r = (e', to)" by (cases r)
  show ?thesis
    by (rule teleport_step_cases [OF assms(2) [unfolded r]])
      (use assms(1) in \<open>auto simp: present_def move_to\<close>)
qed

lemma move_kinds:
  assumes "move_step dt r z = (z1, out)" "kind_of z1 e = Some k"
  shows "kind_of z e = Some k"
proof -
  obtain e' to seq where r: "r = (e', to, seq)" by (cases r)
  show ?thesis
    by (rule move_step_cases [OF assms(1) [unfolded r]])
      (use assms(2) in \<open>auto split: if_splits\<close>)
qed

lemma run_kinds:
  assumes "run_steps (move_step dt) rs z = (z', out)" "kind_of z' e = Some k"
  shows "kind_of z e = Some k"
proof -
  have "kind_of z' e = Some k \<longrightarrow> kind_of z e = Some k"
    by (rule run_steps_invariant [where I = "\<lambda>y. kind_of y e = Some k \<longrightarrow> kind_of z e = Some k", OF _ assms(1)])
      (auto dest: move_kinds)
  then show ?thesis using assms(2) by simp
qed

lemma move_transition:
  assumes "move_step dt r z = (z1, out)" "(e, ZoneTransition t) \<in> set out"
  shows "kind_of z e = Some Player \<and> t \<in> ln_target_zone ` set (zm_links (zn_manifest z)) \<and> \<not> present z1 e"
proof -
  obtain e' to seq where r: "r = (e', to, seq)" by (cases r)
  show ?thesis
    by (rule move_step_cases [OF assms(1) [unfolded r]])
      (use assms(2) in \<open>auto simp: crossed_link_def find_Some_iff\<close>)
qed


definition leaving_zone :: zone where
  "leaving_zone = request_move hero (f64_lit 401 4, fnum 50, fnum 0) 1
     (zone_spawn hero Player (f64_lit 399 4, fnum 50, fnum 0) empty_zone)"

definition leaving_result :: "zone \<times> outcomes" where
  "leaving_result = the (zone_tick leaving_zone)"

lemma leaving_tick: "zone_tick leaving_zone = Some leaving_result"
proof -
  have "\<not> Option.is_none (zone_tick leaving_zone)" by code_simp
  then show ?thesis by (simp add: leaving_result_def Option.is_none_def)
qed

lemma zone_ok_samples: "zone_ok leaving_zone"
  unfolding leaving_zone_def zone_ok_requests
  by (intro zone_ok_spawn zone_ok_new [OF empty_zone_new])


text \<open>
  In every zone the server can reach by spawns, requests, ticks and departures, in any order, the
  grid index is consistent, the index tracks exactly the registered entities, an entity is
  registered once, and every recorded route belongs to an entity that is present and is declared
  in the manifest; the roster a joining client is sent lists each entity that is present exactly
  once, with its kind and position.
\<close>

theorem zone_always_consistent:
  assumes "zone_reach (\<lambda>_ _. True) z"
  shows "grid_ok (zn_index z) \<and> keys_unique (zn_entities z)
     \<and> (\<forall>e. kind_of z e = None \<longleftrightarrow> zone_position_of z e = None)
     \<and> (\<forall>e r. map_of (zn_npc_routes z) e = Some r \<longrightarrow>
          zone_position_of z e \<noteq> None \<and> r \<in> rt_id ` set (zm_routes (zn_manifest z)))
     \<and> distinct (map fst (zone_entities z))
     \<and> (\<forall>e k p. (\<exists>t. (e, k, p, t) \<in> set (zone_entities z)) \<longleftrightarrow>
          kind_of z e = Some k \<and> zone_position_of z e = Some p)"
proof -
  have ok: "zone_ok z" using zone_reach_ok [OF assms] .
  have keys: "keys_unique (zn_entities z)" using ok by (simp add: zone_ok_def)
  have kinds: "(e, k) \<in> set (zn_entities z) \<longleftrightarrow> kind_of z e = Some k" for e k
    using in_set_map_of [OF keys] map_of_in_set by (auto simp: kind_of_def)
  have roster: "(e, k, p, t) \<in> set (zone_entities z) \<longleftrightarrow>
      kind_of z e = Some k \<and> zone_position_of z e = Some p
      \<and> t = (case map_of (zn_entity_types z) e of None \<Rightarrow> [] | Some t \<Rightarrow> t)" for e k p t
    unfolding zone_entities_def map_filter_member by (force simp: kinds [symmetric])
  have "distinct (map fst (zone_entities z))"
    unfolding zone_entities_def
    by (rule distinct_map_filter_fst [OF keys [unfolded keys_unique_def]]) auto
  then show ?thesis
    using ok zone_ok_kind [OF ok] unfolding zone_ok_def
    by (simp add: roster present_def)
qed


lemma zone_always_consistent_witness:
  "zone_reach (\<lambda>_ _. True) leaving_zone \<and> grid_ok (zn_index leaving_zone)
   \<and> length (zone_entities leaving_zone) = 1"
proof -
  have r: "zone_reach (\<lambda>_ _. True) leaving_zone"
    unfolding leaving_zone_def by (intro asked spawned created [OF empty_zone_new]) simp
  moreover have "length (zone_entities leaving_zone) = 1" by code_simp
  ultimately show ?thesis using zone_always_consistent [OF r] by simp
qed

definition standable :: "zone \<Rightarrow> point3 \<Rightarrow> bool" where
  "standable z p \<longleftrightarrow> point_in_polygon (footprint p) (bd_points (zm_bounds (zn_manifest z)))
     \<and> navmesh_contains (zn_navmesh z) p"

definition all_standable :: "zone \<Rightarrow> bool" where
  "all_standable z \<longleftrightarrow> (\<forall>e p. zone_position_of z e = Some p \<longrightarrow> standable z p)
     \<and> (\<forall>e p. (e, p) \<in> set (zn_pending_teleports z) \<longrightarrow> standable z p)"

lemma standable_cong:
  "zn_manifest z = zn_manifest z' \<Longrightarrow> zn_navmesh z = zn_navmesh z' \<Longrightarrow> standable z = standable z'"
  by (simp add: fun_eq_iff standable_def)

lemma all_standable_move:
  assumes "all_standable z" "move_step dt r z = (z1, out)"
  shows "all_standable z1"
proof -
  obtain e to seq where r: "r = (e, to, seq)" by (cases r)
  have "same_setting z z1" by (rule moves.setting [OF assms(2)])
  then have same: "standable z1 = standable z" "zn_pending_teleports z1 = zn_pending_teleports z"
    by (auto simp: same_setting_def intro: standable_cong)
  show ?thesis
  proof (rule move_step_cases [OF assms(2) [unfolded r]])
    fix src assume "zone_position_of z e = Some src" and z1: "z1 = z\<lparr>zn_index := grid_update e to (zn_index z)\<rparr>"
      and v: "validate_movement (zn_manifest z) (zn_navmesh z) (zn_index z) e
           (wc_max_speed_meters_per_second (zn_config z)) dt src to = Inr ()"
    then have "zone_position_of z1 = (zone_position_of z)(e \<mapsto> to)" by (simp add: move_to)
    moreover have "standable z to" using v by (simp add: standable_def validate_movement_ok)
    ultimately show ?thesis using assms(1) unfolding all_standable_def same by simp
  qed (use assms(1) same in \<open>auto simp: all_standable_def\<close>)
qed

lemma all_standable_teleport:
  assumes "all_standable z" "teleport_step r z = (z1, out)" "standable z (snd r)"
  shows "all_standable z1"
proof -
  obtain e to where r: "r = (e, to)" by (cases r)
  have "same_setting z z1" by (rule teleports.setting [OF assms(2)])
  then have same: "standable z1 = standable z" "zn_pending_teleports z1 = zn_pending_teleports z"
    by (auto simp: same_setting_def intro: standable_cong)
  show ?thesis
  proof (rule teleport_step_cases [OF assms(2) [unfolded r]])
    fix src assume "zone_position_of z e = Some src" and "z1 = z\<lparr>zn_index := grid_update e to (zn_index z)\<rparr>"
    then have "zone_position_of z1 = (zone_position_of z)(e \<mapsto> to)" by (simp add: move_to)
    then show ?thesis using assms(1,3) unfolding all_standable_def same by (simp add: r)
  qed (use assms(1) same in \<open>auto simp: all_standable_def\<close>)
qed

lemma all_standable_tick:
  assumes "all_standable z" "zone_tick z = Some (z', out)"
  shows "all_standable z'"
proof -
  obtain nanos z1 out1 out2 where
    m: "run_steps (move_step (as_secs_f64 nanos)) (zn_pending_moves z) (begin_tick z) = (z1, out1)"
    and t: "run_steps teleport_step (zn_pending_teleports z) (drain_teleports z1) = (z', out2)"
    by (rule zone_tick_split [OF assms(2)])
  have begun: "standable (begin_tick z) = standable z" by (rule standable_cong) (simp_all add: begin_tick_def)
  have "all_standable (begin_tick z)"
    using assms(1) unfolding all_standable_def begun by (simp add: begin_tick_def [of z] zone_position_of_def)
  then have z1: "all_standable z1"
    by (intro run_steps_invariant [where I = all_standable, OF _ m]) (auto intro: all_standable_move)
  have same: "standable z1 = standable z"
    using moves.run_setting [OF m] by (auto simp: same_setting_def begin_tick_def intro: standable_cong)
  have drained: "standable (drain_teleports z1) = standable z1"
    by (rule standable_cong) (simp_all add: drain_teleports_def)
  define I where "I y \<longleftrightarrow> all_standable y \<and> standable y = standable z" for y
  have "I z'"
  proof (rule run_steps_invariant [where I = I, OF _ t])
    show "I (drain_teleports z1)"
      using z1 unfolding I_def all_standable_def drained same
      by (simp add: drain_teleports_def [of z1] zone_position_of_def)
    fix r y y1 o1
    assume r: "r \<in> set (zn_pending_teleports z)" "I y" "teleport_step r y = (y1, o1)"
    have "standable z (snd r)" using assms(1) r(1) unfolding all_standable_def by (cases r) auto
    then have "all_standable y1" using all_standable_teleport [OF _ r(3)] r(2) by (simp add: I_def)
    moreover have "standable y1 = standable y"
      using teleports.setting [OF r(3)] by (auto simp: same_setting_def intro: standable_cong)
    ultimately show "I y1" using r(2) by (simp add: I_def)
  qed
  then show ?thesis by (simp add: I_def)
qed

lemma all_standable_spawn:
  assumes "all_standable z" "standable z p"
  shows "all_standable (zone_spawn e k p z)"
proof -
  have "standable (zone_spawn e k p z) = standable z" by (rule standable_cong) (simp_all add: zone_spawn_def)
  moreover have "zn_pending_teleports (zone_spawn e k p z) = zn_pending_teleports z" by (simp add: zone_spawn_def)
  ultimately show ?thesis using assms unfolding all_standable_def position_updates by simp
qed

lemma all_standable_setting:
  assumes "all_standable z" "zn_manifest z' = zn_manifest z" "zn_navmesh z' = zn_navmesh z"
    "\<And>e p. zone_position_of z' e = Some p \<Longrightarrow> zone_position_of z e = Some p"
    "\<And>e p. (e, p) \<in> set (zn_pending_teleports z') \<Longrightarrow> (e, p) \<in> set (zn_pending_teleports z) \<or> standable z p"
  shows "all_standable z'"
  unfolding all_standable_def standable_cong [OF assms(2,3)]
  using assms(1) [unfolded all_standable_def] assms(4,5) by blast

lemma zone_reach_standable: "zone_reach standable z \<Longrightarrow> all_standable z"
proof (induction rule: zone_reach.induct)
  case (created m cfg nm z)
  have "kind_of z e = None" for e using created by (auto simp: zone_new_def kind_of_def)
  then have "\<not> present z e" for e using zone_ok_kind [OF zone_ok_new [OF created]] by simp
  moreover have "zn_pending_teleports z = []" using created by (auto simp: zone_new_def)
  ultimately show ?case by (simp add: all_standable_def present_def)
next
  case (spawned z p e k)
  then show ?case by (simp add: all_standable_spawn)
next
  case (routed z p e r)
  have "all_standable (zone_spawn e Npc p z)" using routed by (simp add: all_standable_spawn)
  then show ?case
    by (rule all_standable_setting) (auto simp: spawn_npc_with_route_def Let_def split: if_splits)
next
  case (despawned z e)
  then show ?case
    by (intro all_standable_setting [of z "zone_despawn e z"])
      (auto simp: zone_despawn_def [of e z] grid.pos_rem zone_position_of_def split: if_splits)
next
  case (typed z e t)
  then show ?case
    by (intro all_standable_setting [of z "record_entity_type e t z"]) (auto simp: record_entity_type_def [of e t z] zone_position_of_def)
next
  case (asked z e p n)
  then show ?case
    by (intro all_standable_setting [of z "request_move e p n z"]) (auto simp: request_move_def [of e p n z] zone_position_of_def)
next
  case (teleported z p e)
  then show ?case
    by (intro all_standable_setting [of z "request_teleport e p z"]) (auto simp: request_teleport_def [of e p z] zone_position_of_def)
next
  case (ticked z z' out)
  then show ?case by (blast intro: all_standable_tick)
qed

text \<open>
  C18: If entities are only ever spawned at, and teleported to, points inside the zone's bounds and
  on its navigation mesh, then every entity is at such a point at all times: whatever moves the
  clients request, no tick lets an entity stand outside the walkable zone.
\<close>

theorem positions_stay_walkable:
  assumes "zone_reach standable z" "zone_position_of z e = Some p"
  shows "point_in_polygon (footprint p) (bd_points (zm_bounds (zn_manifest z)))
    \<and> navmesh_contains (zn_navmesh z) p \<and> number3 p"
  using zone_reach_standable [OF assms(1)] assms(2) walkable_number
  unfolding all_standable_def standable_def by blast

lemma positions_stay_walkable_witness:
  "zone_reach standable (fst walking_result) \<and> \<not> Option.is_none (zone_position_of (fst walking_result) hero)
   \<and> list_all (\<lambda>p. navmesh_contains (zn_navmesh (fst walking_result)) p)
        (case zone_position_of (fst walking_result) hero of None \<Rightarrow> [] | Some p \<Rightarrow> [p])"
proof -
  have "standable empty_zone (fnum 50, fnum 50, fnum 0)" unfolding standable_def by code_simp
  then have "zone_reach standable walking_zone"
    unfolding walking_zone_def by (intro asked spawned created [OF empty_zone_new])
  then have r: "zone_reach standable (fst walking_result)"
    by (rule ticked [where out = "snd walking_result"]) (simp add: walking_tick)
  moreover have "\<not> Option.is_none (zone_position_of (fst walking_result) hero)" by code_simp
  ultimately show ?thesis
    using positions_stay_walkable [OF r, of hero] by (auto simp: Option.is_none_def)
qed

section \<open>Where the speed cap does not hold\<close>

text \<open>
  The speed cap holds per request, not per tick. The validation compares each queued move with
  the distance of one whole tick, so two moves queued before one tick are both applied, and the
  entity ends farther away than the cap allows in a tick.
\<close>

theorem batched_moves_outrun_the_cap:
  "zone_tick walking_zone = Some walking_result
   \<and> (case (zone_position_of walking_zone hero, zone_position_of (fst walking_result) hero) of
        (Some p, Some q) \<Rightarrow> f_gt (distance p q)
          (f_mul (wc_max_speed_meters_per_second (zn_config walking_zone)) (as_secs_f64 50000000))
      | _ \<Rightarrow> False)
   \<and> tick_interval (zn_config walking_zone) = Some 50000000"
proof (intro conjI)
  show "zone_tick walking_zone = Some walking_result" by (rule walking_tick)
qed code_simp+

text \<open>
  A transition is not held to the speed cap when the requested height is not a number: the
  distance is then not a number, which exceeds nothing, and the link test looks at the footprint
  only. From any distance a player crosses a link in one tick.
\<close>

theorem nan_height_crosses_links_at_any_speed:
  assumes "zone_position_of z e = Some src" "kind_of z e = Some Player"
    "crossed_link (zm_links (zn_manifest z)) src (x, y, NaN) = Some l"
  shows "move_step dt (e, (x, y, NaN), seq) z = (zone_despawn e z, [(e, ZoneTransition (ln_target_zone l))])"
proof -
  have "distance src (x, y, NaN) = NaN" by (cases src) (simp add: distance_def Let_def)
  then show ?thesis using assms by (simp add: move_step_def crossing_def movement_distance_eq)
qed

definition far_zone :: zone where
  "far_zone = zone_spawn hero Player (fnum 1, fnum 50, fnum 0) empty_zone"

lemma nan_height_crosses_links_at_any_speed_witness:
  "map snd (snd (move_step (as_secs_f64 50000000) (hero, (fnum 5000, fnum 50, NaN), 1) far_zone)) = [ZoneTransition ''village'']"
proof -
  have pos: "zone_position_of far_zone hero = Some (fnum 1, fnum 50, fnum 0)" by code_simp
  have kind: "kind_of far_zone hero = Some Player" by code_simp
  have "map_option ln_target_zone (crossed_link (zm_links (zn_manifest far_zone))
      (fnum 1, fnum 50, fnum 0) (fnum 5000, fnum 50, NaN)) = Some ''village''" by code_simp
  then obtain l where l: "crossed_link (zm_links (zn_manifest far_zone))
      (fnum 1, fnum 50, fnum 0) (fnum 5000, fnum 50, NaN) = Some l" "ln_target_zone l = ''village''" by auto
  show ?thesis
    using nan_height_crosses_links_at_any_speed [OF pos kind l(1)] l(2) by simp
qed

end
