(* ===== verification/ContentPack.thy ===== *)
theory ContentPack
  imports ContentManifest Effects Tables "HOL-Library.List_Lexorder" "HOL-Library.Char_ord"
    "HOL-Library.Product_Lexorder"
begin

text \<open>
  \<^verbatim>\<open>crates/content/src/content_pack.rs\<close> and \<^verbatim>\<open>items.rs\<close>: the loader that ties the zones of a game
  together, and the item catalog with its drop sources. Files and the YAML parser are arguments.
  The catalog's two tables are the record \<open>catalog\<close>; an item's metadata is a JSON value.
\<close>

section \<open>The content pack\<close>

record zone_entry =
  ze_id :: string
  ze_path :: string

record raw_content_pack =
  rcp_schema_version :: u32
  rcp_id :: string
  rcp_display_name :: string
  rcp_version :: string
  rcp_zones :: "zone_entry list"

record content_pack =
  cp_id :: string
  cp_display_name :: string
  cp_version :: string
  cp_zones :: "zone_manifest list"

text \<open>\<^verbatim>\<open>ZoneManifest::from_file\<close>: \<open>read\<close> is the file system below the pack's directory.\<close>

definition manifest_from_file ::
  "(string \<Rightarrow> string option) \<Rightarrow> (string \<Rightarrow> zone_manifest option) \<Rightarrow> string \<Rightarrow> content_error + zone_manifest" where
  "manifest_from_file read parse path =
     try_then (ok_or_else (read path) (ContentRead path)) (\<lambda>contents. manifest_from_yaml parse contents)"

text \<open>The loop over the entries: the manifests that load, and the problems of those that do not.\<close>

fun load_entries ::
  "(string \<Rightarrow> content_error + zone_manifest) \<Rightarrow> zone_entry list \<Rightarrow> zone_manifest list \<times> pack_problem list" where
  "load_entries load [] = ([], [])"
| "load_entries load (entry # entries) =
     (let (zones, problems) = load_entries load entries in
      case load (ze_path entry) of
        Inr manifest \<Rightarrow>
          (if zm_id manifest \<noteq> ze_id entry
           then (zones, EntryIdMismatch (ze_id entry) (ze_path entry) (zm_id manifest) # problems)
           else (manifest # zones, problems))
      | Inl e \<Rightarrow> (zones, EntryFailed (ze_path entry) e # problems))"

definition link_target_problems :: "zone_manifest list \<Rightarrow> pack_problem list" where
  "link_target_problems zones = concat (List.map (\<lambda>zone.
     concat (List.map (\<lambda>l. report_if (ln_target_zone l \<notin> set (List.map zm_id zones))
       (TargetZoneUnknown (zm_id zone) (ln_target_zone l))) (zm_links zone))) zones)"

definition content_pack_from_file ::
  "(string \<Rightarrow> string option) \<Rightarrow> (string \<Rightarrow> raw_content_pack option) \<Rightarrow> (string \<Rightarrow> zone_manifest option)
     \<Rightarrow> string \<Rightarrow> content_error + content_pack" where
  "content_pack_from_file read parse parse_zone path =
     try_then (ok_or_else (read path) (ContentRead path)) (\<lambda>contents.
     try_then (ok_or_else (parse contents) ContentParse) (\<lambda>raw.
     try_then (ensure (rcp_schema_version raw = supported_schema_version)
       (PackVersion (rcp_schema_version raw))) (\<lambda>_.
     (let (zones, entry_problems) = load_entries (manifest_from_file read parse_zone) (rcp_zones raw);
          problems = entry_problems @ link_target_problems zones
      in if problems \<noteq> [] then Inl (PackProblems problems)
         else Inr \<lparr>cp_id = rcp_id raw, cp_display_name = rcp_display_name raw,
                cp_version = rcp_version raw, cp_zones = zones\<rparr>))))"

lemma load_entries_ok:
  "load_entries load es = (zones, []) \<longleftrightarrow>
     list_all2 (\<lambda>e m. load (ze_path e) = Inr m \<and> zm_id m = ze_id e) es zones"
proof (induction es arbitrary: zones)
  case (Cons e es)
  obtain zs ps where l: "load_entries load es = (zs, ps)" by (cases "load_entries load es")
  show ?case
    using Cons.IH [of "tl zones"] Cons.IH [of zs]
    by (cases "load (ze_path e)"; cases zones) (auto simp: l list_all2_Cons1)
qed auto

lemma link_target_problems_Nil:
  "link_target_problems zones = [] \<longleftrightarrow>
     (\<forall>z \<in> set zones. \<forall>l \<in> set (zm_links z). \<exists>t \<in> set zones. ln_target_zone l = zm_id t)"
  by (auto simp: link_target_problems_def)

lemma manifest_from_file_Inr:
  "manifest_from_file read parse path = Inr m \<Longrightarrow> manifest_ok m"
  by (auto simp: manifest_from_file_def manifest_from_yaml_def Let_def validate_manifest_Nil split: if_splits)

text \<open>
  A content pack that loads is closed: it has one zone per entry, in the order of the entries
  and with the entry's id, every zone's manifest is sound, and every link of every zone leads to a
  zone of the pack.
\<close>

theorem content_pack_closed:
  assumes "content_pack_from_file read parse parse_zone path = Inr loaded"
  shows "\<exists>contents raw. read path = Some contents \<and> parse contents = Some raw
     \<and> List.map zm_id (cp_zones loaded) = List.map ze_id (rcp_zones raw)
     \<and> (\<forall>z \<in> set (cp_zones loaded). manifest_ok z
          \<and> (\<forall>l \<in> set (zm_links z). \<exists>t \<in> set (cp_zones loaded). ln_target_zone l = zm_id t))"
proof -
  obtain contents raw where r: "read path = Some contents" "parse contents = Some raw"
    using assms by (auto simp: content_pack_from_file_def)
  obtain zones ps where l: "load_entries (manifest_from_file read parse_zone) (rcp_zones raw) = (zones, ps)"
    by (cases "load_entries (manifest_from_file read parse_zone) (rcp_zones raw)")
  have no: "ps = []" "link_target_problems zones = []" and zones: "cp_zones loaded = zones"
    using assms by (auto simp: content_pack_from_file_def r l Let_def split: if_splits)
  have all: "list_all2 (\<lambda>e m. manifest_from_file read parse_zone (ze_path e) = Inr m \<and> zm_id m = ze_id e)
      (rcp_zones raw) zones"
    using l by (simp add: no load_entries_ok)
  then have "List.map zm_id zones = List.map ze_id (rcp_zones raw)"
    by (induction rule: list_all2_induct) auto
  moreover have "\<forall>z \<in> set zones. manifest_ok z"
    using all by (induction rule: list_all2_induct) (auto dest: manifest_from_file_Inr)
  ultimately show ?thesis using r no(2) zones by (auto simp: link_target_problems_Nil)
qed

section \<open>The item catalog\<close>

datatype json = JNull | JBool bool | JNumber int | JString string | JArray "json list" | JObject "(string \<times> json) list"

record item_entry =
  ie_item_type :: string
  ie_display_name :: string
  ie_tags :: "string list"
  ie_metadata :: json

record catalog =
  item_types :: "(string, item_entry) table"
  item_drop_sources :: "(string \<times> string \<times> string) list"

datatype item_problem =
    ItemTypeEmpty
  | ItemDisplayNameEmpty
  | TagEmpty
  | TagRepeated string
  | MetadataNotObject json

datatype catalog_error = EntryInvalid string "item_problem list" | ItemNotInCatalog string

definition has_item_tag :: "item_entry \<Rightarrow> string \<Rightarrow> bool" where
  "has_item_tag entry tag = list_ex (\<lambda>t. t = tag) (ie_tags entry)"

text \<open>The loop over the tags: an empty tag is not remembered, a repeated one is reported.\<close>

fun tag_problems :: "string list \<Rightarrow> string list \<Rightarrow> item_problem list" where
  "tag_problems seen [] = []"
| "tag_problems seen (t # ts) =
     (if blank t then TagEmpty # tag_problems seen ts
      else if t \<in> set seen then TagRepeated t # tag_problems seen ts
      else tag_problems (t # seen) ts)"

definition is_object :: "json \<Rightarrow> bool" where
  "is_object j = (case j of JObject _ \<Rightarrow> True | _ \<Rightarrow> False)"

definition validate_entry :: "item_entry \<Rightarrow> item_problem list" where
  "validate_entry entry =
     report_if (blank (ie_item_type entry)) ItemTypeEmpty
     @ report_if (blank (ie_display_name entry)) ItemDisplayNameEmpty
     @ tag_problems [] (ie_tags entry)
     @ report_if (\<not> is_object (ie_metadata entry)) (MetadataNotObject (ie_metadata entry))"

definition register_item :: "item_entry \<Rightarrow> (catalog, catalog_error, unit) action" where
  "register_item entry =
     (let problems = validate_entry entry in
      andThen (require (problems = []) (EntryInvalid (ie_item_type entry) problems)) (\<lambda>_.
      execute (\<lambda>s. s\<lparr>item_types := put_row (ie_item_type entry) entry (item_types s)\<rparr>)))"

definition get_item :: "string \<Rightarrow> (catalog, catalog_error, item_entry option) action" where
  "get_item t = query (\<lambda>s. map_of (item_types s) t)"

definition item_exists :: "string \<Rightarrow> (catalog, catalog_error, bool) action" where
  "item_exists t = andThen (get_item t) (\<lambda>r. ok (r \<noteq> None))"

text \<open>The whole catalog, and the set of its types. \<^verbatim>\<open>ORDER BY\<close> is taken in the C collation, the
  order of code points.\<close>

definition item_list :: "(catalog, catalog_error, item_entry list) action" where
  "item_list = query (\<lambda>s. sort_key ie_item_type (List.map snd (item_types s)))"

definition all_item_types :: "(catalog, catalog_error, string set) action" where
  "all_item_types = andThen item_list (\<lambda>entries. ok (ie_item_type ` set entries))"

text \<open>\<^verbatim>\<open>item_drop_sources\<close> references \<^verbatim>\<open>item_types\<close> with \<^verbatim>\<open>ON DELETE CASCADE\<close>.\<close>

definition item_delete :: "string \<Rightarrow> (catalog, catalog_error, unit) action" where
  "item_delete t = execute (\<lambda>s. s\<lparr>item_types := del_row t (item_types s),
     item_drop_sources := filter (\<lambda>(t', _). t' \<noteq> t) (item_drop_sources s)\<rparr>)"

definition link_drop_source :: "string \<times> string \<times> string \<Rightarrow> (catalog, catalog_error, unit) action" where
  "link_drop_source src = (\<lambda>s.
     if src \<in> set (item_drop_sources s) then (Inr (), s)
     else if \<not> has_row (item_types s) (fst src) then (Inl (ItemNotInCatalog (fst src)), s)
     else (Inr (), s\<lparr>item_drop_sources := item_drop_sources s @ [src]\<rparr>))"

definition unlink_drop_source :: "string \<times> string \<times> string \<Rightarrow> (catalog, catalog_error, unit) action" where
  "unlink_drop_source src =
     execute (\<lambda>s. s\<lparr>item_drop_sources := filter (\<lambda>d. d \<noteq> src) (item_drop_sources s)\<rparr>)"

definition drop_sources_for_item :: "string \<Rightarrow> (catalog, catalog_error, (string \<times> string) list) action" where
  "drop_sources_for_item t = query (\<lambda>s. sort (List.map snd (filter (\<lambda>(t', _). t' = t) (item_drop_sources s))))"

definition sample_village :: zone_manifest where
  "sample_village = sample_manifest\<lparr>zm_id := ''village'', zm_links := []\<rparr>"

definition sample_pack :: raw_content_pack where
  "sample_pack = \<lparr>rcp_schema_version = 1, rcp_id = ''game'', rcp_display_name = ''Game'', rcp_version = ''1'',
     rcp_zones = [\<lparr>ze_id = ''forest'', ze_path = ''f''\<rparr>, \<lparr>ze_id = ''village'', ze_path = ''v''\<rparr>]\<rparr>"

definition sample_zone_file :: "string \<Rightarrow> zone_manifest option" where
  "sample_zone_file path = (if path = ''f'' then Some sample_manifest
     else if path = ''v'' then Some sample_village else None)"

lemma sample_village_ok: "manifest_ok sample_village"
  using sample_manifest_ok by (simp add: manifest_ok_def sample_village_def Let_def blank_def is_whitespace_def)

lemma sample_pack_loads:
  "content_pack_from_file Some (\<lambda>_. Some sample_pack) sample_zone_file ''pack''
     = Inr \<lparr>cp_id = ''game'', cp_display_name = ''Game'', cp_version = ''1'',
         cp_zones = [sample_manifest, sample_village]\<rparr>"
proof -
  have load: "manifest_from_file Some sample_zone_file ''f'' = Inr sample_manifest"
    "manifest_from_file Some sample_zone_file ''v'' = Inr sample_village"
    using sample_manifest_ok sample_village_ok
    by (simp_all add: manifest_from_file_def manifest_from_yaml_def sample_zone_file_def Let_def
        validate_manifest_Nil [symmetric])
  have ids: "zm_id sample_manifest = ''forest''" "zm_id sample_village = ''village''"
    by (simp_all add: sample_manifest_def sample_village_def)
  have "link_target_problems [sample_manifest, sample_village] = []"
    unfolding link_target_problems_Nil by (simp add: ids) (simp add: sample_manifest_def sample_village_def)
  then show ?thesis
    by (simp add: content_pack_from_file_def sample_pack_def load ids supported_schema_version_def)
qed

lemma content_pack_closed_witness:
  "manifest_ok sample_manifest \<and> manifest_ok sample_village
     \<and> list_all (\<lambda>l. ln_target_zone l \<in> {zm_id sample_manifest, zm_id sample_village}) (zm_links sample_manifest)"
  using content_pack_closed [OF sample_pack_loads] by (auto simp: list_all_iff)

section \<open>Catalog integrity\<close>

text \<open>
  What the migrations and the store keep: keys are unique, every stored entry is valid and stored
  under its own type, and every drop source names a catalogued item once.
\<close>

definition catalog_ok :: "catalog \<Rightarrow> bool" where
  "catalog_ok s \<longleftrightarrow> keys_unique (item_types s)
     \<and> (\<forall>t e. map_of (item_types s) t = Some e \<longrightarrow> ie_item_type e = t \<and> validate_entry e = [])
     \<and> distinct (item_drop_sources s)
     \<and> (\<forall>src \<in> set (item_drop_sources s). has_row (item_types s) (fst src))"

lemma tag_problems_Nil:
  "tag_problems seen ts = [] \<longleftrightarrow> (\<forall>t \<in> set ts. \<not> blank t) \<and> distinct ts \<and> set ts \<inter> set seen = {}"
  by (induction seen ts rule: tag_problems.induct) auto

lemma pres_catalog [pres_intros]:
  "preserves catalog_ok (register_item entry)" "preserves catalog_ok (item_delete t)"
  "preserves catalog_ok (link_drop_source src)" "preserves catalog_ok (unlink_drop_source src)"
  "preserves catalog_ok (get_item t)" "preserves catalog_ok (item_exists t)"
  by (auto simp: preserves_def register_item_def item_delete_def link_drop_source_def unlink_drop_source_def
      get_item_def item_exists_def Let_def catalog_ok_def split: if_splits)

text \<open>
  The catalog accepts exactly the entries with a non-blank type and name, non-blank distinct tags
  and an object as metadata; registering again overwrites the entry; and no sequence of operations
  leaves an invalid entry or a drop source of an unknown item.
\<close>

theorem catalog_registration:
  "(fst (register_item entry s) = Inr () \<longleftrightarrow>
      \<not> blank (ie_item_type entry) \<and> \<not> blank (ie_display_name entry)
      \<and> (\<forall>t \<in> set (ie_tags entry). \<not> blank t) \<and> distinct (ie_tags entry) \<and> is_object (ie_metadata entry))
   \<and> (register_item entry s = (Inr (), s') \<longrightarrow>
      map_of (item_types s') = (map_of (item_types s))(ie_item_type entry \<mapsto> entry))
   \<and> (catalog_ok s \<longrightarrow> catalog_ok (snd (register_item entry s)) \<and> catalog_ok (snd (item_delete t s))
      \<and> catalog_ok (snd (link_drop_source src s)) \<and> catalog_ok (snd (unlink_drop_source src s)))"
  using preserves_sndD [OF pres_catalog(1)] preserves_sndD [OF pres_catalog(2)]
    preserves_sndD [OF pres_catalog(3)] preserves_sndD [OF pres_catalog(4)]
  by (auto simp: register_item_def validate_entry_def tag_problems_Nil Let_def)

end
