(* ===== verification/ChatStore.thy ===== *)
theory ChatStore
  imports Effects Tables Errors RustText
begin

text \<open>
  \<^verbatim>\<open>crates/chat/src/store.rs\<close>, the durable log of \<^verbatim>\<open>message_log.rs\<close>, the lookup by name of
  \<^verbatim>\<open>demo_support.rs\<close> and the system channels of \<^verbatim>\<open>schema.rs\<close>. The chat tables are the record
  \<open>chat_db\<close>; a new channel's id is an argument of the operation that makes it. \<open>find_direct\<close> and
  the insertion of \<open>create_direct\<close> are separate statements, as in the code, so that two callers can
  be interleaved between them.
\<close>

section \<open>Tables\<close>

datatype channel_type = DirectChannel | GroupChannel | GuildChannel | ZoneChannel

record channel_row =
  cc_type :: channel_type
  cc_name :: "string option"
  cc_zone_id :: "string option"
  cc_category :: "string option"
  cc_created_by :: "account_id option"

record chat_message =
  cm_channel :: channel_id
  cm_sender :: account_id
  cm_body :: string
  cm_sent_at :: int

record chat_db =
  chat_accounts :: "account_id list"
  chat_channels :: "(channel_id, channel_row) table"
  chat_members :: "(channel_id \<times> account_id) list"
  chat_messages :: "chat_message list"

datatype chat_error =
    ChatSql sql_error
  | ChannelNameEmpty
  | NoSuchChannel
  | NotJoinable channel_type
  | SenderNotMember
  | ZoneChannelRaceLost
  | ChatConfigParse
  | AutoJoinOnGlobal string
  | PubSubUnavailable

type_synonym 'a chat = "(chat_db, chat_error, 'a) action"

definition zone_key :: "channel_row \<Rightarrow> (string option \<times> string option) option" where
  "zone_key r = (if cc_type r = ZoneChannel then Some (cc_zone_id r, cc_category r) else None)"

text \<open>The unique index of migrations 0003 and 0006: \<^verbatim>\<open>NULLS NOT DISTINCT\<close>, zone channels only.\<close>

definition zone_conflict :: "channel_row \<Rightarrow> chat_db \<Rightarrow> bool" where
  "zone_conflict row s \<longleftrightarrow> zone_key row \<noteq> None
     \<and> list_ex (\<lambda>(_, r). zone_key r = zone_key row) (chat_channels s)"

definition creator_known :: "channel_row \<Rightarrow> chat_db \<Rightarrow> bool" where
  "creator_known row s = (case cc_created_by row of None \<Rightarrow> True | Some a \<Rightarrow> a \<in> set (chat_accounts s))"

definition insert_channel :: "channel_id \<Rightarrow> channel_row \<Rightarrow> unit chat" where
  "insert_channel c row = (\<lambda>s.
     if has_row (chat_channels s) c \<or> zone_conflict row s then (Inl (ChatSql UniqueViolation), s)
     else if \<not> creator_known row s then (Inl (ChatSql ForeignKeyViolation), s)
     else (Inr (), s\<lparr>chat_channels := chat_channels s @ [(c, row)]\<rparr>))"

text \<open>\<^verbatim>\<open>ON CONFLICT DO NOTHING\<close>; the value is \<^verbatim>\<open>rows_affected() == 1\<close>.\<close>

definition insert_channel_or_nothing :: "channel_id \<Rightarrow> channel_row \<Rightarrow> bool chat" where
  "insert_channel_or_nothing c row = (\<lambda>s.
     if has_row (chat_channels s) c \<or> zone_conflict row s then (Inr False, s)
     else if \<not> creator_known row s then (Inl (ChatSql ForeignKeyViolation), s)
     else (Inr True, s\<lparr>chat_channels := chat_channels s @ [(c, row)]\<rparr>))"

definition member_known :: "channel_id \<Rightarrow> account_id \<Rightarrow> chat_db \<Rightarrow> bool" where
  "member_known c a s \<longleftrightarrow> has_row (chat_channels s) c \<and> a \<in> set (chat_accounts s)"

definition insert_chat_member :: "channel_id \<Rightarrow> account_id \<Rightarrow> unit chat" where
  "insert_chat_member c a = (\<lambda>s.
     if (c, a) \<in> set (chat_members s) then (Inl (ChatSql UniqueViolation), s)
     else if \<not> member_known c a s then (Inl (ChatSql ForeignKeyViolation), s)
     else (Inr (), s\<lparr>chat_members := chat_members s @ [(c, a)]\<rparr>))"

definition insert_chat_member_or_nothing :: "channel_id \<Rightarrow> account_id \<Rightarrow> unit chat" where
  "insert_chat_member_or_nothing c a = (\<lambda>s.
     if (c, a) \<in> set (chat_members s) then (Inr (), s) else insert_chat_member c a s)"

definition delete_chat_member :: "channel_id \<Rightarrow> account_id \<Rightarrow> unit chat" where
  "delete_chat_member c a =
     execute (\<lambda>s. s\<lparr>chat_members := filter (\<lambda>m. m \<noteq> (c, a)) (chat_members s)\<rparr>)"

section \<open>Direct channels\<close>

definition channel_type_of :: "channel_id \<Rightarrow> channel_type option chat" where
  "channel_type_of c = query (\<lambda>s. map_option cc_type (map_of (chat_channels s) c))"

definition is_direct :: "chat_db \<Rightarrow> channel_id \<Rightarrow> bool" where
  "is_direct s c \<longleftrightarrow> map_option cc_type (map_of (chat_channels s) c) = Some DirectChannel"

text \<open>The self-join; SQL leaves open which matching row comes first.\<close>

definition find_direct :: "account_id \<Rightarrow> account_id \<Rightarrow> channel_id option chat" where
  "find_direct a b = query (\<lambda>s. map_option fst (List.find
     (\<lambda>(c, m). m = a \<and> (c, b) \<in> set (chat_members s) \<and> is_direct s c) (chat_members s)))"

definition direct_row :: channel_row where
  "direct_row = \<lparr>cc_type = DirectChannel, cc_name = None, cc_zone_id = None, cc_category = None,
     cc_created_by = None\<rparr>"

definition insert_direct :: "channel_id \<Rightarrow> account_id \<Rightarrow> account_id \<Rightarrow> channel_id chat" where
  "insert_direct fresh a b = transaction (
     andThen (insert_channel fresh direct_row) (\<lambda>_.
     andThen (for_each (\<lambda>account _. insert_chat_member fresh account) [a, b] ()) (\<lambda>_.
     ok fresh)))"

definition create_direct :: "channel_id \<Rightarrow> account_id \<Rightarrow> account_id \<Rightarrow> channel_id chat" where
  "create_direct fresh a b =
     andThen (find_direct a b) (\<lambda>existing. case existing of
       Some c \<Rightarrow> ok c
     | None \<Rightarrow> insert_direct fresh a b)"

section \<open>Named channels\<close>

definition create_named :: "channel_id \<Rightarrow> channel_type \<Rightarrow> account_id \<Rightarrow> string \<Rightarrow> channel_id chat" where
  "create_named fresh kind creator name =
     andThen (require (\<not> blank name) ChannelNameEmpty) (\<lambda>_.
     transaction (
       andThen (insert_channel fresh \<lparr>cc_type = kind, cc_name = Some name, cc_zone_id = None,
         cc_category = None, cc_created_by = Some creator\<rparr>) (\<lambda>_.
       andThen (insert_chat_member fresh creator) (\<lambda>_.
       ok fresh))))"

definition create_group :: "channel_id \<Rightarrow> account_id \<Rightarrow> string \<Rightarrow> channel_id chat" where
  "create_group fresh creator name = create_named fresh GroupChannel creator name"

definition create_guild :: "channel_id \<Rightarrow> account_id \<Rightarrow> string \<Rightarrow> channel_id chat" where
  "create_guild fresh creator name = create_named fresh GuildChannel creator name"

text \<open>\<^verbatim>\<open>demo_support::find_or_create_named_channel\<close>, which a client's \<^verbatim>\<open>Join\<close> goes through.\<close>

definition find_group :: "string \<Rightarrow> channel_id option chat" where
  "find_group name = query (\<lambda>s. map_option fst (List.find
     (\<lambda>(c, r). cc_type r = GroupChannel \<and> cc_name r = Some name) (chat_channels s)))"

definition find_or_create_named_channel :: "channel_id \<Rightarrow> account_id \<Rightarrow> string \<Rightarrow> channel_id chat" where
  "find_or_create_named_channel fresh creator name =
     andThen (find_group name) (\<lambda>existing. case existing of
       Some c \<Rightarrow> ok c
     | None \<Rightarrow> create_group fresh creator name)"

section \<open>Zone channels\<close>

definition find_zone_channel :: "string option \<Rightarrow> string \<Rightarrow> channel_id option chat" where
  "find_zone_channel zone category = query (\<lambda>s. map_option fst (List.find
     (\<lambda>(c, r). zone_key r = Some (zone, Some category)) (chat_channels s)))"

definition zone_row :: "string option \<Rightarrow> string \<Rightarrow> string \<Rightarrow> channel_row" where
  "zone_row zone category name = \<lparr>cc_type = ZoneChannel, cc_name = Some name, cc_zone_id = zone,
     cc_category = Some category, cc_created_by = None\<rparr>"

definition ensure_zone_insert :: "channel_id \<Rightarrow> string option \<Rightarrow> string \<Rightarrow> string \<Rightarrow> channel_id chat" where
  "ensure_zone_insert fresh zone category name =
     andThen (insert_channel_or_nothing fresh (zone_row zone category name)) (\<lambda>inserted.
     if inserted then ok fresh
     else andThen (find_zone_channel zone category) (\<lambda>found. ok_or found ZoneChannelRaceLost))"

definition ensure_zone_channel :: "channel_id \<Rightarrow> string option \<Rightarrow> string \<Rightarrow> string \<Rightarrow> channel_id chat" where
  "ensure_zone_channel fresh zone category name =
     andThen (find_zone_channel zone category) (\<lambda>existing. case existing of
       Some c \<Rightarrow> ok c
     | None \<Rightarrow> ensure_zone_insert fresh zone category name)"

section \<open>Membership\<close>

definition require_joinable :: "channel_id \<Rightarrow> unit chat" where
  "require_joinable c =
     andThen (channel_type_of c) (\<lambda>found.
     andThen (ok_or found NoSuchChannel) (\<lambda>kind.
     require (kind = GroupChannel \<or> kind = GuildChannel) (NotJoinable kind)))"

definition chat_join :: "channel_id \<Rightarrow> account_id \<Rightarrow> unit chat" where
  "chat_join c a = andThen (require_joinable c) (\<lambda>_. insert_chat_member_or_nothing c a)"

definition chat_leave :: "channel_id \<Rightarrow> account_id \<Rightarrow> unit chat" where
  "chat_leave c a = andThen (require_joinable c) (\<lambda>_. delete_chat_member c a)"

definition chat_members_of :: "channel_id \<Rightarrow> account_id list chat" where
  "chat_members_of c = query (\<lambda>s. map snd (filter (\<lambda>m. fst m = c) (chat_members s)))"

definition is_chat_member :: "channel_id \<Rightarrow> account_id \<Rightarrow> bool chat" where
  "is_chat_member c a = query (\<lambda>s. (c, a) \<in> set (chat_members s))"

text \<open>\<^verbatim>\<open>MessageLog::record\<close>.\<close>

definition record_message :: "chat_message \<Rightarrow> unit chat" where
  "record_message m = (\<lambda>s.
     if member_known (cm_channel m) (cm_sender m) s
     then (Inr (), s\<lparr>chat_messages := chat_messages s @ [m]\<rparr>)
     else (Inl (ChatSql ForeignKeyViolation), s))"

text \<open>\<^verbatim>\<open>persistence_enabled\<close>: the variable as the environment gives it, \<open>Some None\<close> when it is not UTF-8.\<close>

datatype env_error = NotABool string string | NotUnicode string

definition parse_bool :: "string \<Rightarrow> bool option" where
  "parse_bool s = (if s = ''true'' then Some True else if s = ''false'' then Some False else None)"

definition persistence_enabled :: "string option option \<Rightarrow> bool \<Rightarrow> env_error + bool" where
  "persistence_enabled var dflt = (case var of
     Some (Some s) \<Rightarrow> ok_or_else (parse_bool s) (NotABool ''WZ_CHAT_PERSISTENCE_ENABLED'' s)
   | None \<Rightarrow> Inr dflt
   | Some None \<Rightarrow> Inl (NotUnicode ''WZ_CHAT_PERSISTENCE_ENABLED''))"

section \<open>Declared system channels\<close>

datatype channel_scope = Global | Zone

record system_channel =
  sc_category :: string
  sc_scope :: channel_scope
  sc_auto_join :: bool

record chat_config =
  chc_schema_version :: u32
  chc_channels :: "system_channel list"

definition check_auto_join_only_on_zone_scope :: "chat_config \<Rightarrow> chat_error + unit" where
  "check_auto_join_only_on_zone_scope config =
     check_all (\<lambda>d. ensure (\<not> (sc_auto_join d \<and> sc_scope d = Global)) (AutoJoinOnGlobal (sc_category d)))
       (chc_channels config)"

definition chat_config_from_yaml ::
  "(string \<Rightarrow> chat_config option) \<Rightarrow> string \<Rightarrow> chat_error + chat_config" where
  "chat_config_from_yaml parse input =
     try_then (ok_or_else (parse input) ChatConfigParse) (\<lambda>config.
     try_then (check_auto_join_only_on_zone_scope config) (\<lambda>_.
     Inr config))"

definition auto_join_zone_categories :: "chat_config \<Rightarrow> string list" where
  "auto_join_zone_categories config =
     map sc_category (filter (\<lambda>d. sc_scope d = Zone \<and> sc_auto_join d) (chc_channels config))"

text \<open>The channels a declaration stands for, with the names they get. The dash between category and
  zone id in the format string is code point 8212, written here as its three bytes in UTF-8.\<close>

definition zone_channel_name :: "string \<Rightarrow> string \<Rightarrow> string" where
  "zone_channel_name category zone =
     category @ '' '' @ [CHR 0xE2, CHR 0x80, CHR 0x94] @ '' '' @ zone"

definition declared_channels :: "string list \<Rightarrow> system_channel \<Rightarrow> (string option \<times> string \<times> string) list" where
  "declared_channels zone_ids d = (case sc_scope d of
     Global \<Rightarrow> [(None, sc_category d, sc_category d)]
   | Zone \<Rightarrow> map (\<lambda>z. (Some z, sc_category d, zone_channel_name (sc_category d) z)) zone_ids)"

text \<open>Both nested loops of \<^verbatim>\<open>ensure_channels\<close>; \<open>fresh n\<close> is the id drawn in round \<open>n\<close>.\<close>

fun ensure_declared ::
  "(nat \<Rightarrow> channel_id) \<Rightarrow> string option \<times> string \<times> string \<Rightarrow> channel_id list \<Rightarrow> channel_id list chat" where
  "ensure_declared fresh (zone, category, name) ids =
     andThen (ensure_zone_channel (fresh (length ids)) zone category name) (\<lambda>c. ok (ids @ [c]))"

definition ensure_channels ::
  "(nat \<Rightarrow> channel_id) \<Rightarrow> chat_config \<Rightarrow> string list \<Rightarrow> channel_id list chat" where
  "ensure_channels fresh config zone_ids =
     for_each (ensure_declared fresh) (concat (map (declared_channels zone_ids) (chc_channels config))) []"

section \<open>What the tables keep\<close>

definition members_in :: "chat_db \<Rightarrow> channel_id \<Rightarrow> account_id set" where
  "members_in s c = {a. (c, a) \<in> set (chat_members s)}"

definition zone_keys_unique :: "(channel_id, channel_row) table \<Rightarrow> bool" where
  "zone_keys_unique t \<longleftrightarrow> (\<forall>c c' r r' k. map_of t c = Some r \<longrightarrow> map_of t c' = Some r' \<longrightarrow>
     zone_key r = Some k \<longrightarrow> zone_key r' = Some k \<longrightarrow> c = c')"

definition chat_wf :: "chat_db \<Rightarrow> bool" where
  "chat_wf s \<longleftrightarrow> keys_unique (chat_channels s) \<and> distinct (chat_members s)
     \<and> (\<forall>c a. (c, a) \<in> set (chat_members s) \<longrightarrow> member_known c a s)
     \<and> (\<forall>c r. map_of (chat_channels s) c = Some r \<longrightarrow> creator_known r s)
     \<and> zone_keys_unique (chat_channels s)
     \<and> (\<forall>c r. map_of (chat_channels s) c = Some r \<longrightarrow> cc_type r = ZoneChannel \<longrightarrow> members_in s c = {})
     \<and> (\<forall>c. is_direct s c \<longrightarrow> (\<exists>a b. a \<noteq> b \<and> members_in s c = {a, b}))
     \<and> (\<forall>m \<in> set (chat_messages s). member_known (cm_channel m) (cm_sender m) s)"

lemma chat_wf_unique: "chat_wf s \<Longrightarrow> keys_unique (chat_channels s)"
  by (simp add: chat_wf_def)

lemma chat_wf_member: "chat_wf s \<Longrightarrow> (c, a) \<in> set (chat_members s) \<Longrightarrow> member_known c a s"
  by (simp add: chat_wf_def)

lemma chat_wf_zone:
  "chat_wf s \<Longrightarrow> map_of (chat_channels s) c = Some r \<Longrightarrow> cc_type r = ZoneChannel \<Longrightarrow> members_in s c = {}"
  by (simp add: chat_wf_def)

lemma chat_wf_zone_unique:
  "chat_wf s \<Longrightarrow> map_of (chat_channels s) c = Some r \<Longrightarrow> map_of (chat_channels s) c' = Some r' \<Longrightarrow>
     zone_key r = Some k \<Longrightarrow> zone_key r' = Some k \<Longrightarrow> c = c'"
  unfolding chat_wf_def zone_keys_unique_def by blast

lemma chat_wf_direct: "chat_wf s \<Longrightarrow> is_direct s c \<Longrightarrow> \<exists>a b. a \<noteq> b \<and> members_in s c = {a, b}"
  by (simp add: chat_wf_def)

lemma map_of_new_channel:
  "\<not> has_row t c \<Longrightarrow> map_of (t @ [(c, r)]) = (map_of t)(c \<mapsto> r)"
  by (auto simp: has_row_def map_add_def fun_eq_iff split: option.split)

lemma absent_no_members: "chat_wf s \<Longrightarrow> \<not> has_row (chat_channels s) c \<Longrightarrow> members_in s c = {}"
  by (auto simp: members_in_def member_known_def dest: chat_wf_member)

lemma zone_conflict_iff:
  "keys_unique (chat_channels s) \<Longrightarrow> zone_conflict row s \<longleftrightarrow>
     zone_key row \<noteq> None \<and> (\<exists>c r. map_of (chat_channels s) c = Some r \<and> zone_key r = zone_key row)"
  unfolding zone_conflict_def list_ex_iff
  by (auto dest: map_of_in_set) (blast dest: in_set_map_of)

text \<open>A new channel together with its first members.\<close>

lemma chat_wf_new_channel:
  assumes wf: "chat_wf s" and new: "\<not> has_row (chat_channels s) c" "\<not> zone_conflict row s"
    and known: "creator_known row s" "set as \<subseteq> set (chat_accounts s)" "distinct as"
    and kind: "cc_type row = ZoneChannel \<Longrightarrow> as = []" "cc_type row = DirectChannel \<Longrightarrow> length as = 2"
  shows "chat_wf (s\<lparr>chat_channels := chat_channels s @ [(c, row)],
      chat_members := chat_members s @ map (Pair c) as\<rparr>)" (is "chat_wf ?t")
proof -
  note look = map_of_new_channel [OF new(1)]
  have u: "keys_unique (chat_channels s)" by (rule chat_wf_unique [OF wf])
  have rows: "map_of (chat_channels ?t) = (map_of (chat_channels s))(c \<mapsto> row)" using look by simp
  have mem: "members_in ?t d = (if d = c then set as else members_in s d)" for d
    using absent_no_members [OF wf new(1)] by (auto simp: members_in_def)
  have fresh: "c \<notin> fst ` set (chat_members s)"
    using absent_no_members [OF wf new(1)] by (auto simp: members_in_def)
  have direct: "is_direct ?t d \<longleftrightarrow> (if d = c then cc_type row = DirectChannel else is_direct s d)" for d
    unfolding is_direct_def rows by simp
  have pair: "\<exists>a b. a \<noteq> b \<and> set as = {a, b}" if direct_kind: "cc_type row = DirectChannel"
  proof -
    obtain x y where "as = [x, y]"
      using kind(2) [OF direct_kind] by (auto simp: numeral_2_eq_2 length_Suc_conv)
    then have "x \<noteq> y \<and> set as = {x, y}" using known(3) by simp
    then show ?thesis by blast
  qed
  have has: "member_known d a s \<Longrightarrow> member_known d a ?t" for d a
    by (auto simp: member_known_def has_row_def look)
  have new_known: "member_known c a ?t" if "a \<in> set as" for a
    using that known(2) by (auto simp: member_known_def has_row_def look)
  have zone: False if "zone_key row = Some k" "map_of (chat_channels s) d = Some r" "zone_key r = Some k" for d r k
    using new(2) that u by (auto simp: zone_conflict_iff)
  have "keys_unique (chat_channels ?t)" using keys_unique_append [OF u new(1)] by simp
  moreover have "distinct (chat_members ?t)"
  proof -
    have "distinct (chat_members s)" using wf by (simp add: chat_wf_def)
    moreover have "distinct (map (Pair c) as)" using known(3) by (simp add: distinct_map inj_on_def)
    moreover have "set (chat_members s) \<inter> set (map (Pair c) as) = {}"
      using fresh by (auto simp: image_iff)
    ultimately show ?thesis by simp
  qed
  moreover have "member_known d a ?t" if "(d, a) \<in> set (chat_members ?t)" for d a
    using that has new_known chat_wf_member [OF wf] by auto
  moreover have "creator_known r ?t" if "map_of (chat_channels ?t) d = Some r" for d r
    using that known(1) wf unfolding rows
    by (auto simp: creator_known_def chat_wf_def split: if_splits option.splits)
  moreover have "zone_keys_unique (chat_channels ?t)"
    unfolding zone_keys_unique_def rows using zone chat_wf_zone_unique [OF wf]
    by (auto split: if_splits)
  moreover have "members_in ?t d = {}" if "map_of (chat_channels ?t) d = Some r" "cc_type r = ZoneChannel" for d r
    using that kind(1) chat_wf_zone [OF wf] unfolding rows mem by (auto split: if_splits)
  moreover have "\<exists>a b. a \<noteq> b \<and> members_in ?t d = {a, b}" if "is_direct ?t d" for d
    using that pair chat_wf_direct [OF wf] unfolding direct mem by (auto split: if_splits)
  moreover have "member_known (cm_channel m) (cm_sender m) ?t" if "m \<in> set (chat_messages s)" for m
    using that wf has by (simp add: chat_wf_def)
  ultimately show ?thesis unfolding chat_wf_def by simp
qed

lemma chat_wf_members:
  assumes wf: "chat_wf s" and d: "distinct ms"
    and known: "\<And>c a. (c, a) \<in> set ms \<Longrightarrow> member_known c a s"
    and same: "\<And>c r. map_of (chat_channels s) c = Some r \<Longrightarrow> cc_type r \<in> {DirectChannel, ZoneChannel} \<Longrightarrow>
      {a. (c, a) \<in> set ms} = members_in s c"
  shows "chat_wf (s\<lparr>chat_members := ms\<rparr>)" (is "chat_wf ?t")
proof -
  have mem: "members_in ?t c = members_in s c"
    if "map_of (chat_channels s) c = Some r" "cc_type r \<in> {DirectChannel, ZoneChannel}" for c r
    using same [OF that] by (simp add: members_in_def)
  have direct: "is_direct ?t c \<longleftrightarrow> is_direct s c" for c by (simp add: is_direct_def)
  have "members_in ?t c = {}" if "map_of (chat_channels s) c = Some r" "cc_type r = ZoneChannel" for c r
    using that mem chat_wf_zone [OF wf] by simp
  moreover have "\<exists>a b. a \<noteq> b \<and> members_in ?t c = {a, b}" if "is_direct s c" for c
  proof -
    have "members_in ?t c = members_in s c" using that mem by (auto simp: is_direct_def)
    then show ?thesis using chat_wf_direct [OF wf that] by simp
  qed
  moreover have "member_known c a ?t \<longleftrightarrow> member_known c a s" for c a by (simp add: member_known_def)
  moreover have "creator_known r ?t \<longleftrightarrow> creator_known r s" for r
    by (simp add: creator_known_def split: option.split)
  ultimately show ?thesis
    using wf d known unfolding chat_wf_def direct by simp
qed

lemma require_joinable_eq:
  "require_joinable c s = (case map_of (chat_channels s) c of
     None \<Rightarrow> (Inl NoSuchChannel, s)
   | Some r \<Rightarrow> if cc_type r \<in> {GroupChannel, GuildChannel} then (Inr (), s)
       else (Inl (NotJoinable (cc_type r)), s))"
  by (simp add: require_joinable_def channel_type_of_def split: option.split)

lemma pres_require_joinable [pres_intros]: "preserves I (require_joinable c)"
  unfolding require_joinable_def channel_type_of_def by (intro pres_intros)

text \<open>Joining and leaving change the row of one account in one group or guild channel.\<close>

lemma chat_join_Inr:
  "chat_join c a s = (Inr u, t) \<longleftrightarrow>
     (\<exists>r. map_of (chat_channels s) c = Some r \<and> cc_type r \<in> {GroupChannel, GuildChannel})
     \<and> (if (c, a) \<in> set (chat_members s) then t = s
        else a \<in> set (chat_accounts s) \<and> t = s\<lparr>chat_members := chat_members s @ [(c, a)]\<rparr>)"
  by (auto simp: chat_join_def andThen_apply require_joinable_eq insert_chat_member_or_nothing_def
      insert_chat_member_def member_known_def has_row_def split: option.splits if_splits)

lemma chat_leave_Inr:
  "chat_leave c a s = (Inr u, t) \<longleftrightarrow>
     (\<exists>r. map_of (chat_channels s) c = Some r \<and> cc_type r \<in> {GroupChannel, GuildChannel})
     \<and> t = s\<lparr>chat_members := filter (\<lambda>m. m \<noteq> (c, a)) (chat_members s)\<rparr>"
  by (auto simp: chat_leave_def andThen_apply require_joinable_eq delete_chat_member_def
      split: option.splits if_splits)

lemma chat_join_Inl: "chat_join c a s = (Inl e, t) \<Longrightarrow> t = s"
  by (auto simp: chat_join_def andThen_apply require_joinable_eq insert_chat_member_or_nothing_def
      insert_chat_member_def split: option.splits if_splits)

lemma chat_leave_Inl: "chat_leave c a s = (Inl e, t) \<Longrightarrow> t = s"
  by (auto simp: chat_leave_def andThen_apply require_joinable_eq delete_chat_member_def
      split: option.splits if_splits)

lemma preserves_by_value:
  assumes "\<And>s u t. I s \<Longrightarrow> m s = (Inr u, t) \<Longrightarrow> I t" "\<And>s e t. m s = (Inl e, t) \<Longrightarrow> t = s"
  shows "preserves I m"
  by (rule preservesI) (metis assms sum.exhaust)

lemma pres_chat_join [pres_intros]: "preserves chat_wf (chat_join c a)"
proof (rule preserves_by_value [OF _ chat_join_Inl])
  fix s u t assume wf: "chat_wf s" and run: "chat_join c a s = (Inr u, t)"
  show "chat_wf t"
  proof (cases "(c, a) \<in> set (chat_members s)")
    case False
    then obtain row where row: "map_of (chat_channels s) c = Some row" "cc_type row \<in> {GroupChannel, GuildChannel}"
      and a: "a \<in> set (chat_accounts s)" and t: "t = s\<lparr>chat_members := chat_members s @ [(c, a)]\<rparr>"
      using run by (auto simp: chat_join_Inr)
    have "distinct (chat_members s @ [(c, a)])" using False wf by (simp add: chat_wf_def)
    moreover have "member_known c a s" using row(1) a by (simp add: member_known_def has_row_def)
    ultimately show ?thesis
      unfolding t using row chat_wf_member [OF wf]
      by (intro chat_wf_members [OF wf]) (auto simp: members_in_def)
  qed (use run wf in \<open>auto simp: chat_join_Inr\<close>)
qed

lemma pres_chat_leave [pres_intros]: "preserves chat_wf (chat_leave c a)"
proof (rule preserves_by_value [OF _ chat_leave_Inl])
  fix s u t assume wf: "chat_wf s" and run: "chat_leave c a s = (Inr u, t)"
  then obtain row where row: "map_of (chat_channels s) c = Some row" "cc_type row \<in> {GroupChannel, GuildChannel}"
    and t: "t = s\<lparr>chat_members := filter (\<lambda>m. m \<noteq> (c, a)) (chat_members s)\<rparr>"
    by (auto simp: chat_leave_Inr)
  have "distinct (chat_members s)" using wf by (simp add: chat_wf_def)
  then show "chat_wf t"
    unfolding t using row chat_wf_member [OF wf]
    by (intro chat_wf_members [OF wf]) (auto simp: members_in_def)
qed

lemma insert_direct_Inr:
  assumes "insert_direct fresh a b s = (Inr c, s')"
  shows "c = fresh \<and> \<not> has_row (chat_channels s) fresh \<and> a \<noteq> b
    \<and> set [a, b] \<subseteq> set (chat_accounts s)
    \<and> s' = s\<lparr>chat_channels := chat_channels s @ [(fresh, direct_row)],
          chat_members := chat_members s @ map (Pair fresh) [a, b]\<rparr>"
  using assms by (auto simp: insert_direct_def andThen_Inr insert_channel_def insert_chat_member_def
      direct_row_def member_known_def has_row_def zone_conflict_def zone_key_def split: if_splits)

lemma pres_insert_direct [pres_intros]: "preserves chat_wf (insert_direct fresh a b)"
proof (rule preservesI)
  fix s r t assume wf: "chat_wf s" and run: "insert_direct fresh a b s = (r, t)"
  show "chat_wf t"
  proof (cases r)
    case (Inl e)
    with run have "t = s" unfolding insert_direct_def by (simp add: transaction_rollback)
    then show ?thesis using wf by simp
  next
    case (Inr c)
    with run have "insert_direct fresh a b s = (Inr c, t)" by simp
    from insert_direct_Inr [OF this] show ?thesis
      using chat_wf_new_channel [OF wf, of fresh direct_row "[a, b]"]
      by (auto simp: direct_row_def zone_conflict_def zone_key_def creator_known_def)
  qed
qed

lemma create_named_Inr:
  assumes "create_named fresh kind creator name s = (Inr c, s')"
  shows "\<not> blank name \<and> c = fresh \<and> \<not> has_row (chat_channels s) fresh \<and> creator \<in> set (chat_accounts s)
    \<and> (\<exists>row. row = \<lparr>cc_type = kind, cc_name = Some name, cc_zone_id = None, cc_category = None,
          cc_created_by = Some creator\<rparr> \<and> \<not> zone_conflict row s
       \<and> s' = s\<lparr>chat_channels := chat_channels s @ [(fresh, row)],
          chat_members := chat_members s @ map (Pair fresh) [creator]\<rparr>)"
  using assms by (auto simp: create_named_def andThen_Inr insert_channel_def insert_chat_member_def
      member_known_def has_row_def split: if_splits)

lemma create_named_Inl: "create_named fresh kind creator name s = (Inl e, t) \<Longrightarrow> t = s"
  by (auto simp: create_named_def dest: transaction_rollback split: if_splits)

lemma pres_create_named [pres_intros]:
  "kind \<in> {GroupChannel, GuildChannel} \<Longrightarrow> preserves chat_wf (create_named fresh kind creator name)"
proof (rule preserves_by_value [OF _ create_named_Inl])
  fix s c t assume k: "kind \<in> {GroupChannel, GuildChannel}" and wf: "chat_wf s"
    and run: "create_named fresh kind creator name s = (Inr c, t)"
  from create_named_Inr [OF run] obtain row where row: "\<not> has_row (chat_channels s) fresh"
    "creator \<in> set (chat_accounts s)" "\<not> zone_conflict row s" "cc_type row = kind"
    "cc_created_by row = Some creator"
    and t: "t = s\<lparr>chat_channels := chat_channels s @ [(fresh, row)],
          chat_members := chat_members s @ map (Pair fresh) [creator]\<rparr>"
    by auto
  show "chat_wf t"
    unfolding t using row k by (intro chat_wf_new_channel [OF wf]) (auto simp: creator_known_def)
qed

lemma insert_zone_run:
  "insert_channel_or_nothing c (zone_row zone category name) s =
     (if has_row (chat_channels s) c \<or> zone_conflict (zone_row zone category name) s then (Inr False, s)
      else (Inr True, s\<lparr>chat_channels := chat_channels s @ [(c, zone_row zone category name)]\<rparr>))"
  by (simp add: insert_channel_or_nothing_def creator_known_def zone_row_def)

lemma pres_insert_zone [pres_intros]:
  "preserves chat_wf (insert_channel_or_nothing c (zone_row zone category name))"
proof (rule preservesI)
  fix s r t assume wf: "chat_wf s"
    and run: "insert_channel_or_nothing c (zone_row zone category name) s = (r, t)"
  then show "chat_wf t"
    using chat_wf_new_channel [OF wf, of c "zone_row zone category name" "[]"]
    by (auto simp: insert_zone_run split: if_splits) (auto simp: zone_row_def creator_known_def)
qed

lemma pres_chat_reads [pres_intros]:
  "preserves I (find_direct a b)" "preserves I (find_group name)" "preserves I (find_zone_channel zone category)"
  "preserves I (channel_type_of c)" "preserves I (is_chat_member c a)" "preserves I (chat_members_of c)"
  unfolding find_direct_def find_group_def find_zone_channel_def channel_type_of_def is_chat_member_def
    chat_members_of_def
  by (rule pres_query)+

lemma pres_ensure_zone [pres_intros]:
  "preserves chat_wf (ensure_zone_insert fresh zone category name)"
  "preserves chat_wf (ensure_zone_channel fresh zone category name)"
  unfolding ensure_zone_channel_def ensure_zone_insert_def by (intro pres_intros)+

lemma pres_ensure_declared [pres_intros]: "preserves chat_wf (ensure_declared fresh d ids)"
  by (cases d) (auto intro: pres_intros)

lemma pres_chat_ops [pres_intros]:
  "preserves chat_wf (create_direct fresh a b)"
  "preserves chat_wf (create_group fresh creator name)"
  "preserves chat_wf (create_guild fresh creator name)"
  "preserves chat_wf (find_or_create_named_channel fresh creator name)"
  "preserves chat_wf (ensure_channels ids config zone_ids)"
  unfolding create_direct_def create_group_def create_guild_def find_or_create_named_channel_def
    ensure_channels_def
  by (intro pres_intros; simp)+

lemma pres_record_message [pres_intros]: "preserves chat_wf (record_message m)"
proof (rule preservesI)
  fix s r t assume wf: "chat_wf s" and run: "record_message m s = (r, t)"
  have "chat_wf (s\<lparr>chat_messages := chat_messages s @ [m]\<rparr>)" if "member_known (cm_channel m) (cm_sender m) s"
    using wf that
    by (simp add: chat_wf_def members_in_def member_known_def is_direct_def creator_known_def cong: option.case_cong)
  then show "chat_wf t" using run wf by (auto simp: record_message_def split: if_splits)
qed

section \<open>Every reachable store\<close>

text \<open>
  Any number of processes work on the tables. \<open>Insert_Direct\<close> and \<open>Insert_Zone\<close> are what remains of
  \<open>create_direct\<close> and \<open>ensure_zone_channel\<close> after their first lookup found nothing, run at any later
  time.
\<close>

datatype chat_op =
    Create_Direct channel_id account_id account_id
  | Insert_Direct channel_id account_id account_id
  | Create_Group channel_id account_id string
  | Create_Guild channel_id account_id string
  | Ensure_Zone channel_id "string option" string string
  | Insert_Zone channel_id "string option" string string
  | Join channel_id account_id
  | Leave channel_id account_id
  | Record chat_message

primrec chat_op_run :: "chat_op \<Rightarrow> chat_db \<Rightarrow> chat_db" where
  "chat_op_run (Create_Direct c a b) s = snd (create_direct c a b s)"
| "chat_op_run (Insert_Direct c a b) s = snd (insert_direct c a b s)"
| "chat_op_run (Create_Group c a n) s = snd (create_group c a n s)"
| "chat_op_run (Create_Guild c a n) s = snd (create_guild c a n s)"
| "chat_op_run (Ensure_Zone c z k n) s = snd (ensure_zone_channel c z k n s)"
| "chat_op_run (Insert_Zone c z k n) s = snd (ensure_zone_insert c z k n s)"
| "chat_op_run (Join c a) s = snd (chat_join c a s)"
| "chat_op_run (Leave c a) s = snd (chat_leave c a s)"
| "chat_op_run (Record m) s = snd (record_message m s)"

definition empty_chat :: "account_id list \<Rightarrow> chat_db" where
  "empty_chat known = \<lparr>chat_accounts = known, chat_channels = [], chat_members = [], chat_messages = []\<rparr>"

lemma chat_wf_empty: "chat_wf (empty_chat known)"
  by (simp add: chat_wf_def empty_chat_def zone_keys_unique_def is_direct_def)

lemma chat_wf_op: "chat_wf s \<Longrightarrow> chat_wf (chat_op_run op s)"
  by (cases op) (auto intro: preserves_sndD pres_intros)

lemma chat_wf_run: "chat_wf s \<Longrightarrow> chat_wf (fold chat_op_run ops s)"
  by (induction ops arbitrary: s) (auto intro: chat_wf_op)


section \<open>Direct channels are found again\<close>

text \<open>At most one direct channel per pair of accounts.\<close>

definition direct_unique :: "chat_db \<Rightarrow> bool" where
  "direct_unique s \<longleftrightarrow> (\<forall>c c'. is_direct s c \<longrightarrow> is_direct s c' \<longrightarrow> members_in s c = members_in s c' \<longrightarrow> c = c')"

lemma find_direct_Some:
  assumes "fst (find_direct a b s) = Inr (Some c)"
  shows "is_direct s c \<and> a \<in> members_in s c \<and> b \<in> members_in s c"
  using assms by (force simp: find_direct_def find_Some_iff members_in_def in_set_conv_nth)

lemma find_direct_None:
  assumes "fst (find_direct a b s) = Inr None" "is_direct s c" "a \<in> members_in s c"
  shows "b \<notin> members_in s c"
  using assms by (force simp: find_direct_def find_None_iff members_in_def)

lemma find_direct_total: "\<exists>r. find_direct a b s = (Inr r, s)"
  by (simp add: find_direct_def)

lemma create_direct_cases:
  assumes "create_direct fresh a b s = (Inr c, s')"
  obtains (found) "fst (find_direct a b s) = Inr (Some c)" "s' = s"
  | (created) "fst (find_direct a b s) = Inr None" "insert_direct fresh a b s = (Inr c, s')"
  using assms find_direct_total [of a b s] that
  by (auto simp: create_direct_def andThen_apply split: option.splits)

lemma two_members: "a \<noteq> b \<Longrightarrow> a \<in> S \<Longrightarrow> b \<in> S \<Longrightarrow> \<exists>x y. S = {x, y} \<Longrightarrow> S = {a, b}"
  by auto

lemma find_direct_unique:
  assumes wf: "chat_wf s" and u: "direct_unique s" and c: "is_direct s c" "members_in s c = {a, b}" and ab: "a \<noteq> b"
  shows "find_direct a b s = (Inr (Some c), s)"
proof -
  obtain r where r: "find_direct a b s = (Inr r, s)" using find_direct_total by blast
  show ?thesis
  proof (cases r)
    case None
    then show ?thesis using find_direct_None [of a b s c] r c by auto
  next
    case (Some d)
    then have d: "is_direct s d" "a \<in> members_in s d" "b \<in> members_in s d"
      using find_direct_Some [of a b s d] r by auto
    then have "members_in s d = {a, b}"
      using two_members [OF ab d(2,3)] chat_wf_direct [OF wf d(1)] by blast
    then show ?thesis using u c d(1) r Some unfolding direct_unique_def by auto
  qed
qed

lemma new_direct:
  assumes wf: "chat_wf s" and u: "direct_unique s" and none: "fst (find_direct a b s) = Inr None"
    and run: "insert_direct fresh a b s = (Inr c, s')"
  shows "is_direct s' c \<and> members_in s' c = {a, b} \<and> direct_unique s'"
proof -
  have i: "c = fresh" "\<not> has_row (chat_channels s) fresh" "a \<noteq> b"
    and s': "s' = s\<lparr>chat_channels := chat_channels s @ [(fresh, direct_row)],
          chat_members := chat_members s @ map (Pair fresh) [a, b]\<rparr>"
    using insert_direct_Inr [OF run] by auto
  have rows: "map_of (chat_channels s') = (map_of (chat_channels s))(fresh \<mapsto> direct_row)"
    using map_of_new_channel [OF i(2)] by (simp add: s')
  have mem: "members_in s' d = (if d = fresh then {a, b} else members_in s d)" for d
    using absent_no_members [OF wf i(2)] by (auto simp: s' members_in_def)
  have dir: "is_direct s' d \<longleftrightarrow> d = fresh \<or> is_direct s d" for d
    unfolding is_direct_def rows using i(2) by (auto simp: direct_row_def has_row_def)
  have "members_in s d \<noteq> {a, b}" if "is_direct s d" for d
    using find_direct_None [OF none that] by auto
  then show ?thesis
    using u i(1) unfolding direct_unique_def dir mem by (auto split: if_splits)
qed

text \<open>
  Run one at a time, \<open>create_direct\<close> is idempotent and symmetric: for two different accounts it
  returns the direct channel whose members are exactly those two, made if there was none, and every
  later call for the pair, in either order, returns that channel and changes nothing.
\<close>

theorem create_direct_idempotent:
  assumes "chat_wf s" "direct_unique s" "a \<noteq> b" "create_direct fresh a b s = (Inr c, s')"
  shows "is_direct s' c \<and> members_in s' c = {a, b} \<and> direct_unique s'
    \<and> create_direct other a b s' = (Inr c, s') \<and> create_direct other b a s' = (Inr c, s')"
proof -
  have wf': "chat_wf s'" using preservesD [OF pres_chat_ops(1) assms(1,4)] .
  have c: "is_direct s' c \<and> members_in s' c = {a, b} \<and> direct_unique s'"
    using assms(4)
  proof (cases rule: create_direct_cases)
    case found
    then have d: "is_direct s c" "a \<in> members_in s c" "b \<in> members_in s c"
      using find_direct_Some by blast+
    then have "members_in s c = {a, b}"
      using two_members [OF assms(3) d(2,3)] chat_wf_direct [OF assms(1) d(1)] by blast
    then show ?thesis using assms(2) found(2) d(1) by simp
  qed (rule new_direct [OF assms(1,2)])
  moreover have "find_direct a b s' = (Inr (Some c), s')" "find_direct b a s' = (Inr (Some c), s')"
    using find_direct_unique [OF wf'] c assms(3) by (auto simp: insert_commute)
  ultimately show ?thesis by (simp add: create_direct_def andThen_apply)
qed

definition alice :: account_id where "alice = Id 1"
definition bob :: account_id where "bob = Id 2"
definition carol :: account_id where "carol = Id 3"

lemma create_direct_idempotent_witness:
  "let s = snd (create_direct (Id 10) alice bob (empty_chat [alice, bob])) in
     members_in s (Id 10) = {alice, bob} \<and> create_direct (Id 11) bob alice s = (Inr (Id 10), s)"
proof -
  have "fst (create_direct (Id 10) alice bob (empty_chat [alice, bob])) = Inr (Id 10)" by code_simp
  then have run: "create_direct (Id 10) alice bob (empty_chat [alice, bob])
      = (Inr (Id 10), snd (create_direct (Id 10) alice bob (empty_chat [alice, bob])))"
    by (simp add: prod_eq_iff)
  have "direct_unique (empty_chat [alice, bob])"
    by (simp add: direct_unique_def is_direct_def empty_chat_def)
  then show ?thesis
    using create_direct_idempotent [OF chat_wf_empty _ _ run, of "Id 11"]
    by (simp add: Let_def alice_def bob_def)
qed

text \<open>
  \<open>create_direct\<close> is not idempotent under concurrency. No unique index covers direct channels, so
  two callers that both looked before either inserted leave two channels for the same pair, and what
  one of them writes to the first is not seen by a lookup that finds the second.
\<close>

theorem direct_channel_race:
  "let s = fold chat_op_run [Insert_Direct (Id 10) alice bob, Insert_Direct (Id 11) bob alice]
         (empty_chat [alice, bob]) in
     find_direct alice bob (empty_chat [alice, bob]) = (Inr None, empty_chat [alice, bob])
   \<and> is_direct s (Id 10) \<and> is_direct s (Id 11)
   \<and> members_in s (Id 10) = {alice, bob} \<and> members_in s (Id 11) = {alice, bob}"
proof -
  let ?s = "fold chat_op_run [Insert_Direct (Id 10) alice bob, Insert_Direct (Id 11) bob alice]
         (empty_chat [alice, bob])"
  have "is_direct ?s (Id 10)" "is_direct ?s (Id 11)" by code_simp+
  moreover have "chat_members ?s = [(Id 10, alice), (Id 10, bob), (Id 11, bob), (Id 11, alice)]" by code_simp
  ultimately show ?thesis
    by (auto simp: Let_def members_in_def find_direct_def empty_chat_def)
qed

text \<open>
  For an account and itself \<open>create_direct\<close> never makes a channel: it fails on the repeated
  membership row, unless the account has a direct channel with anyone, which it then returns although
  that channel's other member is somebody else.
\<close>

theorem direct_channel_with_oneself:
  assumes "chat_wf s" "create_direct fresh a a s = (Inr c, s')"
  shows "s' = s \<and> (\<exists>b. b \<noteq> a \<and> members_in s c = {a, b})"
  using assms(2)
proof (cases rule: create_direct_cases)
  case found
  then have "is_direct s c" "a \<in> members_in s c" using find_direct_Some by blast+
  moreover obtain x y where "x \<noteq> y" "members_in s c = {x, y}"
    using chat_wf_direct [OF assms(1)] calculation(1) by blast
  ultimately show ?thesis using found(2) by auto
next
  case created
  then show ?thesis using insert_direct_Inr by blast
qed

lemma direct_channel_with_oneself_witness:
  "let s = snd (create_direct (Id 10) alice bob (empty_chat [alice, bob])) in
     fst (create_direct (Id 11) alice alice s) = Inr (Id 10)
     \<and> (\<exists>b. b \<noteq> alice \<and> members_in s (Id 10) = {alice, b})"
proof -
  let ?s = "snd (create_direct (Id 10) alice bob (empty_chat [alice, bob]))"
  have wf: "chat_wf ?s" by (rule preserves_sndD [OF pres_chat_ops(1) chat_wf_empty])
  have r: "fst (create_direct (Id 11) alice alice ?s) = Inr (Id 10)" by code_simp
  then have run: "create_direct (Id 11) alice alice ?s = (Inr (Id 10), snd (create_direct (Id 11) alice alice ?s))"
    by (simp add: prod_eq_iff)
  then show ?thesis using direct_channel_with_oneself [OF wf run] r by (simp add: Let_def)
qed


section \<open>Zone channels are made once\<close>

lemma find_SomeD: "List.find P xs = Some x \<Longrightarrow> x \<in> set xs \<and> P x"
  by (induction xs) (auto split: if_splits)

definition zone_channel_of :: "chat_db \<Rightarrow> string option \<Rightarrow> string \<Rightarrow> channel_id \<Rightarrow> bool" where
  "zone_channel_of s zone category c \<longleftrightarrow>
     (\<exists>r. map_of (chat_channels s) c = Some r \<and> zone_key r = Some (zone, Some category))"

lemma zone_channel_unique:
  "chat_wf s \<Longrightarrow> zone_channel_of s z k c \<Longrightarrow> zone_channel_of s z k c' \<Longrightarrow> c = c'"
  by (auto simp: zone_channel_of_def dest: chat_wf_zone_unique)

lemma find_zone_channel_run:
  assumes wf: "chat_wf s"
  obtains (found) c where "find_zone_channel z k s = (Inr (Some c), s)" "zone_channel_of s z k c"
  | (missing) "find_zone_channel z k s = (Inr None, s)" "\<not> (\<exists>c. zone_channel_of s z k c)"
proof (cases "List.find (\<lambda>(c, r). zone_key r = Some (z, Some k)) (chat_channels s)")
  case None
  then have "\<not> (\<exists>c. zone_channel_of s z k c)"
    by (fastforce simp: zone_channel_of_def find_None_iff dest: map_of_in_set)
  then show thesis using None by (intro missing) (simp_all add: find_zone_channel_def)
next
  case (Some cr)
  then have "cr \<in> set (chat_channels s) \<and> zone_key (snd cr) = Some (z, Some k)"
    using find_SomeD [OF Some] by (auto split: prod.splits)
  then have "zone_channel_of s z k (fst cr)"
    using in_set_map_of [OF chat_wf_unique [OF wf]]
    by (auto simp: zone_channel_of_def intro!: exI [of _ "snd cr"])
  then show thesis using Some by (intro found) (simp_all add: find_zone_channel_def)
qed

lemma find_zone_channel_of:
  assumes wf: "chat_wf s" and c: "zone_channel_of s z k c"
  shows "find_zone_channel z k s = (Inr (Some c), s)"
proof (cases rule: find_zone_channel_run [OF wf, of z k, case_names found missing])
  case (found d)
  then show ?thesis using zone_channel_unique [OF wf c] by simp
qed (use c in blast)

lemma zone_row_conflict:
  "chat_wf s \<Longrightarrow> zone_conflict (zone_row z k n) s \<longleftrightarrow> (\<exists>c. zone_channel_of s z k c)"
  by (simp add: zone_conflict_iff chat_wf_unique zone_channel_of_def) (simp add: zone_key_def zone_row_def)

lemma zone_channel_inserted:
  assumes "chat_wf s" "\<not> has_row (chat_channels s) c"
  shows "zone_channel_of (s\<lparr>chat_channels := chat_channels s @ [(c, zone_row z k n)]\<rparr>) z k c"
  using map_of_new_channel [OF assms(2)]
  by (simp add: zone_channel_of_def) (simp add: zone_key_def zone_row_def)

lemma ensure_zone_insert_found:
  assumes wf: "chat_wf s" and c: "zone_channel_of s z k c"
  shows "ensure_zone_insert fresh z k n s = (Inr c, s)"
  using c find_zone_channel_of [OF wf c]
  by (auto simp: ensure_zone_insert_def andThen_apply insert_zone_run zone_row_conflict [OF wf])

lemma ensure_zone_found:
  assumes wf: "chat_wf s" and c: "zone_channel_of s z k c"
  shows "ensure_zone_channel fresh z k n s = (Inr c, s)"
  using find_zone_channel_of [OF wf c] by (simp add: ensure_zone_channel_def andThen_apply)

lemma ensure_zone_new:
  assumes wf: "chat_wf s" and none: "\<not> (\<exists>c. zone_channel_of s z k c)" and new: "\<not> has_row (chat_channels s) fresh"
  shows "ensure_zone_channel fresh z k n s
    = (Inr fresh, s\<lparr>chat_channels := chat_channels s @ [(fresh, zone_row z k n)]\<rparr>)"
proof (cases rule: find_zone_channel_run [OF wf, of z k, case_names found missing])
  case missing
  then show ?thesis
    using none new by (simp add: ensure_zone_channel_def ensure_zone_insert_def andThen_apply insert_zone_run
        zone_row_conflict [OF wf])
qed (use none in blast)

lemma ensure_zone_Inr:
  assumes wf: "chat_wf s" and run: "ensure_zone_channel fresh z k n s = (Inr c, s')"
  shows "zone_channel_of s' z k c"
proof (cases "\<exists>d. zone_channel_of s z k d")
  case True
  then show ?thesis using ensure_zone_found [OF wf] run by auto
next
  case False
  show ?thesis
  proof (cases "has_row (chat_channels s) fresh")
    case True
    moreover have "find_zone_channel z k s = (Inr None, s)"
      using find_zone_channel_run [OF wf, of z k] False by metis
    ultimately have "ensure_zone_channel fresh z k n s = (Inl ZoneChannelRaceLost, s)"
      by (simp add: ensure_zone_channel_def ensure_zone_insert_def andThen_apply insert_zone_run)
    then show ?thesis using run by simp
  next
    case False
    then show ?thesis
      using ensure_zone_new [OF wf \<open>\<nexists>d. zone_channel_of s z k d\<close> False] run
        zone_channel_inserted [OF wf False] by auto
  qed
qed

text \<open>No operation removes or changes a channel.\<close>

lemma channel_kept [pres_intros]:
  "preserves (\<lambda>s. map_of (chat_channels s) c = Some r) (insert_channel d row)"
  "preserves (\<lambda>s. map_of (chat_channels s) c = Some r) (insert_channel_or_nothing d row)"
  "preserves (\<lambda>s. map_of (chat_channels s) c = Some r) (insert_chat_member d a)"
  "preserves (\<lambda>s. map_of (chat_channels s) c = Some r) (insert_chat_member_or_nothing d a)"
  "preserves (\<lambda>s. map_of (chat_channels s) c = Some r) (delete_chat_member d a)"
  "preserves (\<lambda>s. map_of (chat_channels s) c = Some r) (record_message m)"
  by (simp_all add: preserves_def insert_channel_def insert_channel_or_nothing_def insert_chat_member_def
      insert_chat_member_or_nothing_def delete_chat_member_def record_message_def has_row_def map_add_def)

lemma channel_kept_run:
  "map_of (chat_channels s) c = Some r \<Longrightarrow> map_of (chat_channels (chat_op_run op s)) c = Some r"
  by (cases op)
    (auto simp: create_direct_def insert_direct_def create_group_def create_guild_def create_named_def
      ensure_zone_channel_def ensure_zone_insert_def chat_join_def chat_leave_def
      intro!: preserves_sndD [where I = "\<lambda>s. map_of (chat_channels s) c = Some r"] pres_intros)

lemma zone_channel_kept:
  "zone_channel_of s z k c \<Longrightarrow> zone_channel_of (fold chat_op_run ops s) z k c"
  by (induction ops arbitrary: s) (auto simp: zone_channel_of_def dest: channel_kept_run)

text \<open>
  \<open>ensure_zone_channel\<close> is idempotent for ever and under concurrency: once it has returned a
  channel for a zone (or globally) and a category, every later call returns that channel and changes
  nothing, whatever happened in between, and so does a call that had looked before the channel
  existed and inserts only now.
\<close>

theorem zone_channel_ensured_once:
  assumes "chat_wf s" "ensure_zone_channel fresh zone category name s = (Inr c, s')"
  shows "let t = fold chat_op_run ops s' in
      ensure_zone_channel other zone category name' t = (Inr c, t)
    \<and> ensure_zone_insert other zone category name' t = (Inr c, t)"
proof -
  have wf: "chat_wf (fold chat_op_run ops s')"
    by (rule chat_wf_run [OF preservesD [OF pres_ensure_zone(2) assms]])
  have c: "zone_channel_of (fold chat_op_run ops s') zone category c"
    by (rule zone_channel_kept [OF ensure_zone_Inr [OF assms]])
  show ?thesis
    using ensure_zone_found [OF wf c] ensure_zone_insert_found [OF wf c] by (simp add: Let_def)
qed

lemma zone_channel_ensured_once_witness:
  "let s = snd (ensure_zone_channel (Id 10) (Some ''forest'') ''local'' ''n'' (empty_chat [alice]));
       t = fold chat_op_run [Create_Group (Id 11) alice ''friends''] s in
     fst (ensure_zone_insert (Id 12) (Some ''forest'') ''local'' ''n'' t) = Inr (Id 10)"
proof -
  have "fst (ensure_zone_channel (Id 10) (Some ''forest'') ''local'' ''n'' (empty_chat [alice])) = Inr (Id 10)"
    by code_simp
  then have run: "ensure_zone_channel (Id 10) (Some ''forest'') ''local'' ''n'' (empty_chat [alice])
    = (Inr (Id 10), snd (ensure_zone_channel (Id 10) (Some ''forest'') ''local'' ''n'' (empty_chat [alice])))"
    by (simp add: prod_eq_iff)
  show ?thesis
    using zone_channel_ensured_once [OF chat_wf_empty run, of "[Create_Group (Id 11) alice ''friends'']"]
    by (simp add: Let_def)
qed

section \<open>The declared system channels\<close>

abbreviation stands_for :: "chat_db \<Rightarrow> string option \<times> string \<times> string \<Rightarrow> channel_id \<Rightarrow> bool" where
  "stands_for s d c \<equiv> zone_channel_of s (fst d) (fst (snd d)) c"

lemma zone_channel_kept_ensure:
  assumes "zone_channel_of s z k c" "for_each (ensure_declared fresh) ds ids s = (r, s')"
  shows "zone_channel_of s' z k c"
proof -
  obtain row where row: "map_of (chat_channels s) c = Some row" "zone_key row = Some (z, Some k)"
    using assms(1) by (auto simp: zone_channel_of_def)
  have "preserves (\<lambda>s. map_of (chat_channels s) c = Some row) (ensure_declared fresh d l)" for d l
    by (cases d) (auto simp: ensure_zone_channel_def ensure_zone_insert_def intro!: pres_intros)
  then have "preserves (\<lambda>s. map_of (chat_channels s) c = Some row) (for_each (ensure_declared fresh) ds ids)"
    by (intro pres_intros)
  then have "map_of (chat_channels s') c = Some row"
    using row(1) assms(2) by (metis (mono_tags, lifting) preservesD)
  then show ?thesis using row(2) by (auto simp: zone_channel_of_def)
qed

lemma ensure_declared_Inr:
  assumes "chat_wf s" "for_each (ensure_declared fresh) ds ids s = (Inr all, s')"
  shows "\<exists>made. all = ids @ made \<and> list_all2 (stands_for s') ds made"
  using assms
proof (induction ds arbitrary: ids s)
  case (Cons d ds)
  obtain c s1 where d: "ensure_zone_channel (fresh (length ids)) (fst d) (fst (snd d)) (snd (snd d)) s = (Inr c, s1)"
    and rest: "for_each (ensure_declared fresh) ds (ids @ [c]) s1 = (Inr all, s')"
    using Cons.prems(2) by (cases d) (auto simp: andThen_Inr)
  obtain made where "all = (ids @ [c]) @ made" "list_all2 (stands_for s') ds made"
    using Cons.IH [OF preservesD [OF pres_ensure_zone(2) Cons.prems(1) d] rest] by blast
  moreover have "stands_for s' d c"
    by (rule zone_channel_kept_ensure [OF ensure_zone_Inr [OF Cons.prems(1) d] rest])
  ultimately show ?case by (intro exI [of _ "c # made"]) simp
qed simp

lemma ensure_declared_again:
  assumes "chat_wf s" "list_all2 (stands_for s) ds made"
  shows "for_each (ensure_declared other) ds ids s = (Inr (ids @ made), s)"
  using assms(2)
proof (induction arbitrary: ids rule: list_all2_induct)
  case (Cons d ds c made)
  then have "ensure_declared other d ids s = (Inr (ids @ [c]), s)"
    using ensure_zone_found [OF assms(1)] by (cases d) (simp add: andThen_apply)
  then show ?case using Cons.IH [of "ids @ [c]"] by (simp add: andThen_apply)
qed simp

text \<open>
  When the system channels are ensured at start-up, every declared category has its channel
  afterwards, globally or once per zone as its scope says, in the order of the declarations; ensuring
  them again, after a restart or in another process, returns the same channels and changes nothing.
\<close>

theorem declared_channels_ensured:
  assumes "chat_wf s" "ensure_channels fresh config zone_ids s = (Inr ids, s')"
  shows "list_all2 (stands_for s') (concat (map (declared_channels zone_ids) (chc_channels config))) ids
    \<and> ensure_channels other config zone_ids s' = (Inr ids, s')"
proof -
  have "list_all2 (stands_for s') (concat (map (declared_channels zone_ids) (chc_channels config))) ids"
    using ensure_declared_Inr [OF assms(1)] assms(2) by (fastforce simp: ensure_channels_def)
  moreover have "chat_wf s'" by (rule preservesD [OF pres_chat_ops(5) assms])
  ultimately show ?thesis using ensure_declared_again [of s'] by (simp add: ensure_channels_def)
qed

definition sample_chat_config :: chat_config where
  "sample_chat_config = \<lparr>chc_schema_version = 1, chc_channels =
     [\<lparr>sc_category = ''trade'', sc_scope = Global, sc_auto_join = False\<rparr>,
      \<lparr>sc_category = ''local'', sc_scope = Zone, sc_auto_join = True\<rparr>]\<rparr>"

definition sample_channel_ids :: "nat \<Rightarrow> channel_id" where
  "sample_channel_ids n = Id (of_nat n + 100)"

lemma declared_channels_ensured_witness:
  "let s = snd (ensure_channels sample_channel_ids sample_chat_config [''forest'', ''village''] (empty_chat [])) in
     ensure_channels (\<lambda>n. Id (of_nat n + 200)) sample_chat_config [''forest'', ''village''] s
       = (Inr [Id 100, Id 101, Id 102], s)"
proof -
  let ?r = "ensure_channels sample_channel_ids sample_chat_config [''forest'', ''village''] (empty_chat [])"
  have "fst ?r = Inr [Id 100, Id 101, Id 102]" by code_simp
  then have run: "?r = (Inr [Id 100, Id 101, Id 102], snd ?r)" by (simp add: prod_eq_iff)
  show ?thesis using declared_channels_ensured [OF chat_wf_empty run] by (simp add: Let_def)
qed

end
