(* ===== verification/ChatSession.thy ===== *)
theory ChatSession
  imports ChatStore
begin

text \<open>
  Chat as a connection sees it: \<^verbatim>\<open>crates/server/src/chat_session.rs\<close>, the publishing of
  \<^verbatim>\<open>crates/chat/src/pubsub.rs\<close> and the zone hand-over of \<^verbatim>\<open>session.rs\<close>. Every joined channel of a
  connection has a forwarder task, subscribed to the channel's topic; \<open>cs_tasks\<close> holds the running
  tasks by their handle, and a connection's table of joined channels holds the handles. Redis
  delivers a message to the tasks subscribed when it is published, and the tasks pass it on at once.
  What a connection is sent, replies and forwarded lines, is \<open>cn_out\<close>.
\<close>

section \<open>Messages\<close>

datatype chat_request = JoinChannel string | LeaveChannel string | SendLine channel_id string

datatype chat_refusal = AlreadyJoined string | NotJoinedTo string | ChatFailed chat_error

datatype chat_reply =
    JoinedReply channel_id string
  | LeftReply string
  | LineReply channel_id string string string
  | RefusedReply chat_refusal

section \<open>State\<close>

record forward_task =
  ft_conn :: entity_id
  ft_account :: account_id
  ft_channel :: channel_id
  ft_name :: string

type_synonym task_handle = nat

record chat_conn =
  cn_account :: account_id
  cn_joined :: "(string, channel_id \<times> task_handle) table"
  cn_out :: "chat_reply list"

record chat_server =
  cs_db :: chat_db
  cs_bus_up :: bool
  cs_persist :: bool
  cs_usernames :: "(account_id, string) table"
  cs_auto_join :: "string list"
  cs_tasks :: "(task_handle, forward_task) table"
  cs_next_task :: task_handle
  cs_conns :: "(entity_id, chat_conn) table"

type_synonym 'a chat_io = "(chat_server, chat_error, 'a) action"

definition on_db :: "'a chat \<Rightarrow> 'a chat_io" where
  "on_db m = (\<lambda>w. case m (cs_db w) of (r, db') \<Rightarrow> (r, w\<lparr>cs_db := db'\<rparr>))"

definition update_conn :: "entity_id \<Rightarrow> (chat_conn \<Rightarrow> chat_conn) \<Rightarrow> chat_server \<Rightarrow> chat_server" where
  "update_conn e f w = w\<lparr>cs_conns := upd_row e f (cs_conns w)\<rparr>"

definition reply_to :: "entity_id \<Rightarrow> chat_reply \<Rightarrow> chat_server \<Rightarrow> chat_server" where
  "reply_to e m = update_conn e (\<lambda>cn. cn\<lparr>cn_out := cn_out cn @ [m]\<rparr>)"

definition joined_of :: "chat_server \<Rightarrow> entity_id \<Rightarrow> (string, channel_id \<times> task_handle) table" where
  "joined_of w e = (case map_of (cs_conns w) e of None \<Rightarrow> [] | Some cn \<Rightarrow> cn_joined cn)"

definition set_joined ::
  "entity_id \<Rightarrow> (string, channel_id \<times> task_handle) table \<Rightarrow> chat_server \<Rightarrow> chat_server" where
  "set_joined e t = update_conn e (\<lambda>cn. cn\<lparr>cn_joined := t\<rparr>)"

section \<open>Publishing\<close>

definition username_of :: "chat_server \<Rightarrow> account_id \<Rightarrow> string" where
  "username_of w a = (case map_of (cs_usernames w) a of None \<Rightarrow> ''unknown'' | Some n \<Rightarrow> n)"

text \<open>The loop of a forwarder task, for one message.\<close>

definition forward :: "chat_message \<Rightarrow> forward_task \<Rightarrow> chat_server \<Rightarrow> chat_server" where
  "forward m task w =
     (if ft_channel task \<noteq> cm_channel m \<or> cm_sender m = ft_account task then w
      else reply_to (ft_conn task)
        (LineReply (cm_channel m) (ft_name task) (username_of w (cm_sender m)) (cm_body m)) w)"

definition deliver :: "chat_message \<Rightarrow> chat_server \<Rightarrow> chat_server" where
  "deliver m w = fold (forward m) (map snd (cs_tasks w)) w"

text \<open>The detached write to the log: a failure is only logged.\<close>

definition persist :: "chat_message \<Rightarrow> chat_server \<Rightarrow> chat_server" where
  "persist m w = (if cs_persist w then snd (on_db (record_message m) w) else w)"

definition publish :: "int \<Rightarrow> channel_id \<Rightarrow> account_id \<Rightarrow> string \<Rightarrow> unit chat_io" where
  "publish now c sender body =
     andThen (on_db (channel_type_of c)) (\<lambda>kind.
     andThen (if kind = Some ZoneChannel then ok ()
              else andThen (on_db (is_chat_member c sender)) (\<lambda>is_member.
                   require is_member SenderNotMember)) (\<lambda>_.
     andThen (query cs_bus_up) (\<lambda>up.
     andThen (require up PubSubUnavailable) (\<lambda>_.
     (let message = \<lparr>cm_channel = c, cm_sender = sender, cm_body = body, cm_sent_at = now\<rparr> in
      execute (\<lambda>w. persist message (deliver message w)))))))"

section \<open>Joining and leaving\<close>

definition spawn_forwarder :: "entity_id \<Rightarrow> channel_id \<Rightarrow> string \<Rightarrow> account_id \<Rightarrow> task_handle chat_io" where
  "spawn_forwarder e c name a = (\<lambda>w.
     if \<not> cs_bus_up w then (Inl PubSubUnavailable, w)
     else (Inr (cs_next_task w), w\<lparr>cs_next_task := cs_next_task w + 1,
       cs_tasks := cs_tasks w @ [(cs_next_task w,
         \<lparr>ft_conn = e, ft_account = a, ft_channel = c, ft_name = name\<rparr>)]\<rparr>))"

definition abort_task :: "task_handle \<Rightarrow> chat_server \<Rightarrow> chat_server" where
  "abort_task h w = w\<lparr>cs_tasks := del_row h (cs_tasks w)\<rparr>"

definition add_joined :: "entity_id \<Rightarrow> string \<Rightarrow> channel_id \<Rightarrow> task_handle \<Rightarrow> chat_server \<Rightarrow> chat_server" where
  "add_joined e key c h w = set_joined e (put_row key (c, h) (joined_of w e)) w"

definition join_channel :: "channel_id \<Rightarrow> entity_id \<Rightarrow> account_id \<Rightarrow> string \<Rightarrow> channel_id chat_io" where
  "join_channel fresh e a name =
     andThen (on_db (find_or_create_named_channel fresh a name)) (\<lambda>c.
     andThen (on_db (chat_join c a)) (\<lambda>_.
     andThen (spawn_forwarder e c name a) (\<lambda>h.
     andThen (execute (add_joined e name c h)) (\<lambda>_.
     ok c))))"

definition handle_chat :: "int \<Rightarrow> channel_id \<Rightarrow> entity_id \<Rightarrow> account_id \<Rightarrow> chat_request \<Rightarrow> chat_server \<Rightarrow> chat_server" where
  "handle_chat now fresh e a request w = (case request of
     JoinChannel name \<Rightarrow>
       if has_row (joined_of w e) name then reply_to e (RefusedReply (AlreadyJoined name)) w
       else (case join_channel fresh e a name w of
               (Inr c, w1) \<Rightarrow> reply_to e (JoinedReply c name) w1
             | (Inl err, w1) \<Rightarrow> reply_to e (RefusedReply (ChatFailed err)) w1)
   | LeaveChannel name \<Rightarrow>
       (case map_of (joined_of w e) name of
          None \<Rightarrow> reply_to e (RefusedReply (NotJoinedTo name)) w
        | Some (c, h) \<Rightarrow>
            let w1 = abort_task h (set_joined e (del_row name (joined_of w e)) w) in
            (case on_db (chat_leave c a) w1 of
               (Inr _, w2) \<Rightarrow> reply_to e (LeftReply name) w2
             | (Inl err, w2) \<Rightarrow> reply_to e (RefusedReply (ChatFailed err)) w2))
   | SendLine c body \<Rightarrow>
       (case publish now c a body w of
          (Inr _, w1) \<Rightarrow> w1
        | (Inl err, w1) \<Rightarrow> reply_to e (RefusedReply (ChatFailed err)) w1))"

section \<open>Zone channels\<close>

definition zone_auto_prefix :: string where
  "zone_auto_prefix = ''#zone-auto:''"

definition zone_auto_join_key :: "string \<Rightarrow> string" where
  "zone_auto_join_key category = zone_auto_prefix @ category"

definition auto_join_one :: "channel_id \<Rightarrow> string \<Rightarrow> string \<Rightarrow> entity_id \<Rightarrow> account_id \<Rightarrow> unit chat_io" where
  "auto_join_one fresh zone category e a =
     andThen (on_db (ensure_zone_channel fresh (Some zone) category (zone_channel_name category zone))) (\<lambda>c.
     andThen (spawn_forwarder e c category a) (\<lambda>h.
     andThen (execute (add_joined e (zone_auto_join_key category) c h)) (\<lambda>_.
     execute (reply_to e (JoinedReply c category)))))"

text \<open>One category of the loop; a failure is logged and the loop goes on. \<open>ids\<close> draws the new ids.\<close>

definition auto_join_category ::
  "(string \<Rightarrow> channel_id) \<Rightarrow> string \<Rightarrow> entity_id \<Rightarrow> account_id \<Rightarrow> string list \<Rightarrow> string \<Rightarrow> chat_server \<Rightarrow> chat_server" where
  "auto_join_category ids zone e a blocked category w =
     (if category \<in> set blocked then w
      else if has_row (joined_of w e) (zone_auto_join_key category) then w
      else snd (auto_join_one (ids category) zone category e a w))"

definition auto_join_zone_channels ::
  "(string \<Rightarrow> channel_id) \<Rightarrow> string \<Rightarrow> entity_id \<Rightarrow> account_id \<Rightarrow> string list \<Rightarrow> chat_server \<Rightarrow> chat_server" where
  "auto_join_zone_channels ids zone e a blocked w =
     fold (auto_join_category ids zone e a blocked) (cs_auto_join w) w"

definition is_auto_key :: "string \<Rightarrow> bool" where
  "is_auto_key key \<longleftrightarrow> strip_prefix zone_auto_prefix key \<noteq> None"

definition category_of_key :: "string \<Rightarrow> string" where
  "category_of_key key = (case strip_prefix zone_auto_prefix key of None \<Rightarrow> key | Some c \<Rightarrow> c)"

definition auto_leave_one :: "entity_id \<Rightarrow> string \<Rightarrow> chat_server \<Rightarrow> chat_server" where
  "auto_leave_one e key w = (case map_of (joined_of w e) key of
     None \<Rightarrow> w
   | Some (c, h) \<Rightarrow>
       reply_to e (LeftReply (category_of_key key))
         (abort_task h (set_joined e (del_row key (joined_of w e)) w)))"

definition auto_leave_zone_channels :: "entity_id \<Rightarrow> chat_server \<Rightarrow> chat_server" where
  "auto_leave_zone_channels e w =
     fold (auto_leave_one e) (filter is_auto_key (map fst (joined_of w e))) w"

section \<open>A connection's life\<close>

definition connect_chat :: "entity_id \<Rightarrow> account_id \<Rightarrow> string \<Rightarrow> chat_server \<Rightarrow> chat_server" where
  "connect_chat e a name w = w\<lparr>cs_usernames := put_row a name (cs_usernames w),
     cs_conns := put_row e \<lparr>cn_account = a, cn_joined = [], cn_out = []\<rparr> (cs_conns w)\<rparr>"

text \<open>\<^verbatim>\<open>abort_all\<close> and the end of the session.\<close>

definition abort_all :: "(string, channel_id \<times> task_handle) table \<Rightarrow> chat_server \<Rightarrow> chat_server" where
  "abort_all joined w = fold (\<lambda>(_, _, h). abort_task h) joined w"

definition disconnect_chat :: "entity_id \<Rightarrow> chat_server \<Rightarrow> chat_server" where
  "disconnect_chat e w =
     (let w1 = abort_all (joined_of w e) w in w1\<lparr>cs_conns := del_row e (cs_conns w1)\<rparr>)"

text \<open>The hand-over when a \<^verbatim>\<open>ZoneChanged\<close> passes through the session.\<close>

definition change_zone ::
  "(string \<Rightarrow> channel_id) \<Rightarrow> string \<Rightarrow> entity_id \<Rightarrow> account_id \<Rightarrow> string list \<Rightarrow> chat_server \<Rightarrow> chat_server" where
  "change_zone ids zone e a blocked w =
     auto_join_zone_channels ids zone e a blocked (auto_leave_zone_channels e w)"

text \<open>\<^verbatim>\<open>plugin_chat_command\<close>: a line that names a declared command, with its arguments.\<close>

fun split_once :: "char \<Rightarrow> string \<Rightarrow> (string \<times> string) option" where
  "split_once sep [] = None"
| "split_once sep (c # cs) = (if c = sep then Some ([], cs)
     else map_option (\<lambda>(l, r). (c # l, r)) (split_once sep cs))"

definition plugin_chat_command :: "string list \<Rightarrow> string \<Rightarrow> (string \<times> string) option" where
  "plugin_chat_command declared body =
     Option.bind (strip_prefix ''/'' body) (\<lambda>rest.
       let (command, args) = (case split_once (CHR '' '') rest of Some p \<Rightarrow> p | None \<Rightarrow> (rest, [])) in
       if list_ex (\<lambda>d. d = command) declared then Some (command, args) else None)"

section \<open>What is sent to whom\<close>

definition outbox :: "chat_server \<Rightarrow> entity_id \<Rightarrow> chat_reply list" where
  "outbox w e = (case map_of (cs_conns w) e of None \<Rightarrow> [] | Some cn \<Rightarrow> cn_out cn)"

definition connected :: "chat_server \<Rightarrow> entity_id \<Rightarrow> bool" where
  "connected w e \<longleftrightarrow> has_row (cs_conns w) e"

text \<open>The part of the state the forwarder tasks and the joined channels make up.\<close>

definition same_wiring :: "chat_server \<Rightarrow> chat_server \<Rightarrow> bool" where
  "same_wiring w w' \<longleftrightarrow> cs_tasks w' = cs_tasks w \<and> cs_next_task w' = cs_next_task w
     \<and> map fst (cs_conns w') = map fst (cs_conns w)
     \<and> (\<forall>e. map_option (\<lambda>cn. (cn_account cn, cn_joined cn)) (map_of (cs_conns w') e)
          = map_option (\<lambda>cn. (cn_account cn, cn_joined cn)) (map_of (cs_conns w) e))"

lemma same_wiring_refl [simp]: "same_wiring w w"
  by (simp add: same_wiring_def)

lemma same_wiring_trans: "same_wiring w w1 \<Longrightarrow> same_wiring w1 w2 \<Longrightarrow> same_wiring w w2"
  by (simp add: same_wiring_def)

lemma same_wiring_joined: "same_wiring w w' \<Longrightarrow> joined_of w' e = joined_of w e"
proof -
  assume "same_wiring w w'"
  then have "map_option (\<lambda>cn. (cn_account cn, cn_joined cn)) (map_of (cs_conns w') e)
      = map_option (\<lambda>cn. (cn_account cn, cn_joined cn)) (map_of (cs_conns w) e)"
    by (simp add: same_wiring_def)
  then show ?thesis by (auto simp: joined_of_def split: option.split)
qed

definition account_at :: "chat_server \<Rightarrow> entity_id \<Rightarrow> account_id option" where
  "account_at w e = map_option cn_account (map_of (cs_conns w) e)"

lemma same_wiring_account: "same_wiring w w' \<Longrightarrow> account_at w' e = account_at w e"
proof -
  assume "same_wiring w w'"
  then have "map_option fst (map_option (\<lambda>cn. (cn_account cn, cn_joined cn)) (map_of (cs_conns w') e))
      = map_option fst (map_option (\<lambda>cn. (cn_account cn, cn_joined cn)) (map_of (cs_conns w) e))"
    by (simp add: same_wiring_def)
  then show ?thesis by (simp add: account_at_def option.map_comp comp_def)
qed

lemma same_wiring_connected: "same_wiring w w' \<Longrightarrow> connected w' e \<longleftrightarrow> connected w e"
  by (simp add: same_wiring_def connected_def has_row_iff flip: set_map)

lemma reply_to_simps [simp]:
  "cs_db (reply_to e m w) = cs_db w" "cs_tasks (reply_to e m w) = cs_tasks w"
  "cs_usernames (reply_to e m w) = cs_usernames w" "cs_bus_up (reply_to e m w) = cs_bus_up w"
  "cs_persist (reply_to e m w) = cs_persist w" "cs_auto_join (reply_to e m w) = cs_auto_join w"
  by (simp_all add: reply_to_def update_conn_def)

lemma same_wiring_reply [simp]: "same_wiring w (reply_to e m w)"
  by (auto simp: same_wiring_def reply_to_def update_conn_def option.map_comp comp_def)

lemma outbox_reply:
  "outbox (reply_to e m w) e' = outbox w e' @ (if e' = e \<and> connected w e then [m] else [])"
  by (auto simp: outbox_def reply_to_def update_conn_def connected_def has_row_def split: option.split)

lemma on_db_run: "on_db m w = (fst (m (cs_db w)), w\<lparr>cs_db := snd (m (cs_db w))\<rparr>)"
  by (simp add: on_db_def split: prod.split)

lemma same_wiring_db [simp]: "same_wiring w (w\<lparr>cs_db := d\<rparr>)"
  by (simp add: same_wiring_def)

definition lines_for :: "chat_server \<Rightarrow> chat_message \<Rightarrow> entity_id \<Rightarrow> chat_reply list" where
  "lines_for w m e = (if connected w e
     then map (\<lambda>t. LineReply (cm_channel m) (ft_name t) (username_of w (cm_sender m)) (cm_body m))
       (filter (\<lambda>t. ft_conn t = e \<and> ft_channel t = cm_channel m \<and> ft_account t \<noteq> cm_sender m)
         (map snd (cs_tasks w)))
     else [])"

lemma forward_keeps:
  "same_wiring w (forward m t w)" "cs_usernames (forward m t w) = cs_usernames w"
  "cs_db (forward m t w) = cs_db w" "cs_persist (forward m t w) = cs_persist w"
  "cs_bus_up (forward m t w) = cs_bus_up w" "cs_auto_join (forward m t w) = cs_auto_join w"
  by (simp_all add: forward_def)

lemma fold_forward:
  "let w' = fold (forward m) ts w in
     same_wiring w w' \<and> cs_usernames w' = cs_usernames w \<and> cs_db w' = cs_db w
     \<and> cs_persist w' = cs_persist w \<and> cs_bus_up w' = cs_bus_up w \<and> cs_auto_join w' = cs_auto_join w
     \<and> outbox w' e = outbox w e @ (if connected w e
       then map (\<lambda>t. LineReply (cm_channel m) (ft_name t) (username_of w (cm_sender m)) (cm_body m))
         (filter (\<lambda>t. ft_conn t = e \<and> ft_channel t = cm_channel m \<and> ft_account t \<noteq> cm_sender m) ts)
       else [])"
proof (induction ts arbitrary: w)
  case (Cons t ts)
  have s: "same_wiring w (forward m t w)" by (rule forward_keeps)
  have "outbox (forward m t w) e = outbox w e @ (if connected w e \<and> ft_conn t = e
      \<and> ft_channel t = cm_channel m \<and> ft_account t \<noteq> cm_sender m
      then [LineReply (cm_channel m) (ft_name t) (username_of w (cm_sender m)) (cm_body m)] else [])"
    by (auto simp: forward_def outbox_reply)
  then show ?case
    using Cons.IH [of "forward m t w"] same_wiring_trans [OF s] same_wiring_connected [OF s, of e]
    by (auto simp: Let_def forward_keeps username_of_def)
qed simp

lemma deliver_effect:
  "same_wiring w (deliver m w)" "cs_db (deliver m w) = cs_db w" "cs_persist (deliver m w) = cs_persist w"
  "cs_usernames (deliver m w) = cs_usernames w" "cs_bus_up (deliver m w) = cs_bus_up w"
  "cs_auto_join (deliver m w) = cs_auto_join w"
  "outbox (deliver m w) e = outbox w e @ lines_for w m e"
  using fold_forward [of m "map snd (cs_tasks w)" w e] by (simp_all add: deliver_def Let_def lines_for_def)

lemma persist_effect:
  "same_wiring w (persist m w)" "outbox (persist m w) e = outbox w e" "cs_bus_up (persist m w) = cs_bus_up w"
  "cs_usernames (persist m w) = cs_usernames w" "cs_auto_join (persist m w) = cs_auto_join w"
  "cs_db (persist m w) = (if cs_persist w then snd (record_message m (cs_db w)) else cs_db w)"
  by (simp_all add: persist_def on_db_run outbox_def)

definition may_publish :: "chat_db \<Rightarrow> channel_id \<Rightarrow> account_id \<Rightarrow> bool" where
  "may_publish s c a \<longleftrightarrow> map_option cc_type (map_of (chat_channels s) c) = Some ZoneChannel
     \<or> a \<in> members_in s c"

lemma publish_run:
  "publish now c a body w =
     (if \<not> may_publish (cs_db w) c a then (Inl SenderNotMember, w)
      else if \<not> cs_bus_up w then (Inl PubSubUnavailable, w)
      else (let m = \<lparr>cm_channel = c, cm_sender = a, cm_body = body, cm_sent_at = now\<rparr>
            in (Inr (), persist m (deliver m w))))"
  by (simp add: publish_def andThen_apply on_db_run channel_type_of_def is_chat_member_def may_publish_def
      members_in_def Let_def)

text \<open>
  C27: A line a client sends reaches exactly the connections with a forwarder task on its channel, once
  per task, other than those of the sender's own account, and only if the sender is a member of the
  channel or the channel is a zone channel and the bus is up; otherwise nobody hears anything and only
  the sender is told. What was delivered is appended to the durable log exactly when that is switched
  on.
\<close>

theorem send_reaches_exactly_subscribers:
  assumes "connected w e"
  shows "let w' = handle_chat now fresh e a (SendLine c body) w;
             m = \<lparr>cm_channel = c, cm_sender = a, cm_body = body, cm_sent_at = now\<rparr>;
             sent = (may_publish (cs_db w) c a \<and> cs_bus_up w) in
      outbox w' e' = outbox w e' @
        (if sent then lines_for w m e'
         else if e' = e then [RefusedReply (ChatFailed
           (if may_publish (cs_db w) c a then PubSubUnavailable else SenderNotMember))]
         else [])
    \<and> cs_db w' = (if sent \<and> cs_persist w then snd (record_message m (cs_db w)) else cs_db w)"
  using assms
  by (simp add: handle_chat_def publish_run Let_def outbox_reply persist_effect deliver_effect)

section \<open>Tasks and joined channels belong together\<close>

definition entry :: "chat_server \<Rightarrow> entity_id \<Rightarrow> string \<Rightarrow> (channel_id \<times> task_handle) option" where
  "entry w e key = map_of (joined_of w e) key"

definition wired :: "chat_server \<Rightarrow> bool" where
  "wired w \<longleftrightarrow> keys_unique (cs_tasks w) \<and> keys_unique (cs_conns w)
     \<and> (\<forall>e. keys_unique (joined_of w e))
     \<and> (\<forall>h t. map_of (cs_tasks w) h = Some t \<longrightarrow> h < cs_next_task w
          \<and> (\<exists>key. entry w (ft_conn t) key = Some (ft_channel t, h)))
     \<and> (\<forall>e key c h. entry w e key = Some (c, h) \<longrightarrow>
          (\<exists>t. map_of (cs_tasks w) h = Some t \<and> ft_conn t = e \<and> ft_channel t = c
             \<and> account_at w e = Some (ft_account t)))
     \<and> (\<forall>e key key' c c' h. entry w e key = Some (c, h) \<longrightarrow> entry w e key' = Some (c', h) \<longrightarrow> key = key')"

lemma wired_task:
  "wired w \<Longrightarrow> map_of (cs_tasks w) h = Some t \<Longrightarrow>
     h < cs_next_task w \<and> (\<exists>key. entry w (ft_conn t) key = Some (ft_channel t, h))"
  by (simp add: wired_def)

lemma wired_entry:
  "wired w \<Longrightarrow> entry w e key = Some (c, h) \<Longrightarrow>
     \<exists>t. map_of (cs_tasks w) h = Some t \<and> ft_conn t = e \<and> ft_channel t = c \<and> account_at w e = Some (ft_account t)"
  by (simp add: wired_def)

lemma wired_key:
  "wired w \<Longrightarrow> entry w e key = Some (c, h) \<Longrightarrow> entry w e' key' = Some (c', h) \<Longrightarrow> e' = e \<and> key' = key"
  unfolding wired_def by (metis option.inject)

lemma wired_unique: "wired w \<Longrightarrow> keys_unique (joined_of w e)"
  by (simp add: wired_def)

lemma wired_same: "wired w \<Longrightarrow> same_wiring w w' \<Longrightarrow> wired w'"
proof -
  assume w: "wired w" and s: "same_wiring w w'"
  have "entry w' = entry w" "account_at w' = account_at w" "cs_tasks w' = cs_tasks w"
    "cs_next_task w' = cs_next_task w" "keys_unique (cs_conns w') \<longleftrightarrow> keys_unique (cs_conns w)"
    "joined_of w' = joined_of w"
    using s same_wiring_joined [OF s] same_wiring_account [OF s]
    by (auto simp: entry_def fun_eq_iff same_wiring_def keys_unique_def)
  then show "wired w'" using w by (simp add: wired_def)
qed

lemma joined_of_set_joined:
  "joined_of (set_joined e t w) e' = (if e' = e \<and> connected w e then t else joined_of w e')"
  by (auto simp: joined_of_def set_joined_def update_conn_def connected_def has_row_def split: option.split)

lemma account_at_set_joined [simp]: "account_at (set_joined e t w) e' = account_at w e'"
  by (auto simp: account_at_def set_joined_def update_conn_def option.map_comp comp_def)

lemma set_joined_simps [simp]:
  "cs_tasks (set_joined e t w) = cs_tasks w" "cs_next_task (set_joined e t w) = cs_next_task w"
  "cs_db (set_joined e t w) = cs_db w" "keys_unique (cs_conns (set_joined e t w)) = keys_unique (cs_conns w)"
  "connected (set_joined e t w) e' = connected w e'" "cs_bus_up (set_joined e t w) = cs_bus_up w"
  "cs_auto_join (set_joined e t w) = cs_auto_join w"
  by (simp_all add: set_joined_def update_conn_def connected_def)

lemma joined_connected: "entry w e key = Some x \<Longrightarrow> connected w e"
  by (auto simp: entry_def joined_of_def connected_def has_row_def split: option.splits)

text \<open>A new entry with its task, and an entry dropped with its task.\<close>

definition attach :: "entity_id \<Rightarrow> account_id \<Rightarrow> string \<Rightarrow> channel_id \<Rightarrow> string \<Rightarrow> chat_server \<Rightarrow> chat_server" where
  "attach e a key c name w = add_joined e key c (cs_next_task w) (w\<lparr>cs_next_task := cs_next_task w + 1,
     cs_tasks := cs_tasks w @ [(cs_next_task w,
       \<lparr>ft_conn = e, ft_account = a, ft_channel = c, ft_name = name\<rparr>)]\<rparr>)"

definition detach :: "entity_id \<Rightarrow> string \<Rightarrow> task_handle \<Rightarrow> chat_server \<Rightarrow> chat_server" where
  "detach e key h w = abort_task h (set_joined e (del_row key (joined_of w e)) w)"

lemma joined_of_more [simp]:
  "joined_of (w\<lparr>cs_next_task := n, cs_tasks := ts\<rparr>) = joined_of w"
  "connected (w\<lparr>cs_next_task := n, cs_tasks := ts\<rparr>) = connected w"
  "account_at (w\<lparr>cs_next_task := n, cs_tasks := ts\<rparr>) = account_at w"
  "joined_of (w\<lparr>cs_tasks := ts\<rparr>) = joined_of w" "connected (w\<lparr>cs_tasks := ts\<rparr>) = connected w"
  "account_at (w\<lparr>cs_tasks := ts\<rparr>) = account_at w" "joined_of (w\<lparr>cs_next_task := n\<rparr>) = joined_of w"
  "connected (w\<lparr>cs_next_task := n\<rparr>) = connected w" "account_at (w\<lparr>cs_next_task := n\<rparr>) = account_at w"
  by (simp_all add: joined_of_def connected_def account_at_def fun_eq_iff)

lemma entry_attach:
  "connected w e \<Longrightarrow> entry (attach e a key c name w) e' k
     = (if e' = e \<and> k = key then Some (c, cs_next_task w) else entry w e' k)"
  by (simp add: attach_def add_joined_def entry_def joined_of_set_joined)

lemma entry_detach:
  "connected w e \<Longrightarrow> entry (detach e key h w) e' k = (if e' = e \<and> k = key then None else entry w e' k)"
  by (simp add: detach_def abort_task_def entry_def joined_of_set_joined)

lemma attach_simps [simp]:
  "cs_next_task (attach e a key c name w) = cs_next_task w + 1" "cs_db (attach e a key c name w) = cs_db w"
  "account_at (attach e a key c name w) = account_at w" "connected (attach e a key c name w) = connected w"
  "cs_tasks (attach e a key c name w) = cs_tasks w @ [(cs_next_task w,
       \<lparr>ft_conn = e, ft_account = a, ft_channel = c, ft_name = name\<rparr>)]"
  "cs_bus_up (attach e a key c name w) = cs_bus_up w" "cs_auto_join (attach e a key c name w) = cs_auto_join w"
  by (simp_all add: attach_def add_joined_def fun_eq_iff)

lemma detach_simps [simp]:
  "cs_next_task (detach e key h w) = cs_next_task w" "cs_db (detach e key h w) = cs_db w"
  "account_at (detach e key h w) = account_at w" "connected (detach e key h w) = connected w"
  "cs_tasks (detach e key h w) = del_row h (cs_tasks w)" "cs_bus_up (detach e key h w) = cs_bus_up w"
  "cs_auto_join (detach e key h w) = cs_auto_join w"
  by (simp_all add: detach_def abort_task_def fun_eq_iff)

lemma wired_attach:
  assumes w: "wired w" and e: "account_at w e = Some a" and new: "entry w e key = None"
  shows "wired (attach e a key c name w)"
proof -
  have conn: "connected w e" using e by (auto simp: account_at_def connected_def has_row_def)
  have fresh: "\<not> has_row (cs_tasks w) (cs_next_task w)"
    using wired_task [OF w] by (force simp: has_row_def)
  have tasks: "map_of (cs_tasks (attach e a key c name w)) = (map_of (cs_tasks w))(cs_next_task w \<mapsto>
      \<lparr>ft_conn = e, ft_account = a, ft_channel = c, ft_name = name\<rparr>)"
    using fresh by (auto simp: has_row_def map_add_def fun_eq_iff split: option.split)
  have unused: "entry w e' k \<noteq> Some (d, cs_next_task w)" for e' k d
    using wired_entry [OF w, of e' k d "cs_next_task w"] fresh by (auto simp: has_row_def)
  note en = entry_attach [OF conn, of a key c name]
  let ?w = "attach e a key c name w"
  have "keys_unique (cs_tasks ?w)"
    using w fresh by (simp add: wired_def keys_unique_append)
  moreover have "keys_unique (cs_conns ?w)" using w by (simp add: attach_def add_joined_def wired_def)
  moreover have "keys_unique (joined_of ?w e')" for e'
    using wired_unique [OF w] by (simp add: attach_def add_joined_def joined_of_set_joined)
  moreover have "h < cs_next_task ?w \<and> (\<exists>k. entry ?w (ft_conn t) k = Some (ft_channel t, h))"
    if "map_of (cs_tasks ?w) h = Some t" for h t
  proof (cases "h = cs_next_task w")
    case True
    then have "t = \<lparr>ft_conn = e, ft_account = a, ft_channel = c, ft_name = name\<rparr>"
      using that unfolding tasks by simp
    then show ?thesis using True by (auto simp: en)
  next
    case False
    then have "map_of (cs_tasks w) h = Some t" using that unfolding tasks by simp
    then obtain k where k: "h < cs_next_task w" "entry w (ft_conn t) k = Some (ft_channel t, h)"
      using wired_task [OF w] by blast
    then have "entry ?w (ft_conn t) k = Some (ft_channel t, h)" using new by (auto simp: en)
    then show ?thesis using k(1) by auto
  qed
  moreover have "\<exists>t. map_of (cs_tasks ?w) h = Some t \<and> ft_conn t = e' \<and> ft_channel t = d
      \<and> account_at ?w e' = Some (ft_account t)" if "entry ?w e' k = Some (d, h)" for e' k d h
  proof (cases "e' = e \<and> k = key")
    case True
    then show ?thesis using that e unfolding tasks by (simp add: en)
  next
    case False
    then have k: "entry w e' k = Some (d, h)" using that by (auto simp: en split: if_splits)
    then show ?thesis using wired_entry [OF w k] unused unfolding tasks by auto
  qed
  moreover have "k = k'" if "entry ?w e' k = Some (d, h)" "entry ?w e' k' = Some (d', h)" for e' k k' d d' h
    using that unused wired_key [OF w, of e' k d h e' k' d'] by (auto simp: en split: if_splits)
  ultimately show ?thesis unfolding wired_def by blast
qed

lemma wired_detach:
  assumes w: "wired w" and e: "entry w e key = Some (c, h)"
  shows "wired (detach e key h w)"
proof -
  note conn = joined_connected [OF e]
  note en = entry_detach [OF conn, of key h]
  let ?w = "detach e key h w"
  have other: "h' \<noteq> h" if "entry w e' k = Some (d, h')" "\<not> (e' = e \<and> k = key)" for e' k d h'
    using wired_key [OF w e, of e' k d] that by auto
  have "keys_unique (cs_tasks ?w)" using w by (simp add: wired_def)
  moreover have "keys_unique (cs_conns ?w)" using w by (simp add: detach_def abort_task_def wired_def)
  moreover have "keys_unique (joined_of ?w e')" for e'
    using wired_unique [OF w] by (simp add: detach_def abort_task_def joined_of_set_joined)
  moreover have "h' < cs_next_task ?w \<and> (\<exists>k. entry ?w (ft_conn t) k = Some (ft_channel t, h'))"
    if "map_of (cs_tasks ?w) h' = Some t" for h' t
  proof -
    have t: "map_of (cs_tasks w) h' = Some t" "h' \<noteq> h" using that by (auto split: if_splits)
    obtain k where k: "entry w (ft_conn t) k = Some (ft_channel t, h')" using wired_task [OF w t(1)] by blast
    then have "\<not> (ft_conn t = e \<and> k = key)" using e t(2) by auto
    then have "entry ?w (ft_conn t) k = Some (ft_channel t, h')" using k by (auto simp: en)
    then show ?thesis using wired_task [OF w t(1)] by auto
  qed
  moreover have "\<exists>t. map_of (cs_tasks ?w) h' = Some t \<and> ft_conn t = e' \<and> ft_channel t = d
      \<and> account_at ?w e' = Some (ft_account t)" if "entry ?w e' k = Some (d, h')" for e' k d h'
  proof -
    have k: "entry w e' k = Some (d, h')" "\<not> (e' = e \<and> k = key)" using that by (auto simp: en split: if_splits)
    then show ?thesis using wired_entry [OF w k(1)] other [OF k] by auto
  qed
  moreover have "k = k'" if "entry ?w e' k = Some (d, h')" "entry ?w e' k' = Some (d', h')" for e' k k' d d' h'
  proof -
    have "entry w e' k = Some (d, h')" "entry w e' k' = Some (d', h')"
      using that by (auto simp: en split: if_splits)
    then show ?thesis using wired_key [OF w] by blast
  qed
  ultimately show ?thesis unfolding wired_def by blast
qed

lemma abort_all_run:
  "abort_all js w = w\<lparr>cs_tasks := fold (\<lambda>(_, _, h). del_row h) js (cs_tasks w)\<rparr>"
  by (induction js arbitrary: w) (auto simp: abort_all_def abort_task_def)

lemma map_of_abort:
  "map_of (fold (\<lambda>(_, _, h). del_row h) js t) h = (if h \<in> (\<lambda>(_, _, h). h) ` set js then None else map_of t h)"
  by (induction js arbitrary: t) (auto split: prod.splits)

lemma keys_unique_abort: "keys_unique t \<Longrightarrow> keys_unique (fold (\<lambda>(_, _, h). del_row h) js t)"
  by (induction js arbitrary: t) (auto split: prod.splits)

lemma wired_disconnect:
  assumes w: "wired w"
  shows "wired (disconnect_chat e w)"
proof -
  let ?w = "disconnect_chat e w"
  have en: "entry ?w e' k = (if e' = e then None else entry w e' k)" for e' k
    by (simp add: entry_def joined_of_def disconnect_chat_def abort_all_run Let_def)
  have ac: "account_at ?w e' = (if e' = e then None else account_at w e')" for e'
    by (simp add: account_at_def disconnect_chat_def abort_all_run Let_def)
  have tasks: "map_of (cs_tasks ?w) h = (if \<exists>k c. entry w e k = Some (c, h) then None else map_of (cs_tasks w) h)" for h
    using in_set_map_of [OF wired_unique [OF w]]
    by (force simp: disconnect_chat_def abort_all_run Let_def map_of_abort entry_def dest: map_of_in_set)
  have next_task: "cs_next_task ?w = cs_next_task w"
    by (simp add: disconnect_chat_def abort_all_run Let_def)
  have "keys_unique (cs_tasks ?w)" "keys_unique (cs_conns ?w)"
    using w by (simp_all add: wired_def disconnect_chat_def abort_all_run Let_def keys_unique_abort)
  moreover have "keys_unique (joined_of ?w e')" for e'
    using wired_unique [OF w] by (simp add: disconnect_chat_def abort_all_run Let_def joined_of_def)
  moreover have "h < cs_next_task ?w \<and> (\<exists>k. entry ?w (ft_conn t) k = Some (ft_channel t, h))"
    if "map_of (cs_tasks ?w) h = Some t" for h t
  proof -
    have t: "map_of (cs_tasks w) h = Some t" "\<nexists>k c. entry w e k = Some (c, h)"
      using that by (auto simp: tasks split: if_splits)
    obtain k where k: "entry w (ft_conn t) k = Some (ft_channel t, h)" "h < cs_next_task w"
      using wired_task [OF w t(1)] by blast
    then have "ft_conn t \<noteq> e" using t(2) by blast
    then show ?thesis using k by (auto simp: en next_task)
  qed
  moreover have "\<exists>t. map_of (cs_tasks ?w) h = Some t \<and> ft_conn t = e' \<and> ft_channel t = d
      \<and> account_at ?w e' = Some (ft_account t)" if "entry ?w e' k = Some (d, h)" for e' k d h
  proof -
    have k: "entry w e' k = Some (d, h)" "e' \<noteq> e" using that by (auto simp: en split: if_splits)
    then have "\<nexists>k c. entry w e k = Some (c, h)" using wired_key [OF w k(1)] by blast
    then show ?thesis using wired_entry [OF w k(1)] k(2) by (auto simp: tasks ac)
  qed
  moreover have "k = k'" if "entry ?w e' k = Some (d, h)" "entry ?w e' k' = Some (d', h)" for e' k k' d d' h
  proof -
    have "entry w e' k = Some (d, h)" "entry w e' k' = Some (d', h)"
      using that by (auto simp: en split: if_splits)
    then show ?thesis using wired_key [OF w] by blast
  qed
  ultimately show ?thesis unfolding wired_def by blast
qed

lemma connect_facts:
  assumes "\<not> connected w e"
  shows "entry (connect_chat e a n w) = entry w"
    "account_at (connect_chat e a n w) e' = (if e' = e then Some a else account_at w e')"
    "cs_tasks (connect_chat e a n w) = cs_tasks w" "cs_db (connect_chat e a n w) = cs_db w"
    "cs_next_task (connect_chat e a n w) = cs_next_task w"
  using assms
  by (auto simp: entry_def joined_of_def connect_chat_def account_at_def connected_def has_row_def fun_eq_iff)

lemma wired_connect:
  assumes w: "wired w" and e: "\<not> connected w e"
  shows "wired (connect_chat e a n w)"
proof -
  let ?w = "connect_chat e a n w"
  note f = connect_facts [OF e, of a n]
  have "\<exists>t. map_of (cs_tasks w) h = Some t \<and> ft_conn t = e' \<and> ft_channel t = d
      \<and> account_at ?w e' = Some (ft_account t)" if "entry w e' k = Some (d, h)" for e' k d h
    using wired_entry [OF w that] joined_connected [OF that] e by (auto simp: f(2))
  moreover have "keys_unique (joined_of ?w e')" for e'
    using wired_unique [OF w] by (simp add: connect_chat_def joined_of_def)
  moreover have "keys_unique (cs_conns ?w)" using w by (simp add: connect_chat_def wired_def)
  ultimately show ?thesis
    using w unfolding wired_def f by blast
qed

section \<open>Small steps\<close>

text \<open>
  What an event does to the state, taken apart: steps that leave the wiring alone, statements on the
  tables, a channel joined, a channel dropped, a connection opened or closed. With \<open>solo\<close>, nobody's
  membership is removed from a channel one of the account's connections still listens to.
\<close>

definition entry_ok :: "chat_db \<Rightarrow> account_id \<Rightarrow> string \<Rightarrow> channel_id \<Rightarrow> bool" where
  "entry_ok s a key c \<longleftrightarrow> (\<exists>r. map_of (chat_channels s) c = Some r \<and>
     ((cc_type r = GroupChannel \<and> cc_name r = Some key \<and> a \<in> members_in s c)
      \<or> (cc_type r = ZoneChannel \<and> is_auto_key key)))"

definition harmless :: "chat_op \<Rightarrow> chat_server \<Rightarrow> bool" where
  "harmless op w = (case op of
     Leave c a \<Rightarrow> \<nexists>e key h. entry w e key = Some (c, h) \<and> account_at w e = Some a
   | _ \<Rightarrow> True)"

inductive chat_micro :: "bool \<Rightarrow> chat_server \<Rightarrow> chat_server \<Rightarrow> bool" for solo where
  silent: "chat_micro solo w w'" if "same_wiring w w'" "cs_db w' = cs_db w"
| store: "chat_micro solo w (w\<lparr>cs_db := chat_op_run op (cs_db w)\<rparr>)" if "solo \<longrightarrow> harmless op w"
| attached: "chat_micro solo w (attach e a key c name w)"
    if "account_at w e = Some a" "entry w e key = None" "entry_ok (cs_db w) a key c"
| detached: "chat_micro solo w (detach e key h w)" if "entry w e key = Some (c, h)"
| opened: "chat_micro solo w (connect_chat e a n w)"
    if "\<not> connected w e" "solo \<longrightarrow> (\<nexists>e'. account_at w e' = Some a)"
| closed: "chat_micro solo w (disconnect_chat e w)"

definition entry_kind_ok :: "chat_server \<Rightarrow> bool" where
  "entry_kind_ok w \<longleftrightarrow> (\<forall>e key c h. entry w e key = Some (c, h) \<longrightarrow>
     (\<exists>r. map_of (chat_channels (cs_db w)) c = Some r \<and>
       ((cc_type r = GroupChannel \<and> cc_name r = Some key) \<or> (cc_type r = ZoneChannel \<and> is_auto_key key))))"

definition entry_member_ok :: "chat_server \<Rightarrow> bool" where
  "entry_member_ok w \<longleftrightarrow> (\<forall>e key c h a r. entry w e key = Some (c, h) \<longrightarrow> account_at w e = Some a \<longrightarrow>
     map_of (chat_channels (cs_db w)) c = Some r \<longrightarrow> cc_type r = GroupChannel \<longrightarrow> a \<in> members_in (cs_db w) c)"

definition one_connection :: "chat_server \<Rightarrow> bool" where
  "one_connection w \<longleftrightarrow> (\<forall>e e' a. account_at w e = Some a \<longrightarrow> account_at w e' = Some a \<longrightarrow> e = e')"

definition server_ok :: "bool \<Rightarrow> chat_server \<Rightarrow> bool" where
  "server_ok solo w \<longleftrightarrow> chat_wf (cs_db w) \<and> wired w \<and> entry_kind_ok w
     \<and> (solo \<longrightarrow> entry_member_ok w \<and> one_connection w)"

lemma entry_same: "same_wiring w w' \<Longrightarrow> entry w' = entry w \<and> account_at w' = account_at w"
  by (auto simp: entry_def fun_eq_iff same_wiring_joined same_wiring_account)

lemma entry_disconnect:
  "entry (disconnect_chat e w) e' k = (if e' = e then None else entry w e' k)"
  "account_at (disconnect_chat e w) e' = (if e' = e then None else account_at w e')"
  "cs_db (disconnect_chat e w) = cs_db w"
  by (simp_all add: entry_def joined_of_def account_at_def disconnect_chat_def abort_all_run Let_def)

lemma entry_store [simp]:
  "entry (w\<lparr>cs_db := d\<rparr>) = entry w" "account_at (w\<lparr>cs_db := d\<rparr>) = account_at w"
  by (simp_all add: entry_def joined_of_def account_at_def fun_eq_iff)

text \<open>Membership is removed only by \<open>Leave\<close>.\<close>

lemma member_kept [pres_intros]:
  "preserves (\<lambda>s. m \<in> set (chat_members s)) (insert_channel d row)"
  "preserves (\<lambda>s. m \<in> set (chat_members s)) (insert_channel_or_nothing d row)"
  "preserves (\<lambda>s. m \<in> set (chat_members s)) (insert_chat_member d a)"
  "preserves (\<lambda>s. m \<in> set (chat_members s)) (insert_chat_member_or_nothing d a)"
  "preserves (\<lambda>s. m \<in> set (chat_members s)) (record_message msg)"
  by (simp_all add: preserves_def insert_channel_def insert_channel_or_nothing_def insert_chat_member_def
      insert_chat_member_or_nothing_def record_message_def)

lemma member_kept_run:
  assumes "a \<in> members_in s c" "op \<noteq> Leave c a"
  shows "a \<in> members_in (chat_op_run op s) c"
proof (cases op)
  case (Leave d b)
  show ?thesis
  proof (cases "chat_leave d b s")
    case (Pair r t)
    then have eq: "chat_op_run op s = t" by (simp add: Leave)
    show ?thesis
      unfolding eq using assms Leave Pair
      by (cases r) (auto simp: chat_leave_Inr members_in_def dest: chat_leave_Inl)
  qed
qed (use assms in \<open>auto simp: members_in_def create_direct_def insert_direct_def create_group_def create_guild_def
      create_named_def ensure_zone_channel_def ensure_zone_insert_def chat_join_def
      intro!: preserves_sndD [where I = "\<lambda>s. (c, a) \<in> set (chat_members s)"] pres_intros\<close>)

lemma micro_ok:
  assumes "chat_micro solo w w'" "server_ok solo w"
  shows "server_ok solo w'"
  using assms
proof (induction rule: chat_micro.induct)
  case (silent w w')
  then show ?case
    using entry_same [OF silent.hyps(1)] wired_same [OF _ silent.hyps(1)]
    by (simp add: server_ok_def entry_kind_ok_def entry_member_ok_def one_connection_def)
next
  case (store op w)
  let ?d = "chat_op_run op (cs_db w)"
  have kept: "map_of (chat_channels ?d) c = Some r" if "map_of (chat_channels (cs_db w)) c = Some r" for c r
    by (rule channel_kept_run [OF that])
  have kind: "entry_kind_ok (w\<lparr>cs_db := ?d\<rparr>)"
    using store.prems unfolding server_ok_def entry_kind_ok_def entry_store by (auto dest!: kept) (metis kept)+
  have member: "entry_member_ok (w\<lparr>cs_db := ?d\<rparr>)" if solo
    unfolding entry_member_ok_def
  proof (intro allI impI)
    fix e key c h a r
    assume e: "entry (w\<lparr>cs_db := ?d\<rparr>) e key = Some (c, h)" "account_at (w\<lparr>cs_db := ?d\<rparr>) e = Some a"
      and row: "map_of (chat_channels (cs_db (w\<lparr>cs_db := ?d\<rparr>))) c = Some r" "cc_type r = GroupChannel"
    obtain r' where r': "map_of (chat_channels (cs_db w)) c = Some r'"
      using e(1) store.prems unfolding server_ok_def entry_kind_ok_def entry_store by blast
    then have "r' = r" using kept [OF r'] row(1) by simp
    then have "a \<in> members_in (cs_db w) c"
      using e r' row(2) store.prems that unfolding server_ok_def entry_member_ok_def entry_store by blast
    moreover have "op \<noteq> Leave c a"
    proof
      assume "op = Leave c a"
      then have "\<nexists>e key h. entry w e key = Some (c, h) \<and> account_at w e = Some a"
        using store.hyps that by (simp add: harmless_def)
      then show False using e unfolding entry_store by blast
    qed
    ultimately show "a \<in> members_in (cs_db (w\<lparr>cs_db := ?d\<rparr>)) c" by (simp add: member_kept_run)
  qed
  have "one_connection (w\<lparr>cs_db := ?d\<rparr>) \<longleftrightarrow> one_connection w" by (simp add: one_connection_def)
  then show ?case
    using store.prems kind member chat_wf_op wired_same [of w "w\<lparr>cs_db := ?d\<rparr>"] by (simp add: server_ok_def)
next
  case (attached w e a key c name)
  have conn: "connected w e" using attached.hyps(1) by (auto simp: account_at_def connected_def has_row_def)
  note en = entry_attach [OF conn, of a key c name]
  have "wired (attach e a key c name w)" using wired_attach attached by (simp add: server_ok_def)
  moreover have "entry_kind_ok (attach e a key c name w)"
    using attached.prems attached.hyps(3) by (auto simp: server_ok_def entry_kind_ok_def en entry_ok_def)
  moreover have "entry_member_ok (attach e a key c name w)" if solo
    using attached that by (auto simp: server_ok_def entry_member_ok_def en entry_ok_def split: if_splits)
  moreover have "one_connection (attach e a key c name w) \<longleftrightarrow> one_connection w"
    by (simp add: one_connection_def)
  ultimately show ?case using attached.prems by (simp add: server_ok_def)
next
  case (detached w e key c h)
  note en = entry_detach [OF joined_connected [OF detached.hyps(1)], of key h]
  have "wired (detach e key h w)" using wired_detach detached by (simp add: server_ok_def)
  moreover have "one_connection (detach e key h w) \<longleftrightarrow> one_connection w" by (simp add: one_connection_def)
  moreover have "entry_kind_ok w \<Longrightarrow> entry_kind_ok (detach e key h w)" by (auto simp: entry_kind_ok_def en)
  moreover have "entry_member_ok w \<Longrightarrow> entry_member_ok (detach e key h w)"
    by (auto simp: entry_member_ok_def en split: if_splits)
  ultimately show ?case using detached.prems by (simp add: server_ok_def)
next
  case (opened w e a n)
  note f = connect_facts [OF opened.hyps(1), of a n]
  have no: "entry w e k = None" for k
    using joined_connected [of w e k] opened.hyps(1) by (cases "entry w e k") auto
  have "one_connection (connect_chat e a n w)" if "one_connection w" "\<nexists>e'. account_at w e' = Some a"
    using that unfolding one_connection_def f(2) by (auto split: if_splits)
  moreover have "entry_member_ok w \<Longrightarrow> entry_member_ok (connect_chat e a n w)"
    unfolding entry_member_ok_def f using no by (auto split: if_splits)
  ultimately show ?case
    using opened wired_connect [OF _ opened.hyps(1), of a n]
    by (auto simp: server_ok_def f entry_kind_ok_def)
next
  case (closed w e)
  then show ?case
    using wired_disconnect [of w e]
    by (auto simp: server_ok_def entry_kind_ok_def entry_member_ok_def one_connection_def
        entry_disconnect split: if_splits)
qed

lemma micros_ok: "(chat_micro solo)\<^sup>*\<^sup>* w w' \<Longrightarrow> server_ok solo w \<Longrightarrow> server_ok solo w'"
  by (induction rule: rtranclp_induct) (auto intro: micro_ok)

section \<open>Events\<close>

datatype chat_event =
    ConnectChat entity_id account_id string
  | DisconnectChat entity_id
  | ChatRequest int channel_id entity_id chat_request
  | EnterZone "string \<Rightarrow> channel_id" string entity_id "string list"
  | StoreEvent chat_op
  | BusState bool

text \<open>An entity id is drawn once, so a connection's is not in use when it opens.\<close>

definition chat_step :: "chat_event \<Rightarrow> chat_server \<Rightarrow> chat_server" where
  "chat_step ev w = (case ev of
     ConnectChat e a n \<Rightarrow> if connected w e then w else connect_chat e a n w
   | DisconnectChat e \<Rightarrow> disconnect_chat e w
   | ChatRequest now fresh e request \<Rightarrow> (case account_at w e of
       None \<Rightarrow> w | Some a \<Rightarrow> handle_chat now fresh e a request w)
   | EnterZone ids zone e blocked \<Rightarrow> (case account_at w e of
       None \<Rightarrow> w | Some a \<Rightarrow> change_zone ids zone e a blocked w)
   | StoreEvent op \<Rightarrow> w\<lparr>cs_db := chat_op_run op (cs_db w)\<rparr>
   | BusState up \<Rightarrow> w\<lparr>cs_bus_up := up\<rparr>)"

text \<open>No account connects twice, and no other process takes memberships away.\<close>

definition solo_event :: "chat_event \<Rightarrow> chat_server \<Rightarrow> bool" where
  "solo_event ev w = (case ev of
     ConnectChat e a n \<Rightarrow> \<forall>(e', cn) \<in> set (cs_conns w). cn_account cn \<noteq> a
   | StoreEvent (Leave c a) \<Rightarrow> False
   | _ \<Rightarrow> True)"

lemma silent_reply: "chat_micro solo w (reply_to e m w)"
  by (rule chat_micro.silent) simp_all

lemma store_op: "harmless op w \<Longrightarrow> chat_micro solo w (w\<lparr>cs_db := chat_op_run op (cs_db w)\<rparr>)"
  by (rule chat_micro.store) simp

text \<open>Reads and failures of the tables change nothing; the others are operations.\<close>

lemma find_or_create_run:
  "snd (find_or_create_named_channel fresh a name s) = s
   \<or> snd (find_or_create_named_channel fresh a name s) = chat_op_run (Create_Group fresh a name) s"
  by (simp add: find_or_create_named_channel_def find_group_def andThen_apply split: option.split)

lemma find_or_create_Inr:
  assumes wf: "chat_wf s" and run: "find_or_create_named_channel fresh a name s = (Inr c, s')"
  shows "\<exists>r. map_of (chat_channels s') c = Some r \<and> cc_type r = GroupChannel \<and> cc_name r = Some name"
proof (cases "List.find (\<lambda>(c, r). cc_type r = GroupChannel \<and> cc_name r = Some name) (chat_channels s)")
  case None
  then have "create_named fresh GroupChannel a name s = (Inr c, s')"
    using run by (simp add: find_or_create_named_channel_def find_group_def create_group_def andThen_apply)
  then show ?thesis
    using create_named_Inr [of fresh GroupChannel a name s c s'] map_of_new_channel by fastforce
next
  case (Some x)
  then have "x \<in> set (chat_channels s)" "cc_type (snd x) = GroupChannel" "cc_name (snd x) = Some name"
    using find_SomeD [OF Some] by (auto split: prod.splits)
  moreover have "c = fst x" "s' = s" using run Some by (auto simp: find_or_create_named_channel_def find_group_def)
  ultimately show ?thesis
    using in_set_map_of [OF chat_wf_unique [OF wf], of "fst x" "snd x"] by auto
qed

lemma store_reach:
  assumes "d = cs_db w \<or> (\<exists>op. d = chat_op_run op (cs_db w) \<and> harmless op w)"
  shows "(chat_micro solo)\<^sup>*\<^sup>* w (w\<lparr>cs_db := d\<rparr>)"
proof (cases "d = cs_db w")
  case False
  then show ?thesis using assms by (auto intro!: r_into_rtranclp store_op)
qed simp

lemma harmless_create [simp]:
  "harmless (Create_Group c a n) w" "harmless (Join c a) w" "harmless (Ensure_Zone c z k n) w"
  by (simp_all add: harmless_def)

lemma spawn_attach:
  "andThen (spawn_forwarder e c name a) (\<lambda>h. andThen (execute (add_joined e key c h)) k) w =
     (if \<not> cs_bus_up w then (Inl PubSubUnavailable, w) else k () (attach e a key c name w))"
  by (simp add: spawn_forwarder_def andThen_apply attach_def)

lemma join_channel_micros:
  assumes ok: "server_ok solo w" and e: "account_at w e = Some a" "entry w e name = None"
  shows "(chat_micro solo)\<^sup>*\<^sup>* w (snd (join_channel fresh e a name w))"
proof -
  obtain r1 d1 where d1: "find_or_create_named_channel fresh a name (cs_db w) = (r1, d1)" by fastforce
  have w1: "(chat_micro solo)\<^sup>*\<^sup>* w (w\<lparr>cs_db := d1\<rparr>)"
    using find_or_create_run [of fresh a name "cs_db w"] harmless_create(1) unfolding d1 snd_conv
    by (intro store_reach) blast
  show ?thesis
  proof (cases r1)
    case (Inl err)
    then show ?thesis using w1 by (simp add: join_channel_def andThen_apply on_db_run d1)
  next
    case (Inr c)
    obtain r2 d2 where d2: "chat_join c a d1 = (r2, d2)" by fastforce
    have "(chat_micro solo)\<^sup>*\<^sup>* (w\<lparr>cs_db := d1\<rparr>) (w\<lparr>cs_db := d1\<rparr>\<lparr>cs_db := d2\<rparr>)"
      using d2 by (intro store_reach) (auto intro!: exI [of _ "Join c a"])
    then have w2: "(chat_micro solo)\<^sup>*\<^sup>* w (w\<lparr>cs_db := d2\<rparr>)" using w1 by (simp add: rtranclp_trans)
    show ?thesis
    proof (cases r2)
      case (Inl err)
      then show ?thesis using w2 by (simp add: join_channel_def andThen_apply on_db_run d1 d2 Inr)
    next
      case joined: (Inr u)
      have run: "snd (join_channel fresh e a name w)
          = (if cs_bus_up w then attach e a name c name (w\<lparr>cs_db := d2\<rparr>) else w\<lparr>cs_db := d2\<rparr>)"
        by (simp add: join_channel_def andThen_apply on_db_run d1 d2 Inr joined spawn_forwarder_def attach_def)
      have wf: "chat_wf (cs_db w)" using ok by (simp add: server_ok_def)
      obtain row where row: "map_of (chat_channels d1) c = Some row" "cc_type row = GroupChannel"
          "cc_name row = Some name"
        using find_or_create_Inr [OF wf] d1 Inr by blast
      have "map_of (chat_channels d2) c = Some row"
        using channel_kept_run [OF row(1), of "Join c a"] d2 by simp
      moreover have "a \<in> members_in d2 c"
        using d2 joined by (auto simp: chat_join_Inr members_in_def split: if_splits)
      ultimately have "entry_ok d2 a name c" using row by (auto simp: entry_ok_def)
      then have "chat_micro solo (w\<lparr>cs_db := d2\<rparr>) (attach e a name c name (w\<lparr>cs_db := d2\<rparr>))"
        using e by (intro chat_micro.attached) auto
      then show ?thesis using w2 by (auto simp: run)
    qed
  qed
qed

lemma auto_key: "is_auto_key (zone_auto_join_key category)"
  by (simp add: is_auto_key_def zone_auto_join_key_def strip_prefix_Some)

lemma auto_join_category_run:
  assumes "ensure_zone_channel (ids category) (Some zone) category
      (zone_channel_name category zone) (cs_db w) = (r1, d1)"
  shows "auto_join_category ids zone e a blocked category w =
     (if category \<in> set blocked \<or> has_row (joined_of w e) (zone_auto_join_key category) then w
      else case r1 of Inl _ \<Rightarrow> w\<lparr>cs_db := d1\<rparr>
      | Inr c \<Rightarrow> if cs_bus_up w then reply_to e (JoinedReply c category)
            (attach e a (zone_auto_join_key category) c category (w\<lparr>cs_db := d1\<rparr>)) else w\<lparr>cs_db := d1\<rparr>)"
  by (simp add: auto_join_category_def auto_join_one_def andThen_apply on_db_run assms
      spawn_forwarder_def attach_def split: sum.split)

lemma auto_join_category_micros:
  assumes ok: "server_ok solo w" and e: "account_at w e = Some a"
  shows "(chat_micro solo)\<^sup>*\<^sup>* w (auto_join_category ids zone e a blocked category w)"
proof (cases "category \<in> set blocked \<or> has_row (joined_of w e) (zone_auto_join_key category)")
  case False
  then have no_entry: "entry w e (zone_auto_join_key category) = None"
    by (simp add: entry_def has_row_def del: not_None_eq)
  obtain r1 d1 where d1: "ensure_zone_channel (ids category) (Some zone) category
      (zone_channel_name category zone) (cs_db w) = (r1, d1)" by fastforce
  have w1: "(chat_micro solo)\<^sup>*\<^sup>* w (w\<lparr>cs_db := d1\<rparr>)"
    using d1 by (intro store_reach)
      (auto intro!: exI [of _ "Ensure_Zone (ids category) (Some zone) category (zone_channel_name category zone)"])
  note run = auto_join_category_run [where ids = ids and category = category, OF d1, of e a blocked]
  show ?thesis
  proof (cases r1)
    case (Inr c)
    have "zone_channel_of d1 (Some zone) category c"
      using ensure_zone_Inr d1 Inr ok by (auto simp: server_ok_def)
    then have "entry_ok d1 a (zone_auto_join_key category) c"
      by (auto simp: zone_channel_of_def entry_ok_def zone_key_def auto_key split: if_splits)
    then have "chat_micro solo (w\<lparr>cs_db := d1\<rparr>)
        (attach e a (zone_auto_join_key category) c category (w\<lparr>cs_db := d1\<rparr>))"
      using e no_entry by (intro chat_micro.attached) auto
    then show ?thesis using w1 silent_reply by (auto simp: run Inr intro: rtranclp.rtrancl_into_rtrancl)
  qed (use w1 run in simp)
qed (auto simp: auto_join_category_def)

lemma auto_join_account:
  "account_at (auto_join_category ids zone e a blocked category w) = account_at w"
proof -
  obtain r1 d1 where d1: "ensure_zone_channel (ids category) (Some zone) category
      (zone_channel_name category zone) (cs_db w) = (r1, d1)" by fastforce
  show ?thesis
    by (auto simp: auto_join_category_run [where ids = ids and category = category, OF d1] fun_eq_iff same_wiring_account [OF same_wiring_reply]
        split: sum.split)
qed

lemma auto_join_micros:
  "server_ok solo w \<Longrightarrow> account_at w e = Some a \<Longrightarrow>
     (chat_micro solo)\<^sup>*\<^sup>* w (fold (auto_join_category ids zone e a blocked) ks w)"
proof (induction ks arbitrary: w)
  case (Cons k ks)
  let ?w = "auto_join_category ids zone e a blocked k w"
  have s: "(chat_micro solo)\<^sup>*\<^sup>* w ?w" by (rule auto_join_category_micros [OF Cons.prems])
  then have "(chat_micro solo)\<^sup>*\<^sup>* ?w (fold (auto_join_category ids zone e a blocked) ks ?w)"
    using micros_ok [OF s Cons.prems(1)] Cons.prems(2) by (intro Cons.IH) (simp_all add: auto_join_account)
  with s show ?case by simp
qed simp

lemma auto_leave_one_micros: "(chat_micro solo)\<^sup>*\<^sup>* w (auto_leave_one e key w)"
proof (cases "map_of (joined_of w e) key")
  case (Some ch)
  obtain c h where ch: "ch = (c, h)" by fastforce
  have "chat_micro solo w (detach e key h w)"
    using Some ch by (intro chat_micro.detached [of w e key c h]) (simp add: entry_def)
  then show ?thesis
    using Some ch silent_reply by (auto simp: auto_leave_one_def detach_def intro: rtranclp.rtrancl_into_rtrancl)
qed (simp add: auto_leave_one_def)

lemma fold_micros: "(\<And>x w. (chat_micro solo)\<^sup>*\<^sup>* w (f x w)) \<Longrightarrow> (chat_micro solo)\<^sup>*\<^sup>* w (fold f xs w)"
proof (induction xs arbitrary: w)
  case (Cons x xs)
  then show ?case by (metis fold_simps(2) rtranclp_trans)
qed simp

lemma auto_leave_keeps: "server_ok solo w \<Longrightarrow> server_ok solo (auto_leave_zone_channels e w)"
  unfolding auto_leave_zone_channels_def
  by (rule micros_ok [OF fold_micros]) (rule auto_leave_one_micros)

lemma account_at_reply [simp]: "account_at (reply_to e m w) = account_at w"
  by (simp add: fun_eq_iff same_wiring_account [OF same_wiring_reply])

lemma auto_leave_account: "account_at (auto_leave_zone_channels e w) = account_at w"
proof -
  have one: "account_at (auto_leave_one e key w) = account_at w" for key w
    by (auto simp: auto_leave_one_def abort_task_def fun_eq_iff split: option.split)
  have "account_at (fold (auto_leave_one e) ks w) = account_at w" for ks
    by (induction ks arbitrary: w) (simp_all add: one)
  then show ?thesis by (simp add: auto_leave_zone_channels_def)
qed

lemma change_zone_ok:
  assumes ok: "server_ok solo w" and a: "account_at w e = Some a"
  shows "server_ok solo (change_zone ids zone e a blocked w)"
  unfolding change_zone_def auto_join_zone_channels_def
  using auto_leave_keeps [OF ok] a
  by (intro micros_ok [OF auto_join_micros]) (simp_all add: auto_leave_account)

lemma silent_ok:
  "server_ok solo w \<Longrightarrow> same_wiring w w' \<Longrightarrow> cs_db w' = cs_db w \<Longrightarrow> server_ok solo w'"
  by (rule micro_ok [OF chat_micro.silent])

lemma reply_ok: "server_ok solo w \<Longrightarrow> server_ok solo (reply_to e m w)"
  by (rule silent_ok) simp_all

lemma publish_ok: "server_ok solo w \<Longrightarrow> server_ok solo (snd (publish now c a body w))"
proof -
  assume ok: "server_ok solo w"
  have "server_ok solo (persist m (deliver m w))" for m
  proof -
    have d: "server_ok solo (deliver m w)" by (rule silent_ok [OF ok]) (simp_all add: deliver_effect)
    then have "server_ok solo (deliver m w\<lparr>cs_db := chat_op_run (Record m) (cs_db (deliver m w))\<rparr>)"
      by (intro micro_ok [OF store_op d]) (simp add: harmless_def)
    then show ?thesis using d by (simp add: persist_def on_db_run)
  qed
  then show ?thesis using ok by (simp add: publish_run Let_def)
qed

lemma leave_ok:
  assumes ok: "server_ok solo w" and e: "account_at w e = Some a" and k: "entry w e name = Some (c, h)"
  shows "server_ok solo ((detach e name h w)\<lparr>cs_db := snd (chat_leave c a (cs_db w))\<rparr>)"
proof -
  have d: "server_ok solo (detach e name h w)" by (rule micro_ok [OF chat_micro.detached [OF k] ok])
  note en = entry_detach [OF joined_connected [OF k], of name h]
  have op: "chat_op_run (Leave c a) (cs_db w) = snd (chat_leave c a (cs_db w))" by simp
  show ?thesis
  proof (cases "solo \<longrightarrow> harmless (Leave c a) (detach e name h w)")
    case True
    then show ?thesis
      using micro_ok [OF chat_micro.store [of solo "Leave c a"] d] by (simp add: op)
  next
    case False
    then have solo: solo by blast
    obtain e' k' h' where e': "entry (detach e name h w) e' k' = Some (c, h')" "account_at w e' = Some a"
      using False by (auto simp: harmless_def)
    then have "e' = e" using e ok solo by (auto simp: server_ok_def one_connection_def)
    then have k': "entry w e k' = Some (c, h')" "k' \<noteq> name" using e' by (auto simp: en split: if_splits)
    obtain r where r: "map_of (chat_channels (cs_db w)) c = Some r"
      "cc_type r = GroupChannel \<and> cc_name r = Some name \<or> cc_type r = ZoneChannel"
      using ok k unfolding server_ok_def entry_kind_ok_def by blast
    obtain r' where "map_of (chat_channels (cs_db w)) c = Some r'"
      "cc_type r' = GroupChannel \<and> cc_name r' = Some k' \<or> cc_type r' = ZoneChannel"
      using ok k'(1) unfolding server_ok_def entry_kind_ok_def by blast
    then have "cc_type r = ZoneChannel" using r k'(2) by auto
    then have "snd (chat_leave c a (cs_db w)) = cs_db w"
      using r(1) by (simp add: chat_leave_def andThen_apply require_joinable_eq)
    then have "(detach e name h w)\<lparr>cs_db := snd (chat_leave c a (cs_db w))\<rparr> = detach e name h w" by simp
    then show ?thesis using d by simp
  qed
qed

lemma handle_chat_ok:
  assumes ok: "server_ok solo w" and e: "account_at w e = Some a"
  shows "server_ok solo (handle_chat now fresh e a request w)"
proof (cases request)
  case (JoinChannel name)
  show ?thesis
  proof (cases "has_row (joined_of w e) name")
    case False
    then have "entry w e name = None" by (simp add: entry_def has_row_def del: not_None_eq)
    then have "server_ok solo (snd (join_channel fresh e a name w))"
      using micros_ok [OF join_channel_micros [OF ok e]] ok by simp
    then show ?thesis
      using False by (auto simp: handle_chat_def JoinChannel intro: reply_ok split: prod.split sum.split)
  qed (simp add: handle_chat_def JoinChannel reply_ok [OF ok])
next
  case (LeaveChannel name)
  show ?thesis
  proof (cases "map_of (joined_of w e) name")
    case (Some ch)
    obtain c h where ch: "ch = (c, h)" by fastforce
    then have k: "entry w e name = Some (c, h)" using Some by (simp add: entry_def)
    have "handle_chat now fresh e a request w = reply_to e
        (case fst (chat_leave c a (cs_db w)) of Inr _ \<Rightarrow> LeftReply name | Inl err \<Rightarrow> RefusedReply (ChatFailed err))
        ((detach e name h w)\<lparr>cs_db := snd (chat_leave c a (cs_db w))\<rparr>)"
      by (simp add: handle_chat_def LeaveChannel Some ch Let_def on_db_run split: sum.split)
        (simp add: detach_def abort_task_def)
    then show ?thesis using leave_ok [OF ok e k] by (simp add: reply_ok)
  qed (simp add: handle_chat_def LeaveChannel reply_ok [OF ok])
next
  case (SendLine c body)
  then show ?thesis
    using publish_ok [OF ok, of now c a body]
    by (auto simp: handle_chat_def intro: reply_ok split: prod.split sum.split)
qed

lemma chat_step_ok:
  assumes ok: "server_ok solo w" and ev: "solo \<longrightarrow> solo_event ev w"
  shows "server_ok solo (chat_step ev w)"
proof (cases ev)
  case (ConnectChat e a n)
  have "\<nexists>e'. account_at w e' = Some a" if solo
    using ev that ConnectChat by (auto simp: solo_event_def account_at_def dest: map_of_in_set)
  then show ?thesis
    using micro_ok [OF chat_micro.opened ok, of e a n] ok by (auto simp: chat_step_def ConnectChat)
next
  case (DisconnectChat e)
  then show ?thesis using micro_ok [OF chat_micro.closed ok] by (simp add: chat_step_def)
next
  case (ChatRequest now fresh e request)
  then show ?thesis using handle_chat_ok [OF ok] ok by (simp add: chat_step_def split: option.split)
next
  case (EnterZone ids zone e blocked)
  then show ?thesis using change_zone_ok [OF ok] ok by (simp add: chat_step_def split: option.split)
next
  case (StoreEvent op)
  have "harmless op w" if solo
    using ev that StoreEvent by (cases op) (auto simp: solo_event_def harmless_def)
  then show ?thesis
    using micro_ok [OF chat_micro.store ok, of op] by (simp add: chat_step_def StoreEvent)
next
  case (BusState up)
  then show ?thesis by (auto simp: chat_step_def same_wiring_def intro!: silent_ok [OF ok])
qed

section \<open>Every reachable server\<close>

definition new_chat_server :: "account_id list \<Rightarrow> string list \<Rightarrow> bool \<Rightarrow> chat_server" where
  "new_chat_server known auto logging = \<lparr>cs_db = empty_chat known, cs_bus_up = True, cs_persist = logging,
     cs_usernames = [], cs_auto_join = auto, cs_tasks = [], cs_next_task = 0, cs_conns = []\<rparr>"

inductive chat_reach :: "bool \<Rightarrow> chat_server \<Rightarrow> bool" for solo where
  start: "chat_reach solo (new_chat_server known auto logging)"
| step: "chat_reach solo (chat_step ev w)" if "chat_reach solo w" "solo \<longrightarrow> solo_event ev w"

lemma chat_reach_ok: "chat_reach solo w \<Longrightarrow> server_ok solo w"
proof (induction rule: chat_reach.induct)
  case (start known auto logging)
  have no: "entry (new_chat_server known auto logging) e k = None" for e k
    by (simp add: entry_def joined_of_def new_chat_server_def)
  show ?case
    by (simp add: server_ok_def wired_def no entry_kind_ok_def entry_member_ok_def one_connection_def)
      (simp add: new_chat_server_def chat_wf_empty joined_of_def account_at_def)
qed (rule chat_step_ok)

lemma lines_entry:
  assumes "wired w" "lines_for w m e \<noteq> []"
  obtains key h a where "entry w e key = Some (cm_channel m, h)" "account_at w e = Some a" "a \<noteq> cm_sender m"
proof -
  obtain h t where t: "(h, t) \<in> set (cs_tasks w)" "ft_conn t = e" "ft_channel t = cm_channel m"
      "ft_account t \<noteq> cm_sender m"
    using assms(2) by (auto simp: lines_for_def filter_empty_conv split: if_splits)
  then have ht: "map_of (cs_tasks w) h = Some t"
    using assms(1) by (intro in_set_map_of) (simp add: wired_def)
  then obtain key where key: "entry w e key = Some (cm_channel m, h)"
    using wired_task [OF assms(1) ht] t by auto
  then have "account_at w e = Some (ft_account t)" using wired_entry [OF assms(1) key] ht by auto
  then show thesis using that key t(4) by blast
qed

lemma hears_only:
  assumes ok: "server_ok False w" and heard: "lines_for w m e \<noteq> []"
  obtains key h a r where "entry w e key = Some (cm_channel m, h)" "account_at w e = Some a" "a \<noteq> cm_sender m"
    "map_of (chat_channels (cs_db w)) (cm_channel m) = Some r"
    "(cc_type r = GroupChannel \<and> cc_name r = Some key) \<or> (cc_type r = ZoneChannel \<and> is_auto_key key)"
proof -
  have wired: "wired w" using ok by (simp add: server_ok_def)
  obtain key h a where e: "entry w e key = Some (cm_channel m, h)" "account_at w e = Some a" "a \<noteq> cm_sender m"
    by (rule lines_entry [OF wired heard])
  moreover obtain r where "map_of (chat_channels (cs_db w)) (cm_channel m) = Some r"
    "(cc_type r = GroupChannel \<and> cc_name r = Some key) \<or> (cc_type r = ZoneChannel \<and> is_auto_key key)"
    using ok e(1) unfolding server_ok_def entry_kind_ok_def by blast
  ultimately show thesis by (rule that)
qed


text \<open>
  Where no account has two connections and no other process removes memberships, only members
  hear a group channel, so a line passes between members alone.
\<close>

theorem group_lines_stay_among_members:
  assumes "chat_reach True w" "lines_for w m e \<noteq> []"
    "map_of (chat_channels (cs_db w)) (cm_channel m) = Some r" "cc_type r = GroupChannel"
  shows "\<exists>a. account_at w e = Some a \<and> a \<in> members_in (cs_db w) (cm_channel m)"
proof -
  have ok: "server_ok True w" by (rule chat_reach_ok [OF assms(1)])
  then have wired: "wired w" by (simp add: server_ok_def)
  obtain key h a where e: "entry w e key = Some (cm_channel m, h)" "account_at w e = Some a"
    by (rule lines_entry [OF wired assms(2)])
  then show ?thesis using ok assms(3,4) unfolding server_ok_def entry_member_ok_def by blast
qed

text \<open>
  Nobody hears a guild or direct channel. No code path starts a forwarder for one, so in every
  reachable state a member's line to its guild's channel is accepted, and logged if logging is on,
  but reaches no connection.
\<close>

theorem guild_lines_reach_nobody:
  assumes "chat_reach False w" "map_of (chat_channels (cs_db w)) c = Some r"
    "cc_type r \<in> {GuildChannel, DirectChannel}" "account_at w e = Some a" "a \<in> members_in (cs_db w) c"
    "cs_bus_up w"
  shows "outbox (handle_chat now fresh e a (SendLine c body) w) e' = outbox w e'"
proof -
  have "lines_for w m e' = []" if "cm_channel m = c" for m
  proof (rule ccontr)
    assume "lines_for w m e' \<noteq> []"
    then obtain r' key where "map_of (chat_channels (cs_db w)) (cm_channel m) = Some r'"
      "(cc_type r' = GroupChannel \<and> cc_name r' = Some key) \<or> (cc_type r' = ZoneChannel \<and> is_auto_key key)"
      by (rule hears_only [OF chat_reach_ok [OF assms(1)]])
    then show False using assms(2,3) that by auto
  qed
  then show ?thesis
    using assms(5,6)
    by (simp add: handle_chat_def publish_run may_publish_def Let_def persist_effect deliver_effect)
qed

section \<open>Changing zones\<close>

lemma entry_reply [simp]: "entry (reply_to e m w) = entry w"
  by (simp add: entry_same [OF same_wiring_reply])

lemma auto_leave_one_entry:
  "entry (auto_leave_one e key w) e' k = (if e' = e \<and> k = key then None else entry w e' k)"
proof (cases "entry w e key")
  case None
  then show ?thesis by (auto simp: auto_leave_one_def entry_def)
next
  case (Some ch)
  then show ?thesis
    using entry_detach [OF joined_connected [OF Some], of key "snd ch"]
    by (auto simp: auto_leave_one_def entry_def [symmetric] detach_def split: prod.split)
qed

lemma auto_leave_entry:
  "is_auto_key key \<Longrightarrow> entry (auto_leave_zone_channels e w) e key = None"
proof -
  have "entry (fold (auto_leave_one e) ks w) e key = (if key \<in> set ks then None else entry w e key)" for ks
    by (induction ks arbitrary: w) (auto simp: auto_leave_one_entry)
  moreover assume "is_auto_key key"
  moreover have "entry w e key = None" if "key \<notin> fst ` set (joined_of w e)"
    using that by (simp add: entry_def map_of_eq_None_iff)
  ultimately show ?thesis by (auto simp: auto_leave_zone_channels_def)
qed

lemma auto_join_entry:
  assumes ok: "server_ok False w" and a: "account_at w e = Some a"
    and k: "entry (auto_join_category ids zone e a blocked category w) e key = Some (c, h)"
  shows "entry w e key = Some (c, h)
    \<or> category \<notin> set blocked \<and> key = zone_auto_join_key category
      \<and> zone_channel_of (cs_db (auto_join_category ids zone e a blocked category w)) (Some zone) category c"
proof -
  obtain r1 d1 where d1: "ensure_zone_channel (ids category) (Some zone) category
      (zone_channel_name category zone) (cs_db w) = (r1, d1)" by fastforce
  note run = auto_join_category_run [where ids = ids and category = category, OF d1, of e a blocked]
  have conn: "connected w e" using a by (auto simp: account_at_def connected_def has_row_def)
  then have conn': "connected (w\<lparr>cs_db := d1\<rparr>) e" by (simp add: connected_def)
  have "zone_channel_of d1 (Some zone) category d" if "r1 = Inr d" for d
    using ensure_zone_Inr d1 ok that by (auto simp: server_ok_def)
  then show ?thesis
    using k by (auto simp: run entry_attach [OF conn'] split: if_splits sum.splits)
qed

lemma auto_join_all_entry:
  assumes "server_ok False w" "account_at w e = Some a"
    "entry (fold (auto_join_category ids zone e a blocked) ks w) e key = Some (c, h)"
  shows "entry w e key = Some (c, h)
    \<or> (\<exists>category \<in> set ks. category \<notin> set blocked \<and> key = zone_auto_join_key category
      \<and> zone_channel_of (cs_db (fold (auto_join_category ids zone e a blocked) ks w)) (Some zone) category c)"
  using assms
proof (induction ks rule: rev_induct)
  case (snoc k ks)
  let ?w = "fold (auto_join_category ids zone e a blocked) ks w"
  have ok: "server_ok False ?w" by (rule micros_ok [OF auto_join_micros [OF snoc.prems(1,2)] snoc.prems(1)])
  have acc: "account_at (fold (auto_join_category ids zone e a blocked) xs w) = account_at w" for xs
    by (induction xs arbitrary: w) (simp_all add: auto_join_account)
  have kept: "zone_channel_of (cs_db (auto_join_category ids zone e a blocked k ?w)) z cat d"
    if "zone_channel_of (cs_db ?w) z cat d" for z cat d
  proof -
    obtain r1 d1 where d1: "ensure_zone_channel (ids k) (Some zone) k (zone_channel_name k zone) (cs_db ?w) = (r1, d1)"
      by fastforce
    have "zone_channel_of d1 z cat d"
      using zone_channel_kept [OF that, of "[Ensure_Zone (ids k) (Some zone) k (zone_channel_name k zone)]"] d1
      by simp
    then show ?thesis
      using that by (auto simp: auto_join_category_run [where ids = ids and category = k, OF d1] split: sum.split)
  qed
  have "entry ?w e key = Some (c, h) \<or> k \<notin> set blocked \<and> key = zone_auto_join_key k
      \<and> zone_channel_of (cs_db (auto_join_category ids zone e a blocked k ?w)) (Some zone) k c"
    using auto_join_entry [OF ok] snoc.prems(2,3) by (simp add: acc)
  then show ?case
  proof
    assume "entry ?w e key = Some (c, h)"
    from snoc.IH [OF snoc.prems(1,2) this] show ?thesis using kept by auto
  qed auto
qed simp

text \<open>
  C28: After a zone change the zone channels a connection listens to are all channels of the new zone,
  for categories declared as automatically joined and not blocked for the player; those of the zone it
  left are gone, whatever failed on the way.
\<close>

theorem zone_change_switches_channels:
  assumes "chat_reach False w" "account_at w e = Some a"
    "entry (change_zone ids zone e a blocked w) e key = Some (c, h)"
    "map_of (chat_channels (cs_db (change_zone ids zone e a blocked w))) c = Some r" "cc_type r = ZoneChannel"
  shows "\<exists>category \<in> set (cs_auto_join w). category \<notin> set blocked
    \<and> zone_channel_of (cs_db (change_zone ids zone e a blocked w)) (Some zone) category c"
proof -
  let ?l = "auto_leave_zone_channels e w"
  have ok: "server_ok False w" by (rule chat_reach_ok [OF assms(1)])
  have okl: "server_ok False ?l" by (rule auto_leave_keeps [OF ok])
  have auto: "cs_auto_join ?l = cs_auto_join w"
  proof -
    have one: "cs_auto_join (auto_leave_one e key w) = cs_auto_join w" for key w
      by (auto simp: auto_leave_one_def abort_task_def split: option.split)
    have "cs_auto_join (fold (auto_leave_one e) ks w) = cs_auto_join w" for ks
      by (induction ks arbitrary: w) (simp_all add: one)
    then show ?thesis by (simp add: auto_leave_zone_channels_def)
  qed
  have acc: "account_at ?l e = Some a" using assms(2) by (simp add: auto_leave_account)
  have "server_ok False (change_zone ids zone e a blocked w)" by (rule change_zone_ok [OF ok assms(2)])
  then have "is_auto_key key" using assms(3-5) unfolding server_ok_def entry_kind_ok_def by fastforce
  then have "entry ?l e key = None" by (rule auto_leave_entry)
  then show ?thesis
    using auto_join_all_entry [OF okl acc, of ids zone blocked "cs_auto_join ?l" key c h] assms(3)
    by (auto simp: change_zone_def auto_join_zone_channels_def auto)
qed

section \<open>Schedules\<close>

definition chat_schedule :: "chat_event list \<Rightarrow> chat_server \<Rightarrow> chat_server" where
  "chat_schedule evs w = fold chat_step evs w"

lemma chat_schedule_reach: "chat_reach False w \<Longrightarrow> chat_reach False (chat_schedule evs w)"
  unfolding chat_schedule_def by (induction evs arbitrary: w) (auto intro: chat_reach.step)

definition ent :: "nat \<Rightarrow> entity_id" where
  "ent n = Id (of_nat n)"

definition chat_start :: chat_server where
  "chat_start = new_chat_server [alice, bob, carol] [''local''] True"

definition friends :: "chat_event list" where
  "friends = [ConnectChat (ent 1) alice ''Alice'', ConnectChat (ent 2) bob ''Bob'',
     ChatRequest 0 (Id 10) (ent 1) (JoinChannel ''friends''), ChatRequest 1 (Id 11) (ent 2) (JoinChannel ''friends'')]"

definition hello :: "account_id \<Rightarrow> channel_id \<Rightarrow> chat_message" where
  "hello a c = \<lparr>cm_channel = c, cm_sender = a, cm_body = ''hello'', cm_sent_at = 2\<rparr>"

lemma send_reaches_exactly_subscribers_witness:
  "outbox (handle_chat 2 (Id 12) (ent 1) alice (SendLine (Id 10) ''hello'') (chat_schedule friends chat_start)) (ent 2)
     = [JoinedReply (Id 10) ''friends'', LineReply (Id 10) ''friends'' ''Alice'' ''hello'']"
proof -
  have "connected (chat_schedule friends chat_start) (ent 1)" by code_simp
  note send = send_reaches_exactly_subscribers [OF this, of 2 "Id 12" alice "Id 10" "''hello''" "ent 2"]
  have "cs_bus_up (chat_schedule friends chat_start)"
    "may_publish (cs_db (chat_schedule friends chat_start)) (Id 10) alice \<longleftrightarrow> True"
    "outbox (chat_schedule friends chat_start) (ent 2) = [JoinedReply (Id 10) ''friends'']"
    "lines_for (chat_schedule friends chat_start) (hello alice (Id 10)) (ent 2)
      = [LineReply (Id 10) ''friends'' ''Alice'' ''hello'']"
    unfolding may_publish_def members_in_def mem_Collect_eq by code_simp+
  then show ?thesis using send by (simp add: Let_def hello_def)
qed


lemma group_lines_stay_among_members_witness:
  "bob \<in> members_in (cs_db (chat_schedule friends chat_start)) (Id 10)"
proof -
  have reach: "chat_reach True (chat_schedule friends chat_start)"
    unfolding chat_start_def chat_schedule_def friends_def
    by (simp, intro chat_reach.step chat_reach.start; code_simp)
  have "lines_for (chat_schedule friends chat_start) (hello alice (Id 10)) (ent 2) \<noteq> []" by code_simp
  moreover have "map_option cc_type (map_of (chat_channels (cs_db (chat_schedule friends chat_start))) (Id 10))
      = Some GroupChannel" by code_simp
  moreover have "account_at (chat_schedule friends chat_start) (ent 2) = Some bob" by code_simp
  ultimately show ?thesis
    using group_lines_stay_among_members [OF reach, of "hello alice (Id 10)" "ent 2"]
    by (auto simp: hello_def)
qed

definition guild_talk :: "chat_event list" where
  "guild_talk = [ConnectChat (ent 1) alice ''Alice'', ConnectChat (ent 2) bob ''Bob'',
     StoreEvent (Create_Guild (Id 20) alice ''guild''), StoreEvent (Join (Id 20) bob)]"

lemma guild_lines_reach_nobody_witness:
  "outbox (handle_chat 2 (Id 12) (ent 1) alice (SendLine (Id 20) ''hello'') (chat_schedule guild_talk chat_start)) (ent 2) = []"
proof -
  let ?w = "chat_schedule guild_talk chat_start"
  have reach: "chat_reach False ?w" unfolding chat_start_def by (rule chat_schedule_reach [OF chat_reach.start])
  have "map_option cc_type (map_of (chat_channels (cs_db ?w)) (Id 20)) = Some GuildChannel" by code_simp
  then obtain r where r: "map_of (chat_channels (cs_db ?w)) (Id 20) = Some r" "cc_type r = GuildChannel" by auto
  have facts: "account_at ?w (ent 1) = Some alice" "cs_bus_up ?w" "outbox ?w (ent 2) = []" by code_simp+
  have "alice \<in> members_in (cs_db ?w) (Id 20)"
    unfolding members_in_def mem_Collect_eq by code_simp
  then show ?thesis
    using guild_lines_reach_nobody [OF reach r(1) _ facts(1) _ facts(2)] r(2) facts(3) by simp
qed

text \<open>
  With two connections of one account the membership is not what decides. Bob is connected twice
  and leaves the channel on one connection, which removes his only membership row; the other
  connection keeps its forwarder and goes on hearing the members, though Bob can no longer answer.
\<close>

theorem leaving_once_keeps_listening_elsewhere:
  "let w = chat_schedule (friends @ [ConnectChat (ent 3) bob ''Bob'',
         ChatRequest 2 (Id 12) (ent 3) (JoinChannel ''friends''),
         ChatRequest 3 (Id 13) (ent 2) (LeaveChannel ''friends'')]) chat_start in
     chat_members (cs_db w) = [(Id 10, alice)]
   \<and> lines_for w (hello alice (Id 10)) (ent 3) = [LineReply (Id 10) ''friends'' ''Alice'' ''hello'']"
  unfolding Let_def by (intro conjI) code_simp+

definition in_forest :: "chat_event list" where
  "in_forest = [ConnectChat (ent 1) alice ''Alice'', ConnectChat (ent 2) bob ''Bob'',
     EnterZone (\<lambda>_. Id 30) ''forest'' (ent 1) [], EnterZone (\<lambda>_. Id 31) ''village'' (ent 2) []]"

text \<open>
  A zone channel takes lines from anywhere: \<^verbatim>\<open>publish\<close> leaves the check that the sender is in the
  zone to its caller, and the session does not make it. Bob, in the village, is heard in the forest.
\<close>

theorem zone_channel_heard_from_outside:
  "let w = chat_schedule in_forest chat_start;
       w' = chat_step (ChatRequest 2 (Id 32) (ent 2) (SendLine (Id 30) ''hello'')) w in
     map (\<lambda>(key, ch). fst ch) (joined_of w (ent 2)) = [Id 31]
   \<and> outbox w' (ent 1) = outbox w (ent 1) @ [LineReply (Id 30) ''local'' ''Bob'' ''hello'']"
  unfolding Let_def by (intro conjI) code_simp+

text \<open>
  A client that leaves an automatically joined zone channel is told that it cannot, and yet stops
  hearing it.
\<close>

theorem refused_leave_stops_listening:
  "let w = chat_schedule in_forest chat_start;
       w' = chat_step (ChatRequest 2 (Id 32) (ent 1) (LeaveChannel ''#zone-auto:local'')) w in
     outbox w' (ent 1) = outbox w (ent 1) @ [RefusedReply (ChatFailed (NotJoinable ZoneChannel))]
   \<and> lines_for w (hello bob (Id 30)) (ent 1) = [LineReply (Id 30) ''local'' ''Bob'' ''hello'']
   \<and> lines_for w' (hello bob (Id 30)) (ent 1) = []"
  unfolding Let_def by (intro conjI) code_simp+

text \<open>Alice in the forest goes to the village and hears its channel, not the forest's.\<close>

lemma zone_change_switches_channels_witness:
  "zone_channel_of (cs_db (change_zone (\<lambda>_. Id 33) ''village'' (ent 1) alice [] (chat_schedule in_forest chat_start)))
     (Some ''village'') ''local'' (Id 31)"
proof -
  let ?w = "chat_schedule in_forest chat_start"
  let ?w' = "change_zone (\<lambda>_. Id 33) ''village'' (ent 1) alice [] ?w"
  have reach: "chat_reach False ?w" unfolding chat_start_def by (rule chat_schedule_reach [OF chat_reach.start])
  have acc: "account_at ?w (ent 1) = Some alice" by code_simp
  have "map_option fst (entry ?w' (ent 1) ''#zone-auto:local'') = Some (Id 31)"
    "map_option cc_type (map_of (chat_channels (cs_db ?w')) (Id 31)) = Some ZoneChannel"
    "cs_auto_join ?w = [''local'']" by code_simp+
  then show ?thesis using zone_change_switches_channels [OF reach acc] by fastforce
qed

end
