(* ===== verification/Envelope.thy ===== *)
theory Envelope
  imports Prelude "HOL-Library.Word"
begin

unbundle bit_operations_syntax

text \<open>
  \<^verbatim>\<open>crates/gateway/src/envelope.rs\<close>: the message envelope and its two framings, and what the
  protocol modules (\<^verbatim>\<open>gateway_protocol.rs\<close>, \<^verbatim>\<open>session_protocol.rs\<close>, \<^verbatim>\<open>realm_protocol.rs\<close>,
  \<^verbatim>\<open>character_protocol.rs\<close>) do alike: put a protobuf message into an envelope of their own
  \<^verbatim>\<open>message_type\<close>, and read one back only from an envelope of that type.

  \<^verbatim>\<open>LengthDelimitedCodec\<close> and prost are third-party: the first is an argument whose documented
  behaviour is \<open>length_delimited\<close>, the second a pair of functions between messages and bytes.
\<close>

section \<open>The envelope\<close>

type_synonym byte = "8 word"
type_synonym bytes = "byte list"
type_synonym u16 = "16 word"

record envelope =
  message_type :: u16
  payload :: bytes

definition new_envelope :: "u16 \<Rightarrow> bytes \<Rightarrow> envelope" where
  "new_envelope t p = \<lparr>message_type = t, payload = p\<rparr>"

datatype gateway_error = EnvelopeTooShort nat

text \<open>\<^verbatim>\<open>BufMut::put_u16\<close> and \<^verbatim>\<open>Buf::get_u16\<close> are big-endian.\<close>

definition put_u16 :: "u16 \<Rightarrow> bytes" where
  "put_u16 w = [ucast (drop_bit 8 w), ucast w]"

definition get_u16 :: "byte \<Rightarrow> byte \<Rightarrow> u16" where
  "get_u16 hi lo = push_bit 8 (ucast hi) OR ucast lo"

definition encode_to :: "envelope \<Rightarrow> bytes" where
  "encode_to e = put_u16 (message_type e) @ payload e"

definition decode_from :: "bytes \<Rightarrow> gateway_error + envelope" where
  "decode_from buf = (case buf of
     hi # lo # rest \<Rightarrow> Inr \<lparr>message_type = get_u16 hi lo, payload = rest\<rparr>
   | _ \<Rightarrow> Inl (EnvelopeTooShort (length buf)))"

definition encode_datagram :: "envelope \<Rightarrow> bytes" where
  "encode_datagram e = encode_to e"

definition decode_datagram :: "bytes \<Rightarrow> gateway_error + envelope" where
  "decode_datagram datagram = decode_from datagram"

lemma get_put_u16 [simp]: "get_u16 (ucast (drop_bit 8 w)) (ucast w) = w"
proof (rule bit_word_eqI)
  fix n assume "n < LENGTH(16)"
  then have "n - 8 + 8 = n \<and> n - 8 < 8" if "8 \<le> n" using that by simp
  then show "bit (get_u16 (ucast (drop_bit 8 w)) (ucast w)) n \<longleftrightarrow> bit w n"
    using \<open>n < LENGTH(16)\<close> by (cases "8 \<le> n") (auto simp: get_u16_def bit_simps)
qed

lemma put_get_u16 [simp]: "put_u16 (get_u16 hi lo) = [hi, lo]"
proof -
  have "ucast (drop_bit 8 (get_u16 hi lo)) = hi"
    by (rule bit_word_eqI) (auto simp: get_u16_def bit_simps dest: bit_imp_le_length)
  moreover have "ucast (get_u16 hi lo) = lo"
    by (rule bit_word_eqI) (auto simp: get_u16_def bit_simps)
  ultimately show ?thesis by (simp add: put_u16_def)
qed

lemma decode_encode [simp]: "decode_from (encode_to e) = Inr e"
  by (simp add: decode_from_def encode_to_def put_u16_def)

lemma decode_from_Inr: "decode_from buf = Inr e \<longleftrightarrow> buf = encode_to e"
proof
  assume "decode_from buf = Inr e"
  then obtain hi lo rest where "buf = hi # lo # rest" "e = \<lparr>message_type = get_u16 hi lo, payload = rest\<rparr>"
    by (auto simp: decode_from_def split: list.splits)
  then show "buf = encode_to e" by (simp add: encode_to_def)
qed simp

section \<open>The stream framing\<close>

text \<open>
  \<^verbatim>\<open>EnvelopeCodec\<close> over a \<^verbatim>\<open>LengthDelimitedCodec\<close>: \<open>frame\<close> is what encoding one body appends to
  the buffer, \<open>unframe\<close> one call of its decoder on its state and the buffer of unread bytes.
\<close>

datatype 'e codec_error = Framing 'e | Malformed gateway_error

type_synonym ('c, 'e) unframer = "'c \<Rightarrow> bytes \<Rightarrow> ('e + bytes option) \<times> 'c \<times> bytes"

definition codec_encode :: "(bytes \<Rightarrow> 'e + bytes) \<Rightarrow> envelope \<Rightarrow> bytes \<Rightarrow> 'e + bytes" where
  "codec_encode frame item dst = (case frame (encode_to item) of Inl e \<Rightarrow> Inl e | Inr w \<Rightarrow> Inr (dst @ w))"

definition codec_decode ::
  "('c, 'e) unframer \<Rightarrow> 'c \<Rightarrow> bytes \<Rightarrow> ('e codec_error + envelope option) \<times> 'c \<times> bytes" where
  "codec_decode unframe c src = (case unframe c src of
     (Inl e, c', src') \<Rightarrow> (Inl (Framing e), c', src')
   | (Inr None, c', src') \<Rightarrow> (Inr None, c', src')
   | (Inr (Some body), c', src') \<Rightarrow>
       (case decode_from body of
          Inl e \<Rightarrow> (Inl (Malformed e), c', src')
        | Inr item \<Rightarrow> (Inr (Some item), c', src')))"

text \<open>
  What the documentation of the codec promises. \<open>pending c buf\<close> are the bytes received and not yet
  handed out, wherever the decoder keeps them: it hands out the first complete frame of them, and
  asks for more while there is only a part of one.
\<close>

definition length_delimited ::
  "(bytes \<Rightarrow> 'e + bytes) \<Rightarrow> ('c, 'e) unframer \<Rightarrow> ('c \<Rightarrow> bytes \<Rightarrow> bytes) \<Rightarrow> bool" where
  "length_delimited frame unframe pending \<longleftrightarrow>
     (\<forall>c buf later. pending c (buf @ later) = pending c buf @ later)
   \<and> (\<forall>c buf. pending c buf = [] \<longrightarrow>
        (\<exists>c' buf'. unframe c buf = (Inr None, c', buf') \<and> pending c' buf' = []))
   \<and> (\<forall>body w c buf rest. frame body = Inr w \<longrightarrow> pending c buf = w @ rest \<longrightarrow>
        (\<exists>c' buf'. unframe c buf = (Inr (Some body), c', buf') \<and> pending c' buf' = rest))
   \<and> (\<forall>body w c buf missing. frame body = Inr w \<longrightarrow> w = pending c buf @ missing \<longrightarrow> missing \<noteq> [] \<longrightarrow>
        (\<exists>c' buf'. unframe c buf = (Inr None, c', buf') \<and> pending c' buf' = pending c buf))"

lemma length_delimitedD:
  assumes "length_delimited frame unframe pending"
  shows "pending c (buf @ later) = pending c buf @ later"
    and "pending c buf = [] \<Longrightarrow> \<exists>c' buf'. unframe c buf = (Inr None, c', buf') \<and> pending c' buf' = []"
    and "frame body = Inr w \<Longrightarrow> pending c buf = w @ rest \<Longrightarrow>
      \<exists>c' buf'. unframe c buf = (Inr (Some body), c', buf') \<and> pending c' buf' = rest"
    and "frame body = Inr w \<Longrightarrow> w = pending c buf @ missing \<Longrightarrow> missing \<noteq> [] \<Longrightarrow>
      \<exists>c' buf'. unframe c buf = (Inr None, c', buf') \<and> pending c' buf' = pending c buf"
  using assms unfolding length_delimited_def by blast+

text \<open>Sending a list of envelopes, and the receiving side: after every read, decode until the
  decoder asks for more.\<close>

fun encode_all :: "(bytes \<Rightarrow> 'e + bytes) \<Rightarrow> envelope list \<Rightarrow> bytes \<Rightarrow> 'e + bytes" where
  "encode_all frame [] dst = Inr dst"
| "encode_all frame (e # es) dst = (case codec_encode frame e dst of
     Inl err \<Rightarrow> Inl err | Inr dst' \<Rightarrow> encode_all frame es dst')"

type_synonym ('c, 'e) received = "envelope list \<times> 'e codec_error option \<times> 'c \<times> bytes"

partial_function (option) drain :: "('c, 'e) unframer \<Rightarrow> 'c \<Rightarrow> bytes \<Rightarrow> ('c, 'e) received option" where
  "drain unframe c buf = (case codec_decode unframe c buf of
     (Inl err, c', buf') \<Rightarrow> Some ([], Some err, c', buf')
   | (Inr None, c', buf') \<Rightarrow> Some ([], None, c', buf')
   | (Inr (Some e), c', buf') \<Rightarrow>
       Option.bind (drain unframe c' buf') (\<lambda>(es, r). Some (e # es, r)))"

fun receive :: "('c, 'e) unframer \<Rightarrow> 'c \<Rightarrow> bytes \<Rightarrow> bytes list \<Rightarrow> ('c, 'e) received option" where
  "receive unframe c buf [] = Some ([], None, c, buf)"
| "receive unframe c buf (chunk # chunks) =
     Option.bind (drain unframe c (buf @ chunk)) (\<lambda>(es, err, c', buf').
       if err \<noteq> None then Some (es, err, c', buf')
       else Option.bind (receive unframe c' buf' chunks) (\<lambda>(es2, r). Some (es @ es2, r)))"

lemma encode_all_append:
  "encode_all frame es dst = (case encode_all frame es [] of Inl e \<Rightarrow> Inl e | Inr w \<Rightarrow> Inr (dst @ w))"
proof (induction es arbitrary: dst)
  case (Cons e es)
  show ?case
  proof (cases "frame (encode_to e)")
    case (Inr w)
    have "encode_all frame es (dst @ w) = (case encode_all frame es [] of Inl e \<Rightarrow> Inl e | Inr v \<Rightarrow> Inr ((dst @ w) @ v))"
      by (rule Cons.IH)
    moreover have "encode_all frame es w = (case encode_all frame es [] of Inl e \<Rightarrow> Inl e | Inr v \<Rightarrow> Inr (w @ v))"
      by (rule Cons.IH)
    ultimately show ?thesis using Inr by (simp add: codec_encode_def split: sum.split)
  qed (simp add: codec_encode_def)
qed simp

lemma encode_all_Cons:
  assumes "encode_all frame (e # es) [] = Inr wire"
  obtains w ws where "frame (encode_to e) = Inr w" "encode_all frame es [] = Inr ws" "wire = w @ ws"
proof (cases "frame (encode_to e)")
  case (Inr w)
  then have "encode_all frame es w = Inr wire" using assms by (simp add: codec_encode_def)
  then show ?thesis
    using encode_all_append [of frame es w] that [OF Inr] by (auto split: sum.splits)
qed (use assms in \<open>simp add: codec_encode_def\<close>)

lemma drain_step:
  "unframe c buf = (Inr None, c', buf') \<Longrightarrow> drain unframe c buf = Some ([], None, c', buf')"
  "unframe c buf = (Inr (Some (encode_to e)), c', buf') \<Longrightarrow>
     drain unframe c buf = Option.bind (drain unframe c' buf') (\<lambda>(es, r). Some (e # es, r))"
proof -
  assume "unframe c buf = (Inr None, c', buf')"
  then have "codec_decode unframe c buf = (Inr None, c', buf')" by (simp add: codec_decode_def)
  then show "drain unframe c buf = Some ([], None, c', buf')"
    by (subst drain.simps) (simp only: prod.case sum.case option.case)
next
  assume "unframe c buf = (Inr (Some (encode_to e)), c', buf')"
  then have "codec_decode unframe c buf = (Inr (Some e), c', buf')" by (simp add: codec_decode_def)
  then show "drain unframe c buf = Option.bind (drain unframe c' buf') (\<lambda>(es, r). Some (e # es, r))"
    by (subst drain.simps) (simp only: prod.case sum.case option.case)
qed

lemma drain_prefix:
  assumes ld: "length_delimited frame unframe pending"
    and "encode_all frame es [] = Inr wire" "pending c buf @ later = wire"
  shows "\<exists>got rest c' buf'. es = got @ rest \<and> drain unframe c buf = Some (got, None, c', buf')
    \<and> encode_all frame rest [] = Inr (pending c' buf' @ later) \<and> (later = [] \<longrightarrow> rest = [])"
  using assms(2,3)
proof (induction es arbitrary: c buf wire)
  case Nil
  then have "pending c buf = []" by simp
  from length_delimitedD(2) [OF ld this] obtain c' buf' where
    "unframe c buf = (Inr None, c', buf')" "pending c' buf' = []" by blast
  then show ?case using Nil drain_step(1) by fastforce
next
  case (Cons e es)
  obtain w ws where w: "frame (encode_to e) = Inr w" "encode_all frame es [] = Inr ws" "wire = w @ ws"
    using Cons.prems(1) by (rule encode_all_Cons)
  from Cons.prems(2) w(3) obtain r where
    "pending c buf = w @ r \<and> r @ later = ws \<or> w = pending c buf @ r \<and> r @ ws = later"
    by (auto simp: append_eq_append_conv2)
  then consider (whole) "pending c buf = w @ r" "r @ later = ws"
    | (part) "w = pending c buf @ r" "r \<noteq> []" "r @ ws = later"
    by (cases "r = []") auto
  then show ?case
  proof cases
    case whole
    obtain c' buf' where step: "unframe c buf = (Inr (Some (encode_to e)), c', buf')" "pending c' buf' = r"
      using length_delimitedD(3) [OF ld w(1) whole(1)] by blast
    have "pending c' buf' @ later = ws" using step(2) whole(2) by simp
    from Cons.IH [OF w(2) this] obtain got rest c'' buf'' where
      "es = got @ rest" "drain unframe c' buf' = Some (got, None, c'', buf'')"
      "encode_all frame rest [] = Inr (pending c'' buf'' @ later)" "later = [] \<longrightarrow> rest = []" by blast
    then show ?thesis
      using drain_step(2) [where unframe = unframe, OF step(1)]       by (intro exI [of _ "e # got"] exI [of _ rest] exI [of _ c''] exI [of _ buf'']) simp
  next
    case part
    obtain c' buf' where step: "unframe c buf = (Inr None, c', buf')" "pending c' buf' = pending c buf"
      using length_delimitedD(4) [OF ld w(1) part(1,2)] by blast
    have "encode_all frame (e # es) [] = Inr (pending c' buf' @ later)"
      using Cons.prems step(2) by simp
    then show ?thesis
      using drain_step(1) [of unframe, OF step(1)] part(2,3)
      by (intro exI [of _ "[]"] exI [of _ "e # es"] exI [of _ c'] exI [of _ buf']) auto
  qed
qed

lemma receive_all:
  assumes ld: "length_delimited frame unframe pending"
    and "encode_all frame es [] = Inr wire" "pending c buf @ concat chunks = wire" "chunks = [] \<longrightarrow> es = []"
  shows "\<exists>c' buf'. receive unframe c buf chunks = Some (es, None, c', buf') \<and> pending c' buf' = []"
  using assms(2-)
proof (induction chunks arbitrary: c buf es wire)
  case (Cons chunk chunks)
  have "pending c (buf @ chunk) @ concat chunks = wire"
    using Cons.prems(2) length_delimitedD(1) [OF ld] by simp
  from drain_prefix [OF ld Cons.prems(1) this] obtain got rest c' buf' where
    d: "es = got @ rest" "drain unframe c (buf @ chunk) = Some (got, None, c', buf')"
      "encode_all frame rest [] = Inr (pending c' buf' @ concat chunks)" "concat chunks = [] \<longrightarrow> rest = []"
    by blast
  from Cons.IH [OF d(3) refl] d(4) obtain c'' buf'' where
    "receive unframe c' buf' chunks = Some (rest, None, c'', buf'')" "pending c'' buf'' = []"
    by auto
  then show ?case using d(1,2) by simp
qed simp

text \<open>
  C32: However the network splits the bytes of a connection into reads, the receiver's loop ends and has
  the envelopes the sender encoded, all of them, in the order they were sent and unchanged, with
  no byte left over, provided the framing codec keeps what its documentation promises.
\<close>

theorem framed_stream_round_trip:
  assumes "length_delimited frame unframe pending" "pending start [] = []"
    and "encode_all frame es [] = Inr wire" "concat reads = wire" "reads \<noteq> []"
  shows "\<exists>c' buf'. receive unframe start [] reads = Some (es, None, c', buf') \<and> pending c' buf' = []"
  using receive_all [OF assms(1,3)] assms(2,4,5) by simp

section \<open>A codec that keeps the promise\<close>

text \<open>A four-byte big-endian length and a limit of 8 MiB on a frame, decoded without a state.\<close>

definition put_u32 :: "nat \<Rightarrow> bytes" where
  "put_u32 n = [word_of_nat (n div 16777216), word_of_nat (n div 65536), word_of_nat (n div 256), word_of_nat n]"

definition get_u32 :: "bytes \<Rightarrow> nat" where
  "get_u32 bs = fold (\<lambda>b n. 256 * n + unat b) bs 0"

definition max_frame :: nat where "max_frame = 8388608"

definition sample_frame :: "bytes \<Rightarrow> unit + bytes" where
  "sample_frame body = (if max_frame < length body then Inl () else Inr (put_u32 (length body) @ body))"

definition sample_unframe :: "(unit, unit) unframer" where
  "sample_unframe c buf = (if length buf < 4 then (Inr None, c, buf)
     else let n = get_u32 (take 4 buf) in
       if max_frame < n then (Inl (), c, buf)
       else if length buf < 4 + n then (Inr None, c, buf)
       else (Inr (Some (take n (drop 4 buf))), c, drop (4 + n) buf))"

lemma length_put_u32 [simp]: "length (put_u32 n) = 4"
  by (simp add: put_u32_def)

lemma get_put_u32: "n < 2 ^ 32 \<Longrightarrow> get_u32 (put_u32 n) = n"
proof -
  assume "n < 2 ^ 32"
  then have small: "n div 16777216 mod 256 = n div 16777216" by simp
  have "unat (word_of_nat k :: byte) = k mod 256" for k by (simp add: unat_of_nat)
  then have "get_u32 (put_u32 n) = 256 * (256 * (256 * (n div 16777216) + n div 65536 mod 256) + n div 256 mod 256) + n mod 256"
    using small by (simp add: get_u32_def put_u32_def)
  also have "\<dots> = n"
  proof -
    have "n div 65536 = n div 256 div 256" "n div 16777216 = n div 65536 div 256"
      by (simp_all flip: div_mult2_eq)
    then have "256 * (n div 16777216) + n div 65536 mod 256 = n div 65536"
      "256 * (n div 65536) + n div 256 mod 256 = n div 256"
      by (simp_all add: mult_div_mod_eq)
    then show ?thesis by simp
  qed
  finally show ?thesis .
qed

lemma sample_codec: "length_delimited sample_frame sample_unframe (\<lambda>_ buf. buf)"
proof -
  have whole: "sample_unframe c (w @ rest) = (Inr (Some body), c, rest)" if "sample_frame body = Inr w" for body w c rest
    using that get_put_u32 [of "length body"]
    by (auto simp: sample_frame_def sample_unframe_def Let_def max_frame_def split: if_splits)
  moreover have "sample_unframe c p = (Inr None, c, p)"
    if f: "sample_frame body = Inr (p @ missing)" and "missing \<noteq> []" for body p missing c
  proof (cases "length p < 4")
    case False
    have e: "p @ missing = put_u32 (length body) @ body" "length body \<le> max_frame"
      using f by (auto simp: sample_frame_def split: if_splits)
    moreover have "take 4 (p @ missing) = take 4 p" using False by simp
    moreover have "take 4 (put_u32 (length body) @ body) = put_u32 (length body)" by simp
    ultimately have "take 4 p = put_u32 (length body)" by metis
    moreover have "length p < 4 + length body"
      using arg_cong [OF e(1), of length] \<open>missing \<noteq> []\<close> by (cases missing) auto
    ultimately show ?thesis
      using False e(2) get_put_u32 [of "length body"] by (simp add: sample_unframe_def max_frame_def)
  qed (simp add: sample_unframe_def)
  moreover have "sample_unframe c [] = (Inr None, c, [])" for c by (simp add: sample_unframe_def)
  ultimately show ?thesis unfolding length_delimited_def by auto
qed

lemma framed_stream_round_trip_witness:
  "\<exists>c' buf'. receive sample_unframe () [] [[0, 0], [0, 3, 0, 100, 7, 0], [], [0, 0, 2, 3, 232]]
     = Some ([new_envelope 100 [7], new_envelope 1000 []], None, c', buf') \<and> buf' = []"
proof -
  have wire: "encode_all sample_frame [new_envelope 100 [7], new_envelope 1000 []] []
      = Inr [0, 0, 0, 3, 0, 100, 7, 0, 0, 0, 2, 3, 232]"
    by (simp add: codec_encode_def sample_frame_def max_frame_def put_u32_def encode_to_def put_u16_def
        new_envelope_def)
  have split: "concat [[0, 0], [0, 3, 0, 100, 7, 0], [], [0, 0, 2, 3, 232]] = [0, 0, 0, 3, 0, 100, 7, 0, 0, 0, 2, 3, 232 :: byte]"
    "[[0, 0], [0, 3, 0, 100, 7, 0], [], [0, 0, 2, 3, 232 :: byte]] \<noteq> []"
    by simp_all
  show ?thesis
    by (rule framed_stream_round_trip [OF sample_codec refl wire split])
qed

text \<open>
  A datagram carries one envelope: whatever is encoded decodes to itself, anything of two bytes or
  more decodes to the one envelope that encodes to it, and shorter datagrams are refused.
\<close>

theorem datagram_round_trip:
  "decode_datagram (encode_datagram e) = Inr e
   \<and> (decode_datagram d = Inr e \<longleftrightarrow> d = encode_datagram e)
   \<and> (decode_datagram d = Inl (EnvelopeTooShort n) \<longleftrightarrow> length d = n \<and> n < 2)"
proof -
  have "decode_from d = Inl (EnvelopeTooShort n) \<longleftrightarrow> length d = n \<and> n < 2"
    by (auto simp: decode_from_def split: list.splits)
  then show ?thesis
    by (simp add: decode_datagram_def encode_datagram_def decode_from_Inr)
qed

end
