(* ===== verification/Wire.thy ===== *)
theory Wire
  imports Envelope Ids Errors
begin

text \<open>
  What the five protocol modules share. Each wraps prost's generated messages in enums of its own:
  \<^verbatim>\<open>into_envelope\<close> converts a message (\<^verbatim>\<open>From\<close>), encodes it and puts it into an envelope of the
  module's type; \<^verbatim>\<open>from_envelope\<close> checks the type, decodes and converts back (\<^verbatim>\<open>TryFrom\<close>). A
  generated message is its \<^verbatim>\<open>oneof\<close>, \<open>None\<close> when no kind is set. The generated encoder and decoder are
  arguments; a round trip needs that prost decodes what it encoded.

  The locale \<open>wire_protocol\<close> is the contract between the conversions of one module.
\<close>

datatype wire_error =
    WrongMessageType u16 u16
  | PayloadUndecodable
  | NoKindSet
  | InvalidWireId string

definition encode_message :: "u16 \<Rightarrow> ('p \<Rightarrow> bytes) \<Rightarrow> 'p \<Rightarrow> envelope" where
  "encode_message t prost_encode m = new_envelope t (prost_encode m)"

definition decode_message :: "u16 \<Rightarrow> (bytes \<Rightarrow> 'p option) \<Rightarrow> envelope \<Rightarrow> wire_error + 'p" where
  "decode_message t prost_decode e =
     (if message_type e \<noteq> t then Inl (WrongMessageType t (message_type e))
      else ok_or_else (prost_decode (payload e)) PayloadUndecodable)"

definition into_envelope :: "u16 \<Rightarrow> ('m \<Rightarrow> 'p) \<Rightarrow> ('p \<Rightarrow> bytes) \<Rightarrow> 'm \<Rightarrow> envelope" where
  "into_envelope t to_proto prost_encode m = encode_message t prost_encode (to_proto m)"

definition from_envelope ::
  "u16 \<Rightarrow> ('p \<Rightarrow> wire_error + 'm) \<Rightarrow> (bytes \<Rightarrow> 'p option) \<Rightarrow> envelope \<Rightarrow> wire_error + 'm" where
  "from_envelope t from_proto prost_decode e = try_then (decode_message t prost_decode e) from_proto"

lemma into_envelope_type [simp]: "message_type (into_envelope t f enc m) = t"
  by (simp add: into_envelope_def encode_message_def new_envelope_def)

lemma from_envelope_type: "from_envelope t f dec e = Inr m \<Longrightarrow> message_type e = t"
  by (auto simp: from_envelope_def decode_message_def split: if_splits)

text \<open>
  \<open>sound m\<close> are the messages whose ids survive being printed and parsed: every message of a module
  that sends ids as plain strings.
\<close>

locale wire_protocol =
  fixes tag :: u16
    and sound :: "'m \<Rightarrow> bool"
    and to_proto :: "'m \<Rightarrow> 'k option"
    and from_proto :: "'k option \<Rightarrow> wire_error + 'm"
  assumes from_to: "sound m \<Longrightarrow> from_proto (to_proto m) = Inr m"
    and from_none: "from_proto None = Inl NoKindSet"
begin

lemma round_trip:
  assumes "sound m" "dec (enc (to_proto m)) = Some (to_proto m)"
  shows "from_envelope tag from_proto dec (into_envelope tag to_proto enc m) = Inr m"
  using assms by (simp add: from_envelope_def into_envelope_def encode_message_def decode_message_def
      new_envelope_def from_to)

lemma refuses:
  "message_type e \<noteq> tag \<Longrightarrow> from_envelope tag from_proto dec e = Inl (WrongMessageType tag (message_type e))"
  "message_type e = tag \<Longrightarrow> dec (payload e) = None \<Longrightarrow> from_envelope tag from_proto dec e = Inl PayloadUndecodable"
  "message_type e = tag \<Longrightarrow> dec (payload e) = Some None \<Longrightarrow> from_envelope tag from_proto dec e = Inl NoKindSet"
  by (simp_all add: from_envelope_def decode_message_def from_none ok_or_else_def)

text \<open>Two sound messages with the same bytes are the same message.\<close>

lemma no_collision:
  assumes "sound m" "sound m'" "\<And>p. dec (enc p) = Some p"
    and "into_envelope tag to_proto enc m = into_envelope tag to_proto enc m'"
  shows "m = m'"
proof -
  have "Inr m = from_envelope tag from_proto dec (into_envelope tag to_proto enc m)"
    by (rule round_trip [where dec = dec and enc = enc, OF assms(1) assms(3), symmetric])
  also have "\<dots> = Inr m'" unfolding assms(4) by (rule round_trip [where dec = dec and enc = enc, OF assms(2) assms(3)])
  finally show "m = m'" by simp
qed

end

end
