(* ===== verification/Protocols.thy ===== *)
theory Protocols
  imports Wire ChatSession
begin

text \<open>
  The protocols of the handshake and of chat: \<^verbatim>\<open>auth/src/gateway_protocol.rs\<close> (type 1),
  \<^verbatim>\<open>server/src/realm_protocol.rs\<close> (2), \<^verbatim>\<open>server/src/character_protocol.rs\<close> (3) and
  \<^verbatim>\<open>chat/src/gateway_protocol.rs\<close> (100), with the generated messages of their \<^verbatim>\<open>.proto\<close> files as
  the datatypes \<open>..._kind\<close>. How an id is printed and parsed (the uuid crate) is an argument.
\<close>

section \<open>Authentication\<close>

definition auth_message_type :: u16 where "auth_message_type = 1"

datatype auth_client_message = Register string string | Login string string | Resume string

datatype auth_client_kind = K_Register string string | K_Login string string | K_Resume string

datatype auth_server_message =
    Authenticated account_id string string "string list"
  | Auth_Error string

datatype auth_server_kind =
    K_Authenticated string string string "string list"
  | K_Auth_Error string

definition auth_client_to_proto :: "auth_client_message \<Rightarrow> auth_client_kind option" where
  "auth_client_to_proto m = Some (case m of
     Register username password \<Rightarrow> K_Register username password
   | Login username password \<Rightarrow> K_Login username password
   | Resume session_token \<Rightarrow> K_Resume session_token)"

definition auth_client_from_proto :: "auth_client_kind option \<Rightarrow> wire_error + auth_client_message" where
  "auth_client_from_proto p = (case p of
     Some (K_Register username password) \<Rightarrow> Inr (Register username password)
   | Some (K_Login username password) \<Rightarrow> Inr (Login username password)
   | Some (K_Resume session_token) \<Rightarrow> Inr (Resume session_token)
   | None \<Rightarrow> Inl NoKindSet)"

definition auth_server_to_proto ::
  "(account_id \<Rightarrow> string) \<Rightarrow> auth_server_message \<Rightarrow> auth_server_kind option" where
  "auth_server_to_proto show_id m = Some (case m of
     Authenticated account username token roles \<Rightarrow> K_Authenticated (show_id account) username token roles
   | Auth_Error message \<Rightarrow> K_Auth_Error message)"

definition auth_server_from_proto ::
  "(string \<Rightarrow> account_id option) \<Rightarrow> auth_server_kind option \<Rightarrow> wire_error + auth_server_message" where
  "auth_server_from_proto parse_id p = (case p of
     Some (K_Authenticated account username token roles) \<Rightarrow>
       try_then (ok_or_else (parse_id account) (InvalidWireId account)) (\<lambda>a.
       Inr (Authenticated a username token roles))
   | Some (K_Auth_Error message) \<Rightarrow> Inr (Auth_Error message)
   | None \<Rightarrow> Inl NoKindSet)"

primrec auth_ids_sound :: "(account_id \<Rightarrow> string) \<Rightarrow> (string \<Rightarrow> account_id option) \<Rightarrow> auth_server_message \<Rightarrow> bool" where
  "auth_ids_sound show_id parse_id (Authenticated a u t r) \<longleftrightarrow> parse_id (show_id a) = Some a"
| "auth_ids_sound show_id parse_id (Auth_Error e) \<longleftrightarrow> True"

interpretation auth_client: wire_protocol auth_message_type "\<lambda>_. True" auth_client_to_proto auth_client_from_proto
  by unfold_locales
    (simp_all add: auth_client_to_proto_def auth_client_from_proto_def split: auth_client_message.split)

interpretation auth_server: wire_protocol auth_message_type "auth_ids_sound show_id parse_id"
    "auth_server_to_proto show_id" "auth_server_from_proto parse_id" for show_id parse_id
  by unfold_locales
    (auto simp: auth_server_to_proto_def auth_server_from_proto_def split: auth_server_message.split)

section \<open>Realms\<close>

definition realm_message_type :: u16 where "realm_message_type = 2"

datatype realm_client_message = ListRealms | SelectRealm string

datatype realm_client_kind = K_ListRealms | K_SelectRealm string

record realm_summary =
  rs_realm_id :: string
  rs_name :: string
  rs_open_or_bound :: string
  rs_character_count :: i64
  rs_live_connection_count :: nat
  rs_selectable_character_count :: i64

record proto_realm_summary =
  prs_realm_id :: string
  prs_name :: string
  prs_open_or_bound :: string
  prs_character_count :: i64
  prs_live_connection_count :: nat
  prs_selectable_character_count :: i64

definition realm_summary_to_proto :: "realm_summary \<Rightarrow> proto_realm_summary" where
  "realm_summary_to_proto s = \<lparr>prs_realm_id = rs_realm_id s, prs_name = rs_name s,
     prs_open_or_bound = rs_open_or_bound s, prs_character_count = rs_character_count s,
     prs_live_connection_count = rs_live_connection_count s,
     prs_selectable_character_count = rs_selectable_character_count s\<rparr>"

definition realm_summary_from_proto :: "proto_realm_summary \<Rightarrow> realm_summary" where
  "realm_summary_from_proto s = \<lparr>rs_realm_id = prs_realm_id s, rs_name = prs_name s,
     rs_open_or_bound = prs_open_or_bound s, rs_character_count = prs_character_count s,
     rs_live_connection_count = prs_live_connection_count s,
     rs_selectable_character_count = prs_selectable_character_count s\<rparr>"

datatype realm_server_message =
    RealmList "realm_summary list"
  | RealmSelected string
  | Realm_Error string

datatype realm_server_kind =
    K_RealmList "proto_realm_summary list"
  | K_RealmSelected string
  | K_Realm_Error string

definition realm_client_to_proto :: "realm_client_message \<Rightarrow> realm_client_kind option" where
  "realm_client_to_proto m = Some (case m of
     ListRealms \<Rightarrow> K_ListRealms
   | SelectRealm realm_id \<Rightarrow> K_SelectRealm realm_id)"

definition realm_client_from_proto :: "realm_client_kind option \<Rightarrow> wire_error + realm_client_message" where
  "realm_client_from_proto p = (case p of
     Some K_ListRealms \<Rightarrow> Inr ListRealms
   | Some (K_SelectRealm realm_id) \<Rightarrow> Inr (SelectRealm realm_id)
   | None \<Rightarrow> Inl NoKindSet)"

definition realm_server_to_proto :: "realm_server_message \<Rightarrow> realm_server_kind option" where
  "realm_server_to_proto m = Some (case m of
     RealmList realms \<Rightarrow> K_RealmList (map realm_summary_to_proto realms)
   | RealmSelected realm_id \<Rightarrow> K_RealmSelected realm_id
   | Realm_Error message \<Rightarrow> K_Realm_Error message)"

definition realm_server_from_proto :: "realm_server_kind option \<Rightarrow> wire_error + realm_server_message" where
  "realm_server_from_proto p = (case p of
     Some (K_RealmList realms) \<Rightarrow> Inr (RealmList (map realm_summary_from_proto realms))
   | Some (K_RealmSelected realm_id) \<Rightarrow> Inr (RealmSelected realm_id)
   | Some (K_Realm_Error message) \<Rightarrow> Inr (Realm_Error message)
   | None \<Rightarrow> Inl NoKindSet)"

datatype selection_error = NotARealmId string | ServesOnly realm_id

definition validate_selection ::
  "(string \<Rightarrow> realm_id option) \<Rightarrow> string \<Rightarrow> realm_id \<Rightarrow> selection_error + realm_id" where
  "validate_selection parse_id realm_id serving =
     try_then (ok_or_else (parse_id realm_id) (NotARealmId realm_id)) (\<lambda>selected.
     if selected \<noteq> serving then Inl (ServesOnly serving) else Inr selected)"

lemma realm_summary_inverse [simp]:
  "realm_summary_from_proto (realm_summary_to_proto s) = s"
  "realm_summary_from_proto \<circ> realm_summary_to_proto = id"
  by (simp_all add: realm_summary_from_proto_def realm_summary_to_proto_def fun_eq_iff)

interpretation realm_client: wire_protocol realm_message_type "\<lambda>_. True" realm_client_to_proto realm_client_from_proto
  by unfold_locales
    (simp_all add: realm_client_to_proto_def realm_client_from_proto_def split: realm_client_message.split)

interpretation realm_server: wire_protocol realm_message_type "\<lambda>_. True" realm_server_to_proto realm_server_from_proto
  by unfold_locales
    (simp_all add: realm_server_to_proto_def realm_server_from_proto_def split: realm_server_message.split)

section \<open>Characters\<close>

definition character_message_type :: u16 where "character_message_type = 3"

datatype character_client_message =
    ListCharacters
  | CreateCharacter string string
  | SelectCharacter string
  | ListCharacterOptions
  | RequestTransfer string string
  | DeleteCharacter string

datatype character_client_kind =
    K_ListCharacters
  | K_CreateCharacter string string
  | K_SelectCharacter string
  | K_ListCharacterOptions
  | K_RequestTransfer string string
  | K_DeleteCharacter string

record character_summary =
  cs_character_id :: string
  cs_name :: string
  cs_zone_id :: string

record proto_character_summary =
  pcs_character_id :: string
  pcs_name :: string
  pcs_zone_id :: string

record archetype_option =
  ao_key :: string
  ao_name :: string
  ao_description :: string

record proto_archetype_option =
  pao_key :: string
  pao_name :: string
  pao_description :: string

definition character_summary_to_proto :: "character_summary \<Rightarrow> proto_character_summary" where
  "character_summary_to_proto s = \<lparr>pcs_character_id = cs_character_id s, pcs_name = cs_name s,
     pcs_zone_id = cs_zone_id s\<rparr>"

definition character_summary_from_proto :: "proto_character_summary \<Rightarrow> character_summary" where
  "character_summary_from_proto s = \<lparr>cs_character_id = pcs_character_id s, cs_name = pcs_name s,
     cs_zone_id = pcs_zone_id s\<rparr>"

definition archetype_option_to_proto :: "archetype_option \<Rightarrow> proto_archetype_option" where
  "archetype_option_to_proto s = \<lparr>pao_key = ao_key s, pao_name = ao_name s, pao_description = ao_description s\<rparr>"

definition archetype_option_from_proto :: "proto_archetype_option \<Rightarrow> archetype_option" where
  "archetype_option_from_proto s = \<lparr>ao_key = pao_key s, ao_name = pao_name s, ao_description = pao_description s\<rparr>"

datatype character_server_message =
    CharacterList "character_summary list"
  | CharacterCreated string
  | CharacterSelected string
  | Character_Error string
  | CharacterOptions "archetype_option list"
  | TransferComplete string string
  | CharacterDeleted string

datatype character_server_kind =
    K_CharacterList "proto_character_summary list"
  | K_CharacterCreated string
  | K_CharacterSelected string
  | K_Character_Error string
  | K_CharacterOptions "proto_archetype_option list"
  | K_TransferComplete string string
  | K_CharacterDeleted string

definition character_client_to_proto :: "character_client_message \<Rightarrow> character_client_kind option" where
  "character_client_to_proto m = Some (case m of
     ListCharacters \<Rightarrow> K_ListCharacters
   | CreateCharacter name archetype_key \<Rightarrow> K_CreateCharacter name archetype_key
   | SelectCharacter character_id \<Rightarrow> K_SelectCharacter character_id
   | ListCharacterOptions \<Rightarrow> K_ListCharacterOptions
   | RequestTransfer character_id destination_realm_id \<Rightarrow> K_RequestTransfer character_id destination_realm_id
   | DeleteCharacter character_id \<Rightarrow> K_DeleteCharacter character_id)"

definition character_client_from_proto ::
  "character_client_kind option \<Rightarrow> wire_error + character_client_message" where
  "character_client_from_proto p = (case p of
     Some K_ListCharacters \<Rightarrow> Inr ListCharacters
   | Some (K_CreateCharacter name archetype_key) \<Rightarrow> Inr (CreateCharacter name archetype_key)
   | Some (K_SelectCharacter character_id) \<Rightarrow> Inr (SelectCharacter character_id)
   | Some K_ListCharacterOptions \<Rightarrow> Inr ListCharacterOptions
   | Some (K_RequestTransfer character_id destination_realm_id) \<Rightarrow>
       Inr (RequestTransfer character_id destination_realm_id)
   | Some (K_DeleteCharacter character_id) \<Rightarrow> Inr (DeleteCharacter character_id)
   | None \<Rightarrow> Inl NoKindSet)"

definition character_server_to_proto :: "character_server_message \<Rightarrow> character_server_kind option" where
  "character_server_to_proto m = Some (case m of
     CharacterList characters \<Rightarrow> K_CharacterList (map character_summary_to_proto characters)
   | CharacterCreated character_id \<Rightarrow> K_CharacterCreated character_id
   | CharacterSelected character_id \<Rightarrow> K_CharacterSelected character_id
   | Character_Error message \<Rightarrow> K_Character_Error message
   | CharacterOptions archetypes \<Rightarrow> K_CharacterOptions (map archetype_option_to_proto archetypes)
   | TransferComplete character_id realm_id \<Rightarrow> K_TransferComplete character_id realm_id
   | CharacterDeleted character_id \<Rightarrow> K_CharacterDeleted character_id)"

definition character_server_from_proto ::
  "character_server_kind option \<Rightarrow> wire_error + character_server_message" where
  "character_server_from_proto p = (case p of
     Some (K_CharacterList characters) \<Rightarrow> Inr (CharacterList (map character_summary_from_proto characters))
   | Some (K_CharacterCreated character_id) \<Rightarrow> Inr (CharacterCreated character_id)
   | Some (K_CharacterSelected character_id) \<Rightarrow> Inr (CharacterSelected character_id)
   | Some (K_Character_Error message) \<Rightarrow> Inr (Character_Error message)
   | Some (K_CharacterOptions archetypes) \<Rightarrow> Inr (CharacterOptions (map archetype_option_from_proto archetypes))
   | Some (K_TransferComplete character_id realm_id) \<Rightarrow> Inr (TransferComplete character_id realm_id)
   | Some (K_CharacterDeleted character_id) \<Rightarrow> Inr (CharacterDeleted character_id)
   | None \<Rightarrow> Inl NoKindSet)"

lemma character_lists_inverse [simp]:
  "character_summary_from_proto \<circ> character_summary_to_proto = id"
  "archetype_option_from_proto \<circ> archetype_option_to_proto = id"
  by (simp_all add: character_summary_from_proto_def character_summary_to_proto_def
      archetype_option_from_proto_def archetype_option_to_proto_def fun_eq_iff)

interpretation character_client:
  wire_protocol character_message_type "\<lambda>_. True" character_client_to_proto character_client_from_proto
  by unfold_locales (simp_all add: character_client_to_proto_def character_client_from_proto_def
      split: character_client_message.split)

interpretation character_server:
  wire_protocol character_message_type "\<lambda>_. True" character_server_to_proto character_server_from_proto
  by unfold_locales (simp_all add: character_server_to_proto_def character_server_from_proto_def
      split: character_server_message.split)

section \<open>Chat\<close>

text \<open>The client's messages are the requests \<open>handle_chat\<close> serves.\<close>

definition chat_message_type :: u16 where "chat_message_type = 100"

datatype chat_client_kind = K_Join string | K_Leave string | K_Send string string

datatype chat_server_message =
    Chat_Joined channel_id string
  | Chat_Left string
  | Chat_Line channel_id string string string
  | Chat_Error string

datatype chat_server_kind =
    K_Chat_Joined string string
  | K_Chat_Left string
  | K_Chat_Line string string string string
  | K_Chat_Error string

definition chat_client_to_proto :: "(channel_id \<Rightarrow> string) \<Rightarrow> chat_request \<Rightarrow> chat_client_kind option" where
  "chat_client_to_proto show_id m = Some (case m of
     JoinChannel channel \<Rightarrow> K_Join channel
   | LeaveChannel channel \<Rightarrow> K_Leave channel
   | SendLine channel_id body \<Rightarrow> K_Send (show_id channel_id) body)"

definition chat_client_from_proto ::
  "(string \<Rightarrow> channel_id option) \<Rightarrow> chat_client_kind option \<Rightarrow> wire_error + chat_request" where
  "chat_client_from_proto parse_id p = (case p of
     Some (K_Join channel) \<Rightarrow> Inr (JoinChannel channel)
   | Some (K_Leave channel) \<Rightarrow> Inr (LeaveChannel channel)
   | Some (K_Send channel_id body) \<Rightarrow>
       try_then (ok_or_else (parse_id channel_id) (InvalidWireId channel_id)) (\<lambda>c. Inr (SendLine c body))
   | None \<Rightarrow> Inl NoKindSet)"

definition peek_send_body :: "(bytes \<Rightarrow> chat_client_kind option option) \<Rightarrow> envelope \<Rightarrow> wire_error + string option" where
  "peek_send_body prost_decode e =
     try_then (decode_message chat_message_type prost_decode e) (\<lambda>decoded. Inr (case decoded of
       Some (K_Send _ body) \<Rightarrow> Some body
     | _ \<Rightarrow> None))"

definition chat_server_to_proto :: "(channel_id \<Rightarrow> string) \<Rightarrow> chat_server_message \<Rightarrow> chat_server_kind option" where
  "chat_server_to_proto show_id m = Some (case m of
     Chat_Joined channel_id channel \<Rightarrow> K_Chat_Joined (show_id channel_id) channel
   | Chat_Left channel \<Rightarrow> K_Chat_Left channel
   | Chat_Line channel_id channel sender body \<Rightarrow> K_Chat_Line (show_id channel_id) channel sender body
   | Chat_Error message \<Rightarrow> K_Chat_Error message)"

definition chat_server_from_proto ::
  "(string \<Rightarrow> channel_id option) \<Rightarrow> chat_server_kind option \<Rightarrow> wire_error + chat_server_message" where
  "chat_server_from_proto parse_id p = (case p of
     Some (K_Chat_Joined channel_id channel) \<Rightarrow>
       try_then (ok_or_else (parse_id channel_id) (InvalidWireId channel_id)) (\<lambda>c. Inr (Chat_Joined c channel))
   | Some (K_Chat_Left channel) \<Rightarrow> Inr (Chat_Left channel)
   | Some (K_Chat_Line channel_id channel sender body) \<Rightarrow>
       try_then (ok_or_else (parse_id channel_id) (InvalidWireId channel_id)) (\<lambda>c.
       Inr (Chat_Line c channel sender body))
   | Some (K_Chat_Error message) \<Rightarrow> Inr (Chat_Error message)
   | None \<Rightarrow> Inl NoKindSet)"

primrec chat_request_sound :: "(channel_id \<Rightarrow> string) \<Rightarrow> (string \<Rightarrow> channel_id option) \<Rightarrow> chat_request \<Rightarrow> bool" where
  "chat_request_sound show_id parse_id (JoinChannel n) \<longleftrightarrow> True"
| "chat_request_sound show_id parse_id (LeaveChannel n) \<longleftrightarrow> True"
| "chat_request_sound show_id parse_id (SendLine c b) \<longleftrightarrow> parse_id (show_id c) = Some c"

primrec chat_reply_sound :: "(channel_id \<Rightarrow> string) \<Rightarrow> (string \<Rightarrow> channel_id option) \<Rightarrow> chat_server_message \<Rightarrow> bool" where
  "chat_reply_sound show_id parse_id (Chat_Joined c n) \<longleftrightarrow> parse_id (show_id c) = Some c"
| "chat_reply_sound show_id parse_id (Chat_Left n) \<longleftrightarrow> True"
| "chat_reply_sound show_id parse_id (Chat_Line c n u b) \<longleftrightarrow> parse_id (show_id c) = Some c"
| "chat_reply_sound show_id parse_id (Chat_Error e) \<longleftrightarrow> True"

interpretation chat_client: wire_protocol chat_message_type "chat_request_sound show_id parse_id"
    "chat_client_to_proto show_id" "chat_client_from_proto parse_id" for show_id parse_id
  by unfold_locales
    (auto simp: chat_client_to_proto_def chat_client_from_proto_def ok_or_else_def split: chat_request.split)

interpretation chat_server: wire_protocol chat_message_type "chat_reply_sound show_id parse_id"
    "chat_server_to_proto show_id" "chat_server_from_proto parse_id" for show_id parse_id
  by unfold_locales
    (auto simp: chat_server_to_proto_def chat_server_from_proto_def ok_or_else_def split: chat_server_message.split)

text \<open>Peeking sees the line of every message that decodes to a line, and of those with a bad id.\<close>

lemma peek_agrees:
  assumes "from_envelope chat_message_type (chat_client_from_proto parse_id) dec e = Inr (SendLine c body)"
  shows "peek_send_body dec e = Inr (Some body)"
proof -
  from assms obtain p where p: "decode_message chat_message_type dec e = Inr p"
    "chat_client_from_proto parse_id p = Inr (SendLine c body)"
    by (auto simp: from_envelope_def)
  then obtain i where "p = Some (K_Send i body)"
    by (auto simp: chat_client_from_proto_def split: option.splits chat_client_kind.splits)
  then show ?thesis using p(1) by (simp add: peek_send_body_def try_then_def)
qed

end
