(* ===== verification/WorldProtocol.thy ===== *)
theory WorldProtocol
  imports Wire F64
begin

text \<open>
  \<^verbatim>\<open>crates/server/src/session_protocol.rs\<close>: the messages of the world session (type 200). The enums of the
  module are \<open>client_message\<close> and \<open>server_message\<close> (\<open>C_\<close>, \<open>S_\<close>); the generated kinds, with the fields
  in the order \<^verbatim>\<open>proto/session.proto\<close> numbers them, are \<open>client_kind\<close> and \<open>server_kind\<close> (\<open>CK_\<close>, \<open>SK_\<close>).
\<close>

type_synonym u64 = nat

definition world_message_type :: u16 where "world_message_type = 200"

section \<open>Client messages\<close>

datatype client_message =
    C_Move f64 f64 f64 u32
  | C_Ping i64
  | C_Attack string string
  | C_UseItem string
  | C_InteractNpc string
  | C_JoinGroupLayer string
  | C_PartyInvite string string
  | C_PartyInviteResponse bool
  | C_PartyLeave
  | C_GuildCreate string
  | C_GuildInvite string
  | C_GuildInviteResponse bool
  | C_GuildLeave
  | C_GuildDisband
  | C_GuildKick string
  | C_GuildPromote string string
  | C_GuildDemote string string
  | C_GuildSetMotd string
  | C_GuildSetTag string
  | C_CraftItem string
  | C_DropItem string i64
  | C_MoveItemToSlot string i32
  | C_EquipItem string
  | C_UnequipItem string
  | C_TradeRequest string
  | C_TradeRequestResponse bool
  | C_TradeOfferItem string i64
  | C_TradeOfferCurrency string i64
  | C_TradeConfirm
  | C_TradeCancel
  | C_BindUdp string

datatype client_kind =
    CK_Move f64 f64 u32 f64
  | CK_Attack string string
  | CK_UseItem string
  | CK_InteractNpc string
  | CK_Ping i64
  | CK_JoinGroupLayer string
  | CK_PartyInvite string string
  | CK_PartyInviteResponse bool
  | CK_PartyLeave
  | CK_GuildCreate string
  | CK_GuildInvite string
  | CK_GuildInviteResponse bool
  | CK_GuildLeave
  | CK_GuildDisband
  | CK_GuildKick string
  | CK_GuildPromote string string
  | CK_GuildDemote string string
  | CK_GuildSetMotd string
  | CK_GuildSetTag string
  | CK_CraftItem string
  | CK_DropItem string i64
  | CK_MoveItemToSlot string i32
  | CK_EquipItem string
  | CK_UnequipItem string
  | CK_TradeRequest string
  | CK_TradeRequestResponse bool
  | CK_TradeOfferItem string i64
  | CK_TradeOfferCurrency string i64
  | CK_TradeConfirm
  | CK_TradeCancel
  | CK_BindUdp string

fun client_kind_of :: "client_message \<Rightarrow> client_kind" where
  "client_kind_of (C_Move x y z seq) = CK_Move x y seq z"
| "client_kind_of (C_Ping client_sent_at) = CK_Ping client_sent_at"
| "client_kind_of (C_Attack target_entity_id stat_key) = CK_Attack target_entity_id stat_key"
| "client_kind_of (C_UseItem item_type) = CK_UseItem item_type"
| "client_kind_of (C_InteractNpc npc_entity_id) = CK_InteractNpc npc_entity_id"
| "client_kind_of (C_JoinGroupLayer other_entity_id) = CK_JoinGroupLayer other_entity_id"
| "client_kind_of (C_PartyInvite target_entity_id party_type) =
     CK_PartyInvite target_entity_id party_type"
| "client_kind_of (C_PartyInviteResponse accept) = CK_PartyInviteResponse accept"
| "client_kind_of C_PartyLeave = CK_PartyLeave"
| "client_kind_of (C_GuildCreate name) = CK_GuildCreate name"
| "client_kind_of (C_GuildInvite target_entity_id) = CK_GuildInvite target_entity_id"
| "client_kind_of (C_GuildInviteResponse accept) = CK_GuildInviteResponse accept"
| "client_kind_of C_GuildLeave = CK_GuildLeave"
| "client_kind_of C_GuildDisband = CK_GuildDisband"
| "client_kind_of (C_GuildKick target_entity_id) = CK_GuildKick target_entity_id"
| "client_kind_of (C_GuildPromote target_entity_id rank_key) =
     CK_GuildPromote target_entity_id rank_key"
| "client_kind_of (C_GuildDemote target_entity_id rank_key) =
     CK_GuildDemote target_entity_id rank_key"
| "client_kind_of (C_GuildSetMotd motd) = CK_GuildSetMotd motd"
| "client_kind_of (C_GuildSetTag tag) = CK_GuildSetTag tag"
| "client_kind_of (C_CraftItem recipe_key) = CK_CraftItem recipe_key"
| "client_kind_of (C_DropItem item_type quantity) = CK_DropItem item_type quantity"
| "client_kind_of (C_MoveItemToSlot item_type slot_index) =
     CK_MoveItemToSlot item_type slot_index"
| "client_kind_of (C_EquipItem item_type) = CK_EquipItem item_type"
| "client_kind_of (C_UnequipItem slot) = CK_UnequipItem slot"
| "client_kind_of (C_TradeRequest target_entity_id) = CK_TradeRequest target_entity_id"
| "client_kind_of (C_TradeRequestResponse accept) = CK_TradeRequestResponse accept"
| "client_kind_of (C_TradeOfferItem item_type quantity) =
     CK_TradeOfferItem item_type quantity"
| "client_kind_of (C_TradeOfferCurrency currency_key amount) =
     CK_TradeOfferCurrency currency_key amount"
| "client_kind_of C_TradeConfirm = CK_TradeConfirm"
| "client_kind_of C_TradeCancel = CK_TradeCancel"
| "client_kind_of (C_BindUdp session_token) = CK_BindUdp session_token"

fun client_of_kind :: "client_kind \<Rightarrow> client_message" where
  "client_of_kind (CK_Move x y seq z) = C_Move x y z seq"
| "client_of_kind (CK_Ping client_sent_at) = C_Ping client_sent_at"
| "client_of_kind (CK_Attack target_entity_id stat_key) = C_Attack target_entity_id stat_key"
| "client_of_kind (CK_UseItem item_type) = C_UseItem item_type"
| "client_of_kind (CK_InteractNpc npc_entity_id) = C_InteractNpc npc_entity_id"
| "client_of_kind (CK_JoinGroupLayer other_entity_id) = C_JoinGroupLayer other_entity_id"
| "client_of_kind (CK_PartyInvite target_entity_id party_type) =
     C_PartyInvite target_entity_id party_type"
| "client_of_kind (CK_PartyInviteResponse accept) = C_PartyInviteResponse accept"
| "client_of_kind CK_PartyLeave = C_PartyLeave"
| "client_of_kind (CK_GuildCreate name) = C_GuildCreate name"
| "client_of_kind (CK_GuildInvite target_entity_id) = C_GuildInvite target_entity_id"
| "client_of_kind (CK_GuildInviteResponse accept) = C_GuildInviteResponse accept"
| "client_of_kind CK_GuildLeave = C_GuildLeave"
| "client_of_kind CK_GuildDisband = C_GuildDisband"
| "client_of_kind (CK_GuildKick target_entity_id) = C_GuildKick target_entity_id"
| "client_of_kind (CK_GuildPromote target_entity_id rank_key) =
     C_GuildPromote target_entity_id rank_key"
| "client_of_kind (CK_GuildDemote target_entity_id rank_key) =
     C_GuildDemote target_entity_id rank_key"
| "client_of_kind (CK_GuildSetMotd motd) = C_GuildSetMotd motd"
| "client_of_kind (CK_GuildSetTag tag) = C_GuildSetTag tag"
| "client_of_kind (CK_CraftItem recipe_key) = C_CraftItem recipe_key"
| "client_of_kind (CK_DropItem item_type quantity) = C_DropItem item_type quantity"
| "client_of_kind (CK_MoveItemToSlot item_type slot_index) =
     C_MoveItemToSlot item_type slot_index"
| "client_of_kind (CK_EquipItem item_type) = C_EquipItem item_type"
| "client_of_kind (CK_UnequipItem slot) = C_UnequipItem slot"
| "client_of_kind (CK_TradeRequest target_entity_id) = C_TradeRequest target_entity_id"
| "client_of_kind (CK_TradeRequestResponse accept) = C_TradeRequestResponse accept"
| "client_of_kind (CK_TradeOfferItem item_type quantity) =
     C_TradeOfferItem item_type quantity"
| "client_of_kind (CK_TradeOfferCurrency currency_key amount) =
     C_TradeOfferCurrency currency_key amount"
| "client_of_kind CK_TradeConfirm = C_TradeConfirm"
| "client_of_kind CK_TradeCancel = C_TradeCancel"
| "client_of_kind (CK_BindUdp session_token) = C_BindUdp session_token"

definition client_to_proto :: "client_message \<Rightarrow> client_kind option" where
  "client_to_proto m = Some (client_kind_of m)"

definition client_from_proto :: "client_kind option \<Rightarrow> wire_error + client_message" where
  "client_from_proto p = (case p of Some kind \<Rightarrow> Inr (client_of_kind kind) | None \<Rightarrow> Inl NoKindSet)"

lemma client_kind_inverse [simp]:
  "client_of_kind (client_kind_of m) = m"
  "client_kind_of (client_of_kind k) = k"
  by (cases m; simp) (cases k; simp)

interpretation world_client: wire_protocol world_message_type "\<lambda>_. True" client_to_proto client_from_proto
  by unfold_locales (simp_all add: client_to_proto_def client_from_proto_def)

section \<open>Server messages\<close>

record roster_entry =
  re_entity_id :: string
  re_entity_type :: string
  re_x :: f64
  re_y :: f64
  re_z :: f64

record proto_roster_entry =
  pre_entity_id :: string
  pre_entity_type :: string
  pre_x :: f64
  pre_y :: f64
  pre_z :: f64

definition roster_to_proto :: "roster_entry \<Rightarrow> proto_roster_entry" where
  "roster_to_proto e = \<lparr>pre_entity_id = re_entity_id e, pre_entity_type = re_entity_type e,
     pre_x = re_x e, pre_y = re_y e, pre_z = re_z e\<rparr>"

definition roster_from_proto :: "proto_roster_entry \<Rightarrow> roster_entry" where
  "roster_from_proto e = \<lparr>re_entity_id = pre_entity_id e, re_entity_type = pre_entity_type e,
     re_x = pre_x e, re_y = pre_y e, re_z = pre_z e\<rparr>"

record guild_member_entry =
  gme_entity_id :: string
  gme_rank_key :: string

record proto_guild_member =
  pgm_entity_id :: string
  pgm_rank_key :: string

definition guild_member_to_proto :: "guild_member_entry \<Rightarrow> proto_guild_member" where
  "guild_member_to_proto e = \<lparr>pgm_entity_id = gme_entity_id e, pgm_rank_key = gme_rank_key e\<rparr>"

definition guild_member_from_proto :: "proto_guild_member \<Rightarrow> guild_member_entry" where
  "guild_member_from_proto e = \<lparr>gme_entity_id = pgm_entity_id e, gme_rank_key = pgm_rank_key e\<rparr>"

record proto_trade_item_offer =
  pto_item_type :: string
  pto_quantity :: i64

record proto_trade_currency_offer =
  pto_currency_key :: string
  pto_amount :: i64

definition trade_item_offers :: "(string \<times> i64) list \<Rightarrow> proto_trade_item_offer list" where
  "trade_item_offers items =
     map (\<lambda>(item_type, quantity). \<lparr>pto_item_type = item_type, pto_quantity = quantity\<rparr>) items"

definition trade_currency_offers :: "(string \<times> i64) list \<Rightarrow> proto_trade_currency_offer list" where
  "trade_currency_offers currency =
     map (\<lambda>(currency_key, amount). \<lparr>pto_currency_key = currency_key, pto_amount = amount\<rparr>) currency"

definition from_trade_item_offers :: "proto_trade_item_offer list \<Rightarrow> (string \<times> i64) list" where
  "from_trade_item_offers items = map (\<lambda>offer. (pto_item_type offer, pto_quantity offer)) items"

definition from_trade_currency_offers :: "proto_trade_currency_offer list \<Rightarrow> (string \<times> i64) list" where
  "from_trade_currency_offers currency = map (\<lambda>offer. (pto_currency_key offer, pto_amount offer)) currency"

datatype server_message =
    S_Joined string f64 f64 f64 "roster_entry list" u64 string
  | S_EntitySpawned string string f64 f64 f64
  | S_EntityDespawned string
  | S_ZoneChanged string string f64 f64 f64 "roster_entry list" u64
  | S_Moved string f64 f64 f64 u32 u64
  | S_Rejected string u32 u64
  | S_Error string
  | S_PluginMessage string
  | S_Pong i64 i64
  | S_PartyInviteReceived string
  | S_PartyInviteDeclined string
  | S_PartyUpdate "string list"
  | S_GuildInviteReceived string
  | S_GuildInviteDeclined string
  | S_GuildUpdate string string string string "guild_member_entry list"
  | S_GuildDisbanded
  | S_StatChanged string i64
  | S_ItemChanged string i64
  | S_CurrencyChanged string i64
  | S_ItemMoved string "i32 option"
  | S_EquipmentChanged string string
  | S_TradeRequestReceived string
  | S_TradeRequestDeclined string
  | S_TradeStateChanged string "(string \<times> i64) list" "(string \<times> i64) list" bool "(string
       \<times> i64) list" "(string \<times> i64) list" bool
  | S_TradeCancelled string
  | S_TradeCompleted
  | S_UdpBound

datatype server_kind =
    SK_Joined string f64 f64 "proto_roster_entry list" u64 f64 string
  | SK_EntitySpawned string string f64 f64 f64
  | SK_EntityDespawned string
  | SK_ZoneChanged string string f64 f64 "proto_roster_entry list" u64 f64
  | SK_Moved string f64 f64 u32 u64 f64
  | SK_Rejected string u32 u64
  | SK_Error string
  | SK_PluginMessage string
  | SK_Pong i64 i64
  | SK_PartyInviteReceived string
  | SK_PartyInviteDeclined string
  | SK_PartyUpdate "string list"
  | SK_GuildInviteReceived string
  | SK_GuildInviteDeclined string
  | SK_GuildUpdate string string string string "proto_guild_member list"
  | SK_GuildDisbanded
  | SK_StatChanged string i64
  | SK_ItemChanged string i64
  | SK_CurrencyChanged string i64
  | SK_ItemMoved string "i32 option"
  | SK_EquipmentChanged string string
  | SK_TradeRequestReceived string
  | SK_TradeRequestDeclined string
  | SK_TradeStateChanged string "proto_trade_item_offer list" "proto_trade_currency_offer list" bool
       "proto_trade_item_offer list" "proto_trade_currency_offer list" bool
  | SK_TradeCancelled string
  | SK_TradeCompleted
  | SK_UdpBound

fun server_kind_of :: "server_message \<Rightarrow> server_kind" where
  "server_kind_of (S_Joined entity_id x y z roster tick zone_id) =
     SK_Joined entity_id x y (map roster_to_proto roster) tick z zone_id"
| "server_kind_of (S_EntitySpawned entity_id entity_type x y z) =
     SK_EntitySpawned entity_id entity_type x y z"
| "server_kind_of (S_EntityDespawned entity_id) = SK_EntityDespawned entity_id"
| "server_kind_of (S_ZoneChanged zone_id entity_id x y z roster tick) =
     SK_ZoneChanged zone_id entity_id x y (map roster_to_proto roster) tick z"
| "server_kind_of (S_Moved entity_id x y z seq tick) = SK_Moved entity_id x y seq tick z"
| "server_kind_of (S_Rejected reason seq tick) = SK_Rejected reason seq tick"
| "server_kind_of (S_Error message) = SK_Error message"
| "server_kind_of (S_PluginMessage body) = SK_PluginMessage body"
| "server_kind_of (S_Pong client_sent_at server_time) = SK_Pong client_sent_at server_time"
| "server_kind_of (S_PartyInviteReceived from_entity_id) =
     SK_PartyInviteReceived from_entity_id"
| "server_kind_of (S_PartyInviteDeclined by_entity_id) = SK_PartyInviteDeclined by_entity_id"
| "server_kind_of (S_PartyUpdate members) = SK_PartyUpdate members"
| "server_kind_of (S_GuildInviteReceived from_entity_id) =
     SK_GuildInviteReceived from_entity_id"
| "server_kind_of (S_GuildInviteDeclined by_entity_id) = SK_GuildInviteDeclined by_entity_id"
| "server_kind_of (S_GuildUpdate guild_id name motd tag members) =
     SK_GuildUpdate guild_id name motd tag (map guild_member_to_proto members)"
| "server_kind_of S_GuildDisbanded = SK_GuildDisbanded"
| "server_kind_of (S_StatChanged stat_key value) = SK_StatChanged stat_key value"
| "server_kind_of (S_ItemChanged item_type quantity) = SK_ItemChanged item_type quantity"
| "server_kind_of (S_CurrencyChanged currency_key balance) =
     SK_CurrencyChanged currency_key balance"
| "server_kind_of (S_ItemMoved item_type slot_index) = SK_ItemMoved item_type slot_index"
| "server_kind_of (S_EquipmentChanged slot item_type) = SK_EquipmentChanged slot item_type"
| "server_kind_of (S_TradeRequestReceived from_entity_id) =
     SK_TradeRequestReceived from_entity_id"
| "server_kind_of (S_TradeRequestDeclined by_entity_id) =
     SK_TradeRequestDeclined by_entity_id"
| "server_kind_of (S_TradeStateChanged other_entity_id your_items your_currency your_confirmed
       their_items their_currency their_confirmed) =
     SK_TradeStateChanged other_entity_id (trade_item_offers your_items) (trade_currency_offers
       your_currency) your_confirmed (trade_item_offers their_items) (trade_currency_offers
       their_currency) their_confirmed"
| "server_kind_of (S_TradeCancelled by_entity_id) = SK_TradeCancelled by_entity_id"
| "server_kind_of S_TradeCompleted = SK_TradeCompleted"
| "server_kind_of S_UdpBound = SK_UdpBound"

fun server_of_kind :: "server_kind \<Rightarrow> server_message" where
  "server_of_kind (SK_Joined entity_id x y roster tick z zone_id) =
     S_Joined entity_id x y z (map roster_from_proto roster) tick zone_id"
| "server_of_kind (SK_EntitySpawned entity_id entity_type x y z) =
     S_EntitySpawned entity_id entity_type x y z"
| "server_of_kind (SK_EntityDespawned entity_id) = S_EntityDespawned entity_id"
| "server_of_kind (SK_ZoneChanged zone_id entity_id x y roster tick z) =
     S_ZoneChanged zone_id entity_id x y z (map roster_from_proto roster) tick"
| "server_of_kind (SK_Moved entity_id x y seq tick z) = S_Moved entity_id x y z seq tick"
| "server_of_kind (SK_Rejected reason seq tick) = S_Rejected reason seq tick"
| "server_of_kind (SK_Error message) = S_Error message"
| "server_of_kind (SK_PluginMessage body) = S_PluginMessage body"
| "server_of_kind (SK_Pong client_sent_at server_time) = S_Pong client_sent_at server_time"
| "server_of_kind (SK_PartyInviteReceived from_entity_id) =
     S_PartyInviteReceived from_entity_id"
| "server_of_kind (SK_PartyInviteDeclined by_entity_id) = S_PartyInviteDeclined by_entity_id"
| "server_of_kind (SK_PartyUpdate members) = S_PartyUpdate members"
| "server_of_kind (SK_GuildInviteReceived from_entity_id) =
     S_GuildInviteReceived from_entity_id"
| "server_of_kind (SK_GuildInviteDeclined by_entity_id) = S_GuildInviteDeclined by_entity_id"
| "server_of_kind (SK_GuildUpdate guild_id name motd tag members) =
     S_GuildUpdate guild_id name motd tag (map guild_member_from_proto members)"
| "server_of_kind SK_GuildDisbanded = S_GuildDisbanded"
| "server_of_kind (SK_StatChanged stat_key value) = S_StatChanged stat_key value"
| "server_of_kind (SK_ItemChanged item_type quantity) = S_ItemChanged item_type quantity"
| "server_of_kind (SK_CurrencyChanged currency_key balance) =
     S_CurrencyChanged currency_key balance"
| "server_of_kind (SK_ItemMoved item_type slot_index) = S_ItemMoved item_type slot_index"
| "server_of_kind (SK_EquipmentChanged slot item_type) = S_EquipmentChanged slot item_type"
| "server_of_kind (SK_TradeRequestReceived from_entity_id) =
     S_TradeRequestReceived from_entity_id"
| "server_of_kind (SK_TradeRequestDeclined by_entity_id) =
     S_TradeRequestDeclined by_entity_id"
| "server_of_kind (SK_TradeStateChanged other_entity_id your_items your_currency your_confirmed
       their_items their_currency their_confirmed) =
     S_TradeStateChanged other_entity_id (from_trade_item_offers your_items)
       (from_trade_currency_offers your_currency) your_confirmed (from_trade_item_offers their_items)
       (from_trade_currency_offers their_currency) their_confirmed"
| "server_of_kind (SK_TradeCancelled by_entity_id) = S_TradeCancelled by_entity_id"
| "server_of_kind SK_TradeCompleted = S_TradeCompleted"
| "server_of_kind SK_UdpBound = S_UdpBound"

definition server_to_proto :: "server_message \<Rightarrow> server_kind option" where
  "server_to_proto m = Some (server_kind_of m)"

definition server_from_proto :: "server_kind option \<Rightarrow> wire_error + server_message" where
  "server_from_proto p = (case p of Some kind \<Rightarrow> Inr (server_of_kind kind) | None \<Rightarrow> Inl NoKindSet)"

lemma entry_inverses [simp]:
  "roster_from_proto \<circ> roster_to_proto = id" "guild_member_from_proto \<circ> guild_member_to_proto = id"
  "from_trade_item_offers (trade_item_offers xs) = xs"
  "from_trade_currency_offers (trade_currency_offers xs) = xs"
  by (simp_all add: fun_eq_iff roster_from_proto_def roster_to_proto_def guild_member_from_proto_def
      guild_member_to_proto_def from_trade_item_offers_def trade_item_offers_def
      from_trade_currency_offers_def trade_currency_offers_def comp_def case_prod_unfold)

lemma server_kind_inverse [simp]: "server_of_kind (server_kind_of m) = m"
  by (cases m) simp_all

interpretation world_server: wire_protocol world_message_type "\<lambda>_. True" server_to_proto server_from_proto
  by unfold_locales (simp_all add: server_to_proto_def server_from_proto_def)

end
