(* ===== verification/Connections.thy ===== *)
theory Connections
  imports Protocols WorldProtocol Effects Tables
begin

text \<open>
  How messages find their connection, \<^verbatim>\<open>server/src/session.rs\<close> and \<^verbatim>\<open>handle_udp_datagrams\<close> of
  \<^verbatim>\<open>main.rs\<close>: the process-wide tables a connection enters when it joins the world and leaves when it
  ends, the association of a UDP address with a connection, where an incoming envelope is sent on
  to, and over which channel an outgoing one leaves. The decoders of the generated messages and the
  parser of ids are arguments.
\<close>

section \<open>The tables\<close>

datatype socket_addr = Socket_Addr "byte list" u16

record udp_associations =
  token_to_entity :: "(string, entity_id) table"
  remote_by_entity :: "(entity_id, socket_addr) table"
  entity_by_remote :: "(socket_addr, entity_id) table"
  inbound_routes :: "entity_id list"

record registries =
  rg_sessions :: "entity_id list"
  rg_udp :: udp_associations
  rg_entity_characters :: "(entity_id, character_id) table"
  rg_character_entities :: "(character_id, entity_id) table"
  rg_entity_accounts :: "(entity_id, account_id) table"
  rg_account_entities :: "(account_id, entity_id) table"
  rg_entity_roles :: "(entity_id, string list) table"
  rg_blocked :: "(entity_id, string list) table"

text \<open>What the task of one connection holds once a character is selected.\<close>

record connection =
  cx_entity :: entity_id
  cx_account :: account_id
  cx_character :: character_id
  cx_token :: string

definition no_registries :: registries where
  "no_registries = \<lparr>rg_sessions = [],
     rg_udp = \<lparr>token_to_entity = [], remote_by_entity = [], entity_by_remote = [], inbound_routes = []\<rparr>,
     rg_entity_characters = [], rg_character_entities = [], rg_entity_accounts = [],
     rg_account_entities = [], rg_entity_roles = [], rg_blocked = []\<rparr>"

text \<open>Joining the world. \<^verbatim>\<open>HashMap::insert\<close> replaces what was there.\<close>

definition register_udp :: "connection \<Rightarrow> udp_associations \<Rightarrow> udp_associations" where
  "register_udp c u = u\<lparr>token_to_entity := put_row (cx_token c) (cx_entity c) (token_to_entity u),
     inbound_routes := List.insert (cx_entity c) (inbound_routes u)\<rparr>"

definition register :: "connection \<Rightarrow> string list \<Rightarrow> registries \<Rightarrow> registries" where
  "register c roles r = r\<lparr>
     rg_entity_characters := put_row (cx_entity c) (cx_character c) (rg_entity_characters r),
     rg_character_entities := put_row (cx_character c) (cx_entity c) (rg_character_entities r),
     rg_entity_accounts := put_row (cx_entity c) (cx_account c) (rg_entity_accounts r),
     rg_account_entities := put_row (cx_account c) (cx_entity c) (rg_account_entities r),
     rg_entity_roles := put_row (cx_entity c) roles (rg_entity_roles r),
     rg_sessions := List.insert (cx_entity c) (rg_sessions r),
     rg_udp := register_udp c (rg_udp r)\<rparr>"

text \<open>The end of \<^verbatim>\<open>handle_session\<close>, reached when the loop is left with \<^verbatim>\<open>break\<close>.\<close>

definition unregister_udp :: "connection \<Rightarrow> udp_associations \<Rightarrow> udp_associations" where
  "unregister_udp c u = u\<lparr>token_to_entity := del_row (cx_token c) (token_to_entity u),
     inbound_routes := remove1 (cx_entity c) (inbound_routes u),
     entity_by_remote := (case map_of (remote_by_entity u) (cx_entity c) of
       Some remote \<Rightarrow> del_row remote (entity_by_remote u) | None \<Rightarrow> entity_by_remote u),
     remote_by_entity := del_row (cx_entity c) (remote_by_entity u)\<rparr>"

definition unregister :: "connection \<Rightarrow> registries \<Rightarrow> registries" where
  "unregister c r = r\<lparr>
     rg_sessions := remove1 (cx_entity c) (rg_sessions r),
     rg_udp := unregister_udp c (rg_udp r),
     rg_entity_characters := del_row (cx_entity c) (rg_entity_characters r),
     rg_character_entities := del_row (cx_character c) (rg_character_entities r),
     rg_entity_accounts := del_row (cx_entity c) (rg_entity_accounts r),
     rg_account_entities := del_row (cx_account c) (rg_account_entities r),
     rg_entity_roles := del_row (cx_entity c) (rg_entity_roles r),
     rg_blocked := del_row (cx_entity c) (rg_blocked r)\<rparr>"

section \<open>Datagrams\<close>

definition world_from_envelope :: "(bytes \<Rightarrow> client_kind option option) \<Rightarrow> envelope \<Rightarrow> wire_error + client_message" where
  "world_from_envelope dec e = from_envelope world_message_type client_from_proto dec e"

datatype datagram_effect =
    Ignored
  | Bound_Ack socket_addr entity_id
  | Forwarded entity_id envelope

text \<open>One round of \<^verbatim>\<open>handle_udp_datagrams\<close>.\<close>

definition bind_udp :: "string \<Rightarrow> socket_addr \<Rightarrow> udp_associations \<Rightarrow> datagram_effect \<times> udp_associations" where
  "bind_udp token remote u = (case map_of (token_to_entity u) token of
     None \<Rightarrow> (Ignored, u)
   | Some e \<Rightarrow> (Bound_Ack remote e, u\<lparr>remote_by_entity := put_row e remote (remote_by_entity u),
       entity_by_remote := put_row remote e (entity_by_remote u)\<rparr>))"

definition forward_datagram :: "socket_addr \<Rightarrow> envelope \<Rightarrow> udp_associations \<Rightarrow> datagram_effect" where
  "forward_datagram remote env u = (case map_of (entity_by_remote u) remote of
     None \<Rightarrow> Ignored
   | Some e \<Rightarrow> if e \<in> set (inbound_routes u) then Forwarded e env else Ignored)"

definition handle_udp_datagram ::
  "(bytes \<Rightarrow> client_kind option option) \<Rightarrow> socket_addr \<Rightarrow> envelope \<Rightarrow> udp_associations
   \<Rightarrow> datagram_effect \<times> udp_associations" where
  "handle_udp_datagram dec remote env u =
     (if message_type env \<noteq> world_message_type then (Ignored, u)
      else case world_from_envelope dec env of
        Inr (C_BindUdp token) \<Rightarrow> bind_udp token remote u
      | _ \<Rightarrow> (forward_datagram remote env u, u))"

text \<open>What a connection's task does with a datagram forwarded to it.\<close>

datatype udp_action = Request_Move f64 f64 f64 u32 | Queue_Pong i64 | No_Action

definition serve_datagram :: "(bytes \<Rightarrow> client_kind option option) \<Rightarrow> envelope \<Rightarrow> udp_action" where
  "serve_datagram dec env = (case world_from_envelope dec env of
     Inr (C_Move x y z seq) \<Rightarrow> Request_Move x y z seq
   | Inr (C_Ping client_sent_at) \<Rightarrow> Queue_Pong client_sent_at
   | _ \<Rightarrow> No_Action)"

text \<open>Where an envelope queued for a connection is sent: \<open>Some\<close> address over UDP, \<open>None\<close> over TCP.\<close>

definition udp_remote :: "udp_associations \<Rightarrow> entity_id \<Rightarrow> envelope \<Rightarrow> socket_addr option" where
  "udp_remote u e env =
     (if message_type env = world_message_type then map_of (remote_by_entity u) e else None)"

section \<open>Envelopes of the connection itself\<close>

datatype routed =
    To_World client_message
  | World_Refused wire_error
  | Chat_Disabled
  | Plugin_Command string string
  | To_Chat chat_request
  | Chat_Refused wire_error
  | To_Plugin u16 bytes
  | Unrecognized u16

record route_config =
  rc_chat_enabled :: bool
  rc_chat_commands :: "string list"
  rc_plugin_types :: "u16 list"

text \<open>\<^verbatim>\<open>peek_send_body(..).ok().flatten().and_then(plugin_chat_command)\<close>.\<close>

definition command_send ::
  "string list \<Rightarrow> (bytes \<Rightarrow> chat_client_kind option option) \<Rightarrow> envelope \<Rightarrow> (string \<times> string) option" where
  "command_send commands dec env = (case peek_send_body dec env of
     Inr (Some body) \<Rightarrow> plugin_chat_command commands body
   | _ \<Rightarrow> None)"

definition route_chat ::
  "(string \<Rightarrow> channel_id option) \<Rightarrow> (bytes \<Rightarrow> chat_client_kind option option) \<Rightarrow> route_config \<Rightarrow> envelope \<Rightarrow> routed" where
  "route_chat parse_id dec cfg env =
     (if \<not> rc_chat_enabled cfg then Chat_Disabled
      else case command_send (rc_chat_commands cfg) dec env of
        Some (command, args) \<Rightarrow> Plugin_Command command args
      | None \<Rightarrow> (case from_envelope chat_message_type (chat_client_from_proto parse_id) dec env of
                  Inr message \<Rightarrow> To_Chat message
                | Inl e \<Rightarrow> Chat_Refused e))"

definition route_envelope ::
  "(string \<Rightarrow> channel_id option) \<Rightarrow> (bytes \<Rightarrow> chat_client_kind option option)
   \<Rightarrow> (bytes \<Rightarrow> client_kind option option) \<Rightarrow> route_config \<Rightarrow> envelope \<Rightarrow> routed" where
  "route_envelope parse_id chat_dec world_dec cfg env =
     (if message_type env = world_message_type then
        (case world_from_envelope world_dec env of
           Inr message \<Rightarrow> To_World message
         | Inl e \<Rightarrow> World_Refused e)
      else if message_type env = chat_message_type then route_chat parse_id chat_dec cfg env
      else if message_type env \<in> set (rc_plugin_types cfg) then To_Plugin (message_type env) (payload env)
      else Unrecognized (message_type env))"

section \<open>A datagram reaches only the connection whose token its address presented\<close>

datatype conn_event =
    World_Join connection "string list"
  | World_Leave connection
  | Udp_Datagram socket_addr envelope

definition conn_step ::
  "(bytes \<Rightarrow> client_kind option option) \<Rightarrow> conn_event \<Rightarrow> registries \<Rightarrow> registries" where
  "conn_step dec ev r = (case ev of
     World_Join c roles \<Rightarrow> register c roles r
   | World_Leave c \<Rightarrow> unregister c r
   | Udp_Datagram remote env \<Rightarrow> r\<lparr>rg_udp := snd (handle_udp_datagram dec remote env (rg_udp r))\<rparr>)"

definition conn_run :: "(bytes \<Rightarrow> client_kind option option) \<Rightarrow> conn_event list \<Rightarrow> registries" where
  "conn_run dec evs = fold (conn_step dec) evs no_registries"

lemma conn_run_snoc: "conn_run dec (evs @ [ev]) = conn_step dec ev (conn_run dec evs)"
  by (simp add: conn_run_def)

definition token_presented ::
  "(bytes \<Rightarrow> client_kind option option) \<Rightarrow> conn_event list \<Rightarrow> socket_addr \<Rightarrow> entity_id \<Rightarrow> bool" where
  "token_presented dec evs remote e \<longleftrightarrow> (\<exists>c roles env. World_Join c roles \<in> set evs \<and> cx_entity c = e
     \<and> Udp_Datagram remote env \<in> set evs \<and> world_from_envelope dec env = Inr (C_BindUdp (cx_token c)))"

definition udp_earned :: "(bytes \<Rightarrow> client_kind option option) \<Rightarrow> conn_event list \<Rightarrow> udp_associations \<Rightarrow> bool" where
  "udp_earned dec evs u \<longleftrightarrow>
     (\<forall>t e. map_of (token_to_entity u) t = Some e \<longrightarrow>
        (\<exists>c roles. World_Join c roles \<in> set evs \<and> cx_entity c = e \<and> cx_token c = t))
   \<and> (\<forall>a e. map_of (entity_by_remote u) a = Some e \<longrightarrow> token_presented dec evs a e)
   \<and> (\<forall>a e. map_of (remote_by_entity u) e = Some a \<longrightarrow> token_presented dec evs a e)
   \<and> distinct (inbound_routes u)"

lemma token_presented_mono: "token_presented dec evs a e \<Longrightarrow> set evs \<subseteq> set evs' \<Longrightarrow> token_presented dec evs' a e"
  unfolding token_presented_def by blast

lemma udp_earned_mono: "udp_earned dec evs u \<Longrightarrow> set evs \<subseteq> set evs' \<Longrightarrow> udp_earned dec evs' u"
  unfolding udp_earned_def using token_presented_mono by blast

lemma handle_udp_datagram_cases:
  obtains (kept) "snd (handle_udp_datagram dec remote env u) = u"
  | (bound) t e where "world_from_envelope dec env = Inr (C_BindUdp t)" "map_of (token_to_entity u) t = Some e"
      "snd (handle_udp_datagram dec remote env u)
        = u\<lparr>remote_by_entity := put_row e remote (remote_by_entity u),
           entity_by_remote := put_row remote e (entity_by_remote u)\<rparr>"
proof (cases "\<exists>t e. message_type env = world_message_type \<and> world_from_envelope dec env = Inr (C_BindUdp t)
    \<and> map_of (token_to_entity u) t = Some e")
  case True
  then show ?thesis using bound by (auto simp: handle_udp_datagram_def bind_udp_def)
next
  case False
  then have "snd (handle_udp_datagram dec remote env u) = u"
    by (auto simp: handle_udp_datagram_def bind_udp_def split: sum.split client_message.split option.split)
  then show ?thesis by (rule kept)
qed

lemma udp_earned_run: "udp_earned dec evs (rg_udp (conn_run dec evs))"
proof (induction evs rule: rev_induct)
  case Nil
  show ?case by (simp add: udp_earned_def conn_run_def no_registries_def)
next
  case (snoc ev evs)
  let ?u = "rg_udp (conn_run dec evs)" and ?evs = "evs @ [ev]"
  have old: "udp_earned dec ?evs ?u" by (rule udp_earned_mono [OF snoc.IH]) auto
  show ?case
  proof (cases ev)
    case (World_Join c roles)
    then show ?thesis using old
      by (auto simp: conn_run_snoc conn_step_def register_def register_udp_def udp_earned_def)
  next
    case (World_Leave c)
    then show ?thesis using old
      by (auto simp: conn_run_snoc conn_step_def unregister_def unregister_udp_def udp_earned_def
          split: option.splits if_splits)
  next
    case (Udp_Datagram remote env)
    then have run: "rg_udp (conn_run dec ?evs) = snd (handle_udp_datagram dec remote env ?u)"
      by (simp add: conn_run_snoc conn_step_def)
    show ?thesis
    proof (cases rule: handle_udp_datagram_cases [of dec remote env ?u, case_names kept bound])
      case kept
      then show ?thesis using old run by simp
    next
      case (bound t e)
      then obtain c roles where "World_Join c roles \<in> set ?evs" "cx_entity c = e" "cx_token c = t"
        using old unfolding udp_earned_def by blast
      then have "token_presented dec ?evs remote e"
        using bound(1) Udp_Datagram by (auto simp: token_presented_def)
      then show ?thesis using old bound(3) unfolding run udp_earned_def by auto
    qed
  qed
qed

text \<open>The connections that have joined and not left.\<close>

fun live_entities :: "conn_event list \<Rightarrow> entity_id set" where
  "live_entities [] = {}"
| "live_entities (ev # evs) = (case ev of
     World_Join c roles \<Rightarrow> insert (cx_entity c) (live_entities evs)
   | World_Leave c \<Rightarrow> live_entities evs - {cx_entity c}
   | Udp_Datagram _ _ \<Rightarrow> live_entities evs)"

lemma routes_live: "set (inbound_routes (rg_udp (conn_run dec evs))) = live_entities (rev evs)"
proof (induction evs rule: rev_induct)
  case (snoc ev evs)
  have "distinct (inbound_routes (rg_udp (conn_run dec evs)))"
    using udp_earned_run by (simp add: udp_earned_def)
  then show ?case using snoc.IH
    by (cases ev) (auto simp: conn_run_snoc conn_step_def register_def register_udp_def unregister_def
        unregister_udp_def handle_udp_datagram_def bind_udp_def split: sum.splits client_message.splits option.splits)
qed (simp add: conn_run_def no_registries_def)

text \<open>
  C9: Whatever connections join and leave and whatever datagrams arrive in between, a datagram is handed
  to a connection only if it is of the world protocol, the connection is still in the world, and
  the datagram's address earlier presented the session token that connection logged in with; and the
  world messages of a connection leave over UDP only to an address that presented its token.
\<close>

theorem udp_reaches_only_token_holders:
  "let u = rg_udp (conn_run dec evs) in
     (fst (handle_udp_datagram dec remote env u) = Forwarded e env' \<longrightarrow>
        env' = env \<and> message_type env = world_message_type \<and> e \<in> live_entities (rev evs)
        \<and> token_presented dec evs remote e)
   \<and> (udp_remote u e env = Some remote \<longrightarrow>
        message_type env = world_message_type \<and> token_presented dec evs remote e)"
proof -
  let ?u = "rg_udp (conn_run dec evs)"
  have fwd: "message_type env = world_message_type \<and> forward_datagram remote env ?u = Forwarded e env'"
    if "fst (handle_udp_datagram dec remote env ?u) = Forwarded e env'"
    using that by (auto simp: handle_udp_datagram_def bind_udp_def
        split: if_splits sum.splits client_message.splits option.splits)
  have "env' = env \<and> message_type env = world_message_type \<and> e \<in> live_entities (rev evs)
        \<and> token_presented dec evs remote e"
    if f: "fst (handle_udp_datagram dec remote env ?u) = Forwarded e env'"
    using fwd [OF f] udp_earned_run [of dec evs] routes_live [of dec evs]
    by (auto simp: forward_datagram_def udp_earned_def split: option.splits if_splits)
  moreover have "message_type env = world_message_type \<and> token_presented dec evs remote e"
    if "udp_remote ?u e env = Some remote"
    using that udp_earned_run [of dec evs] by (auto simp: udp_remote_def udp_earned_def split: if_splits)
  ultimately show ?thesis unfolding Let_def by blast
qed

text \<open>A concrete schedule: a connection joins, its client binds an address and moves.\<close>

definition sample_connection :: connection where
  "sample_connection = \<lparr>cx_entity = Id 1, cx_account = Id 2, cx_character = Id 3, cx_token = ''tok''\<rparr>"

definition sample_addr :: socket_addr where
  "sample_addr = Socket_Addr [127, 0, 0, 1] 9000"

text \<open>A decoder that knows two messages by their first byte.\<close>

definition sample_world_decode :: "bytes \<Rightarrow> client_kind option option" where
  "sample_world_decode bs = (case bs of
     [] \<Rightarrow> None
   | b # _ \<Rightarrow> Some (if b = 1 then Some (CK_BindUdp ''tok'') else if b = 2 then Some (CK_Ping 7) else None))"

definition sample_world_encode :: "client_kind option \<Rightarrow> bytes" where
  "sample_world_encode p = (if p = Some (CK_BindUdp ''tok'') then [1] else if p = Some (CK_Ping 7) then [2] else [])"

definition sample_schedule :: "conn_event list" where
  "sample_schedule = [World_Join sample_connection [], Udp_Datagram sample_addr (new_envelope 200 [1])]"

lemma udp_reaches_only_token_holders_witness:
  "fst (handle_udp_datagram sample_world_decode sample_addr (new_envelope 200 [2])
       (rg_udp (conn_run sample_world_decode sample_schedule))) = Forwarded (Id 1) (new_envelope 200 [2])
   \<and> Id 1 \<in> live_entities (rev sample_schedule)
   \<and> token_presented sample_world_decode sample_schedule sample_addr (Id 1)"
proof -
  have "fst (handle_udp_datagram sample_world_decode sample_addr (new_envelope 200 [2])
       (rg_udp (conn_run sample_world_decode sample_schedule))) = Forwarded (Id 1) (new_envelope 200 [2])"
    by code_simp
  then show ?thesis
    using udp_reaches_only_token_holders [where dec = sample_world_decode and evs = sample_schedule
        and remote = sample_addr and env = "new_envelope 200 [2]" and e = "Id 1" and env' = "new_envelope 200 [2]"]
    by (simp add: Let_def)
qed

section \<open>The tables mirror the connections\<close>

text \<open>
  The states reached while no entity id is drawn twice and no account, character or token is used by
  two connections at a time. \<open>used\<close> are the ids drawn so far, \<open>cs\<close> the connections in the world.
\<close>

inductive conn_reach ::
  "(bytes \<Rightarrow> client_kind option option) \<Rightarrow> entity_id set \<Rightarrow> connection list \<Rightarrow> registries \<Rightarrow> bool" for dec where
  start: "conn_reach dec {} [] no_registries"
| joins: "conn_reach dec used cs r \<Longrightarrow> cx_entity c \<notin> used \<Longrightarrow> cx_account c \<notin> cx_account ` set cs \<Longrightarrow>
    cx_character c \<notin> cx_character ` set cs \<Longrightarrow> cx_token c \<notin> cx_token ` set cs \<Longrightarrow>
    conn_reach dec (insert (cx_entity c) used) (c # cs) (register c roles r)"
| leaves: "conn_reach dec used cs r \<Longrightarrow> c \<in> set cs \<Longrightarrow> conn_reach dec used (remove1 c cs) (unregister c r)"
| datagram: "conn_reach dec used cs r \<Longrightarrow>
    conn_reach dec used cs (r\<lparr>rg_udp := snd (handle_udp_datagram dec remote env (rg_udp r))\<rparr>)"

definition keyed_by :: "(connection \<Rightarrow> 'k) \<Rightarrow> (connection \<Rightarrow> 'v) \<Rightarrow> connection list \<Rightarrow> ('k, 'v) table \<Rightarrow> bool" where
  "keyed_by f g cs t \<longleftrightarrow> (\<forall>k v. map_of t k = Some v \<longleftrightarrow> (\<exists>c \<in> set cs. f c = k \<and> g c = v))"

definition distinct_by :: "(connection \<Rightarrow> 'k) \<Rightarrow> connection list \<Rightarrow> bool" where
  "distinct_by f cs \<longleftrightarrow> distinct (map f cs)"

lemma distinct_by_eq: "distinct_by f cs \<Longrightarrow> c \<in> set cs \<Longrightarrow> d \<in> set cs \<Longrightarrow> f c = f d \<Longrightarrow> c = d"
  by (auto simp: distinct_by_def distinct_map inj_on_def)

lemma distinct_by_remove1: "distinct_by f cs \<Longrightarrow> distinct_by f (remove1 c cs)"
  by (auto simp: distinct_by_def distinct_map intro: inj_on_subset dest: set_remove1_subset [THEN subsetD])

lemma keyed_by_Cons:
  "keyed_by f g cs t \<Longrightarrow> f c \<notin> f ` set cs \<Longrightarrow> keyed_by f g (c # cs) (put_row (f c) (g c) t)"
  unfolding keyed_by_def by (auto simp: image_iff)

lemma set_remove1_by:
  assumes "distinct_by f cs" "c \<in> set cs"
  shows "set (remove1 c cs) = {d \<in> set cs. f d \<noteq> f c}"
proof -
  have "set (remove1 c cs) = set cs - {c}"
    using assms by (simp add: distinct_by_def distinct_map set_remove1_eq)
  then show ?thesis using distinct_by_eq [OF assms] by (auto dest: sym)
qed

lemma keyed_by_remove1:
  assumes "keyed_by f g cs t" "distinct_by f cs" "c \<in> set cs"
  shows "keyed_by f g (remove1 c cs) (del_row (f c) t)"
  using assms(1) set_remove1_by [OF assms(2,3)] by (auto simp: keyed_by_def)

definition mirrors :: "connection list \<Rightarrow> registries \<Rightarrow> bool" where
  "mirrors cs r \<longleftrightarrow>
     keyed_by cx_entity cx_character cs (rg_entity_characters r)
   \<and> keyed_by cx_character cx_entity cs (rg_character_entities r)
   \<and> keyed_by cx_entity cx_account cs (rg_entity_accounts r)
   \<and> keyed_by cx_account cx_entity cs (rg_account_entities r)
   \<and> keyed_by cx_token cx_entity cs (token_to_entity (rg_udp r))
   \<and> set (rg_sessions r) = cx_entity ` set cs \<and> distinct (rg_sessions r)
   \<and> set (inbound_routes (rg_udp r)) = cx_entity ` set cs \<and> distinct (inbound_routes (rg_udp r))"

definition one_each :: "entity_id set \<Rightarrow> connection list \<Rightarrow> bool" where
  "one_each used cs \<longleftrightarrow> cx_entity ` set cs \<subseteq> used \<and> distinct_by cx_entity cs \<and> distinct_by cx_account cs
     \<and> distinct_by cx_character cs \<and> distinct_by cx_token cs"

lemma image_remove1:
  assumes "distinct_by f cs" "c \<in> set cs"
  shows "f ` set (remove1 c cs) = f ` set cs - {f c}"
  using set_remove1_by [OF assms] by auto

lemma conn_reach_mirrors: "conn_reach dec used cs r \<Longrightarrow> one_each used cs \<and> mirrors cs r"
proof (induction rule: conn_reach.induct)
  case start
  show ?case by (simp add: one_each_def distinct_by_def mirrors_def keyed_by_def no_registries_def)
next
  case (joins used cs r c roles)
  then have "cx_entity c \<notin> cx_entity ` set cs" by (auto simp: one_each_def)
  with joins show ?case
    by (auto simp: one_each_def distinct_by_def mirrors_def register_def register_udp_def intro: keyed_by_Cons)
next
  case (leaves used cs r c)
  then show ?case
    by (auto simp: one_each_def mirrors_def unregister_def unregister_udp_def image_remove1
        intro: distinct_by_remove1 keyed_by_remove1 dest: set_remove1_subset [THEN subsetD])
next
  case (datagram used cs r remote env)
  show ?case
  proof (cases rule: handle_udp_datagram_cases [of dec remote env "rg_udp r", case_names kept bound])
    case kept
    then show ?thesis using datagram by simp
  next
    case (bound t e)
    then show ?thesis using datagram by (simp add: mirrors_def)
  qed
qed



text \<open>
  The tables by account, character and token hold one connection each, and ending a connection
  removes their rows whoever they belong to. A client that resumes its session on a new connection
  while the old one is still open, with the same token and account, is taken out of the tables when
  the old connection ends: it stays in the world, but it has no entity by account, and its token no
  longer binds a UDP address.
\<close>

theorem resumed_connection_unregistered_by_the_old:
  "let old = sample_connection;
       new = \<lparr>cx_entity = Id 4, cx_account = Id 2, cx_character = Id 5, cx_token = ''tok''\<rparr>;
       r = unregister old (register new [] (register old [] no_registries))
   in Id 4 \<in> set (rg_sessions r) \<and> map_of (rg_entity_accounts r) (Id 4) = Some (Id 2)
      \<and> \<not> has_row (rg_account_entities r) (Id 2)
      \<and> fst (bind_udp ''tok'' sample_addr (rg_udp r)) = Ignored"
  by code_simp

section \<open>From the bytes of a connection to its handlers\<close>

text \<open>
  C31: The world messages a client sends reach the handlers of its connection as it sent them, all of them
  and in order, however the network splits the stream: framing, envelope, message type, prost and the
  conversions of \<open>session_protocol\<close> compose to the identity.
\<close>

theorem world_messages_arrive:
  assumes "length_delimited frame unframe pending" "pending start [] = []"
    and "list_all (\<lambda>m. dec (enc (client_to_proto m)) = Some (client_to_proto m)) ms"
    and "encode_all frame (map (into_envelope world_message_type client_to_proto enc) ms) [] = Inr wire"
    and "concat reads = wire" "reads \<noteq> []"
  shows "\<exists>envs c buf. receive unframe start [] reads = Some (envs, None, c, buf) \<and> pending c buf = []
    \<and> map (route_envelope parse_id chat_dec dec cfg) envs = map To_World ms"
proof -
  let ?envs = "map (into_envelope world_message_type client_to_proto enc) ms"
  obtain c buf where "receive unframe start [] reads = Some (?envs, None, c, buf)" "pending c buf = []"
    using receive_all [OF assms(1,4), where c = start and buf = "[]" and chunks = reads] assms(2,5,6) by auto
  moreover have "route_envelope parse_id chat_dec dec cfg (into_envelope world_message_type client_to_proto enc m)
      = To_World m" if "m \<in> set ms" for m
  proof -
    have "dec (enc (client_to_proto m)) = Some (client_to_proto m)"
      using assms(3) that by (simp add: list_all_iff)
    from world_client.round_trip [where dec = dec and enc = enc, OF TrueI this] show ?thesis
      by (simp add: route_envelope_def world_from_envelope_def)
  qed
  then have "map (route_envelope parse_id chat_dec dec cfg) ?envs = map To_World ms" by simp
  ultimately show ?thesis by blast
qed

definition sample_config :: route_config where
  "sample_config = \<lparr>rc_chat_enabled = True, rc_chat_commands = [''roll''], rc_plugin_types = [1000]\<rparr>"

lemma world_messages_arrive_witness:
  "\<exists>envs c buf. receive sample_unframe () [] [[0, 0, 0], [3, 0, 200, 2, 0, 0], [0, 3, 0, 200, 1]] = Some (envs, None, c, buf)
     \<and> buf = []
     \<and> map (route_envelope (\<lambda>_. None) (\<lambda>_. None) sample_world_decode sample_config) envs
         = [To_World (C_Ping 7), To_World (C_BindUdp ''tok'')]"
proof -
  let ?ms = "[C_Ping 7, C_BindUdp ''tok'']"
  have d: "list_all (\<lambda>m. sample_world_decode (sample_world_encode (client_to_proto m)) = Some (client_to_proto m)) ?ms"
    by (simp add: client_to_proto_def sample_world_encode_def sample_world_decode_def)
  have wire: "encode_all sample_frame (map (into_envelope world_message_type client_to_proto sample_world_encode) ?ms) []
      = Inr [0, 0, 0, 3, 0, 200, 2, 0, 0, 0, 3, 0, 200, 1]"
    by (simp add: codec_encode_def sample_frame_def max_frame_def put_u32_def encode_to_def put_u16_def
        into_envelope_def encode_message_def new_envelope_def world_message_type_def client_to_proto_def
        sample_world_encode_def)
  have split: "concat [[0, 0, 0], [3, 0, 200, 2, 0, 0], [0, 3, 0, 200, 1 :: byte]]
      = [0, 0, 0, 3, 0, 200, 2, 0, 0, 0, 3, 0, 200, 1]" "[[0, 0, 0], [3, 0, 200, 2, 0, 0], [0, 3, 0, 200, 1 :: byte]] \<noteq> []"
    by simp_all
  show ?thesis
    using world_messages_arrive [where parse_id = "\<lambda>_. None" and chat_dec = "\<lambda>_. None" and cfg = sample_config
        and start = "()", OF sample_codec refl d wire split]
    by simp
qed

text \<open>
  A line of chat whose first word is a command the plugin declares goes to the plugin and is never
  published, even when the channel id the client sent is not an id at all; every other line goes to
  chat, and is refused only for its channel id.
\<close>

theorem chat_lines_routed:
  assumes "message_type env = chat_message_type" "rc_chat_enabled cfg"
    and "chat_dec (payload env) = Some (Some (K_Send channel body))"
  shows "route_envelope parse_id chat_dec world_dec cfg env =
    (case plugin_chat_command (rc_chat_commands cfg) body of
       Some (command, args) \<Rightarrow> Plugin_Command command args
     | None \<Rightarrow> (case parse_id channel of
           Some c \<Rightarrow> To_Chat (SendLine c body)
         | None \<Rightarrow> Chat_Refused (InvalidWireId channel)))"
proof -
  have d: "decode_message chat_message_type chat_dec env = Inr (Some (K_Send channel body))"
    using assms(1,3) by (simp add: decode_message_def ok_or_else_def)
  have "chat_message_type \<noteq> world_message_type" by (simp add: chat_message_type_def world_message_type_def)
  then show ?thesis
    using assms d by (simp add: route_envelope_def route_chat_def command_send_def peek_send_body_def
        from_envelope_def chat_client_from_proto_def ok_or_else_def try_then_def split: option.split)
qed

lemma chat_lines_routed_witness:
  "route_envelope (\<lambda>_. None) (\<lambda>_. Some (Some (K_Send ''nowhere'' ''/roll 20''))) (\<lambda>_. None) sample_config
     (new_envelope 100 []) = Plugin_Command ''roll'' ''20''"
proof -
  have "plugin_chat_command (rc_chat_commands sample_config) ''/roll 20'' = Some (''roll'', ''20'')" by code_simp
  then show ?thesis
    by (subst chat_lines_routed [where channel = "''nowhere''" and body = "''/roll 20''"])
      (simp_all add: new_envelope_def chat_message_type_def sample_config_def)
qed

text \<open>
  Once a connection has bound a UDP address, every message of the world protocol queued for it
  leaves over UDP, which may lose it: not only movement, but also party, guild and trade updates
  and \<open>S_ZoneChanged\<close>, which the client needs to learn its new zone. Only the other protocols stay on
  TCP. (The comment at this place and the networking specification keep party, guild and trade on TCP.)
\<close>

theorem world_messages_leave_over_udp:
  "udp_remote u e (into_envelope world_message_type server_to_proto enc m) = map_of (remote_by_entity u) e
   \<and> udp_remote u e (into_envelope chat_message_type (chat_server_to_proto show_id) chat_enc cm) = None
   \<and> udp_remote u e (into_envelope auth_message_type (auth_server_to_proto show_account) auth_enc am) = None"
  by (simp add: udp_remote_def world_message_type_def chat_message_type_def auth_message_type_def)

end
