(* ===== verification/SocialSession.thy ===== *)
theory SocialSession
  imports Party Guild Connections
begin

text \<open>
  The party and guild messages of \<^verbatim>\<open>server/src/session.rs\<close>: pending invites between connected
  entities, the calls into \<open>Party\<close> and \<open>Guild\<close>, the guild's chat channel kept beside the roster, and
  the updates pushed to everyone concerned. A handler is one step; what it sends is appended to
  \<open>so_out\<close> with its receiver, a message to an entity without a session being dropped. Ids in messages
  are ids here, texts of errors the errors.
\<close>

section \<open>State and messages\<close>

datatype social_refusal =
    NotAnEntityId string
  | CannotInviteYourself
  | NotAPlayer
  | NotAConnectedPlayer
  | NoPendingPartyInvite
  | NoPendingGuildInvite
  | InviterDisconnected
  | NotInPartyWith
  | StoreFailed error

record guild_snapshot =
  gsn_id :: guild_id
  gsn_name :: string
  gsn_motd :: string
  gsn_tag :: string
  gsn_members :: "(entity_id option \<times> string) list"

datatype social_push =
    PartyInviteReceived entity_id
  | PartyInviteDeclined entity_id
  | PartyUpdate "entity_id list"
  | GuildInviteReceived entity_id
  | GuildInviteDeclined entity_id
  | GuildUpdate "guild_snapshot option"
  | GuildDisbanded
  | LayerMove entity_id
  | SocialRefused social_refusal

record social =
  so_db :: db
  so_chat :: "chat_db option"
  so_regs :: registries
  so_party_invites :: "(entity_id, entity_id \<times> string) table"
  so_guild_invites :: "(entity_id, entity_id) table"
  so_out :: "(entity_id \<times> social_push) list"

text \<open>\<^verbatim>\<open>send_world\<close> to the connection's own sink, and \<^verbatim>\<open>send_to\<close> through \<^verbatim>\<open>global_sessions\<close>.\<close>

definition send_world :: "entity_id \<Rightarrow> social_push \<Rightarrow> social \<Rightarrow> social" where
  "send_world e m s = s\<lparr>so_out := so_out s @ [(e, m)]\<rparr>"

definition refuse :: "entity_id \<Rightarrow> social_refusal \<Rightarrow> social \<Rightarrow> social" where
  "refuse e r = send_world e (SocialRefused r)"

definition send_to :: "entity_id \<Rightarrow> social_push \<Rightarrow> social \<Rightarrow> social" where
  "send_to e m s = (if e \<in> set (rg_sessions (so_regs s)) then send_world e m s else s)"

definition run_db :: "'a sql \<Rightarrow> social \<Rightarrow> (error + 'a) \<times> social" where
  "run_db m s = (case m (so_db s) of (r, db') \<Rightarrow> (r, s\<lparr>so_db := db'\<rparr>))"

definition run_chat :: "'a chat \<Rightarrow> social \<Rightarrow> ('a option \<times> social)" where
  "run_chat m s = (case so_chat s of
     None \<Rightarrow> (None, s)
   | Some cdb \<Rightarrow> (case m cdb of
       (Inl _, cdb') \<Rightarrow> (None, s\<lparr>so_chat := Some cdb'\<rparr>)
     | (Inr x, cdb') \<Rightarrow> (Some x, s\<lparr>so_chat := Some cdb'\<rparr>)))"

definition entity_of_character :: "social \<Rightarrow> character_id \<Rightarrow> entity_id option" where
  "entity_of_character s ch = map_of (rg_character_entities (so_regs s)) ch"

definition entity_of_account :: "social \<Rightarrow> account_id \<Rightarrow> entity_id option" where
  "entity_of_account s a = map_of (rg_account_entities (so_regs s)) a"

section \<open>Parties\<close>

definition party_members_now :: "social \<Rightarrow> character_id \<Rightarrow> character_id list" where
  "party_members_now s ch = (case members_of ch (so_db s) of (Inr ms, _) \<Rightarrow> ms | (Inl _, _) \<Rightarrow> [])"

definition refresh_party_one :: "character_id \<Rightarrow> social \<Rightarrow> social" where
  "refresh_party_one ch s = (case entity_of_character s ch of
     None \<Rightarrow> s
   | Some e \<Rightarrow> send_to e (PartyUpdate (List.map_filter (entity_of_character s) (party_members_now s ch))) s)"

definition refresh_party_rosters :: "character_id list \<Rightarrow> social \<Rightarrow> social" where
  "refresh_party_rosters interested s = fold refresh_party_one interested s"

definition on_join_group_layer ::
  "(string \<Rightarrow> entity_id option) \<Rightarrow> entity_id \<Rightarrow> character_id \<Rightarrow> string \<Rightarrow> social \<Rightarrow> social" where
  "on_join_group_layer parse_id e ch other s = (case parse_id other of
     None \<Rightarrow> refuse e (NotAnEntityId other) s
   | Some o_id \<Rightarrow>
       let is_party_member = (case map_of (rg_entity_characters (so_regs s)) o_id of
             Some other_ch \<Rightarrow> other_ch \<in> set (party_members_now s ch) | None \<Rightarrow> False)
       in if \<not> is_party_member then refuse e NotInPartyWith s else send_world e (LayerMove o_id) s)"

definition on_party_invite ::
  "(string \<Rightarrow> entity_id option) \<Rightarrow> entity_id \<Rightarrow> string \<Rightarrow> string \<Rightarrow> social \<Rightarrow> social" where
  "on_party_invite parse_id e target party_type s = (case parse_id target of
     None \<Rightarrow> refuse e (NotAnEntityId target) s
   | Some t \<Rightarrow>
       if t = e then refuse e CannotInviteYourself s
       else if \<not> has_row (rg_entity_characters (so_regs s)) t then refuse e NotAPlayer s
       else send_to t (PartyInviteReceived e)
         (s\<lparr>so_party_invites := put_row t (e, party_type) (so_party_invites s)\<rparr>))"

definition on_party_response ::
  "party_schema \<Rightarrow> party_id \<Rightarrow> entity_id \<Rightarrow> character_id \<Rightarrow> bool \<Rightarrow> social \<Rightarrow> social" where
  "on_party_response sch fresh e ch accept s = (case map_of (so_party_invites s) e of
     None \<Rightarrow> refuse e NoPendingPartyInvite s
   | Some (inviter, party_type) \<Rightarrow>
       let s = s\<lparr>so_party_invites := del_row e (so_party_invites s)\<rparr> in
       if \<not> accept then send_to inviter (PartyInviteDeclined e) s
       else (case map_of (rg_entity_characters (so_regs s)) inviter of
          None \<Rightarrow> refuse e InviterDisconnected s
        | Some inviter_ch \<Rightarrow>
            (case run_db (accept_party_invite sch fresh inviter_ch ch party_type) s of
               (Inl err, s) \<Rightarrow> refuse e (StoreFailed err) s
             | (Inr _, s) \<Rightarrow>
                 let interested = party_members_now s ch @ [ch] in
                 send_world e (LayerMove inviter) (refresh_party_rosters interested s))))"

definition on_party_leave :: "entity_id \<Rightarrow> character_id \<Rightarrow> social \<Rightarrow> social" where
  "on_party_leave e ch s =
     (let interested = party_members_now s ch @ [ch] in
      case run_db (leave_party ch) s of
        (Inr _, s) \<Rightarrow> refresh_party_rosters interested s
      | (Inl err, s) \<Rightarrow> refuse e (StoreFailed err) s)"

section \<open>Guild updates\<close>

definition guild_now :: "social \<Rightarrow> account_id \<Rightarrow> guild_id option" where
  "guild_now s a = (case guild_of a (so_db s) of (Inr g, _) \<Rightarrow> g | (Inl _, _) \<Rightarrow> None)"

definition guild_info_now :: "social \<Rightarrow> guild_id \<Rightarrow> guild_row option" where
  "guild_info_now s g = (case guild_info g (so_db s) of
     (Inr (Some (_, row)), _) \<Rightarrow> Some row | _ \<Rightarrow> None)"

definition guild_roster_now :: "social \<Rightarrow> guild_id \<Rightarrow> (account_id \<times> string) list" where
  "guild_roster_now s g = (case guild_members_of g (so_db s) of (Inr ms, _) \<Rightarrow> ms | (Inl _, _) \<Rightarrow> [])"

definition snapshot_guild :: "social \<Rightarrow> guild_id option \<Rightarrow> guild_snapshot option" where
  "snapshot_guild s guild = Option.bind guild (\<lambda>g. map_option (\<lambda>row.
     \<lparr>gsn_id = g, gsn_name = gd_name row,
      gsn_motd = (case gd_motd row of None \<Rightarrow> '''' | Some m \<Rightarrow> m),
      gsn_tag = (case gd_tag row of None \<Rightarrow> '''' | Some t \<Rightarrow> t),
      gsn_members = map (\<lambda>(a, rank_key). (entity_of_account s a, rank_key)) (guild_roster_now s g)\<rparr>)
     (guild_info_now s g))"

definition refresh_guild_one :: "guild_snapshot option \<Rightarrow> account_id \<Rightarrow> social \<Rightarrow> social" where
  "refresh_guild_one snapshot a s = (case entity_of_account s a of
     None \<Rightarrow> s
   | Some e \<Rightarrow> send_to e (GuildUpdate snapshot) s)"

definition refresh_guild_rosters :: "guild_id option \<Rightarrow> account_id list \<Rightarrow> social \<Rightarrow> social" where
  "refresh_guild_rosters guild interested s =
     (let snapshot = snapshot_guild s guild in fold (refresh_guild_one snapshot) interested s)"

definition refresh_after_guild_change :: "account_id \<Rightarrow> social \<Rightarrow> social" where
  "refresh_after_guild_change a s = (case guild_now s a of
     None \<Rightarrow> s
   | Some g \<Rightarrow> refresh_guild_rosters (Some g) (map fst (guild_roster_now s g)) s)"

definition sync_chat_leave :: "guild_id option \<Rightarrow> account_id \<Rightarrow> social \<Rightarrow> social" where
  "sync_chat_leave guild a s = (case Option.bind guild (guild_info_now s) of
     None \<Rightarrow> s
   | Some row \<Rightarrow> (case gd_chat_channel row of
       None \<Rightarrow> s
     | Some c \<Rightarrow> snd (run_chat (chat_leave c a) s)))"

definition sync_chat_join :: "guild_id \<Rightarrow> account_id \<Rightarrow> social \<Rightarrow> social" where
  "sync_chat_join g a s = (case guild_info_now s g of
     None \<Rightarrow> s
   | Some row \<Rightarrow> (case gd_chat_channel row of
       None \<Rightarrow> s
     | Some c \<Rightarrow> snd (run_chat (chat_join c a) s)))"

section \<open>Guild messages\<close>

definition on_guild_create ::
  "guild_schema \<Rightarrow> realm_id \<Rightarrow> guild_id \<Rightarrow> channel_id \<Rightarrow> entity_id \<Rightarrow> account_id \<Rightarrow> string \<Rightarrow> social \<Rightarrow> social" where
  "on_guild_create sch realm fresh fresh_channel e a name s =
     (let (channel, s) = run_chat (create_guild fresh_channel a name) s in
      case run_db (guild_create sch fresh a name realm channel) s of
        (Inr g, s) \<Rightarrow> refresh_guild_rosters (Some g) [a] s
      | (Inl err, s) \<Rightarrow> refuse e (StoreFailed err) s)"

definition on_guild_invite :: "(string \<Rightarrow> entity_id option) \<Rightarrow> entity_id \<Rightarrow> string \<Rightarrow> social \<Rightarrow> social" where
  "on_guild_invite parse_id e target s = (case parse_id target of
     None \<Rightarrow> refuse e (NotAnEntityId target) s
   | Some t \<Rightarrow>
       if t = e then refuse e CannotInviteYourself s
       else if \<not> has_row (rg_entity_accounts (so_regs s)) t then refuse e NotAPlayer s
       else send_to t (GuildInviteReceived e)
         (s\<lparr>so_guild_invites := put_row t e (so_guild_invites s)\<rparr>))"

definition on_guild_response ::
  "guild_schema \<Rightarrow> entity_id \<Rightarrow> account_id \<Rightarrow> bool \<Rightarrow> social \<Rightarrow> social" where
  "on_guild_response sch e a accept s = (case map_of (so_guild_invites s) e of
     None \<Rightarrow> refuse e NoPendingGuildInvite s
   | Some inviter \<Rightarrow>
       let s = s\<lparr>so_guild_invites := del_row e (so_guild_invites s)\<rparr> in
       if \<not> accept then send_to inviter (GuildInviteDeclined e) s
       else (case map_of (rg_entity_accounts (so_regs s)) inviter of
          None \<Rightarrow> refuse e InviterDisconnected s
        | Some inviter_a \<Rightarrow>
            (case run_db (accept_guild_invite sch inviter_a a) s of
               (Inl err, s) \<Rightarrow> refuse e (StoreFailed err) s
             | (Inr g, s) \<Rightarrow>
                 let s = sync_chat_join g a s in
                 refresh_guild_rosters (Some g) (map fst (guild_roster_now s g)) s)))"

definition push_disbanded :: "account_id \<Rightarrow> social \<Rightarrow> social" where
  "push_disbanded a s = (case entity_of_account s a of None \<Rightarrow> s | Some e \<Rightarrow> send_to e GuildDisbanded s)"

definition handle_guild_leave_or_disband ::
  "guild_schema \<Rightarrow> entity_id \<Rightarrow> account_id \<Rightarrow> bool \<Rightarrow> social \<Rightarrow> social" where
  "handle_guild_leave_or_disband sch e a disbands s =
     (let guild_before = guild_now s a;
          members_before = (case guild_before of
            Some g \<Rightarrow> map fst (guild_roster_now s g) | None \<Rightarrow> [])
      in case run_db (if disbands then disband sch a else leave_guild sch a) s of
        (Inl err, s) \<Rightarrow> refuse e (StoreFailed err) s
      | (Inr _, s) \<Rightarrow>
          if disbands then
            let s = fold (sync_chat_leave guild_before) members_before s;
                s = refresh_guild_rosters None members_before s
            in fold push_disbanded members_before s
          else
            let s = sync_chat_leave guild_before a s;
                s = refresh_guild_rosters None [a] s
            in (case guild_before of
                  Some g \<Rightarrow> if guild_info_now s g \<noteq> None
                    then refresh_guild_rosters (Some g) (map fst (guild_roster_now s g)) s else s
                | None \<Rightarrow> s))"

text \<open>\<^verbatim>\<open>resolve_target_account\<close>, followed by \<^verbatim>\<open>continue\<close> when there is none.\<close>

definition with_target_account ::
  "(string \<Rightarrow> entity_id option) \<Rightarrow> entity_id \<Rightarrow> string \<Rightarrow> (account_id \<Rightarrow> social \<Rightarrow> social) \<Rightarrow> social \<Rightarrow> social" where
  "with_target_account parse_id e target k s = (case parse_id target of
     None \<Rightarrow> refuse e (NotAnEntityId target) s
   | Some t \<Rightarrow> (case map_of (rg_entity_accounts (so_regs s)) t of
       None \<Rightarrow> refuse e NotAConnectedPlayer s
     | Some a \<Rightarrow> k a s))"

definition on_guild_kick ::
  "guild_schema \<Rightarrow> (string \<Rightarrow> entity_id option) \<Rightarrow> entity_id \<Rightarrow> account_id \<Rightarrow> string \<Rightarrow> social \<Rightarrow> social" where
  "on_guild_kick sch parse_id e a target = with_target_account parse_id e target (\<lambda>t s.
     let guild_before = guild_now s a in
     case run_db (kick sch a t) s of
       (Inl err, s) \<Rightarrow> refuse e (StoreFailed err) s
     | (Inr _, s) \<Rightarrow>
         let s = sync_chat_leave guild_before t s;
             s = refresh_guild_rosters None [t] s
         in (case guild_before of
               Some g \<Rightarrow> refresh_guild_rosters (Some g) (map fst (guild_roster_now s g)) s
             | None \<Rightarrow> s))"

text \<open>The handlers that end in \<^verbatim>\<open>refresh_after_guild_change\<close>.\<close>

definition then_refresh :: "entity_id \<Rightarrow> account_id \<Rightarrow> unit sql \<Rightarrow> social \<Rightarrow> social" where
  "then_refresh e a m s = (case run_db m s of
     (Inr _, s) \<Rightarrow> refresh_after_guild_change a s
   | (Inl err, s) \<Rightarrow> refuse e (StoreFailed err) s)"

definition on_guild_promote ::
  "guild_schema \<Rightarrow> (string \<Rightarrow> entity_id option) \<Rightarrow> entity_id \<Rightarrow> account_id \<Rightarrow> string \<Rightarrow> string \<Rightarrow> social \<Rightarrow> social" where
  "on_guild_promote sch parse_id e a target rank_key =
     with_target_account parse_id e target (\<lambda>t. then_refresh e a (promote sch a t rank_key))"

definition on_guild_demote ::
  "guild_schema \<Rightarrow> (string \<Rightarrow> entity_id option) \<Rightarrow> entity_id \<Rightarrow> account_id \<Rightarrow> string \<Rightarrow> string \<Rightarrow> social \<Rightarrow> social" where
  "on_guild_demote sch parse_id e a target rank_key =
     with_target_account parse_id e target (\<lambda>t. then_refresh e a (demote sch a t rank_key))"

definition on_guild_set_motd :: "guild_schema \<Rightarrow> entity_id \<Rightarrow> account_id \<Rightarrow> string \<Rightarrow> social \<Rightarrow> social" where
  "on_guild_set_motd sch e a motd = then_refresh e a (set_motd sch a (if motd = [] then None else Some motd))"

definition on_guild_set_tag :: "guild_schema \<Rightarrow> entity_id \<Rightarrow> account_id \<Rightarrow> string \<Rightarrow> social \<Rightarrow> social" where
  "on_guild_set_tag sch e a tag = then_refresh e a (set_tag sch a (if tag = [] then None else Some tag))"

end
