(* ===== verification/SocialViews.thy ===== *)
theory SocialViews
  imports SocialSession
begin

text \<open>
  What the clients see of their party and their guild. A client shows the latest update it was sent;
  the locale \<open>roster_view\<close> says when pushing updates keeps every connected client's view equal to
  the current roster, and is interpreted by the party rosters (seen per character) and the guild
  rosters (per account). The handlers of \<open>SocialSession\<close> keep both views current.
\<close>

section \<open>The latest update\<close>

definition latest :: "(social_push \<Rightarrow> 'v option) \<Rightarrow> (entity_id \<times> social_push) list \<Rightarrow> entity_id \<Rightarrow> 'v option" where
  "latest sel out e = fold (\<lambda>(e', m) v. if e' = e \<and> sel m \<noteq> None then sel m else v) out None"

lemma latest_Nil [simp]: "latest sel [] e = None"
  by (simp add: latest_def)

lemma latest_snoc [simp]:
  "latest sel (out @ [(e', m)]) e = (if e' = e \<and> sel m \<noteq> None then sel m else latest sel out e)"
  by (cases "sel m") (simp_all add: latest_def)

lemma latest_append:
  "latest sel (out @ out') e = (case latest sel out' e of None \<Rightarrow> latest sel out e | Some v \<Rightarrow> Some v)"
proof (induction out' rule: rev_induct)
  case (snoc x out')
  then show ?case by (cases x; cases "sel (snd x)") (simp_all flip: append_assoc)
qed simp

definition views_current ::
  "(social_push \<Rightarrow> 'v option) \<Rightarrow> 'v \<Rightarrow> (registries \<Rightarrow> 'm \<Rightarrow> entity_id option)
   \<Rightarrow> (db \<Rightarrow> registries \<Rightarrow> 'm \<Rightarrow> 'v) \<Rightarrow> social \<Rightarrow> bool" where
  "views_current sel nothing ent_of view s \<longleftrightarrow>
     (\<forall>m e. ent_of (so_regs s) m = Some e \<longrightarrow> e \<in> set (rg_sessions (so_regs s)) \<longrightarrow>
       (case latest sel (so_out s) e of None \<Rightarrow> nothing | Some v \<Rightarrow> v) = view (so_db s) (so_regs s) m)"

definition push_one ::
  "('v \<Rightarrow> social_push) \<Rightarrow> (registries \<Rightarrow> 'm \<Rightarrow> entity_id option) \<Rightarrow> 'm \<times> 'v \<Rightarrow> social \<Rightarrow> social" where
  "push_one upd ent_of p s = (case ent_of (so_regs s) (fst p) of None \<Rightarrow> s | Some e \<Rightarrow> send_to e (upd (snd p)) s)"

definition pushed ::
  "('v \<Rightarrow> social_push) \<Rightarrow> (registries \<Rightarrow> 'm \<Rightarrow> entity_id option) \<Rightarrow> registries \<Rightarrow> ('m \<times> 'v) list
   \<Rightarrow> (entity_id \<times> social_push) list" where
  "pushed upd ent_of regs ps = List.map_filter (\<lambda>(m, v). case ent_of regs m of None \<Rightarrow> None
     | Some e \<Rightarrow> if e \<in> set (rg_sessions regs) then Some (e, upd v) else None) ps"

lemma push_all: "fold (push_one upd ent_of) ps s = s\<lparr>so_out := so_out s @ pushed upd ent_of (so_regs s) ps\<rparr>"
proof (induction ps arbitrary: s)
  case (Cons p ps)
  have one: "push_one upd ent_of p s = s\<lparr>so_out := so_out s @ pushed upd ent_of (so_regs s) [p]\<rparr>"
    by (cases p) (auto simp: push_one_def pushed_def map_filter_simps send_to_def send_world_def
        split: option.split)
  have cons: "pushed upd ent_of regs (p # ps) = pushed upd ent_of regs [p] @ pushed upd ent_of regs ps" for regs
    by (simp add: pushed_def map_filter_def)
  show ?case unfolding fold_Cons comp_apply one Cons.IH cons [of "so_regs s"] by simp
qed (simp add: pushed_def map_filter_simps)

definition injective_entities :: "(registries \<Rightarrow> 'm \<Rightarrow> entity_id option) \<Rightarrow> registries \<Rightarrow> bool" where
  "injective_entities ent_of regs \<longleftrightarrow> (\<forall>m m' e. ent_of regs m = Some e \<longrightarrow> ent_of regs m' = Some e \<longrightarrow> m = m')"

text \<open>
  The interface of a kind of update: reading back what was pushed. \<open>view\<close> is the value a member
  should see, of the database and of who is connected.
\<close>

locale roster_view =
  fixes sel :: "social_push \<Rightarrow> 'v option"
    and upd :: "'p \<Rightarrow> social_push"
    and reading :: "'p \<Rightarrow> 'v"
    and nothing :: 'v
    and ent_of :: "registries \<Rightarrow> 'm \<Rightarrow> entity_id option"
    and view :: "db \<Rightarrow> registries \<Rightarrow> 'm \<Rightarrow> 'v"
  assumes sel_upd: "sel (upd p) = Some (reading p)"
begin

lemma latest_pushed:
  assumes inj: "injective_entities ent_of regs" and m: "ent_of regs m = Some e" "e \<in> set (rg_sessions regs)"
    and c: "\<And>v. (m, v) \<in> set ps \<Longrightarrow> reading v = c"
  shows "latest sel (pushed upd ent_of regs ps) e = (if m \<in> fst ` set ps then Some c else None)"
  using c
proof (induction ps rule: rev_induct)
  case (snoc p ps)
  obtain m' v where p: "p = (m', v)" by force
  have IH: "latest sel (pushed upd ent_of regs ps) e = (if m \<in> fst ` set ps then Some c else None)"
    using snoc by simp
  have split: "pushed upd ent_of regs (ps @ [p]) = pushed upd ent_of regs ps @ pushed upd ent_of regs [p]"
    by (simp add: pushed_def map_filter_def)
  show ?case
  proof (cases "m' = m")
    case True
    then have "pushed upd ent_of regs [p] = [(e, upd v)]" "reading v = c"
      using m p snoc.prems by (auto simp: pushed_def map_filter_simps)
    then show ?thesis using split by (simp add: sel_upd p True)
  next
    case False
    then have "e' \<noteq> e" if "ent_of regs m' = Some e'" for e'
      using inj m(1) that unfolding injective_entities_def by blast
    then have "latest sel (pushed upd ent_of regs [p]) e = None"
      by (auto simp: p pushed_def map_filter_simps latest_def split: option.split)
    then show ?thesis using split IH False by (simp add: latest_append p)
  qed
qed (simp add: pushed_def map_filter_simps)

text \<open>
  After a change that announced nothing of this kind, pushing the new values to everyone whose
  value changed makes the views current again.
\<close>

lemma refreshed:
  assumes before: "views_current sel nothing ent_of view s0" and inj: "injective_entities ent_of (so_regs s0)"
    and same: "so_regs s = so_regs s0"
    and out: "so_out s = so_out s0 @ quiet" "\<And>e. latest sel quiet e = None"
    and cover: "\<And>m v. (m, v) \<in> set ps \<Longrightarrow> reading v = view (so_db s) (so_regs s0) m"
    and rest: "\<And>m. m \<notin> fst ` set ps \<Longrightarrow> view (so_db s) (so_regs s0) m = view (so_db s0) (so_regs s0) m"
  shows "views_current sel nothing ent_of view (fold (push_one upd ent_of) ps s)"
  unfolding views_current_def
proof (intro allI impI)
  let ?s = "fold (push_one upd ent_of) ps s" and ?new = "view (so_db s) (so_regs s0)"
  fix m e assume m: "ent_of (so_regs ?s) m = Some e" "e \<in> set (rg_sessions (so_regs ?s))"
  then have m0: "ent_of (so_regs s0) m = Some e" "e \<in> set (rg_sessions (so_regs s0))"
    by (simp_all add: push_all same)
  have out': "so_out ?s = (so_out s0 @ quiet) @ pushed upd ent_of (so_regs s0) ps"
    by (simp add: push_all out(1) same)
  have lp: "latest sel (pushed upd ent_of (so_regs s0) ps) e = (if m \<in> fst ` set ps then Some (?new m) else None)"
    using latest_pushed [OF inj m0] cover by blast
  have "view (so_db ?s) (so_regs ?s) = ?new" by (simp add: push_all same)
  moreover have "(case latest sel (so_out s0) e of None \<Rightarrow> nothing | Some v \<Rightarrow> v) = view (so_db s0) (so_regs s0) m"
    using before m0 unfolding views_current_def by blast
  ultimately show "(case latest sel (so_out ?s) e of None \<Rightarrow> nothing | Some v \<Rightarrow> v) = view (so_db ?s) (so_regs ?s) m"
    unfolding out' latest_append [where out = "so_out s0 @ quiet"] lp
    using rest [of m] by (simp add: latest_append out(2))
qed

text \<open>Messages of other kinds change nothing.\<close>

lemma quiet_step:
  assumes "views_current sel nothing ent_of view s0" "so_regs s = so_regs s0"
    and "\<And>m. view (so_db s) (so_regs s0) m = view (so_db s0) (so_regs s0) m"
    and "so_out s = so_out s0 @ quiet" "\<And>e. latest sel quiet e = None"
  shows "views_current sel nothing ent_of view s"
  using assms(1) by (simp add: views_current_def assms(2-) latest_append)

end

section \<open>Party and guild views\<close>

fun party_sel :: "social_push \<Rightarrow> entity_id set option" where
  "party_sel (PartyUpdate es) = Some (set es)"
| "party_sel _ = None"

definition party_entity :: "registries \<Rightarrow> character_id \<Rightarrow> entity_id option" where
  "party_entity regs ch = map_of (rg_character_entities regs) ch"

text \<open>The connected fellow members.\<close>

definition party_view :: "db \<Rightarrow> registries \<Rightarrow> character_id \<Rightarrow> entity_id set" where
  "party_view db regs ch = {e. \<exists>m p. m \<noteq> ch \<and> map_of (party_members db) ch = Some p
     \<and> map_of (party_members db) m = Some p \<and> party_entity regs m = Some e}"

type_synonym guild_picture =
  "guild_id \<times> string \<times> string \<times> string \<times> (entity_id option \<times> string) set"

definition picture :: "guild_snapshot option \<Rightarrow> guild_picture option" where
  "picture = map_option (\<lambda>s. (gsn_id s, gsn_name s, gsn_motd s, gsn_tag s, set (gsn_members s)))"

fun guild_sel :: "social_push \<Rightarrow> guild_picture option option" where
  "guild_sel (GuildUpdate s) = Some (picture s)"
| "guild_sel _ = None"

definition guild_entity :: "registries \<Rightarrow> account_id \<Rightarrow> entity_id option" where
  "guild_entity regs a = map_of (rg_account_entities regs) a"

definition text_of :: "string option \<Rightarrow> string" where
  "text_of t = (case t of None \<Rightarrow> '''' | Some x \<Rightarrow> x)"

text \<open>The guild with all its members, each with its rank and its entity while it is connected.\<close>

definition guild_seen :: "db \<Rightarrow> registries \<Rightarrow> guild_id \<Rightarrow> guild_picture option" where
  "guild_seen db regs g = map_option (\<lambda>row. (g, gd_name row, text_of (gd_motd row), text_of (gd_tag row),
     {(guild_entity regs m, k) | m k. member db m = Some (g, k)})) (map_of (guilds db) g)"

definition guild_view :: "db \<Rightarrow> registries \<Rightarrow> account_id \<Rightarrow> guild_picture option" where
  "guild_view db regs a = Option.bind (member db a) (\<lambda>(g, _). guild_seen db regs g)"

interpretation party_updates: roster_view party_sel PartyUpdate set "{}" party_entity party_view
  by unfold_locales simp

interpretation guild_updates: roster_view guild_sel GuildUpdate picture None guild_entity guild_view
  by unfold_locales simp

abbreviation party_views_current :: "social \<Rightarrow> bool" where
  "party_views_current \<equiv> views_current party_sel {} party_entity party_view"

abbreviation guild_views_current :: "social \<Rightarrow> bool" where
  "guild_views_current \<equiv> views_current guild_sel None guild_entity guild_view"

section \<open>Steps that only send\<close>

definition adds :: "(social_push \<Rightarrow> bool) \<Rightarrow> social \<Rightarrow> social \<Rightarrow> bool" where
  "adds P s s' \<longleftrightarrow> so_regs s' = so_regs s \<and> (\<exists>out. so_out s' = so_out s @ out \<and> (\<forall>p \<in> set out. P (snd p)))"

lemma addsI: "so_regs s' = so_regs s \<Longrightarrow> so_out s' = so_out s \<Longrightarrow> adds P s s'"
  by (simp add: adds_def)

lemma adds_trans: "adds P s t \<Longrightarrow> adds P t u \<Longrightarrow> adds P s u"
  unfolding adds_def by (metis append.assoc in_set_conv_decomp set_append Un_iff)

lemma adds_send: "P m \<Longrightarrow> adds P s (send_world e m s)" "P m \<Longrightarrow> adds P s (send_to e m s)"
  "P (SocialRefused r) \<Longrightarrow> adds P s (refuse e r s)"
  by (auto simp: adds_def send_world_def send_to_def refuse_def)

lemma adds_push: "(\<And>v. P (upd v)) \<Longrightarrow> adds P s (fold (push_one upd ent_of) ps s)"
  unfolding push_all by (auto simp: adds_def pushed_def map_filter_def split: option.splits if_splits)

lemma sends_frame [simp]:
  "so_db (send_world e m s) = so_db s" "so_db (send_to e m s) = so_db s" "so_db (refuse e r s) = so_db s"
  "so_chat (send_world e m s) = so_chat s" "so_chat (send_to e m s) = so_chat s" "so_chat (refuse e r s) = so_chat s"
  "so_regs (send_world e m s) = so_regs s" "so_regs (send_to e m s) = so_regs s" "so_regs (refuse e r s) = so_regs s"
  by (simp_all add: send_world_def send_to_def refuse_def)

lemma push_one_frame [simp]:
  "so_db (fold (push_one upd ent_of) ps s) = so_db s" "so_chat (fold (push_one upd ent_of) ps s) = so_chat s"
  "so_regs (fold (push_one upd ent_of) ps s) = so_regs s"
  by (simp_all add: push_all)

lemma latest_none: "(\<And>p. p \<in> set out \<Longrightarrow> sel (snd p) = None) \<Longrightarrow> latest sel out e = None"
proof (induction out rule: rev_induct)
  case (snoc x out)
  obtain e' m where "x = (e', m)" by force
  moreover have "sel (snd x) = None" "latest sel out e = None"
    using snoc.prems [of x] snoc.IH snoc.prems by simp_all
  ultimately show ?case by simp
qed simp

text \<open>The two kinds of step a view survives.\<close>

lemma views_keep:
  assumes "views_current sel nothing ent_of view s0" "adds (\<lambda>m. sel m = None) s0 s"
    and "\<And>m. view (so_db s) (so_regs s0) m = view (so_db s0) (so_regs s0) m"
  shows "views_current sel nothing ent_of view s"
proof -
  obtain quiet where q: "so_regs s = so_regs s0" "so_out s = so_out s0 @ quiet" "\<forall>p \<in> set quiet. sel (snd p) = None"
    using assms(2) by (auto simp: adds_def)
  then have "latest sel (so_out s) e = latest sel (so_out s0) e" for e
    using latest_none [of quiet sel] by (simp add: latest_append)
  then show ?thesis using assms(1,3) q(1) by (simp add: views_current_def)
qed

section \<open>The rosters a handler reads\<close>

lemma party_members_now_set:
  assumes "keys_unique (party_members (so_db s))"
  shows "set (party_members_now s ch) = {m. m \<noteq> ch \<and> (\<exists>p. map_of (party_members (so_db s)) ch = Some p
    \<and> map_of (party_members (so_db s)) m = Some p)}"
proof (cases "map_of (party_members (so_db s)) ch")
  case (Some p)
  have "set (map fst (rows_where (\<lambda>k v. v = p \<and> k \<noteq> ch) (party_members (so_db s))))
      = {m. m \<noteq> ch \<and> map_of (party_members (so_db s)) m = Some p}"
    using assms by (force simp: rows_where_def dest: in_set_map_of map_of_in_set)
  then show ?thesis using Some by (simp add: party_members_now_def members_of_def)
qed (simp add: party_members_now_def members_of_def)

lemma map_filter_set: "set (List.map_filter f xs) = {y. \<exists>x \<in> set xs. f x = Some y}"
  by (auto simp: map_filter_def image_iff) force

lemma party_update_reads:
  assumes "keys_unique (party_members (so_db s))"
  shows "set (List.map_filter (entity_of_character s) (party_members_now s ch)) = party_view (so_db s) (so_regs s) ch"
  unfolding map_filter_set party_members_now_set [OF assms]
  by (auto simp: party_view_def party_entity_def entity_of_character_def)

definition party_pairs :: "character_id list \<Rightarrow> social \<Rightarrow> (character_id \<times> entity_id list) list" where
  "party_pairs interested s =
     map (\<lambda>ch. (ch, List.map_filter (entity_of_character s) (party_members_now s ch))) interested"

lemma refresh_party_pushes:
  "refresh_party_rosters interested s = fold (push_one PartyUpdate party_entity) (party_pairs interested s) s"
proof -
  have "fold refresh_party_one interested t = fold (push_one PartyUpdate party_entity) (party_pairs interested s) t"
    if "so_db t = so_db s" "so_regs t = so_regs s" for t
    using that
  proof (induction interested arbitrary: t)
    case (Cons ch chs)
    have one: "refresh_party_one ch t = push_one PartyUpdate party_entity
        (ch, List.map_filter (entity_of_character s) (party_members_now s ch)) t"
      using Cons.prems by (simp add: refresh_party_one_def push_one_def entity_of_character_def [abs_def]
          party_entity_def party_members_now_def cong: option.case_cong)
    have "so_db (refresh_party_one ch t) = so_db t" "so_regs (refresh_party_one ch t) = so_regs t"
      by (simp_all add: refresh_party_one_def split: option.split)
    then show ?case using Cons.IH [of "refresh_party_one ch t"] Cons.prems
      by (simp add: party_pairs_def one)
  qed (simp add: party_pairs_def)
  then show ?thesis by (simp add: refresh_party_rosters_def)
qed

lemma guild_roster_now_set:
  assumes "keys_unique (guild_members (so_db s))"
  shows "set (guild_roster_now s g) = {(a, k). member (so_db s) a = Some (g, k)}"
  using assms by (force simp: guild_roster_now_def guild_members_of_def rows_where_def image_iff
      dest: in_set_map_of map_of_in_set)

lemma guild_now_eq: "guild_now s a = map_option fst (member (so_db s) a)"
  by (simp add: guild_now_def guild_of_def membership_def)

lemma guild_info_now_eq: "guild_info_now s g = map_of (guilds (so_db s)) g"
  by (simp add: guild_info_now_def guild_info_def split: option.split)

lemma snapshot_reads:
  assumes "keys_unique (guild_members (so_db s))"
  shows "picture (snapshot_guild s (Some g)) = guild_seen (so_db s) (so_regs s) g"
proof (cases "map_of (guilds (so_db s)) g")
  case (Some row)
  have "set (map (\<lambda>(a, rank_key). (entity_of_account s a, rank_key)) (guild_roster_now s g))
      = {(guild_entity (so_regs s) m, k) | m k. member (so_db s) m = Some (g, k)}"
    using guild_roster_now_set [OF assms, of g]
    by (auto simp: guild_entity_def entity_of_account_def image_iff)
  then show ?thesis using Some
    by (simp add: snapshot_guild_def guild_info_now_eq picture_def guild_seen_def text_of_def)
qed (simp add: snapshot_guild_def guild_info_now_eq picture_def guild_seen_def)

lemma refresh_guild_pushes:
  "refresh_guild_rosters guild interested s =
     fold (push_one GuildUpdate guild_entity) (map (\<lambda>a. (a, snapshot_guild s guild)) interested) s"
proof -
  have "fold (refresh_guild_one snap) interested t
      = fold (push_one GuildUpdate guild_entity) (map (\<lambda>a. (a, snap)) interested) t" for snap t
    by (induction interested arbitrary: t)
      (simp_all add: refresh_guild_one_def push_one_def guild_entity_def entity_of_account_def cong: option.case_cong)
  then show ?thesis by (simp add: refresh_guild_rosters_def)
qed

section \<open>Parties\<close>

text \<open>A change within one party is invisible to everyone outside it.\<close>

lemma party_view_frame:
  assumes "\<And>x q. q \<noteq> p \<Longrightarrow> map_of (party_members db') x = Some q \<longleftrightarrow> map_of (party_members db) x = Some q"
    and "map_of (party_members db) m \<noteq> Some p" "map_of (party_members db') m \<noteq> Some p"
  shows "party_view db' regs m = party_view db regs m"
proof -
  have "map_of (party_members db') m = map_of (party_members db) m"
    using assms by (metis option.exhaust)
  then show ?thesis using assms(1,2) unfolding party_view_def by (metis (no_types, lifting))
qed

text \<open>What the two operations do to the memberships, and that they leave the guild tables alone.\<close>

lemma accept_within_party:
  assumes wf: "db_wf db" and run: "accept_party_invite sch fresh inviter invitee requested db = (Inr p, db')"
  shows "map_of (party_members db') invitee = Some p"
    and "q \<noteq> p \<Longrightarrow> map_of (party_members db') x = Some q \<longleftrightarrow> map_of (party_members db) x = Some q"
    and "map_of (party_members db) x = Some p \<Longrightarrow> map_of (party_members db') x = Some p"
proof -
  obtain type_key sz d1 where
    1: "found_or_find_party sch fresh inviter requested db = (Inr (p, type_key, sz), d1)"
    using run by (auto simp: accept_party_invite_def andThen_Inr party_of_def simp del: guard_steps
        split: option.splits if_splits)
  have "map_of (party_members db) inviter = Some p" if "map_of (party_members db) inviter = Some q" for q
  proof -
    from db_wf_member [OF wf that] obtain k where "map_of (parties db) q = Some k" by (auto simp: has_row_def)
    with 1 that show ?thesis by (simp add: found_or_find_party_def)
  qed
  moreover have eff: "map_of (party_members db) invitee = None"
    "map_of (party_members db') = (map_of (party_members db))(inviter \<mapsto> p, invitee \<mapsto> p)"
    using party_roster_effect [OF wf] run by fastforce+
  ultimately show "map_of (party_members db') invitee = Some p"
    "q \<noteq> p \<Longrightarrow> map_of (party_members db') x = Some q \<longleftrightarrow> map_of (party_members db) x = Some q"
    "map_of (party_members db) x = Some p \<Longrightarrow> map_of (party_members db') x = Some p"
    by (auto split: if_splits)
qed

lemma leave_within_party:
  assumes wf: "db_wf db" and run: "leave_party c db = (Inr u, db')"
  shows "\<exists>p. map_of (party_members db) c = Some p
    \<and> (\<forall>x q. q \<noteq> p \<longrightarrow> (map_of (party_members db') x = Some q \<longleftrightarrow> map_of (party_members db) x = Some q))
    \<and> (\<forall>x. map_of (party_members db') x = Some p \<longrightarrow> map_of (party_members db) x = Some p)"
proof -
  obtain p where "map_of (party_members db) c = Some p" "map_of (party_members db') = (\<lambda>m. if m = c \<or> (party_size db p < 3
              \<and> map_of (party_members db) m = Some p) then None else map_of (party_members db) m)"
    using party_roster_effect [OF wf] run by fastforce
  then show ?thesis by (intro exI [of _ p]) (auto split: if_splits)
qed

definition guild_tables :: "db \<Rightarrow> (guild_id, guild_row) table \<times> (account_id, guild_id \<times> string) table" where
  "guild_tables db = (guilds db, guild_members db)"

lemma party_ops_spare_guilds [pres_intros]:
  "preserves (\<lambda>db. guild_tables db = t) (accept_party_invite sch fresh inviter invitee requested)"
  "preserves (\<lambda>db. guild_tables db = t) (leave_party c)"
proof -
  have [pres_intros]: "preserves (\<lambda>db. guild_tables db = t) (insert_party p k)"
    "preserves (\<lambda>db. guild_tables db = t) (insert_party_member p c)"
    "preserves (\<lambda>db. guild_tables db = t) (delete_party p)"
    "preserves (\<lambda>db. guild_tables db = t) (delete_party_member p c)" for p k c
    by (auto intro!: preservesI simp: guild_tables_def insert_party_def insert_party_member_def
        delete_party_def delete_party_member_def split: if_splits)
  show "preserves (\<lambda>db. guild_tables db = t) (accept_party_invite sch fresh inviter invitee requested)"
    unfolding accept_party_invite_def found_or_find_party_def party_of_def by (intro pres_intros)
  show "preserves (\<lambda>db. guild_tables db = t) (leave_party c)"
    unfolding leave_party_def party_of_def by (intro pres_intros)
qed

lemma guild_view_frame: "guild_tables db' = guild_tables db \<Longrightarrow> guild_view db' regs a = guild_view db regs a"
  by (simp add: guild_tables_def guild_view_def guild_seen_def)

text \<open>
  The state a handler reaches before it sends anything: the connections, and what was sent, as they
  were. \<open>touched\<close> also allows the pending invites and the chat channels to have changed.
\<close>

definition touched :: "social \<Rightarrow> social \<Rightarrow> bool" where
  "touched s s' \<longleftrightarrow> so_regs s' = so_regs s \<and> so_out s' = so_out s"

lemma run_db_touched: "run_db m s = (r, s') \<Longrightarrow> touched s s' \<and> m (so_db s) = (r, so_db s') \<and> so_chat s' = so_chat s"
  by (auto simp: run_db_def touched_def split: prod.splits)

lemma touched_trans: "touched s t \<Longrightarrow> touched t u \<Longrightarrow> touched s u"
  by (simp add: touched_def)

lemma touched_adds: "touched s t \<Longrightarrow> adds P t u \<Longrightarrow> adds P s u"
  by (simp add: touched_def adds_def)

abbreviation party_entities_unique :: "social \<Rightarrow> bool" where
  "party_entities_unique s \<equiv> injective_entities party_entity (so_regs s)"

abbreviation guild_entities_unique :: "social \<Rightarrow> bool" where
  "guild_entities_unique s \<equiv> injective_entities guild_entity (so_regs s)"

text \<open>Refreshing everyone in the party before or after a change within it makes the views current.\<close>

lemma party_refreshed:
  assumes views: "party_views_current s" and inj: "party_entities_unique s" and wf: "db_wf (so_db t)"
    and t: "touched s t"
    and frame: "\<And>x q. q \<noteq> p \<Longrightarrow> map_of (party_members (so_db t)) x = Some q \<longleftrightarrow> map_of (party_members (so_db s)) x = Some q"
    and all: "\<And>x. map_of (party_members (so_db t)) x = Some p \<or> map_of (party_members (so_db s)) x = Some p
      \<Longrightarrow> x \<in> set interested"
  shows "party_views_current (refresh_party_rosters interested t)"
  unfolding refresh_party_pushes
proof (rule party_updates.refreshed [OF views inj, where quiet = "[]"])
  show "so_regs t = so_regs s" "so_out t = so_out s @ []" using t by (simp_all add: touched_def)
  show "set v = party_view (so_db t) (so_regs s) m" if "(m, v) \<in> set (party_pairs interested t)" for m v
    using that party_update_reads [OF db_wf_unique(9) [OF wf], of m] t
    by (auto simp: party_pairs_def touched_def)
  fix m assume "m \<notin> fst ` set (party_pairs interested t)"
  then have "m \<notin> set interested" by (auto simp: party_pairs_def image_iff)
  then show "party_view (so_db t) (so_regs s) m = party_view (so_db s) (so_regs s) m"
    using all [of m] by (intro party_view_frame [OF frame, where p = p]) auto
qed simp

lemma refresh_party_adds: "(\<And>es. P (PartyUpdate es)) \<Longrightarrow> adds P s (refresh_party_rosters interested s)"
  unfolding refresh_party_pushes by (rule adds_push)

lemma refresh_party_frame [simp]:
  "so_db (refresh_party_rosters interested s) = so_db s" "so_chat (refresh_party_rosters interested s) = so_chat s"
  "so_regs (refresh_party_rosters interested s) = so_regs s"
  unfolding refresh_party_pushes by simp_all

definition views_ok :: "social \<Rightarrow> bool" where
  "views_ok s \<longleftrightarrow> db_wf (so_db s) \<and> party_entities_unique s \<and> guild_entities_unique s
     \<and> party_views_current s \<and> guild_views_current s"

text \<open>A step that sends messages of no roster, and one that changes nothing but a party.\<close>

lemma views_ok_quiet:
  assumes "views_ok s" "so_db s' = so_db s" "adds (\<lambda>m. party_sel m = None \<and> guild_sel m = None) s s'"
  shows "views_ok s'"
proof -
  have a: "adds (\<lambda>m. party_sel m = None) s s'" "adds (\<lambda>m. guild_sel m = None) s s'" "so_regs s' = so_regs s"
    using assms(3) by (auto simp: adds_def)
  have "party_views_current s'" using assms(1,2) by (intro views_keep [OF _ a(1)]) (simp_all add: views_ok_def)
  moreover have "guild_views_current s'" using assms(1,2) by (intro views_keep [OF _ a(2)]) (simp_all add: views_ok_def)
  ultimately show ?thesis using assms(1,2) a(3) by (simp add: views_ok_def)
qed

lemma views_ok_party:
  assumes ok: "views_ok s" and wf: "db_wf (so_db t)" and t: "touched s t" and g: "guild_tables (so_db t) = guild_tables (so_db s)"
    and "\<And>x q. q \<noteq> p \<Longrightarrow> map_of (party_members (so_db t)) x = Some q \<longleftrightarrow> map_of (party_members (so_db s)) x = Some q"
    and "\<And>x. map_of (party_members (so_db t)) x = Some p \<or> map_of (party_members (so_db s)) x = Some p
      \<Longrightarrow> x \<in> set interested"
  shows "views_ok (refresh_party_rosters interested t)"
proof -
  have "party_views_current (refresh_party_rosters interested t)"
    using ok by (intro party_refreshed [OF _ _ wf t assms(5,6)]) (simp_all add: views_ok_def)
  moreover have "guild_views_current (refresh_party_rosters interested t)"
  proof (rule views_keep)
    show "guild_views_current s" using ok by (simp add: views_ok_def)
    show "adds (\<lambda>m. guild_sel m = None) s (refresh_party_rosters interested t)"
      by (rule touched_adds [OF t refresh_party_adds]) simp
  qed (simp add: guild_view_frame [OF g])
  ultimately show ?thesis using ok wf t by (simp add: views_ok_def touched_def)
qed

lemma party_members_now_frame: "so_db s' = so_db s \<Longrightarrow> party_members_now s' ch = party_members_now s ch"
  by (simp add: party_members_now_def)

lemma on_party_response_views:
  assumes ok: "views_ok s"
  shows "views_ok (on_party_response sch fresh e ch accept s)"
proof (cases "map_of (so_party_invites s) e")
  case None
  then show ?thesis
    by (auto simp: on_party_response_def intro!: views_ok_quiet [OF ok] adds_send)
next
  case (Some inv)
  obtain inviter ty where inv: "inv = (inviter, ty)" by force
  let ?s = "s\<lparr>so_party_invites := del_row e (so_party_invites s)\<rparr>"
  have ok1: "views_ok ?s" by (rule views_ok_quiet [OF ok]) (simp_all add: addsI)
  show ?thesis
  proof (cases "accept \<and> map_of (rg_entity_characters (so_regs s)) inviter \<noteq> None")
    case False
    then show ?thesis using Some
      by (auto simp: on_party_response_def inv Let_def split: option.split intro!: views_ok_quiet [OF ok1] adds_send)
  next
    case True
    then obtain inviter_ch where ich: "map_of (rg_entity_characters (so_regs s)) inviter = Some inviter_ch" by auto
    obtain r t where run: "run_db (accept_party_invite sch fresh inviter_ch ch ty) ?s = (r, t)" by force
    have t: "touched ?s t" "accept_party_invite sch fresh inviter_ch ch ty (so_db s) = (r, so_db t)"
      using run_db_touched [OF run] by simp_all
    have wf: "db_wf (so_db s)" "db_wf (so_db t)" "guild_tables (so_db t) = guild_tables (so_db s)"
      using ok t(2) preservesD [OF pres_accept_party_invite _ t(2)]
        preservesD [OF party_ops_spare_guilds(1) refl t(2)] by (auto simp: views_ok_def)
    show ?thesis
    proof (cases r)
      case (Inl err)
      then have "so_db t = so_db s" using party_roster_effect [OF wf(1)] t(2) by fastforce
      then have "views_ok t" using t(1) by (intro views_ok_quiet [OF ok1]) (auto simp: touched_def intro: addsI)
      then show ?thesis
        using Some True ich run Inl by (auto simp: on_party_response_def inv intro!: views_ok_quiet [OF \<open>views_ok t\<close>] adds_send)
    next
      case (Inr p)
      note within = accept_within_party [OF wf(1) t(2) [unfolded Inr]]
      let ?int = "party_members_now t ch @ [ch]"
      have "views_ok (refresh_party_rosters ?int t)"
      proof (rule views_ok_party [OF ok1 wf(2) t(1), where p = p])
        show "guild_tables (so_db t) = guild_tables (so_db ?s)" using wf(3) by simp
        show "x \<in> set ?int" if "map_of (party_members (so_db t)) x = Some p \<or> map_of (party_members (so_db ?s)) x = Some p" for x
          using that within(1,3) party_members_now_set [OF db_wf_unique(9) [OF wf(2)], of ch] by auto
      qed (use within(2) in simp)
      from views_ok_quiet [OF this, of "send_world e (LayerMove inviter) (refresh_party_rosters ?int t)"]
      have "views_ok (send_world e (LayerMove inviter) (refresh_party_rosters ?int t))" by (simp add: adds_send)
      then show ?thesis using Some True ich run Inr by (simp add: on_party_response_def inv Let_def)
    qed
  qed
qed

lemma on_party_leave_views:
  assumes ok: "views_ok s"
  shows "views_ok (on_party_leave e ch s)"
proof -
  obtain r t where run: "run_db (leave_party ch) s = (r, t)" by force
  have t: "touched s t" "leave_party ch (so_db s) = (r, so_db t)" using run_db_touched [OF run] by simp_all
  have wf: "db_wf (so_db s)" "db_wf (so_db t)" "guild_tables (so_db t) = guild_tables (so_db s)"
    using ok t(2) preservesD [OF pres_leave_party _ t(2)]
      preservesD [OF party_ops_spare_guilds(2) refl t(2)] by (auto simp: views_ok_def)
  show ?thesis
  proof (cases r)
    case (Inl err)
    then have "so_db t = so_db s" using party_roster_effect [OF wf(1)] t(2) by fastforce
    then have "views_ok t" using t(1) by (intro views_ok_quiet [OF ok]) (auto simp: touched_def intro: addsI)
    then show ?thesis
      using run Inl by (auto simp: on_party_leave_def Let_def intro!: views_ok_quiet [OF \<open>views_ok t\<close>] adds_send)
  next
    case (Inr u)
    obtain p where p: "map_of (party_members (so_db s)) ch = Some p"
      "\<forall>x q. q \<noteq> p \<longrightarrow> (map_of (party_members (so_db t)) x = Some q \<longleftrightarrow> map_of (party_members (so_db s)) x = Some q)"
      "\<forall>x. map_of (party_members (so_db t)) x = Some p \<longrightarrow> map_of (party_members (so_db s)) x = Some p"
      using leave_within_party [OF wf(1) t(2) [unfolded Inr]] by blast
    have "views_ok (refresh_party_rosters (party_members_now s ch @ [ch]) t)"
    proof (rule views_ok_party [OF ok wf(2) t(1) wf(3), where p = p])
      show "x \<in> set (party_members_now s ch @ [ch])"
        if "map_of (party_members (so_db t)) x = Some p \<or> map_of (party_members (so_db s)) x = Some p" for x
        using that p(1,3) party_members_now_set [OF db_wf_unique(9) [OF wf(1)], of ch] by auto
    qed (use p(2) in blast)
    then show ?thesis using run Inr by (simp add: on_party_leave_def Let_def)
  qed
qed

end
