(* ===== verification/GuildViews.thy ===== *)
theory GuildViews
  imports SocialViews
begin

text \<open>
  The guild messages of \<open>SocialSession\<close>: each change of a guild is seen at once by exactly the
  connected accounts it concerns, and the guild's chat channel has the guild's members. Together with
  the party messages of \<open>SocialViews\<close>, over every sequence of messages.
\<close>

section \<open>Changes within one guild\<close>

definition within_guild :: "guild_id \<Rightarrow> db \<Rightarrow> db \<Rightarrow> bool" where
  "within_guild g db db' \<longleftrightarrow>
     (\<forall>x g' k. g' \<noteq> g \<longrightarrow> (member db' x = Some (g', k) \<longleftrightarrow> member db x = Some (g', k)))
   \<and> (\<forall>g'. g' \<noteq> g \<longrightarrow> map_of (guilds db') g' = map_of (guilds db) g')"

definition in_guild :: "db \<Rightarrow> guild_id \<Rightarrow> account_id \<Rightarrow> bool" where
  "in_guild db g a \<longleftrightarrow> map_option fst (member db a) = Some g"

lemma within_guild_refl [simp]: "within_guild g db db"
  by (simp add: within_guild_def)

lemma within_guild_view:
  assumes "within_guild g db db'" "\<not> in_guild db g m" "\<not> in_guild db' g m"
  shows "guild_view db' regs m = guild_view db regs m"
proof -
  have iff: "member db' m = Some (g', k) \<longleftrightarrow> member db m = Some (g', k)" for g' k
    using assms by (cases "g' = g") (auto simp: within_guild_def in_guild_def)
  have "member db' m = member db m"
  proof (cases "member db' m")
    case None
    then show ?thesis using iff by (cases "member db m") auto
  next
    case (Some p)
    then show ?thesis using iff [of "fst p" "snd p"] by simp
  qed
  moreover have "guild_seen db' regs g' = guild_seen db regs g'" if "g' \<noteq> g" for g'
    using assms(1) that by (simp add: within_guild_def guild_seen_def)
  ultimately show ?thesis
    using assms(2) by (auto simp: guild_view_def in_guild_def split: option.split bind_split)
qed

lemma guild_ops_frame [pres_intros]:
  "preserves (\<lambda>db. guilds db = t) (accept_guild_invite sch inviter invitee)"
  "preserves (\<lambda>db. guilds db = t) (kick sch actor target)"
  "preserves (\<lambda>db. guilds db = t) (change_rank sch actor target key p)"
proof -
  have [pres_intros]: "preserves (\<lambda>db. guilds db = t) (insert_guild_member g a k)"
    "preserves (\<lambda>db. guilds db = t) (delete_guild_member g a)" "preserves (\<lambda>db. guilds db = t) (update_rank k g a)" for g a k
    by (auto intro!: preservesI simp: insert_guild_member_def delete_guild_member_def update_rank_def split: if_splits)
  show "preserves (\<lambda>db. guilds db = t) (accept_guild_invite sch inviter invitee)"
    "preserves (\<lambda>db. guilds db = t) (kick sch actor target)"
    "preserves (\<lambda>db. guilds db = t) (change_rank sch actor target key p)"
    unfolding accept_guild_invite_def kick_def change_rank_def Let_def by (intro pres_intros)+
qed

lemma guild_ops_spare_parties [pres_intros]:
  "preserves (\<lambda>db. party_members db = t) (guild_create sch fresh founder name realm channel)"
  "preserves (\<lambda>db. party_members db = t) (accept_guild_invite sch inviter invitee)"
  "preserves (\<lambda>db. party_members db = t) (kick sch actor target)"
  "preserves (\<lambda>db. party_members db = t) (change_rank sch actor target key p)"
  "preserves (\<lambda>db. party_members db = t) (leave_guild sch a)"
  "preserves (\<lambda>db. party_members db = t) (disband sch a)"
  "preserves (\<lambda>db. party_members db = t) (set_motd sch a motd)"
  "preserves (\<lambda>db. party_members db = t) (set_tag sch a tag)"
proof -
  have [pres_intros]: "preserves (\<lambda>db. party_members db = t) (insert_guild g n r c)"
    "preserves (\<lambda>db. party_members db = t) (insert_guild_member g a k)"
    "preserves (\<lambda>db. party_members db = t) (delete_guild g)"
    "preserves (\<lambda>db. party_members db = t) (delete_guild_member g a)"
    "preserves (\<lambda>db. party_members db = t) (update_rank k g a)"
    "preserves (\<lambda>db. party_members db = t) (update_guild g f)"
    "preserves (\<lambda>db. party_members db = t) (count_others g a)" for g n r c a k f
    by (auto intro!: preservesI simp: insert_guild_def insert_guild_member_def delete_guild_def
        delete_guild_member_def update_rank_def update_guild_def count_others_def split: if_splits)
  show "preserves (\<lambda>db. party_members db = t) (guild_create sch fresh founder name realm channel)"
    "preserves (\<lambda>db. party_members db = t) (accept_guild_invite sch inviter invitee)"
    "preserves (\<lambda>db. party_members db = t) (kick sch actor target)"
    "preserves (\<lambda>db. party_members db = t) (change_rank sch actor target key p)"
    "preserves (\<lambda>db. party_members db = t) (leave_guild sch a)"
    "preserves (\<lambda>db. party_members db = t) (disband sch a)"
    "preserves (\<lambda>db. party_members db = t) (set_motd sch a motd)"
    "preserves (\<lambda>db. party_members db = t) (set_tag sch a tag)"
    unfolding guild_create_def accept_guild_invite_def kick_def change_rank_def leave_guild_def disband_def
      set_motd_def set_tag_def Let_def by (intro pres_intros; simp)+
qed

lemma update_guild_within: "update_guild g f db = (r, db') \<Longrightarrow> within_guild g db db'"
  by (auto simp: update_guild_def within_guild_def)

lemma within_guild_ops:
  assumes wf: "db_wf db"
  shows "guild_create sch fresh a name realm channel db = (Inr g, db') \<Longrightarrow> within_guild g db db'
      \<and> (\<forall>x. in_guild db g x \<or> in_guild db' g x \<longrightarrow> x = a)"
    and "accept_guild_invite sch i a db = (Inr g, db') \<Longrightarrow> within_guild g db db' \<and> \<not> in_guild db g a"
    and "kick sch a t db = (Inr u, db') \<Longrightarrow> \<exists>g. in_guild db g a \<and> in_guild db g t \<and> within_guild g db db'
      \<and> member db' t = None"
    and "change_rank sch a t key p db = (Inr u, db') \<Longrightarrow> \<exists>g. in_guild db g a \<and> in_guild db' g a \<and> within_guild g db db'
      \<and> (\<forall>x. in_guild db g x \<longleftrightarrow> in_guild db' g x)"
    and "leave_guild sch a db = (Inr u, db') \<Longrightarrow> \<exists>g. in_guild db g a \<and> within_guild g db db' \<and> member db' a = None
      \<and> (map_of (guilds db') g = None \<longrightarrow> (\<forall>x. in_guild db g x \<longrightarrow> x = a))"
    and "disband sch a db = (Inr u, db') \<Longrightarrow> \<exists>g. in_guild db g a \<and> within_guild g db db' \<and> (\<forall>x. \<not> in_guild db' g x)
      \<and> (\<forall>x. in_guild db g x \<longrightarrow> member db' x = None) \<and> map_of (guilds db') g = None"
    and "set_motd sch a motd db = (Inr u, db') \<Longrightarrow> \<exists>g. in_guild db g a \<and> in_guild db' g a \<and> within_guild g db db'
      \<and> (\<forall>x. in_guild db g x \<longleftrightarrow> in_guild db' g x)"
    and "set_tag sch a tag db = (Inr u, db') \<Longrightarrow> \<exists>g. in_guild db g a \<and> in_guild db' g a \<and> within_guild g db db'
      \<and> (\<forall>x. in_guild db g x \<longleftrightarrow> in_guild db' g x)"
proof -
  note u = db_wf_unique(11) [OF wf]
  show "within_guild g db db' \<and> (\<forall>x. in_guild db g x \<or> in_guild db' g x \<longrightarrow> x = a)"
    if run: "guild_create sch fresh a name realm channel db = (Inr g, db')"
  proof -
    have m: "g = fresh" "\<not> has_row (guilds db) fresh" "member db a = None"
      "member db' = (member db)(a \<mapsto> (fresh, gr_key (founder_rank sch)))" using guild_create_Inr [OF run] by simp_all
    have none: "\<not> in_guild db fresh x" for x
      using db_wf_guild_member [OF wf] m(2) by (auto simp: in_guild_def)
    have "map_of (guilds db') g' = map_of (guilds db) g'" if "g' \<noteq> g" for g'
      using run that by (auto simp: guild_create_def andThen_Inr guild_of_def membership_def insert_guild_def
          insert_guild_member_def simp del: guard_steps split: if_splits)
    then show ?thesis using m none by (auto simp: within_guild_def in_guild_def split: if_splits)
  qed
  show "within_guild g db db' \<and> \<not> in_guild db g a" if run: "accept_guild_invite sch i a db = (Inr g, db')"
    using accept_guild_invite_Inr [OF run] preservesD [OF guild_ops_frame(1) refl run]
    by (auto simp: within_guild_def in_guild_def split: if_splits)
  show "\<exists>g. in_guild db g a \<and> in_guild db g t \<and> within_guild g db db' \<and> member db' t = None"
    if run: "kick sch a t db = (Inr u, db')"
    using kick_Inr [OF u run] preservesD [OF guild_ops_frame(2) refl run]
    by (auto simp: within_guild_def in_guild_def split: if_splits)
  show "\<exists>g. in_guild db g a \<and> in_guild db' g a \<and> within_guild g db db' \<and> (\<forall>x. in_guild db g x \<longleftrightarrow> in_guild db' g x)"
    if run: "change_rank sch a t key p db = (Inr u, db')"
    using change_rank_Inr [OF run] preservesD [OF guild_ops_frame(3) refl run]
    by (auto simp: within_guild_def in_guild_def split: if_splits)
  show "\<exists>g. in_guild db g a \<and> within_guild g db db' \<and> member db' a = None
      \<and> (map_of (guilds db') g = None \<longrightarrow> (\<forall>x. in_guild db g x \<longrightarrow> x = a))"
    if run: "leave_guild sch a db = (Inr u, db')"
  proof -
    obtain g k where g: "member db a = Some (g, k)" "member db' = (member db)(a := None)"
      "if is_founder_rank sch k then (\<forall>x k. member db x = Some (g, k) \<longrightarrow> x = a)
          \<and> map_of (guilds db') = (map_of (guilds db))(g := None) else guilds db' = guilds db"
      using leave_guild_Inr [OF u run] by blast
    have "map_of (guilds db') g' = map_of (guilds db) g'" if "g' \<noteq> g" for g'
      using g(3) that by (cases "is_founder_rank sch k") auto
    then have "within_guild g db db'" using g(1,2) by (simp add: within_guild_def)
    moreover have "x = a" if "map_of (guilds db') g = None" "map_option fst (member db x) = Some g" for x
    proof (cases "is_founder_rank sch k")
      case True
      then show ?thesis using g(3) that(2) by fastforce
    next
      case False
      then show ?thesis using g(1,3) that(1) db_wf_guild_member [OF wf g(1)] by (simp add: has_row_def)
    qed
    ultimately show ?thesis using g(1,2) by (intro exI [of _ g]) (simp add: in_guild_def)
  qed
  show "\<exists>g. in_guild db g a \<and> within_guild g db db' \<and> (\<forall>x. \<not> in_guild db' g x)
      \<and> (\<forall>x. in_guild db g x \<longrightarrow> member db' x = None) \<and> map_of (guilds db') g = None"
    if run: "disband sch a db = (Inr u, db')"
  proof -
    obtain g k where g: "member db a = Some (g, k)" "map_of (guilds db') = (map_of (guilds db))(g := None)"
      "\<And>x. member db' x = (if \<exists>k. member db x = Some (g, k) then None else member db x)"
      using disband_Inr [OF u run] by blast
    have "member db' x = Some (g', k) \<longleftrightarrow> member db x = Some (g', k)" if "g' \<noteq> g" for x g' k
      using g(3) [of x] that by (cases "\<exists>k. member db x = Some (g, k)") auto
    moreover have "map_option fst (member db' x) \<noteq> Some g" for x
      using g(3) [of x] by (cases "\<exists>k. member db x = Some (g, k)") auto
    moreover have "member db' x = None" if "map_option fst (member db x) = Some g" for x
      using g(3) [of x] that by auto
    ultimately show ?thesis using g(1,2) by (intro exI [of _ g]) (simp add: within_guild_def in_guild_def)
  qed
  have meta: "\<exists>g. in_guild db g a \<and> in_guild db' g a \<and> within_guild g db db' \<and> (\<forall>x. in_guild db g x \<longleftrightarrow> in_guild db' g x)"
    if run: "andThen (require_permission sch a p) (\<lambda>g. update_guild g f) db = (Inr u, db')" for p f
  proof -
    obtain g k where g: "member db a = Some (g, k)" "update_guild g f db = (Inr u, db')"
      using run by (auto simp: andThen_apply require_permission_apply split: option.splits sum.splits if_splits)
    then have "guild_members db' = guild_members db" by (auto simp: update_guild_def)
    then show ?thesis using g update_guild_within [OF g(2)] by (auto simp: in_guild_def)
  qed
  show "\<exists>g. in_guild db g a \<and> in_guild db' g a \<and> within_guild g db db' \<and> (\<forall>x. in_guild db g x \<longleftrightarrow> in_guild db' g x)"
    if "set_motd sch a motd db = (Inr u, db')" using meta that by (simp add: set_motd_def)
  show "\<exists>g. in_guild db g a \<and> in_guild db' g a \<and> within_guild g db db' \<and> (\<forall>x. in_guild db g x \<longleftrightarrow> in_guild db' g x)"
    if "set_tag sch a tag db = (Inr u, db')" using meta that by (simp add: set_tag_def)
qed

section \<open>Guild updates reach everyone concerned\<close>

text \<open>What a handler of a guild message has done before it sends anything.\<close>

definition guild_changed :: "guild_id \<Rightarrow> social \<Rightarrow> social \<Rightarrow> bool" where
  "guild_changed g s t \<longleftrightarrow> touched s t \<and> db_wf (so_db t) \<and> within_guild g (so_db s) (so_db t)
     \<and> party_members (so_db t) = party_members (so_db s)"

lemma member_view: "member db a = Some (g, k) \<Longrightarrow> guild_view db regs a = guild_seen db regs g"
  by (simp add: guild_view_def)

lemma party_view_same: "party_members db' = party_members db \<Longrightarrow> party_view db' regs m = party_view db regs m"
  by (simp add: party_view_def)

lemma refresh_guild_frame [simp]:
  "so_db (refresh_guild_rosters g interested s) = so_db s" "so_chat (refresh_guild_rosters g interested s) = so_chat s"
  "so_regs (refresh_guild_rosters g interested s) = so_regs s"
  unfolding refresh_guild_pushes by simp_all

lemma refresh_nobody [simp]: "refresh_guild_rosters g [] s = s"
  by (simp add: refresh_guild_rosters_def)

lemma snapshot_frame: "so_db s' = so_db s \<Longrightarrow> so_regs s' = so_regs s \<Longrightarrow> snapshot_guild s' g = snapshot_guild s g"
  by (simp add: snapshot_guild_def guild_info_now_def guild_roster_now_def entity_of_account_def [abs_def])

lemma refresh_twice:
  "refresh_guild_rosters h ys (refresh_guild_rosters g xs s) = fold (push_one GuildUpdate guild_entity)
     (map (\<lambda>a. (a, snapshot_guild s g)) xs @ map (\<lambda>a. (a, snapshot_guild s h)) ys) s"
proof -
  have "snapshot_guild (refresh_guild_rosters g xs s) h = snapshot_guild s h"
    by (rule snapshot_frame) simp_all
  then show ?thesis by (simp add: refresh_guild_pushes)
qed

text \<open>
  The empty update to those now without a guild and the new roster to its members, when the two
  groups cover everybody who is or was in the guild.
\<close>

lemma views_ok_refresh:
  assumes ok: "views_ok s" and ch: "guild_changed g s t"
    and gone: "\<And>a. a \<in> set gone \<Longrightarrow> member (so_db t) a = None"
    and stay: "\<And>a. a \<in> set stay \<Longrightarrow> in_guild (so_db t) g a"
    and cover: "\<And>a. in_guild (so_db s) g a \<or> in_guild (so_db t) g a \<Longrightarrow> a \<in> set gone \<union> set stay"
  shows "views_ok (refresh_guild_rosters (Some g) stay (refresh_guild_rosters None gone t))"
proof -
  let ?ps = "map (\<lambda>a. (a, snapshot_guild t None)) gone @ map (\<lambda>a. (a, snapshot_guild t (Some g))) stay"
  let ?u = "fold (push_one GuildUpdate guild_entity) ?ps t"
  have t: "so_regs t = so_regs s" "so_out t = so_out s" "db_wf (so_db t)" "within_guild g (so_db s) (so_db t)"
    "party_members (so_db t) = party_members (so_db s)"
    using ch by (simp_all add: guild_changed_def touched_def)
  have vals: "picture v = guild_view (so_db t) (so_regs s) m" if "(m, v) \<in> set ?ps" for m v
  proof -
    consider "m \<in> set gone" "v = snapshot_guild t None" | "m \<in> set stay" "v = snapshot_guild t (Some g)"
      using \<open>(m, v) \<in> set ?ps\<close> by auto
    then show ?thesis
    proof cases
      case 1
      then show ?thesis using gone [of m] by (simp add: guild_view_def picture_def snapshot_guild_def)
    next
      case 2
      then obtain k where "member (so_db t) m = Some (g, k)" using stay [of m] by (auto simp: in_guild_def)
      then show ?thesis using 2 snapshot_reads [OF db_wf_unique(11) [OF t(3)], of g] t(1) by (simp add: member_view)
    qed
  qed
  have rest: "guild_view (so_db t) (so_regs s) m = guild_view (so_db s) (so_regs s) m" if "m \<notin> fst ` set ?ps" for m
  proof -
    have "m \<notin> set gone \<union> set stay" using that by (simp add: image_Un image_image)
    then show ?thesis using cover [of m] by (intro within_guild_view [OF t(4)]) auto
  qed
  have now: "guild_views_current s" "guild_entities_unique s" using ok by (simp_all add: views_ok_def)
  have "guild_views_current ?u"
    by (rule guild_updates.refreshed [OF now t(1), where quiet = "[]", OF _ _ vals rest]) (simp_all add: t)
  moreover have "party_views_current ?u"
  proof (rule views_keep)
    show "party_views_current s" using ok by (simp add: views_ok_def)
    show "adds (\<lambda>m. party_sel m = None) s ?u"
      using ch by (intro touched_adds [OF _ adds_push]) (simp_all add: guild_changed_def)
  qed (simp add: party_view_same [OF t(5)])
  ultimately show ?thesis using ok t by (simp add: refresh_twice views_ok_def)
qed

lemmas views_ok_stay = views_ok_refresh [where gone = "[]", simplified]

lemma roster_set:
  assumes "db_wf (so_db t)"
  shows "a \<in> set (map fst (guild_roster_now t g)) \<longleftrightarrow> in_guild (so_db t) g a"
  using guild_roster_now_set [OF db_wf_unique(11) [OF assms], of g] by (force simp: in_guild_def)

text \<open>A refused operation changed nothing, and its error goes to the sender alone.\<close>

lemma views_ok_refused:
  assumes ok: "views_ok s" and t: "touched s t" "so_db t = so_db s"
  shows "views_ok (refuse e r t)"
proof -
  have "views_ok t" by (rule views_ok_quiet [OF ok t(2)]) (use t(1) in \<open>simp add: touched_def addsI\<close>)
  then show ?thesis by (rule views_ok_quiet) (simp_all add: adds_send)
qed

lemma run_chat_frame: "run_chat m s = (r, s') \<Longrightarrow> touched s s' \<and> so_db s' = so_db s"
  by (auto simp: run_chat_def touched_def split: option.splits prod.splits sum.splits)

lemma sync_frame: "touched s (sync_chat_join g a s) \<and> so_db (sync_chat_join g a s) = so_db s"
  "touched s (sync_chat_leave h a s) \<and> so_db (sync_chat_leave h a s) = so_db s"
proof -
  have "touched s (snd (run_chat m s)) \<and> so_db (snd (run_chat m s)) = so_db s" for m :: "unit chat"
    by (rule run_chat_frame [OF surjective_pairing])
  moreover have "touched s s" by (simp add: touched_def)
  ultimately show "touched s (sync_chat_join g a s) \<and> so_db (sync_chat_join g a s) = so_db s"
    "touched s (sync_chat_leave h a s) \<and> so_db (sync_chat_leave h a s) = so_db s"
    by (auto simp: sync_chat_join_def sync_chat_leave_def split: option.split)
qed

lemma sync_all_frame: "touched s (fold (sync_chat_leave h) as s) \<and> so_db (fold (sync_chat_leave h) as s) = so_db s"
proof (induction as arbitrary: s)
  case (Cons a as)
  then show ?case using sync_frame(2) [of s h a] touched_trans by fastforce
qed (simp add: touched_def)

lemma guild_changed_after: "guild_changed g s t \<Longrightarrow> touched t u \<Longrightarrow> so_db u = so_db t \<Longrightarrow> guild_changed g s u"
  by (auto simp: guild_changed_def touched_def)

lemma roster_frame: "so_db s' = so_db s \<Longrightarrow> guild_roster_now s' g = guild_roster_now s g"
  "so_db s' = so_db s \<Longrightarrow> guild_now s' a = guild_now s a" "so_db s' = so_db s \<Longrightarrow> guild_info_now s' g = guild_info_now s g"
  by (simp_all add: guild_roster_now_def guild_now_def guild_info_now_def)

section \<open>The handlers\<close>

lemma guild_changedI:
  assumes "touched s t" "db_wf (so_db s)" "within_guild g (so_db s) (so_db t)"
    and "preserves db_wf m" "\<And>ps. preserves (\<lambda>db. party_members db = ps) m" "m (so_db s) = (r, so_db t)"
  shows "guild_changed g s t"
  using assms(1,3) preservesD [OF assms(4,2,6)] preservesD [OF assms(5) refl assms(6)]
  by (simp add: guild_changed_def)

lemma on_guild_create_views:
  assumes ok: "views_ok s"
  shows "views_ok (on_guild_create sch realm fresh fresh_channel e a name s)"
proof -
  obtain channel s1 where chat: "run_chat (create_guild fresh_channel a name) s = (channel, s1)" by force
  obtain r t where run: "run_db (guild_create sch fresh a name realm channel) s1 = (r, t)" by force
  have t: "touched s t" "guild_create sch fresh a name realm channel (so_db s) = (r, so_db t)"
    using run_chat_frame [OF chat] run_db_touched [OF run] touched_trans by auto
  have wf: "db_wf (so_db s)" using ok by (simp add: views_ok_def)
  show ?thesis
  proof (cases r)
    case (Inl err)
    then have "so_db t = so_db s" using t(2) guild_refused(1) by blast
    then show ?thesis using chat run Inl views_ok_refused [OF ok t(1)] by (simp add: on_guild_create_def)
  next
    case (Inr g)
    note eff = guild_create_Inr [OF t(2) [unfolded Inr]] within_guild_ops(1) [OF wf t(2) [unfolded Inr]]
    have "guild_changed g s t"
      using eff(2) by (intro guild_changedI [OF t(1) wf _ pres_guild_ops(1) guild_ops_spare_parties(1) t(2)]) simp
    moreover have "in_guild (so_db t) g a" using eff(1) by (simp add: in_guild_def)
    moreover have "x = a" if "in_guild (so_db s) g x \<or> in_guild (so_db t) g x" for x using eff(2) that by blast
    ultimately have "views_ok (refresh_guild_rosters (Some g) [a] t)" by (intro views_ok_stay [OF ok]) auto
    then show ?thesis using chat run Inr by (simp add: on_guild_create_def)
  qed
qed

text \<open>Messages that are no roster.\<close>

lemma views_ok_send:
  "views_ok s \<Longrightarrow> views_ok (refuse e r s)"
  "views_ok s \<Longrightarrow> party_sel m = None \<Longrightarrow> guild_sel m = None \<Longrightarrow> views_ok (send_to e m s)"
  "views_ok s \<Longrightarrow> party_sel m = None \<Longrightarrow> guild_sel m = None \<Longrightarrow> views_ok (send_world e m s)"
  by (erule views_ok_quiet; simp add: adds_send)+

lemma views_ok_invites [simp]:
  "views_ok (s\<lparr>so_guild_invites := gi\<rparr>) = views_ok s" "views_ok (s\<lparr>so_party_invites := pi\<rparr>) = views_ok s"
  by (simp_all add: views_ok_def views_current_def)

lemma on_guild_invite_views: "views_ok s \<Longrightarrow> views_ok (on_guild_invite parse_id e target s)"
  by (simp add: on_guild_invite_def views_ok_send split: option.split)

lemma on_party_invite_views: "views_ok s \<Longrightarrow> views_ok (on_party_invite parse_id e target party_type s)"
  by (simp add: on_party_invite_def views_ok_send split: option.split)

lemma on_join_group_layer_views: "views_ok s \<Longrightarrow> views_ok (on_join_group_layer parse_id e ch other s)"
  by (simp add: on_join_group_layer_def Let_def views_ok_send split: option.split)

lemma on_guild_response_views:
  assumes ok: "views_ok s"
  shows "views_ok (on_guild_response sch e a accept s)"
proof (cases "map_of (so_guild_invites s) e")
  case None
  then show ?thesis
    using ok by (simp add: on_guild_response_def views_ok_send)
next
  case (Some inviter)
  let ?s = "s\<lparr>so_guild_invites := del_row e (so_guild_invites s)\<rparr>"
  have ok1: "views_ok ?s" using ok by simp
  show ?thesis
  proof (cases "accept \<and> map_of (rg_entity_accounts (so_regs s)) inviter \<noteq> None")
    case False
    then show ?thesis using Some ok
      by (auto simp: on_guild_response_def Let_def views_ok_send split: option.split)
  next
    case True
    then obtain ia where ia: "map_of (rg_entity_accounts (so_regs s)) inviter = Some ia" by auto
    obtain r t where run: "run_db (accept_guild_invite sch ia a) ?s = (r, t)" by force
    have t: "touched ?s t" "accept_guild_invite sch ia a (so_db ?s) = (r, so_db t)"
      using run_db_touched [OF run] by simp_all
    have wf: "db_wf (so_db ?s)" using ok by (simp add: views_ok_def)
    show ?thesis
    proof (cases r)
      case (Inl err)
      then have "so_db t = so_db ?s" using t(2) guild_refused(2) by blast
      then show ?thesis using Some True ia run Inl views_ok_refused [OF ok1 t(1)] by (simp add: on_guild_response_def)
    next
      case (Inr g)
      note eff = accept_guild_invite_Inr [OF t(2) [unfolded Inr]] within_guild_ops(2) [OF wf t(2) [unfolded Inr]]
      let ?u = "sync_chat_join g a t"
      have u: "guild_changed g ?s ?u" "so_db ?u = so_db t"
        using guild_changed_after [OF guild_changedI [OF t(1) wf _ pres_guild_ops(2) guild_ops_spare_parties(2) t(2)]]
          sync_frame(1) [of t g a] eff(2) by blast+
      have wfu: "db_wf (so_db ?u)" using u(1) by (simp add: guild_changed_def)
      have "views_ok (refresh_guild_rosters (Some g) (map fst (guild_roster_now ?u g)) ?u)"
      proof (rule views_ok_stay [OF ok1 u(1)])
        show "x \<in> set (map fst (guild_roster_now ?u g))" if "in_guild (so_db ?s) g x \<or> in_guild (so_db ?u) g x" for x
          using that eff u(2) unfolding roster_set [OF wfu] in_guild_def by auto
      qed (simp only: roster_set [OF wfu])
      then show ?thesis using Some True ia run Inr by (simp add: on_guild_response_def Let_def)
    qed
  qed
qed

lemma guild_op_frames:
  assumes "m \<in> {kick sch a x, leave_guild sch a, disband sch a, promote sch a x key, demote sch a x key,
    set_motd sch a motd, set_tag sch a tag}"
  shows "preserves db_wf m" "preserves (\<lambda>db. party_members db = ps) m" "m db = (Inl err, db') \<Longrightarrow> db' = db"
proof -
  show "preserves db_wf m" "preserves (\<lambda>db. party_members db = ps) m"
    using assms by (auto simp: promote_def demote_def intro: pres_guild_ops guild_ops_spare_parties)
  have meta: "db' = db" if "andThen (require_permission sch a p) (\<lambda>g. update_guild g f) db = (Inl err, db')" for p f
    using that by (auto simp: andThen_Inl update_guild_def require_permission_apply split: option.splits sum.splits if_splits)
  show "m db = (Inl err, db') \<Longrightarrow> db' = db"
    using assms guild_refused disband_refused meta
    by (auto simp: promote_def demote_def set_motd_def set_tag_def)
qed

text \<open>A change of the actor's guild that keeps its members, and the updates to all of them.\<close>

lemma then_refresh_views:
  assumes ok: "views_ok s"
    and m: "m \<in> {promote sch a x key, demote sch a x key, set_motd sch a motd, set_tag sch a tag}"
  shows "views_ok (then_refresh e a m s)"
proof -
  have frames: "preserves db_wf m" "\<And>ps. preserves (\<lambda>db. party_members db = ps) m"
    "\<And>db err db'. m db = (Inl err, db') \<Longrightarrow> db' = db"
    using guild_op_frames [of m sch a x key motd tag] m by auto
  have wf: "db_wf (so_db s)" using ok by (simp add: views_ok_def)
  obtain r t where run: "run_db m s = (r, t)" by force
  have t: "touched s t" "m (so_db s) = (r, so_db t)" using run_db_touched [OF run] by simp_all
  show ?thesis
  proof (cases r)
    case (Inl err)
    then show ?thesis using run views_ok_refused [OF ok t(1)] frames(3) t(2) by (simp add: then_refresh_def)
  next
    case (Inr u)
    have "\<exists>g. in_guild (so_db s) g a \<and> in_guild (so_db t) g a \<and> within_guild g (so_db s) (so_db t)
        \<and> (\<forall>x. in_guild (so_db s) g x \<longleftrightarrow> in_guild (so_db t) g x)"
      using m t(2) Inr within_guild_ops(4,7,8) [OF wf] by (auto simp: promote_def demote_def)
    then obtain g where g: "in_guild (so_db s) g a" "in_guild (so_db t) g a" "within_guild g (so_db s) (so_db t)"
      "\<And>x. in_guild (so_db s) g x \<longleftrightarrow> in_guild (so_db t) g x" by blast
    have ch: "guild_changed g s t" by (rule guild_changedI [OF t(1) wf g(3) frames(1,2) t(2)])
    then have wft: "db_wf (so_db t)" by (simp add: guild_changed_def)
    have "views_ok (refresh_guild_rosters (Some g) (map fst (guild_roster_now t g)) t)"
      by (rule views_ok_stay [OF ok ch]; simp only: roster_set [OF wft] g(4); blast)
    moreover have "guild_now t a = Some g" using g(2) by (simp add: guild_now_eq in_guild_def)
    ultimately show ?thesis using run Inr by (simp add: then_refresh_def refresh_after_guild_change_def)
  qed
qed

lemma with_target_views:
  assumes "views_ok s" "\<And>t. views_ok (k t s)"
  shows "views_ok (with_target_account parse_id e target k s)"
  using assms by (simp add: with_target_account_def views_ok_send split: option.split)

lemma on_guild_rank_views:
  assumes "views_ok s"
  shows "views_ok (on_guild_promote sch parse_id e a target key s)" "views_ok (on_guild_demote sch parse_id e a target key s)"
    "views_ok (on_guild_set_motd sch e a motd s)" "views_ok (on_guild_set_tag sch e a tag s)"
  unfolding on_guild_promote_def on_guild_demote_def on_guild_set_motd_def on_guild_set_tag_def
  by (rule with_target_views then_refresh_views, rule assms, (rule then_refresh_views, rule assms)?, blast)+

lemma gone_and_stay_views:
  assumes ok: "views_ok s" and ch: "guild_changed g s t"
    and gone: "member (so_db t) a = None" and cover: "\<And>x. in_guild (so_db s) g x \<Longrightarrow> x = a \<or> in_guild (so_db t) g x"
    and u: "touched t u" "so_db u = so_db t"
  shows "views_ok (refresh_guild_rosters (Some g) (map fst (guild_roster_now u g)) (refresh_guild_rosters None [a] u))"
proof -
  have u: "guild_changed g s u" "db_wf (so_db u)" "so_db u = so_db t"
    using guild_changed_after [OF ch u] u(2) by (simp_all add: guild_changed_def)
  show ?thesis
  proof (rule views_ok_refresh [OF ok u(1)])
    show "x \<in> set [a] \<union> set (map fst (guild_roster_now u g))" if "in_guild (so_db s) g x \<or> in_guild (so_db u) g x" for x
      using that cover [of x] unfolding Un_iff roster_set [OF u(2)] u(3) by auto
    show "member (so_db u) x = None" if "x \<in> set [a]" for x using that gone u(3) by simp
    show "in_guild (so_db u) g x" if "x \<in> set (map fst (guild_roster_now u g))" for x
      using that by (simp only: roster_set [OF u(2)])
  qed
qed

lemma on_guild_kick_views:
  assumes ok: "views_ok s"
  shows "views_ok (on_guild_kick sch parse_id e a target s)"
  unfolding on_guild_kick_def
proof (rule with_target_views [OF ok])
  fix x
  have wf: "db_wf (so_db s)" using ok by (simp add: views_ok_def)
  note frames = guild_op_frames [of "kick sch a x" sch a x]
  obtain r t where run: "run_db (kick sch a x) s = (r, t)" by force
  have t: "touched s t" "kick sch a x (so_db s) = (r, so_db t)" using run_db_touched [OF run] by simp_all
  show "views_ok (let guild_before = guild_now s a in case run_db (kick sch a x) s of
        (Inl err, s) \<Rightarrow> refuse e (StoreFailed err) s
      | (Inr _, s) \<Rightarrow>
          let s = sync_chat_leave guild_before x s; s = refresh_guild_rosters None [x] s
          in case guild_before of
               Some g \<Rightarrow> refresh_guild_rosters (Some g) (map fst (guild_roster_now s g)) s
             | None \<Rightarrow> s)"
  proof (cases r)
    case (Inl err)
    then show ?thesis using run views_ok_refused [OF ok t(1)] frames(3) t(2) by simp
  next
    case (Inr u)
    obtain g where g: "in_guild (so_db s) g a" "within_guild g (so_db s) (so_db t)" "member (so_db t) x = None"
      using within_guild_ops(3) [OF wf t(2) [unfolded Inr]] by blast
    have "member (so_db t) = (member (so_db s))(x := None)"
      using kick_Inr [OF db_wf_unique(11) [OF wf] t(2) [unfolded Inr]] by blast
    then have cover: "y = x \<or> in_guild (so_db t) g y" if "in_guild (so_db s) g y" for y
      using that by (simp add: in_guild_def)
    have ch: "guild_changed g s t"
      by (rule guild_changedI [where m = "kick sch a x", OF t(1) wf g(2) _ _ t(2)]) (rule frames; simp)+
    let ?u = "sync_chat_leave (Some g) x t"
    have "views_ok (refresh_guild_rosters (Some g) (map fst (guild_roster_now ?u g)) (refresh_guild_rosters None [x] ?u))"
      by (rule gone_and_stay_views [OF ok ch g(3) cover]) (simp_all add: sync_frame)
    moreover have "guild_now s a = Some g" using g(1) by (simp add: guild_now_eq in_guild_def)
    moreover have "guild_roster_now (refresh_guild_rosters None [x] ?u) g = guild_roster_now ?u g"
      by (rule roster_frame(1)) simp
    ultimately show ?thesis using run Inr by (simp add: Let_def)
  qed
qed

lemma push_disbanded_views:
  assumes "views_ok s"
  shows "views_ok (fold push_disbanded as s)"
  using assms
proof (induction as arbitrary: s)
  case (Cons a as)
  then have "views_ok (push_disbanded a s)" by (simp add: push_disbanded_def views_ok_send split: option.split)
  then show ?case using Cons.IH by simp
qed simp

text \<open>Disbanding: everybody who was in the guild sees no guild.\<close>

lemma disbanded_views:
  assumes ok: "views_ok s" and run: "run_db (disband sch a) s = (Inr u, t)"
  shows "views_ok (handle_guild_leave_or_disband sch e a True s)"
proof -
  have wf: "db_wf (so_db s)" using ok by (simp add: views_ok_def)
  have t: "touched s t" "disband sch a (so_db s) = (Inr u, so_db t)" using run_db_touched [OF run] by simp_all
  obtain g where g: "in_guild (so_db s) g a" "within_guild g (so_db s) (so_db t)" "\<forall>x. \<not> in_guild (so_db t) g x"
    "\<forall>x. in_guild (so_db s) g x \<longrightarrow> member (so_db t) x = None"
    using within_guild_ops(6) [OF wf t(2)] by blast
  let ?before = "map fst (guild_roster_now s g)"
  let ?u = "fold (sync_chat_leave (Some g)) ?before t"
  note frames = guild_op_frames [where m = "disband sch a" and sch = sch and a = a]
  have "guild_changed g s t"
    by (rule guild_changedI [where m = "disband sch a", OF t(1) wf g(2) _ _ t(2)]) (rule frames; simp)+
  then have ch: "guild_changed g s ?u" "so_db ?u = so_db t"
    using guild_changed_after sync_all_frame [of t "Some g" ?before] by blast+
  have "views_ok (refresh_guild_rosters (Some g) [] (refresh_guild_rosters None ?before ?u))"
  proof (rule views_ok_refresh [OF ok ch(1)])
    show "member (so_db ?u) x = None" if "x \<in> set ?before" for x
      using that g(4) unfolding roster_set [OF wf] ch(2) by blast
    show "x \<in> set ?before \<union> set []" if "in_guild (so_db s) g x \<or> in_guild (so_db ?u) g x" for x
      using that g(3) unfolding Un_iff roster_set [OF wf] ch(2) by blast
  qed simp
  then have "views_ok (fold push_disbanded ?before (refresh_guild_rosters None ?before ?u))"
    by (intro push_disbanded_views) simp
  moreover have "guild_now s a = Some g" using g(1) by (simp add: guild_now_eq in_guild_def)
  ultimately show ?thesis using run by (simp add: handle_guild_leave_or_disband_def Let_def)
qed

lemma left_views:
  assumes ok: "views_ok s" and run: "run_db (leave_guild sch a) s = (Inr u, t)"
  shows "views_ok (handle_guild_leave_or_disband sch e a False s)"
proof -
  have wf: "db_wf (so_db s)" using ok by (simp add: views_ok_def)
  have t: "touched s t" "leave_guild sch a (so_db s) = (Inr u, so_db t)" using run_db_touched [OF run] by simp_all
  obtain g where g: "in_guild (so_db s) g a" "within_guild g (so_db s) (so_db t)" "member (so_db t) a = None"
    using within_guild_ops(5) [OF wf t(2)] by blast
  have "member (so_db t) = (member (so_db s))(a := None)"
    using leave_guild_Inr [OF db_wf_unique(11) [OF wf] t(2)] by blast
  then have cover: "y = a \<or> in_guild (so_db t) g y" if "in_guild (so_db s) g y" for y
    using that by (simp add: in_guild_def)
  note frames = guild_op_frames [where m = "leave_guild sch a" and sch = sch and a = a]
  have ch: "guild_changed g s t"
    by (rule guild_changedI [where m = "leave_guild sch a", OF t(1) wf g(2) _ _ t(2)]) (rule frames; simp)+
  let ?u = "sync_chat_leave (Some g) a t"
  let ?v = "refresh_guild_rosters None [a] ?u"
  have u: "touched t ?u" "so_db ?u = so_db t" by (simp_all add: sync_frame)
  have all: "views_ok (refresh_guild_rosters (Some g) (map fst (guild_roster_now ?u g)) ?v)"
    by (rule gone_and_stay_views [OF ok ch g(3) cover u])
  have info: "guild_info_now ?v g = map_of (guilds (so_db t)) g" by (simp add: guild_info_now_eq u(2))
  have "guild_roster_now ?u g = []" if "map_of (guilds (so_db t)) g = None"
  proof -
    have "\<not> in_guild (so_db t) g x" for x
      using that db_wf_guild_member [of "so_db t" x g] ch by (auto simp: in_guild_def has_row_def guild_changed_def)
    then have "x \<notin> set (map fst (guild_roster_now ?u g))" for x
      using ch u(2) roster_set [of ?u x g] by (simp add: guild_changed_def)
    then show ?thesis by (cases "guild_roster_now ?u g") auto
  qed
  moreover have "guild_roster_now ?v g = guild_roster_now ?u g" by (rule roster_frame(1)) simp
  moreover have "guild_now s a = Some g" using g(1) by (simp add: guild_now_eq in_guild_def)
  ultimately show ?thesis using run all info
    by (cases "map_of (guilds (so_db t)) g") (simp_all add: handle_guild_leave_or_disband_def Let_def)
qed

lemma handle_guild_leave_or_disband_views:
  assumes ok: "views_ok s"
  shows "views_ok (handle_guild_leave_or_disband sch e a disbands s)"
proof -
  let ?m = "if disbands then disband sch a else leave_guild sch a"
  obtain r t where run: "run_db ?m s = (r, t)" by force
  have t: "touched s t" "?m (so_db s) = (r, so_db t)" using run_db_touched [OF run] by simp_all
  show ?thesis
  proof (cases r)
    case (Inl err)
    then have "so_db t = so_db s"
      using t(2) disband_refused guild_refused(5) by (cases disbands) auto
    then show ?thesis using run Inl views_ok_refused [OF ok t(1)]
      by (simp add: handle_guild_leave_or_disband_def Let_def)
  next
    case (Inr u)
    then show ?thesis using run disbanded_views [OF ok] left_views [OF ok] by (cases disbands) auto
  qed
qed

section \<open>Every sequence of messages\<close>

text \<open>The party and guild arms of the \<^verbatim>\<open>match\<close> on a world message, for one connection.\<close>

record social_config =
  sf_parties :: party_schema
  sf_guilds :: guild_schema
  sf_realm :: realm_id
  sf_parse_id :: "string \<Rightarrow> entity_id option"

text \<open>The ids a step may draw.\<close>

record fresh_ids =
  fi_party :: party_id
  fi_guild :: guild_id
  fi_channel :: channel_id

definition on_social ::
  "social_config \<Rightarrow> fresh_ids \<Rightarrow> connection \<Rightarrow> client_message \<Rightarrow> social \<Rightarrow> social" where
  "on_social cfg fresh c msg s =
     (let e = cx_entity c; a = cx_account c; ch = cx_character c; parse = sf_parse_id cfg in
      case msg of
        C_JoinGroupLayer other \<Rightarrow> on_join_group_layer parse e ch other s
      | C_PartyInvite target party_type \<Rightarrow> on_party_invite parse e target party_type s
      | C_PartyInviteResponse accept \<Rightarrow> on_party_response (sf_parties cfg) (fi_party fresh) e ch accept s
      | C_PartyLeave \<Rightarrow> on_party_leave e ch s
      | C_GuildCreate name \<Rightarrow>
          on_guild_create (sf_guilds cfg) (sf_realm cfg) (fi_guild fresh) (fi_channel fresh) e a name s
      | C_GuildInvite target \<Rightarrow> on_guild_invite parse e target s
      | C_GuildInviteResponse accept \<Rightarrow> on_guild_response (sf_guilds cfg) e a accept s
      | C_GuildLeave \<Rightarrow> handle_guild_leave_or_disband (sf_guilds cfg) e a False s
      | C_GuildDisband \<Rightarrow> handle_guild_leave_or_disband (sf_guilds cfg) e a True s
      | C_GuildKick target \<Rightarrow> on_guild_kick (sf_guilds cfg) parse e a target s
      | C_GuildPromote target rank_key \<Rightarrow> on_guild_promote (sf_guilds cfg) parse e a target rank_key s
      | C_GuildDemote target rank_key \<Rightarrow> on_guild_demote (sf_guilds cfg) parse e a target rank_key s
      | C_GuildSetMotd motd \<Rightarrow> on_guild_set_motd (sf_guilds cfg) e a motd s
      | C_GuildSetTag tag \<Rightarrow> on_guild_set_tag (sf_guilds cfg) e a tag s
      | _ \<Rightarrow> s)"

definition social_run ::
  "social_config \<Rightarrow> (fresh_ids \<times> connection \<times> client_message) list \<Rightarrow> social \<Rightarrow> social" where
  "social_run cfg msgs s = fold (\<lambda>(fresh, c, msg). on_social cfg fresh c msg) msgs s"

lemmas social_handlers_views =
  on_join_group_layer_views on_party_invite_views on_party_response_views on_party_leave_views
  on_guild_create_views on_guild_invite_views on_guild_response_views handle_guild_leave_or_disband_views
  on_guild_kick_views on_guild_rank_views

lemma on_social_views: "views_ok s \<Longrightarrow> views_ok (on_social cfg fresh c msg s)"
  by (cases msg) (simp_all add: on_social_def Let_def social_handlers_views)

lemma social_run_views: "views_ok s \<Longrightarrow> views_ok (social_run cfg msgs s)"
proof (induction msgs arbitrary: s)
  case (Cons m msgs)
  then show ?case by (cases m) (simp add: social_run_def on_social_views)
qed (simp add: social_run_def)

text \<open>What a client shows: the value of the latest update of the kind.\<close>

definition shown :: "(social_push \<Rightarrow> 'v option) \<Rightarrow> 'v \<Rightarrow> social \<Rightarrow> entity_id \<Rightarrow> 'v" where
  "shown sel nothing s e = (case latest sel (so_out s) e of None \<Rightarrow> nothing | Some v \<Rightarrow> v)"

text \<open>
  C7: From any state in which every connected client shows its party and its guild as they are, and
  after every sequence of party and guild messages by any connections, whatever they name and
  whether the stores accept them or not, every connected client again shows exactly its party's
  connected members, and its guild with its name, message of the day, tag and every member's rank
  and entity, or no guild when its account is in none.
\<close>

theorem rosters_stay_current:
  assumes "views_ok s"
  shows "let s' = social_run cfg msgs s; regs = so_regs s' in
    (party_entity regs ch = Some e \<and> e \<in> set (rg_sessions regs)
       \<longrightarrow> shown party_sel {} s' e = party_view (so_db s') regs ch)
  \<and> (guild_entity regs a = Some e \<and> e \<in> set (rg_sessions regs)
       \<longrightarrow> shown guild_sel None s' e = guild_view (so_db s') regs a)"
  using social_run_views [OF assms, of cfg msgs]
  by (simp add: Let_def views_ok_def views_current_def shown_def)

text \<open>Two players, one of whom invites the other to a party and to the guild it founds.\<close>

definition sample_players :: "connection list" where
  "sample_players = [\<lparr>cx_entity = Id 11, cx_account = Id 1, cx_character = Id 1, cx_token = ''t1''\<rparr>,
     \<lparr>cx_entity = Id 12, cx_account = Id 2, cx_character = Id 2, cx_token = ''t2''\<rparr>]"

definition sample_social :: social where
  "sample_social = \<lparr>so_db = sample_db, so_chat = None,
     so_regs = fold (\<lambda>c. register c []) sample_players no_registries,
     so_party_invites = [], so_guild_invites = [], so_out = []\<rparr>"

definition sample_social_config :: social_config where
  "sample_social_config = \<lparr>sf_parties = sample_parties, sf_guilds = sample_guilds, sf_realm = Id 1,
     sf_parse_id = (\<lambda>t. if t = ''e1'' then Some (Id 11) else if t = ''e2'' then Some (Id 12) else None)\<rparr>"

definition sample_messages :: "(fresh_ids \<times> connection \<times> client_message) list" where
  "sample_messages = map (\<lambda>(i, m). (\<lparr>fi_party = Id 7, fi_guild = Id 5, fi_channel = Id 9\<rparr>, sample_players ! i, m))
     [(0, C_PartyInvite ''e2'' ''duo''), (1, C_PartyInviteResponse True), (0, C_GuildCreate ''wolves''),
      (0, C_GuildInvite ''e2''), (1, C_GuildInviteResponse True)]"

lemma sample_social_ok: "views_ok sample_social"
proof -
  have "party_members sample_db = []" "guild_members sample_db = []" by (simp_all add: sample_db_def empty_db_def)
  then have v: "party_view sample_db regs ch = {}" "guild_view sample_db regs a = None" for regs ch a
    by (simp_all add: party_view_def guild_view_def)
  have "injective_entities party_entity (so_regs sample_social)" "injective_entities guild_entity (so_regs sample_social)"
    by (auto simp: injective_entities_def party_entity_def guild_entity_def sample_social_def sample_players_def
        register_def no_registries_def register_udp_def split: if_splits)
  then show ?thesis by (simp add: views_ok_def views_current_def v sample_social_def)
qed

lemma rosters_stay_current_witness:
  "let s' = social_run sample_social_config sample_messages sample_social; regs = so_regs s' in
    shown party_sel {} s' (Id 11) = {Id 12} \<and> party_view (so_db s') regs (Id 1) = {Id 12}
    \<and> shown guild_sel None s' (Id 12) = guild_view (so_db s') regs (Id 2)"
proof -
  let ?s = "social_run sample_social_config sample_messages sample_social"
  have "party_entity (so_regs ?s) (Id 1) = Some (Id 11) \<and> Id 11 \<in> set (rg_sessions (so_regs ?s))
      \<and> guild_entity (so_regs ?s) (Id 2) = Some (Id 12) \<and> Id 12 \<in> set (rg_sessions (so_regs ?s))
      \<and> shown party_sel {} ?s (Id 11) = {Id 12}"
    by code_simp
  then show ?thesis
    using rosters_stay_current [OF sample_social_ok, of sample_social_config sample_messages "Id 1" "Id 11"]
      rosters_stay_current [OF sample_social_ok, of sample_social_config sample_messages _ "Id 12" "Id 2"]
    by (simp add: Let_def)
qed

text \<open>
  A connection that joins the world is sent neither roster: of two members of a party that log in, neither
  is shown the other, although both are connected.
\<close>

theorem login_leaves_rosters_stale:
  "let s = \<lparr>so_db = sample_party_db, so_chat = None, so_regs = no_registries, so_party_invites = [],
        so_guild_invites = [], so_out = []\<rparr>;
      s' = s\<lparr>so_regs := fold (\<lambda>c. register c []) sample_players no_registries\<rparr> in
    party_views_current s \<and> party_view (so_db s') (so_regs s') (Id 1) = {Id 12}
    \<and> shown party_sel {} s' (Id 11) = {} \<and> \<not> party_views_current s'"
proof -
  let ?regs = "fold (\<lambda>c. register c []) sample_players no_registries"
  have pm: "party_members sample_party_db = [(Id 1, Id 7), (Id 2, Id 7)]"
    unfolding sample_party_db_def by code_simp
  have e: "party_entity ?regs (Id 1) = Some (Id 11)" "party_entity ?regs (Id 2) = Some (Id 12)" "Id 11 \<in> set (rg_sessions ?regs)"
    by (simp_all add: sample_players_def register_def register_udp_def no_registries_def party_entity_def)
  then have "party_view sample_party_db ?regs (Id 1) = {Id 12}"
    by (auto simp: party_view_def pm split: if_splits)
  then show ?thesis using e
    by (auto simp: Let_def views_current_def shown_def party_entity_def no_registries_def)
qed

end
