(* ===== verification/GuildChat.thy ===== *)
theory GuildChat
  imports GuildViews
begin

text \<open>
  A guild and its chat channel are two stores kept in step by the handlers of \<open>SocialSession\<close>: after
  every sequence of party and guild messages the members of each guild's channel are the members of
  the guild. The channel of a guild that is dissolved is left behind with its members.
\<close>

section \<open>The two stores\<close>

definition channel_of :: "db \<Rightarrow> guild_id \<Rightarrow> channel_id option" where
  "channel_of db g = Option.bind (map_of (guilds db) g) gd_chat_channel"

definition guild_channel :: "chat_db \<Rightarrow> channel_id \<Rightarrow> bool" where
  "guild_channel cdb c \<longleftrightarrow> map_option cc_type (map_of (chat_channels cdb) c) = Some GuildChannel"

definition mirrored :: "db \<Rightarrow> chat_db \<Rightarrow> bool" where
  "mirrored db cdb \<longleftrightarrow>
     (\<forall>g c. channel_of db g = Some c \<longrightarrow> guild_channel cdb c
        \<and> (\<forall>a. (c, a) \<in> set (chat_members cdb) \<longleftrightarrow> in_guild db g a))
   \<and> (\<forall>g g' c. channel_of db g = Some c \<longrightarrow> channel_of db g' = Some c \<longrightarrow> g = g')"

definition stores_ok :: "db \<Rightarrow> chat_db option \<Rightarrow> bool" where
  "stores_ok db chat \<longleftrightarrow> db_wf db \<and> (\<exists>cdb. chat = Some cdb \<and> chat_wf cdb
     \<and> set (accounts db) \<subseteq> set (chat_accounts cdb) \<and> mirrored db cdb)"

abbreviation guild_chat_ok :: "social \<Rightarrow> bool" where
  "guild_chat_ok s \<equiv> stores_ok (so_db s) (so_chat s)"

lemma mirrored_upd:
  assumes "mirrored db cdb" "\<And>c. guild_channel cdb c \<Longrightarrow> guild_channel cdb' c"
    and "\<And>g c. channel_of db' g = Some c \<Longrightarrow> channel_of db g = Some c"
    and "\<And>g c a. channel_of db' g = Some c \<Longrightarrow> (c, a) \<in> set (chat_members cdb') \<longleftrightarrow> in_guild db' g a"
  shows "mirrored db' cdb'"
  using assms unfolding mirrored_def by blast

lemma mirrored_same:
  "channel_of db' = channel_of db \<Longrightarrow> in_guild db' = in_guild db \<Longrightarrow> mirrored db' cdb = mirrored db cdb"
  by (simp add: mirrored_def)

section \<open>The chat operations on a guild channel\<close>

lemma chat_join_guild:
  assumes "chat_wf cdb" "guild_channel cdb c" "a \<in> set (chat_accounts cdb)"
  obtains cdb' where "chat_join c a cdb = (Inr (), cdb')" "chat_wf cdb'" "chat_channels cdb' = chat_channels cdb"
    "chat_accounts cdb' = chat_accounts cdb" "set (chat_members cdb') = insert (c, a) (set (chat_members cdb))"
proof -
  let ?cdb' = "if (c, a) \<in> set (chat_members cdb) then cdb else cdb\<lparr>chat_members := chat_members cdb @ [(c, a)]\<rparr>"
  have run: "chat_join c a cdb = (Inr (), ?cdb')"
    using assms(2,3) by (auto simp: chat_join_Inr guild_channel_def)
  show ?thesis
  proof (rule that [OF run])
    show "chat_wf ?cdb'" by (rule preservesD [OF pres_chat_join assms(1) run])
  qed auto
qed

lemma chat_leave_guild:
  assumes "chat_wf cdb" "guild_channel cdb c"
  obtains cdb' where "chat_leave c a cdb = (Inr (), cdb')" "chat_wf cdb'" "chat_channels cdb' = chat_channels cdb"
    "chat_accounts cdb' = chat_accounts cdb" "set (chat_members cdb') = set (chat_members cdb) - {(c, a)}"
proof -
  let ?cdb' = "cdb\<lparr>chat_members := filter (\<lambda>m. m \<noteq> (c, a)) (chat_members cdb)\<rparr>"
  have run: "chat_leave c a cdb = (Inr (), ?cdb')"
    using assms(2) by (auto simp: chat_leave_Inr guild_channel_def)
  show ?thesis
  proof (rule that [OF run])
    show "chat_wf ?cdb'" by (rule preservesD [OF pres_chat_leave assms(1) run])
  qed auto
qed

lemma sync_join_eq:
  "sync_chat_join g a s = (case channel_of (so_db s) g of None \<Rightarrow> s | Some c \<Rightarrow> snd (run_chat (chat_join c a) s))"
  by (cases "map_of (guilds (so_db s)) g")
    (simp_all add: sync_chat_join_def guild_info_now_eq channel_of_def)

lemma sync_leave_eq:
  "sync_chat_leave (Some g) a s = (case channel_of (so_db s) g of None \<Rightarrow> s | Some c \<Rightarrow> snd (run_chat (chat_leave c a) s))"
  by (cases "map_of (guilds (so_db s)) g")
    (simp_all add: sync_chat_leave_def guild_info_now_eq channel_of_def)

text \<open>The row is added to or taken from the channel of guild \<open>g\<close>, if it has one.\<close>

lemma sync_join:
  assumes "so_chat s = Some cdb" "chat_wf cdb" "a \<in> set (chat_accounts cdb)"
    and "\<And>c. channel_of (so_db s) g = Some c \<Longrightarrow> guild_channel cdb c"
  shows "\<exists>cdb'. so_chat (sync_chat_join g a s) = Some cdb' \<and> chat_wf cdb' \<and> chat_channels cdb' = chat_channels cdb
    \<and> chat_accounts cdb' = chat_accounts cdb
    \<and> (\<forall>c x. (c, x) \<in> set (chat_members cdb') \<longleftrightarrow>
          (c, x) \<in> set (chat_members cdb) \<or> channel_of (so_db s) g = Some c \<and> x = a)"
proof (cases "channel_of (so_db s) g")
  case None
  then show ?thesis using assms by (simp add: sync_join_eq)
next
  case (Some c)
  from chat_join_guild [OF assms(2) assms(4) [OF Some] assms(3)] obtain cdb' where *:
    "chat_join c a cdb = (Inr (), cdb')" "chat_wf cdb'" "chat_channels cdb' = chat_channels cdb"
    "chat_accounts cdb' = chat_accounts cdb" "set (chat_members cdb') = insert (c, a) (set (chat_members cdb))" .
  show ?thesis by (rule exI [of _ cdb']) (use * Some assms(1) in \<open>auto simp: sync_join_eq run_chat_def\<close>)
qed

lemma sync_leave:
  assumes "so_chat s = Some cdb" "chat_wf cdb"
    and "\<And>c. channel_of (so_db s) g = Some c \<Longrightarrow> guild_channel cdb c"
  shows "\<exists>cdb'. so_chat (sync_chat_leave (Some g) a s) = Some cdb' \<and> chat_wf cdb' \<and> chat_channels cdb' = chat_channels cdb
    \<and> chat_accounts cdb' = chat_accounts cdb
    \<and> (\<forall>c x. (c, x) \<in> set (chat_members cdb') \<longleftrightarrow>
          (c, x) \<in> set (chat_members cdb) \<and> \<not> (channel_of (so_db s) g = Some c \<and> x = a))"
proof (cases "channel_of (so_db s) g")
  case None
  then show ?thesis using assms by (simp add: sync_leave_eq)
next
  case (Some c)
  from chat_leave_guild [OF assms(2) assms(3) [OF Some], of a] obtain cdb' where *:
    "chat_leave c a cdb = (Inr (), cdb')" "chat_wf cdb'" "chat_channels cdb' = chat_channels cdb"
    "chat_accounts cdb' = chat_accounts cdb" "set (chat_members cdb') = set (chat_members cdb) - {(c, a)}" .
  show ?thesis by (rule exI [of _ cdb']) (use * Some assms(1) in \<open>auto simp: sync_leave_eq run_chat_def\<close>)
qed

section \<open>What the stores' operations do to rosters and channels\<close>

lemma account_frames [pres_intros]:
  "preserves (\<lambda>db. accounts db = t) (guild_create sch fresh founder name realm channel)"
  "preserves (\<lambda>db. accounts db = t) (accept_guild_invite sch inviter invitee)"
  "preserves (\<lambda>db. accounts db = t) (kick sch actor target)"
  "preserves (\<lambda>db. accounts db = t) (change_rank sch actor target key p)"
  "preserves (\<lambda>db. accounts db = t) (leave_guild sch a)"
  "preserves (\<lambda>db. accounts db = t) (disband sch a)"
  "preserves (\<lambda>db. accounts db = t) (set_motd sch a motd)"
  "preserves (\<lambda>db. accounts db = t) (set_tag sch a tag)"
  "preserves (\<lambda>db. accounts db = t) (accept_party_invite psch pfresh i j ty)"
  "preserves (\<lambda>db. accounts db = t) (leave_party ch)"
proof -
  have [pres_intros]: "preserves (\<lambda>db. accounts db = t) (insert_guild g n r c)"
    "preserves (\<lambda>db. accounts db = t) (insert_guild_member g a k)"
    "preserves (\<lambda>db. accounts db = t) (delete_guild g)"
    "preserves (\<lambda>db. accounts db = t) (delete_guild_member g a)"
    "preserves (\<lambda>db. accounts db = t) (update_rank k g a)"
    "preserves (\<lambda>db. accounts db = t) (update_guild g f)"
    "preserves (\<lambda>db. accounts db = t) (count_others g a)"
    "preserves (\<lambda>db. accounts db = t) (insert_party p k)"
    "preserves (\<lambda>db. accounts db = t) (insert_party_member p ch)"
    "preserves (\<lambda>db. accounts db = t) (delete_party p)"
    "preserves (\<lambda>db. accounts db = t) (delete_party_member p ch)" for g n r c a k f p ch
    by (auto intro!: preservesI simp: insert_guild_def insert_guild_member_def delete_guild_def
        delete_guild_member_def update_rank_def update_guild_def count_others_def insert_party_def
        insert_party_member_def delete_party_def delete_party_member_def split: if_splits)
  show "preserves (\<lambda>db. accounts db = t) (guild_create sch fresh founder name realm channel)"
    "preserves (\<lambda>db. accounts db = t) (accept_guild_invite sch inviter invitee)"
    "preserves (\<lambda>db. accounts db = t) (kick sch actor target)"
    "preserves (\<lambda>db. accounts db = t) (change_rank sch actor target key p)"
    "preserves (\<lambda>db. accounts db = t) (leave_guild sch a)"
    "preserves (\<lambda>db. accounts db = t) (disband sch a)"
    "preserves (\<lambda>db. accounts db = t) (set_motd sch a motd)"
    "preserves (\<lambda>db. accounts db = t) (set_tag sch a tag)"
    unfolding guild_create_def accept_guild_invite_def kick_def change_rank_def leave_guild_def disband_def
      set_motd_def set_tag_def Let_def by (intro pres_intros; simp)+
  show "preserves (\<lambda>db. accounts db = t) (accept_party_invite psch pfresh i j ty)"
    "preserves (\<lambda>db. accounts db = t) (leave_party ch)"
    unfolding accept_party_invite_def found_or_find_party_def leave_party_def party_of_def by (intro pres_intros)+
qed

lemma channels_of_guilds: "guilds db' = guilds db \<Longrightarrow> channel_of db' = channel_of db"
  by (simp add: channel_of_def fun_eq_iff)

lemma in_guild_upd:
  "member db' = (member db)(a := None) \<Longrightarrow> in_guild db' g x \<longleftrightarrow> in_guild db g x \<and> x \<noteq> a"
  "member db' = (member db)(a \<mapsto> (h, k)) \<Longrightarrow> in_guild db' g x \<longleftrightarrow> (if x = a then g = h else in_guild db g x)"
  by (auto simp: in_guild_def)

lemma channel_of_del:
  "map_of (guilds db') = (map_of (guilds db))(g := None) \<Longrightarrow>
     channel_of db' h = (if h = g then None else channel_of db h)"
  by (simp add: channel_of_def)

section \<open>The handlers keep the two in step\<close>

lemma stores_okE:
  assumes "guild_chat_ok s"
  obtains cdb where "so_chat s = Some cdb" "db_wf (so_db s)" "chat_wf cdb"
    "set (accounts (so_db s)) \<subseteq> set (chat_accounts cdb)" "mirrored (so_db s) cdb"
  using assms by (auto simp: stores_ok_def)

lemma stores_same:
  assumes "stores_ok db chat" "db_wf db'" "accounts db' = accounts db" "channel_of db' = channel_of db" "in_guild db' = in_guild db"
  shows "stores_ok db' chat"
  using assms by (auto simp: stores_ok_def mirrored_same [OF assms(4,5)])

lemma push_disbanded_frame [simp]:
  "so_db (fold push_disbanded as s) = so_db s" "so_chat (fold push_disbanded as s) = so_chat s"
  by (induction as arbitrary: s) (simp_all add: push_disbanded_def split: option.split)

lemma rank_and_text_effects:
  assumes "m \<in> {promote sch a x key, demote sch a x key, set_motd sch a motd, set_tag sch a tag}"
    and wf: "db_wf db" and run: "m db = (Inr u, db')"
  shows "channel_of db' = channel_of db" "in_guild db' = in_guild db"
proof -
  have "\<exists>g. in_guild db g a \<and> in_guild db' g a \<and> within_guild g db db'
      \<and> (\<forall>y. in_guild db g y \<longleftrightarrow> in_guild db' g y)"
    using assms(1) run within_guild_ops(4,7,8) [OF wf] by (auto simp: promote_def demote_def)
  then obtain g where g: "within_guild g db db'" "\<And>y. in_guild db g y \<longleftrightarrow> in_guild db' g y" by blast
  have "in_guild db' h y = in_guild db h y" for h y
  proof (cases "h = g")
    case False
    then show ?thesis using g(1) by (simp add: within_guild_def in_guild_def)
  qed (simp add: g(2))
  then show "in_guild db' = in_guild db" by (simp add: fun_eq_iff)
  have upd: "channel_of db' = channel_of db"
    if "\<And>r. gd_chat_channel (f r) = gd_chat_channel r" "andThen (require_permission sch a p) (\<lambda>g. update_guild g f) db = (Inr u, db')" for p f
  proof -
    from that(2) obtain h where "update_guild h f db = (Inr u, db')"
      by (auto simp: andThen_apply require_permission_apply split: option.splits sum.splits if_splits)
    then have "map_of (guilds db') = (\<lambda>k. if k = h then map_option f (map_of (guilds db) k) else map_of (guilds db) k)"
      by (auto simp: update_guild_def fun_eq_iff)
    then show ?thesis using that(1) by (simp add: channel_of_def fun_eq_iff split: bind_split option.split)
  qed
  have rank: "channel_of db' = channel_of db" if "change_rank sch a x key p db = (Inr u, db')" for p
    using preservesD [OF guild_ops_frame(3) refl that] by (rule channels_of_guilds)
  show "channel_of db' = channel_of db"
    using assms(1) run rank upd [of "\<lambda>r. r\<lparr>gd_motd := motd\<rparr>" EditMotd] upd [of "\<lambda>r. r\<lparr>gd_tag := tag\<rparr>" EditTag]
    by (auto simp: promote_def demote_def set_motd_def set_tag_def)
qed

lemma then_refresh_chat:
  assumes ok: "guild_chat_ok s"
    and m: "m \<in> {promote sch a x key, demote sch a x key, set_motd sch a motd, set_tag sch a tag}"
  shows "guild_chat_ok (then_refresh e a m s)"
proof -
  have frames: "preserves db_wf m" "preserves (\<lambda>db. accounts db = accounts (so_db s)) m"
    "\<And>db err db'. m db = (Inl err, db') \<Longrightarrow> db' = db"
    using guild_op_frames [of m sch a x key motd tag] account_frames m by (auto simp: promote_def demote_def)
  have wf: "db_wf (so_db s)" using ok by (simp add: stores_ok_def)
  obtain r t where run: "run_db m s = (r, t)" by force
  have t: "m (so_db s) = (r, so_db t)" "so_chat t = so_chat s" using run_db_touched [OF run] by simp_all
  show ?thesis
  proof (cases r)
    case (Inl err)
    then have "so_db t = so_db s" using t(1) frames(3) by blast
    then show ?thesis using run Inl t ok by (simp add: then_refresh_def)
  next
    case (Inr u)
    have "guild_chat_ok t" unfolding t(2)
      by (rule stores_same [OF ok]) (use t(1) Inr wf frames rank_and_text_effects [OF m wf] in \<open>auto dest: preservesD\<close>)
    then show ?thesis using run Inr by (simp add: then_refresh_def refresh_after_guild_change_def split: option.split)
  qed
qed

lemma on_party_response_chat:
  assumes ok: "guild_chat_ok s"
  shows "guild_chat_ok (on_party_response sch fresh e ch accept s)"
proof -
  have keep: "stores_ok db' (so_chat s)" if "accept_party_invite sch fresh i ch ty (so_db s) = (r, db')" for i ty r db'
  proof (rule stores_same [OF ok])
    have wf: "db_wf (so_db s)" using ok by (simp add: stores_ok_def)
    have "guild_tables db' = guild_tables (so_db s)" by (rule preservesD [OF party_ops_spare_guilds(1) refl that])
    then show "channel_of db' = channel_of (so_db s)" "in_guild db' = in_guild (so_db s)"
      by (simp_all add: guild_tables_def channel_of_def in_guild_def fun_eq_iff)
    show "db_wf db'" by (rule preservesD [OF pres_accept_party_invite wf that])
    show "accounts db' = accounts (so_db s)" by (rule preservesD [OF account_frames(9) refl that])
  qed
  show ?thesis using ok
    by (auto simp: on_party_response_def Let_def run_db_def keep split: option.split prod.split sum.split)
qed

lemma on_party_leave_chat:
  assumes ok: "guild_chat_ok s"
  shows "guild_chat_ok (on_party_leave e ch s)"
proof -
  have keep: "stores_ok db' (so_chat s)" if "leave_party ch (so_db s) = (r, db')" for r db'
  proof (rule stores_same [OF ok])
    have wf: "db_wf (so_db s)" using ok by (simp add: stores_ok_def)
    have "guild_tables db' = guild_tables (so_db s)" by (rule preservesD [OF party_ops_spare_guilds(2) refl that])
    then show "channel_of db' = channel_of (so_db s)" "in_guild db' = in_guild (so_db s)"
      by (simp_all add: guild_tables_def channel_of_def in_guild_def fun_eq_iff)
    show "db_wf db'" by (rule preservesD [OF pres_leave_party wf that])
    show "accounts db' = accounts (so_db s)" by (rule preservesD [OF account_frames(10) refl that])
  qed
  show ?thesis using ok
    by (auto simp: on_party_leave_def Let_def run_db_def keep split: option.split prod.split sum.split)
qed

text \<open>A change of membership in guild \<open>g\<close>, after which the channel's rows follow.\<close>

lemma stores_followed:
  assumes ok: "guild_chat_ok s" and wf: "db_wf db'" and acc: "accounts db' = accounts (so_db s)"
    and chan: "\<And>h c. channel_of db' h = Some c \<Longrightarrow> channel_of (so_db s) h = Some c"
    and cdb: "so_chat s = Some cdb" "chat_wf cdb'" "chat_channels cdb' = chat_channels cdb" "chat_accounts cdb' = chat_accounts cdb"
    and rows: "\<And>h c x. channel_of db' h = Some c \<Longrightarrow> (\<forall>y. (c, y) \<in> set (chat_members cdb) \<longleftrightarrow> in_guild (so_db s) h y) \<Longrightarrow>
      (\<forall>h'. channel_of (so_db s) h' = Some c \<longrightarrow> h' = h) \<Longrightarrow> (c, x) \<in> set (chat_members cdb') \<longleftrightarrow> in_guild db' h x"
  shows "stores_ok db' (Some cdb')"
proof -
  obtain m: "mirrored (so_db s) cdb" and acc0: "set (accounts (so_db s)) \<subseteq> set (chat_accounts cdb)"
    using ok cdb(1) by (auto simp: stores_ok_def)
  have "mirrored db' cdb'"
  proof (rule mirrored_upd [OF m])
    show "guild_channel cdb c \<Longrightarrow> guild_channel cdb' c" for c by (simp add: guild_channel_def cdb(3))
    show "channel_of db' h = Some c \<Longrightarrow> channel_of (so_db s) h = Some c" for h c by (rule chan)
    show "channel_of db' h = Some c \<Longrightarrow> (c, x) \<in> set (chat_members cdb') \<longleftrightarrow> in_guild db' h x" for h c x
      using rows [of h c x] chan [of h c] m unfolding mirrored_def by blast
  qed
  then show ?thesis using wf acc acc0 cdb by (simp add: stores_ok_def)
qed

lemma on_guild_response_chat:
  assumes ok: "guild_chat_ok s"
  shows "guild_chat_ok (on_guild_response sch e a accept s)"
proof -
  have joined: "guild_chat_ok (sync_chat_join g a t)"
    if t: "accept_guild_invite sch i a (so_db s) = (Inr g, so_db t)" "so_chat t = so_chat s" for i g t
  proof -
    obtain cdb where c: "so_chat s = Some cdb" "db_wf (so_db s)" "chat_wf cdb"
      "set (accounts (so_db s)) \<subseteq> set (chat_accounts cdb)" "mirrored (so_db s) cdb" by (rule stores_okE [OF ok])
    have m: "member (so_db t) = (member (so_db s))(a \<mapsto> (g, gr_key (default_member_rank sch)))" "member (so_db s) a = None"
      using accept_guild_invite_Inr [OF t(1)] by blast+
    have wf: "db_wf (so_db t)" by (rule preservesD [OF pres_guild_ops(2) c(2) t(1)])
    have acc: "accounts (so_db t) = accounts (so_db s)" by (rule preservesD [OF account_frames(2) refl t(1)])
    have chan: "channel_of (so_db t) = channel_of (so_db s)"
      by (rule channels_of_guilds, rule preservesD [OF guild_ops_frame(1) refl t(1)])
    have "a \<in> set (chat_accounts cdb)" using db_wf_guild_member [OF wf, of a] m(1) acc c(4) by auto
    moreover have "guild_channel cdb k" if "channel_of (so_db t) g = Some k" for k
      using that chan c(5) by (simp add: mirrored_def)
    ultimately obtain cdb' where cdb': "so_chat (sync_chat_join g a t) = Some cdb'" "chat_wf cdb'"
      "chat_channels cdb' = chat_channels cdb" "chat_accounts cdb' = chat_accounts cdb"
      "\<forall>k x. (k, x) \<in> set (chat_members cdb') \<longleftrightarrow> (k, x) \<in> set (chat_members cdb) \<or> channel_of (so_db t) g = Some k \<and> x = a"
      using sync_join [of t cdb a g] c(1,3) t(2) by auto
    have "stores_ok (so_db t) (Some cdb')"
    proof (rule stores_followed [OF ok wf acc _ c(1) cdb'(2-4)])
      fix h k x assume k: "channel_of (so_db t) h = Some k" "\<forall>y. (k, y) \<in> set (chat_members cdb) \<longleftrightarrow> in_guild (so_db s) h y"
        "\<forall>h'. channel_of (so_db s) h' = Some k \<longrightarrow> h' = h"
      have "\<not> in_guild (so_db s) h a" using m(2) by (simp add: in_guild_def)
      moreover have "channel_of (so_db t) g = Some k \<longleftrightarrow> g = h" using k(1,3) unfolding chan by blast
      ultimately show "(k, x) \<in> set (chat_members cdb') \<longleftrightarrow> in_guild (so_db t) h x"
        unfolding in_guild_upd(2) [OF m(1), of h x] cdb'(5) [rule_format] k(2) [rule_format] by auto
    qed (simp add: chan)
    then show ?thesis using cdb'(1) by (simp add: sync_frame)
  qed
  have refused: "stores_ok db' (so_chat s)" if "accept_guild_invite sch i a (so_db s) = (Inl err, db')" for i err db'
    using guild_refused(2) [OF that] ok by simp
  show ?thesis using ok
    by (auto simp: on_guild_response_def Let_def run_db_def refused joined split: option.split prod.split sum.split)
qed

text \<open>An account that left guild \<open>g\<close> is taken out of its channel.\<close>

lemma left_chat:
  assumes ok: "guild_chat_ok s" and g: "in_guild (so_db s) g x" and wf: "db_wf (so_db t)"
    and acc: "accounts (so_db t) = accounts (so_db s)" and m: "member (so_db t) = (member (so_db s))(x := None)"
    and chan: "\<And>h c. channel_of (so_db t) h = Some c \<Longrightarrow> channel_of (so_db s) h = Some c"
    and chat: "so_chat t = so_chat s"
  shows "guild_chat_ok (sync_chat_leave (Some g) x t)"
proof -
  obtain cdb where c: "so_chat s = Some cdb" "db_wf (so_db s)" "chat_wf cdb" "mirrored (so_db s) cdb"
    by (rule stores_okE [OF ok])
  have gc: "guild_channel cdb k" if "channel_of (so_db t) g = Some k" for k
    using chan [OF that] c(4) by (simp add: mirrored_def)
  obtain cdb' where cdb': "so_chat (sync_chat_leave (Some g) x t) = Some cdb'" "chat_wf cdb'"
      "chat_channels cdb' = chat_channels cdb" "chat_accounts cdb' = chat_accounts cdb"
      "\<forall>k y. (k, y) \<in> set (chat_members cdb') \<longleftrightarrow>
        (k, y) \<in> set (chat_members cdb) \<and> \<not> (channel_of (so_db t) g = Some k \<and> y = x)"
    using sync_leave [of t cdb g x] c(1,3) chat gc by auto
  have "stores_ok (so_db t) (Some cdb')"
  proof (rule stores_followed [OF ok wf acc chan c(1) cdb'(2-4)])
    fix h k y assume k: "channel_of (so_db t) h = Some k" "\<forall>y. (k, y) \<in> set (chat_members cdb) \<longleftrightarrow> in_guild (so_db s) h y"
      "\<forall>h'. channel_of (so_db s) h' = Some k \<longrightarrow> h' = h"
    have "channel_of (so_db t) g = Some k \<longleftrightarrow> g = h" using k(1,3) chan [of g k] by blast
    moreover have "in_guild (so_db s) h x \<longleftrightarrow> g = h" using g by (auto simp: in_guild_def)
    ultimately show "(k, y) \<in> set (chat_members cdb') \<longleftrightarrow> in_guild (so_db t) h y"
      unfolding in_guild_upd(1) [OF m, of h y] cdb'(5) [rule_format] k(2) [rule_format] by auto
  qed
  then show ?thesis using cdb'(1) by (simp add: sync_frame)
qed

lemma on_guild_kick_chat:
  assumes ok: "guild_chat_ok s"
  shows "guild_chat_ok (on_guild_kick sch parse_id e a target s)"
proof -
  have wf: "db_wf (so_db s)" using ok by (simp add: stores_ok_def)
  have refused: "stores_ok db' (so_chat s)" if "kick sch a x (so_db s) = (Inl err, db')" for x err db'
    using guild_refused(3) [OF that] ok by simp
  have kicked: "guild_chat_ok (sync_chat_leave (guild_now s a) x (s\<lparr>so_db := db'\<rparr>))"
    if run: "kick sch a x (so_db s) = (Inr u, db')" for x u db'
  proof -
    obtain g where g: "in_guild (so_db s) g a" "in_guild (so_db s) g x" using within_guild_ops(3) [OF wf run] by blast
    have "guild_now s a = Some g" using g(1) by (simp add: guild_now_eq in_guild_def)
    moreover have m: "member db' = (member (so_db s))(x := None)"
      using kick_Inr [OF db_wf_unique(11) [OF wf] run] by blast
    moreover have "channel_of db' = channel_of (so_db s)"
      by (rule channels_of_guilds, rule preservesD [OF guild_ops_frame(2) refl run])
    ultimately have "guild_chat_ok (sync_chat_leave (Some g) x (s\<lparr>so_db := db'\<rparr>))"
      using preservesD [OF pres_guild_ops(3) wf run] preservesD [OF account_frames(3) refl run]
      by (intro left_chat [OF ok g(2)]) simp_all
    then show ?thesis using \<open>guild_now s a = Some g\<close> by simp
  qed
  show ?thesis using ok kicked
    by (auto simp: on_guild_kick_def with_target_account_def Let_def run_db_def refused
        split: option.split prod.split sum.split)
qed

lemma disbanded_stores:
  assumes ok: "guild_chat_ok s" and run: "disband sch a (so_db s) = (Inr u, db')"
  shows "stores_ok db' (so_chat s) \<and> (\<exists>g. guild_now s a = Some g \<and> channel_of db' g = None)"
proof -
  obtain cdb where c: "so_chat s = Some cdb" "db_wf (so_db s)" "chat_wf cdb" by (rule stores_okE [OF ok])
  obtain g where g: "in_guild (so_db s) g a" "within_guild g (so_db s) db'" "map_of (guilds db') g = None"
    using within_guild_ops(6) [OF c(2) run] by blast
  have other: "channel_of db' h = channel_of (so_db s) h" "in_guild db' h y = in_guild (so_db s) h y" if "h \<noteq> g" for h y
    using g(2) that by (simp_all add: within_guild_def channel_of_def in_guild_def)
  have none: "channel_of db' g = None" using g(3) by (simp add: channel_of_def)
  have "stores_ok db' (Some cdb)"
  proof (rule stores_followed [OF ok _ _ _ c(1,3) refl refl])
    show "db_wf db'" by (rule preservesD [OF pres_guild_ops(6) c(2) run])
    show "accounts db' = accounts (so_db s)" by (rule preservesD [OF account_frames(6) refl run])
    show "channel_of db' h = Some k \<Longrightarrow> channel_of (so_db s) h = Some k" for h k
      using none other(1) [of h] by (cases "h = g") auto
    fix h k y assume k: "channel_of db' h = Some k" "\<forall>y. (k, y) \<in> set (chat_members cdb) \<longleftrightarrow> in_guild (so_db s) h y"
    then have "h \<noteq> g" using none by auto
    then show "(k, y) \<in> set (chat_members cdb) \<longleftrightarrow> in_guild db' h y" using k(2) other(2) by simp
  qed
  then show ?thesis using g(1) none c(1) by (auto simp: guild_now_eq in_guild_def)
qed

lemma no_channel_sync: "channel_of (so_db s) g = None \<Longrightarrow> fold (sync_chat_leave (Some g)) as s = s"
  by (induction as) (simp_all add: sync_leave_eq)

lemma on_guild_leave_chat:
  assumes ok: "guild_chat_ok s"
  shows "guild_chat_ok (handle_guild_leave_or_disband sch e a False s)"
proof -
  have wf: "db_wf (so_db s)" using ok by (simp add: stores_ok_def)
  have refused: "stores_ok db' (so_chat s)" if "leave_guild sch a (so_db s) = (Inl err, db')" for err db'
    using guild_refused(5) [OF that] ok by simp
  have left: "guild_chat_ok (sync_chat_leave (guild_now s a) a (s\<lparr>so_db := db'\<rparr>))"
    if run: "leave_guild sch a (so_db s) = (Inr u, db')" for u db'
  proof -
    obtain g k where g: "member (so_db s) a = Some (g, k)" "member db' = (member (so_db s))(a := None)"
      "if is_founder_rank sch k then (\<forall>x k. member (so_db s) x = Some (g, k) \<longrightarrow> x = a)
          \<and> map_of (guilds db') = (map_of (guilds (so_db s)))(g := None) else guilds db' = guilds (so_db s)"
      using leave_guild_Inr [OF db_wf_unique(11) [OF wf] run] by blast
    have "channel_of db' h = Some c \<Longrightarrow> channel_of (so_db s) h = Some c" for h c
      using g(3) by (cases "is_founder_rank sch k") (auto simp: channel_of_def split: if_splits)
    moreover have "guild_now s a = Some g" "in_guild (so_db s) g a" using g(1) by (simp_all add: guild_now_eq in_guild_def)
    ultimately have "guild_chat_ok (sync_chat_leave (Some g) a (s\<lparr>so_db := db'\<rparr>))"
      using g(2) preservesD [OF pres_guild_ops(5) wf run] preservesD [OF account_frames(5) refl run]
      by (intro left_chat [OF ok]) simp_all
    then show ?thesis using \<open>guild_now s a = Some g\<close> by simp
  qed
  show ?thesis using ok left
    by (auto simp: handle_guild_leave_or_disband_def Let_def run_db_def refused
        split: option.split prod.split sum.split)
qed

lemma on_guild_disband_chat:
  assumes ok: "guild_chat_ok s"
  shows "guild_chat_ok (handle_guild_leave_or_disband sch e a True s)"
proof (cases "disband sch a (so_db s)")
  case (Pair r db')
  show ?thesis
  proof (cases r)
    case (Inl err)
    then have "db' = so_db s" using Pair disband_refused by blast
    then show ?thesis using Pair Inl ok by (simp add: handle_guild_leave_or_disband_def Let_def run_db_def)
  next
    case (Inr u)
    then have "disband sch a (so_db s) = (Inr u, db')" using Pair by simp
    from disbanded_stores [OF ok this] obtain g where
      "stores_ok db' (so_chat s)" "guild_now s a = Some g" "channel_of db' g = None" by blast
    then show ?thesis using Pair Inr
      by (simp add: handle_guild_leave_or_disband_def Let_def run_db_def no_channel_sync)
  qed
qed

text \<open>A new guild, with the channel made for it just before.\<close>

lemma create_guild_chat:
  assumes ok: "guild_chat_ok s" and run: "run_chat (create_guild fc a name) s = (ch, s1)"
  shows "so_db s1 = so_db s \<and> guild_chat_ok s1 \<and> (\<forall>c. ch = Some c \<longrightarrow> (\<forall>h. channel_of (so_db s) h \<noteq> Some c)
    \<and> (\<exists>cdb1. so_chat s1 = Some cdb1 \<and> guild_channel cdb1 c \<and> (\<forall>y. (c, y) \<in> set (chat_members cdb1) \<longleftrightarrow> y = a)))"
proof -
  obtain cdb where c: "so_chat s = Some cdb" "db_wf (so_db s)" "chat_wf cdb"
    "set (accounts (so_db s)) \<subseteq> set (chat_accounts cdb)" "mirrored (so_db s) cdb" by (rule stores_okE [OF ok])
  obtain r cdb1 where r: "create_guild fc a name cdb = (r, cdb1)" by force
  show ?thesis
  proof (cases r)
    case (Inl err)
    then have "cdb1 = cdb" using r create_named_Inl unfolding create_guild_def by blast
    then have "s1 = s" "ch = None" using run r Inl c(1) by (auto simp: run_chat_def)
    then show ?thesis using ok by simp
  next
    case (Inr c')
    then have s1: "ch = Some c'" "s1 = s\<lparr>so_chat := Some cdb1\<rparr>" using run r c(1) by (auto simp: run_chat_def)
    obtain row where row: "c' = fc" "\<not> has_row (chat_channels cdb) fc" "cc_type row = GuildChannel"
      "cdb1 = cdb\<lparr>chat_channels := chat_channels cdb @ [(fc, row)], chat_members := chat_members cdb @ map (Pair fc) [a]\<rparr>"
    proof -
      have "create_named fc GuildChannel a name cdb = (Inr c', cdb1)" using r Inr by (simp add: create_guild_def)
      from create_named_Inr [OF this] show ?thesis by (auto intro!: that)
    qed
    have wf1: "chat_wf cdb1"
      by (rule preservesD [OF pres_create_named c(3) r [unfolded create_guild_def]]) simp
    note look = map_of_new_channel [OF row(2), of row]
    have "\<not> guild_channel cdb fc" using row(2) by (simp add: guild_channel_def has_row_def)
    then have new: "channel_of (so_db s) h \<noteq> Some fc" for h using c(5) unfolding mirrored_def by blast
    have "mirrored (so_db s) cdb1"
    proof (rule mirrored_upd [OF c(5)])
      show "guild_channel cdb k \<Longrightarrow> guild_channel cdb1 k" for k
        using row(2) by (auto simp: guild_channel_def row(4) look has_row_def)
      show "(k, y) \<in> set (chat_members cdb1) \<longleftrightarrow> in_guild (so_db s) h y" if "channel_of (so_db s) h = Some k" for h k y
      proof -
        have "k \<noteq> fc" using new that by auto
        then show ?thesis using that c(5) by (simp add: row(4) mirrored_def)
      qed
    qed
    then have "guild_chat_ok s1" using c(2,4) wf1 by (simp add: stores_ok_def s1(2) row(4))
    moreover from look have "map_of (chat_channels cdb1) fc = Some row" by (simp add: row(4) del: map_of_append)
    with row(3) have "guild_channel cdb1 fc" by (simp add: guild_channel_def)
    moreover have "(fc, y) \<in> set (chat_members cdb1) \<longleftrightarrow> y = a" for y
      using absent_no_members [OF c(3) row(2)] by (auto simp: row(4) members_in_def)
    ultimately show ?thesis using s1 row(1) new by simp
  qed
qed

lemma guild_create_channels:
  assumes "guild_create sch fresh a name realm channel db = (Inr g, db')" and wf: "db_wf db"
  shows "channel_of db' h = (if h = g then channel else channel_of db h)" "channel_of db g = None"
    and "in_guild db' h y \<longleftrightarrow> (if y = a then h = g else in_guild db h y)" "\<not> in_guild db g y" "\<not> in_guild db h a"
proof -
  note m = guild_create_Inr [OF assms(1)]
  have "\<exists>row. map_of (guilds db') = (map_of (guilds db))(fresh \<mapsto> row) \<and> gd_chat_channel row = channel"
    using assms(1) by (auto simp: guild_create_def andThen_Inr guild_of_def membership_def insert_guild_def
      insert_guild_member_def fun_eq_iff simp del: guard_steps split: if_splits)
  then show "channel_of db' h = (if h = g then channel else channel_of db h)"
    using m by (auto simp: channel_of_def)
  show "channel_of db g = None" using m by (simp add: channel_of_def has_row_def)
  show "in_guild db' h y \<longleftrightarrow> (if y = a then h = g else in_guild db h y)"
    using m by (auto simp: in_guild_upd(2))
  show "\<not> in_guild db g y" using m db_wf_guild_member [OF wf, of y g] by (auto simp: in_guild_def)
  show "\<not> in_guild db h a" using m by (simp add: in_guild_def)
qed

lemma on_guild_create_chat:
  assumes ok: "guild_chat_ok s"
  shows "guild_chat_ok (on_guild_create sch realm fresh fc e a name s)"
proof -
  obtain ch s1 where chat: "run_chat (create_guild fc a name) s = (ch, s1)" by force
  note s1 = create_guild_chat [OF ok chat]
  obtain r t where run: "run_db (guild_create sch fresh a name realm ch) s1 = (r, t)" by force
  have t: "guild_create sch fresh a name realm ch (so_db s1) = (r, so_db t)" "so_chat t = so_chat s1"
    using run_db_touched [OF run] by simp_all
  show ?thesis
  proof (cases r)
    case (Inl err)
    then have "so_db t = so_db s1" using t(1) guild_refused(1) by blast
    then have "guild_chat_ok t" using s1 t(2) by metis
    then show ?thesis using chat run Inl by (simp add: on_guild_create_def)
  next
    case (Inr g)
    obtain cdb1 where c: "so_chat s1 = Some cdb1" "db_wf (so_db s1)" "chat_wf cdb1"
      "set (accounts (so_db s1)) \<subseteq> set (chat_accounts cdb1)" "mirrored (so_db s1) cdb1"
      using s1 stores_okE [of s1] by blast
    note eff = guild_create_channels [OF t(1) [unfolded Inr] c(2)]
    have new: "guild_channel cdb1 k \<and> (\<forall>y. (k, y) \<in> set (chat_members cdb1) \<longleftrightarrow> y = a)
        \<and> (\<forall>h. channel_of (so_db s1) h \<noteq> Some k)" if "ch = Some k" for k
      using s1 that c(1) by auto
    have "mirrored (so_db t) cdb1"
      unfolding mirrored_def
    proof (intro conjI allI impI)
      fix h k assume k: "channel_of (so_db t) h = Some k"
      show "guild_channel cdb1 k" using k eff(1) [of h] new c(5) by (cases "h = g") (auto simp: mirrored_def)
      show "(k, y) \<in> set (chat_members cdb1) \<longleftrightarrow> in_guild (so_db t) h y" for y
      proof (cases "h = g")
        case True
        then show ?thesis using k eff(1) [of h] eff(3) [of h y] eff(4) new by auto
      next
        case False
        then have "channel_of (so_db s1) h = Some k" using k eff(1) by simp
        then show ?thesis using False eff(3) [of h y] eff(5) [of h] c(5) by (auto simp: mirrored_def)
      qed
    next
      fix h h' k assume k: "channel_of (so_db t) h = Some k" "channel_of (so_db t) h' = Some k"
      consider "h = h'" | "h = g" "h' \<noteq> g" | "h \<noteq> g" "h' = g" | "h \<noteq> g" "h' \<noteq> g" by blast
      then show "h = h'"
      proof cases
        case 2
        then have "ch = Some k" "channel_of (so_db s1) h' = Some k" using k eff(1) by simp_all
        then show ?thesis using new by blast
      next
        case 3
        then have "ch = Some k" "channel_of (so_db s1) h = Some k" using k eff(1) by simp_all
        then show ?thesis using new by blast
      next
        case 4
        then have "channel_of (so_db s1) h = Some k" "channel_of (so_db s1) h' = Some k" using k eff(1) by simp_all
        then show ?thesis using c(5) unfolding mirrored_def by blast
      qed simp
    qed
    moreover have "db_wf (so_db t)" by (rule preservesD [OF pres_guild_ops(1) c(2) t(1)])
    moreover have "accounts (so_db t) = accounts (so_db s1)" by (rule preservesD [OF account_frames(1) refl t(1)])
    ultimately have "guild_chat_ok t" using c t(2) by (simp add: stores_ok_def)
    then show ?thesis using chat run Inr by (simp add: on_guild_create_def)
  qed
qed

lemma invites_chat:
  assumes "guild_chat_ok s"
  shows "guild_chat_ok (on_join_group_layer parse_id e ch other s)" "guild_chat_ok (on_party_invite parse_id e target ty s)"
    "guild_chat_ok (on_guild_invite parse_id e target s)"
  using assms by (simp_all add: on_join_group_layer_def on_party_invite_def on_guild_invite_def Let_def split: option.split)

lemma on_guild_rank_chat:
  assumes ok: "guild_chat_ok s"
  shows "guild_chat_ok (on_guild_promote sch parse_id e a target key s)" "guild_chat_ok (on_guild_demote sch parse_id e a target key s)"
    "guild_chat_ok (on_guild_set_motd sch e a motd s)" "guild_chat_ok (on_guild_set_tag sch e a tag s)"
proof -
  have p: "guild_chat_ok (then_refresh e a (promote sch a x key) s)" "guild_chat_ok (then_refresh e a (demote sch a x key) s)" for x
    by (rule then_refresh_chat [OF ok]; blast)+
  show "guild_chat_ok (on_guild_promote sch parse_id e a target key s)" "guild_chat_ok (on_guild_demote sch parse_id e a target key s)"
    using ok p by (simp_all add: on_guild_promote_def on_guild_demote_def with_target_account_def split: option.split)
  show "guild_chat_ok (on_guild_set_motd sch e a motd s)" "guild_chat_ok (on_guild_set_tag sch e a tag s)"
    unfolding on_guild_set_motd_def on_guild_set_tag_def by (rule then_refresh_chat [OF ok]; blast)+
qed

lemma on_social_chat: "guild_chat_ok s \<Longrightarrow> guild_chat_ok (on_social cfg fresh c msg s)"
  by (cases msg) (simp_all add: on_social_def Let_def invites_chat on_guild_rank_chat on_party_response_chat
      on_party_leave_chat on_guild_create_chat on_guild_response_chat on_guild_leave_chat on_guild_disband_chat
      on_guild_kick_chat)

lemma social_run_chat: "guild_chat_ok s \<Longrightarrow> guild_chat_ok (social_run cfg msgs s)"
proof (induction msgs arbitrary: s)
  case (Cons m msgs)
  then show ?case by (cases m) (simp add: social_run_def on_social_chat)
qed (simp add: social_run_def)


definition sample_chat_social :: social where
  "sample_chat_social = sample_social\<lparr>so_chat := Some (empty_chat [Id 1, Id 2, Id 3])\<rparr>"

lemma sample_chat_ok: "guild_chat_ok sample_chat_social"
  by (simp add: stores_ok_def sample_chat_social_def sample_social_def chat_wf_empty empty_chat_def [of "[Id 1, Id 2, Id 3]", symmetric])
    (simp add: mirrored_def channel_of_def empty_chat_def sample_db_def empty_db_def)


text \<open>
  Dissolving a guild leaves its channel behind: the rows are looked up through the guild, which is gone by
  then. The two members of the disbanded guild are still members of its channel.
\<close>

theorem disbanding_keeps_the_channel:
  "let s' = social_run sample_social_config
        (sample_messages @ [(\<lparr>fi_party = Id 7, fi_guild = Id 5, fi_channel = Id 9\<rparr>, hd sample_players, C_GuildDisband)])
        sample_chat_social in
    guilds (so_db s') = [] \<and> guild_members (so_db s') = []
    \<and> map_option chat_members (so_chat s') = Some [(Id 9, Id 1), (Id 9, Id 2)]"
  by code_simp

end
