(* ===== verification/Authentication.thy ===== *)
theory Authentication
  imports Protocols
begin

text \<open>
  \<^verbatim>\<open>crates/auth\<close> and the first message of a connection (\<^verbatim>\<open>authenticate\<close> in \<^verbatim>\<open>server/src/session.rs\<close>): the
  account and role stores in Postgres and their in-memory counterparts, session tokens in Redis,
  the username/password provider. Argon2 (\<open>hash\<close>, \<open>verify\<close>), the drawn token bytes, fresh account
  ids, the printing of ids and the clock are arguments. A Redis key past its expiry is not found.
\<close>

section \<open>Stores\<close>

record account =
  ac_id :: account_id
  ac_username :: string
  ac_password_hash :: string

datatype auth_error =
    AuthSql sql_error
  | UsernameTaken string
  | HashingFailed
  | StoredHashInvalid
  | NotUsernamePassword
  | InvalidCredentials
  | TokenInvalidOrExpired
  | CorruptSessionRecord
  | AccountGone

text \<open>\<open>au_sessions\<close> maps the token of a Redis key to its value and the time the key expires.\<close>

record auth_db =
  au_accounts :: "account list"
  au_roles :: "(account_id \<times> string) list"
  au_sessions :: "(string, string \<times> int) table"

type_synonym 'a auth = "(auth_db, auth_error, 'a) action"

text \<open>\<^verbatim>\<open>PostgresAccountStore\<close>: any unique violation is reported as the name being taken.\<close>

definition insert_account :: "account \<Rightarrow> unit auth" where
  "insert_account a = (\<lambda>s.
     if list_ex (\<lambda>b. ac_id b = ac_id a \<or> ac_username b = ac_username a) (au_accounts s)
     then (Inl (AuthSql UniqueViolation), s)
     else (Inr (), s\<lparr>au_accounts := au_accounts s @ [a]\<rparr>))"

definition account_create :: "account_id \<Rightarrow> string \<Rightarrow> string \<Rightarrow> account_id auth" where
  "account_create fresh username password_hash = (\<lambda>s.
     case insert_account \<lparr>ac_id = fresh, ac_username = username, ac_password_hash = password_hash\<rparr> s of
       (Inl e, s') \<Rightarrow> (Inl (if e = AuthSql UniqueViolation then UsernameTaken username else e), s')
     | (Inr _, s') \<Rightarrow> (Inr fresh, s'))"

definition account_by_username :: "string \<Rightarrow> account option auth" where
  "account_by_username username = query (\<lambda>s. List.find (\<lambda>a. ac_username a = username) (au_accounts s))"

definition account_by_id :: "account_id \<Rightarrow> account option auth" where
  "account_by_id i = query (\<lambda>s. List.find (\<lambda>a. ac_id a = i) (au_accounts s))"

text \<open>\<^verbatim>\<open>PostgresAccountRoleStore\<close>.\<close>

definition role_grant :: "account_id \<Rightarrow> string \<Rightarrow> unit auth" where
  "role_grant i role = (\<lambda>s.
     if (i, role) \<in> set (au_roles s) then (Inr (), s)
     else if \<not> list_ex (\<lambda>a. ac_id a = i) (au_accounts s) then (Inl (AuthSql ForeignKeyViolation), s)
     else (Inr (), s\<lparr>au_roles := au_roles s @ [(i, role)]\<rparr>))"

definition role_revoke :: "account_id \<Rightarrow> string \<Rightarrow> unit auth" where
  "role_revoke i role = execute (\<lambda>s. s\<lparr>au_roles := filter (\<lambda>r. r \<noteq> (i, role)) (au_roles s)\<rparr>)"

definition roles_for :: "account_id \<Rightarrow> string list auth" where
  "roles_for i = query (\<lambda>s. map snd (filter (\<lambda>r. fst r = i) (au_roles s)))"

text \<open>\<^verbatim>\<open>InMemoryAccountStore\<close> and \<^verbatim>\<open>InMemoryAccountRoleStore\<close>.\<close>

type_synonym memory_accounts = "(string, account) table"
type_synonym memory_roles = "(account_id, string list) table"

definition memory_create ::
  "account_id \<Rightarrow> string \<Rightarrow> string \<Rightarrow> memory_accounts \<Rightarrow> (auth_error + account_id) \<times> memory_accounts" where
  "memory_create fresh username password_hash m =
     (if has_row m username then (Inl (UsernameTaken username), m)
      else (Inr fresh, put_row username
        \<lparr>ac_id = fresh, ac_username = username, ac_password_hash = password_hash\<rparr> m))"

definition memory_by_username :: "string \<Rightarrow> memory_accounts \<Rightarrow> account option" where
  "memory_by_username username m = map_of m username"

definition memory_by_id :: "account_id \<Rightarrow> memory_accounts \<Rightarrow> account option" where
  "memory_by_id i m = List.find (\<lambda>a. ac_id a = i) (map snd m)"

definition memory_grant :: "account_id \<Rightarrow> string \<Rightarrow> memory_roles \<Rightarrow> memory_roles" where
  "memory_grant i role m = put_row i (List.insert role (case map_of m i of None \<Rightarrow> [] | Some rs \<Rightarrow> rs)) m"

definition memory_revoke :: "account_id \<Rightarrow> string \<Rightarrow> memory_roles \<Rightarrow> memory_roles" where
  "memory_revoke i role m = upd_row i (removeAll role) m"

definition memory_roles_for :: "account_id \<Rightarrow> memory_roles \<Rightarrow> string list" where
  "memory_roles_for i m = (case map_of m i of None \<Rightarrow> [] | Some rs \<Rightarrow> rs)"

section \<open>Sessions\<close>

definition session_ttl_seconds :: int where
  "session_ttl_seconds = 24 * 60 * 60"

record issued_session =
  se_token :: string
  se_account :: account_id
  se_expires_at :: int

definition issue_session :: "(account_id \<Rightarrow> string) \<Rightarrow> string \<Rightarrow> int \<Rightarrow> account_id \<Rightarrow> issued_session auth" where
  "issue_session show_id token now i =
     andThen (execute (\<lambda>s. s\<lparr>au_sessions := put_row token (show_id i, now + session_ttl_seconds) (au_sessions s)\<rparr>))
       (\<lambda>_. ok \<lparr>se_token = token, se_account = i, se_expires_at = now + session_ttl_seconds\<rparr>)"

definition redis_get :: "string \<Rightarrow> int \<Rightarrow> string option auth" where
  "redis_get token now = query (\<lambda>s. case map_of (au_sessions s) token of
     Some (v, expires) \<Rightarrow> if now < expires then Some v else None
   | None \<Rightarrow> None)"

definition redis_expire :: "string \<Rightarrow> int \<Rightarrow> unit auth" where
  "redis_expire token expires = execute (\<lambda>s.
     s\<lparr>au_sessions := upd_row token (\<lambda>(v, _). (v, expires)) (au_sessions s)\<rparr>)"

definition session_resolve ::
  "(string \<Rightarrow> account_id option) \<Rightarrow> string \<Rightarrow> int \<Rightarrow> account_id option auth" where
  "session_resolve parse_id token now =
     andThen (redis_get token now) (\<lambda>stored. case stored of
       None \<Rightarrow> ok None
     | Some v \<Rightarrow>
         andThen (ok_or (parse_id v) CorruptSessionRecord) (\<lambda>i.
         andThen (redis_expire token (now + session_ttl_seconds)) (\<lambda>_.
         ok (Some i))))"

section \<open>The username/password provider\<close>

record auth_env =
  en_hash :: "string \<Rightarrow> string \<Rightarrow> string option"
  en_verify :: "string \<Rightarrow> string \<Rightarrow> bool option"
  en_show_id :: "account_id \<Rightarrow> string"
  en_parse_id :: "string \<Rightarrow> account_id option"

text \<open>What one handshake draws: an account id, a salt, a token.\<close>

record auth_draws =
  dr_account :: account_id
  dr_salt :: string
  dr_token :: string

definition provider_register :: "auth_env \<Rightarrow> auth_draws \<Rightarrow> string \<Rightarrow> string \<Rightarrow> account_id auth" where
  "provider_register env d username password =
     andThen (ok_or (en_hash env (dr_salt d) password) HashingFailed) (\<lambda>h.
     account_create (dr_account d) username h)"

text \<open>The credentials as serde reads them, \<open>None\<close> when they have another shape.\<close>

definition verify_credentials :: "auth_env \<Rightarrow> (string \<times> string) option \<Rightarrow> account_id auth" where
  "verify_credentials env credentials =
     andThen (ok_or credentials NotUsernamePassword) (\<lambda>(username, password).
     andThen (account_by_username username) (\<lambda>found.
     andThen (ok_or found InvalidCredentials) (\<lambda>account.
     andThen (ok_or (en_verify env password (ac_password_hash account)) StoredHashInvalid) (\<lambda>matches.
     if matches then ok (ac_id account) else fail InvalidCredentials))))"

definition provider_resume :: "auth_env \<Rightarrow> int \<Rightarrow> string \<Rightarrow> (account_id \<times> string) auth" where
  "provider_resume env now token =
     andThen (session_resolve (en_parse_id env) token now) (\<lambda>resolved.
     andThen (ok_or resolved TokenInvalidOrExpired) (\<lambda>i.
     andThen (account_by_id i) (\<lambda>found.
     andThen (ok_or found AccountGone) (\<lambda>account.
     ok (i, ac_username account)))))"

definition authenticate ::
  "auth_env \<Rightarrow> auth_draws \<Rightarrow> int \<Rightarrow> auth_client_message \<Rightarrow> (account_id \<times> string \<times> string) auth" where
  "authenticate env d now message = (case message of
     Register username password \<Rightarrow>
       andThen (provider_register env d username password) (\<lambda>i.
       andThen (issue_session (en_show_id env) (dr_token d) now i) (\<lambda>session.
       ok (i, username, se_token session)))
   | Login username password \<Rightarrow>
       andThen (verify_credentials env (Some (username, password))) (\<lambda>i.
       andThen (issue_session (en_show_id env) (dr_token d) now i) (\<lambda>session.
       ok (i, username, se_token session)))
   | Resume session_token \<Rightarrow>
       andThen (provider_resume env now session_token) (\<lambda>(i, username).
       ok (i, username, session_token)))"

text \<open>The handshake of \<^verbatim>\<open>handle_session\<close>: the first envelope, and what is answered; \<open>None\<close> ends the connection.\<close>

datatype handshake_error = Not_Decoded wire_error | Not_Authenticated auth_error

definition auth_handshake ::
  "auth_env \<Rightarrow> (bytes \<Rightarrow> auth_client_kind option option) \<Rightarrow> auth_draws \<Rightarrow> int \<Rightarrow> envelope \<Rightarrow> auth_db
   \<Rightarrow> (handshake_error + account_id \<times> string \<times> string \<times> string list) \<times> auth_db" where
  "auth_handshake env dec d now e s =
     (case from_envelope auth_message_type auth_client_from_proto dec e of
        Inl err \<Rightarrow> (Inl (Not_Decoded err), s)
      | Inr message \<Rightarrow>
          (case authenticate env d now message s of
             (Inl err, s') \<Rightarrow> (Inl (Not_Authenticated err), s')
           | (Inr (i, username, token), s') \<Rightarrow>
               (case roles_for i s' of
                  (Inl err, s'') \<Rightarrow> (Inl (Not_Authenticated err), s'')
                | (Inr roles, s'') \<Rightarrow> (Inr (i, username, token, roles), s''))))"

section \<open>What a handshake does\<close>

definition accounts_ok :: "auth_db \<Rightarrow> bool" where
  "accounts_ok s \<longleftrightarrow> (\<forall>a \<in> set (au_accounts s). \<forall>b \<in> set (au_accounts s).
     ac_id a = ac_id b \<or> ac_username a = ac_username b \<longrightarrow> a = b)"

lemma account_create_eq:
  "account_create i u h s = (if list_ex (\<lambda>b. ac_id b = i \<or> ac_username b = u) (au_accounts s)
     then (Inl (UsernameTaken u), s)
     else (Inr i, s\<lparr>au_accounts := au_accounts s @ [\<lparr>ac_id = i, ac_username = u, ac_password_hash = h\<rparr>]\<rparr>))"
  by (simp add: account_create_def insert_account_def)

lemma issue_session_eq:
  "issue_session sh token now i s = (Inr \<lparr>se_token = token, se_account = i, se_expires_at = now + session_ttl_seconds\<rparr>,
     s\<lparr>au_sessions := put_row token (sh i, now + session_ttl_seconds) (au_sessions s)\<rparr>)"
  by (simp add: issue_session_def)

lemma find_account:
  assumes "accounts_ok s"
  shows "List.find (\<lambda>a. ac_id a = i) (au_accounts s) = Some a \<longleftrightarrow> a \<in> set (au_accounts s) \<and> ac_id a = i"
    "List.find (\<lambda>a. ac_username a = u) (au_accounts s) = Some a \<longleftrightarrow> a \<in> set (au_accounts s) \<and> ac_username a = u"
proof -
  have found: "List.find P xs = Some x \<longleftrightarrow> x \<in> set xs \<and> P x"
    if "\<And>y. y \<in> set xs \<Longrightarrow> P x \<Longrightarrow> P y \<Longrightarrow> x \<in> set xs \<Longrightarrow> y = x" for P and xs :: "account list" and x
    using that by (induction xs) auto
  show "List.find (\<lambda>a. ac_id a = i) (au_accounts s) = Some a \<longleftrightarrow> a \<in> set (au_accounts s) \<and> ac_id a = i"
    "List.find (\<lambda>a. ac_username a = u) (au_accounts s) = Some a \<longleftrightarrow> a \<in> set (au_accounts s) \<and> ac_username a = u"
    using assms by (auto simp: accounts_ok_def intro!: found)
qed

text \<open>The three ways in.\<close>

lemma register_run:
  "authenticate env d now (Register u p) s = (case en_hash env (dr_salt d) p of
     None \<Rightarrow> (Inl HashingFailed, s)
   | Some h \<Rightarrow> if list_ex (\<lambda>b. ac_id b = dr_account d \<or> ac_username b = u) (au_accounts s)
       then (Inl (UsernameTaken u), s)
       else (Inr (dr_account d, u, dr_token d), s\<lparr>
         au_accounts := au_accounts s @ [\<lparr>ac_id = dr_account d, ac_username = u, ac_password_hash = h\<rparr>],
         au_sessions := put_row (dr_token d) (en_show_id env (dr_account d), now + session_ttl_seconds) (au_sessions s)\<rparr>))"
  by (simp add: authenticate_def provider_register_def andThen_apply account_create_eq issue_session_eq split: option.split)

lemma login_run:
  "authenticate env d now (Login u p) s = (case List.find (\<lambda>a. ac_username a = u) (au_accounts s) of
     None \<Rightarrow> (Inl InvalidCredentials, s)
   | Some a \<Rightarrow> (case en_verify env p (ac_password_hash a) of
       None \<Rightarrow> (Inl StoredHashInvalid, s)
     | Some False \<Rightarrow> (Inl InvalidCredentials, s)
     | Some True \<Rightarrow> (Inr (ac_id a, u, dr_token d), s\<lparr>
         au_sessions := put_row (dr_token d) (en_show_id env (ac_id a), now + session_ttl_seconds) (au_sessions s)\<rparr>)))"
  by (simp add: authenticate_def verify_credentials_def account_by_username_def andThen_apply issue_session_eq
      split: option.split bool.split)

lemma resume_run:
  "authenticate env d now (Resume token) s = (case map_of (au_sessions s) token of
     None \<Rightarrow> (Inl TokenInvalidOrExpired, s)
   | Some (v, expires) \<Rightarrow> if \<not> now < expires then (Inl TokenInvalidOrExpired, s)
       else (case en_parse_id env v of
         None \<Rightarrow> (Inl CorruptSessionRecord, s)
       | Some i \<Rightarrow>
           (let s' = s\<lparr>au_sessions := upd_row token (\<lambda>(v, _). (v, now + session_ttl_seconds)) (au_sessions s)\<rparr> in
            case List.find (\<lambda>a. ac_id a = i) (au_accounts s) of
              None \<Rightarrow> (Inl AccountGone, s')
            | Some a \<Rightarrow> (Inr (i, ac_username a, token), s'))))"
  by (simp add: authenticate_def provider_resume_def session_resolve_def redis_get_def redis_expire_def
      account_by_id_def andThen_apply Let_def split: option.split)

section \<open>Every answer speaks for its account\<close>

type_synonym auth_event = "auth_draws \<times> int \<times> auth_client_message"

definition no_accounts :: auth_db where
  "no_accounts = \<lparr>au_accounts = [], au_roles = [], au_sessions = []\<rparr>"

definition auth_step :: "auth_env \<Rightarrow> auth_event \<Rightarrow> auth_db \<Rightarrow> auth_db" where
  "auth_step env e s = (case e of (d, now, msg) \<Rightarrow> snd (authenticate env d now msg s))"

definition auth_after :: "auth_env \<Rightarrow> auth_event list \<Rightarrow> auth_db" where
  "auth_after env evs = fold (auth_step env) evs no_accounts"

definition auth_answer :: "auth_env \<Rightarrow> auth_event list \<Rightarrow> auth_event \<Rightarrow> auth_error + account_id \<times> string \<times> string" where
  "auth_answer env evs e = (case e of (d, now, msg) \<Rightarrow> fst (authenticate env d now msg (auth_after env evs)))"

lemma auth_after_snoc: "auth_after env (evs @ [e]) = auth_step env e (auth_after env evs)"
  by (simp add: auth_after_def)

text \<open>Who registered an account, and which answer last handed out a token.\<close>

definition registered_by :: "auth_env \<Rightarrow> auth_event list \<Rightarrow> account \<Rightarrow> bool" where
  "registered_by env evs a \<longleftrightarrow> (\<exists>d now p. (d, now, Register (ac_username a) p) \<in> set evs
     \<and> dr_account d = ac_id a \<and> en_hash env (dr_salt d) p = Some (ac_password_hash a))"

definition handed_out :: "auth_env \<Rightarrow> auth_event list \<Rightarrow> string \<Rightarrow> account \<Rightarrow> int \<Rightarrow> bool" where
  "handed_out env evs token a now \<longleftrightarrow> (\<exists>pre d msg suf. evs = pre @ (d, now, msg) # suf
     \<and> auth_answer env pre (d, now, msg) = Inr (ac_id a, ac_username a, token))"

definition auth_inv :: "auth_env \<Rightarrow> auth_event list \<Rightarrow> auth_db \<Rightarrow> bool" where
  "auth_inv env evs s \<longleftrightarrow> accounts_ok s
   \<and> (\<forall>a \<in> set (au_accounts s). registered_by env evs a)
   \<and> (\<forall>token v expires. map_of (au_sessions s) token = Some (v, expires) \<longrightarrow>
        (\<exists>a \<in> set (au_accounts s). \<exists>now. v = en_show_id env (ac_id a) \<and> expires = now + session_ttl_seconds
           \<and> handed_out env evs token a now))"

lemma registered_by_mono: "registered_by env evs a \<Longrightarrow> registered_by env (evs @ [e]) a"
  unfolding registered_by_def by (metis Un_iff set_append)

lemma handed_out_mono: "handed_out env evs token a now \<Longrightarrow> handed_out env (evs @ [e]) token a now"
  unfolding handed_out_def by (metis append_Cons append_assoc)

lemma handed_out_now:
  "auth_answer env evs (d, now, msg) = Inr (ac_id a, ac_username a, token) \<Longrightarrow> handed_out env (evs @ [(d, now, msg)]) token a now"
  unfolding handed_out_def by blast

lemma auth_inv_same: "auth_inv env evs s \<Longrightarrow> auth_inv env (evs @ [e]) s"
  unfolding auth_inv_def using registered_by_mono handed_out_mono by meson

lemma auth_inv_token:
  assumes inv: "auth_inv env evs s" and a: "a \<in> set (au_accounts s)"
    and ans: "auth_answer env evs (d, now, msg) = Inr (ac_id a, ac_username a, token)"
    and t: "au_accounts t = au_accounts s"
      "map_of (au_sessions t) = (map_of (au_sessions s))(token \<mapsto> (en_show_id env (ac_id a), now + session_ttl_seconds))"
  shows "auth_inv env (evs @ [(d, now, msg)]) t"
proof -
  have old: "auth_inv env (evs @ [(d, now, msg)]) s" by (rule auth_inv_same [OF inv])
  have new: "handed_out env (evs @ [(d, now, msg)]) token a now" by (rule handed_out_now [OF ans])
  show ?thesis using old new a unfolding auth_inv_def accounts_ok_def t by (auto split: if_splits)
qed

lemma auth_step_inv:
  assumes ids: "\<And>a. en_parse_id env (en_show_id env a) = Some a"
    and inv: "auth_inv env evs (auth_after env evs)"
  shows "auth_inv env (evs @ [(d, now, msg)]) (auth_after env (evs @ [(d, now, msg)]))"
proof -
  let ?s = "auth_after env evs"
  have s': "auth_after env (evs @ [(d, now, msg)]) = snd (authenticate env d now msg ?s)"
    by (simp add: auth_after_snoc auth_step_def)
  have accs: "accounts_ok ?s" using inv by (simp add: auth_inv_def)
  have ans: "auth_answer env evs (d, now, msg) = fst (authenticate env d now msg ?s)" by (simp add: auth_answer_def)
  note keep = auth_inv_same [OF inv, of "(d, now, msg)"]
  show ?thesis
  proof (cases msg)
    case (Register u p)
    show ?thesis
    proof (cases "en_hash env (dr_salt d) p = None \<or> list_ex (\<lambda>b. ac_id b = dr_account d \<or> ac_username b = u) (au_accounts ?s)")
      case True
      then have "snd (authenticate env d now msg ?s) = ?s" by (auto simp: Register register_run split: option.split)
      then show ?thesis using keep s' by simp
    next
      case False
      then obtain h where h: "en_hash env (dr_salt d) p = Some h"
        "\<not> list_ex (\<lambda>b. ac_id b = dr_account d \<or> ac_username b = u) (au_accounts ?s)" by auto
      let ?a = "\<lparr>ac_id = dr_account d, ac_username = u, ac_password_hash = h\<rparr>"
      let ?t = "snd (authenticate env d now msg ?s)"
      have t: "au_accounts ?t = au_accounts ?s @ [?a]"
        "map_of (au_sessions ?t) = (map_of (au_sessions ?s))(dr_token d \<mapsto> (en_show_id env (dr_account d), now + session_ttl_seconds))"
        using h by (simp_all add: Register register_run)
      have new: "handed_out env (evs @ [(d, now, msg)]) (dr_token d) ?a now"
        by (rule handed_out_now) (use h in \<open>simp add: auth_answer_def Register register_run\<close>)
      have reg: "registered_by env (evs @ [(d, now, msg)]) ?a" using h(1) by (auto simp: registered_by_def Register)
      have "accounts_ok ?t" using accs h(2) by (auto simp: accounts_ok_def t list_ex_iff)
      then show ?thesis
        using keep new reg unfolding s' auth_inv_def t by (auto split: if_splits)
    qed
  next
    case (Login u p)
    show ?thesis
    proof (cases "\<exists>i u' tok. fst (authenticate env d now msg ?s) = Inr (i, u', tok)")
      case False
      then have "snd (authenticate env d now msg ?s) = ?s" by (auto simp: Login login_run split: option.splits bool.splits)
      then show ?thesis using keep s' by simp
    next
      case True
      then obtain a where a: "List.find (\<lambda>a. ac_username a = u) (au_accounts ?s) = Some a" "en_verify env p (ac_password_hash a) = Some True"
        by (auto simp: Login login_run split: option.splits bool.splits)
      then have u: "ac_username a = u" "a \<in> set (au_accounts ?s)" using find_account(2) [OF accs] by auto
      show ?thesis unfolding s'
        by (rule auth_inv_token [OF inv u(2), where token = "dr_token d"])
          (use a u(1) in \<open>simp_all add: auth_answer_def Login login_run\<close>)
    qed
  next
    case (Resume token)
    show ?thesis
    proof (cases "\<exists>v expires. map_of (au_sessions ?s) token = Some (v, expires) \<and> now < expires")
      case False
      then have "snd (authenticate env d now msg ?s) = ?s" by (auto simp: Resume resume_run split: option.splits)
      then show ?thesis using keep s' by simp
    next
      case True
      then obtain v expires where row: "map_of (au_sessions ?s) token = Some (v, expires)" "now < expires" by blast
      then obtain a where a: "a \<in> set (au_accounts ?s)" "v = en_show_id env (ac_id a)"
        using inv unfolding auth_inv_def by blast
      have f: "List.find (\<lambda>b. ac_id b = ac_id a) (au_accounts ?s) = Some a" using find_account(1) [OF accs] a(1) by blast
      show ?thesis unfolding s'
        by (rule auth_inv_token [OF inv a(1), where token = token])
          (use a row f ids in \<open>simp_all add: auth_answer_def Resume resume_run Let_def fun_eq_iff\<close>)
    qed
  qed
qed

lemma auth_inv_run:
  assumes "\<And>a. en_parse_id env (en_show_id env a) = Some a"
  shows "auth_inv env evs (auth_after env evs)"
proof (induction evs rule: rev_induct)
  case Nil
  show ?case by (simp add: auth_after_def no_accounts_def auth_inv_def accounts_ok_def)
next
  case (snoc e evs)
  then show ?case using auth_step_inv [OF assms snoc.IH] by (cases e) simp
qed


text \<open>A concrete environment: ids are printed as their bits, the hash is the salt and the password.\<close>

definition show_bits :: "account_id \<Rightarrow> string" where
  "show_bits i = map (\<lambda>k. if bit (as_uuid i) k then CHR ''1'' else CHR ''0'') [0..<128]"

definition parse_bits :: "string \<Rightarrow> account_id option" where
  "parse_bits s = Some (Id (horner_sum of_bool 2 (map (\<lambda>c. c = CHR ''1'') s)))"

lemma parse_show_bits: "parse_bits (show_bits i) = Some i"
proof -
  have "map (\<lambda>c. c = CHR ''1'') (show_bits i) = map (bit (as_uuid i)) [0..<128]" by (simp add: show_bits_def)
  moreover have "take_bit 128 (as_uuid i) = as_uuid i" using take_bit_length_eq [of "as_uuid i"] by simp
  ultimately show ?thesis by (cases i) (simp add: parse_bits_def horner_sum_bit_eq_take_bit)
qed

definition sample_env :: auth_env where
  "sample_env = \<lparr>en_hash = (\<lambda>salt p. Some (salt @ p)), en_verify = (\<lambda>p h. Some (tl h = p)),
     en_show_id = show_bits, en_parse_id = parse_bits\<rparr>"

definition sample_draws :: "nat \<Rightarrow> auth_draws" where
  "sample_draws n = \<lparr>dr_account = Id (of_nat n), dr_salt = ''s'', dr_token = replicate n CHR ''t''\<rparr>"

definition sample_handshakes :: "auth_event list" where
  "sample_handshakes = [(sample_draws 1, 0, Register ''ann'' ''pw''), (sample_draws 2, 100, Login ''ann'' ''pw'')]"

lemma sample_handshake_answers:
  "auth_answer sample_env sample_handshakes (sample_draws 3, 80000, Resume ''tt'') = Inr (Id 1, ''ann'', ''tt'')"
  by (simp add: auth_answer_def auth_after_def sample_handshakes_def auth_step_def register_run login_run resume_run
      no_accounts_def sample_env_def sample_draws_def parse_show_bits Let_def session_ttl_seconds_def numeral_2_eq_2 numeral_3_eq_3)


text \<open>
  Guessing helps nobody: an unknown name and a wrong password get the same answer, and a handshake that
  is refused changes nothing, so it can neither shorten nor prolong anybody's session.
\<close>

theorem refused_handshakes_change_nothing:
  assumes ids: "\<And>a. en_parse_id env (en_show_id env a) = Some a"
    and "auth_answer env evs (d, now, msg) = Inl err"
  shows "auth_after env (evs @ [(d, now, msg)]) = auth_after env evs
    \<and> (\<forall>name p. msg = Login name p \<longrightarrow> err = InvalidCredentials
         \<or> err = StoredHashInvalid \<and> name \<in> ac_username ` set (au_accounts (auth_after env evs)))"
proof -
  let ?s = "auth_after env evs"
  have inv: "auth_inv env evs ?s" by (rule auth_inv_run [OF ids])
  then have accs: "accounts_ok ?s" by (simp add: auth_inv_def)
  have run: "fst (authenticate env d now msg ?s) = Inl err" using assms(2) by (simp add: auth_answer_def)
  have "snd (authenticate env d now msg ?s) = ?s"
  proof (cases msg)
    case (Register name p)
    then show ?thesis using run by (auto simp: register_run split: option.splits if_splits)
  next
    case (Login name p)
    then show ?thesis using run by (auto simp: login_run split: option.splits bool.splits)
  next
    case (Resume t)
    show ?thesis
    proof (cases "\<exists>v expires. map_of (au_sessions ?s) t = Some (v, expires) \<and> now < expires")
      case True
      then obtain v expires where row: "map_of (au_sessions ?s) t = Some (v, expires)" "now < expires" by blast
      then obtain a where a: "a \<in> set (au_accounts ?s)" "v = en_show_id env (ac_id a)"
        using inv unfolding auth_inv_def by blast
      have "List.find (\<lambda>b. ac_id b = ac_id a) (au_accounts ?s) = Some a" using find_account(1) [OF accs] a(1) by blast
      then show ?thesis using run row a(2) ids by (simp add: Resume resume_run Let_def)
    qed (auto simp: Resume resume_run split: option.splits)
  qed
  then have "auth_after env (evs @ [(d, now, msg)]) = ?s" by (simp add: auth_after_snoc auth_step_def)
  moreover have "err = InvalidCredentials \<or> err = StoredHashInvalid \<and> name \<in> ac_username ` set (au_accounts ?s)"
    if "msg = Login name p" for name p
  proof -
    have "name \<in> ac_username ` set (au_accounts ?s)" if "List.find (\<lambda>a. ac_username a = name) (au_accounts ?s) = Some a" for a
      using that find_account(2) [OF accs, of name a] by blast
    then show ?thesis using run \<open>msg = Login name p\<close> by (auto simp: login_run split: option.splits bool.splits)
  qed
  ultimately show ?thesis by blast
qed

lemma refused_handshakes_change_nothing_witness:
  "auth_after sample_env (sample_handshakes @ [(sample_draws 3, 5, Login ''ann'' ''guess'')]) = auth_after sample_env sample_handshakes"
proof -
  have "auth_answer sample_env sample_handshakes (sample_draws 3, 5, Login ''ann'' ''guess'') = Inl InvalidCredentials"
    by (simp add: auth_answer_def auth_after_def sample_handshakes_def auth_step_def register_run login_run
      no_accounts_def sample_env_def sample_draws_def)
  then show ?thesis
    using refused_handshakes_change_nothing [of sample_env sample_handshakes] by (simp add: sample_env_def parse_show_bits)
qed

section \<open>The in-memory stores stand in for Postgres\<close>

text \<open>The contract of \<^verbatim>\<open>AccountStore\<close>: \<open>names\<close> are the accounts by their names.\<close>

locale account_store =
  fixes create :: "account_id \<Rightarrow> string \<Rightarrow> string \<Rightarrow> 's \<Rightarrow> (auth_error + account_id) \<times> 's"
    and by_name :: "string \<Rightarrow> 's \<Rightarrow> account option"
    and by_id :: "account_id \<Rightarrow> 's \<Rightarrow> account option"
    and names :: "'s \<Rightarrow> string \<Rightarrow> account option"
    and inv :: "'s \<Rightarrow> bool"
  assumes create_taken: "inv s \<Longrightarrow> names s u \<noteq> None \<Longrightarrow> create i u h s = (Inl (UsernameTaken u), s)"
    and create_new: "inv s \<Longrightarrow> names s u = None \<Longrightarrow> (\<forall>v a. names s v = Some a \<longrightarrow> ac_id a \<noteq> i) \<Longrightarrow>
      \<exists>s'. create i u h s = (Inr i, s') \<and> inv s'
        \<and> names s' = (names s)(u \<mapsto> \<lparr>ac_id = i, ac_username = u, ac_password_hash = h\<rparr>)"
    and by_name_eq: "inv s \<Longrightarrow> by_name u s = names s u"
    and by_id_eq: "inv s \<Longrightarrow> by_id i s = Some a \<longleftrightarrow> (\<exists>u. names s u = Some a) \<and> ac_id a = i"

datatype account_call = CallCreate account_id string string | CallByName string | CallById account_id
datatype account_reply = ReplyCreate "auth_error + account_id" | ReplyAccount "account option"

fun account_replies ::
  "(account_id \<Rightarrow> string \<Rightarrow> string \<Rightarrow> 's \<Rightarrow> (auth_error + account_id) \<times> 's) \<Rightarrow> (string \<Rightarrow> 's \<Rightarrow> account option)
   \<Rightarrow> (account_id \<Rightarrow> 's \<Rightarrow> account option) \<Rightarrow> account_call list \<Rightarrow> 's \<Rightarrow> account_reply list" where
  "account_replies create by_name by_id [] s = []"
| "account_replies create by_name by_id (c # cs) s = (case c of
     CallCreate i u h \<Rightarrow> (case create i u h s of (r, s') \<Rightarrow> ReplyCreate r # account_replies create by_name by_id cs s')
   | CallByName u \<Rightarrow> ReplyAccount (by_name u s) # account_replies create by_name by_id cs s
   | CallById i \<Rightarrow> ReplyAccount (by_id i s) # account_replies create by_name by_id cs s)"

text \<open>Ids are drawn once.\<close>

definition drawn_ids :: "account_call list \<Rightarrow> account_id list" where
  "drawn_ids cs = List.map_filter (\<lambda>c. case c of CallCreate i _ _ \<Rightarrow> Some i | _ \<Rightarrow> None) cs"

lemma drawn_ids_simps [simp]:
  "drawn_ids [] = []" "drawn_ids (CallCreate i u h # cs) = i # drawn_ids cs"
  "drawn_ids (CallByName u # cs) = drawn_ids cs" "drawn_ids (CallById i # cs) = drawn_ids cs"
  by (simp_all add: drawn_ids_def map_filter_simps)

locale two_account_stores =
  one: account_store create1 by_name1 by_id1 names1 inv1 +
  two: account_store create2 by_name2 by_id2 names2 inv2
  for create1 by_name1 by_id1 names1 inv1 create2 by_name2 by_id2 names2 inv2
begin

lemma replies_agree:
  assumes "inv1 s" "inv2 t" "names1 s = names2 t" "distinct (drawn_ids cs)"
    and "\<forall>v a. names1 s v = Some a \<longrightarrow> ac_id a \<notin> set (drawn_ids cs)"
  shows "account_replies create1 by_name1 by_id1 cs s = account_replies create2 by_name2 by_id2 cs t"
  using assms
proof (induction cs arbitrary: s t)
  case (Cons c cs)
  show ?case
  proof (cases c)
    case (CallCreate i u h)
    show ?thesis
    proof (cases "names1 s u")
      case None
      have free: "\<forall>v a. names1 s v = Some a \<longrightarrow> ac_id a \<noteq> i" using Cons.prems(5) CallCreate by auto
      obtain s' where s': "create1 i u h s = (Inr i, s')" "inv1 s'"
        "names1 s' = (names1 s)(u \<mapsto> \<lparr>ac_id = i, ac_username = u, ac_password_hash = h\<rparr>)"
        using one.create_new [OF Cons.prems(1) None free] by blast
      obtain t' where t': "create2 i u h t = (Inr i, t')" "inv2 t'"
        "names2 t' = (names2 t)(u \<mapsto> \<lparr>ac_id = i, ac_username = u, ac_password_hash = h\<rparr>)"
        using two.create_new [OF Cons.prems(2), of u i h] None free Cons.prems(3) by auto
      have "account_replies create1 by_name1 by_id1 cs s' = account_replies create2 by_name2 by_id2 cs t'"
        using Cons.prems CallCreate s' t' by (intro Cons.IH) auto
      then show ?thesis using s'(1) t'(1) CallCreate by simp
    next
      case (Some a)
      then have "create1 i u h s = (Inl (UsernameTaken u), s)" "create2 i u h t = (Inl (UsernameTaken u), t)"
        using one.create_taken [OF Cons.prems(1)] two.create_taken [OF Cons.prems(2)] Cons.prems(3) by auto
      moreover have "account_replies create1 by_name1 by_id1 cs s = account_replies create2 by_name2 by_id2 cs t"
        using Cons.prems CallCreate by (intro Cons.IH) auto
      ultimately show ?thesis using CallCreate by simp
    qed
  next
    case (CallByName u)
    then show ?thesis using Cons one.by_name_eq two.by_name_eq by simp
  next
    case (CallById i)
    have "by_id1 i s = Some a \<longleftrightarrow> by_id2 i t = Some a" for a
      using one.by_id_eq [OF Cons.prems(1), of i a] two.by_id_eq [OF Cons.prems(2), of i a] Cons.prems(3) by simp
    then have "by_id1 i s = by_id2 i t" by (metis not_Some_eq)
    then show ?thesis using CallById Cons by simp
  qed
qed simp

end

definition run_query :: "'a auth \<Rightarrow> auth_db \<Rightarrow> 'a option" where
  "run_query m s = (case fst (m s) of Inr x \<Rightarrow> Some x | Inl _ \<Rightarrow> None)"

definition postgres_names :: "auth_db \<Rightarrow> string \<Rightarrow> account option" where
  "postgres_names s u = List.find (\<lambda>a. ac_username a = u) (au_accounts s)"

definition postgres_by_name :: "string \<Rightarrow> auth_db \<Rightarrow> account option" where
  "postgres_by_name u s = Option.bind (run_query (account_by_username u) s) (\<lambda>x. x)"

definition postgres_by_id :: "account_id \<Rightarrow> auth_db \<Rightarrow> account option" where
  "postgres_by_id i s = Option.bind (run_query (account_by_id i) s) (\<lambda>x. x)"

definition memory_ok :: "memory_accounts \<Rightarrow> bool" where
  "memory_ok m \<longleftrightarrow> keys_unique m \<and> (\<forall>u a. map_of m u = Some a \<longrightarrow> ac_username a = u)
     \<and> (\<forall>u v a b. map_of m u = Some a \<longrightarrow> map_of m v = Some b \<longrightarrow> ac_id a = ac_id b \<longrightarrow> a = b)"

lemma find_unique:
  "(\<And>y. y \<in> set xs \<Longrightarrow> P x \<Longrightarrow> P y \<Longrightarrow> x \<in> set xs \<Longrightarrow> y = x) \<Longrightarrow> List.find P xs = Some x \<longleftrightarrow> x \<in> set xs \<and> P x"
  by (induction xs) auto

interpretation accounts: two_account_stores account_create postgres_by_name postgres_by_id postgres_names accounts_ok
  memory_create memory_by_username memory_by_id "map_of" memory_ok
proof unfold_locales
  fix s :: auth_db and u h i a
  assume ok: "accounts_ok s"
  show "postgres_names s u \<noteq> None \<Longrightarrow> account_create i u h s = (Inl (UsernameTaken u), s)"
    by (auto simp: postgres_names_def account_create_eq list_ex_iff find_None_iff)
  show "postgres_by_name u s = postgres_names s u"
    by (simp add: postgres_by_name_def run_query_def account_by_username_def postgres_names_def)
  have names: "postgres_names s v = Some b \<longleftrightarrow> b \<in> set (au_accounts s) \<and> ac_username b = v" for v b
    unfolding postgres_names_def by (rule find_account(2) [OF ok])
  show "postgres_by_id i s = Some a \<longleftrightarrow> (\<exists>u. postgres_names s u = Some a) \<and> ac_id a = i"
    using find_account(1) [OF ok, of i a] names by (simp add: postgres_by_id_def run_query_def account_by_id_def)
  assume new: "postgres_names s u = None" "\<forall>v a. postgres_names s v = Some a \<longrightarrow> ac_id a \<noteq> i"
  let ?a = "\<lparr>ac_id = i, ac_username = u, ac_password_hash = h\<rparr>"
  let ?s' = "s\<lparr>au_accounts := au_accounts s @ [?a]\<rparr>"
  have free: "\<not> list_ex (\<lambda>b. ac_id b = i \<or> ac_username b = u) (au_accounts s)"
  proof -
    have "ac_username b \<noteq> u" if "b \<in> set (au_accounts s)" for b using names [of u b] that new(1) by auto
    then show ?thesis using new(2) names by (auto simp: list_ex_iff)
  qed
  have ok': "accounts_ok ?s'" using ok free by (auto simp: accounts_ok_def list_ex_iff)
  moreover have "postgres_names ?s' = (postgres_names s)(u \<mapsto> ?a)"
  proof
    fix v
    have "postgres_names ?s' v = Some b \<longleftrightarrow> ((postgres_names s)(u \<mapsto> ?a)) v = Some b" for b
      using find_account(2) [OF ok', of v b] names [of v b] free
      by (auto simp: postgres_names_def [of ?s'] list_ex_iff)
    then show "postgres_names ?s' v = ((postgres_names s)(u \<mapsto> ?a)) v" by (metis not_Some_eq)
  qed
  ultimately show "\<exists>s'. account_create i u h s = (Inr i, s') \<and> accounts_ok s' \<and> postgres_names s' = (postgres_names s)(u \<mapsto> ?a)"
    using free by (simp add: account_create_eq)
next
  fix m :: memory_accounts and u h i a
  assume ok: "memory_ok m"
  show "map_of m u \<noteq> None \<Longrightarrow> memory_create i u h m = (Inl (UsernameTaken u), m)"
    by (simp add: memory_create_def has_row_def)
  show "memory_by_username u m = map_of m u" by (simp add: memory_by_username_def)
  have vals: "b \<in> set (map snd m) \<longleftrightarrow> (\<exists>v. map_of m v = Some b)" for b
    using ok by (force simp: memory_ok_def dest: in_set_map_of map_of_in_set)
  have "List.find (\<lambda>a. ac_id a = i) (map snd m) = Some a \<longleftrightarrow> a \<in> set (map snd m) \<and> ac_id a = i"
    by (rule find_unique) (use vals ok in \<open>fastforce simp: memory_ok_def\<close>)
  then show "memory_by_id i m = Some a \<longleftrightarrow> (\<exists>u. map_of m u = Some a) \<and> ac_id a = i"
    using vals by (simp add: memory_by_id_def)
  assume new: "map_of m u = None" "\<forall>v a. map_of m v = Some a \<longrightarrow> ac_id a \<noteq> i"
  let ?a = "\<lparr>ac_id = i, ac_username = u, ac_password_hash = h\<rparr>"
  have "memory_ok (put_row u ?a m)"
    using ok new unfolding memory_ok_def by (auto split: if_splits)
  then show "\<exists>s'. memory_create i u h m = (Inr i, s') \<and> memory_ok s' \<and> map_of s' = (map_of m)(u \<mapsto> ?a)"
    using new by (simp add: memory_create_def has_row_def)
qed

text \<open>
  C40: The in-memory account store the tests run against cannot be told from the Postgres one: the same
  calls get the same replies from both, taken names, unknown names and ids included, as long as no
  id is drawn twice.
\<close>

theorem memory_accounts_stand_in_for_postgres:
  assumes "distinct (drawn_ids calls)"
  shows "account_replies account_create postgres_by_name postgres_by_id calls no_accounts
    = account_replies memory_create memory_by_username memory_by_id calls []"
  by (rule accounts.replies_agree)
    (use assms in \<open>simp_all add: accounts_ok_def memory_ok_def keys_unique_def postgres_names_def no_accounts_def fun_eq_iff\<close>)

lemma memory_accounts_stand_in_for_postgres_witness:
  "account_replies account_create postgres_by_name postgres_by_id
      [CallCreate (Id 1) ''ann'' ''h'', CallCreate (Id 2) ''ann'' ''g'', CallById (Id 1)] no_accounts
    = [ReplyCreate (Inr (Id 1)), ReplyCreate (Inl (UsernameTaken ''ann'')),
       ReplyAccount (Some \<lparr>ac_id = Id 1, ac_username = ''ann'', ac_password_hash = ''h''\<rparr>)]"
  by (subst memory_accounts_stand_in_for_postgres) code_simp+

text \<open>
  The role stores agree for accounts that exist. For an account that does not, Postgres refuses the grant
  by its foreign key where the in-memory store accepts it.
\<close>

definition roles_agree :: "auth_db \<Rightarrow> memory_roles \<Rightarrow> bool" where
  "roles_agree s m \<longleftrightarrow> (\<forall>i. set (memory_roles_for i m) = {r. (i, r) \<in> set (au_roles s)} \<and> distinct (memory_roles_for i m))
     \<and> distinct (au_roles s)"

lemma role_stores_agree:
  assumes "roles_agree s m"
  shows "list_ex (\<lambda>a. ac_id a = i) (au_accounts s) \<Longrightarrow> fst (role_grant i r s) = Inr ()
      \<and> roles_agree (snd (role_grant i r s)) (memory_grant i r m)"
    and "fst (role_revoke i r s) = Inr () \<and> roles_agree (snd (role_revoke i r s)) (memory_revoke i r m)"
    and "fst (roles_for i s) = Inr rs \<Longrightarrow> set rs = set (memory_roles_for i m) \<and> length rs = length (memory_roles_for i m)"
proof -
  have sets: "set (memory_roles_for j m) = {r. (j, r) \<in> set (au_roles s)}" "distinct (memory_roles_for j m)" "distinct (au_roles s)" for j
    using assms by (simp_all add: roles_agree_def)
  have g: "memory_roles_for j (memory_grant i r m) = (if j = i then List.insert r (memory_roles_for i m) else memory_roles_for j m)" for j
    by (simp add: memory_roles_for_def memory_grant_def)
  have v: "memory_roles_for j (memory_revoke i r m) = (if j = i then removeAll r (memory_roles_for i m) else memory_roles_for j m)" for j
    by (simp add: memory_roles_for_def memory_revoke_def split: option.split)
  show "list_ex (\<lambda>a. ac_id a = i) (au_accounts s) \<Longrightarrow> fst (role_grant i r s) = Inr ()
      \<and> roles_agree (snd (role_grant i r s)) (memory_grant i r m)"
    using sets by (auto simp: role_grant_def roles_agree_def g)
  show "fst (role_revoke i r s) = Inr () \<and> roles_agree (snd (role_revoke i r s)) (memory_revoke i r m)"
    using sets by (auto simp: role_revoke_def roles_agree_def v distinct_removeAll)
  assume "fst (roles_for i s) = Inr rs"
  then have rs: "rs = map snd (filter (\<lambda>r. fst r = i) (au_roles s))" by (simp add: roles_for_def)
  have "distinct rs" unfolding rs using sets(3) by (auto simp: distinct_map inj_on_def)
  moreover have "set rs = set (memory_roles_for i m)" unfolding rs sets(1) by force
  ultimately show "set rs = set (memory_roles_for i m) \<and> length rs = length (memory_roles_for i m)"
    using sets(2) distinct_card by metis
qed

end
