(* ===== verification/PluginManifest.thy ===== *)
theory PluginManifest
  imports Connections
begin

text \<open>
  \<^verbatim>\<open>plugin-host/src/manifest.rs\<close> and \<^verbatim>\<open>discover_plugins\<close> of \<^verbatim>\<open>server/src/main.rs\<close>: what a plugin
  declares of itself, the checks each manifest passes, and the check over all manifests of a
  process that no message type and no chat command has two owners. The TOML parser is an argument,
  and a plugin directory is what reading it gave: the text of \<^verbatim>\<open>plugin.toml\<close>, if there is one, and
  the names of the \<^verbatim>\<open>.wasm\<close> files beside it.
\<close>

section \<open>What a manifest may declare\<close>

definition host_api_version :: string where
  "host_api_version = ''0.16.0''"

definition plugin_message_type_floor :: u16 where
  "plugin_message_type_floor = 1000"

definition known_capabilities :: "string list" where
  "known_capabilities =
     [''spawning'', ''movement'', ''combat'', ''economy'', ''messaging'', ''admin'']"

definition known_hooks :: "string list" where
  "known_hooks = [
     ''on-load'', ''on-unload'', ''on-zone-loaded'', ''on-character-create'', ''on-entity-spawn'',
     ''on-player-join-zone'', ''on-player-leave-zone'', ''on-interact'', ''on-message'',
     ''on-damage-calc'', ''on-death'', ''on-respawn'', ''on-tick'', ''on-npc-tick'',
     ''on-npc-interact'', ''on-chat-command'', ''on-item-acquire'', ''on-item-use'',
     ''on-craft-complete'', ''on-item-drop'']"

record plugin_declaration =
  pd_name :: string
  pd_host_api_version :: string
  pd_capabilities :: "string list"
  pd_message_types :: "u16 list"
  pd_chat_commands :: "string list"
  pd_hooks :: "string list"

datatype manifest_error =
    TomlRejected string
  | OtherHostApi string string
  | UnknownHook string string
  | HookRepeated string string
  | UnknownCapability string string
  | CapabilityRepeated string string
  | BelowFloor string u16
  | MessageTypeRepeated string u16
  | EmptyCommand string
  | CommandWithSlash string string string
  | CommandRepeated string string
  | MessageTypeCollision string string u16
  | CommandCollision string string string

definition manifest_from_toml :: "(string \<Rightarrow> plugin_declaration option) \<Rightarrow> string \<Rightarrow> manifest_error + plugin_declaration" where
  "manifest_from_toml parse text = ok_or_else (parse text) (TomlRejected text)"

section \<open>One manifest\<close>

text \<open>The loop all four checks share: a bad value is an error, then a value seen before.\<close>

fun check_each :: "('a \<Rightarrow> 'e + unit) \<Rightarrow> ('a \<Rightarrow> 'e) \<Rightarrow> 'a set \<Rightarrow> 'a list \<Rightarrow> 'e + unit" where
  "check_each bad dup seen [] = Inr ()"
| "check_each bad dup seen (x # xs) =
     try_then (bad x) (\<lambda>_.
     try_then (ensure (x \<notin> seen) (dup x)) (\<lambda>_.
     check_each bad dup (insert x seen) xs))"

definition check_hooks :: "plugin_declaration \<Rightarrow> manifest_error + unit" where
  "check_hooks d = check_each
     (\<lambda>h. ensure (\<not> h \<notin> set known_hooks) (UnknownHook (pd_name d) h))
     (HookRepeated (pd_name d)) {} (pd_hooks d)"

definition check_capabilities :: "plugin_declaration \<Rightarrow> manifest_error + unit" where
  "check_capabilities d = check_each
     (\<lambda>c. ensure (\<not> c \<notin> set known_capabilities) (UnknownCapability (pd_name d) c))
     (CapabilityRepeated (pd_name d)) {} (pd_capabilities d)"

definition check_message_types :: "plugin_declaration \<Rightarrow> manifest_error + unit" where
  "check_message_types d = check_each
     (\<lambda>t. ensure (\<not> t < plugin_message_type_floor) (BelowFloor (pd_name d) t))
     (MessageTypeRepeated (pd_name d)) {} (pd_message_types d)"

definition check_command :: "string \<Rightarrow> string \<Rightarrow> manifest_error + unit" where
  "check_command name command =
     try_then (ensure (\<not> command = []) (EmptyCommand name)) (\<lambda>_.
     case strip_prefix ''/'' command of
       Some stripped \<Rightarrow> Inl (CommandWithSlash name command stripped)
     | None \<Rightarrow> Inr ())"

definition check_chat_commands :: "plugin_declaration \<Rightarrow> manifest_error + unit" where
  "check_chat_commands d = check_each (check_command (pd_name d))
     (CommandRepeated (pd_name d)) {} (pd_chat_commands d)"

definition check_compatible :: "plugin_declaration \<Rightarrow> manifest_error + unit" where
  "check_compatible d =
     try_then (ensure (\<not> pd_host_api_version d \<noteq> host_api_version)
       (OtherHostApi (pd_name d) (pd_host_api_version d))) (\<lambda>_.
     try_then (check_message_types d) (\<lambda>_.
     try_then (check_chat_commands d) (\<lambda>_.
     try_then (check_capabilities d) (\<lambda>_.
     check_hooks d))))"

section \<open>All manifests of a process\<close>

text \<open>\<^verbatim>\<open>owners.insert(value, name)\<close> over one manifest's values: an owner already there is an error.\<close>

fun claim_all ::
  "(string \<Rightarrow> 'a \<Rightarrow> 'e) \<Rightarrow> string \<Rightarrow> 'a list \<Rightarrow> ('a, string) table \<Rightarrow> 'e + ('a, string) table" where
  "claim_all clash name [] owners = Inr owners"
| "claim_all clash name (x # xs) owners = (case map_of owners x of
     Some owner \<Rightarrow> Inl (clash owner x)
   | None \<Rightarrow> claim_all clash name xs (put_row x name owners))"

fun claim_manifests ::
  "plugin_declaration list \<Rightarrow> (u16, string) table \<Rightarrow> (string, string) table \<Rightarrow> manifest_error + unit" where
  "claim_manifests [] types commands = Inr ()"
| "claim_manifests (d # ds) types commands =
     try_then (claim_all (\<lambda>owner. MessageTypeCollision owner (pd_name d)) (pd_name d) (pd_message_types d) types)
       (\<lambda>types'.
     try_then (claim_all (\<lambda>owner. CommandCollision owner (pd_name d)) (pd_name d) (pd_chat_commands d) commands)
       (\<lambda>commands'. claim_manifests ds types' commands'))"

definition check_no_collisions :: "plugin_declaration list \<Rightarrow> manifest_error + unit" where
  "check_no_collisions ds = claim_manifests ds [] []"

section \<open>The plugins directory\<close>

record plugin_directory =
  dir_name :: string
  dir_toml :: "string option"
  dir_wasm :: "string list"

datatype discovery_panic =
    BadManifest string manifest_error
  | NoWasm string
  | ManyWasm string
  | Conflict manifest_error

text \<open>One entry of the directory; \<open>None\<close> is one with no \<^verbatim>\<open>plugin.toml\<close>, passed over.\<close>

definition discover_one ::
  "(string \<Rightarrow> plugin_declaration option) \<Rightarrow> plugin_directory
   \<Rightarrow> discovery_panic + (plugin_declaration \<times> string) option" where
  "discover_one parse dir = (case dir_toml dir of
     None \<Rightarrow> Inr None
   | Some text \<Rightarrow>
       (case try_then (manifest_from_toml parse text) (\<lambda>d. try_then (check_compatible d) (\<lambda>_. Inr d)) of
          Inl e \<Rightarrow> Inl (BadManifest (dir_name dir) e)
        | Inr d \<Rightarrow>
            (case dir_wasm dir of
               [one] \<Rightarrow> Inr (Some (d, one))
             | [] \<Rightarrow> Inl (NoWasm (dir_name dir))
             | _ \<Rightarrow> Inl (ManyWasm (dir_name dir)))))"

fun discover_each ::
  "(string \<Rightarrow> plugin_declaration option) \<Rightarrow> plugin_directory list
   \<Rightarrow> discovery_panic + (plugin_declaration \<times> string) list" where
  "discover_each parse [] = Inr []"
| "discover_each parse (dir # dirs) =
     try_then (discover_one parse dir) (\<lambda>found.
     try_then (discover_each parse dirs) (\<lambda>rest.
     Inr (case found of None \<Rightarrow> rest | Some p \<Rightarrow> p # rest)))"

text \<open>The outer option is whether the plugins directory exists.\<close>

definition discover_plugins ::
  "(string \<Rightarrow> plugin_declaration option) \<Rightarrow> plugin_directory list option
   \<Rightarrow> discovery_panic + (plugin_declaration \<times> string) list" where
  "discover_plugins parse dirs = (case dirs of
     None \<Rightarrow> Inr []
   | Some entries \<Rightarrow>
       try_then (discover_each parse entries) (\<lambda>discovered.
       case check_no_collisions (map fst discovered) of
         Inl e \<Rightarrow> Inl (Conflict e)
       | Inr _ \<Rightarrow> Inr discovered))"

text \<open>What \<^verbatim>\<open>main\<close> hands every connection as its early filter.\<close>

definition plugin_message_types :: "plugin_declaration list \<Rightarrow> u16 list" where
  "plugin_message_types ds = concat (map pd_message_types ds)"

definition plugin_chat_commands :: "plugin_declaration list \<Rightarrow> string list" where
  "plugin_chat_commands ds = concat (map pd_chat_commands ds)"

section \<open>What the checks accept\<close>

lemma check_each_ok:
  "check_each bad dup seen xs = Inr u \<longleftrightarrow>
     distinct xs \<and> set xs \<inter> seen = {} \<and> (\<forall>x \<in> set xs. bad x = Inr ())"
  by (induction xs arbitrary: seen) auto

lemma check_command_ok:
  "check_command name c = Inr u \<longleftrightarrow> c \<noteq> [] \<and> hd c \<noteq> CHR ''/''"
  by (cases c) (auto simp: check_command_def split: option.splits)

lemma map_of_put_row_None [simp]:
  "map_of (put_row k v t) x = None \<longleftrightarrow> x \<noteq> k \<and> map_of t x = None"
  by (auto split: if_splits)

lemma claim_all_ok:
  "(\<exists>owners'. claim_all clash name xs owners = Inr owners') \<longleftrightarrow>
     distinct xs \<and> (\<forall>x \<in> set xs. map_of owners x = None)"
  by (induction xs arbitrary: owners) (auto split: option.splits)

lemma claim_all_owners:
  "claim_all clash name xs owners = Inr owners' \<Longrightarrow>
     map_of owners' x = None \<longleftrightarrow> x \<notin> set xs \<and> map_of owners x = None"
  by (induction xs arbitrary: owners) (auto split: option.splits)

definition accepted :: "plugin_declaration \<Rightarrow> bool" where
  "accepted d \<longleftrightarrow> pd_host_api_version d = ''0.16.0''
     \<and> distinct (pd_message_types d) \<and> (\<forall>t \<in> set (pd_message_types d). 1000 \<le> t)
     \<and> distinct (pd_chat_commands d) \<and> (\<forall>c \<in> set (pd_chat_commands d). c \<noteq> [] \<and> hd c \<noteq> CHR ''/'')
     \<and> distinct (pd_capabilities d) \<and> set (pd_capabilities d) \<subseteq> set known_capabilities
     \<and> distinct (pd_hooks d) \<and> set (pd_hooks d) \<subseteq> set known_hooks"

lemma check_compatible_ok: "check_compatible d = Inr u \<longleftrightarrow> accepted d"
  by (auto simp: check_compatible_def accepted_def host_api_version_def check_message_types_def
      check_chat_commands_def check_capabilities_def check_hooks_def check_each_ok check_command_ok
      plugin_message_type_floor_def not_less)

definition no_two_owners :: "plugin_declaration list \<Rightarrow> bool" where
  "no_two_owners ds \<longleftrightarrow> distinct (plugin_message_types ds) \<and> distinct (plugin_chat_commands ds)"

lemma claim_manifests_ok:
  "claim_manifests ds types commands = Inr () \<longleftrightarrow> no_two_owners ds
     \<and> (\<forall>t \<in> set (plugin_message_types ds). map_of types t = None)
     \<and> (\<forall>c \<in> set (plugin_chat_commands ds). map_of commands c = None)"
proof (induction ds arbitrary: types commands)
  case Nil
  then show ?case by (simp add: no_two_owners_def plugin_message_types_def plugin_chat_commands_def)
next
  case (Cons d ds)
  show ?case
  proof (cases "(distinct (pd_message_types d) \<and> (\<forall>x \<in> set (pd_message_types d). map_of types x = None))
      \<and> distinct (pd_chat_commands d) \<and> (\<forall>x \<in> set (pd_chat_commands d). map_of commands x = None)")
    case True
    then obtain types' commands' where
      t: "claim_all (\<lambda>owner. MessageTypeCollision owner (pd_name d)) (pd_name d) (pd_message_types d) types = Inr types'"
      and c: "claim_all (\<lambda>owner. CommandCollision owner (pd_name d)) (pd_name d) (pd_chat_commands d) commands = Inr commands'"
      by (metis claim_all_ok)
    then show ?thesis using True
      by (auto simp: Cons.IH claim_all_owners [OF t] claim_all_owners [OF c] no_two_owners_def
          plugin_message_types_def plugin_chat_commands_def)
  next
    case False
    then have "claim_manifests (d # ds) types commands \<noteq> Inr ()"
      using claim_all_ok [of "\<lambda>owner. MessageTypeCollision owner (pd_name d)" "pd_name d" "pd_message_types d" types]
        claim_all_ok [of "\<lambda>owner. CommandCollision owner (pd_name d)" "pd_name d" "pd_chat_commands d" commands]
      by auto
    then show ?thesis using False
      by (auto simp: no_two_owners_def plugin_message_types_def plugin_chat_commands_def)
  qed
qed

lemma check_no_collisions_ok: "check_no_collisions ds = Inr u \<longleftrightarrow> no_two_owners ds"
  by (simp add: check_no_collisions_def claim_manifests_ok)

lemma discover_one_ok:
  "discover_one parse dir = Inr found \<longleftrightarrow>
     (case dir_toml dir of None \<Rightarrow> found = None
      | Some text \<Rightarrow> (\<exists>d one. parse text = Some d \<and> accepted d \<and> dir_wasm dir = [one] \<and> found = Some (d, one)))"
proof (cases "dir_toml dir")
  case None
  then show ?thesis by (auto simp: discover_one_def)
next
  case (Some toml)
  show ?thesis
  proof (cases "try_then (manifest_from_toml parse toml) (\<lambda>d. try_then (check_compatible d) (\<lambda>_. Inr d))")
    case (Inl e)
    then have "\<not> (\<exists>d. parse toml = Some d \<and> accepted d)"
      by (auto simp: manifest_from_toml_def ok_or_else_def check_compatible_ok [of _ "()", symmetric])
    then show ?thesis using Some Inl by (auto simp: discover_one_def)
  next
    case (Inr d)
    then have "parse toml = Some d" "accepted d"
      by (auto simp: manifest_from_toml_def ok_or_else_def check_compatible_ok split: option.splits)
    then show ?thesis using Some Inr by (auto simp: discover_one_def split: list.splits)
  qed
qed

lemma discover_each_accepted:
  "discover_each parse dirs = Inr found \<Longrightarrow> (d, w) \<in> set found \<Longrightarrow> accepted d"
  by (induction dirs arbitrary: found) (auto simp: discover_one_ok split: option.splits)

lemma discover_plugins_accepted:
  assumes "discover_plugins parse dirs = Inr found"
  shows "\<forall>d \<in> set (map fst found). accepted d" "no_two_owners (map fst found)"
proof -
  have "(\<forall>d \<in> set (map fst found). accepted d) \<and> no_two_owners (map fst found)"
  proof (cases dirs)
    case None
    then show ?thesis using assms
      by (simp add: discover_plugins_def no_two_owners_def plugin_message_types_def plugin_chat_commands_def)
  next
    case (Some entries)
    then obtain x where x: "discover_each parse entries = Inr x"
      and y: "(case check_no_collisions (map fst x) of Inl e \<Rightarrow> Inl (Conflict e) | Inr _ \<Rightarrow> Inr x) = Inr found"
      using assms by (auto simp: discover_plugins_def)
    then obtain u where "check_no_collisions (map fst x) = Inr u" "x = found"
      by (cases "check_no_collisions (map fst x)") auto
    then show ?thesis using x discover_each_accepted by (fastforce simp: check_no_collisions_ok)
  qed
  then show "\<forall>d \<in> set (map fst found). accepted d" "no_two_owners (map fst found)" by blast+
qed

section \<open>One owner for every message and every command\<close>

text \<open>The lookups of the zone actor, \<^verbatim>\<open>plugins.iter_mut().find(..)\<close>, over what was discovered.\<close>

definition owner_of_type :: "plugin_declaration list \<Rightarrow> u16 \<Rightarrow> plugin_declaration option" where
  "owner_of_type ds t = List.find (\<lambda>d. t \<in> set (pd_message_types d)) ds"

definition owner_of_command :: "plugin_declaration list \<Rightarrow> string \<Rightarrow> plugin_declaration option" where
  "owner_of_command ds c = List.find (\<lambda>d. c \<in> set (pd_chat_commands d)) ds"

lemma find_owner:
  assumes "distinct (concat (map f ds))"
  shows "List.find (\<lambda>d. x \<in> set (f d)) ds = Some d \<longleftrightarrow> d \<in> set ds \<and> x \<in> set (f d)"
  using assms
proof (induction ds)
  case (Cons a ds)
  then show ?case by (cases "x \<in> set (f a)") auto
qed simp

lemma find_owner_ex:
  "(\<exists>d. List.find (\<lambda>d. x \<in> set (f d)) ds = Some d) \<longleftrightarrow> x \<in> set (concat (map f ds))"
  by (induction ds) auto


definition sample_dice :: plugin_declaration where
  "sample_dice = \<lparr>pd_name = ''dice'', pd_host_api_version = ''0.16.0'', pd_capabilities = [''messaging''],
     pd_message_types = [1000], pd_chat_commands = [''roll''], pd_hooks = [''on-load'']\<rparr>"

definition sample_plugin_dirs :: "plugin_directory list" where
  "sample_plugin_dirs =
     [\<lparr>dir_name = ''dice'', dir_toml = Some ''dice'', dir_wasm = [''dice.wasm'']\<rparr>,
      \<lparr>dir_name = ''notes'', dir_toml = None, dir_wasm = []\<rparr>]"

definition sample_toml :: "string \<Rightarrow> plugin_declaration option" where
  "sample_toml text = (if text = ''dice'' then Some sample_dice else None)"

lemma sample_discovery: "discover_plugins sample_toml (Some sample_plugin_dirs) = Inr [(sample_dice, ''dice.wasm'')]"
  by code_simp


text \<open>
  A line of chat runs a plugin's command exactly when its first word is one of that plugin's commands
  behind a slash; it is then that plugin's alone, whatever the other plugins declare.
\<close>

theorem plugin_commands_reach_their_owner:
  assumes "discover_plugins parse dirs = Inr found"
  shows "plugin_chat_command (plugin_chat_commands (map fst found)) line = Some (command, args)
      \<and> owner_of_command (map fst found) command = Some d
    \<longleftrightarrow> d \<in> set (map fst found) \<and> command \<in> set (pd_chat_commands d)
      \<and> plugin_chat_command (pd_chat_commands d) line = Some (command, args)"
proof -
  have "owner_of_command (map fst found) command = Some d
      \<longleftrightarrow> d \<in> set (map fst found) \<and> command \<in> set (pd_chat_commands d)"
    using discover_plugins_accepted(2) [OF assms] unfolding owner_of_command_def no_two_owners_def
      plugin_chat_commands_def by (intro find_owner) blast
  moreover have "d \<in> set (map fst found) \<Longrightarrow> command \<in> set (pd_chat_commands d) \<Longrightarrow>
      plugin_chat_command (plugin_chat_commands (map fst found)) line = Some (command, args)
      \<longleftrightarrow> plugin_chat_command (pd_chat_commands d) line = Some (command, args)"
    by (cases "strip_prefix ''/'' line")
      (auto simp: plugin_chat_command_def plugin_chat_commands_def list_ex_iff Let_def split: prod.splits if_splits)
  ultimately show ?thesis by blast
qed

lemma plugin_commands_reach_their_owner_witness:
  "plugin_chat_command (plugin_chat_commands [sample_dice]) ''/roll 20'' = Some (''roll'', ''20'')
   \<and> owner_of_command [sample_dice] ''roll'' = Some sample_dice"
proof -
  have "plugin_chat_command (pd_chat_commands sample_dice) ''/roll 20'' = Some (''roll'', ''20'')" by code_simp
  then show ?thesis
    using plugin_commands_reach_their_owner [OF sample_discovery, of "''/roll 20''" "''roll''" "''20''" sample_dice]
    by (simp add: sample_dice_def)
qed

end
