(* ===== verification/PluginHost.thy ===== *)
theory PluginHost
  imports PluginManifest ContentPack Zone
begin

text \<open>
  The sandbox boundary of a plugin: the host functions of \<^verbatim>\<open>plugin-host/src/runtime.rs\<close> with their
  capability gate, the server's side of them (\<^verbatim>\<open>server/src/plugin_startup.rs\<close>), the hooks the server
  calls, and the start of all plugins in \<^verbatim>\<open>main\<close>.

  A compiled plugin is not under \<^verbatim>\<open>src/\<close>: it is an argument, a function from the state of its
  instance and a hook call to a tree of host calls. At every node it sees the host's answer and goes
  on; a leaf is its return or its trap. A hook that never returns has no tree. The text forms of ids
  and the JSON parser are arguments as well, gathered in \<open>host_env\<close>.
\<close>

section \<open>Host functions and hooks\<close>

datatype state_scope = Scope_Character string | Scope_Entity string | Scope_Zone string

datatype host_call =
    Spawn_Npc string
  | Send_Message string string
  | Apply_Stat_Delta string string i64
  | Apply_Stat_Delta_For_Character string string i64
  | Move_Entity string f64 f64 f64
  | Teleport_Entity string f64 f64 f64
  | Grant_Item string string i64
  | Remove_Item string string i64
  | Modify_Currency string string i64
  | Caller_Role string
  | Plugin_State_Get state_scope string
  | Plugin_State_Set state_scope string bytes
  | Report_Death string
  | Report_Respawn string
  | Block_Zone_Channel string string
  | Register_Item_Type string string "string list" string
  | Get_Item string

datatype host_answer =
    Answer_Unit
  | Answer_Text string
  | Answer_Roles "string list"
  | Answer_State "bytes option"
  | Answer_Item "(string \<times> string \<times> string list \<times> string) option"

datatype host_failure =
    LacksCapability string string
  | NotAnEntityId string
  | NoLongerConnected string
  | NoConnectedEntity string
  | NotAPlayer entity_id
  | MetadataNotJson string
  | ItemInvalid string "item_problem list"

datatype 'g guest =
    Return 'g
  | Trap 'g
  | Host host_call "host_failure + host_answer \<Rightarrow> 'g guest"

datatype hook_call =
    On_Load
  | On_Zone_Loaded string
  | On_Character_Create string string
  | On_Entity_Spawn string string string string
  | On_Player_Join_Zone string string
  | On_Player_Leave_Zone string string
  | On_Message string u16 string bytes
  | On_Damage_Calc string string string string i64
  | On_Death string string
  | On_Respawn string string
  | On_Tick string f64
  | On_Npc_Tick string string f64 f64 f64 "(f64 \<times> f64) list" bool f64 f64
  | On_Npc_Interact string string string
  | On_Chat_Command string string string string
  | On_Item_Acquire string string string i64
  | On_Item_Use string string string
  | On_Craft_Complete string string
  | On_Item_Drop string string string i64

type_synonym 'g wasm = "'g \<Rightarrow> hook_call \<Rightarrow> 'g guest"

section \<open>The capability gate\<close>

fun function_name :: "host_call \<Rightarrow> string" where
  "function_name (Spawn_Npc _) = ''spawn-npc''"
| "function_name (Send_Message _ _) = ''send-message''"
| "function_name (Apply_Stat_Delta _ _ _) = ''apply-stat-delta''"
| "function_name (Apply_Stat_Delta_For_Character _ _ _) = ''apply-stat-delta-for-character''"
| "function_name (Move_Entity _ _ _ _) = ''move-entity''"
| "function_name (Teleport_Entity _ _ _ _) = ''teleport-entity''"
| "function_name (Grant_Item _ _ _) = ''grant-item''"
| "function_name (Remove_Item _ _ _) = ''remove-item''"
| "function_name (Modify_Currency _ _ _) = ''modify-currency''"
| "function_name (Caller_Role _) = ''caller-role''"
| "function_name (Plugin_State_Get _ _) = ''plugin-state-get''"
| "function_name (Plugin_State_Set _ _ _) = ''plugin-state-set''"
| "function_name (Report_Death _) = ''report-death''"
| "function_name (Report_Respawn _) = ''report-respawn''"
| "function_name (Block_Zone_Channel _ _) = ''block-zone-channel''"
| "function_name (Register_Item_Type _ _ _ _) = ''register-item-type''"
| "function_name (Get_Item _) = ''get-item''"

definition required_capability :: "string \<Rightarrow> string option" where
  "required_capability function =
     (if function = ''spawn-npc'' then Some ''spawning''
      else if function = ''send-message'' then Some ''messaging''
      else if function = ''move-entity'' then Some ''movement''
      else if function = ''teleport-entity'' then Some ''admin''
      else if function \<in> {''apply-stat-delta'', ''apply-stat-delta-for-character'', ''report-death'', ''report-respawn''}
        then Some ''combat''
      else if function \<in> {''grant-item'', ''remove-item'', ''modify-currency'', ''register-item-type''}
        then Some ''economy''
      else if function = ''block-zone-channel'' then Some ''messaging''
      else None)"

definition check_capability :: "string list \<Rightarrow> string \<Rightarrow> host_failure + unit" where
  "check_capability granted function = (case required_capability function of
     Some capability \<Rightarrow> ensure (capability \<in> set granted) (LacksCapability capability function)
   | None \<Rightarrow> Inr ())"

section \<open>The server's side of the host functions\<close>

record host_env =
  parse_entity :: "string \<Rightarrow> entity_id option"
  show_entity :: "entity_id \<Rightarrow> string"
  parse_character :: "string \<Rightarrow> character_id option"
  show_character :: "character_id \<Rightarrow> string"
  parse_json :: "string \<Rightarrow> ContentPack.json option"
  show_json :: "ContentPack.json \<Rightarrow> string"

text \<open>The queues one plugin fills and the server drains.\<close>

record pending =
  pq_spawns :: "string list"
  pq_stat_deltas :: "(string \<times> string \<times> i64) list"
  pq_character_stat_deltas :: "(string \<times> string \<times> i64) list"
  pq_moves :: "(string \<times> point3) list"
  pq_teleports :: "(string \<times> point3) list"
  pq_item_grants :: "(string \<times> string \<times> i64) list"
  pq_item_removals :: "(string \<times> string \<times> i64) list"
  pq_currency_deltas :: "(string \<times> string \<times> i64) list"
  pq_state_writes :: "(state_scope \<times> string \<times> bytes) list"
  pq_deaths :: "string list"
  pq_respawns :: "string list"
  pq_item_registrations :: "item_entry list"

definition no_pending :: pending where
  "no_pending = \<lparr>pq_spawns = [], pq_stat_deltas = [], pq_character_stat_deltas = [], pq_moves = [],
     pq_teleports = [], pq_item_grants = [], pq_item_removals = [], pq_currency_deltas = [],
     pq_state_writes = [], pq_deaths = [], pq_respawns = [], pq_item_registrations = []\<rparr>"

text \<open>What all plugins of the process share. A row of \<open>sh_sessions\<close> is a connection's sender, and its
  value whether the connection still holds the receiver; \<open>sh_sent\<close> is what was handed to them.\<close>

record shared =
  sh_entity_roles :: "(entity_id, string list) table"
  sh_sessions :: "(entity_id, bool) table"
  sh_sent :: "(entity_id \<times> server_message) list"
  sh_state_cache :: "(string, bytes) table"
  sh_blocked :: "(entity_id, string list) table"
  sh_catalog_cache :: "(string, item_entry) table"

fun cache_key :: "state_scope \<Rightarrow> string \<Rightarrow> string" where
  "cache_key (Scope_Character i) key = ''character:'' @ i @ '':'' @ key"
| "cache_key (Scope_Entity i) key = ''entity:'' @ i @ '':'' @ key"
| "cache_key (Scope_Zone i) key = ''zone:'' @ i @ '':'' @ key"

type_synonym answered = "(host_failure + host_answer) \<times> pending \<times> shared"

definition plugin_send_message :: "host_env \<Rightarrow> string \<Rightarrow> string \<Rightarrow> pending \<Rightarrow> shared \<Rightarrow> answered" where
  "plugin_send_message env target body p s = (case parse_entity env target of
     None \<Rightarrow> (Inl (NotAnEntityId target), p, s)
   | Some e \<Rightarrow> (case map_of (sh_sessions s) e of
       Some True \<Rightarrow> (Inr Answer_Unit, p, s\<lparr>sh_sent := sh_sent s @ [(e, S_PluginMessage body)]\<rparr>)
     | Some False \<Rightarrow> (Inl (NoLongerConnected target), p, s)
     | None \<Rightarrow> (Inl (NoConnectedEntity target), p, s)))"

definition plugin_caller_role :: "host_env \<Rightarrow> string \<Rightarrow> pending \<Rightarrow> shared \<Rightarrow> answered" where
  "plugin_caller_role env who p s = (case parse_entity env who of
     None \<Rightarrow> (Inl (NotAnEntityId who), p, s)
   | Some e \<Rightarrow> (case map_of (sh_entity_roles s) e of
       Some roles \<Rightarrow> (Inr (Answer_Roles roles), p, s)
     | None \<Rightarrow> (Inl (NotAPlayer e), p, s)))"

definition plugin_state_set :: "state_scope \<Rightarrow> string \<Rightarrow> bytes \<Rightarrow> pending \<Rightarrow> shared \<Rightarrow> answered" where
  "plugin_state_set scope key val p s =
     (Inr Answer_Unit,
      (case scope of Scope_Entity _ \<Rightarrow> p
       | _ \<Rightarrow> p\<lparr>pq_state_writes := pq_state_writes p @ [(scope, key, val)]\<rparr>),
      s\<lparr>sh_state_cache := put_row (cache_key scope key) val (sh_state_cache s)\<rparr>)"

definition plugin_block_zone_channel :: "host_env \<Rightarrow> string \<Rightarrow> string \<Rightarrow> pending \<Rightarrow> shared \<Rightarrow> answered" where
  "plugin_block_zone_channel env who category p s = (case parse_entity env who of
     None \<Rightarrow> (Inl (NotAnEntityId who), p, s)
   | Some e \<Rightarrow> (Inr Answer_Unit, p,
       s\<lparr>sh_blocked := put_row e
           (List.insert category (case map_of (sh_blocked s) e of None \<Rightarrow> [] | Some cs \<Rightarrow> cs)) (sh_blocked s)\<rparr>))"

definition plugin_register_item_type ::
  "host_env \<Rightarrow> string \<Rightarrow> string \<Rightarrow> string list \<Rightarrow> string \<Rightarrow> pending \<Rightarrow> shared \<Rightarrow> answered" where
  "plugin_register_item_type env item_type display_name tags metadata p s = (case parse_json env metadata of
     None \<Rightarrow> (Inl (MetadataNotJson metadata), p, s)
   | Some json \<Rightarrow>
      (let entry = \<lparr>ie_item_type = item_type, ie_display_name = display_name, ie_tags = tags, ie_metadata = json\<rparr>;
           problems = validate_entry entry
       in if problems \<noteq> [] then (Inl (ItemInvalid item_type problems), p, s)
          else (Inr Answer_Unit,
            p\<lparr>pq_item_registrations := pq_item_registrations p @ [entry]\<rparr>,
            s\<lparr>sh_catalog_cache := put_row item_type entry (sh_catalog_cache s)\<rparr>)))"

definition plugin_get_item :: "host_env \<Rightarrow> string \<Rightarrow> pending \<Rightarrow> shared \<Rightarrow> answered" where
  "plugin_get_item env item_type p s =
     (Inr (Answer_Item (map_option (\<lambda>entry.
        (ie_item_type entry, ie_display_name entry, ie_tags entry, show_json env (ie_metadata entry)))
        (map_of (sh_catalog_cache s) item_type))), p, s)"

fun serve :: "host_env \<Rightarrow> host_call \<Rightarrow> pending \<Rightarrow> shared \<Rightarrow> answered" where
  "serve env (Spawn_Npc table) p s = (Inr (Answer_Text table), p\<lparr>pq_spawns := pq_spawns p @ [table]\<rparr>, s)"
| "serve env (Send_Message target body) p s = plugin_send_message env target body p s"
| "serve env (Apply_Stat_Delta who key delta) p s =
     (Inr Answer_Unit, p\<lparr>pq_stat_deltas := pq_stat_deltas p @ [(who, key, delta)]\<rparr>, s)"
| "serve env (Apply_Stat_Delta_For_Character who key delta) p s =
     (Inr Answer_Unit, p\<lparr>pq_character_stat_deltas := pq_character_stat_deltas p @ [(who, key, delta)]\<rparr>, s)"
| "serve env (Move_Entity who x y z) p s =
     (Inr Answer_Unit, p\<lparr>pq_moves := pq_moves p @ [(who, x, y, z)]\<rparr>, s)"
| "serve env (Teleport_Entity who x y z) p s =
     (Inr Answer_Unit, p\<lparr>pq_teleports := pq_teleports p @ [(who, x, y, z)]\<rparr>, s)"
| "serve env (Grant_Item who item n) p s =
     (Inr Answer_Unit, p\<lparr>pq_item_grants := pq_item_grants p @ [(who, item, n)]\<rparr>, s)"
| "serve env (Remove_Item who item n) p s =
     (Inr Answer_Unit, p\<lparr>pq_item_removals := pq_item_removals p @ [(who, item, n)]\<rparr>, s)"
| "serve env (Modify_Currency who key delta) p s =
     (Inr Answer_Unit, p\<lparr>pq_currency_deltas := pq_currency_deltas p @ [(who, key, delta)]\<rparr>, s)"
| "serve env (Caller_Role who) p s = plugin_caller_role env who p s"
| "serve env (Plugin_State_Get scope key) p s =
     (Inr (Answer_State (map_of (sh_state_cache s) (cache_key scope key))), p, s)"
| "serve env (Plugin_State_Set scope key val) p s = plugin_state_set scope key val p s"
| "serve env (Report_Death who) p s = (Inr Answer_Unit, p\<lparr>pq_deaths := pq_deaths p @ [who]\<rparr>, s)"
| "serve env (Report_Respawn who) p s = (Inr Answer_Unit, p\<lparr>pq_respawns := pq_respawns p @ [who]\<rparr>, s)"
| "serve env (Block_Zone_Channel who category) p s = plugin_block_zone_channel env who category p s"
| "serve env (Register_Item_Type item name tags metadata) p s =
     plugin_register_item_type env item name tags metadata p s"
| "serve env (Get_Item item) p s = plugin_get_item env item p s"

text \<open>\<^verbatim>\<open>CapabilityGatedCallbacks\<close>: four functions go straight through, the others are checked.\<close>

definition gated :: "host_env \<Rightarrow> string list \<Rightarrow> host_call \<Rightarrow> pending \<Rightarrow> shared \<Rightarrow> answered" where
  "gated env granted c p s = (case c of
     Caller_Role _ \<Rightarrow> serve env c p s
   | Plugin_State_Get _ _ \<Rightarrow> serve env c p s
   | Plugin_State_Set _ _ _ \<Rightarrow> serve env c p s
   | Get_Item _ \<Rightarrow> serve env c p s
   | _ \<Rightarrow> (case check_capability granted (function_name c) of
            Inl e \<Rightarrow> (Inl e, p, s)
          | Inr _ \<Rightarrow> serve env c p s))"

text \<open>A hook call running to its end. The first component says whether it returned.\<close>

primrec run_guest ::
  "host_env \<Rightarrow> string list \<Rightarrow> 'g guest \<Rightarrow> pending \<Rightarrow> shared \<Rightarrow> bool \<times> 'g \<times> pending \<times> shared" where
  "run_guest env granted (Return g) = (\<lambda>p s. (True, g, p, s))"
| "run_guest env granted (Trap g) = (\<lambda>p s. (False, g, p, s))"
| "run_guest env granted (Host c k) = (\<lambda>p s. case gated env granted c p s of
     (answer, p', s') \<Rightarrow> run_guest env granted (k answer) p' s')"

section \<open>A loaded plugin\<close>

record 'g plugin =
  pl_name :: string
  pl_message_types :: "u16 list"
  pl_chat_commands :: "string list"
  pl_hooks :: "string list"
  pl_capabilities :: "string list"
  pl_instance :: 'g
  pl_pending :: pending

definition wants :: "'g plugin \<Rightarrow> string \<Rightarrow> bool" where
  "wants pl hook = list_ex (\<lambda>h. h = hook) (pl_hooks pl)"

definition has_capability :: "'g plugin \<Rightarrow> string \<Rightarrow> bool" where
  "has_capability pl capability = list_ex (\<lambda>c. c = capability) (pl_capabilities pl)"

text \<open>The \<^verbatim>\<open>LoadedPlugin::on_*\<close> methods.\<close>

definition call_hook ::
  "host_env \<Rightarrow> 'g wasm \<Rightarrow> hook_call \<Rightarrow> 'g plugin \<Rightarrow> shared \<Rightarrow> bool \<times> 'g plugin \<times> shared" where
  "call_hook env wasm h pl s = (case run_guest env (pl_capabilities pl) (wasm (pl_instance pl) h) (pl_pending pl) s of
     (returned, g, p, s') \<Rightarrow> (returned, pl\<lparr>pl_instance := g, pl_pending := p\<rparr>, s'))"

datatype load_error = Incompatible manifest_error | NotLoadable string | OnLoadFailed string

text \<open>\<^verbatim>\<open>PluginHost::load\<close> and \<^verbatim>\<open>load_plugin\<close>; \<open>instantiate\<close> is what wasmtime makes of the file.\<close>

definition load_plugin ::
  "host_env \<Rightarrow> 'g wasm \<Rightarrow> (string \<Rightarrow> 'g option) \<Rightarrow> plugin_declaration \<Rightarrow> string \<Rightarrow> shared
   \<Rightarrow> (load_error + 'g plugin \<times> string list \<times> item_entry list) \<times> shared" where
  "load_plugin env wasm instantiate d path s = (case check_compatible d of
     Inl e \<Rightarrow> (Inl (Incompatible e), s)
   | Inr _ \<Rightarrow> (case instantiate path of
       None \<Rightarrow> (Inl (NotLoadable path), s)
     | Some g \<Rightarrow>
        (let pl = \<lparr>pl_name = pd_name d, pl_message_types = pd_message_types d,
               pl_chat_commands = pd_chat_commands d, pl_hooks = pd_hooks d,
               pl_capabilities = pd_capabilities d, pl_instance = g, pl_pending = no_pending\<rparr>;
             (returned, pl1, s1) =
               (if wants pl ''on-load'' then call_hook env wasm On_Load pl s else (True, pl, s))
         in if \<not> returned then (Inl (OnLoadFailed (pd_name d)), s1)
            else (Inr (pl1\<lparr>pl_pending := (pl_pending pl1)\<lparr>pq_spawns := [], pq_item_registrations := []\<rparr>\<rparr>,
                    pq_spawns (pl_pending pl1), pq_item_registrations (pl_pending pl1)), s1))))"

datatype startup_panic = FailedToLoad string load_error | RegistrationRejected string string catalog_error

text \<open>\<^verbatim>\<open>main\<close> persists the registrations of one \<^verbatim>\<open>on_load\<close> before the next plugin is loaded.\<close>

fun persist_registrations ::
  "string \<Rightarrow> item_entry list \<Rightarrow> catalog \<Rightarrow> startup_panic + catalog" where
  "persist_registrations name [] cat = Inr cat"
| "persist_registrations name (item # es) cat = (case register_item item cat of
     (Inl e, _) \<Rightarrow> Inl (RegistrationRejected name (ie_item_type item) e)
   | (Inr _, cat') \<Rightarrow> persist_registrations name es cat')"

fun start_plugins ::
  "host_env \<Rightarrow> 'g wasm \<Rightarrow> (string \<Rightarrow> 'g option) \<Rightarrow> (plugin_declaration \<times> string) list \<Rightarrow> shared \<Rightarrow> catalog
   \<Rightarrow> startup_panic + 'g plugin list \<times> shared \<times> catalog" where
  "start_plugins env wasm instantiate [] s cat = Inr ([], s, cat)"
| "start_plugins env wasm instantiate ((d, path) # ds) s cat =
     (case load_plugin env wasm instantiate d path s of
        (Inl e, _) \<Rightarrow> Inl (FailedToLoad (pd_name d) e)
      | (Inr (pl, ignored_spawns, registrations), s1) \<Rightarrow>
          try_then (persist_registrations (pd_name d) registrations cat) (\<lambda>cat1.
          try_then (start_plugins env wasm instantiate ds s1 cat1) (\<lambda>(pls, s2, cat2).
          Inr (pl # pls, s2, cat2))))"

section \<open>What a hook call can touch\<close>

lemma run_guest_invariant:
  assumes step: "\<And>c p s a p' s'. I p s \<Longrightarrow> gated env granted c p s = (a, p', s') \<Longrightarrow> I p' s'"
    and run: "run_guest env granted g p s = (r, g', p', s')" and start: "I p s"
  shows "I p' s'"
  using run start
proof (induction g arbitrary: p s)
  case (Host c k)
  obtain a p1 s1 where one: "gated env granted c p s = (a, p1, s1)" by (cases "gated env granted c p s") auto
  then have "run_guest env granted (k a) p1 s1 = (r, g', p', s')" using Host.prems(1) by simp
  then show ?case using Host.IH [of "k a"] step [OF Host.prems(2) one] by blast
qed auto

definition queues_within :: "string list \<Rightarrow> pending \<Rightarrow> bool" where
  "queues_within granted p \<longleftrightarrow>
     (''spawning'' \<notin> set granted \<longrightarrow> pq_spawns p = [])
   \<and> (''combat'' \<notin> set granted \<longrightarrow> pq_stat_deltas p = [] \<and> pq_character_stat_deltas p = []
        \<and> pq_deaths p = [] \<and> pq_respawns p = [])
   \<and> (''movement'' \<notin> set granted \<longrightarrow> pq_moves p = [])
   \<and> (''admin'' \<notin> set granted \<longrightarrow> pq_teleports p = [])
   \<and> (''economy'' \<notin> set granted \<longrightarrow> pq_item_grants p = [] \<and> pq_item_removals p = []
        \<and> pq_currency_deltas p = [] \<and> pq_item_registrations p = [])"

definition shared_within :: "string list \<Rightarrow> shared \<Rightarrow> shared \<Rightarrow> bool" where
  "shared_within granted s s' \<longleftrightarrow> sh_entity_roles s' = sh_entity_roles s \<and> sh_sessions s' = sh_sessions s
   \<and> (''messaging'' \<notin> set granted \<longrightarrow> sh_sent s' = sh_sent s \<and> sh_blocked s' = sh_blocked s)
   \<and> (''economy'' \<notin> set granted \<longrightarrow> sh_catalog_cache s' = sh_catalog_cache s)"

lemma no_pending_within [simp]: "queues_within granted no_pending"
  by (simp add: queues_within_def no_pending_def)

lemma shared_within_refl [simp]: "shared_within granted s s"
  by (simp add: shared_within_def)

lemma shared_within_trans:
  "shared_within granted s s1 \<Longrightarrow> shared_within granted s1 s2 \<Longrightarrow> shared_within granted s s2"
  by (simp add: shared_within_def)

lemma required_capability_simps [simp]:
  "required_capability ''spawn-npc'' = Some ''spawning''"
  "required_capability ''send-message'' = Some ''messaging''"
  "required_capability ''move-entity'' = Some ''movement''"
  "required_capability ''teleport-entity'' = Some ''admin''"
  "required_capability ''apply-stat-delta'' = Some ''combat''"
  "required_capability ''apply-stat-delta-for-character'' = Some ''combat''"
  "required_capability ''report-death'' = Some ''combat''"
  "required_capability ''report-respawn'' = Some ''combat''"
  "required_capability ''grant-item'' = Some ''economy''"
  "required_capability ''remove-item'' = Some ''economy''"
  "required_capability ''modify-currency'' = Some ''economy''"
  "required_capability ''register-item-type'' = Some ''economy''"
  "required_capability ''block-zone-channel'' = Some ''messaging''"
  "required_capability ''caller-role'' = None"
  "required_capability ''plugin-state-get'' = None"
  "required_capability ''plugin-state-set'' = None"
  "required_capability ''get-item'' = None"
  by (simp_all add: required_capability_def)

text \<open>The host functions that look at more than their own queue.\<close>

lemma send_message_frame:
  assumes "plugin_send_message env target body p s = (a, p', s')"
  shows "p' = p" "\<exists>sent. s' = s\<lparr>sh_sent := sent\<rparr>"
  using assms by (auto simp: plugin_send_message_def split: option.splits bool.splits intro: exI [of _ "sh_sent s"])

lemma caller_role_frame: "plugin_caller_role env who p s = (a, p', s') \<Longrightarrow> p' = p \<and> s' = s"
  by (auto simp: plugin_caller_role_def split: option.splits)

lemma state_set_frame:
  assumes "plugin_state_set scope key val p s = (a, p', s')"
  shows "\<exists>ws. p' = p\<lparr>pq_state_writes := ws\<rparr>" "\<exists>cache. s' = s\<lparr>sh_state_cache := cache\<rparr>"
  using assms by (auto simp: plugin_state_set_def split: state_scope.splits intro: exI [of _ "pq_state_writes p"])

lemma block_frame:
  assumes "plugin_block_zone_channel env who category p s = (a, p', s')"
  shows "p' = p" "\<exists>blocked. s' = s\<lparr>sh_blocked := blocked\<rparr>"
  using assms by (auto simp: plugin_block_zone_channel_def split: option.splits intro: exI [of _ "sh_blocked s"])

lemma register_frame:
  assumes "plugin_register_item_type env item name tags metadata p s = (a, p', s')"
  obtains (kept) "p' = p" "s' = s"
  | (registered) ie where "validate_entry ie = []" "p' = p\<lparr>pq_item_registrations := pq_item_registrations p @ [ie]\<rparr>"
      "s' = s\<lparr>sh_catalog_cache := put_row (ie_item_type ie) ie (sh_catalog_cache s)\<rparr>"
proof (cases "parse_json env metadata")
  case None
  then show thesis using assms kept by (simp add: plugin_register_item_type_def)
next
  case (Some json)
  let ?ie = "\<lparr>ie_item_type = item, ie_display_name = name, ie_tags = tags, ie_metadata = json\<rparr>"
  show thesis
  proof (cases "validate_entry ?ie = []")
    case True
    show thesis by (rule registered [of ?ie]) (use assms Some True in \<open>auto simp: plugin_register_item_type_def Let_def\<close>)
  next
    case False
    then show thesis using assms Some kept by (auto simp: plugin_register_item_type_def Let_def)
  qed
qed

lemma gated_cases:
  assumes "gated env granted c p s = (a, p', s')"
  obtains (refused) e where "a = Inl e" "p' = p" "s' = s"
    | (served) "serve env c p s = (a, p', s')"
        "\<forall>cap. required_capability (function_name c) = Some cap \<longrightarrow> cap \<in> set granted"
proof (cases "check_capability granted (function_name c)")
  case (Inl e)
  then have "required_capability (function_name c) \<noteq> None"
    by (auto simp: check_capability_def split: option.splits)
  then show thesis using assms Inl refused [of e]
    by (cases c) (auto simp: gated_def required_capability_def)
next
  case (Inr u)
  then have "serve env c p s = (a, p', s')" using assms by (cases c) (auto simp: gated_def)
  moreover have "\<forall>cap. required_capability (function_name c) = Some cap \<longrightarrow> cap \<in> set granted"
    using Inr by (auto simp: check_capability_def split: option.splits)
  ultimately show thesis by (rule served)
qed

text \<open>A host function leaves the queues of the other capabilities alone.\<close>

lemmas served_defs = plugin_send_message_def plugin_caller_role_def plugin_state_set_def
  plugin_block_zone_channel_def plugin_register_item_type_def plugin_get_item_def Let_def

lemma serve_other_queues:
  fixes env c p s
  defines "q \<equiv> fst (snd (serve env c p s))" and "needs \<equiv> required_capability (function_name c)"
  shows "needs \<noteq> Some ''spawning'' \<Longrightarrow> pq_spawns q = pq_spawns p"
    "needs \<noteq> Some ''combat'' \<Longrightarrow> pq_stat_deltas q = pq_stat_deltas p"
    "needs \<noteq> Some ''combat'' \<Longrightarrow> pq_character_stat_deltas q = pq_character_stat_deltas p"
    "needs \<noteq> Some ''combat'' \<Longrightarrow> pq_deaths q = pq_deaths p"
    "needs \<noteq> Some ''combat'' \<Longrightarrow> pq_respawns q = pq_respawns p"
    "needs \<noteq> Some ''movement'' \<Longrightarrow> pq_moves q = pq_moves p"
    "needs \<noteq> Some ''admin'' \<Longrightarrow> pq_teleports q = pq_teleports p"
    "needs \<noteq> Some ''economy'' \<Longrightarrow> pq_item_grants q = pq_item_grants p"
    "needs \<noteq> Some ''economy'' \<Longrightarrow> pq_item_removals q = pq_item_removals p"
    "needs \<noteq> Some ''economy'' \<Longrightarrow> pq_currency_deltas q = pq_currency_deltas p"
    "needs \<noteq> Some ''economy'' \<Longrightarrow> pq_item_registrations q = pq_item_registrations p"
  unfolding q_def needs_def
  by (cases c; simp add: served_defs split: option.split bool.split state_scope.split)+

lemma serve_other_shared:
  fixes env c p s
  defines "t \<equiv> snd (snd (serve env c p s))" and "needs \<equiv> required_capability (function_name c)"
  shows "sh_entity_roles t = sh_entity_roles s" "sh_sessions t = sh_sessions s"
    "needs \<noteq> Some ''messaging'' \<Longrightarrow> sh_sent t = sh_sent s"
    "needs \<noteq> Some ''messaging'' \<Longrightarrow> sh_blocked t = sh_blocked s"
    "needs \<noteq> Some ''economy'' \<Longrightarrow> sh_catalog_cache t = sh_catalog_cache s"
  unfolding t_def needs_def
  by (cases c; simp add: served_defs split: option.split bool.split state_scope.split)+

lemma gated_within:
  assumes "gated env granted c p s = (a, p', s')" "queues_within granted p"
  shows "queues_within granted p' \<and> shared_within granted s s'"
  using assms(1)
proof (cases rule: gated_cases)
  case refused
  then show ?thesis using assms(2) by simp
next
  case served
  have eqs: "p' = fst (snd (serve env c p s))" "s' = snd (snd (serve env c p s))" by (simp_all add: served(1))
  have other: "cap \<notin> set granted \<Longrightarrow> required_capability (function_name c) \<noteq> Some cap" for cap
    using served(2) by blast
  have "queues_within granted p'"
    using assms(2) by (simp add: queues_within_def eqs serve_other_queues other)
  moreover have "shared_within granted s s'"
    by (simp add: shared_within_def eqs serve_other_shared other)
  ultimately show ?thesis by blast
qed

lemma run_guest_within:
  assumes "run_guest env granted g p s = (r, g', p', s')" "queues_within granted p"
  shows "queues_within granted p' \<and> shared_within granted s s'"
proof (rule run_guest_invariant [where I = "\<lambda>q t. queues_within granted q \<and> shared_within granted s t",
      OF _ assms(1)])
  fix c q t a q' t'
  assume "queues_within granted q \<and> shared_within granted s t" "gated env granted c q t = (a, q', t')"
  then show "queues_within granted q' \<and> shared_within granted s t'"
    using gated_within shared_within_trans by blast
qed (simp add: assms(2))

lemma call_hook_fields:
  assumes "call_hook env wasm h pl s = (r, pl', s')"
  shows "pl_name pl' = pl_name pl" "pl_hooks pl' = pl_hooks pl" "pl_capabilities pl' = pl_capabilities pl"
    "pl_message_types pl' = pl_message_types pl" "pl_chat_commands pl' = pl_chat_commands pl"
  using assms by (auto simp: call_hook_def split: prod.splits)

lemma call_hook_within:
  assumes "call_hook env wasm h pl s = (r, pl', s')" "queues_within (pl_capabilities pl) (pl_pending pl)"
  shows "queues_within (pl_capabilities pl) (pl_pending pl')" "shared_within (pl_capabilities pl) s s'"
  using assms run_guest_within by (fastforce simp: call_hook_def split: prod.splits)+

section \<open>The catalog after startup\<close>

text \<open>The cache is a catalog the registrations still queued have been entered into, in their order.\<close>

definition registered :: "item_entry list \<Rightarrow> (string, item_entry) table \<Rightarrow> (string, item_entry) table" where
  "registered es t = fold (\<lambda>ie. put_row (ie_item_type ie) ie) es t"

definition catalog_ahead :: "catalog \<Rightarrow> pending \<Rightarrow> shared \<Rightarrow> bool" where
  "catalog_ahead cat p s \<longleftrightarrow> (\<forall>ie \<in> set (pq_item_registrations p). validate_entry ie = [])
     \<and> map_of (sh_catalog_cache s) = map_of (registered (pq_item_registrations p) (item_types cat))"

lemma map_of_put_row_cong: "map_of t = map_of t' \<Longrightarrow> map_of (put_row k v t) = map_of (put_row k v t')"
  by (simp add: fun_eq_iff)

lemma gated_catalog:
  assumes "gated env granted c p s = (a, p', s')" "catalog_ahead cat p s"
  shows "catalog_ahead cat p' s'"
  using assms(1)
proof (cases rule: gated_cases)
  case refused
  then show ?thesis using assms(2) by simp
next
  case served
  have eqs: "p' = fst (snd (serve env c p s))" "s' = snd (snd (serve env c p s))" by (simp_all add: served(1))
  show ?thesis
  proof (cases c)
    case (Send_Message x11 x12)
    then show ?thesis using assms(2) served send_message_frame [of env x11 x12 p s a p' s']
      by (auto simp: catalog_ahead_def)
  next
    case (Caller_Role x)
    then show ?thesis using assms(2) served caller_role_frame [of env x p s a p' s'] by simp
  next
    case (Plugin_State_Set x11 x12 x13)
    then show ?thesis using assms(2) served state_set_frame [of x11 x12 x13 p s a p' s']
      by (auto simp: catalog_ahead_def)
  next
    case (Block_Zone_Channel x11 x12)
    then show ?thesis using assms(2) served block_frame [of env x11 x12 p s a p' s']
      by (auto simp: catalog_ahead_def)
  next
    case (Register_Item_Type x11 x12 x13 x14)
    then have "plugin_register_item_type env x11 x12 x13 x14 p s = (a, p', s')"
      using served(1) by simp
    then show ?thesis
    proof (cases rule: register_frame)
      case kept
      then show ?thesis using assms(2) by simp
    next
      case (registered ie)
      then show ?thesis using assms(2) Register_Item_Type by (simp add: catalog_ahead_def registered_def ball_Un map_of_put_row_cong)
    qed
  next
    case (Get_Item x)
    then show ?thesis using assms(2) served by (simp add: plugin_get_item_def)
  qed (use assms(2) in \<open>simp_all add: eqs catalog_ahead_def\<close>)
qed

lemma call_hook_catalog:
  assumes "call_hook env wasm h pl s = (r, pl', s')" "catalog_ahead cat (pl_pending pl) s"
  shows "catalog_ahead cat (pl_pending pl') s'"
proof -
  obtain g p where run: "run_guest env (pl_capabilities pl) (wasm (pl_instance pl) h) (pl_pending pl) s = (r, g, p, s')"
    and p: "pl_pending pl' = p" using assms(1) by (auto simp: call_hook_def split: prod.splits)
  show ?thesis unfolding p
    by (rule run_guest_invariant [where I = "catalog_ahead cat", OF gated_catalog run assms(2)])
qed

lemma persist_registrations_ok:
  "\<forall>ie \<in> set es. validate_entry ie = [] \<Longrightarrow>
     persist_registrations name es cat = Inr (cat\<lparr>item_types := registered es (item_types cat)\<rparr>)"
  by (induction es arbitrary: cat) (simp_all add: register_item_def registered_def)

text \<open>The cache and the table agree.\<close>

definition catalog_cached :: "catalog \<Rightarrow> shared \<Rightarrow> bool" where
  "catalog_cached cat s \<longleftrightarrow> (\<forall>t. map_of (sh_catalog_cache s) t = map_of (item_types cat) t)"

lemma catalog_cached_ahead: "catalog_cached cat s \<longleftrightarrow> catalog_ahead cat no_pending s"
  by (simp add: catalog_cached_def catalog_ahead_def no_pending_def registered_def fun_eq_iff)

lemma load_plugin_cases:
  assumes "load_plugin env wasm instantiate d path s = (Inr (pl, spawns, es), s')"
  obtains g pl0 pl1 where "instantiate path = Some g"
    "pl0 = \<lparr>pl_name = pd_name d, pl_message_types = pd_message_types d, pl_chat_commands = pd_chat_commands d,
    pl_hooks = pd_hooks d, pl_capabilities = pd_capabilities d, pl_instance = g, pl_pending = no_pending\<rparr>"
    "(if wants pl0 ''on-load'' then call_hook env wasm On_Load pl0 s else (True, pl0, s)) = (True, pl1, s')"
    "es = pq_item_registrations (pl_pending pl1)"
    "pl = pl1\<lparr>pl_pending := (pl_pending pl1)\<lparr>pq_spawns := [], pq_item_registrations := []\<rparr>\<rparr>"
proof -
  obtain g u where g: "instantiate path = Some g" and u: "check_compatible d = Inr u"
    using assms by (auto simp: load_plugin_def split: sum.splits option.splits)
  define pl0 where "pl0 = \<lparr>pl_name = pd_name d, pl_message_types = pd_message_types d, pl_chat_commands = pd_chat_commands d,
    pl_hooks = pd_hooks d, pl_capabilities = pd_capabilities d, pl_instance = g, pl_pending = no_pending\<rparr>"
  obtain r pl1 s1 where
    run: "(if wants pl0 ''on-load'' then call_hook env wasm On_Load pl0 s else (True, pl0, s)) = (r, pl1, s1)"
    by (metis prod.collapse)
  have "r" "s1 = s'" "es = pq_item_registrations (pl_pending pl1)"
    "pl = pl1\<lparr>pl_pending := (pl_pending pl1)\<lparr>pq_spawns := [], pq_item_registrations := []\<rparr>\<rparr>"
    using assms unfolding load_plugin_def u g Let_def option.case sum.case pl0_def [symmetric] run
    by (auto split: if_splits)
  then show thesis using that [OF g pl0_def] run by simp
qed

lemma load_plugin_catalog:
  assumes "load_plugin env wasm instantiate d path s = (Inr (pl, spawns, es), s')" "catalog_cached cat s"
  shows "(\<forall>ie \<in> set es. validate_entry ie = []) \<and> catalog_cached (cat\<lparr>item_types := registered es (item_types cat)\<rparr>) s'"
proof -
  obtain g pl0 pl1 where pl0: "pl0 = \<lparr>pl_name = pd_name d, pl_message_types = pd_message_types d, pl_chat_commands = pd_chat_commands d,
    pl_hooks = pd_hooks d, pl_capabilities = pd_capabilities d, pl_instance = g, pl_pending = no_pending\<rparr>"
    and run: "(if wants pl0 ''on-load'' then call_hook env wasm On_Load pl0 s else (True, pl0, s)) = (True, pl1, s')"
    and es: "es = pq_item_registrations (pl_pending pl1)"
    using load_plugin_cases [OF assms(1)] by metis
  have "catalog_ahead cat (pl_pending pl0) s" using assms(2) by (simp add: pl0 catalog_cached_ahead)
  then have "catalog_ahead cat (pl_pending pl1) s'"
    using run call_hook_catalog [of env wasm On_Load pl0 s True pl1 s'] by (auto split: if_splits)
  then show ?thesis by (simp add: es catalog_ahead_def catalog_cached_def)
qed

text \<open>
  C15: Starting the plugins keeps the item catalog of the process and the table in step: after every
  \<open>on-load\<close> has run, the cache that \<open>get-item\<close> and the schema checks read holds exactly the rows of the
  catalog, whatever the plugins registered and in whatever order, and starting never fails because the
  catalog refuses an item that the host function had accepted.
\<close>

theorem startup_keeps_catalog_in_step:
  assumes "catalog_cached cat s"
  shows "case start_plugins env wasm instantiate ds s cat of
      Inr (pls, s', cat') \<Rightarrow> catalog_cached cat' s'
    | Inl (RegistrationRejected _ _ _) \<Rightarrow> False
    | Inl (FailedToLoad name e) \<Rightarrow> name \<in> pd_name ` fst ` set ds"
  using assms
proof (induction ds arbitrary: s cat)
  case (Cons dp ds)
  obtain d path where dp: "dp = (d, path)" by force
  obtain loaded s1 where l: "load_plugin env wasm instantiate d path s = (loaded, s1)" by force
  show ?case
  proof (cases loaded)
    case (Inl e)
    then show ?thesis by (simp add: dp l)
  next
    case (Inr x)
    then obtain pl spawns es where x: "loaded = Inr (pl, spawns, es)" by (metis prod.collapse)
    let ?cat = "cat\<lparr>item_types := registered es (item_types cat)\<rparr>"
    have "persist_registrations (pd_name d) es cat = Inr ?cat" "catalog_cached ?cat s1"
      using load_plugin_catalog [OF l [unfolded x] Cons.prems] persist_registrations_ok by blast+
    with Cons.IH [of ?cat s1] show ?thesis
      by (cases "start_plugins env wasm instantiate ds s1 ?cat")
        (auto simp: dp l x split: startup_panic.splits)
  qed
qed simp

text \<open>Two plugins that register items when they are loaded, the second overwriting one of the first's.\<close>

definition forge_host :: host_env where
  "forge_host = \<lparr>parse_entity = (\<lambda>_. None), show_entity = (\<lambda>_. []), parse_character = (\<lambda>_. None),
     show_character = (\<lambda>_. []), parse_json = (\<lambda>_. Some (ContentPack.JObject [])), show_json = (\<lambda>_. ''{}'')\<rparr>"

definition forge_declaration :: "string \<Rightarrow> plugin_declaration" where
  "forge_declaration name = \<lparr>pd_name = name, pd_host_api_version = ''0.16.0'', pd_capabilities = [''economy''],
     pd_message_types = [], pd_chat_commands = [], pd_hooks = [''on-load'']\<rparr>"

definition forge_wasm :: "string wasm" where
  "forge_wasm name h = (case h of
     On_Load \<Rightarrow> Host (Register_Item_Type name name [''gear''] ''{}'') (\<lambda>_.
       Host (Register_Item_Type ''ingot'' name [] ''{}'') (\<lambda>_. Return name))
   | _ \<Rightarrow> Return name)"

definition forge_sharing :: shared where
  "forge_sharing = \<lparr>sh_entity_roles = [], sh_sessions = [], sh_sent = [], sh_state_cache = [], sh_blocked = [],
     sh_catalog_cache = []\<rparr>"

definition forge_start :: "startup_panic + string plugin list \<times> shared \<times> catalog" where
  "forge_start = start_plugins forge_host forge_wasm (\<lambda>path. Some path)
     [(forge_declaration ''smithy'', ''sword''), (forge_declaration ''armory'', ''shield'')]
     forge_sharing \<lparr>item_types = [], item_drop_sources = []\<rparr>"

lemma startup_keeps_catalog_in_step_witness:
  "case forge_start of Inr (pls, s', cat') \<Rightarrow> catalog_cached cat' s'
      \<and> map (\<lambda>(t, entry). (t, ie_display_name entry)) (item_types cat')
          = [(''sword'', ''sword''), (''ingot'', ''shield''), (''shield'', ''shield'')]
    | Inl _ \<Rightarrow> False"
proof -
  have run: "case forge_start of Inr (pls, s', cat') \<Rightarrow> map (\<lambda>(t, entry). (t, ie_display_name entry)) (item_types cat')
          = [(''sword'', ''sword''), (''ingot'', ''shield''), (''shield'', ''shield'')]
    | Inl _ \<Rightarrow> False" by code_simp
  have "catalog_cached \<lparr>item_types = [], item_drop_sources = []\<rparr> forge_sharing"
    by (simp add: catalog_cached_def forge_sharing_def)
  note kept = startup_keeps_catalog_in_step [OF this, where env = forge_host and wasm = forge_wasm
      and instantiate = "\<lambda>path. Some path" and ds = "[(forge_declaration ''smithy'', ''sword''), (forge_declaration ''armory'', ''shield'')]"]
  show ?thesis
  proof (cases forge_start)
    case (Inl e)
    show ?thesis using run unfolding Inl sum.case .
  next
    case (Inr x)
    obtain pls s' cat' where "x = (pls, s', cat')" by (cases x)
    then show ?thesis
      using run kept [folded forge_start_def] unfolding Inr sum.case prod.case by simp
  qed
qed

end
