(* ===== verification/WorldActor.thy ===== *)
theory WorldActor
  imports PluginHost CharacterStore Inventory CurrencySchema
begin

text \<open>
  \<^verbatim>\<open>server/src/world_actor.rs\<close>, with the plugin-facing part of \<^verbatim>\<open>plugin_state.rs\<close> and the two hooks
  \<^verbatim>\<open>session.rs\<close> fires without a zone: the task that owns a zone, the commands it takes from the
  connections, the hooks it calls on the plugins, and how the requests a hook queued become changes of
  the zone and of the database. A command's reply and the metrics are left out. Entity ids are
  drawn from \<open>we_new_entity\<close>, by the number drawn before.
\<close>

section \<open>State\<close>

record world_env =
  we_host :: host_env
  we_store :: character_store
  we_npc_schema :: attribute_schema
  we_currency :: currency_schema
  we_new_entity :: "nat \<Rightarrow> entity_id"

text \<open>Everything a hook's effects can reach: the zone of the actor that runs, and what the actors and the
  connections of the process share.\<close>

record world =
  wd_zone :: zone
  wd_npc_stats :: "(entity_id, (string, i64) table) table"
  wd_entity_characters :: "(entity_id, character_id) table"
  wd_character_entities :: "(character_id, entity_id) table"
  wd_shared :: shared
  wd_db :: db
  wd_zone_state :: "(string \<times> string, bytes) table"
  wd_catalog :: catalog
  wd_ids_drawn :: nat

text \<open>\<^verbatim>\<open>send_to\<close> on the process-wide sessions: nothing happens for an entity that has none.\<close>

definition push_to :: "entity_id \<Rightarrow> server_message \<Rightarrow> world \<Rightarrow> world" where
  "push_to e msg w = (case map_of (sh_sessions (wd_shared w)) e of
     Some True \<Rightarrow> w\<lparr>wd_shared := (wd_shared w)\<lparr>sh_sent := sh_sent (wd_shared w) @ [(e, msg)]\<rparr>\<rparr>
   | _ \<Rightarrow> w)"

section \<open>The plugin state store\<close>

definition character_state :: "character_id \<Rightarrow> (string \<times> bytes) list sql" where
  "character_state c = query (\<lambda>db.
     map (\<lambda>(k, v). (snd k, v)) (rows_where (\<lambda>k v. fst k = c) (plugin_character_state db)))"

definition set_character_state :: "character_id \<Rightarrow> string \<Rightarrow> bytes \<Rightarrow> unit sql" where
  "set_character_state c key val = (\<lambda>db.
     if has_row (characters db) c
     then (Inr (), db\<lparr>plugin_character_state := put_row (c, key) val (plugin_character_state db)\<rparr>)
     else (Inl (Sql ForeignKeyViolation), db))"

definition zone_state :: "string \<Rightarrow> (string \<times> string, bytes) table \<Rightarrow> (string \<times> bytes) list" where
  "zone_state zone t = map (\<lambda>(k, v). (snd k, v)) (rows_where (\<lambda>k v. fst k = zone) t)"

definition set_zone_state ::
  "string \<Rightarrow> string \<Rightarrow> bytes \<Rightarrow> (string \<times> string, bytes) table \<Rightarrow> (string \<times> string, bytes) table" where
  "set_zone_state zone key val t = put_row (zone, key) val t"

section \<open>Applying what a hook queued\<close>

definition resolve_character :: "world_env \<Rightarrow> world \<Rightarrow> string \<Rightarrow> character_id option" where
  "resolve_character env w who =
     Option.bind (parse_entity (we_host env) who) (\<lambda>e. map_of (wd_entity_characters w) e)"

definition apply_npc_stat_delta ::
  "attribute_schema \<Rightarrow> entity_id \<Rightarrow> string \<Rightarrow> i64 \<Rightarrow> (entity_id, (string, i64) table) table
   \<Rightarrow> (error + i64) \<times> (entity_id, (string, i64) table) table" where
  "apply_npc_stat_delta sch e key delta all_stats =
     (let stats = (case map_of all_stats e of None \<Rightarrow> [] | Some t \<Rightarrow> t);
          entered = put_row e stats all_stats;
          stored = map (\<lambda>(k, v). (k, JInt v)) stats;
          result = try_then (resolve_read sch stored key) (\<lambda>current.
            try_then (ok_or_else (checked_add_i64 current delta) (Store (StatDeltaOverflow key))) (\<lambda>new_value.
            try_then (validate_write sch key new_value) (\<lambda>_. Inr new_value)))
      in case result of
           Inl err \<Rightarrow> (Inl err, entered)
         | Inr new_value \<Rightarrow> (Inr new_value, put_row e (put_row key new_value stats) entered))"

definition apply_move :: "world_env \<Rightarrow> string \<times> point3 \<Rightarrow> world \<Rightarrow> world" where
  "apply_move env req w = (case parse_entity (we_host env) (fst req) of
     Some e \<Rightarrow> w\<lparr>wd_zone := request_move e (snd req) 0 (wd_zone w)\<rparr>
   | None \<Rightarrow> w)"

definition apply_teleport :: "world_env \<Rightarrow> string \<times> point3 \<Rightarrow> world \<Rightarrow> world" where
  "apply_teleport env req w = (case parse_entity (we_host env) (fst req) of
     Some e \<Rightarrow> w\<lparr>wd_zone := request_teleport e (snd req) (wd_zone w)\<rparr>
   | None \<Rightarrow> w)"

text \<open>A statement of the character store, then the push to the entity's own connection if it succeeded.\<close>

definition store_and_push :: "i64 sql \<Rightarrow> entity_id option \<Rightarrow> (i64 \<Rightarrow> server_message) \<Rightarrow> world \<Rightarrow> i64 option \<times> world" where
  "store_and_push act e msg w = (case act (wd_db w) of
     (Inr v, db') \<Rightarrow> (Some v, (case e of Some i \<Rightarrow> push_to i (msg v) (w\<lparr>wd_db := db'\<rparr>) | None \<Rightarrow> w\<lparr>wd_db := db'\<rparr>))
   | (Inl _, db') \<Rightarrow> (None, w\<lparr>wd_db := db'\<rparr>))"

definition apply_stat :: "world_env \<Rightarrow> string \<times> string \<times> i64 \<Rightarrow> world \<Rightarrow> world" where
  "apply_stat env req w = (case req of (who, key, delta) \<Rightarrow>
     (case parse_entity (we_host env) who of
        None \<Rightarrow> w
      | Some e \<Rightarrow> (case kind_of (wd_zone w) e of
          Some Player \<Rightarrow> (case resolve_character env w who of
              None \<Rightarrow> w
            | Some c \<Rightarrow> snd (store_and_push (apply_stat_delta (we_store env) c key delta) (Some e)
                                (S_StatChanged key) w))
        | Some Npc \<Rightarrow>
            w\<lparr>wd_npc_stats := snd (apply_npc_stat_delta (we_npc_schema env) e key delta (wd_npc_stats w))\<rparr>
        | None \<Rightarrow> w)))"

type_synonym acquired = "(string \<times> string \<times> i64) list"

definition apply_item_grant :: "world_env \<Rightarrow> string \<times> string \<times> i64 \<Rightarrow> world \<times> acquired \<Rightarrow> world \<times> acquired" where
  "apply_item_grant env req = (\<lambda>(w, acquired). case req of (who, item, n) \<Rightarrow>
     (case resolve_character env w who of
        None \<Rightarrow> (w, acquired)
      | Some c \<Rightarrow> (case store_and_push (grant_item (we_store env) c item n) (parse_entity (we_host env) who)
                          (S_ItemChanged item) w of
            (Some q, w') \<Rightarrow> (w', acquired @ [(who, item, q)])
          | (None, w') \<Rightarrow> (w', acquired))))"

definition apply_removal :: "world_env \<Rightarrow> string \<times> string \<times> i64 \<Rightarrow> world \<Rightarrow> world" where
  "apply_removal env req w = (case req of (who, item, n) \<Rightarrow>
     (case resolve_character env w who of
        None \<Rightarrow> w
      | Some c \<Rightarrow> snd (store_and_push (remove_item c item n) (parse_entity (we_host env) who) (S_ItemChanged item) w)))"

definition apply_currency :: "world_env \<Rightarrow> string \<times> string \<times> i64 \<Rightarrow> world \<Rightarrow> world" where
  "apply_currency env req w = (case req of (who, key, delta) \<Rightarrow>
     (case resolve_character env w who of
        None \<Rightarrow> w
      | Some c \<Rightarrow>
          if \<not> is_declared (we_currency env) key then w
          else snd (store_and_push (modify_currency c key delta) (parse_entity (we_host env) who)
                 (S_CurrencyChanged key) w)))"

definition apply_state_write :: "world_env \<Rightarrow> state_scope \<times> string \<times> bytes \<Rightarrow> world \<Rightarrow> world" where
  "apply_state_write env req w = (case req of (scope, key, val) \<Rightarrow>
     (case scope of
        Scope_Character who \<Rightarrow> (case resolve_character env w who of
            Some c \<Rightarrow> w\<lparr>wd_db := snd (set_character_state c key val (wd_db w))\<rparr>
          | None \<Rightarrow> w)
      | Scope_Zone zone \<Rightarrow> w\<lparr>wd_zone_state := set_zone_state zone key val (wd_zone_state w)\<rparr>
      | Scope_Entity _ \<Rightarrow> w))"

definition apply_plugin_pending_effects :: "world_env \<Rightarrow> pending \<Rightarrow> world \<Rightarrow> world \<times> acquired" where
  "apply_plugin_pending_effects env p w =
     (let w1 = fold (apply_move env) (pq_moves p) w;
          w2 = fold (apply_teleport env) (pq_teleports p) w1;
          w3 = fold (apply_stat env) (pq_stat_deltas p) w2;
          (w4, acquired) = fold (apply_item_grant env) (pq_item_grants p) (w3, []);
          w5 = fold (apply_removal env) (pq_item_removals p) w4;
          w6 = fold (apply_currency env) (pq_currency_deltas p) w5;
          w7 = fold (apply_state_write env) (pq_state_writes p) w6
      in (w7, acquired))"

section \<open>Calling hooks\<close>

text \<open>One hook call of one plugin; a failed call is logged and otherwise like any other.\<close>

definition hook :: "world_env \<Rightarrow> 'g wasm \<Rightarrow> hook_call \<Rightarrow> 'g plugin \<times> world \<Rightarrow> 'g plugin \<times> world" where
  "hook env wasm h = (\<lambda>(pl, w). case call_hook (we_host env) wasm h pl (wd_shared w) of
     (_, pl', s') \<Rightarrow> (pl', w\<lparr>wd_shared := s'\<rparr>))"

definition hook_if :: "bool \<Rightarrow> world_env \<Rightarrow> 'g wasm \<Rightarrow> hook_call \<Rightarrow> 'g plugin \<times> world \<Rightarrow> 'g plugin \<times> world" where
  "hook_if c env wasm h pw = (if c then hook env wasm h pw else pw)"

definition set_queues :: "(pending \<Rightarrow> pending) \<Rightarrow> 'g plugin \<Rightarrow> 'g plugin" where
  "set_queues f pl = pl\<lparr>pl_pending := f (pl_pending pl)\<rparr>"

text \<open>The queues drained before anything is applied.\<close>

definition drain_effects :: "pending \<Rightarrow> pending" where
  "drain_effects p = p\<lparr>pq_moves := [], pq_teleports := [], pq_stat_deltas := [], pq_item_grants := [],
     pq_item_removals := [], pq_currency_deltas := [], pq_state_writes := []\<rparr>"

definition persist_registration :: "item_entry \<Rightarrow> world \<Rightarrow> world" where
  "persist_registration ie w = w\<lparr>wd_catalog := snd (register_item ie (wd_catalog w))\<rparr>"

definition confirm_acquired :: "world_env \<Rightarrow> 'g wasm \<Rightarrow> acquired \<Rightarrow> 'g plugin \<times> world \<Rightarrow> 'g plugin \<times> world" where
  "confirm_acquired env wasm acquired pw =
     fold (\<lambda>(who, item, q) pw'. hook_if (wants (fst pw) ''on-item-acquire'') env wasm
       (On_Item_Acquire (zm_id (zn_manifest (wd_zone (snd pw)))) who item q) pw') acquired pw"

definition confirm_deaths :: "world_env \<Rightarrow> 'g wasm \<Rightarrow> 'g plugin \<times> world \<Rightarrow> 'g plugin \<times> world" where
  "confirm_deaths env wasm = (\<lambda>(pl, w).
     fold (\<lambda>who. hook_if (wants pl ''on-death'') env wasm (On_Death (zm_id (zn_manifest (wd_zone w))) who))
       (pq_deaths (pl_pending pl)) (set_queues (\<lambda>p. p\<lparr>pq_deaths := []\<rparr>) pl, w))"

definition confirm_respawns :: "world_env \<Rightarrow> 'g wasm \<Rightarrow> 'g plugin \<times> world \<Rightarrow> 'g plugin \<times> world" where
  "confirm_respawns env wasm = (\<lambda>(pl, w).
     fold (\<lambda>who. hook_if (wants pl ''on-respawn'') env wasm (On_Respawn (zm_id (zn_manifest (wd_zone w))) who))
       (pq_respawns (pl_pending pl)) (set_queues (\<lambda>p. p\<lparr>pq_respawns := []\<rparr>) pl, w))"

definition persist_pending_registrations :: "'g plugin \<times> world \<Rightarrow> 'g plugin \<times> world" where
  "persist_pending_registrations = (\<lambda>(pl, w).
     (set_queues (\<lambda>p. p\<lparr>pq_item_registrations := []\<rparr>) pl,
      fold persist_registration (pq_item_registrations (pl_pending pl)) w))"

definition drain_and_apply_plugin_effects ::
  "world_env \<Rightarrow> 'g wasm \<Rightarrow> 'g plugin \<times> world \<Rightarrow> 'g plugin \<times> world" where
  "drain_and_apply_plugin_effects env wasm = (\<lambda>(pl, w).
     (case apply_plugin_pending_effects env (pl_pending pl) w of (w1, acquired) \<Rightarrow>
        persist_pending_registrations
          (confirm_respawns env wasm
            (confirm_deaths env wasm
              (confirm_acquired env wasm acquired (set_queues drain_effects pl, w1))))))"

fun fire_hook ::
  "world_env \<Rightarrow> 'g wasm \<Rightarrow> string \<Rightarrow> hook_call \<Rightarrow> 'g plugin list \<Rightarrow> world \<Rightarrow> 'g plugin list \<times> world" where
  "fire_hook env wasm name h [] w = ([], w)"
| "fire_hook env wasm name h (pl # pls) w =
     (case (if wants pl name then drain_and_apply_plugin_effects env wasm (hook env wasm h (pl, w)) else (pl, w)) of
        (pl', w1) \<Rightarrow> (case fire_hook env wasm name h pls w1 of (pls', w2) \<Rightarrow> (pl' # pls', w2)))"

section \<open>Spawning what a plugin asked for\<close>

definition spawn_npc_from_table :: "world_env \<Rightarrow> string \<Rightarrow> world \<Rightarrow> (entity_id \<times> string) option \<times> world" where
  "spawn_npc_from_table env table_id w =
     (case List.find (\<lambda>t. st_id t = table_id) (zm_spawn_tables (zn_manifest (wd_zone w))) of
        None \<Rightarrow> (None, w)
      | Some table \<Rightarrow> (case st_points table of
          [] \<Rightarrow> (None, w)
        | point # _ \<Rightarrow>
            (let p = (fst point, snd point, f_zero);
                 e = we_new_entity env (wd_ids_drawn w);
                 z = (case st_route_id table of
                        Some route_id \<Rightarrow> spawn_npc_with_route e p route_id (wd_zone w)
                      | None \<Rightarrow> zone_spawn e Npc p (wd_zone w))
             in (Some (e, st_entity_type table),
                 w\<lparr>wd_zone := record_entity_type e (st_entity_type table) z, wd_ids_drawn := wd_ids_drawn w + 1\<rparr>))))"

definition spawn_one :: "world_env \<Rightarrow> 'g wasm \<Rightarrow> bool \<Rightarrow> string \<Rightarrow> string \<Rightarrow> 'g plugin \<times> world \<Rightarrow> 'g plugin \<times> world" where
  "spawn_one env wasm wanted zone_id table_id = (\<lambda>(pl, w). case spawn_npc_from_table env table_id w of
     (None, w') \<Rightarrow> (pl, w')
   | (Some (e, entity_type), w') \<Rightarrow> hook_if wanted env wasm
       (On_Entity_Spawn zone_id (show_entity (we_host env) e) entity_type table_id) (pl, w'))"

definition spawn_requested_npcs :: "world_env \<Rightarrow> 'g wasm \<Rightarrow> string \<Rightarrow> 'g plugin \<times> world \<Rightarrow> 'g plugin \<times> world" where
  "spawn_requested_npcs env wasm zone_id = (\<lambda>(pl, w).
     fold (spawn_one env wasm (wants pl ''on-entity-spawn'') zone_id) (pq_spawns (pl_pending pl))
       (set_queues (\<lambda>p. p\<lparr>pq_spawns := []\<rparr>) pl, w))"

section \<open>The actor\<close>

datatype world_command =
    Cmd_Spawn entity_id entity_kind point3
  | Cmd_Despawn entity_id
  | Cmd_Request_Move entity_id point3 u32
  | Cmd_Plugin_Message u16 entity_id bytes
  | Cmd_Chat_Command string string entity_id
  | Cmd_Player_Join entity_id
  | Cmd_Player_Leave entity_id
  | Cmd_Attack entity_id entity_id string
  | Cmd_Use_Item entity_id string
  | Cmd_Interact_Npc entity_id entity_id
  | Cmd_Item_Dropped entity_id string i64

text \<open>\<^verbatim>\<open>plugins.iter_mut().find(..)\<close>, then what is done to the plugin found.\<close>

fun with_first ::
  "('g plugin \<Rightarrow> bool) \<Rightarrow> ('g plugin \<times> world \<Rightarrow> 'g plugin \<times> world) \<Rightarrow> 'g plugin list \<Rightarrow> world
   \<Rightarrow> 'g plugin list \<times> world" where
  "with_first P f [] w = ([], w)"
| "with_first P f (pl # pls) w =
     (if P pl then (case f (pl, w) of (pl', w') \<Rightarrow> (pl' # pls, w'))
      else (case with_first P f pls w of (pls', w') \<Rightarrow> (pl # pls', w')))"

text \<open>What follows a hook that is routed to its one owner.\<close>

definition owned_hook :: "world_env \<Rightarrow> 'g wasm \<Rightarrow> string \<Rightarrow> hook_call \<Rightarrow> 'g plugin \<times> world \<Rightarrow> 'g plugin \<times> world" where
  "owned_hook env wasm zone_id h pw =
     drain_and_apply_plugin_effects env wasm (spawn_requested_npcs env wasm zone_id (hook env wasm h pw))"

fun handle_command ::
  "world_env \<Rightarrow> 'g wasm \<Rightarrow> string \<Rightarrow> world_command \<Rightarrow> 'g plugin list \<Rightarrow> world \<Rightarrow> 'g plugin list \<times> world" where
  "handle_command env wasm zid (Cmd_Spawn e kind p) pls w =
     (pls, w\<lparr>wd_zone := zone_spawn e kind p (wd_zone w)\<rparr>)"
| "handle_command env wasm zid (Cmd_Despawn e) pls w =
     (pls, w\<lparr>wd_zone := zone_despawn e (wd_zone w), wd_npc_stats := del_row e (wd_npc_stats w)\<rparr>)"
| "handle_command env wasm zid (Cmd_Request_Move e to seq) pls w =
     (pls, w\<lparr>wd_zone := request_move e to seq (wd_zone w)\<rparr>)"
| "handle_command env wasm zid (Cmd_Plugin_Message t e body) pls w =
     with_first (\<lambda>pl. t \<in> set (pl_message_types pl))
       (owned_hook env wasm zid (On_Message zid t (show_entity (we_host env) e) body)) pls w"
| "handle_command env wasm zid (Cmd_Chat_Command command args e) pls w =
     with_first (\<lambda>pl. command \<in> set (pl_chat_commands pl))
       (owned_hook env wasm zid (On_Chat_Command zid command args (show_entity (we_host env) e))) pls w"
| "handle_command env wasm zid (Cmd_Player_Join e) pls w =
     fire_hook env wasm ''on-player-join-zone'' (On_Player_Join_Zone zid (show_entity (we_host env) e)) pls w"
| "handle_command env wasm zid (Cmd_Player_Leave e) pls w =
     fire_hook env wasm ''on-player-leave-zone'' (On_Player_Leave_Zone zid (show_entity (we_host env) e)) pls w"
| "handle_command env wasm zid (Cmd_Attack attacker target key) pls w =
     (if kind_of (wd_zone w) target = None then (pls, w)
      else fire_hook env wasm ''on-damage-calc''
        (On_Damage_Calc zid (show_entity (we_host env) attacker) (show_entity (we_host env) target) key 0) pls w)"
| "handle_command env wasm zid (Cmd_Use_Item e item) pls w =
     fire_hook env wasm ''on-item-use'' (On_Item_Use zid (show_entity (we_host env) e) item) pls w"
| "handle_command env wasm zid (Cmd_Interact_Npc npc actor) pls w =
     (if kind_of (wd_zone w) npc \<noteq> Some Npc then (pls, w)
      else fire_hook env wasm ''on-npc-interact''
        (On_Npc_Interact zid (show_entity (we_host env) npc) (show_entity (we_host env) actor)) pls w)"
| "handle_command env wasm zid (Cmd_Item_Dropped e item n) pls w =
     fire_hook env wasm ''on-item-drop'' (On_Item_Drop zid (show_entity (we_host env) e) item n) pls w"

text \<open>The plugin part of a tick, for one plugin: its NPC hooks, its tick hook, one drain.\<close>

definition plugin_tick ::
  "world_env \<Rightarrow> 'g wasm \<Rightarrow> string \<Rightarrow> F64.f64 \<Rightarrow> (entity_id \<times> point3 \<times> route) list \<Rightarrow> 'g plugin \<times> world \<Rightarrow> 'g plugin \<times> world" where
  "plugin_tick env wasm zid dt routes pw =
     (let wants_npc_tick = wants (fst pw) ''on-npc-tick''; wants_tick = wants (fst pw) ''on-tick'' in
      if \<not> wants_npc_tick \<and> \<not> wants_tick then pw
      else
        let pw1 = fold (\<lambda>(e, (x, y, z), route). hook_if wants_npc_tick env wasm
              (On_Npc_Tick zid (show_entity (we_host env) e) x y z (rt_waypoints route) (rt_is_loop route) (rt_speed route) dt))
              routes pw
        in drain_and_apply_plugin_effects env wasm (hook_if wants_tick env wasm (On_Tick zid dt) pw1))"

fun plugin_ticks ::
  "world_env \<Rightarrow> 'g wasm \<Rightarrow> string \<Rightarrow> F64.f64 \<Rightarrow> (entity_id \<times> point3 \<times> route) list \<Rightarrow> 'g plugin list \<Rightarrow> world
   \<Rightarrow> 'g plugin list \<times> world" where
  "plugin_ticks env wasm zid dt routes [] w = ([], w)"
| "plugin_ticks env wasm zid dt routes (pl # pls) w =
     (case plugin_tick env wasm zid dt routes (pl, w) of
        (pl', w1) \<Rightarrow> (case plugin_ticks env wasm zid dt routes pls w1 of (pls', w2) \<Rightarrow> (pl' # pls', w2)))"

text \<open>A tick of the actor: the zone's own, with the outcomes it hands to the broadcasts, then the plugins.
  \<open>None\<close> is the panic of an impossible tick interval.\<close>

definition actor_tick ::
  "world_env \<Rightarrow> 'g wasm \<Rightarrow> string \<Rightarrow> F64.f64 \<Rightarrow> 'g plugin list \<Rightarrow> world \<Rightarrow> (outcomes \<times> 'g plugin list \<times> world) option" where
  "actor_tick env wasm zid dt pls w = map_option (\<lambda>(z, out).
     (out, plugin_ticks env wasm zid dt (npcs_with_routes z) pls (w\<lparr>wd_zone := z\<rparr>))) (zone_tick (wd_zone w))"

text \<open>The zone's start in \<^verbatim>\<open>main\<close>.\<close>

fun zone_loaded ::
  "world_env \<Rightarrow> 'g wasm \<Rightarrow> string \<Rightarrow> 'g plugin list \<Rightarrow> world \<Rightarrow> 'g plugin list \<times> world" where
  "zone_loaded env wasm zid [] w = ([], w)"
| "zone_loaded env wasm zid (pl # pls) w =
     (case (if wants pl ''on-zone-loaded''
            then spawn_requested_npcs env wasm zid (hook env wasm (On_Zone_Loaded zid) (pl, w)) else (pl, w)) of
        (pl', w1) \<Rightarrow> (case zone_loaded env wasm zid pls w1 of (pls', w2) \<Rightarrow> (pl' # pls', w2)))"

definition hydrate_zone_state :: "string \<Rightarrow> world \<Rightarrow> world" where
  "hydrate_zone_state zid w = w\<lparr>wd_shared := (wd_shared w)\<lparr>sh_state_cache :=
     fold (\<lambda>(key, val). put_row (cache_key (Scope_Zone zid) key) val) (zone_state zid (wd_zone_state w))
       (sh_state_cache (wd_shared w))\<rparr>\<rparr>"

section \<open>Hooks without a zone\<close>

definition apply_character_stat :: "world_env \<Rightarrow> string \<times> string \<times> i64 \<Rightarrow> world \<Rightarrow> world" where
  "apply_character_stat env req w = (case req of (target, key, delta) \<Rightarrow>
     (case parse_character (we_host env) target of
        None \<Rightarrow> w
      | Some c \<Rightarrow> snd (store_and_push (apply_stat_delta (we_store env) c key delta)
                          (map_of (wd_character_entities w) c) (S_StatChanged key) w)))"

definition drain_character_stats :: "world_env \<Rightarrow> 'g plugin \<times> world \<Rightarrow> 'g plugin \<times> world" where
  "drain_character_stats env = (\<lambda>(pl, w).
     (set_queues (\<lambda>p. p\<lparr>pq_character_stat_deltas := []\<rparr>) pl,
      fold (apply_character_stat env) (pq_character_stat_deltas (pl_pending pl)) w))"

fun fire_character_hook ::
  "world_env \<Rightarrow> 'g wasm \<Rightarrow> ('g plugin \<Rightarrow> bool) \<Rightarrow> hook_call \<Rightarrow> 'g plugin list \<Rightarrow> world \<Rightarrow> 'g plugin list \<times> world" where
  "fire_character_hook env wasm P h [] w = ([], w)"
| "fire_character_hook env wasm P h (pl # pls) w =
     (case (if P pl then drain_character_stats env (hook env wasm h (pl, w)) else (pl, w)) of
        (pl', w1) \<Rightarrow> (case fire_character_hook env wasm P h pls w1 of (pls', w2) \<Rightarrow> (pl' # pls', w2)))"

definition fire_on_character_create ::
  "world_env \<Rightarrow> 'g wasm \<Rightarrow> character_id \<Rightarrow> string \<Rightarrow> 'g plugin list \<Rightarrow> world \<Rightarrow> 'g plugin list \<times> world" where
  "fire_on_character_create env wasm c zid =
     fire_character_hook env wasm (\<lambda>pl. wants pl ''on-character-create'')
       (On_Character_Create (show_character (we_host env) c) zid)"

definition fire_on_craft_complete ::
  "world_env \<Rightarrow> 'g wasm \<Rightarrow> character_id \<Rightarrow> string \<Rightarrow> 'g plugin list \<Rightarrow> world \<Rightarrow> 'g plugin list \<times> world" where
  "fire_on_craft_complete env wasm c recipe =
     fire_character_hook env wasm (\<lambda>pl. \<not> (\<not> wants pl ''on-craft-complete'' \<or> \<not> has_capability pl ''economy''))
       (On_Craft_Complete (show_character (we_host env) c) recipe)"

end
