(* ===== verification/PluginSafety.thy ===== *)
theory PluginSafety
  imports WorldActor ZoneMotion Samples
begin

text \<open>
  What a plugin cannot do. The capabilities of the loaded plugins bound what any sequence of hooks can
  change: of the database, the item catalog, the connections and the zones. The bound is carried
  through the gate, the queues and their application, whatever the compiled plugins do.
\<close>

section \<open>What stays\<close>

definition plugin_messages :: "(entity_id \<times> server_message) list \<Rightarrow> (entity_id \<times> server_message) list" where
  "plugin_messages sent = filter (\<lambda>(e, m). case m of S_PluginMessage _ \<Rightarrow> True | _ \<Rightarrow> False) sent"

definition but_stats :: "(character_id, character_row) table \<Rightarrow> (character_id, character_row) table" where
  "but_stats t = map (\<lambda>(c, r). (c, r\<lparr>ch_stats := []\<rparr>)) t"

text \<open>The database, for plugins that hold the capabilities \<open>C\<close> between them.\<close>

definition db_kept :: "string set \<Rightarrow> db \<Rightarrow> db \<Rightarrow> bool" where
  "db_kept C db0 db \<longleftrightarrow>
     accounts db = accounts db0 \<and> realms db = realms db0 \<and> realm_zones db = realm_zones db0
   \<and> equipped db = equipped db0 \<and> character_sessions db = character_sessions db0
   \<and> bound_liveness db = bound_liveness db0 \<and> parties db = parties db0 \<and> party_members db = party_members db0
   \<and> guilds db = guilds db0 \<and> guild_members db = guild_members db0 \<and> transfer_gates db = transfer_gates db0
   \<and> transfer_log db = transfer_log db0 \<and> but_stats (characters db) = but_stats (characters db0)
   \<and> (''economy'' \<notin> C \<longrightarrow> items db = items db0 \<and> currency db = currency db0)
   \<and> (''combat'' \<notin> C \<longrightarrow> characters db = characters db0)
   \<and> (db_wf db0 \<longrightarrow> db_wf db)"

definition kept :: "string set \<Rightarrow> world \<Rightarrow> world \<Rightarrow> bool" where
  "kept C w0 w \<longleftrightarrow> db_kept C (wd_db w0) (wd_db w)
   \<and> wd_entity_characters w = wd_entity_characters w0 \<and> wd_character_entities w = wd_character_entities w0
   \<and> sh_entity_roles (wd_shared w) = sh_entity_roles (wd_shared w0)
   \<and> sh_sessions (wd_shared w) = sh_sessions (wd_shared w0)
   \<and> (''messaging'' \<notin> C \<longrightarrow> sh_blocked (wd_shared w) = sh_blocked (wd_shared w0)
        \<and> plugin_messages (sh_sent (wd_shared w)) = plugin_messages (sh_sent (wd_shared w0)))
   \<and> (''economy'' \<notin> C \<longrightarrow> wd_catalog w = wd_catalog w0
        \<and> sh_catalog_cache (wd_shared w) = sh_catalog_cache (wd_shared w0))"

definition zone_kept :: "string set \<Rightarrow> world \<Rightarrow> world \<Rightarrow> bool" where
  "zone_kept C w0 w \<longleftrightarrow> zn_manifest (wd_zone w) = zn_manifest (wd_zone w0)
   \<and> (''combat'' \<notin> C \<longrightarrow> wd_npc_stats w = wd_npc_stats w0)
   \<and> (''movement'' \<notin> C \<longrightarrow> zn_pending_moves (wd_zone w) = zn_pending_moves (wd_zone w0))
   \<and> (''admin'' \<notin> C \<longrightarrow> zn_pending_teleports (wd_zone w) = zn_pending_teleports (wd_zone w0))
   \<and> (''spawning'' \<notin> C \<longrightarrow> zn_entities (wd_zone w) = zn_entities (wd_zone w0)
        \<and> zn_index (wd_zone w) = zn_index (wd_zone w0))"

lemma db_kept_refl [simp]: "db_kept C db db"
  by (simp add: db_kept_def)

lemma kept_refl [simp]: "kept C w w" "zone_kept C w w"
  by (simp_all add: kept_def zone_kept_def)

lemma db_kept_trans: "db_kept C a b \<Longrightarrow> db_kept C b c \<Longrightarrow> db_kept C a c"
  by (simp add: db_kept_def)

lemma kept_trans: "kept C a b \<Longrightarrow> kept C b c \<Longrightarrow> kept C a c"
  unfolding kept_def by (simp add: db_kept_trans [of C "wd_db a" "wd_db b" "wd_db c"])

section \<open>The statements the effects run\<close>

text \<open>A statement changes what it may if it changes only one table and keeps the database well formed.\<close>

lemma db_kept_items:
  "db_kept C db0 db \<Longrightarrow> ''economy'' \<in> C \<Longrightarrow> (db_wf db \<Longrightarrow> db_wf (db\<lparr>items := t\<rparr>)) \<Longrightarrow> db_kept C db0 (db\<lparr>items := t\<rparr>)"
  by (simp add: db_kept_def)

lemma db_kept_currency:
  "db_kept C db0 db \<Longrightarrow> ''economy'' \<in> C \<Longrightarrow> (db_wf db \<Longrightarrow> db_wf (db\<lparr>currency := t\<rparr>)) \<Longrightarrow> db_kept C db0 (db\<lparr>currency := t\<rparr>)"
  by (simp add: db_kept_def)

text \<open>Tables other than the one a statement may write, and the invariant.\<close>

definition only_items :: "db \<Rightarrow> db \<Rightarrow> bool" where
  "only_items db0 db \<longleftrightarrow> (\<exists>t. db = db0\<lparr>items := t\<rparr>)"

definition only_currency :: "db \<Rightarrow> db \<Rightarrow> bool" where
  "only_currency db0 db \<longleftrightarrow> (\<exists>t. db = db0\<lparr>currency := t\<rparr>)"

definition only_stats :: "db \<Rightarrow> db \<Rightarrow> bool" where
  "only_stats db0 db \<longleftrightarrow> (\<exists>t. db = db0\<lparr>characters := t\<rparr> \<and> but_stats t = but_stats (characters db0))"

lemma only_refl [simp]: "only_items db db" "only_currency db db" "only_stats db db"
  by (auto simp: only_items_def only_currency_def only_stats_def intro: exI [of _ "items db"]
      exI [of _ "currency db"] exI [of _ "characters db"])

lemma only_items_update [simp]: "only_items db0 db \<Longrightarrow> only_items db0 (db\<lparr>items := t\<rparr>)"
  by (auto simp: only_items_def)

lemma only_currency_update [simp]: "only_currency db0 db \<Longrightarrow> only_currency db0 (db\<lparr>currency := t\<rparr>)"
  by (auto simp: only_currency_def)

lemma but_stats_upd_row [simp]: "but_stats (upd_row c (\<lambda>r. r\<lparr>ch_stats := f r\<rparr>) t) = but_stats t"
  by (auto simp: but_stats_def upd_row_def)

lemma only_stats_update:
  "only_stats db0 db \<Longrightarrow> only_stats db0 (db\<lparr>characters := upd_row c (\<lambda>r. r\<lparr>ch_stats := f r\<rparr>) (characters db)\<rparr>)"
  by (auto simp: only_stats_def)

lemma pres_only_items:
  "preserves (only_items db0) (grant_item st c t n)" "preserves (only_items db0) (remove_item c t n)"
proof -
  have u: "preserves (only_items db0) (upsert_item_add c t n)"
    by (auto simp: preserves_def upsert_item_add_def Let_def split: option.split)
  have s: "preserves (only_items db0) (set_remaining c t m)" for m
    by (auto simp: preserves_def set_remaining_def delete_item_def update_item_quantity_def split: option.split)
  show "preserves (only_items db0) (grant_item st c t n)"
    unfolding grant_item_def item_quantity_def select_quantity_def count_stacks_def Let_def
    by (intro pres_intros u)
  show "preserves (only_items db0) (remove_item c t n)"
    unfolding remove_item_def item_quantity_def select_quantity_def Let_def
    by (intro pres_intros s)
qed

lemma pres_only_currency: "preserves (only_currency db0) (modify_currency c k delta)"
proof -
  have "preserves (only_currency db0) (upsert_balance c k b)" for b
    by (auto simp: preserves_def upsert_balance_def insert_balance_def)
  then show ?thesis unfolding modify_currency_def currency_balance_def select_balance_def
    by (intro pres_intros)
qed

lemma pres_only_stats: "preserves (only_stats db0) (apply_stat_delta st c k delta)"
proof -
  have "preserves (only_stats db0) (write_stat c k v)" for v
    unfolding write_stat_def update_character_def
    by (intro pres_execute) (rule only_stats_update)
  then show ?thesis unfolding apply_stat_delta_def set_stat_def by (intro pres_intros)
qed

lemma db_kept_economy:
  assumes "db_kept C db0 db" "''economy'' \<in> C"
  shows "db_kept C db0 (snd (grant_item st c t n db))" "db_kept C db0 (snd (remove_item c t n db))"
    "db_kept C db0 (snd (modify_currency c k delta db))"
proof -
  have only: "only_items db (snd (grant_item st c t n db))" "only_items db (snd (remove_item c t n db))"
    "only_currency db (snd (modify_currency c k delta db))"
    by (rule preserves_sndD [OF pres_only_items(1)] preserves_sndD [OF pres_only_items(2)]
        preserves_sndD [OF pres_only_currency]; simp)+
  have wf: "db_wf db \<Longrightarrow> db_wf (snd (grant_item st c t n db))" "db_wf db \<Longrightarrow> db_wf (snd (remove_item c t n db))"
    "db_wf db \<Longrightarrow> db_wf (snd (modify_currency c k delta db))"
    by (rule preserves_sndD; (intro pres_intros)?; assumption)+
  show "db_kept C db0 (snd (grant_item st c t n db))"
    using only(1) wf(1) db_kept_items [OF assms] by (auto simp: only_items_def)
  show "db_kept C db0 (snd (remove_item c t n db))"
    using only(2) wf(2) db_kept_items [OF assms] by (auto simp: only_items_def)
  show "db_kept C db0 (snd (modify_currency c k delta db))"
    using only(3) wf(3) db_kept_currency [OF assms] by (auto simp: only_currency_def)
qed

lemma db_kept_combat:
  assumes "db_kept C db0 db" "''combat'' \<in> C"
  shows "db_kept C db0 (snd (apply_stat_delta st c k delta db))"
proof -
  have "only_stats db (snd (apply_stat_delta st c k delta db))"
    by (rule preserves_sndD [OF pres_only_stats]) simp
  moreover have "db_wf db \<Longrightarrow> db_wf (snd (apply_stat_delta st c k delta db))"
    by (rule preserves_sndD [OF pres_apply_stat_delta])
  ultimately show ?thesis using assms by (auto simp: only_stats_def db_kept_def)
qed

lemma db_kept_state:
  assumes "db_kept C db0 db"
  shows "db_kept C db0 (snd (set_character_state c key val db))"
proof -
  have "db_wf db \<Longrightarrow> db_wf (snd (set_character_state c key val db))"
    by (auto simp: set_character_state_def db_wf_def unique_keys_wf_def items_wf_def currency_wf_def
        character_refs_wf_def characters_wf_def realms_wf_def parties_wf_def guilds_wf_def)
  then show ?thesis using assms by (auto simp: set_character_state_def db_kept_def)
qed

section \<open>The effects of one plugin\<close>

lemma fold_invariant_on:
  assumes "\<And>x a. x \<in> set xs \<Longrightarrow> I a \<Longrightarrow> I (f x a)" "I a"
  shows "I (fold f xs a)"
  using assms by (induction xs arbitrary: a) auto

definition both_kept :: "string set \<Rightarrow> world \<Rightarrow> world \<Rightarrow> bool" where
  "both_kept C w0 w \<longleftrightarrow> kept C w0 w \<and> zone_kept C w0 w"

lemma plugin_messages_other:
  "(\<And>body. msg \<noteq> S_PluginMessage body) \<Longrightarrow> plugin_messages (sent @ [(e, msg)]) = plugin_messages sent"
  by (auto simp: plugin_messages_def split: server_message.splits)

lemma push_to_kept:
  "both_kept C w0 w \<Longrightarrow> (\<And>body. msg \<noteq> S_PluginMessage body) \<Longrightarrow> both_kept C w0 (push_to e msg w)"
  by (auto simp: push_to_def both_kept_def kept_def zone_kept_def plugin_messages_other
      split: option.split bool.split)

lemma set_db_kept:
  "both_kept C w0 w \<Longrightarrow> db_kept C (wd_db w0) db' \<Longrightarrow> both_kept C w0 (w\<lparr>wd_db := db'\<rparr>)"
  by (simp add: both_kept_def kept_def zone_kept_def)

lemma store_and_push_kept:
  assumes "both_kept C w0 w" "db_kept C (wd_db w0) (snd (act (wd_db w)))"
    and "\<And>v body. msg v \<noteq> S_PluginMessage body"
  shows "both_kept C w0 (snd (store_and_push act e msg w))"
  using assms set_db_kept [OF assms(1,2)] push_to_kept [of C w0 "w\<lparr>wd_db := snd (act (wd_db w))\<rparr>"]
  by (auto simp: store_and_push_def split: prod.split sum.split option.split)

lemma both_kept_db: "both_kept C w0 w \<Longrightarrow> db_kept C (wd_db w0) (wd_db w)"
  by (simp add: both_kept_def kept_def)

lemma apply_move_kept: "both_kept C w0 w \<Longrightarrow> ''movement'' \<in> C \<Longrightarrow> both_kept C w0 (apply_move env r w)"
  by (auto simp: apply_move_def both_kept_def kept_def zone_kept_def request_move_def split: option.split)

lemma apply_teleport_kept: "both_kept C w0 w \<Longrightarrow> ''admin'' \<in> C \<Longrightarrow> both_kept C w0 (apply_teleport env r w)"
  by (auto simp: apply_teleport_def both_kept_def kept_def zone_kept_def request_teleport_def split: option.split)

lemma apply_stat_kept:
  assumes "both_kept C w0 w" "''combat'' \<in> C"
  shows "both_kept C w0 (apply_stat env r w)"
proof -
  have npc: "both_kept C w0 (w\<lparr>wd_npc_stats := ns\<rparr>)" for ns
    using assms by (simp add: both_kept_def kept_def zone_kept_def)
  have "both_kept C w0 (snd (store_and_push (apply_stat_delta (we_store env) c key delta) e (S_StatChanged key) w))"
    for c key delta e
    by (intro store_and_push_kept db_kept_combat both_kept_db) (use assms in simp_all)
  then show ?thesis using assms(1) npc
    by (auto simp: apply_stat_def split: prod.split option.split entity_kind.split)
qed

lemma apply_item_grant_kept:
  assumes "both_kept C w0 (fst wa)" "''economy'' \<in> C"
  shows "both_kept C w0 (fst (apply_item_grant env r wa))"
proof -
  obtain w acquired where wa: "wa = (w, acquired)" by force
  have "both_kept C w0 (snd (store_and_push (grant_item (we_store env) c item n) e (S_ItemChanged item) w))"
    for c item n e
    by (intro store_and_push_kept db_kept_economy(1) both_kept_db) (use assms wa in simp_all)
  then have k: "store_and_push (grant_item (we_store env) c item n) e (S_ItemChanged item) w = (x, w') \<Longrightarrow> both_kept C w0 w'"
    for c item n e x w' by (metis snd_conv)
  show ?thesis using assms(1) by (auto simp: apply_item_grant_def wa dest: k split: prod.split option.split)
qed

lemma apply_removal_kept:
  assumes "both_kept C w0 w" "''economy'' \<in> C"
  shows "both_kept C w0 (apply_removal env r w)"
proof -
  have "both_kept C w0 (snd (store_and_push (remove_item c item n) e (S_ItemChanged item) w))" for c item n e
    by (intro store_and_push_kept db_kept_economy(2) both_kept_db) (use assms in simp_all)
  then show ?thesis using assms(1) by (auto simp: apply_removal_def split: prod.split option.split)
qed

lemma apply_currency_kept:
  assumes "both_kept C w0 w" "''economy'' \<in> C"
  shows "both_kept C w0 (apply_currency env r w)"
proof -
  have "both_kept C w0 (snd (store_and_push (modify_currency c key n) e (S_CurrencyChanged key) w))" for c key n e
    by (intro store_and_push_kept db_kept_economy(3) both_kept_db) (use assms in simp_all)
  then show ?thesis using assms(1) by (auto simp: apply_currency_def split: prod.split option.split)
qed

lemma apply_state_write_kept:
  assumes "both_kept C w0 w"
  shows "both_kept C w0 (apply_state_write env r w)"
proof -
  have z: "both_kept C w0 (w\<lparr>wd_zone_state := t\<rparr>)" for t
    using assms by (simp add: both_kept_def kept_def zone_kept_def)
  show ?thesis
    using assms z set_db_kept [OF assms db_kept_state [OF both_kept_db [OF assms]]]
    by (auto simp: apply_state_write_def split: prod.split option.split state_scope.split)
qed

lemma queue_granted: "(cap \<notin> set caps \<longrightarrow> xs = []) \<Longrightarrow> set caps \<subseteq> C \<Longrightarrow> x \<in> set xs \<Longrightarrow> cap \<in> C"
  by auto

lemma apply_effects_kept:
  assumes "both_kept C w0 w" "queues_within caps p" "set caps \<subseteq> C"
  shows "both_kept C w0 (fst (apply_plugin_pending_effects env p w))"
proof -
  have m: "''movement'' \<notin> set caps \<longrightarrow> pq_moves p = []" "''admin'' \<notin> set caps \<longrightarrow> pq_teleports p = []"
    "''combat'' \<notin> set caps \<longrightarrow> pq_stat_deltas p = []" "''economy'' \<notin> set caps \<longrightarrow> pq_item_grants p = []"
    "''economy'' \<notin> set caps \<longrightarrow> pq_item_removals p = []" "''economy'' \<notin> set caps \<longrightarrow> pq_currency_deltas p = []"
    using assms(2) by (simp_all add: queues_within_def)
  note q = m [THEN queue_granted, OF assms(3)]
  define w1 where "w1 = fold (apply_move env) (pq_moves p) w"
  define w2 where "w2 = fold (apply_teleport env) (pq_teleports p) w1"
  define w3 where "w3 = fold (apply_stat env) (pq_stat_deltas p) w2"
  define wa where "wa = fold (apply_item_grant env) (pq_item_grants p) (w3, [])"
  define w5 where "w5 = fold (apply_removal env) (pq_item_removals p) (fst wa)"
  define w6 where "w6 = fold (apply_currency env) (pq_currency_deltas p) w5"
  have "both_kept C w0 w1" unfolding w1_def
    using assms(1) by (intro fold_invariant_on [where I = "both_kept C w0"]) (simp_all only: apply_move_kept q(1))
  then have "both_kept C w0 w2" unfolding w2_def
    by (intro fold_invariant_on [where I = "both_kept C w0"]) (simp_all only: apply_teleport_kept q(2))
  then have "both_kept C w0 w3" unfolding w3_def
    by (intro fold_invariant_on [where I = "both_kept C w0"]) (simp_all only: apply_stat_kept q(3))
  then have "both_kept C w0 (fst wa)" unfolding wa_def
    by (intro fold_invariant_on [where I = "\<lambda>x. both_kept C w0 (fst x)"]) (simp_all only: apply_item_grant_kept q(4) fst_conv)
  then have "both_kept C w0 w5" unfolding w5_def
    by (intro fold_invariant_on [where I = "both_kept C w0"]) (simp_all only: apply_removal_kept q(5))
  then have "both_kept C w0 w6" unfolding w6_def
    by (intro fold_invariant_on [where I = "both_kept C w0"]) (simp_all only: apply_currency_kept q(6))
  then have "both_kept C w0 (fold (apply_state_write env) (pq_state_writes p) w6)"
    by (intro fold_invariant_on [where I = "both_kept C w0"]) (auto intro: apply_state_write_kept)
  then show ?thesis
    by (simp add: apply_plugin_pending_effects_def Let_def w6_def w5_def wa_def w3_def w2_def w1_def
        case_prod_beta)
qed

section \<open>Hooks and what follows them\<close>

text \<open>A plugin between calls: its capabilities are among \<open>C\<close> and its queues within its capabilities.\<close>

definition tame :: "string set \<Rightarrow> 'g plugin \<Rightarrow> bool" where
  "tame C pl \<longleftrightarrow> set (pl_capabilities pl) \<subseteq> C \<and> queues_within (pl_capabilities pl) (pl_pending pl)"

definition safe :: "string set \<Rightarrow> world \<Rightarrow> 'g plugin \<times> world \<Rightarrow> bool" where
  "safe C w0 pw \<longleftrightarrow> tame C (fst pw) \<and> both_kept C w0 (snd pw)"

lemma hook_safe:
  assumes "safe C w0 pw"
  shows "safe C w0 (hook env wasm h pw)"
proof -
  obtain pl w where pw: "pw = (pl, w)" by force
  obtain r pl' s' where c: "call_hook (we_host env) wasm h pl (wd_shared w) = (r, pl', s')"
    by (cases "call_hook (we_host env) wasm h pl (wd_shared w)") auto
  have "queues_within (pl_capabilities pl) (pl_pending pl')" "shared_within (pl_capabilities pl) (wd_shared w) s'"
    using call_hook_within [OF c] assms by (simp_all add: safe_def tame_def pw)
  moreover have "''messaging'' \<notin> C \<Longrightarrow> ''messaging'' \<notin> set (pl_capabilities pl)"
    "''economy'' \<notin> C \<Longrightarrow> ''economy'' \<notin> set (pl_capabilities pl)"
    using assms by (auto simp: safe_def tame_def pw)
  ultimately show ?thesis using assms call_hook_fields(3) [OF c]
    by (auto simp: hook_def pw c safe_def tame_def both_kept_def kept_def zone_kept_def shared_within_def)
qed

lemma hook_if_safe: "safe C w0 pw \<Longrightarrow> safe C w0 (hook_if c env wasm h pw)"
  by (simp add: hook_if_def hook_safe)

lemma set_queues_safe:
  "safe C w0 (pl, w) \<Longrightarrow> (\<And>caps p. queues_within caps p \<Longrightarrow> queues_within caps (f p)) \<Longrightarrow> safe C w0 (set_queues f pl, w)"
  by (simp add: safe_def tame_def set_queues_def)

lemma confirm_acquired_safe: "safe C w0 pw \<Longrightarrow> safe C w0 (confirm_acquired env wasm acq pw)"
  unfolding confirm_acquired_def by (rule fold_invariant_on [where I = "safe C w0"]) (auto simp: hook_if_safe)

lemma confirm_deaths_safe: "safe C w0 pw \<Longrightarrow> safe C w0 (confirm_deaths env wasm pw)"
  unfolding confirm_deaths_def
  by (cases pw, simp, rule fold_invariant_on [where I = "safe C w0"])
    (auto simp: hook_if_safe queues_within_def intro!: set_queues_safe)

lemma confirm_respawns_safe: "safe C w0 pw \<Longrightarrow> safe C w0 (confirm_respawns env wasm pw)"
  unfolding confirm_respawns_def
  by (cases pw, simp, rule fold_invariant_on [where I = "safe C w0"])
    (auto simp: hook_if_safe queues_within_def intro!: set_queues_safe)

lemma persist_kept: "both_kept C w0 w \<Longrightarrow> ''economy'' \<in> C \<Longrightarrow> both_kept C w0 (persist_registration ie w)"
  by (simp add: persist_registration_def both_kept_def kept_def zone_kept_def)

lemma persist_registrations_safe: "safe C w0 pw \<Longrightarrow> safe C w0 (persist_pending_registrations pw)"
proof -
  assume a: "safe C w0 pw"
  obtain pl w where pw: "pw = (pl, w)" by force
  have e: "ie \<in> set (pq_item_registrations (pl_pending pl)) \<Longrightarrow> ''economy'' \<in> C" for ie
    using a unfolding pw safe_def tame_def queues_within_def by (metis empty_iff empty_set fst_conv subsetD)
  then have "both_kept C w0 (fold persist_registration (pq_item_registrations (pl_pending pl)) w)"
    using a by (intro fold_invariant_on [where I = "both_kept C w0"]) (simp_all add: pw safe_def persist_kept e)
  then show ?thesis using a
    by (simp add: persist_pending_registrations_def pw safe_def tame_def set_queues_def queues_within_def)
qed

lemma drain_safe:
  assumes "safe C w0 pw"
  shows "safe C w0 (drain_and_apply_plugin_effects env wasm pw)"
proof -
  obtain pl w where pw: "pw = (pl, w)" by force
  obtain w1 acq where e: "apply_plugin_pending_effects env (pl_pending pl) w = (w1, acq)" by force
  have "both_kept C w0 w1"
    using apply_effects_kept [of C w0 w "pl_capabilities pl" "pl_pending pl" env] assms
    by (simp add: e pw safe_def tame_def)
  then have "safe C w0 (set_queues drain_effects pl, w1)"
    using assms by (simp add: pw safe_def tame_def set_queues_def queues_within_def drain_effects_def)
  then show ?thesis
    by (simp add: drain_and_apply_plugin_effects_def pw e persist_registrations_safe confirm_respawns_safe
        confirm_deaths_safe confirm_acquired_safe)
qed

lemma spawn_npc_from_table_kept:
  assumes "both_kept C w0 w" "''spawning'' \<in> C"
  shows "both_kept C w0 (snd (spawn_npc_from_table env table_id w))"
  using assms by (auto simp: spawn_npc_from_table_def both_kept_def kept_def zone_kept_def record_entity_type_def
      spawn_npc_with_route_def zone_spawn_def Let_def split: option.split list.split)

lemma spawn_one_safe:
  assumes "safe C w0 pw" "''spawning'' \<in> C"
  shows "safe C w0 (spawn_one env wasm wanted zid table_id pw)"
proof -
  obtain pl w where pw: "pw = (pl, w)" by force
  obtain x w' where sp: "spawn_npc_from_table env table_id w = (x, w')" by force
  have "both_kept C w0 w'"
    using spawn_npc_from_table_kept [OF _ assms(2), of w0 w env table_id] assms(1) by (simp add: sp pw safe_def)
  then have "safe C w0 (pl, w')" using assms(1) by (simp add: pw safe_def)
  then show ?thesis by (auto simp: spawn_one_def pw sp hook_if_safe split: option.split)
qed

lemma spawn_requested_npcs_safe:
  assumes "safe C w0 pw"
  shows "safe C w0 (spawn_requested_npcs env wasm zid pw)"
proof -
  obtain pl w where pw: "pw = (pl, w)" by force
  have e: "''spawning'' \<in> C" if "t \<in> set (pq_spawns (pl_pending pl))" for t
    using assms that unfolding pw safe_def tame_def queues_within_def by (metis empty_iff empty_set fst_conv subsetD)
  have "safe C w0 (set_queues (\<lambda>p. p\<lparr>pq_spawns := []\<rparr>) pl, w)"
    using assms unfolding pw by (rule set_queues_safe) (simp add: queues_within_def)
  then show ?thesis unfolding spawn_requested_npcs_def pw
    by (simp, intro fold_invariant_on [where I = "safe C w0"]) (simp_all add: spawn_one_safe e)
qed

lemma drain_character_stats_safe:
  assumes "safe C w0 pw"
  shows "safe C w0 (drain_character_stats env pw)"
proof -
  obtain pl w where pw: "pw = (pl, w)" by force
  have e: "''combat'' \<in> C" if "x \<in> set (pq_character_stat_deltas (pl_pending pl))" for x
    using assms that unfolding pw safe_def tame_def queues_within_def by (metis empty_iff empty_set fst_conv subsetD)
  have step: "both_kept C w0 (apply_character_stat env x v)" if "both_kept C w0 v" "''combat'' \<in> C" for x v
  proof -
    have "both_kept C w0 (snd (store_and_push (apply_stat_delta (we_store env) c key delta) i (S_StatChanged key) v))"
      for c key delta i
      by (intro store_and_push_kept db_kept_combat both_kept_db) (use that in simp_all)
    then show ?thesis using that(1) by (auto simp: apply_character_stat_def split: prod.split option.split)
  qed
  have "both_kept C w0 (fold (apply_character_stat env) (pq_character_stat_deltas (pl_pending pl)) w)"
    using assms by (intro fold_invariant_on [where I = "both_kept C w0"]) (simp_all add: pw safe_def step e)
  then show ?thesis using assms
    by (simp add: drain_character_stats_def pw safe_def tame_def set_queues_def queues_within_def)
qed

section \<open>All plugins\<close>

definition safe_all :: "string set \<Rightarrow> world \<Rightarrow> 'g plugin list \<times> world \<Rightarrow> bool" where
  "safe_all C w0 pw \<longleftrightarrow> list_all (tame C) (fst pw) \<and> both_kept C w0 (snd pw)"

lemma fire_hook_safe: "safe_all C w0 (pls, w) \<Longrightarrow> safe_all C w0 (fire_hook env wasm name h pls w)"
proof (induction pls arbitrary: w)
  case (Cons pl pls)
  obtain pl' w1 where one: "(if wants pl name then drain_and_apply_plugin_effects env wasm (hook env wasm h (pl, w)) else (pl, w))
      = (pl', w1)" by force
  have "safe C w0 (pl, w)" using Cons.prems by (simp add: safe_all_def safe_def)
  then have "safe C w0 (pl', w1)"
    using drain_safe [OF hook_safe, of C w0 "(pl, w)" env wasm env wasm h] by (simp add: one [symmetric])
  then show ?case using Cons.IH [of w1] Cons.prems one
    by (simp add: safe_all_def safe_def case_prod_beta)
qed simp

lemma with_first_safe:
  "safe_all C w0 (pls, w) \<Longrightarrow> (\<And>pw. safe C w0 pw \<Longrightarrow> safe C w0 (f pw)) \<Longrightarrow> safe_all C w0 (with_first P f pls w)"
proof (induction pls arbitrary: w)
  case (Cons pl pls)
  have "safe C w0 (f (pl, w))" if "P pl" using Cons.prems by (simp add: safe_all_def safe_def)
  then show ?case using Cons.IH [of w] Cons.prems
    by (simp add: safe_all_def safe_def case_prod_beta)
qed simp

lemma owned_hook_safe: "safe C w0 pw \<Longrightarrow> safe C w0 (owned_hook env wasm zid h pw)"
  by (simp add: owned_hook_def drain_safe spawn_requested_npcs_safe hook_safe)

lemma fire_character_hook_safe:
  "safe_all C w0 (pls, w) \<Longrightarrow> safe_all C w0 (fire_character_hook env wasm P h pls w)"
proof (induction pls arbitrary: w)
  case (Cons pl pls)
  obtain pl' w1 where one: "(if P pl then drain_character_stats env (hook env wasm h (pl, w)) else (pl, w)) = (pl', w1)"
    by force
  have "safe C w0 (pl, w)" using Cons.prems by (simp add: safe_all_def safe_def)
  then have "safe C w0 (pl', w1)"
    using drain_character_stats_safe [OF hook_safe, of C w0 "(pl, w)" env env wasm h] by (simp add: one [symmetric])
  then show ?case using Cons.IH [of w1] Cons.prems one
    by (simp add: safe_all_def safe_def case_prod_beta)
qed simp

lemma plugin_tick_safe: "safe C w0 pw \<Longrightarrow> safe C w0 (plugin_tick env wasm zid dt routes pw)"
proof -
  assume a: "safe C w0 pw"
  have "safe C w0 (fold (\<lambda>(e, (x, y, z), route). hook_if c env wasm
          (On_Npc_Tick zid (show_entity (we_host env) e) x y z (rt_waypoints route) (rt_is_loop route) (rt_speed route) dt))
          routes pw)" for c
    using a by (intro fold_invariant_on [where I = "safe C w0"]) (auto simp: hook_if_safe)
  then show ?thesis using a by (simp add: plugin_tick_def Let_def drain_safe hook_if_safe)
qed

lemma plugin_ticks_safe: "safe_all C w0 (pls, w) \<Longrightarrow> safe_all C w0 (plugin_ticks env wasm zid dt routes pls w)"
proof (induction pls arbitrary: w)
  case (Cons pl pls)
  obtain pl' w1 where one: "plugin_tick env wasm zid dt routes (pl, w) = (pl', w1)" by force
  have "safe C w0 (pl, w)" using Cons.prems by (simp add: safe_all_def safe_def)
  then have "safe C w0 (pl', w1)" using plugin_tick_safe [of C w0 "(pl, w)" env wasm zid dt routes] by (simp add: one)
  then show ?case using Cons.IH [of w1] Cons.prems one
    by (simp add: safe_all_def safe_def case_prod_beta)
qed simp

section \<open>Any sequence of hooks, over all zones\<close>

text \<open>
  The plugins are shared by the actors of all zones behind one mutex, held from a hook call until its
  effects are applied: the process is a sequence of whole steps of the actors and of the two hooks the
  connections fire. A zone whose tick panics stays as it was.
\<close>

datatype server_event =
    Zone_Command string world_command
  | Zone_Tick string F64.f64
  | Character_Created character_id string
  | Item_Crafted character_id string

type_synonym 'g server = "'g plugin list \<times> (string, zone) table \<times> world"

definition in_zone :: "string \<Rightarrow> ('g plugin list \<Rightarrow> world \<Rightarrow> 'g plugin list \<times> world) \<Rightarrow> 'g server \<Rightarrow> 'g server" where
  "in_zone zid f = (\<lambda>(pls, zones, w). case map_of zones zid of
     None \<Rightarrow> (pls, zones, w)
   | Some z \<Rightarrow> (case f pls (w\<lparr>wd_zone := z\<rparr>) of (pls', w') \<Rightarrow> (pls', put_row zid (wd_zone w') zones, w')))"

definition tick_or_stay ::
  "world_env \<Rightarrow> 'g wasm \<Rightarrow> string \<Rightarrow> F64.f64 \<Rightarrow> 'g plugin list \<Rightarrow> world \<Rightarrow> 'g plugin list \<times> world" where
  "tick_or_stay env wasm zid dt pls w = (case actor_tick env wasm zid dt pls w of
     None \<Rightarrow> (pls, w) | Some (_, pls', w') \<Rightarrow> (pls', w'))"

fun server_step :: "world_env \<Rightarrow> 'g wasm \<Rightarrow> server_event \<Rightarrow> 'g server \<Rightarrow> 'g server" where
  "server_step env wasm (Zone_Command zid cmd) sv = in_zone zid (handle_command env wasm zid cmd) sv"
| "server_step env wasm (Zone_Tick zid dt) sv = in_zone zid (tick_or_stay env wasm zid dt) sv"
| "server_step env wasm (Character_Created c zid) (pls, zones, w) =
     (case fire_on_character_create env wasm c zid pls w of (pls', w') \<Rightarrow> (pls', zones, w'))"
| "server_step env wasm (Item_Crafted c recipe) (pls, zones, w) =
     (case fire_on_craft_complete env wasm c recipe pls w of (pls', w') \<Rightarrow> (pls', zones, w'))"

definition server_run :: "world_env \<Rightarrow> 'g wasm \<Rightarrow> server_event list \<Rightarrow> 'g server \<Rightarrow> 'g server" where
  "server_run env wasm evs sv = fold (server_step env wasm) evs sv"

definition no_teleports :: "zone \<Rightarrow> bool" where
  "no_teleports z \<longleftrightarrow> zn_pending_teleports z = []"

definition bounded :: "string set \<Rightarrow> world \<Rightarrow> 'g server \<Rightarrow> bool" where
  "bounded C w0 sv \<longleftrightarrow> (case sv of (pls, zones, w) \<Rightarrow> list_all (tame C) pls \<and> kept C w0 w
     \<and> (''admin'' \<notin> C \<longrightarrow> (\<forall>zid z. map_of zones zid = Some z \<longrightarrow> no_teleports z)))"

lemma safe_all_start: "list_all (tame C) pls \<Longrightarrow> safe_all C w (pls, w)"
  by (simp add: safe_all_def both_kept_def)

lemma zone_change_kept: "kept C w (w\<lparr>wd_zone := z\<rparr>)" "kept C w (w\<lparr>wd_zone := z, wd_npc_stats := ns\<rparr>)"
  by (simp_all add: kept_def)

lemma plugin_part:
  assumes "safe_all C w (pls', w')" "''admin'' \<notin> C \<longrightarrow> no_teleports (wd_zone w)"
  shows "list_all (tame C) pls' \<and> kept C w w' \<and> (''admin'' \<notin> C \<longrightarrow> no_teleports (wd_zone w'))"
  using assms by (auto simp: safe_all_def both_kept_def zone_kept_def no_teleports_def)

lemma handle_command_bounded:
  assumes "list_all (tame C) pls" "handle_command env wasm zid cmd pls w = (pls', w')"
    and "''admin'' \<notin> C \<longrightarrow> no_teleports (wd_zone w)"
  shows "list_all (tame C) pls' \<and> kept C w w' \<and> (''admin'' \<notin> C \<longrightarrow> no_teleports (wd_zone w'))"
proof -
  note start = safe_all_start [OF assms(1), of w]
  have plugin: "safe_all C w (handle_command env wasm zid cmd pls w) \<Longrightarrow> ?thesis"
    using plugin_part [of C w pls' w'] assms(2,3) by simp
  show ?thesis
  proof (cases cmd)
    case (Cmd_Spawn e kind p)
    then show ?thesis using assms by (auto simp: zone_change_kept no_teleports_def zone_spawn_def)
  next
    case (Cmd_Despawn e)
    then show ?thesis using assms by (auto simp: zone_change_kept no_teleports_def zone_despawn_def)
  next
    case (Cmd_Request_Move e to seq)
    then show ?thesis using assms by (auto simp: zone_change_kept no_teleports_def request_move_def)
  qed (rule plugin, simp add: start fire_hook_safe with_first_safe owned_hook_safe)+
qed

lemma zone_tick_no_teleports: "zone_tick z = Some (z', out) \<Longrightarrow> no_teleports z'"
  by (erule zone_tick_split) (drule teleports.run_setting, simp add: same_setting_def no_teleports_def drain_teleports_def)

lemma tick_bounded:
  assumes "list_all (tame C) pls" "tick_or_stay env wasm zid dt pls w = (pls', w')"
    and "''admin'' \<notin> C \<longrightarrow> no_teleports (wd_zone w)"
  shows "list_all (tame C) pls' \<and> kept C w w' \<and> (''admin'' \<notin> C \<longrightarrow> no_teleports (wd_zone w'))"
proof (cases "zone_tick (wd_zone w)")
  case None
  then show ?thesis using assms by (simp add: tick_or_stay_def actor_tick_def)
next
  case (Some zo)
  obtain z out where zo: "zo = (z, out)" by force
  have "plugin_ticks env wasm zid dt (npcs_with_routes z) pls (w\<lparr>wd_zone := z\<rparr>) = (pls', w')"
    using assms(2) by (simp add: tick_or_stay_def actor_tick_def Some zo split: prod.splits)
  then have "safe_all C (w\<lparr>wd_zone := z\<rparr>) (pls', w')"
    using plugin_ticks_safe [OF safe_all_start [OF assms(1)]] by metis
  then show ?thesis
    using plugin_part [of C "w\<lparr>wd_zone := z\<rparr>" pls' w'] zone_tick_no_teleports Some zo
      kept_trans [OF zone_change_kept(1)] by auto
qed

lemma in_zone_bounded:
  assumes "bounded C w0 (pls, zones, w)"
    and f: "\<And>pls w pls' w'. list_all (tame C) pls \<Longrightarrow> f pls w = (pls', w') \<Longrightarrow>
      ''admin'' \<notin> C \<longrightarrow> no_teleports (wd_zone w) \<Longrightarrow>
      list_all (tame C) pls' \<and> kept C w w' \<and> (''admin'' \<notin> C \<longrightarrow> no_teleports (wd_zone w'))"
  shows "bounded C w0 (in_zone zid f (pls, zones, w))"
proof (cases "map_of zones zid")
  case None
  then show ?thesis using assms(1) by (simp add: in_zone_def)
next
  case (Some z)
  obtain pls' w' where one: "f pls (w\<lparr>wd_zone := z\<rparr>) = (pls', w')" by force
  have "list_all (tame C) pls" "''admin'' \<notin> C \<longrightarrow> no_teleports (wd_zone (w\<lparr>wd_zone := z\<rparr>))"
    using assms(1) Some by (auto simp: bounded_def)
  from f [OF this(1) one this(2)]
  have "list_all (tame C) pls'" "kept C (w\<lparr>wd_zone := z\<rparr>) w'" "''admin'' \<notin> C \<longrightarrow> no_teleports (wd_zone w')"
    by blast+
  moreover have "kept C w0 w'"
    using assms(1) kept_trans kept_trans [OF zone_change_kept(1) \<open>kept C (w\<lparr>wd_zone := z\<rparr>) w'\<close>]
    unfolding bounded_def by auto
  ultimately show ?thesis using assms(1) by (simp add: bounded_def in_zone_def Some one)
qed

lemma server_step_bounded:
  assumes "bounded C w0 sv"
  shows "bounded C w0 (server_step env wasm ev sv)"
proof -
  obtain pls zones w where sv: "sv = (pls, zones, w)" by (metis prod.collapse)
  note b = assms [unfolded sv]
  have char: "bounded C w0 (case fire_character_hook env wasm P h pls w of (pls', w') \<Rightarrow> (pls', zones, w'))" for P h
    using b fire_character_hook_safe [OF safe_all_start [of C pls w], of env wasm P h] kept_trans [of C w0 w]
    by (auto simp: bounded_def safe_all_def both_kept_def split: prod.split)
  show ?thesis
  proof (cases ev)
    case (Zone_Command zid cmd)
    then show ?thesis using in_zone_bounded [OF b handle_command_bounded] by (simp add: sv)
  next
    case (Zone_Tick zid dt)
    then show ?thesis using in_zone_bounded [OF b tick_bounded] by (simp add: sv)
  qed (simp_all add: sv fire_on_character_create_def fire_on_craft_complete_def char)
qed

lemma server_run_bounded: "bounded C w0 sv \<Longrightarrow> bounded C w0 (server_run env wasm evs sv)"
  unfolding server_run_def by (rule fold_invariant_on [where I = "bounded C w0"]) (simp_all add: server_step_bounded)

text \<open>Plugins fresh from startup are tame.\<close>

lemma load_plugin_tame:
  assumes "load_plugin env wasm instantiate d path s = (Inr (pl, spawns, es), s')" "set (pd_capabilities d) \<subseteq> C"
  shows "tame C pl"
proof -
  obtain g pl0 pl1 where pl0: "pl0 = \<lparr>pl_name = pd_name d, pl_message_types = pd_message_types d, pl_chat_commands = pd_chat_commands d,
    pl_hooks = pd_hooks d, pl_capabilities = pd_capabilities d, pl_instance = g, pl_pending = no_pending\<rparr>"
    and run: "(if wants pl0 ''on-load'' then call_hook env wasm On_Load pl0 s else (True, pl0, s)) = (True, pl1, s')"
    and pl: "pl = pl1\<lparr>pl_pending := (pl_pending pl1)\<lparr>pq_spawns := [], pq_item_registrations := []\<rparr>\<rparr>"
    using load_plugin_cases [OF assms(1)] by metis
  have "pl_capabilities pl1 = pd_capabilities d \<and> queues_within (pd_capabilities d) (pl_pending pl1)"
    using run call_hook_fields(3) [of env wasm On_Load pl0 s True pl1 s'] call_hook_within(1) [of env wasm On_Load pl0 s True pl1 s']
    by (auto simp: pl0 split: if_splits)
  then show ?thesis using assms(2) by (simp add: pl tame_def queues_within_def)
qed

lemma start_plugins_tame:
  "start_plugins env wasm instantiate ds s cat = Inr (pls, s', cat') \<Longrightarrow>
     \<forall>d \<in> fst ` set ds. set (pd_capabilities d) \<subseteq> C \<Longrightarrow> list_all (tame C) pls"
proof (induction ds arbitrary: s cat pls)
  case (Cons dp ds)
  obtain d path where dp: "dp = (d, path)" by force
  obtain pl spawns es s1 where l: "load_plugin env wasm instantiate d path s = (Inr (pl, spawns, es), s1)"
    using Cons.prems(1) by (cases "load_plugin env wasm instantiate d path s") (auto simp: dp split: sum.splits)
  then have "tame C pl" using load_plugin_tame Cons.prems(2) dp by fastforce
  then show ?case using Cons.prems Cons.IH by (auto simp: dp l)
qed simp


text \<open>A plugin that greets whoever joins and tries to pay them, with two capabilities only; it asks for a
  wolf at the same time, and registers an item on a command.\<close>

definition sample_host :: host_env where
  "sample_host = \<lparr>parse_entity = (\<lambda>t. if t = ''e1'' then Some (Id 1) else None), show_entity = (\<lambda>_. ''e1''),
     parse_character = (\<lambda>_. None), show_character = (\<lambda>_. ''c1''), parse_json = (\<lambda>_. Some (ContentPack.JObject [])),
     show_json = (\<lambda>_. ''{}'')\<rparr>"

definition sample_world_env :: world_env where
  "sample_world_env = \<lparr>we_host = sample_host, we_store = sample_store, we_npc_schema = st_schema sample_store,
     we_currency = sample_coins, we_new_entity = (\<lambda>n. Id (of_nat (100 + n)))\<rparr>"

definition sample_greeter :: plugin_declaration where
  "sample_greeter = \<lparr>pd_name = ''greeter'', pd_host_api_version = ''0.16.0'', pd_capabilities = [''messaging'', ''spawning''],
     pd_message_types = [], pd_chat_commands = [''roll''], pd_hooks = [''on-player-join-zone'']\<rparr>"

definition sample_wasm :: "unit wasm" where
  "sample_wasm g h = (case h of
     On_Player_Join_Zone zid who \<Rightarrow>
       Host (Grant_Item who ''gold'' 5) (\<lambda>_.
       Host (Spawn_Npc ''wolves'') (\<lambda>_.
       Host (Send_Message who ''welcome'') (\<lambda>_. Return ())))
   | _ \<Rightarrow> Return ())"

definition sample_sharing :: shared where
  "sample_sharing = \<lparr>sh_entity_roles = [(Id 1, [])], sh_sessions = [(Id 1, True)], sh_sent = [], sh_state_cache = [],
     sh_blocked = [], sh_catalog_cache = []\<rparr>"

definition sample_den :: spawn_table where
  "sample_den = \<lparr>st_id = ''wolves'', st_entity_type = ''wolf'', st_points = [(fnum 10, fnum 10)],
     st_max_population = 1, st_respawn_seconds = 60, st_route_id = None\<rparr>"

definition sample_forest :: zone where
  "sample_forest = empty_zone\<lparr>zn_manifest := (zn_manifest empty_zone)\<lparr>zm_spawn_tables := [sample_den]\<rparr>\<rparr>"

definition sample_world :: world where
  "sample_world = \<lparr>wd_zone = sample_forest, wd_npc_stats = [], wd_entity_characters = [(Id 1, Id 1)],
     wd_character_entities = [(Id 1, Id 1)], wd_shared = sample_sharing, wd_db = sample_db, wd_zone_state = [],
     wd_catalog = \<lparr>item_types = [], item_drop_sources = []\<rparr>, wd_ids_drawn = 0\<rparr>"

definition sample_plugins :: "unit plugin list" where
  "sample_plugins = [\<lparr>pl_name = ''greeter'', pl_message_types = [], pl_chat_commands = [''roll''],
     pl_hooks = [''on-player-join-zone''], pl_capabilities = [''messaging'', ''spawning''], pl_instance = (),
     pl_pending = no_pending\<rparr>]"

definition sample_zones :: "(string, zone) table" where
  "sample_zones = [(''forest'', sample_forest), (''city'', sample_forest)]"

definition sample_evening :: "unit server" where
  "sample_evening = server_run sample_world_env sample_wasm
     [Zone_Command ''forest'' (Cmd_Player_Join (Id 1)), Zone_Command ''city'' (Cmd_Chat_Command ''roll'' [] (Id 2))]
     (sample_plugins, sample_zones, sample_world)"

lemma sample_start:
  "start_plugins (we_host sample_world_env) sample_wasm (\<lambda>_. Some ()) [(sample_greeter, ''greeter.wasm'')] sample_sharing
     \<lparr>item_types = [], item_drop_sources = []\<rparr> = Inr (sample_plugins, wd_shared sample_world, wd_catalog sample_world)"
  by code_simp


text \<open>
  What a plugin asks to spawn in one zone may appear in another. A hook fired for a zone, as
  \<open>on-player-join-zone\<close>, does not drain the queue of spawn requests, and the plugin and its queue are
  shared by all zones: the wolf asked for in the forest waits, and is spawned in the city, the
  next zone where a message or command happens to reach the plugin.
\<close>

theorem spawn_requests_drift_between_zones:
  "case sample_evening of (pls, zones, w) \<Rightarrow>
     map_option zn_entities (map_of zones ''forest'') = Some []
   \<and> map_option zn_entities (map_of zones ''city'') = Some [(Id 100, Npc)]"
  by code_simp

end
