(* ===== verification/ZoneRegistry.thy ===== *)
theory ZoneRegistry
  imports ZoneMotion Connections
begin

text \<open>
  \<^verbatim>\<open>server/src/zone_registry.rs\<close>, the tick and transition handling of \<^verbatim>\<open>main.rs\<close> and the movement of
  connections between zones and layers in \<^verbatim>\<open>session.rs\<close>: which layer of a zone a connection is
  placed in, what happens when it crosses a link, when it follows its party, and when it ends.

  A layer is addressed by its zone and its index: layers are added and never removed. A connection
  has its own idea of where it is, which it changes when it reads a \<open>ZoneChanged\<close> off its queue; the
  tasks that complete a crossing run in between.
\<close>

section \<open>The registry\<close>

record layer =
  ly_zone :: zone
  ly_sessions :: "entity_id list"

record zone_registry =
  zr_runtimes :: "(string, layer list) table"
  zr_manifests :: "(string, zone_manifest) table"
  zr_layering_enabled :: bool
  zr_threshold :: nat

definition layer_population :: "layer \<Rightarrow> nat" where
  "layer_population l = length (ly_sessions l)"

definition holds :: "layer \<Rightarrow> entity_id \<Rightarrow> bool" where
  "holds l e \<longleftrightarrow> e \<in> set (ly_sessions l)"

definition registry_new ::
  "(string, layer) table \<Rightarrow> (string, zone_manifest) table \<Rightarrow> bool \<Rightarrow> nat \<Rightarrow> zone_registry" where
  "registry_new runtimes manifests enabled threshold =
     \<lparr>zr_runtimes = map (\<lambda>(zid, l). (zid, [l])) runtimes, zr_manifests = manifests,
      zr_layering_enabled = enabled, zr_threshold = threshold\<rparr>"

definition layers_of :: "zone_registry \<Rightarrow> string \<Rightarrow> layer list option" where
  "layers_of reg zid = map_of (zr_runtimes reg) zid"

definition layer_at :: "zone_registry \<Rightarrow> string \<times> nat \<Rightarrow> layer option" where
  "layer_at reg p = Option.bind (layers_of reg (fst p)) (\<lambda>ls. if snd p < length ls then Some (ls ! snd p) else None)"

definition registry_get :: "zone_registry \<Rightarrow> string \<Rightarrow> (string \<times> nat) option" where
  "registry_get reg zid = map_option (\<lambda>_. (zid, 0)) (layer_at reg (zid, 0))"

definition registry_contains :: "zone_registry \<Rightarrow> string \<Rightarrow> bool" where
  "registry_contains reg zid = has_row (zr_manifests reg) zid"

text \<open>\<^verbatim>\<open>enumerate().min_by_key(population)\<close>: the first of the least.\<close>

fun min_by_key :: "(nat \<times> nat) list \<Rightarrow> (nat \<times> nat) option" where
  "min_by_key [] = None"
| "min_by_key (x # xs) = (case min_by_key xs of
     None \<Rightarrow> Some x
   | Some y \<Rightarrow> if snd y < snd x then Some y else Some x)"

definition least_populated_under_threshold :: "nat list \<Rightarrow> nat \<Rightarrow> nat option" where
  "least_populated_under_threshold populations threshold = (case min_by_key (enumerate 0 populations) of
     None \<Rightarrow> None
   | Some (index, least) \<Rightarrow> if least < threshold then Some index else None)"

text \<open>The layer spawner of \<^verbatim>\<open>main\<close>: an empty zone over the same manifest and mesh.\<close>

record spawner =
  sp_config :: world_config
  sp_navmeshes :: "(string, navmesh) table"

definition layer_spawner :: "spawner \<Rightarrow> string \<Rightarrow> zone_manifest \<Rightarrow> layer option" where
  "layer_spawner sp zid manifest = Option.bind (map_of (sp_navmeshes sp) zid) (\<lambda>mesh.
     map_option (\<lambda>z. \<lparr>ly_zone = z, ly_sessions = []\<rparr>) (zone_new manifest (sp_config sp) mesh))"

definition push_layer :: "string \<Rightarrow> layer \<Rightarrow> zone_registry \<Rightarrow> zone_registry" where
  "push_layer zid l reg = reg\<lparr>zr_runtimes := upd_row zid (\<lambda>ls. ls @ [l]) (zr_runtimes reg)\<rparr>"

text \<open>\<open>None\<close> stands for a zone that is not known, and for the panic of a layer that cannot be made.\<close>

definition assign_layer :: "spawner \<Rightarrow> string \<Rightarrow> zone_registry \<Rightarrow> (string \<times> nat) option \<times> zone_registry" where
  "assign_layer sp zid reg =
     (if \<not> zr_layering_enabled reg then (registry_get reg zid, reg)
      else case layers_of reg zid of
        None \<Rightarrow> (None, reg)
      | Some layers \<Rightarrow>
          (case least_populated_under_threshold (map layer_population layers) (zr_threshold reg) of
             Some index \<Rightarrow> (Some (zid, index), reg)
           | None \<Rightarrow>
               (case Option.bind (map_of (zr_manifests reg) zid) (layer_spawner sp zid) of
                  None \<Rightarrow> (None, reg)
                | Some l \<Rightarrow> (Some (zid, length layers), push_layer zid l reg))))"

fun first_index :: "('a \<Rightarrow> bool) \<Rightarrow> 'a list \<Rightarrow> nat option" where
  "first_index P [] = None"
| "first_index P (x # xs) = (if P x then Some 0 else map_option Suc (first_index P xs))"

definition join_layer_of :: "zone_registry \<Rightarrow> string \<Rightarrow> entity_id \<Rightarrow> (string \<times> nat) option" where
  "join_layer_of reg zid other = Option.bind (layers_of reg zid) (\<lambda>layers.
     map_option (\<lambda>i. (zid, i)) (first_index (\<lambda>l. holds l other) layers))"

section \<open>Which zones a process runs\<close>

definition trim :: "string \<Rightarrow> string" where
  "trim s = rev (dropWhile is_whitespace (rev (dropWhile is_whitespace s)))"

fun split_commas :: "string \<Rightarrow> string list" where
  "split_commas [] = [[]]"
| "split_commas (c # cs) = (if c = CHR '','' then [] # split_commas cs
     else (case split_commas cs of [] \<Rightarrow> [[c]] | s # ss \<Rightarrow> (c # s) # ss))"

text \<open>\<^verbatim>\<open>WZ_ZONE_IDS\<close> of \<^verbatim>\<open>main\<close>: \<open>None\<close> as a result is the panic at start.\<close>

definition apply_zone_ids_filter :: "string option \<Rightarrow> zone_manifest list \<Rightarrow> zone_manifest list option" where
  "apply_zone_ids_filter raw manifests = (case raw of
     None \<Rightarrow> Some manifests
   | Some ids \<Rightarrow>
       (let wanted = filter (\<lambda>s. s \<noteq> []) (map trim (split_commas ids));
            available = map zm_id manifests
        in if wanted = [] \<or> \<not> set wanted \<subseteq> set available then None
           else Some (filter (\<lambda>m. zm_id m \<in> set wanted) manifests)))"

lemma filter_leaves_a_zone:
  assumes "apply_zone_ids_filter raw manifests = Some ms" "manifests \<noteq> []"
  shows "ms \<noteq> [] \<and> set ms \<subseteq> set manifests"
proof (cases raw)
  case None
  then show ?thesis using assms by (simp add: apply_zone_ids_filter_def)
next
  case (Some ids)
  define wanted where "wanted = filter (\<lambda>s. s \<noteq> []) (map trim (split_commas ids))"
  have w: "wanted \<noteq> []" "set wanted \<subseteq> zm_id ` set manifests" "ms = filter (\<lambda>m. zm_id m \<in> set wanted) manifests"
    using assms(1) unfolding apply_zone_ids_filter_def Some option.case Let_def wanted_def [symmetric]
    by (simp_all split: if_splits)
  obtain i where "i \<in> set wanted" using w(1) by (cases wanted) auto
  then obtain m where "m \<in> set manifests" "zm_id m \<in> set wanted" using w(2) by auto
  then show ?thesis unfolding w(3) by (auto simp: filter_empty_conv)
qed

section \<open>Where a crossing arrives\<close>

definition registry_centroid :: "point2 list \<Rightarrow> point2" where
  "registry_centroid points =
     (if points = [] then (f_zero, f_zero)
      else let (sum_x, sum_y) = fold (\<lambda>(x, y) (sx, sy). (f_add sx x, f_add sy y)) points (f_zero, f_zero);
               n = f64_of_int (int (length points))
           in (f_div sum_x n, f_div sum_y n))"

definition nudge_toward :: "point2 \<Rightarrow> point2 \<Rightarrow> F64.f64 \<Rightarrow> point2" where
  "nudge_toward point target meters =
     (let dx = f_sub (fst target) (fst point);
          dy = f_sub (snd target) (snd point);
          len = f_sqrt (f_add (f_mul dx dx) (f_mul dy dy))
      in if f_lt len (f64_lit 1 1000000) then point
         else (f_add (fst point) (f_mul (f_div dx len) meters), f_add (snd point) (f_mul (f_div dy len) meters)))"

definition entry_point :: "zone_registry \<Rightarrow> string \<Rightarrow> string \<Rightarrow> point2" where
  "entry_point reg from_zone target_zone = (case map_of (zr_manifests reg) target_zone of
     None \<Rightarrow> (f_zero, f_zero)
   | Some manifest \<Rightarrow>
       (let middle = registry_centroid (bd_points (zm_bounds manifest)) in
        case List.find (\<lambda>l. ln_target_zone l = from_zone) (zm_links manifest) of
          None \<Rightarrow> middle
        | Some link \<Rightarrow>
            (case ln_edge link of
               a # b # _ \<Rightarrow> nudge_toward (f_div (f_add (fst a) (fst b)) (f64_of_int 2), f_div (f_add (snd a) (snd b)) (f64_of_int 2))
                               middle (f64_of_int 2)
             | _ \<Rightarrow> middle)))"

section \<open>Connections moving through the layers\<close>

text \<open>
  \<open>lw_conns\<close> is each connection's own \<open>current_zone_id\<close> and \<open>zone\<close>; \<open>lw_joining\<close> the connections spawned
  but not yet registered in the layer's sessions; \<open>lw_inflight\<close> the tasks completing a crossing,
  \<open>lw_telling\<close> those that have placed the entity and have its \<open>ZoneChanged\<close> still to send;
  \<open>lw_told\<close> the \<open>ZoneChanged\<close> messages not yet read off the queues, oldest first.
\<close>

record layered =
  lw_registry :: zone_registry
  lw_conns :: "(entity_id, string \<times> nat) table"
  lw_joining :: "entity_id list"
  lw_inflight :: "(entity_id \<times> string \<times> string) list"
  lw_telling :: "(entity_id \<times> string) list"
  lw_told :: "(entity_id \<times> string) list"

definition upd_layer :: "string \<times> nat \<Rightarrow> (layer \<Rightarrow> layer) \<Rightarrow> zone_registry \<Rightarrow> zone_registry" where
  "upd_layer p f reg = reg\<lparr>zr_runtimes :=
     upd_row (fst p) (\<lambda>ls. if snd p < length ls then ls[snd p := f (ls ! snd p)] else ls) (zr_runtimes reg)\<rparr>"

definition in_layer :: "string \<times> nat \<Rightarrow> (layer \<Rightarrow> layer) \<Rightarrow> layered \<Rightarrow> layered" where
  "in_layer p f w = w\<lparr>lw_registry := upd_layer p f (lw_registry w)\<rparr>"

definition enter_sessions :: "entity_id \<Rightarrow> layer \<Rightarrow> layer" where
  "enter_sessions e l = l\<lparr>ly_sessions := List.insert e (ly_sessions l)\<rparr>"

definition leave_sessions :: "entity_id \<Rightarrow> layer \<Rightarrow> layer" where
  "leave_sessions e l = l\<lparr>ly_sessions := filter (\<lambda>e'. e' \<noteq> e) (ly_sessions l)\<rparr>"

text \<open>The zone a connection starts in, and the layer: that of an online party member, or the emptiest.\<close>

definition starting_zone :: "zone_registry \<Rightarrow> string \<Rightarrow> string \<Rightarrow> string" where
  "starting_zone reg persisted default_zone = (if registry_contains reg persisted then persisted else default_zone)"

definition starting_layer ::
  "spawner \<Rightarrow> string \<Rightarrow> entity_id list \<Rightarrow> zone_registry \<Rightarrow> (string \<times> nat) option \<times> zone_registry" where
  "starting_layer sp zid groupmates reg =
     (case List.map_filter (join_layer_of reg zid) groupmates of
        p # _ \<Rightarrow> (Some p, reg)
      | [] \<Rightarrow> assign_layer sp zid reg)"

text \<open>The first half of a join: the layer is chosen and the entity spawned; \<open>None\<close> is the panic.\<close>

definition start_join ::
  "spawner \<Rightarrow> string \<Rightarrow> entity_id list \<Rightarrow> point3 \<Rightarrow> entity_id \<Rightarrow> layered \<Rightarrow> layered option" where
  "start_join sp zid groupmates at_point e w =
     (case starting_layer sp zid groupmates (lw_registry w) of
        (None, _) \<Rightarrow> None
      | (Some p, reg) \<Rightarrow> Some (in_layer p (\<lambda>l. l\<lparr>ly_zone := zone_spawn e Player at_point (ly_zone l)\<rparr>)
          (w\<lparr>lw_registry := reg, lw_conns := put_row e p (lw_conns w), lw_joining := e # lw_joining w\<rparr>)))"

text \<open>The second: the connection becomes reachable in its layer.\<close>

definition finish_join :: "entity_id \<Rightarrow> layered \<Rightarrow> layered" where
  "finish_join e w = (case map_of (lw_conns w) e of
     None \<Rightarrow> w
   | Some p \<Rightarrow> (in_layer p (enter_sessions e) w)\<lparr>lw_joining := filter (\<lambda>e'. e' \<noteq> e) (lw_joining w)\<rparr>)"

text \<open>\<^verbatim>\<open>handle_tick_outcomes\<close>, as far as it changes who is where.\<close>

definition handle_outcome :: "string \<times> nat \<Rightarrow> entity_id \<times> movement_outcome \<Rightarrow> layered \<Rightarrow> layered" where
  "handle_outcome p eo w = (case eo of (e, out) \<Rightarrow> (case out of
     ZoneTransition target \<Rightarrow>
       (case layer_at (lw_registry w) p of
          None \<Rightarrow> w
        | Some l \<Rightarrow> if \<not> holds l e then w
            else (in_layer p (leave_sessions e) w)\<lparr>lw_inflight := lw_inflight w @ [(e, fst p, target)]\<rparr>)
   | _ \<Rightarrow> w))"

definition layer_tick :: "string \<times> nat \<Rightarrow> layered \<Rightarrow> layered" where
  "layer_tick p w = (case Option.bind (layer_at (lw_registry w) p) (\<lambda>l. zone_tick (ly_zone l)) of
     None \<Rightarrow> w
   | Some (z, out) \<Rightarrow> fold (handle_outcome p) out (in_layer p (\<lambda>l. l\<lparr>ly_zone := z\<rparr>) w))"

definition spawn_into_layer :: "string \<times> nat \<Rightarrow> entity_id \<Rightarrow> point3 \<Rightarrow> layered \<Rightarrow> layered" where
  "spawn_into_layer p e at_point w = in_layer p (\<lambda>l. enter_sessions e (l\<lparr>ly_zone := zone_spawn e Player at_point (ly_zone l)\<rparr>)) w"

definition despawn_from_layer :: "string \<times> nat \<Rightarrow> entity_id \<Rightarrow> layered \<Rightarrow> layered" where
  "despawn_from_layer p e w = in_layer p (\<lambda>l. leave_sessions e (l\<lparr>ly_zone := zone_despawn e (ly_zone l)\<rparr>)) w"

text \<open>The task of one crossing: it always arrives in layer 0 of the target, on the ground.\<close>

definition complete_zone_transition :: "entity_id \<times> string \<times> string \<Rightarrow> layered \<Rightarrow> layered" where
  "complete_zone_transition job w = (case job of (e, from_zone, target) \<Rightarrow>
     (let w1 = w\<lparr>lw_inflight := remove1 job (lw_inflight w)\<rparr> in
      case registry_get (lw_registry w) target of
        None \<Rightarrow> w1
      | Some p \<Rightarrow>
          (let arrival = entry_point (lw_registry w) from_zone target
           in (spawn_into_layer p e (fst arrival, snd arrival, f_zero) w1)\<lparr>lw_telling := lw_telling w @ [(e, target)]\<rparr>)))"

text \<open>Sending to a connection that has ended does nothing.\<close>

definition tell_zone_changed :: "entity_id \<times> string \<Rightarrow> layered \<Rightarrow> layered" where
  "tell_zone_changed t w = w\<lparr>lw_telling := remove1 t (lw_telling w),
     lw_told := (if has_row (lw_conns w) (fst t) then lw_told w @ [t] else lw_told w)\<rparr>"

text \<open>A connection reads the oldest \<open>ZoneChanged\<close> of its queue.\<close>

definition read_zone_changed :: "entity_id \<Rightarrow> layered \<Rightarrow> layered" where
  "read_zone_changed e w = (case List.find (\<lambda>t. fst t = e) (lw_told w) of
     None \<Rightarrow> w
   | Some t \<Rightarrow>
       (let w1 = w\<lparr>lw_told := remove1 t (lw_told w)\<rparr> in
        case registry_get (lw_registry w) (snd t) of
          None \<Rightarrow> w1
        | Some p \<Rightarrow> w1\<lparr>lw_conns := put_row e p (lw_conns w1)\<rparr>))"

definition perform_group_layer_move :: "entity_id \<Rightarrow> entity_id \<Rightarrow> layered \<Rightarrow> layered" where
  "perform_group_layer_move e other w = (case map_of (lw_conns w) e of
     None \<Rightarrow> w
   | Some p \<Rightarrow> (case join_layer_of (lw_registry w) (fst p) other of
       None \<Rightarrow> w
     | Some q \<Rightarrow>
         if q = p then w
         else (case Option.bind (layer_at (lw_registry w) p) (\<lambda>l. zone_position_of (ly_zone l) e) of
             None \<Rightarrow> w
           | Some position \<Rightarrow>
               (spawn_into_layer q e position (despawn_from_layer p e w))\<lparr>lw_conns := put_row e q (lw_conns w)\<rparr>)))"

text \<open>The end of a connection: it cleans up the layer it believes to be in, and its queue goes with it.\<close>

definition end_connection :: "entity_id \<Rightarrow> layered \<Rightarrow> layered" where
  "end_connection e w = (case map_of (lw_conns w) e of
     None \<Rightarrow> w
   | Some p \<Rightarrow> (despawn_from_layer p e w)\<lparr>lw_conns := del_row e (lw_conns w),
       lw_joining := filter (\<lambda>e'. e' \<noteq> e) (lw_joining w), lw_told := filter (\<lambda>t. fst t \<noteq> e) (lw_told w)\<rparr>)"

text \<open>A query that fails between the two halves of a join ends the connection with nothing cleaned up.\<close>

definition abandon_join :: "entity_id \<Rightarrow> layered \<Rightarrow> layered" where
  "abandon_join e w = w\<lparr>lw_conns := del_row e (lw_conns w), lw_joining := filter (\<lambda>e'. e' \<noteq> e) (lw_joining w)\<rparr>"

section \<open>Which layer a connection is given\<close>

lemma min_by_key_None: "min_by_key xs = None \<longleftrightarrow> xs = []"
  by (cases xs) (auto split: option.splits if_splits)

lemma min_by_key_least: "min_by_key xs = Some x \<Longrightarrow> x \<in> set xs \<and> (\<forall>y \<in> set xs. snd x \<le> snd y)"
proof (induction xs arbitrary: x)
  case (Cons a xs)
  show ?case
  proof (cases "min_by_key xs")
    case None
    then show ?thesis using Cons.prems by (auto simp: min_by_key_None)
  next
    case (Some b)
    then have "b \<in> set xs \<and> (\<forall>y \<in> set xs. snd b \<le> snd y)" by (rule Cons.IH)
    then show ?thesis using Cons.prems Some by (cases "snd b < snd a") auto
  qed
qed simp

lemma min_by_key_first:
  "min_by_key xs = Some x \<Longrightarrow> sorted (map fst xs) \<Longrightarrow> y \<in> set xs \<Longrightarrow> snd y = snd x \<Longrightarrow> fst x \<le> fst y"
proof (induction xs arbitrary: x)
  case (Cons a xs)
  show ?case
  proof (cases "min_by_key xs")
    case None
    then show ?thesis using Cons.prems min_by_key_None by auto
  next
    case (Some b)
    note least = min_by_key_least [OF Some]
    show ?thesis
    proof (cases "snd b < snd a")
      case True
      then have "x = b" using Cons.prems(1) Some by simp
      then have "y \<in> set xs" using Cons.prems(3,4) True by auto
      then show ?thesis using Cons.IH [OF Some] Cons.prems(2,4) \<open>x = b\<close> by simp
    next
      case False
      then have "x = a" using Cons.prems(1) Some by simp
      then show ?thesis using Cons.prems(2,3) by auto
    qed
  qed
qed simp

lemma enumerate_member: "(i, n) \<in> set (enumerate 0 ns) \<longleftrightarrow> i < length ns \<and> ns ! i = n"
  by (auto simp: in_set_enumerate_eq)

text \<open>The first layer of the least populated, if it has room.\<close>

lemma least_populated:
  "least_populated_under_threshold ns threshold = Some i \<Longrightarrow>
     i < length ns \<and> ns ! i < threshold \<and> (\<forall>j < length ns. ns ! i \<le> ns ! j) \<and> (\<forall>j < i. ns ! i < ns ! j)"
  "least_populated_under_threshold ns threshold = None \<Longrightarrow> j < length ns \<Longrightarrow> threshold \<le> ns ! j"
proof -
  assume "least_populated_under_threshold ns threshold = Some i"
  then have m: "min_by_key (enumerate 0 ns) = Some (i, ns ! i)" "i < length ns" "ns ! i < threshold"
    by (auto simp: least_populated_under_threshold_def enumerate_member split: option.splits if_splits
        dest: min_by_key_least)
  have least: "ns ! i \<le> ns ! j" if "j < length ns" for j
    using min_by_key_least [OF m(1)] that enumerate_member [of j "ns ! j" ns] by auto
  have "ns ! i < ns ! j" if "j < i" for j
  proof (rule ccontr)
    assume "\<not> ns ! i < ns ! j"
    then have "ns ! j = ns ! i" using least [of j] that m(2) by simp
    then have "i \<le> j"
      using min_by_key_first [OF m(1), of "(j, ns ! j)"] that m(2) by (simp add: enumerate_member)
    then show False using that by simp
  qed
  then show "i < length ns \<and> ns ! i < threshold \<and> (\<forall>j < length ns. ns ! i \<le> ns ! j) \<and> (\<forall>j < i. ns ! i < ns ! j)"
    using m least by blast
next
  assume n: "least_populated_under_threshold ns threshold = None" and j: "j < length ns"
  show "threshold \<le> ns ! j"
  proof (cases "min_by_key (enumerate 0 ns)")
    case None
    then have "enumerate 0 ns = []" by (simp only: min_by_key_None)
    then have "length (enumerate 0 ns) = 0" by simp
    then show ?thesis using j by simp
  next
    case (Some x)
    then have "threshold \<le> snd x" "snd x \<le> ns ! j"
      using n j min_by_key_least [OF Some] enumerate_member [of j "ns ! j" ns]
      by (auto simp: least_populated_under_threshold_def split: if_splits prod.splits)
    then show ?thesis by simp
  qed
qed

section \<open>Reading and changing the layers\<close>

lemma layers_of_updates [simp]:
  "layers_of (push_layer zid l reg) z = (if z = zid then map_option (\<lambda>ls. ls @ [l]) (layers_of reg zid) else layers_of reg z)"
  "layers_of (upd_layer p f reg) z = (if z = fst p then map_option (\<lambda>ls. if snd p < length ls then ls[snd p := f (ls ! snd p)] else ls)
     (layers_of reg (fst p)) else layers_of reg z)"
  by (simp_all add: layers_of_def push_layer_def upd_layer_def)

lemma layer_at_upd [simp]:
  "layer_at (upd_layer p f reg) q = (if q = p then map_option f (layer_at reg p) else layer_at reg q)"
  by (cases p; cases q) (auto simp: layer_at_def split: bind_splits)

lemma layer_at_push:
  "layers_of reg zid = Some ls \<Longrightarrow>
     layer_at (push_layer zid l reg) q = (if q = (zid, length ls) then Some l else layer_at reg q)"
  by (cases q) (auto simp: layer_at_def nth_append split: bind_splits)

lemma layer_at_pushed: "layer_at reg q = Some l' \<Longrightarrow> layer_at (push_layer zid l reg) q = Some l'"
  by (cases q) (auto simp: layer_at_def nth_append split: bind_splits)

lemma manifests_updates [simp]:
  "zr_manifests (push_layer zid l reg) = zr_manifests reg" "zr_manifests (upd_layer p f reg) = zr_manifests reg"
  by (simp_all add: push_layer_def upd_layer_def)


section \<open>Who is where\<close>

definition held :: "layered \<Rightarrow> string \<times> nat \<Rightarrow> entity_id \<Rightarrow> bool" where
  "held w p e \<longleftrightarrow> (case layer_at (lw_registry w) p of None \<Rightarrow> False | Some l \<Rightarrow> holds l e)"

definition inside :: "layered \<Rightarrow> string \<times> nat \<Rightarrow> entity_id \<Rightarrow> bool" where
  "inside w p e \<longleftrightarrow> (case layer_at (lw_registry w) p of None \<Rightarrow> False | Some l \<Rightarrow> present (ly_zone l) e)"

definition flying :: "layered \<Rightarrow> entity_id set" where
  "flying w = fst ` set (lw_inflight w)"

definition exists_layer :: "layered \<Rightarrow> string \<times> nat \<Rightarrow> bool" where
  "exists_layer w p \<longleftrightarrow> layer_at (lw_registry w) p \<noteq> None"

lemma in_layer_simps [simp]:
  "lw_registry (in_layer p f w) = upd_layer p f (lw_registry w)" "lw_conns (in_layer p f w) = lw_conns w"
  "lw_joining (in_layer p f w) = lw_joining w" "lw_inflight (in_layer p f w) = lw_inflight w"
  "lw_telling (in_layer p f w) = lw_telling w" "lw_told (in_layer p f w) = lw_told w"
  by (simp_all add: in_layer_def)

lemma holds_sessions [simp]:
  "holds (enter_sessions e l) e' \<longleftrightarrow> e' = e \<or> holds l e'" "holds (leave_sessions e l) e' \<longleftrightarrow> e' \<noteq> e \<and> holds l e'"
  "holds (l\<lparr>ly_zone := z\<rparr>) e' \<longleftrightarrow> holds l e'"
  "ly_zone (enter_sessions e l) = ly_zone l" "ly_zone (leave_sessions e l) = ly_zone l"
  by (auto simp: holds_def enter_sessions_def leave_sessions_def)

lemma where_in_layer:
  "held (in_layer p f w) q e = (if q = p then \<exists>l. layer_at (lw_registry w) p = Some l \<and> holds (f l) e else held w q e)"
  "inside (in_layer p f w) q e =
     (if q = p then \<exists>l. layer_at (lw_registry w) p = Some l \<and> present (ly_zone (f l)) e else inside w q e)"
  by (auto simp: held_def inside_def split: option.splits)

lemma where_zone [simp]:
  "held (in_layer p (\<lambda>l. l\<lparr>ly_zone := g l\<rparr>) w) q e = held w q e"
  by (auto simp: where_in_layer held_def split: option.splits)

lemma where_updates [simp]:
  "held (w\<lparr>lw_conns := cs\<rparr>) = held w" "inside (w\<lparr>lw_conns := cs\<rparr>) = inside w"
  "held (w\<lparr>lw_joining := js\<rparr>) = held w" "inside (w\<lparr>lw_joining := js\<rparr>) = inside w"
  "held (w\<lparr>lw_inflight := fs\<rparr>) = held w" "inside (w\<lparr>lw_inflight := fs\<rparr>) = inside w"
  "held (w\<lparr>lw_telling := ts\<rparr>) = held w" "inside (w\<lparr>lw_telling := ts\<rparr>) = inside w"
  "held (w\<lparr>lw_told := ts\<rparr>) = held w" "inside (w\<lparr>lw_told := ts\<rparr>) = inside w"
  by (simp_all add: fun_eq_iff held_def inside_def)

lemma where_spawn [simp]:
  "held (spawn_into_layer p e pt w) q e' \<longleftrightarrow> held w q e' \<or> (q = p \<and> e' = e \<and> exists_layer w p)"
  "inside (spawn_into_layer p e pt w) q e' \<longleftrightarrow> inside w q e' \<or> (q = p \<and> e' = e \<and> exists_layer w p)"
  by (auto simp: spawn_into_layer_def where_in_layer held_def inside_def exists_layer_def split: option.splits)

lemma where_despawn [simp]:
  "held (despawn_from_layer p e w) q e' \<longleftrightarrow> held w q e' \<and> \<not> (q = p \<and> e' = e)"
  "inside (despawn_from_layer p e w) q e' \<longleftrightarrow> inside w q e' \<and> \<not> (q = p \<and> e' = e)"
  by (auto simp: despawn_from_layer_def where_in_layer held_def inside_def split: option.splits)

lemma layered_moves [simp]:
  "lw_conns (spawn_into_layer p e pt w) = lw_conns w" "lw_joining (spawn_into_layer p e pt w) = lw_joining w"
  "lw_inflight (spawn_into_layer p e pt w) = lw_inflight w"
  "lw_conns (despawn_from_layer p e w) = lw_conns w" "lw_joining (despawn_from_layer p e w) = lw_joining w"
  "lw_inflight (despawn_from_layer p e w) = lw_inflight w"
  by (simp_all add: spawn_into_layer_def despawn_from_layer_def)

text \<open>
  An entity is in the sessions of one layer at most, and then no crossing carries it and its connection
  is no longer joining; a connection whose entity a zone holds is in that layer's sessions, or still
  joining it.
\<close>

definition placed_ok :: "entity_id set \<Rightarrow> layered \<Rightarrow> bool" where
  "placed_ok used w \<longleftrightarrow>
     (\<forall>p q e. held w p e \<longrightarrow> held w q e \<longrightarrow> p = q)
     \<and> (\<forall>p e. held w p e \<longrightarrow> e \<in> used \<and> e \<notin> flying w \<and> e \<notin> set (lw_joining w))
     \<and> (\<forall>e. e \<in> flying w \<longrightarrow> e \<in> used \<and> e \<notin> set (lw_joining w)) \<and> distinct (map fst (lw_inflight w))
     \<and> (\<forall>p e. has_row (lw_conns w) e \<longrightarrow> inside w p e \<longrightarrow>
          held w p e \<or> (e \<in> set (lw_joining w) \<and> map_of (lw_conns w) e = Some p))
     \<and> (\<forall>p e. inside w p e \<longrightarrow> e \<in> used) \<and> (\<forall>e. has_row (lw_conns w) e \<longrightarrow> e \<in> used)
     \<and> set (lw_joining w) \<subseteq> used"

lemma placed_unique: "placed_ok used w \<Longrightarrow> held w p e \<Longrightarrow> held w q e \<Longrightarrow> p = q"
  unfolding placed_ok_def by blast

lemma placed_held: "placed_ok used w \<Longrightarrow> held w p e \<Longrightarrow> e \<in> used \<and> e \<notin> flying w \<and> e \<notin> set (lw_joining w)"
  unfolding placed_ok_def by blast

lemma placed_flying: "placed_ok used w \<Longrightarrow> e \<in> flying w \<Longrightarrow> e \<in> used \<and> e \<notin> set (lw_joining w)"
  unfolding placed_ok_def by blast

lemma placed_inside:
  "placed_ok used w \<Longrightarrow> inside w p e \<Longrightarrow> has_row (lw_conns w) e \<Longrightarrow>
     held w p e \<or> (e \<in> set (lw_joining w) \<and> map_of (lw_conns w) e = Some p)"
  unfolding placed_ok_def by blast

lemma placed_used:
  assumes "placed_ok used w"
  shows "inside w p e \<Longrightarrow> e \<in> used" "has_row (lw_conns w) e \<Longrightarrow> e \<in> used" "e \<in> set (lw_joining w) \<Longrightarrow> e \<in> used"
  using assms unfolding placed_ok_def by blast+

lemma placed_distinct: "placed_ok used w \<Longrightarrow> distinct (map fst (lw_inflight w))"
  unfolding placed_ok_def by blast

lemma placed_okI:
  assumes "\<And>p q e. held w p e \<Longrightarrow> held w q e \<Longrightarrow> p = q"
    and "\<And>p e. held w p e \<Longrightarrow> e \<in> used \<and> e \<notin> flying w \<and> e \<notin> set (lw_joining w)"
    and "\<And>e. e \<in> flying w \<Longrightarrow> e \<in> used \<and> e \<notin> set (lw_joining w)"
    and "distinct (map fst (lw_inflight w))"
    and "\<And>p e. inside w p e \<Longrightarrow> has_row (lw_conns w) e \<Longrightarrow>
          held w p e \<or> (e \<in> set (lw_joining w) \<and> map_of (lw_conns w) e = Some p)"
    and "\<And>p e. inside w p e \<or> has_row (lw_conns w) e \<or> e \<in> set (lw_joining w) \<Longrightarrow> e \<in> used"
  shows "placed_ok used w"
  using assms unfolding placed_ok_def by blast

text \<open>What a tick of the zone does to those present.\<close>

lemma run_away:
  assumes "\<And>r y y1 o1. \<not> present y e \<Longrightarrow> f r y = (y1, o1) \<Longrightarrow> \<not> present y1 e"
    and "run_steps f rs z = (z', out)" "present z' e"
  shows "present z e"
proof (rule ccontr)
  assume "\<not> present z e"
  then have "\<not> present z' e"
    by (intro run_steps_invariant [where I = "\<lambda>y. \<not> present y e", OF _ assms(2)]) (rule assms(1))
  then show False using assms(3) by simp
qed

lemma teleports_cross_nothing:
  assumes "run_steps teleport_step rs z = (z', out)"
  shows "(e, ZoneTransition t) \<notin> set out"
proof
  assume "(e, ZoneTransition t) \<in> set out"
  from teleports.run_source [OF assms this] obtain r zi zj outj where
    q: "teleport_step r zi = (zj, outj)" "(e, ZoneTransition t) \<in> set outj" by blast
  obtain e' pt where r: "r = (e', pt)" by (cases r)
  show False by (rule teleport_step_cases [OF q(1) [unfolded r]]) (use q(2) in auto)
qed

lemma tick_present:
  assumes "zone_tick z = Some (z', out)" "present z' e"
  shows "present z e \<and> (e, ZoneTransition t) \<notin> set out"
proof -
  obtain nanos z1 out1 out2 where
    m: "run_steps (move_step (as_secs_f64 nanos)) (zn_pending_moves z) (begin_tick z) = (z1, out1)"
    and t: "run_steps teleport_step (zn_pending_teleports z) (drain_teleports z1) = (z', out2)"
    and out: "out = out1 @ out2"
    by (rule zone_tick_split [OF assms(1)])
  have "present (drain_teleports z1) e"
    by (rule run_away [OF teleport_keeps_away t assms(2)])
  then have p1: "present z1 e" by simp
  have "present (begin_tick z) e"
    by (rule run_away [OF move_keeps_away m p1])
  moreover have "(e, ZoneTransition t) \<notin> set out2" by (rule teleports_cross_nothing [OF t])
  moreover have "(e, ZoneTransition t) \<notin> set out1"
  proof
    assume "(e, ZoneTransition t) \<in> set out1"
    from moves.run_source [OF m this] obtain r post zi zj outj outr where
      q: "move_step (as_secs_f64 nanos) r zi = (zj, outj)" "(e, ZoneTransition t) \<in> set outj"
        "run_steps (move_step (as_secs_f64 nanos)) post zj = (z1, outr)" by blast
    have "present zj e" by (rule run_away [OF move_keeps_away q(3) p1])
    then show False using move_transition [OF q(1,2)] by simp
  qed
  ultimately show ?thesis by (simp add: out)
qed

lemma present_new: "zone_new m cfg nm = Some z \<Longrightarrow> \<not> present z e"
  by (auto simp: zone_new_def grid_new_def present_def zone_position_of_def grid_position_of_def split: if_splits)

section \<open>Every step keeps the entities in their places\<close>

lemma placed_fewer:
  assumes "placed_ok used w" "held w' = held w" "\<And>q e. inside w' q e \<Longrightarrow> inside w q e"
    and "flying w' = flying w" "lw_joining w' = lw_joining w" "lw_conns w' = lw_conns w"
    and "map fst (lw_inflight w') = map fst (lw_inflight w)"
  shows "placed_ok used w'"
  using assms(1,3) unfolding placed_ok_def assms(2,4,5,6,7) by blast

lemma handle_outcome_places:
  assumes "placed_ok used w" "\<And>t. out = ZoneTransition t \<Longrightarrow> \<not> inside w p e"
  shows "placed_ok used (handle_outcome p (e, out) w)" "inside (handle_outcome p (e, out) w) = inside w"
proof -
  let ?w = "handle_outcome p (e, out) w"
  have "placed_ok used ?w \<and> inside ?w = inside w"
  proof (cases "\<exists>t. out = ZoneTransition t \<and> held w p e")
    case False
    then have "?w = w"
      by (auto simp: handle_outcome_def held_def split: movement_outcome.split option.split)
    then show ?thesis using assms by simp
  next
    case True
    then obtain t where 2: "out = ZoneTransition t" "held w p e" by blast
    then have w: "?w = (in_layer p (leave_sessions e) w)\<lparr>lw_inflight := lw_inflight w @ [(e, fst p, t)]\<rparr>"
      by (auto simp: handle_outcome_def held_def split: option.splits)
    have h: "held ?w q e' \<longleftrightarrow> held w q e' \<and> \<not> (q = p \<and> e' = e)" for q e'
      by (auto simp: w where_in_layer held_def split: option.splits)
    have i: "inside ?w = inside w"
      by (auto simp: fun_eq_iff w where_in_layer inside_def split: option.splits)
    have f: "flying ?w = insert e (flying w)" by (auto simp: w flying_def)
    have j: "lw_joining ?w = lw_joining w" "lw_conns ?w = lw_conns w" by (simp_all add: w)
    have nf: "e \<notin> flying w" "e \<in> used" "e \<notin> set (lw_joining w)"
      using placed_held [OF assms(1) 2(2)] by simp_all
    have d: "distinct (map fst (lw_inflight ?w))"
      using assms(1) nf by (auto simp: w placed_ok_def flying_def)
    have u: "q = p" if "held w q e" for q using placed_unique [OF assms(1) that 2(2)] .
    have "\<not> inside w p e" using assms(2) 2(1) by simp
    then show ?thesis
      using assms(1) u nf unfolding placed_ok_def h i f j
      by (intro conjI d) blast+
  qed
  then show "placed_ok used ?w" "inside ?w = inside w" by blast+
qed

lemma outcomes_placed:
  "placed_ok used w \<Longrightarrow> \<forall>(e, res) \<in> set out. (\<exists>t. res = ZoneTransition t) \<longrightarrow> \<not> inside w p e \<Longrightarrow>
     placed_ok used (fold (handle_outcome p) out w)"
proof (induction out arbitrary: w)
  case (Cons eo out)
  obtain e res where eo: "eo = (e, res)" by (cases eo)
  have "\<not> inside w p e" if "res = ZoneTransition t" for t using Cons.prems(2) that by (auto simp: eo)
  note s = handle_outcome_places [where out = res, OF Cons.prems(1) this]
  show ?case using Cons.IH [OF s(1)] Cons.prems(2) by (simp add: eo s(2))
qed simp

lemma placed_tick: "placed_ok used w \<Longrightarrow> placed_ok used (layer_tick p w)"
proof (cases "Option.bind (layer_at (lw_registry w) p) (\<lambda>l. zone_tick (ly_zone l))")
  case (Some zo)
  assume ok: "placed_ok used w"
  obtain z' out where zo: "zo = (z', out)" by (cases zo)
  obtain l where l: "layer_at (lw_registry w) p = Some l" "zone_tick (ly_zone l) = Some (z', out)"
    using Some zo by (auto split: bind_splits)
  let ?w = "in_layer p (\<lambda>l. l\<lparr>ly_zone := z'\<rparr>) w"
  have i: "inside ?w q e \<longleftrightarrow> (if q = p then present z' e else inside w q e)" for q e
    by (simp add: where_in_layer l)
  have sub: "inside w q e" if "inside ?w q e" for q e
    using that tick_present [OF l(2)] l(1) by (auto simp: i inside_def split: if_splits)
  have "placed_ok used ?w" by (rule placed_fewer [OF ok _ sub]) (simp_all add: flying_def fun_eq_iff)
  moreover have "\<forall>(e, res) \<in> set out. (\<exists>t. res = ZoneTransition t) \<longrightarrow> \<not> inside ?w p e"
    using tick_present [OF l(2)] by (fastforce simp: i)
  ultimately show ?thesis using Some by (simp add: layer_tick_def zo outcomes_placed)
qed (simp add: layer_tick_def)

lemma present_spawn_none: "layer_spawner sp zid m = Some l \<Longrightarrow> \<not> holds l e \<and> \<not> present (ly_zone l) e"
  by (auto simp: layer_spawner_def holds_def present_new split: bind_splits)

text \<open>Choosing a layer moves nobody, and a layer that is new is empty.\<close>

lemma starting_layer_places:
  assumes "starting_layer sp zid mates (lw_registry w) = (res, reg)"
  shows "held (w\<lparr>lw_registry := reg\<rparr>) = held w" "inside (w\<lparr>lw_registry := reg\<rparr>) = inside w"
proof -
  have same: "layer_at reg q = layer_at (lw_registry w) q
      \<or> layer_at (lw_registry w) q = None \<and> (\<exists>m l. layer_spawner sp zid m = Some l \<and> layer_at reg q = Some l)" for q
  proof (cases "reg = lw_registry w")
    case False
    then obtain ls m l where "layers_of (lw_registry w) zid = Some ls" "layer_spawner sp zid m = Some l"
      "reg = push_layer zid l (lw_registry w)"
      using assms by (auto simp: starting_layer_def assign_layer_def split: list.splits option.splits bind_splits if_splits)
    moreover from this have "layer_at (lw_registry w) (zid, length ls) = None" by (simp add: layer_at_def)
    ultimately show ?thesis by (auto simp: layer_at_push)
  qed simp
  show "held (w\<lparr>lw_registry := reg\<rparr>) = held w"
  proof (intro ext)
    fix q e show "held (w\<lparr>lw_registry := reg\<rparr>) q e = held w q e"
      using same [of q] present_spawn_none by (auto simp: held_def split: option.splits)
  qed
  show "inside (w\<lparr>lw_registry := reg\<rparr>) = inside w"
  proof (intro ext)
    fix q e show "inside (w\<lparr>lw_registry := reg\<rparr>) q e = inside w q e"
      using same [of q] present_spawn_none by (auto simp: inside_def split: option.splits)
  qed
qed

lemma placed_start:
  assumes "placed_ok used w" "e \<notin> used" "start_join sp zid mates pt e w = Some w'"
  shows "placed_ok (insert e used) w'"
proof -
  obtain p reg where r: "starting_layer sp zid mates (lw_registry w) = (Some p, reg)"
    and w': "w' = in_layer p (\<lambda>l. l\<lparr>ly_zone := zone_spawn e Player pt (ly_zone l)\<rparr>)
          (w\<lparr>lw_registry := reg, lw_conns := put_row e p (lw_conns w), lw_joining := e # lw_joining w\<rparr>)"
    using assms(3) by (auto simp: start_join_def split: prod.splits option.splits)
  let ?w = "w\<lparr>lw_registry := reg\<rparr>"
  note eq = starting_layer_places [OF r]
  have h: "held w' = held w" by (simp add: fun_eq_iff w' eq)
  have i: "inside w' q e' \<longleftrightarrow> inside w q e' \<or> (q = p \<and> e' = e \<and> exists_layer ?w p)" for q e'
    unfolding eq(2) [symmetric] w' by (auto simp: where_in_layer inside_def exists_layer_def split: option.splits)
  have "flying w' = flying w" "lw_joining w' = e # lw_joining w" "lw_conns w' = put_row e p (lw_conns w)"
    "lw_inflight w' = lw_inflight w" by (simp_all add: w' flying_def)
  then show ?thesis
    using assms(1,2) unfolding placed_ok_def h i by (auto simp: has_row_def)
qed

lemma placed_finish:
  assumes "placed_ok used w" "e \<in> set (lw_joining w)"
  shows "placed_ok used (finish_join e w)"
proof (cases "map_of (lw_conns w) e")
  case (Some p)
  let ?w = "finish_join e w"
  have h: "held ?w q e' \<longleftrightarrow> held w q e' \<or> (q = p \<and> e' = e \<and> exists_layer w p)" for q e'
    by (auto simp: finish_join_def Some where_in_layer held_def exists_layer_def split: option.splits)
  have i: "inside ?w = inside w"
    by (auto simp: fun_eq_iff finish_join_def Some where_in_layer inside_def split: option.splits)
  have c: "flying ?w = flying w" "lw_joining ?w = filter (\<lambda>e'. e' \<noteq> e) (lw_joining w)" "lw_conns ?w = lw_conns w"
    "lw_inflight ?w = lw_inflight w" by (simp_all add: finish_join_def Some flying_def)
  have new: "\<not> held w q e" "e \<notin> flying w" "e \<in> used" for q
    using placed_held [OF assms(1)] placed_flying [OF assms(1)] placed_used [OF assms(1)] assms(2) by blast+
  have ex: "inside w q e' \<Longrightarrow> exists_layer w q" for q e' by (auto simp: inside_def exists_layer_def split: option.splits)
  show ?thesis
  proof (rule placed_okI; (unfold h i c)?)
    show "q = r" if "held w q e' \<or> (q = p \<and> e' = e \<and> exists_layer w p)" "held w r e' \<or> (r = p \<and> e' = e \<and> exists_layer w p)" for q r e'
      using that new(1) placed_unique [OF assms(1)] by blast
    show "(held w q e' \<or> (q = p \<and> e' = e \<and> exists_layer w p)) \<or>
        (e' \<in> set (filter (\<lambda>e'. e' \<noteq> e) (lw_joining w)) \<and> map_of (lw_conns w) e' = Some q)"
      if "inside w q e'" "has_row (lw_conns w) e'" for q e'
      using placed_inside [OF assms(1) that] ex [OF that(1)] Some by (cases "e' = e") auto
  qed (use new placed_held [OF assms(1)] placed_flying [OF assms(1)] placed_distinct [OF assms(1)]
      placed_used [OF assms(1)] in auto)
qed (use assms in \<open>simp add: finish_join_def\<close>)

lemma placed_abandon: "placed_ok used w \<Longrightarrow> placed_ok used (abandon_join e w)"
proof -
  have "flying (abandon_join e w) = flying w" by (simp add: abandon_join_def flying_def)
  then show "placed_ok used w \<Longrightarrow> placed_ok used (abandon_join e w)"
    unfolding placed_ok_def by (auto simp: abandon_join_def)
qed

lemma placed_request:
  assumes "placed_ok used w" "\<And>z e. present (f z) e \<longleftrightarrow> present z e"
  shows "placed_ok used (in_layer p (\<lambda>l. l\<lparr>ly_zone := f (ly_zone l)\<rparr>) w)"
  by (rule placed_fewer [OF assms(1)])
    (use assms(2) in \<open>auto simp: fun_eq_iff flying_def where_in_layer inside_def split: option.splits if_splits\<close>)

lemma placed_npc:
  assumes "placed_ok used w" "e \<notin> used"
  shows "placed_ok (insert e used) (in_layer p (\<lambda>l. l\<lparr>ly_zone := zone_spawn e Npc pt (ly_zone l)\<rparr>) w)"
    (is "placed_ok _ ?w")
proof -
  have i: "inside ?w q e' \<Longrightarrow> inside w q e' \<or> e' = e" for q e'
    by (auto simp: where_in_layer inside_def split: option.splits if_splits)
  have c: "held ?w = held w" "flying ?w = flying w" "lw_joining ?w = lw_joining w" "lw_conns ?w = lw_conns w"
    "lw_inflight ?w = lw_inflight w" by (simp_all add: fun_eq_iff flying_def)
  have n: "\<not> has_row (lw_conns w) e" using placed_used(2) [OF assms(1)] assms(2) by blast
  show ?thesis
  proof (rule placed_okI; (unfold c)?)
    show "held w q e' \<or> (e' \<in> set (lw_joining w) \<and> map_of (lw_conns w) e' = Some q)"
      if "inside ?w q e'" "has_row (lw_conns w) e'" for q e'
    proof -
      have "inside w q e'" using i [OF that(1)] n that(2) by auto
      then show ?thesis using placed_inside [OF assms(1)] that(2) by blast
    qed
    show "e' \<in> insert e used" if "inside ?w q e' \<or> has_row (lw_conns w) e' \<or> e' \<in> set (lw_joining w)" for q e'
      using that i placed_used [OF assms(1)] by blast
  qed (use placed_unique [OF assms(1)] placed_held [OF assms(1)] placed_flying [OF assms(1)]
      placed_distinct [OF assms(1)] in blast)+
qed

lemma flying_remove: "distinct (map fst fs) \<Longrightarrow> job \<in> set fs \<Longrightarrow> fst ` set (remove1 job fs) = fst ` set fs - {fst job}"
  by (induction fs) (auto simp: rev_image_eqI)

lemma placed_complete:
  assumes "placed_ok used w" "(e, src, target) \<in> set (lw_inflight w)"
  shows "placed_ok used (complete_zone_transition (e, src, target) w)" (is "placed_ok used ?w")
proof -
  obtain P where P: "held ?w = (\<lambda>q e'. held w q e' \<or> (P q \<and> e' = e))" "inside ?w = (\<lambda>q e'. inside w q e' \<or> (P q \<and> e' = e))"
    "\<And>q r. P q \<Longrightarrow> P r \<Longrightarrow> q = r"
  proof (cases "registry_get (lw_registry w) target")
    case None
    show thesis by (rule that [of "\<lambda>_. False"]) (simp_all add: fun_eq_iff complete_zone_transition_def None)
  next
    case (Some p)
    show thesis
      by (rule that [of "\<lambda>q. q = p \<and> exists_layer w p"])
        (auto simp: fun_eq_iff complete_zone_transition_def Some exists_layer_def Let_def)
  qed
  have c: "lw_joining ?w = lw_joining w" "lw_conns ?w = lw_conns w"
    "lw_inflight ?w = remove1 (e, src, target) (lw_inflight w)"
    by (simp_all add: complete_zone_transition_def Let_def split: option.split)
  have f: "flying ?w = flying w - {e}"
    using flying_remove [OF placed_distinct [OF assms(1)] assms(2)] by (simp add: flying_def c)
  have e: "e \<in> flying w" using assms(2) by (force simp: flying_def)
  have new: "\<not> held w q e" "e \<in> used" "e \<notin> set (lw_joining w)" for q
    using placed_held [OF assms(1)] placed_flying [OF assms(1) e] e by blast+
  show ?thesis
  proof (rule placed_okI; (unfold P(1,2) c f)?)
    show "distinct (map fst (remove1 (e, src, target) (lw_inflight w)))"
      using placed_distinct [OF assms(1)] by (metis distinct_map distinct_remove1 inj_on_subset set_remove1_subset)
    show "(held w q e' \<or> (P q \<and> e' = e)) \<or> (e' \<in> set (lw_joining w) \<and> map_of (lw_conns w) e' = Some q)"
      if "inside w q e' \<or> (P q \<and> e' = e)" "has_row (lw_conns w) e'" for q e'
      using that placed_inside [OF assms(1)] by blast
  qed (use new P(3) placed_unique [OF assms(1)] placed_held [OF assms(1)] placed_flying [OF assms(1)]
      placed_used [OF assms(1)] in blast)+
qed

lemma placed_tell: "placed_ok used w \<Longrightarrow> placed_ok used (tell_zone_changed t w)"
  by (erule placed_fewer) (simp_all add: tell_zone_changed_def flying_def)

lemma placed_read:
  assumes "placed_ok used w" "e \<notin> set (lw_joining w)" "has_row (lw_conns w) e"
  shows "placed_ok used (read_zone_changed e w)" (is "placed_ok used ?w")
proof -
  have c: "held ?w = held w" "inside ?w = inside w" "flying ?w = flying w" "lw_joining ?w = lw_joining w"
    "lw_inflight ?w = lw_inflight w"
    by (simp_all add: read_zone_changed_def flying_def Let_def split: option.split)
  have h: "has_row (lw_conns ?w) e' \<longleftrightarrow> has_row (lw_conns w) e'" for e'
    using assms(3) by (auto simp: read_zone_changed_def Let_def split: option.split)
  have m: "e' \<noteq> e \<Longrightarrow> map_of (lw_conns ?w) e' = map_of (lw_conns w) e'" for e'
    by (simp add: read_zone_changed_def Let_def split: option.split)
  show ?thesis
  proof (rule placed_okI; (unfold c h)?)
    show "held w q e' \<or> (e' \<in> set (lw_joining w) \<and> map_of (lw_conns ?w) e' = Some q)"
      if "inside w q e'" "has_row (lw_conns w) e'" for q e'
      using placed_inside [OF assms(1) that] m [of e'] assms(2) by (cases "e' = e") auto
  qed (use placed_unique [OF assms(1)] placed_held [OF assms(1)] placed_flying [OF assms(1)]
      placed_distinct [OF assms(1)] placed_used [OF assms(1)] in blast)+
qed

text \<open>A group move finds the entity where its connection believes it to be, or does nothing.\<close>

lemma placed_group_move:
  assumes "placed_ok used w" "e \<notin> set (lw_joining w)"
  shows "placed_ok used (perform_group_layer_move e other w)" (is "placed_ok used ?w")
proof -
  consider "?w = w"
    | p q l pt where "map_of (lw_conns w) e = Some p" "layer_at (lw_registry w) p = Some l" "present (ly_zone l) e"
      "?w = (spawn_into_layer q e pt (despawn_from_layer p e w))\<lparr>lw_conns := put_row e q (lw_conns w)\<rparr>"
  proof (cases "map_of (lw_conns w) e")
    case None
    then show thesis by (intro that(1)) (simp add: perform_group_layer_move_def)
  next
    case (Some p)
    note p = Some
    show thesis
    proof (cases "join_layer_of (lw_registry w) (fst p) other")
      case None
      then show thesis by (intro that(1)) (simp add: perform_group_layer_move_def p)
    next
      case (Some q)
      note q = Some
      show thesis
      proof (cases "Option.bind (layer_at (lw_registry w) p) (\<lambda>l. zone_position_of (ly_zone l) e)")
        case None
        then show thesis by (intro that(1)) (simp add: perform_group_layer_move_def p q)
      next
        case (Some pt)
        then obtain l where l: "layer_at (lw_registry w) p = Some l" "zone_position_of (ly_zone l) e = Some pt"
          by (auto split: bind_splits)
        show thesis
        proof (cases "q = p")
          case True
          then show thesis by (intro that(1)) (simp add: perform_group_layer_move_def p q)
        next
          case False
          then show thesis
            using Some l by (intro that(2) [OF p l(1), of q pt]) (simp_all add: perform_group_layer_move_def p q present_def)
        qed
      qed
    qed
  qed
  then show ?thesis
  proof cases
    case (2 p q l pt)
    have row: "has_row (lw_conns w) e" and "inside w p e" using 2 by (simp_all add: has_row_def inside_def)
    then have p: "held w p e" using placed_inside [OF assms(1)] assms(2) by blast
    let ?Q = "exists_layer (despawn_from_layer p e w) q"
    have h: "held ?w = (\<lambda>r e'. held w r e' \<and> \<not> (r = p \<and> e' = e) \<or> (r = q \<and> e' = e \<and> ?Q))"
      "inside ?w = (\<lambda>r e'. inside w r e' \<and> \<not> (r = p \<and> e' = e) \<or> (r = q \<and> e' = e \<and> ?Q))"
      by (simp_all add: fun_eq_iff 2(4))
    have c: "lw_joining ?w = lw_joining w" "lw_inflight ?w = lw_inflight w" "flying ?w = flying w"
      by (simp_all add: 2(4) flying_def)
    have r: "has_row (lw_conns ?w) e' \<longleftrightarrow> has_row (lw_conns w) e'" for e' using row by (auto simp: 2(4))
    have m: "e' \<noteq> e \<Longrightarrow> map_of (lw_conns ?w) e' = map_of (lw_conns w) e'" for e' by (simp add: 2(4))
    have only: "r = p" if "held w r e" for r using placed_unique [OF assms(1) that p] .
    show ?thesis
    proof (rule placed_okI; (unfold h c r)?)
      show "(held w r e' \<and> \<not> (r = p \<and> e' = e) \<or> (r = q \<and> e' = e \<and> ?Q))
          \<or> (e' \<in> set (lw_joining w) \<and> map_of (lw_conns ?w) e' = Some r)"
        if "inside w r e' \<and> \<not> (r = p \<and> e' = e) \<or> (r = q \<and> e' = e \<and> ?Q)" "has_row (lw_conns w) e'" for r e'
        using that placed_inside [OF assms(1), of r e'] m [of e'] assms(2) by (cases "e' = e") auto
    qed (use p only placed_unique [OF assms(1)] placed_held [OF assms(1)] placed_flying [OF assms(1)]
        placed_distinct [OF assms(1)] placed_used [OF assms(1)] in blast)+
  qed (use assms in simp)
qed

lemma placed_end: "placed_ok used w \<Longrightarrow> placed_ok used (end_connection e w)"
proof (cases "map_of (lw_conns w) e")
  case (Some p)
  assume ok: "placed_ok used w"
  let ?w = "end_connection e w"
  have h: "held ?w = (\<lambda>q e'. held w q e' \<and> \<not> (q = p \<and> e' = e))" "inside ?w = (\<lambda>q e'. inside w q e' \<and> \<not> (q = p \<and> e' = e))"
    by (simp_all add: fun_eq_iff end_connection_def Some)
  have c: "flying ?w = flying w" "lw_inflight ?w = lw_inflight w" "lw_conns ?w = del_row e (lw_conns w)"
    "set (lw_joining ?w) = set (lw_joining w) - {e}" by (auto simp: end_connection_def Some flying_def)
  show ?thesis
  proof (rule placed_okI; (unfold h c)?)
    show "(held w q e' \<and> \<not> (q = p \<and> e' = e)) \<or> (e' \<in> set (lw_joining w) - {e} \<and> map_of (del_row e (lw_conns w)) e' = Some q)"
      if "inside w q e' \<and> \<not> (q = p \<and> e' = e)" "has_row (del_row e (lw_conns w)) e'" for q e'
      using that placed_inside [OF ok, of q e'] by auto
    show "e' \<in> used" if "inside w q e' \<and> \<not> (q = p \<and> e' = e) \<or> has_row (del_row e (lw_conns w)) e' \<or> e' \<in> set (lw_joining w) - {e}" for q e'
      using that placed_used(1) [OF ok, of q e'] placed_used(2,3) [OF ok, of e'] by auto
  qed (use placed_unique [OF ok] placed_held [OF ok] placed_flying [OF ok] placed_distinct [OF ok] in blast)+
qed (simp add: end_connection_def)

section \<open>Everything that can happen\<close>

text \<open>
  The steps of the server in any order: the two halves of a join and its failure, requests to a zone,
  ticks, the tasks of the crossings, a connection reading its queue, following its party, or ending.
  Ids are never drawn twice. A group move is one step, from the question where the entity stands to the
  move: the answer is awaited, and a tick that takes the entity over a link in between is left out.
\<close>

inductive lw_reach :: "spawner \<Rightarrow> entity_id set \<Rightarrow> layered \<Rightarrow> bool" for sp where
  opened: "\<forall>(zid, l) \<in> set runtimes. ly_sessions l = [] \<and> (\<forall>e. present (ly_zone l) e \<longrightarrow> e \<in> used) \<Longrightarrow>
     lw_reach sp used \<lparr>lw_registry = registry_new runtimes manifests enabled threshold, lw_conns = [], lw_joining = [],
       lw_inflight = [], lw_telling = [], lw_told = []\<rparr>"
| joined: "lw_reach sp used w \<Longrightarrow> e \<notin> used \<Longrightarrow> start_join sp zid mates pt e w = Some w' \<Longrightarrow>
     lw_reach sp (insert e used) w'"
| settled: "lw_reach sp used w \<Longrightarrow> e \<in> set (lw_joining w) \<Longrightarrow> lw_reach sp used (finish_join e w)"
| abandoned: "lw_reach sp used w \<Longrightarrow> e \<in> set (lw_joining w) \<Longrightarrow> lw_reach sp used (abandon_join e w)"
| moved: "lw_reach sp used w \<Longrightarrow> map_of (lw_conns w) e = Some p \<Longrightarrow>
     lw_reach sp used (in_layer p (\<lambda>l. l\<lparr>ly_zone := request_move e pt seq (ly_zone l)\<rparr>) w)"
| teleported: "lw_reach sp used w \<Longrightarrow>
     lw_reach sp used (in_layer p (\<lambda>l. l\<lparr>ly_zone := request_teleport e pt (ly_zone l)\<rparr>) w)"
| npc: "lw_reach sp used w \<Longrightarrow> e \<notin> used \<Longrightarrow>
     lw_reach sp (insert e used) (in_layer p (\<lambda>l. l\<lparr>ly_zone := zone_spawn e Npc pt (ly_zone l)\<rparr>) w)"
| ticked: "lw_reach sp used w \<Longrightarrow> lw_reach sp used (layer_tick p w)"
| arrived: "lw_reach sp used w \<Longrightarrow> (e, src, target) \<in> set (lw_inflight w) \<Longrightarrow>
     lw_reach sp used (complete_zone_transition (e, src, target) w)"
| told: "lw_reach sp used w \<Longrightarrow> t \<in> set (lw_telling w) \<Longrightarrow> lw_reach sp used (tell_zone_changed t w)"
| heard: "lw_reach sp used w \<Longrightarrow> has_row (lw_conns w) e \<Longrightarrow> e \<notin> set (lw_joining w) \<Longrightarrow>
     lw_reach sp used (read_zone_changed e w)"
| regrouped: "lw_reach sp used w \<Longrightarrow> e \<notin> set (lw_joining w) \<Longrightarrow> lw_reach sp used (perform_group_layer_move e other w)"
| ended: "lw_reach sp used w \<Longrightarrow> e \<notin> set (lw_joining w) \<Longrightarrow> lw_reach sp used (end_connection e w)"

lemma placed_opened:
  assumes "\<forall>(zid, l) \<in> set runtimes. ly_sessions l = [] \<and> (\<forall>e. present (ly_zone l) e \<longrightarrow> e \<in> used)"
  shows "placed_ok used \<lparr>lw_registry = registry_new runtimes manifests enabled threshold, lw_conns = [], lw_joining = [],
       lw_inflight = [], lw_telling = [], lw_told = []\<rparr>" (is "placed_ok used ?w")
proof -
  have at: "\<exists>zid. (zid, l) \<in> set runtimes" if "layer_at (registry_new runtimes manifests enabled threshold) q = Some l" for q l
  proof -
    have "map_of (map (\<lambda>(zid, l). (zid, [l])) runtimes) zid = map_option (\<lambda>l. [l]) (map_of runtimes zid)" for zid
      by (induction runtimes) auto
    then show ?thesis
      using that by (cases q) (auto simp: layer_at_def layers_of_def registry_new_def split: bind_splits if_splits
          dest!: map_of_SomeD)
  qed
  have "\<not> held ?w q e" "inside ?w q e \<Longrightarrow> e \<in> used" for q e
    using at [of q] assms by (fastforce simp: held_def inside_def holds_def split: option.splits)+
  then show ?thesis by (intro placed_okI) (auto simp: flying_def has_row_def)
qed

lemma lw_reach_placed: "lw_reach sp used w \<Longrightarrow> placed_ok used w"
proof (induction rule: lw_reach.induct)
  case (opened runtimes used manifests enabled threshold)
  then show ?case by (rule placed_opened)
next
  case (joined used w e zid mates pt w')
  then show ?case by (intro placed_start)
qed (auto intro: placed_finish placed_abandon placed_request placed_npc placed_tick placed_complete placed_tell
    placed_read placed_group_move placed_end)


section \<open>A crossing from tick to arrival\<close>

text \<open>An entity crosses at most one link in a tick.\<close>

lemma absent_silent:
  "run_steps (move_step dt) rs z = (z', out) \<Longrightarrow> \<not> present z e \<Longrightarrow> e \<notin> fst ` set out"
proof (induction rs arbitrary: z out)
  case (Cons r rs)
  obtain z1 out1 where s: "move_step dt r z = (z1, out1)" by force
  obtain z2 out2 where t: "run_steps (move_step dt) rs z1 = (z2, out2)" by force
  have out: "z2 = z'" "out = out1 @ out2" using Cons.prems(1) by (simp_all add: s t)
  obtain e' pt seq where r: "r = (e', pt, seq)" by (cases r)
  have "e \<notin> fst ` set out1"
    by (rule move_step_cases [OF s [unfolded r]]) (use Cons.prems(2) in \<open>auto simp: present_def\<close>)
  moreover have "e \<notin> fst ` set out2"
    using Cons.IH [OF t [unfolded out(1)]] move_keeps_away [OF Cons.prems(2) s] by blast
  ultimately show ?case by (simp add: out image_Un)
qed simp

lemma one_transition:
  "run_steps (move_step dt) rs z = (z', out) \<Longrightarrow> (e, ZoneTransition t) \<in> set out \<Longrightarrow>
     (e, ZoneTransition t') \<in> set out \<Longrightarrow> t' = t"
proof (induction rs arbitrary: z out)
  case (Cons r rs)
  obtain z1 out1 where s: "move_step dt r z = (z1, out1)" by force
  obtain z2 out2 where u: "run_steps (move_step dt) rs z1 = (z2, out2)" by force
  have out: "z2 = z'" "out = out1 @ out2" using Cons.prems(1) by (simp_all add: s u)
  note u = u [unfolded out(1)]
  have once: "t1 = t2" if "(e, ZoneTransition t1) \<in> set out1" "(e, ZoneTransition t2) \<in> set out1" for t1 t2
  proof -
    obtain e' pt seq where r: "r = (e', pt, seq)" by (cases r)
    show ?thesis by (rule move_step_cases [OF s [unfolded r]]) (use that in auto)
  qed
  have later: "(e, ZoneTransition t2) \<notin> set out2" if "(e, ZoneTransition t1) \<in> set out1" for t1 t2
    using absent_silent [OF u, of e] move_transition [OF s that] by force
  show ?case using Cons.prems(2,3) Cons.IH [OF u] once later unfolding out(2) set_append by blast
qed simp

lemma tick_one_transition:
  assumes "zone_tick z = Some (z', out)" "(e, ZoneTransition t) \<in> set out" "(e, ZoneTransition t') \<in> set out"
  shows "t' = t"
proof -
  obtain nanos z1 out1 out2 where
    m: "run_steps (move_step (as_secs_f64 nanos)) (zn_pending_moves z) (begin_tick z) = (z1, out1)"
    and u: "run_steps teleport_step (zn_pending_teleports z) (drain_teleports z1) = (z', out2)"
    and out: "out = out1 @ out2"
    by (rule zone_tick_split [OF assms(1)])
  have "(e, ZoneTransition x) \<notin> set out2" for x by (rule teleports_cross_nothing [OF u])
  then show ?thesis using one_transition [OF m] assms(2,3) by (auto simp: out)
qed

lemma entry_point_upd [simp]: "entry_point (upd_layer p f reg) = entry_point reg"
  by (simp add: fun_eq_iff entry_point_def)

text \<open>What the outcomes of a tick do to the crossings, and what they leave alone.\<close>

lemma outcomes_frame:
  "lw_conns (fold (handle_outcome p) out w) = lw_conns w" "lw_telling (fold (handle_outcome p) out w) = lw_telling w"
  "lw_told (fold (handle_outcome p) out w) = lw_told w"
  "exists_layer (fold (handle_outcome p) out w) q = exists_layer w q"
  "entry_point (lw_registry (fold (handle_outcome p) out w)) = entry_point (lw_registry w)"
  "set (lw_inflight w) \<subseteq> set (lw_inflight (fold (handle_outcome p) out w))"
proof (induction out arbitrary: w)
  case (Cons eo out)
  have f: "lw_conns (handle_outcome p eo w) = lw_conns w" "lw_telling (handle_outcome p eo w) = lw_telling w"
    "lw_told (handle_outcome p eo w) = lw_told w" "exists_layer (handle_outcome p eo w) q = exists_layer w q"
    "entry_point (lw_registry (handle_outcome p eo w)) = entry_point (lw_registry w)"
    "set (lw_inflight w) \<subseteq> set (lw_inflight (handle_outcome p eo w))" for w :: layered
    by (auto simp: handle_outcome_def exists_layer_def split: prod.split movement_outcome.split option.split)
  case 1 show ?case using Cons.IH(1) f by simp
  case 2 show ?case using Cons.IH(2) f by simp
  case 3 show ?case using Cons.IH(3) f by simp
  case 4 show ?case using Cons.IH(4) f by simp
  case 5 show ?case using Cons.IH(5) f by simp
  case 6 show ?case using Cons.IH(6) [of "handle_outcome p eo w"] f(6) [of w] by simp
qed simp_all

lemma outcomes_carry:
  assumes "held w p e" "(e, ZoneTransition t) \<in> set out" "\<And>x. (e, ZoneTransition x) \<in> set out \<Longrightarrow> x = t"
  shows "(e, fst p, t) \<in> set (lw_inflight (fold (handle_outcome p) out w))"
  using assms
proof (induction out arbitrary: w)
  case (Cons eo out)
  obtain e' res where eo: "eo = (e', res)" by (cases eo)
  show ?case
  proof (cases "eo = (e, ZoneTransition t)")
    case True
    then have "(e, fst p, t) \<in> set (lw_inflight (handle_outcome p eo w))"
      using Cons.prems(1) by (auto simp: handle_outcome_def held_def split: option.splits)
    then show ?thesis using outcomes_frame(6) by fastforce
  next
    case False
    then have "res \<noteq> ZoneTransition x \<or> e' \<noteq> e" for x using Cons.prems(3) eo by auto
    then have "held (handle_outcome p eo w) p e"
      using Cons.prems(1) by (auto simp: eo handle_outcome_def where_in_layer held_def split: movement_outcome.split option.splits)
    then show ?thesis using Cons.IH False Cons.prems(2,3) by auto
  qed
qed simp

lemma find_last: "\<forall>x \<in> set xs. \<not> P x \<Longrightarrow> P y \<Longrightarrow> List.find P (xs @ [y]) = Some y"
  by (induction xs) auto

text \<open>
  C12: A crossing hands the player over whole. When a tick takes a registered player over a link to a
  zone this process runs, a task carries the player, who is in no layer meanwhile; once the task has
  placed the player, told the connection, and the connection has read it, the connection talks to the
  first layer of the target, the player is registered in that layer and no other, and stands on the
  ground at the entry point the two manifests determine.
\<close>

theorem crossing_hands_over:
  assumes "lw_reach sp used w" "has_row (lw_conns w) e" "\<forall>t \<in> set (lw_told w). fst t \<noteq> e"
    and "layer_at (lw_registry w) p = Some l" "holds l e"
    and "zone_tick (ly_zone l) = Some (z', out)" "(e, ZoneTransition target) \<in> set out"
    and "layer_at (lw_registry w) (target, 0) \<noteq> None"
    and "w1 = layer_tick p w" "w2 = complete_zone_transition (e, fst p, target) w1"
    and "w3 = tell_zone_changed (e, target) w2" "w4 = read_zone_changed e w3"
  shows "(e, fst p, target) \<in> set (lw_inflight w1) \<and> (\<forall>q. \<not> held w1 q e)
    \<and> map_of (lw_conns w4) e = Some (target, 0) \<and> (\<forall>q. held w4 q e \<longleftrightarrow> q = (target, 0))
    \<and> map_option (\<lambda>l. zone_position_of (ly_zone l) e) (layer_at (lw_registry w4) (target, 0))
        = Some (Some (case entry_point (lw_registry w) (fst p) target of (x, y) \<Rightarrow> (x, y, f_zero)))"
proof -
  let ?p = "(target, 0)" and ?w = "in_layer p (\<lambda>l. l\<lparr>ly_zone := z'\<rparr>) w"
  have w1: "w1 = fold (handle_outcome p) out ?w" by (simp add: assms(4,6,9) layer_tick_def)
  have here: "held w p e" using assms(4,5) by (simp add: held_def)
  then have "held ?w p e" by simp
  then have job: "(e, fst p, target) \<in> set (lw_inflight w1)"
    unfolding w1 by (rule outcomes_carry [OF _ assms(7)]) (rule tick_one_transition [OF assms(6,7)])
  have c1: "lw_conns w1 = lw_conns w" "lw_told w1 = lw_told w" "entry_point (lw_registry w1) = entry_point (lw_registry w)"
    by (simp_all add: w1 outcomes_frame)
  have "exists_layer ?w ?p" using assms(8) by (auto simp: exists_layer_def)
  then have "exists_layer w1 ?p" by (simp add: w1 outcomes_frame)
  then obtain tl where tl: "layer_at (lw_registry w1) ?p = Some tl" by (auto simp: exists_layer_def)
  have r1: "lw_reach sp used w1" unfolding assms(9) by (rule lw_reach.ticked [OF assms(1)])
  have j: "e \<in> flying w1" using job by (force simp: flying_def)
  have w2: "lw_conns w2 = lw_conns w" "lw_told w2 = lw_told w" "lw_joining w2 = lw_joining w1"
      "lw_telling w2 = lw_telling w1 @ [(e, target)]" "held w2 = (\<lambda>q e'. held w1 q e' \<or> (q = ?p \<and> e' = e))"
      "layer_at (lw_registry w2) ?p = Some (enter_sessions e (tl\<lparr>ly_zone := zone_spawn e Player
         (case entry_point (lw_registry w) (fst p) target of (x, y) \<Rightarrow> (x, y, f_zero)) (ly_zone tl)\<rparr>))"
    using tl by (simp_all add: assms(10) complete_zone_transition_def registry_get_def Let_def c1 fun_eq_iff exists_layer_def
        case_prod_beta) (simp_all add: spawn_into_layer_def c1)
  have r2: "lw_reach sp used w2" unfolding assms(10) by (rule lw_reach.arrived [OF r1 job])
  have r3: "lw_reach sp used w3" unfolding assms(11) by (rule lw_reach.told [OF r2]) (simp add: w2)
  have w3: "lw_conns w3 = lw_conns w" "lw_told w3 = lw_told w @ [(e, target)]" "lw_joining w3 = lw_joining w1"
      "lw_registry w3 = lw_registry w2"
    using assms(2) by (simp_all add: assms(11) tell_zone_changed_def w2)
  have "List.find (\<lambda>t. fst t = e) (lw_told w3) = Some (e, target)"
    unfolding w3 by (rule find_last) (use assms(3) in auto)
  then have w4: "lw_conns w4 = put_row e ?p (lw_conns w)" "lw_registry w4 = lw_registry w2"
    by (simp_all add: assms(12) read_zone_changed_def Let_def registry_get_def w2(6) w3)
  have h4: "held w4 = held w2" by (simp add: fun_eq_iff held_def w4)
  have "\<not> held w1 q e" for q using placed_held [OF lw_reach_placed [OF r1]] j by blast
  then show ?thesis
    by (auto simp: job w4 h4 w2)
qed

text \<open>To a zone this process does not run a crossing loses the player, who is then registered nowhere and on no way.\<close>

lemma crossing_to_unknown_zone:
  assumes "placed_ok used w" "(e, src, target) \<in> set (lw_inflight w)" "registry_get (lw_registry w) target = None"
  shows "\<not> held (complete_zone_transition (e, src, target) w) p e \<and> e \<notin> flying (complete_zone_transition (e, src, target) w)"
proof -
  have "complete_zone_transition (e, src, target) w = w\<lparr>lw_inflight := remove1 (e, src, target) (lw_inflight w)\<rparr>"
    by (simp add: complete_zone_transition_def assms(3))
  moreover have "e \<in> flying w" using assms(2) by (force simp: flying_def)
  ultimately show ?thesis
    using placed_held [OF assms(1), of p e] flying_remove [OF placed_distinct [OF assms(1)] assms(2)]
    by (auto simp: flying_def)
qed

section \<open>A realm of two zones\<close>

definition village_manifest :: zone_manifest where
  "village_manifest = sample_manifest\<lparr>zm_id := ''village'', zm_links := [\<lparr>ln_target_zone = ''forest'',
     ln_edge = [(fnum 0, fnum 40), (fnum 0, fnum 60)], ln_bidirectional = True\<rparr>]\<rparr>"

definition realm_spawner :: spawner where
  "realm_spawner = \<lparr>sp_config = world_config_default,
     sp_navmeshes = [(''forest'', sample_navmesh), (''village'', sample_navmesh)]\<rparr>"

definition realm_manifests :: "(string, zone_manifest) table" where
  "realm_manifests = [(''forest'', sample_manifest), (''village'', village_manifest)]"

definition realm_layers :: "(string, layer) table" where
  "realm_layers = [(''forest'', \<lparr>ly_zone = empty_zone, ly_sessions = []\<rparr>),
     (''village'', \<lparr>ly_zone = empty_zone\<lparr>zn_manifest := village_manifest\<rparr>, ly_sessions = []\<rparr>)]"

definition realm_opened :: layered where
  "realm_opened = \<lparr>lw_registry = registry_new realm_layers realm_manifests True 2, lw_conns = [], lw_joining = [],
     lw_inflight = [], lw_telling = [], lw_told = []\<rparr>"

definition hero_joining :: layered where
  "hero_joining = in_layer (''forest'', 0) (\<lambda>l. l\<lparr>ly_zone := zone_spawn hero Player (f64_lit 399 4, fnum 50, fnum 0) (ly_zone l)\<rparr>)
     (realm_opened\<lparr>lw_conns := [(hero, ''forest'', 0)], lw_joining := [hero]\<rparr>)"

definition hero_at_the_gate :: layered where
  "hero_at_the_gate = in_layer (''forest'', 0) (\<lambda>l. l\<lparr>ly_zone := request_move hero (f64_lit 401 4, fnum 50, fnum 0) 1 (ly_zone l)\<rparr>)
     (finish_join hero hero_joining)"

lemma forest_opened: "layer_at (lw_registry realm_opened) (''forest'', 0) = Some \<lparr>ly_zone = empty_zone, ly_sessions = []\<rparr>"
  "layer_at (lw_registry realm_opened) (''village'', 0) \<noteq> None"
  by (simp_all add: realm_opened_def registry_new_def realm_layers_def layer_at_def layers_of_def)

lemma hero_joins: "start_join realm_spawner ''forest'' [] (f64_lit 399 4, fnum 50, fnum 0) hero realm_opened = Some hero_joining"
proof -
  have "assign_layer realm_spawner ''forest'' (lw_registry realm_opened) = (Some (''forest'', 0), lw_registry realm_opened)"
    by (simp add: assign_layer_def realm_opened_def registry_new_def realm_layers_def layers_of_def layer_population_def
        least_populated_under_threshold_def)
  then show ?thesis
    by (simp add: start_join_def starting_layer_def map_filter_simps hero_joining_def put_row_def)
      (simp add: realm_opened_def)
qed

lemma hero_reaches_the_gate: "lw_reach realm_spawner {hero} hero_at_the_gate"
proof -
  have "\<not> present empty_zone e" "\<not> present (empty_zone\<lparr>zn_manifest := village_manifest\<rparr>) e" for e
    using present_new [OF empty_zone_new] by (auto simp: present_def zone_position_of_def)
  then have "lw_reach realm_spawner {} realm_opened"
    unfolding realm_opened_def by (intro lw_reach.opened) (simp add: realm_layers_def)
  then have "lw_reach realm_spawner {hero} hero_joining"
    by (rule lw_reach.joined [OF _ _ hero_joins]) simp
  then show ?thesis
    unfolding hero_at_the_gate_def
    by (intro lw_reach.moved [where p = "(''forest'', 0)"] lw_reach.settled)
      (simp_all add: hero_joining_def finish_join_def)
qed

lemma forest_gate: "\<exists>l. layer_at (lw_registry hero_at_the_gate) (''forest'', 0) = Some l \<and> holds l hero \<and> ly_zone l = leaving_zone"
  by (simp add: hero_at_the_gate_def finish_join_def hero_joining_def forest_opened leaving_zone_def)

definition hero_crossing :: layered where
  "hero_crossing = complete_zone_transition (hero, ''forest'', ''village'') (layer_tick (''forest'', 0) hero_at_the_gate)"

definition hero_arrived :: layered where
  "hero_arrived = read_zone_changed hero (tell_zone_changed (hero, ''village'') hero_crossing)"

lemma crossing_hands_over_witness:
  "map_of (lw_conns hero_arrived) hero = Some (''village'', 0) \<and> held hero_arrived (''village'', 0) hero
   \<and> \<not> held hero_arrived (''forest'', 0) hero"
proof -
  obtain l where l: "layer_at (lw_registry hero_at_the_gate) (''forest'', 0) = Some l" "holds l hero" "ly_zone l = leaving_zone"
    using forest_gate by blast
  have t: "(hero, ZoneTransition ''village'') \<in> set (snd leaving_result)" by code_simp
  have s: "has_row (lw_conns hero_at_the_gate) hero" "\<forall>t \<in> set (lw_told hero_at_the_gate). fst t \<noteq> hero"
    "layer_at (lw_registry hero_at_the_gate) (''village'', 0) \<noteq> None"
    using forest_opened(2)
    by (simp_all add: hero_at_the_gate_def finish_join_def hero_joining_def has_row_def) (simp add: realm_opened_def)
  have "zone_tick (ly_zone l) = Some (fst leaving_result, snd leaving_result)" using leaving_tick l(3) by simp
  from crossing_hands_over [OF hero_reaches_the_gate s(1,2) l(1,2) this t s(3) refl refl refl refl]
  show ?thesis by (simp add: hero_arrived_def hero_crossing_def)
qed


definition full_registry :: zone_registry where
  "full_registry = upd_layer (''forest'', 0) (\<lambda>l. l\<lparr>ly_sessions := [hero, wolf]\<rparr>) (lw_registry realm_opened)"


text \<open>
  A player who disconnects while crossing is left behind. A connection that ends after the crossing has
  placed its player in the target zone and before it has read \<open>ZoneChanged\<close> cleans up the zone it believes
  to be in; the player stays registered and simulated in the target with nothing pending that would
  ever remove it.
\<close>

theorem crossing_leaves_a_ghost:
  "let w = tell_zone_changed (hero, ''village'') (end_connection hero hero_crossing)
   in lw_conns w = [] \<and> lw_joining w = [] \<and> lw_inflight w = [] \<and> lw_telling w = [] \<and> lw_told w = []
      \<and> held w (''village'', 0) hero \<and> inside w (''village'', 0) hero"
  by code_simp

end
