(* ===== verification/ServiceRegistry.thy ===== *)
theory ServiceRegistry
  imports Ids F64 Tables
begin

text \<open>
  \<^verbatim>\<open>service-registry/src/registry.rs\<close>: service instances announce themselves under a Redis key that
  expires, renew it by heartbeats and withdraw it; a query lists the keys of a service by a pattern and
  fetches their values. Redis is modelled as far as the crate uses it: string keys with a deadline,
  \<^verbatim>\<open>SETEX\<close>, \<^verbatim>\<open>EXPIRE\<close>, \<^verbatim>\<open>DEL\<close>, \<^verbatim>\<open>KEYS\<close>, \<^verbatim>\<open>MGET\<close> and \<^verbatim>\<open>PUBLISH\<close>. Its pattern matching, serde's JSON
  and the text of a UUID are arguments, and what is documented of them the hypotheses
  \<open>matches_globs\<close> and \<open>codec_ok\<close>.
\<close>

section \<open>Data\<close>

record instance_metadata =
  im_load :: "f64 option"
  im_capacity :: "32 word option"
  im_realm :: "string option"

record instance_info =
  in_service :: string
  in_instance :: uuid
  in_address :: string
  in_metadata :: instance_metadata
  in_registered_at :: int

datatype registry_event_kind = Registered | Deregistered

record registry_event =
  re_kind :: registry_event_kind
  re_service :: string
  re_instance :: uuid

datatype registry_error = RegisterRejected | HeartbeatRejected | NotRegistered | UndecodableInstance

text \<open>\<open>'j\<close> is the type of JSON texts.\<close>

record 'j registry_codec =
  rc_show_uuid :: "uuid \<Rightarrow> string"
  rc_put_info :: "instance_info \<Rightarrow> 'j"
  rc_get_info :: "'j \<Rightarrow> instance_info option"
  rc_put_event :: "registry_event \<Rightarrow> 'j"
  rc_get_event :: "'j \<Rightarrow> registry_event option"
  rc_matches :: "string \<Rightarrow> string \<Rightarrow> bool"

text \<open>The keys with their values and deadlines, and what was published, oldest first.\<close>

record 'j redis =
  rd_keys :: "(string, 'j \<times> int) table"
  rd_published :: "(string \<times> 'j) list"

definition no_keys :: "'j redis" where
  "no_keys = \<lparr>rd_keys = [], rd_published = []\<rparr>"

definition instance_key :: "'j registry_codec \<Rightarrow> string \<Rightarrow> uuid \<Rightarrow> string" where
  "instance_key c service i = ''registry:'' @ service @ '':'' @ rc_show_uuid c i"

definition key_pattern :: "string \<Rightarrow> string" where
  "key_pattern service = ''registry:'' @ service @ '':*''"

definition events_topic :: "string \<Rightarrow> string" where
  "events_topic service = ''registry:events:'' @ service"

section \<open>Redis\<close>

text \<open>A deadline is kept in milliseconds in 64 bits; what does not fit is refused.\<close>

definition deadline_fits :: "int \<Rightarrow> int \<Rightarrow> bool" where
  "deadline_fits now secs \<longleftrightarrow> (now + secs) * 1000 < 2 ^ 63"

definition live_value :: "'j redis \<Rightarrow> int \<Rightarrow> string \<Rightarrow> 'j option" where
  "live_value s now key = (case map_of (rd_keys s) key of
     Some (v, deadline) \<Rightarrow> if now < deadline then Some v else None
   | None \<Rightarrow> None)"

definition set_ex :: "string \<Rightarrow> 'j \<Rightarrow> 64 word \<Rightarrow> int \<Rightarrow> 'j redis \<Rightarrow> 'j redis option" where
  "set_ex key v ttl now s =
     (if ttl = 0 \<or> \<not> deadline_fits now (uint ttl) then None
      else Some (s\<lparr>rd_keys := put_row key (v, now + uint ttl) (rd_keys s)\<rparr>))"

definition expire :: "string \<Rightarrow> int \<Rightarrow> int \<Rightarrow> 'j redis \<Rightarrow> (bool \<times> 'j redis) option" where
  "expire key secs now s =
     (if \<not> deadline_fits now secs then None
      else if live_value s now key = None then Some (False, s)
      else if secs \<le> 0 then Some (True, s\<lparr>rd_keys := del_row key (rd_keys s)\<rparr>)
      else Some (True, s\<lparr>rd_keys := upd_row key (\<lambda>(v, _). (v, now + secs)) (rd_keys s)\<rparr>))"

definition keys_matching :: "'j registry_codec \<Rightarrow> string \<Rightarrow> int \<Rightarrow> 'j redis \<Rightarrow> string list" where
  "keys_matching c pattern now s =
     filter (\<lambda>key. live_value s now key \<noteq> None \<and> rc_matches c pattern key) (map fst (rd_keys s))"

section \<open>The registry\<close>

definition publish_event :: "'j registry_codec \<Rightarrow> string \<Rightarrow> uuid \<Rightarrow> registry_event_kind \<Rightarrow> 'j redis \<Rightarrow> 'j redis" where
  "publish_event c service i kind s = s\<lparr>rd_published := rd_published s @
     [(events_topic service, rc_put_event c \<lparr>re_kind = kind, re_service = service, re_instance = i\<rparr>)]\<rparr>"

definition service_register ::
  "'j registry_codec \<Rightarrow> 64 word \<Rightarrow> int \<Rightarrow> string \<Rightarrow> uuid \<Rightarrow> string \<Rightarrow> instance_metadata \<Rightarrow> 'j redis
   \<Rightarrow> (registry_error + unit) \<times> 'j redis" where
  "service_register c ttl now service i address metadata s =
     (let info = \<lparr>in_service = service, in_instance = i, in_address = address, in_metadata = metadata,
            in_registered_at = now\<rparr>
      in case set_ex (instance_key c service i) (rc_put_info c info) ttl now s of
           None \<Rightarrow> (Inl RegisterRejected, s)
         | Some s1 \<Rightarrow> (Inr (), publish_event c service i Registered s1))"

definition service_heartbeat ::
  "'j registry_codec \<Rightarrow> 64 word \<Rightarrow> int \<Rightarrow> string \<Rightarrow> uuid \<Rightarrow> 'j redis \<Rightarrow> (registry_error + unit) \<times> 'j redis" where
  "service_heartbeat c ttl now service i s = (case expire (instance_key c service i) (sint ttl) now s of
     None \<Rightarrow> (Inl HeartbeatRejected, s)
   | Some (refreshed, s1) \<Rightarrow> (if \<not> refreshed then Inl NotRegistered else Inr (), s1))"

definition service_deregister :: "'j registry_codec \<Rightarrow> string \<Rightarrow> uuid \<Rightarrow> 'j redis \<Rightarrow> (registry_error + unit) \<times> 'j redis" where
  "service_deregister c service i s =
     (Inr (), publish_event c service i Deregistered (s\<lparr>rd_keys := del_row (instance_key c service i) (rd_keys s)\<rparr>))"

fun decode_all :: "'j registry_codec \<Rightarrow> 'j list \<Rightarrow> registry_error + instance_info list" where
  "decode_all c [] = Inr []"
| "decode_all c (v # vs) = (case rc_get_info c v of
     None \<Rightarrow> Inl UndecodableInstance
   | Some info \<Rightarrow> (case decode_all c vs of Inl e \<Rightarrow> Inl e | Inr infos \<Rightarrow> Inr (info # infos)))"

text \<open>The keys are scanned in one command and their values fetched in a later one.\<close>

definition service_query ::
  "'j registry_codec \<Rightarrow> string \<Rightarrow> 'j redis \<times> int \<Rightarrow> 'j redis \<times> int \<Rightarrow> registry_error + instance_info list" where
  "service_query c service scanned fetched =
     (let keys = keys_matching c (key_pattern service) (snd scanned) (fst scanned)
      in if keys = [] then Inr []
         else decode_all c (List.map_filter (live_value (fst fetched) (snd fetched)) keys))"

text \<open>What a subscriber of a service sees of the messages published since it subscribed.\<close>

definition service_events :: "'j registry_codec \<Rightarrow> string \<Rightarrow> (string \<times> 'j) list \<Rightarrow> registry_event list" where
  "service_events c service published =
     List.map_filter (\<lambda>(topic, v). if topic = events_topic service then rc_get_event c v else None) published"

section \<open>What the crate relies on\<close>

text \<open>
  JSON has no infinities and no NaN: serde writes null and reads nothing. A UUID prints without a colon and
  parses back, so no two print alike; a pattern that is plain text before one final star matches by prefix.
\<close>

definition through_json :: "instance_info \<Rightarrow> instance_info" where
  "through_json info = info\<lparr>in_metadata := (in_metadata info)\<lparr>im_load :=
     (case im_load (in_metadata info) of Some x \<Rightarrow> if finite_f64 x then Some x else None | None \<Rightarrow> None)\<rparr>\<rparr>"

definition codec_ok :: "'j registry_codec \<Rightarrow> bool" where
  "codec_ok c \<longleftrightarrow> (\<forall>info. rc_get_info c (rc_put_info c info) = Some (through_json info))
     \<and> (\<forall>ev. rc_get_event c (rc_put_event c ev) = Some ev)
     \<and> inj (rc_show_uuid c) \<and> (\<forall>i. CHR '':'' \<notin> set (rc_show_uuid c i))"

definition plain_name :: "string \<Rightarrow> bool" where
  "plain_name s \<longleftrightarrow> set s \<inter> {CHR ''*'', CHR ''?'', CHR ''['', CHR '']'', CHR 0x5C, CHR ''^'', CHR '':''} = {}"

definition matches_globs :: "'j registry_codec \<Rightarrow> bool" where
  "matches_globs c \<longleftrightarrow> (\<forall>service key. plain_name service \<longrightarrow>
     (rc_matches c (key_pattern service) key \<longleftrightarrow> (\<exists>rest. key = ''registry:'' @ service @ '':'' @ rest)))"

section \<open>What a registry is\<close>

text \<open>The specification knows no keys and no JSON: per service and instance, what it announced and until when.\<close>

type_synonym listing = "string \<times> uuid \<Rightarrow> (instance_info \<times> int) option"

datatype registry_call =
    Call_Register string uuid string instance_metadata
  | Call_Heartbeat string uuid
  | Call_Deregister string uuid

fun listing_step :: "64 word \<Rightarrow> int \<times> registry_call \<Rightarrow> listing \<Rightarrow> (registry_error + unit) \<times> listing" where
  "listing_step ttl (now, Call_Register service i address metadata) a =
     (if ttl = 0 \<or> \<not> deadline_fits now (uint ttl) then (Inl RegisterRejected, a)
      else (Inr (), a((service, i) \<mapsto> (\<lparr>in_service = service, in_instance = i, in_address = address,
        in_metadata = metadata, in_registered_at = now\<rparr>, now + uint ttl))))"
| "listing_step ttl (now, Call_Heartbeat service i) a =
     (if \<not> deadline_fits now (sint ttl) then (Inl HeartbeatRejected, a)
      else case a (service, i) of
        None \<Rightarrow> (Inl NotRegistered, a)
      | Some (info, deadline) \<Rightarrow>
          if \<not> now < deadline then (Inl NotRegistered, a)
          else if sint ttl \<le> 0 then (Inr (), a((service, i) := None))
          else (Inr (), a((service, i) \<mapsto> (info, now + sint ttl))))"
| "listing_step ttl (now, Call_Deregister service i) a = (Inr (), a((service, i) := None))"

fun redis_step :: "'j registry_codec \<Rightarrow> 64 word \<Rightarrow> int \<times> registry_call \<Rightarrow> 'j redis \<Rightarrow> (registry_error + unit) \<times> 'j redis" where
  "redis_step c ttl (now, Call_Register service i address metadata) s = service_register c ttl now service i address metadata s"
| "redis_step c ttl (now, Call_Heartbeat service i) s = service_heartbeat c ttl now service i s"
| "redis_step c ttl (now, Call_Deregister service i) s = service_deregister c service i s"

fun replies :: "('e \<Rightarrow> 's \<Rightarrow> 'r \<times> 's) \<Rightarrow> 'e list \<Rightarrow> 's \<Rightarrow> 'r list \<times> 's" where
  "replies f [] s = ([], s)"
| "replies f (e # es) s = (case f e s of (r, s1) \<Rightarrow> (case replies f es s1 of (rs, s2) \<Rightarrow> (r # rs, s2)))"

lemma append_separator:
  "c \<notin> set ys \<Longrightarrow> c \<notin> set ys' \<Longrightarrow> xs @ c # ys = xs' @ c # ys' \<Longrightarrow> xs = xs' \<and> ys = ys'"
  by (induction xs arbitrary: xs') (case_tac xs'; auto simp: Cons_eq_append_conv)+

lemma instance_key_inject:
  assumes "codec_ok c"
  shows "instance_key c service i = instance_key c service' i' \<longleftrightarrow> service = service' \<and> i = i'"
  using assms append_separator [of "CHR '':''" "rc_show_uuid c i" "rc_show_uuid c i'" service service']
  by (auto simp: instance_key_def codec_ok_def dest: injD)

definition represents :: "'j registry_codec \<Rightarrow> listing \<Rightarrow> 'j redis \<Rightarrow> bool" where
  "represents c a s \<longleftrightarrow> keys_unique (rd_keys s)
     \<and> (\<forall>service i. map_of (rd_keys s) (instance_key c service i)
          = map_option (\<lambda>(info, deadline). (rc_put_info c info, deadline)) (a (service, i)))
     \<and> (\<forall>key. has_row (rd_keys s) key \<longrightarrow> (\<exists>service i. key = instance_key c service i))"

lemma represents_none: "represents c (\<lambda>_. None) no_keys"
  by (simp add: represents_def no_keys_def has_row_def keys_unique_def)

lemma redis_step_refines:
  assumes "codec_ok c" "represents c a s" "redis_step c ttl e s = (r, s')" "listing_step ttl e a = (r', a')"
  shows "r = r' \<and> represents c a' s'"
proof -
  note inj = instance_key_inject [OF assms(1)]
  obtain now call where e: "e = (now, call)" by (cases e)
  have k: "keys_unique (rd_keys s)"
    and m: "\<And>service i. map_of (rd_keys s) (instance_key c service i)
          = map_option (\<lambda>(info, deadline). (rc_put_info c info, deadline)) (a (service, i))"
    and h: "\<And>key. has_row (rd_keys s) key \<Longrightarrow> \<exists>service i. key = instance_key c service i"
    using assms(2) by (auto simp: represents_def)
  show ?thesis
  proof (cases call)
    case (Call_Register service i address metadata)
    then show ?thesis
      using assms(2-4) k m h
      by (auto simp: e service_register_def set_ex_def Let_def publish_event_def represents_def inj split: if_splits)
  next
    case (Call_Heartbeat service i)
    then show ?thesis
      using assms(2-4) k m h
      by (auto simp: e service_heartbeat_def expire_def live_value_def represents_def inj split: if_splits option.splits)
  next
    case (Call_Deregister service i)
    then show ?thesis
      using assms(3,4) k m h by (auto simp: e service_deregister_def publish_event_def represents_def inj)
  qed
qed

lemma registry_run_refines:
  "codec_ok c \<Longrightarrow> represents c a s \<Longrightarrow> replies (redis_step c ttl) es s = (rs, s') \<Longrightarrow>
     replies (listing_step ttl) es a = (rs', a') \<Longrightarrow> rs = rs' \<and> represents c a' s'"
proof (induction es arbitrary: a s rs rs')
  case (Cons e es)
  obtain r s1 where 1: "redis_step c ttl e s = (r, s1)" by force
  obtain r' a1 where 2: "listing_step ttl e a = (r', a1)" by force
  have "r = r' \<and> represents c a1 s1" by (rule redis_step_refines [OF Cons.prems(1,2) 1 2])
  then show ?case
    using Cons.IH [OF Cons.prems(1), of a1 s1] Cons.prems(3,4) by (auto simp: 1 2 split: prod.splits)
qed simp

section \<open>Queries\<close>

text \<open>The services of a listing, whose names hold no colon, do not get mixed up with a plain one; an instance announces itself.\<close>

lemma key_prefix:
  assumes "CHR '':'' \<notin> set service" "CHR '':'' \<notin> set service'"
  shows "(\<exists>rest. instance_key c service' i = ''registry:'' @ service @ '':'' @ rest) \<longleftrightarrow> service' = service"
proof
  assume "\<exists>rest. instance_key c service' i = ''registry:'' @ service @ '':'' @ rest"
  then obtain rest where "service' @ CHR '':'' # rc_show_uuid c i = service @ CHR '':'' # rest"
    by (auto simp: instance_key_def)
  then show "service' = service" using assms
    by (auto simp: append_eq_append_conv2 Cons_eq_append_conv append_eq_Cons_conv)
qed (simp add: instance_key_def)

lemma decode_stored:
  "codec_ok c \<Longrightarrow> decode_all c (map (rc_put_info c) infos) = Inr (map through_json infos)"
  by (induction infos) (simp_all add: codec_ok_def)

definition well_listed :: "listing \<Rightarrow> bool" where
  "well_listed a \<longleftrightarrow> (\<forall>service i info deadline. a (service, i) = Some (info, deadline) \<longrightarrow>
     CHR '':'' \<notin> set service \<and> in_instance info = i)"

lemma keys_of_service:
  assumes "codec_ok c" "matches_globs c" "represents c a s" "well_listed a" "plain_name service"
  shows "set (keys_matching c (key_pattern service) now s) =
      {instance_key c service i |i. \<exists>info deadline. a (service, i) = Some (info, deadline) \<and> now < deadline}"
proof (intro set_eqI iffI)
  note inj = instance_key_inject [OF assms(1)]
  have m: "map_of (rd_keys s) (instance_key c service i)
          = map_option (\<lambda>(info, deadline). (rc_put_info c info, deadline)) (a (service, i))" for service i
    using assms(3) by (simp add: represents_def)
  have plain: "CHR '':'' \<notin> set service" using assms(5) by (auto simp: plain_name_def)
  fix key
  {
    assume "key \<in> set (keys_matching c (key_pattern service) now s)"
    then have k: "live_value s now key \<noteq> None" "rc_matches c (key_pattern service) key" "has_row (rd_keys s) key"
      by (auto simp: keys_matching_def has_row_iff)
    then obtain service' i where key: "key = instance_key c service' i" using assms(3) by (auto simp: represents_def)
    obtain info deadline where a: "a (service', i) = Some (info, deadline)" "now < deadline"
      using k(1) by (auto simp: key live_value_def m split: option.splits if_splits)
    have "CHR '':'' \<notin> set service'" using assms(4) a by (auto simp: well_listed_def)
    moreover have "\<exists>rest. key = ''registry:'' @ service @ '':'' @ rest"
      using k(2) assms(2,5) by (simp add: matches_globs_def)
    ultimately have "service' = service" using key_prefix [OF plain, of service' c i] unfolding key by blast
    then show "key \<in> {instance_key c service i |i. \<exists>info deadline. a (service, i) = Some (info, deadline) \<and> now < deadline}"
      using a key by blast
  next
    assume "key \<in> {instance_key c service i |i. \<exists>info deadline. a (service, i) = Some (info, deadline) \<and> now < deadline}"
    then obtain i info deadline where k: "key = instance_key c service i" "a (service, i) = Some (info, deadline)" "now < deadline"
      by blast
    then have "map_of (rd_keys s) key = Some (rc_put_info c info, deadline)" by (simp add: m)
    moreover have "\<exists>rest. key = ''registry:'' @ service @ '':'' @ rest"
      by (simp add: k(1) instance_key_def)
    then have "rc_matches c (key_pattern service) key"
      using assms(2,5) by (simp add: matches_globs_def)
    ultimately show "key \<in> set (keys_matching c (key_pattern service) now s)"
      using k(3) by (auto simp: keys_matching_def live_value_def dest!: map_of_SomeD intro!: rev_image_eqI)
  }
qed

text \<open>A query whose fetch comes later than its scan lists what is still alive then.\<close>

lemma query_lists:
  assumes "codec_ok c" "matches_globs c" "represents c a s" "well_listed a" "plain_name service" "now \<le> later"
  shows "\<exists>infos. service_query c service (s, now) (s, later) = Inr (map through_json infos) \<and> distinct infos
     \<and> set infos = {info. \<exists>i deadline. a (service, i) = Some (info, deadline) \<and> later < deadline}"
proof -
  let ?keys = "keys_matching c (key_pattern service) now s"
  have m: "map_of (rd_keys s) (instance_key c service i)
          = map_option (\<lambda>(info, deadline). (rc_put_info c info, deadline)) (a (service, i))" for service i
    using assms(3) by (simp add: represents_def)
  have d: "distinct ?keys" using assms(3) by (simp add: keys_matching_def represents_def keys_unique_def)
  have keys: "set ?keys = {instance_key c service i |i. \<exists>info deadline. a (service, i) = Some (info, deadline) \<and> now < deadline}"
    by (rule keys_of_service [OF assms(1-5)])
  then have "\<forall>x \<in> set ?keys. \<exists>i. x = instance_key c service i" by blast
  then have "\<exists>ids. ?keys = map (instance_key c service) ids" unfolding ex_map_conv .
  then obtain ids where ids: "?keys = map (instance_key c service) ids" by (elim exE)
  let ?g = "\<lambda>i. case a (service, i) of None \<Rightarrow> None | Some (info, deadline) \<Rightarrow> if later < deadline then Some info else None"
  let ?infos = "List.map_filter ?g ids"
  have v: "List.map_filter (live_value s later) (map (instance_key c service) is) = map (rc_put_info c) (List.map_filter ?g is)" for "is"
    by (induction "is") (auto simp: map_filter_simps live_value_def m split: option.split)
  have own: "a (service, i) = Some (info, deadline) \<Longrightarrow> in_instance info = i" for i info deadline
    using assms(4) unfolding well_listed_def by blast
  have g: "?g i = Some info \<Longrightarrow> in_instance info = i" for i info
    by (auto dest: own split: option.splits if_splits)
  have "map in_instance (List.map_filter ?g is) = filter (\<lambda>i. ?g i \<noteq> None) is" for "is"
  proof (induction "is")
    case (Cons i "is")
    then show ?case using g [of i] by (cases "?g i") (simp_all add: map_filter_simps)
  qed (simp add: map_filter_simps)
  moreover have "distinct ids" using d by (simp add: ids distinct_map)
  ultimately have "distinct (map in_instance ?infos)" by simp
  then have "distinct ?infos" by (simp add: distinct_map)
  moreover have "set ?infos = {info. \<exists>i deadline. a (service, i) = Some (info, deadline) \<and> later < deadline}"
  proof -
    have "i \<in> set ids" if "a (service, i) = Some (info, deadline)" "later < deadline" for i info deadline
    proof -
      have "instance_key c service i \<in> set ?keys" using that assms(6) unfolding keys by (auto intro: order.strict_trans1)
      then show ?thesis using instance_key_inject [OF assms(1)] by (auto simp: ids)
    qed
    moreover have "info \<in> set (List.map_filter ?g is) \<longleftrightarrow> (\<exists>i \<in> set is. ?g i = Some info)" for info "is"
    proof (induction "is")
      case (Cons i "is")
      then show ?case by (cases "?g i") (auto simp: map_filter_simps)
    qed (simp add: map_filter_simps)
    moreover have "?g i = Some info \<longleftrightarrow> (\<exists>deadline. a (service, i) = Some (info, deadline) \<and> later < deadline)" for i info
      by (auto split: option.split)
    ultimately show ?thesis by blast
  qed
  moreover have "service_query c service (s, now) (s, later) = Inr (map through_json ?infos)"
    by (auto simp: service_query_def Let_def ids v decode_stored [OF assms(1)] map_filter_simps)
  ultimately show ?thesis by blast
qed

text \<open>The service names of a run of calls.\<close>

fun names_service :: "registry_call \<Rightarrow> string" where
  "names_service (Call_Register service _ _ _) = service"
| "names_service (Call_Heartbeat service _) = service"
| "names_service (Call_Deregister service _) = service"

lemma listing_well_listed:
  "\<forall>e \<in> set es. CHR '':'' \<notin> set (names_service (snd e)) \<Longrightarrow> well_listed a \<Longrightarrow>
     replies (listing_step ttl) es a = (rs, a') \<Longrightarrow> well_listed a'"
proof (induction es arbitrary: a rs)
  case (Cons e es)
  obtain r a1 where 1: "listing_step ttl e a = (r, a1)" by force
  obtain now call where e: "e = (now, call)" by (cases e)
  have c: "CHR '':'' \<notin> set (names_service call)" using Cons.prems(1) by (simp add: e)
  have put: "well_listed (a((service, i) \<mapsto> (info, deadline)))"
    if "CHR '':'' \<notin> set service" "in_instance info = i" for service i info deadline
    using Cons.prems(2) that by (auto simp: well_listed_def)
  have del: "well_listed (a((service, i) := None))" for service i
    using Cons.prems(2) by (auto simp: well_listed_def)
  have "well_listed a1"
  proof (cases call)
    case (Call_Register service i address metadata)
    then show ?thesis using 1 c Cons.prems(2) by (auto simp: e intro!: put split: if_splits)
  next
    case (Call_Heartbeat service i)
    have "in_instance info = i" if "a (service, i) = Some (info, deadline)" for info deadline
      using Cons.prems(2) that unfolding well_listed_def by blast
    then show ?thesis using 1 c Cons.prems(2) Call_Heartbeat
      by (auto simp: e intro!: put del split: if_splits option.splits)
  next
    case (Call_Deregister service i)
    then show ?thesis using 1 by (auto simp: e intro: del)
  qed
  then show ?case using Cons.IH [of a1] Cons.prems(1,3) by (auto simp: 1 split: prod.splits)
qed simp


text \<open>Texts by which the hypotheses hold: ids in unary, and JSON that is the value itself.\<close>

definition sample_codec :: "(instance_info + registry_event) registry_codec" where
  "sample_codec = \<lparr>rc_show_uuid = (\<lambda>i. replicate (unat i) (CHR ''x'')), rc_put_info = Inl,
     rc_get_info = (\<lambda>v. case v of Inl info \<Rightarrow> Some (through_json info) | Inr _ \<Rightarrow> None), rc_put_event = Inr,
     rc_get_event = (\<lambda>v. case v of Inl _ \<Rightarrow> None | Inr ev \<Rightarrow> Some ev),
     rc_matches = (\<lambda>pattern key. take (length pattern - 1) key = butlast pattern)\<rparr>"

lemma sample_codec_ok: "codec_ok sample_codec" "matches_globs sample_codec"
proof -
  have "inj (rc_show_uuid sample_codec)"
  proof (rule injI)
    fix i j assume "rc_show_uuid sample_codec i = rc_show_uuid sample_codec j"
    then have "length (replicate (unat i) (CHR ''x'')) = length (replicate (unat j) (CHR ''x''))"
      by (simp add: sample_codec_def)
    then show "i = j" by (simp add: word_unat_eq_iff)
  qed
  then show "codec_ok sample_codec" unfolding codec_ok_def by (auto simp: sample_codec_def)
  have pre: "take (length p) key = p \<longleftrightarrow> (\<exists>rest. key = p @ rest)" for p key :: string
    by (metis append_eq_conv_conj append_take_drop_id)
  have "butlast (key_pattern service) = ''registry:'' @ service @ '':''"
    and "length (key_pattern service) - 1 = length (''registry:'' @ service @ '':'')" for service
    by (simp_all add: key_pattern_def butlast_append)
  then have "rc_matches sample_codec (key_pattern service) key \<longleftrightarrow> (\<exists>rest. key = ''registry:'' @ service @ '':'' @ rest)" for service key
    using pre [of "''registry:'' @ service @ '':''" key] by (simp add: sample_codec_def)
  then show "matches_globs sample_codec" unfolding matches_globs_def by blast
qed

definition no_metadata :: instance_metadata where
  "no_metadata = \<lparr>im_load = None, im_capacity = None, im_realm = None\<rparr>"

text \<open>Three zones announce themselves for ten seconds; one renews in time, one too late, one withdraws.\<close>

definition zone_calls :: "(int \<times> registry_call) list" where
  "zone_calls = [(0, Call_Register ''zone'' 1 ''a:1'' no_metadata), (0, Call_Register ''zone'' 2 ''b:1'' no_metadata),
     (0, Call_Register ''zone'' 3 ''c:1'' no_metadata), (8, Call_Heartbeat ''zone'' 1), (9, Call_Deregister ''zone'' 3),
     (11, Call_Heartbeat ''zone'' 2)]"


text \<open>
  A service whose name holds a colon is listed among the instances of another: the pattern of \<open>zone\<close> matches
  the keys of \<open>zone:test\<close>.
\<close>

lemma query_lists_another_service:
  "map_sum id (map in_service) (let s = snd (redis_step sample_codec 10 (0, Call_Register ''zone:test'' 1 ''a:1'' no_metadata) no_keys)
     in service_query sample_codec ''zone'' (s, 1) (s, 1)) = Inr [''zone:test'']"
  by code_simp

end
