(* ===== verification/Spec2Isabelle.thy ===== *)
theory Spec2Isabelle
  imports ArchetypeSchema CurrencySchema Holdings Equipment Crafting Party Guild RealmTransfer TradeSession
    ZoneMotion ContentPack ChatSession GuildChat Authentication PluginSafety ZoneRegistry
    ServiceRegistry
begin

text \<open>
  A verification development for WorldZero, a server framework for persistent online worlds. The
  server is a set of Rust crates over one Postgres database: \<^verbatim>\<open>crates/character\<close> (characters,
  stats, inventory, currency, equipment, crafting, trades, parties, session leases),
  \<^verbatim>\<open>crates/guild\<close>, \<^verbatim>\<open>crates/realm-directory\<close> (realms, the login policy, live counts),
  \<^verbatim>\<open>crates/transfer\<close> (moving a character between realms), \<^verbatim>\<open>crates/world\<close> (zones, movement, the
  spatial index), \<^verbatim>\<open>crates/content\<close> (zone manifests, navigation meshes, the item catalog),
  \<^verbatim>\<open>crates/chat\<close>, \<^verbatim>\<open>crates/gateway\<close> (transports and the envelope), \<^verbatim>\<open>crates/auth\<close> and
  \<^verbatim>\<open>crates/server\<close>, whose \<^verbatim>\<open>session.rs\<close> runs one message loop per connection and calls the others.

  \<^bold>\<open>How the program is modelled.\<close> A store method is an action of \<open>Effects\<close>: a function from the
  database to a result and the database afterwards, \<open>Inl\<close> an error of \<open>Errors\<close> (one
  constructor per \<^verbatim>\<open>Error::new\<close>, with the values its message shows) and \<open>Inr\<close> a value.
  \<open>andThen\<close> is Rust's \<^verbatim>\<open>?\<close>; \<open>transaction\<close> is \<^verbatim>\<open>begin\<close> to \<^verbatim>\<open>commit\<close> and rolls back on an
  error, so a method that is not a transaction in the code keeps, in the model too, what it wrote
  before it failed. \<open>Database\<close> has one record field per table of \<^verbatim>\<open>db/migrations\<close> and
  \<open>db_wf\<close>, the constraints the migrations declare; a statement that would violate one fails with
  the Postgres error it would raise. \<open>Tables\<close> gives the statements, \<open>ItemTables\<close> the ones on
  items and balances. Integers are \<^verbatim>\<open>i64\<close> values with checked, saturating and wrapping arithmetic
  written out in \<open>Prelude\<close>. The clock, fresh UUIDs, the random generator, the YAML parser and the
  purchase verifier are arguments of the definitions that use them; nothing is assumed of them.

  \<^bold>\<open>The theories.\<close>
  \<^item> \<open>Prelude\<close>, \<open>Ids\<close>, \<open>Errors\<close>, \<open>Effects\<close>, \<open>Tables\<close>, \<open>Database\<close>: integers, typed ids
    (\<^verbatim>\<open>common/src/id.rs\<close>), errors, actions with a small logic for invariants (\<open>preserves\<close>, its
    rules in \<open>pres_intros\<close>), tables and constraints. \<open>Samples\<close>: a small database for concrete runs.
  \<^item> \<open>AttributeSchema\<close> (\<^verbatim>\<open>schema.rs\<close>), \<open>CharacterStore\<close> (\<^verbatim>\<open>store.rs\<close>), \<open>ItemTables\<close> and
    \<open>Inventory\<close> (\<^verbatim>\<open>inventory.rs\<close>, \<^verbatim>\<open>slots.rs\<close>), with \<open>Holdings\<close> their properties: stat writes
    within bounds, exact grants, removals and balances, exclusive slots, deletion with its cascades.
  \<^item> \<open>EquipmentSchema\<close> (also \<^verbatim>\<open>item_catalog_ref.rs\<close>), \<open>CraftingSchema\<close>, \<open>CurrencySchema\<close>,
    \<open>ArchetypeSchema\<close>: the loaders' validation, shown equivalent to a specification of sound
    schemas, and the breakdown of a balance into denominations.
  \<^item> \<open>Ledger\<close>: the interface of a per-character store of amounts (taking and giving, what a list of
    each does), interpreted by items and by currency. \<open>Trade\<close> (\<^verbatim>\<open>trade.rs\<close>): an exchange moves
    exactly the two offers, is atomic, within limits, and goes through when both sides can honour it.
  \<^item> \<open>TradeSession\<close> (the trade messages of \<^verbatim>\<open>server/src/session.rs\<close>): handlers over a heap of
    shared sessions, and a step relation that interleaves the handlers of different connections,
    with \<^verbatim>\<open>TradeConfirm\<close> split where it releases the session lock and where it awaits the database.
    Every interleaving conserves supply; run one at a time the handlers execute only what both
    sides confirmed; two schedules show that interleaved they do not.
  \<^item> \<open>Equipment\<close> (\<^verbatim>\<open>equipment.rs\<close>): nothing is lost or duplicated although neither operation is a
    transaction; taking off undoes putting on. \<open>Crafting\<close> (\<^verbatim>\<open>crafting.rs\<close>): when a craft succeeds,
    what it exchanges, and the recipes it consumes too little of.
  \<^item> \<open>Party\<close> (\<^verbatim>\<open>party_schema.rs\<close>, \<^verbatim>\<open>party.rs\<close>): rosters keep the declared sizes under every
    sequence of invites and departures. \<open>Guild\<close> (\<^verbatim>\<open>guild/src\<close>): no membership changes without
    authority, founders are protected, how a guild ends.
  \<^item> \<open>SessionLease\<close> (\<^verbatim>\<open>session_lease.rs\<close>, \<^verbatim>\<open>bound_liveness.rs\<close>): the interface of a lock that
    expires, interpreted by the lease; mutual exclusion under every sequence of attempts.
    \<open>RealmDirectory\<close> (\<^verbatim>\<open>realm-directory/src\<close>): the login policy, the login lookup, deletion of a
    realm, live counts. \<open>RealmTransfer\<close> (\<^verbatim>\<open>transfer/src\<close>): when a transfer succeeds, what it moves,
    that a failed one changes nothing but the log, and that the log is complete.

  \<^item> \<open>F64\<close>: binary64 arithmetic on integer significands and exponents, with rounding, signed zeros, infinities and NaN, so that
    comparisons behave as Rust's. \<open>RustText\<close>: trimming, splitting and parsing of strings.
  \<^item> \<open>ContentManifest\<close>, \<open>Navmesh\<close>, \<open>ContentPack\<close> (\<^verbatim>\<open>content/src\<close>): validation of a zone's manifest,
    point-in-polygon tests, the asset store, the navigation mesh, the pack of zones with their links
    (a loaded pack is closed), the item catalog.
  \<^item> \<open>WorldConfig\<close>, \<open>Spatial\<close>, \<open>Movement\<close>, \<open>Zone\<close>, \<open>ZoneMotion\<close> (\<^verbatim>\<open>world/src\<close>): configuration, the grid
    index refining the plain map of positions, movement validation, the zone's queues and tick. Its
    outcomes explain every position, entities stay on walkable ground and leave only by a link.
  \<^item> \<open>ChatStore\<close>, \<open>ChatSession\<close> (\<^verbatim>\<open>chat/src\<close>, \<^verbatim>\<open>server/src/chat_session.rs\<close>): channels and members as
    tables with their unique indexes, and the connections' forwarder tasks over a message bus. Who
    hears what, under every order of joins, leaves, zone changes and bus failures.
  \<^item> \<open>Envelope\<close> (\<^verbatim>\<open>gateway/src/envelope.rs\<close>): framing of a byte stream and of datagrams;
    \<open>length_delimited\<close> states what the third-party framing codec promises. \<open>Wire\<close>, \<open>Protocols\<close>,
    \<open>WorldProtocol\<close>: the message types and their conversion to and from the generated protobuf types;
    the locale \<open>wire_protocol\<close> is interpreted by all of them.
  \<^item> \<open>Connections\<close> (\<^verbatim>\<open>session.rs\<close>, the UDP task of \<^verbatim>\<open>main.rs\<close>): the process-wide tables of who is
    connected, the binding of UDP addresses, and the routing of envelopes. \<open>SocialSession\<close>: the party and
    guild messages of \<^verbatim>\<open>session.rs\<close>. \<open>SocialViews\<close>, \<open>GuildViews\<close>: the locale \<open>roster_view\<close> says when pushed
    updates keep what the clients show equal to the stores' rosters; every sequence of messages does.
    \<open>GuildChat\<close>: so does it keep a guild's chat channel equal to the guild.

  \<^item> \<open>Authentication\<close> (\<^verbatim>\<open>auth/src\<close>, \<^verbatim>\<open>authenticate\<close> in \<^verbatim>\<open>session.rs\<close>): accounts, roles, session tokens and the
    handshake. Whoever is authenticated is entitled to it; the in-memory stores agree with Postgres,
    each an interpretation of the locale \<open>account_store\<close>.

  \<^item> \<open>PluginManifest\<close>, \<open>PluginHost\<close> (\<^verbatim>\<open>plugin-host/src\<close>, \<^verbatim>\<open>server/src/plugin_startup.rs\<close>): what a plugin
    declares, the checks of it, the capability gate and the host functions behind it. A compiled plugin
    is an argument: for every hook call a tree of host calls that branches on their answers.
    \<open>WorldActor\<close> (\<^verbatim>\<open>server/src/world_actor.rs\<close>, \<^verbatim>\<open>plugin_state.rs\<close>): the task of a zone, the hooks it fires and
    the application of what they queued. \<open>PluginSafety\<close>: no sequence of hooks over any zones, whatever the
    plugins do, changes more than their declared capabilities allow.

  \<^item> \<open>ZoneRegistry\<close> (\<^verbatim>\<open>server/src/zone_registry.rs\<close>, the transitions of \<^verbatim>\<open>main.rs\<close>, the movement of
    connections in \<^verbatim>\<open>session.rs\<close>): the layers of a zone, which one a connection is given, and the steps of a
    crossing, a group move, a join and a departure, in any order. A player is in one place, and a
    crossing hands it over whole; a player who disconnects while crossing is left behind.

  \<^item> \<open>ServiceRegistry\<close> (\<^verbatim>\<open>service-registry/src\<close>): instances announced under Redis keys that expire; the registry
    refines a listing of who announced what until when, and a query returns exactly those alive.

  \<^bold>\<open>How they interact.\<close> A login asks \<open>authorize_login\<close>, which takes a lease on an open realm; a
  bound realm registers liveness, which \<open>transfer\<close> consults. Trades, crafts, equipment and grants
  all write the items and balances through the statements of \<open>ItemTables\<close>, and stat changes all go
  through \<open>AttributeSchema\<close>. A connection's bytes pass \<open>Envelope\<close>, \<open>Wire\<close> and \<open>route_envelope\<close> to the
  handlers, which call the stores and answer through the tables of \<open>Connections\<close>.

  \<^bold>\<open>Bounds.\<close> No definition runs out of fuel: every loop of the modelled code is a recursion on a
  list, except the receive loop \<open>drain\<close> of \<open>Envelope\<close>, a \<open>partial_function\<close> that is shown to end on
  every input that the framing codec can have produced. Schedules in \<open>TradeSession\<close>, \<open>ChatSession\<close>,
  \<open>Connections\<close>, \<open>GuildViews\<close> and \<open>ZoneRegistry\<close> are arbitrary sequences of steps.

  \<^bold>\<open>Not modelled.\<close> Sockets, TLS and DTLS, password hashing, the WebAssembly engine (a hook that never
  returns has no tree of calls), prost's byte encoding,
  logging, metrics, pools and process start-up (I/O and third-party code). A database or connection
  failure in the middle of an operation is modelled only as far as transactions and their rollback.
  In \<open>TradeSession\<close> each handler other than the confirmation is one step, in \<open>SocialSession\<close> every
  handler is, in \<open>ZoneRegistry\<close> a group move is, and messages to clients are recorded, not delivered.
\<close>

section \<open>Presence and transfer\<close>

text \<open>A character whose bound-realm connection is registered and unexpired is not transferred.\<close>

theorem online_character_stays:
  assumes "db_wf db" "fresh_entry db (fst ids)" "fresh_entry db (snd ids)"
    and "map_of (bound_liveness db) (rq_character rq) = Some l" "now < live_expires_at l"
  shows "\<exists>e db'. transfer verify now ids rq db = (Inl e, db') \<and> characters db' = characters db
     \<and> items db' = items db"
proof -
  have "live_at db (rq_character rq) now" using assms(4,5) by (simp add: live_at_def)
  then have "\<not> transfer_allowed verify now rq db ch gate" for ch gate
    by (simp add: transfer_allowed_def)
  then have "\<nexists>u db'. transfer verify now ids rq db = (Inr u, db')"
    using transfer_Inr [OF assms(1,2)] by blast
  then obtain e db' where run: "transfer verify now ids rq db = (Inl e, db')"
    by (metis old.sum.exhaust surj_pair)
  with transfer_Inl [OF assms(1-3) run] show ?thesis by simp
qed

end
